(* ===== verification/Prelude.thy ===== *)
theory Prelude
  imports Main "HOL-Library.Code_Target_Nat"
begin

text \<open>
  Shared ground of the development: the sentinel errors and the result type of the Go
  functions, the part of Go's \<^verbatim>\<open>strings\<close>, \<^verbatim>\<open>strconv\<close> and
  \<^verbatim>\<open>unicode\<close> packages the sources call, and the generic lemmas the component
  theories use.

  A Go string is a list of bytes, and so is an Isabelle \<open>string\<close>: \<open>length\<close> is
  \<^verbatim>\<open>len\<close>. \<^verbatim>\<open>strings.TrimSpace\<close> is modelled on the bytes of every Unicode
  white space rune. The case mappings (\<^verbatim>\<open>ToLower\<close>, \<^verbatim>\<open>ToUpper\<close>,
  \<^verbatim>\<open>EqualFold\<close>) map the ASCII letters and leave every other byte alone, which is
  what Go does to ASCII text and to text in scripts without case, such as Hangul; cased
  letters beyond ASCII are outside the model.

  A Go \<^verbatim>\<open>int\<close> is an \<open>int\<close>. Where the code can leave the 64-bit range the
  wrap-around is written out with \<open>wrap64\<close>; elsewhere a bound check of the code keeps
  every intermediate value far inside it.
\<close>

named_theorems go_string \<open>facts on the string functions of Go's library\<close>
named_theorems result_simps \<open>facts on error results\<close>

section \<open>Errors and results\<close>

text \<open>
  The sentinels the repository wraps with \<^verbatim>\<open>fmt.Errorf("%w: ...")\<close>; the callers
  test them with \<^verbatim>\<open>errors.Is\<close>, so the message is not part of the model.
  \<open>Panic\<close> is a run-time panic, such as a nil dereference.
\<close>

datatype go_error =
    ErrInvalidRange
  | ErrBounds
  | ErrInvalid
  | ErrNotFound
  | ErrVersionAhead
  | ErrVersionConflict
  | ErrValidation
  | ErrForbidden
  | ErrRevision
  | ErrDuplicateName
  | ProtectionFailure
  | Panic

type_synonym 'a result = "go_error + 'a"

definition bind_result :: "'a result \<Rightarrow> ('a \<Rightarrow> 'b result) \<Rightarrow> 'b result" where
  "bind_result m f = (case m of Inl e \<Rightarrow> Inl e | Inr x \<Rightarrow> f x)"

definition is_ok :: "'a result \<Rightarrow> bool" where
  "is_ok r = (case r of Inl _ \<Rightarrow> False | Inr _ \<Rightarrow> True)"

lemma bind_result_Inl [simp, result_simps]: "bind_result (Inl e) f = Inl e"
  by (simp add: bind_result_def)

lemma bind_result_Inr [simp, result_simps]: "bind_result (Inr x) f = f x"
  by (simp add: bind_result_def)

lemma bind_result_eq_Inr [result_simps]:
  "bind_result m f = Inr y \<longleftrightarrow> (\<exists>x. m = Inr x \<and> f x = Inr y)"
  by (cases m) simp_all

lemma bind_result_eq_Inl [result_simps]:
  "bind_result m f = Inl e \<longleftrightarrow> m = Inl e \<or> (\<exists>x. m = Inr x \<and> f x = Inl e)"
  by (cases m) simp_all

lemma is_ok_simps [simp, result_simps]: "is_ok (Inl e) = False" "is_ok (Inr x) = True"
  by (simp_all add: is_ok_def)

text \<open>A field of an update request that may be absent (a nil pointer).\<close>

definition given :: "'a option \<Rightarrow> 'a \<Rightarrow> 'a" where
  "given p old = (case p of None \<Rightarrow> old | Some new \<Rightarrow> new)"

section \<open>Bytes\<close>

abbreviation byte :: "char \<Rightarrow> nat" where
  "byte c \<equiv> of_char c"

definition is_digit_byte :: "char \<Rightarrow> bool" where
  "is_digit_byte c = (48 \<le> byte c \<and> byte c \<le> 57)"

definition is_upper_byte :: "char \<Rightarrow> bool" where
  "is_upper_byte c = (65 \<le> byte c \<and> byte c \<le> 90)"

definition is_lower_byte :: "char \<Rightarrow> bool" where
  "is_lower_byte c = (97 \<le> byte c \<and> byte c \<le> 122)"

definition is_alpha_byte :: "char \<Rightarrow> bool" where
  "is_alpha_byte c = (is_upper_byte c \<or> is_lower_byte c)"

lemma byte_char_of [simp]: "n < 256 \<Longrightarrow> byte (char_of n) = n"
  by (simp add: of_char_of)

lemma byte_less_256 [simp]: "byte c < (256 :: nat)"
  by (metis char_of_char of_char_of mod_less_divisor zero_less_numeral)

section \<open>Case mapping and folding\<close>

definition upper_byte :: "char \<Rightarrow> char" where
  "upper_byte c = (if is_lower_byte c then char_of (byte c - 32) else c)"

definition lower_byte :: "char \<Rightarrow> char" where
  "lower_byte c = (if is_upper_byte c then char_of (byte c + 32) else c)"

definition to_upper :: "string \<Rightarrow> string" where
  "to_upper s = map upper_byte s"

definition to_lower :: "string \<Rightarrow> string" where
  "to_lower s = map lower_byte s"

definition equal_fold :: "string \<Rightarrow> string \<Rightarrow> bool" where
  "equal_fold s t = (to_lower s = to_lower t)"

lemma lower_byte_idem [simp]: "lower_byte (lower_byte c) = lower_byte c"
  by (simp add: lower_byte_def is_upper_byte_def)

lemma to_lower_idem [simp, go_string]: "to_lower (to_lower s) = to_lower s"
  by (simp add: to_lower_def)

lemma to_lower_Nil_iff [simp, go_string]: "to_lower s = [] \<longleftrightarrow> s = []"
  by (simp add: to_lower_def)

lemma to_lower_Nil [simp, go_string]: "to_lower [] = []"
  by (simp add: to_lower_def)

lemma to_lower_append [go_string]: "to_lower (s @ t) = to_lower s @ to_lower t"
  by (simp add: to_lower_def)

lemma length_to_lower [simp]: "length (to_lower s) = length s"
  by (simp add: to_lower_def)

lemma equal_fold_refl [simp, go_string]: "equal_fold s s"
  by (simp add: equal_fold_def)

lemma equal_fold_sym [go_string]: "equal_fold s t \<Longrightarrow> equal_fold t s"
  by (simp add: equal_fold_def)

lemma equal_fold_trans [go_string]: "equal_fold s t \<Longrightarrow> equal_fold t u \<Longrightarrow> equal_fold s u"
  by (simp add: equal_fold_def)

lemma equal_fold_Nil [simp, go_string]: "equal_fold s [] \<longleftrightarrow> s = []" "equal_fold [] s \<longleftrightarrow> s = []"
  by (auto simp: equal_fold_def to_lower_def)

lemma upper_byte_upper [simp]: "\<not> is_lower_byte c \<Longrightarrow> upper_byte c = c"
  by (simp add: upper_byte_def)

lemma to_upper_id: "\<forall>c \<in> set s. \<not> is_lower_byte c \<Longrightarrow> to_upper s = s"
  by (simp add: to_upper_def map_idI)

section \<open>White space\<close>

text \<open>
  \<open>lead_space\<close> is the length in bytes of the white space rune a string starts with, and 0
  if it starts with none; \<open>trail_space\<close> is the same for the end of a string given in
  reverse. The runes are those of \<^verbatim>\<open>unicode.IsSpace\<close>: tab, line feed, vertical
  tab, form feed, carriage return, space, U+0085, U+00A0, U+1680, U+2000 to U+200A,
  U+2028, U+2029, U+202F, U+205F and U+3000.
\<close>

definition ascii_space :: "nat \<Rightarrow> bool" where
  "ascii_space b = ((9 \<le> b \<and> b \<le> 13) \<or> b = 32)"

definition space2 :: "nat \<Rightarrow> nat \<Rightarrow> bool" where
  "space2 a b = (a = 194 \<and> (b = 133 \<or> b = 160))"

definition space3 :: "nat \<Rightarrow> nat \<Rightarrow> nat \<Rightarrow> bool" where
  "space3 a b c =
     (a = 225 \<and> b = 154 \<and> c = 128 \<or>
      a = 226 \<and> b = 128 \<and> (128 \<le> c \<and> c \<le> 138 \<or> c = 168 \<or> c = 169 \<or> c = 175) \<or>
      a = 226 \<and> b = 129 \<and> c = 159 \<or>
      a = 227 \<and> b = 128 \<and> c = 128)"

fun lead_space :: "string \<Rightarrow> nat" where
  "lead_space [] = 0"
| "lead_space [a] = (if ascii_space (byte a) then 1 else 0)"
| "lead_space [a, b] =
     (if ascii_space (byte a) then 1 else if space2 (byte a) (byte b) then 2 else 0)"
| "lead_space (a # b # c # _) =
     (if ascii_space (byte a) then 1
      else if space2 (byte a) (byte b) then 2
      else if space3 (byte a) (byte b) (byte c) then 3 else 0)"

fun trail_space :: "string \<Rightarrow> nat" where
  "trail_space [] = 0"
| "trail_space [a] = (if ascii_space (byte a) then 1 else 0)"
| "trail_space [b, a] =
     (if ascii_space (byte b) then 1 else if space2 (byte a) (byte b) then 2 else 0)"
| "trail_space (c # b # a # _) =
     (if ascii_space (byte c) then 1
      else if space2 (byte b) (byte c) then 2
      else if space3 (byte a) (byte b) (byte c) then 3 else 0)"

function strip :: "(string \<Rightarrow> nat) \<Rightarrow> string \<Rightarrow> string" where
  "strip f s = (if f s = 0 \<or> s = [] then s else strip f (drop (f s) s))"
  by pat_completeness auto
termination
  by (relation "measure (\<lambda>(f, s). length s)") auto

declare strip.simps [simp del]

definition trim_space :: "string \<Rightarrow> string" where
  "trim_space s = rev (strip trail_space (rev (strip lead_space s)))"

lemma strip_stop: "f s = 0 \<Longrightarrow> strip f s = s"
  by (simp add: strip.simps)

lemma strip_Nil [simp]: "strip f [] = []"
  by (simp add: strip.simps)

lemma strip_suffix: "\<exists>n. strip f s = drop n s"
proof (induction f s rule: strip.induct)
  case (1 f s)
  show ?case
  proof (cases "f s = 0 \<or> s = []")
    case True
    then show ?thesis by (metis drop0 strip.simps)
  next
    case False
    then obtain n where "strip f (drop (f s) s) = drop n (drop (f s) s)" using 1 by blast
    with False show ?thesis by (metis drop_drop strip.simps)
  qed
qed

lemma strip_done: "f [] = 0 \<Longrightarrow> f (strip f s) = 0"
proof (induction f s rule: strip.induct)
  case (1 f s)
  then show ?case by (cases "f s = 0 \<or> s = []") (auto simp: strip.simps [of f s])
qed

lemma lead_space_ascii:
  "\<not> ascii_space (byte a) \<Longrightarrow> byte a < 128 \<Longrightarrow> lead_space (a # s) = 0"
  by (cases "(a # s)" rule: lead_space.cases) (auto simp: space2_def space3_def)

lemma trail_space_ascii:
  "\<not> ascii_space (byte a) \<Longrightarrow> byte a < 128 \<Longrightarrow> trail_space (a # s) = 0"
  by (cases "(a # s)" rule: trail_space.cases) (auto simp: space2_def space3_def)

lemma trim_space_id [go_string]:
  assumes "s \<noteq> []" "\<not> ascii_space (byte (hd s))" "byte (hd s) < 128"
    "\<not> ascii_space (byte (last s))" "byte (last s) < 128"
  shows "trim_space s = s"
proof -
  have "lead_space s = 0" using assms(1-3) by (cases s) (auto intro: lead_space_ascii)
  then have l: "strip lead_space s = s" by (rule strip_stop)
  have "trail_space (rev s) = 0"
    using assms(1,4,5) by (cases "rev s") (auto intro: trail_space_ascii simp: last_rev [symmetric])
  then show ?thesis by (simp add: trim_space_def l strip_stop)
qed

lemma trim_space_Nil [simp, go_string]: "trim_space [] = []"
  by (simp add: trim_space_def)

lemma lead_space_append: "lead_space s \<noteq> 0 \<Longrightarrow> lead_space (s @ t) \<noteq> 0"
  by (cases s rule: lead_space.cases; cases t rule: lead_space.cases) (auto split: if_splits)

lemma trim_space_idem [simp, go_string]: "trim_space (trim_space s) = trim_space s"
proof -
  let ?l = "strip lead_space s"
  obtain n where n: "strip trail_space (rev ?l) = drop n (rev ?l)" using strip_suffix by blast
  let ?t = "rev (strip trail_space (rev ?l))"
  have "lead_space ?l = 0" by (simp add: strip_done)
  moreover have "\<exists>u. ?l = ?t @ u"
    by (metis append_take_drop_id n rev_append rev_rev_ident)
  ultimately have "lead_space ?t = 0" using lead_space_append by metis
  then have "strip lead_space ?t = ?t" by (rule strip_stop)
  moreover have "strip trail_space (rev ?t) = rev ?t"
    by (simp add: strip_done strip_stop)
  ultimately show ?thesis by (simp add: trim_space_def)
qed

lemma space_upper [simp]:
  "ascii_space (byte (upper_byte c)) = ascii_space (byte c)"
  "space2 (byte (upper_byte a)) (byte (upper_byte b)) = space2 (byte a) (byte b)"
  "space3 (byte (upper_byte a)) (byte (upper_byte b)) (byte (upper_byte c)) = space3 (byte a) (byte b) (byte c)"
  by (auto simp: upper_byte_def is_lower_byte_def ascii_space_def space2_def space3_def)

lemma lead_space_upper: "lead_space (map upper_byte s) = lead_space s"
  by (cases s rule: lead_space.cases) simp_all

lemma trail_space_upper: "trail_space (map upper_byte s) = trail_space s"
  by (cases s rule: trail_space.cases) simp_all

lemma strip_map: "(\<And>s. f (map g s) = f s) \<Longrightarrow> strip f (map g s) = map g (strip f s)"
proof (induction f s rule: strip.induct)
  case (1 f s)
  then show ?case
    by (cases "f s = 0 \<or> s = []") (auto simp: strip.simps [of f s] strip.simps [of f "map g s"] drop_map)
qed

lemma trim_space_upper [go_string]: "trim_space (to_upper s) = to_upper (trim_space s)"
  by (simp add: trim_space_def to_upper_def strip_map lead_space_upper trail_space_upper rev_map)

lemma upper_byte_idem [simp]: "upper_byte (upper_byte c) = upper_byte c"
  by (cases "is_lower_byte c") (auto simp: upper_byte_def is_lower_byte_def)

lemma to_upper_idem [simp, go_string]: "to_upper (to_upper s) = to_upper s"
  by (simp add: to_upper_def)

lemma to_upper_Nil_iff [simp, go_string]: "to_upper s = [] \<longleftrightarrow> s = []"
  by (simp add: to_upper_def)

section \<open>Numbers\<close>

definition wrap64 :: "int \<Rightarrow> int" where
  "wrap64 n = (n + 2 ^ 63) mod 2 ^ 64 - 2 ^ 63"

lemma wrap64_id: "- (2 ^ 63) \<le> n \<Longrightarrow> n < 2 ^ 63 \<Longrightarrow> wrap64 n = n"
  by (simp add: wrap64_def)

definition is_int64 :: "int \<Rightarrow> bool" where
  "is_int64 n = (- (2 ^ 63) \<le> n \<and> n < 2 ^ 63)"

lemma wrap64_minus: "wrap64 (wrap64 a - b) = wrap64 (a - b)"
proof -
  have "((a + 2 ^ 63) mod 2 ^ 64 - 2 ^ 63 - b + 2 ^ 63) mod 2 ^ 64 = (a - b + 2 ^ 63) mod (2 ^ 64 :: int)"
    by (simp add: algebra_simps mod_diff_left_eq mod_add_left_eq)
  then show ?thesis by (simp add: wrap64_def)
qed

lemma wrap64_over: "2 ^ 63 \<le> n \<Longrightarrow> n < 2 ^ 63 + 2 ^ 64 \<Longrightarrow> wrap64 n = n - 2 ^ 64"
proof -
  assume "2 ^ 63 \<le> n" "n < 2 ^ 63 + 2 ^ 64"
  then have "(n + 2 ^ 63 - 2 ^ 64) mod 2 ^ 64 = n + 2 ^ 63 - 2 ^ 64" by (intro mod_pos_pos_trivial) simp_all
  moreover have "(n + 2 ^ 63 - 2 ^ 64) mod 2 ^ 64 = (n + 2 ^ 63) mod (2 ^ 64 :: int)"
    by (rule minus_mod_self2)
  ultimately have "(n + 2 ^ 63) mod 2 ^ 64 = n + 2 ^ 63 - 2 ^ 64" by metis
  then show ?thesis unfolding wrap64_def by (simp only:)
qed

definition digit_value :: "char \<Rightarrow> int" where
  "digit_value c = int (byte c) - 48"

definition decimal :: "string \<Rightarrow> int" where
  "decimal s = foldl (\<lambda>n c. n * 10 + digit_value c) 0 s"

definition all_digits :: "string \<Rightarrow> bool" where
  "all_digits s = (s \<noteq> [] \<and> list_all is_digit_byte s)"

text \<open>
  \<^verbatim>\<open>strconv.Atoi\<close>: an optional sign, then decimal digits, then the 64-bit range
  check; \<open>None\<close> is the error.
\<close>

definition range_checked :: "int \<Rightarrow> int option" where
  "range_checked n = (if - (2 ^ 63) \<le> n \<and> n < 2 ^ 63 then Some n else None)"

definition atoi :: "string \<Rightarrow> int option" where
  "atoi s =
     (case s of
        [] \<Rightarrow> None
      | c # cs \<Rightarrow>
          if c = CHR ''-'' then (if all_digits cs then range_checked (- decimal cs) else None)
          else if c = CHR ''+'' then (if all_digits cs then range_checked (decimal cs) else None)
          else if all_digits s then range_checked (decimal s) else None)"

definition digit_char :: "nat \<Rightarrow> char" where
  "digit_char d = char_of (48 + d)"

fun show_nat :: "nat \<Rightarrow> string" where
  "show_nat n = (if n < 10 then [digit_char n] else show_nat (n div 10) @ [digit_char (n mod 10)])"

declare show_nat.simps [simp del]

definition itoa :: "int \<Rightarrow> string" where
  "itoa n = (if n < 0 then CHR ''-'' # show_nat (nat (- n)) else show_nat (nat n))"

lemma digit_char_byte [simp]: "d < 10 \<Longrightarrow> byte (digit_char d) = 48 + d"
  by (simp add: digit_char_def)

lemma digit_char_is_digit [simp]: "d < 10 \<Longrightarrow> is_digit_byte (digit_char d)"
  by (simp add: is_digit_byte_def)

lemma show_nat_not_Nil [simp]: "show_nat n \<noteq> []"
  by (subst show_nat.simps) simp

lemma show_nat_digits [simp]: "list_all is_digit_byte (show_nat n)"
proof (induction n rule: show_nat.induct)
  case (1 n)
  then show ?case by (subst show_nat.simps) auto
qed

lemma all_digits_show_nat [simp]: "all_digits (show_nat n)"
  by (simp add: all_digits_def)

lemma decimal_snoc: "decimal (s @ [c]) = decimal s * 10 + digit_value c"
  by (simp add: decimal_def)

lemma decimal_show_nat [simp]: "decimal (show_nat n) = int n"
proof (induction n rule: show_nat.induct)
  case (1 n)
  show ?case
  proof (cases "n < 10")
    case True
    then show ?thesis by (subst show_nat.simps) (simp add: decimal_def digit_value_def)
  next
    case False
    with 1 have "decimal (show_nat (n div 10)) = int (n div 10)" by simp
    moreover have "int (n div 10) * 10 + int (n mod 10) = int n" by presburger
    ultimately show ?thesis using False
      by (subst show_nat.simps) (simp add: decimal_snoc digit_value_def)
  qed
qed

lemma digit_not_sign: "is_digit_byte c \<Longrightarrow> c \<noteq> CHR ''-'' \<and> c \<noteq> CHR ''+''"
  by (auto simp: is_digit_byte_def)

lemma atoi_digits: "all_digits s \<Longrightarrow> atoi s = range_checked (decimal s)"
  by (cases s) (auto simp: atoi_def all_digits_def dest: digit_not_sign)

lemma atoi_itoa [go_string]: "0 \<le> n \<Longrightarrow> n < 2 ^ 63 \<Longrightarrow> atoi (itoa n) = Some n"
  by (simp add: itoa_def atoi_digits range_checked_def)

lemma itoa_pos_digits [simp]: "0 \<le> n \<Longrightarrow> all_digits (itoa n)"
  by (simp add: itoa_def)

lemma itoa_inj_nonneg: "0 \<le> m \<Longrightarrow> 0 \<le> n \<Longrightarrow> itoa m = itoa n \<Longrightarrow> m = n"
  by (metis itoa_def decimal_show_nat int_nat_eq linorder_not_le)

section \<open>Splitting and joining\<close>

text \<open>\<^verbatim>\<open>strings.Split\<close> with a one-byte separator: never the empty list.\<close>

fun split_on :: "char \<Rightarrow> string \<Rightarrow> string list" where
  "split_on sep [] = [[]]"
| "split_on sep (c # cs) =
     (if c = sep then [] # split_on sep cs
      else (case split_on sep cs of [] \<Rightarrow> [[c]] | p # ps \<Rightarrow> (c # p) # ps))"

lemma split_on_none: "sep \<notin> set s \<Longrightarrow> split_on sep s = [s]"
  by (induction s) auto

lemma split_on_app: "sep \<notin> set s \<Longrightarrow> split_on sep (s @ sep # t) = s # split_on sep t"
  by (induction s) auto

text \<open>\<^verbatim>\<open>strings.Join\<close>.\<close>

fun join :: "string \<Rightarrow> string list \<Rightarrow> string" where
  "join sep [] = []"
| "join sep [x] = x"
| "join sep (x # y # xs) = x @ sep @ join sep (y # xs)"

section \<open>Sorted lists\<close>

lemma sort_again [simp]: "sort (sort xs) = sort xs"
  by (rule sort_key_id_if_sorted) simp

lemma sort_key_strict:
  fixes k :: "'a \<Rightarrow> 'b::linorder"
  assumes "distinct (map k xs)"
  shows "sorted_wrt (\<lambda>a b. k a < k b) (sort_key k xs)"
proof -
  have "distinct (map k (sort_key k xs))" using assms by (simp add: distinct_map)
  moreover have "sorted (map k (sort_key k xs))" by simp
  ultimately have "sorted_wrt (<) (map k (sort_key k xs))" by (simp add: strict_sorted_iff)
  then show ?thesis by (simp add: sorted_wrt_map)
qed

lemma sort_key_strict_id:
  fixes k :: "'a \<Rightarrow> 'b::linorder"
  assumes "sorted_wrt (\<lambda>a b. k a < k b) xs"
  shows "sort_key k xs = xs"
proof -
  have "sorted (map k xs)"
    using assms by (auto simp: sorted_wrt_map elim: sorted_wrt_mono_rel [rotated])
  then show ?thesis by (rule sort_key_id_if_sorted)
qed

end
