(* ===== verification/CellRange.thy ===== *)
theory CellRange
  imports Prelude
begin

text \<open>
  A1 addresses: the package \<^verbatim>\<open>pkg/cellrange\<close>. \<open>Parse\<close> reads a cell or a
  top-left to bottom-right range, \<open>Address\<close> prints a position, \<open>Contains\<close> tests a
  cell against a range. The theorems: whatever \<open>Parse\<close> accepts lies inside the sheet,
  every position of the sheet prints to an address that reads back to it, and distinct
  positions have distinct addresses.
\<close>

section \<open>Definitions\<close>

definition MaxRows :: int where
  "MaxRows = 1048576"

definition MaxColumns :: int where
  "MaxColumns = 16384"

record Position =
  Row :: int
  Column :: int

record Range =
  Start :: Position
  End :: Position

text \<open>
  \<^verbatim>\<open>unicode.IsLetter(rune(b))\<close> for one byte \<open>b\<close>: the code hands a single byte
  of the string to it, so the letters are those of the Latin-1 block.
\<close>

definition is_letter_latin1 :: "char \<Rightarrow> bool" where
  "is_letter_latin1 c =
     (is_alpha_byte c \<or> byte c = 170 \<or> byte c = 181 \<or> byte c = 186 \<or>
      192 \<le> byte c \<and> byte c \<le> 214 \<or> 216 \<le> byte c \<and> byte c \<le> 246 \<or> 248 \<le> byte c)"

text \<open>\<^verbatim>\<open>int(value[i]-'A'+1)\<close>: the subtraction is on bytes and wraps at 256.\<close>

definition letter_value :: "char \<Rightarrow> int" where
  "letter_value c = (int (byte c) - 65 + 1) mod 256"

fun parseColumn :: "int \<Rightarrow> string \<Rightarrow> (int \<times> string) result" where
  "parseColumn column [] = Inr (column, [])"
| "parseColumn column (c # cs) =
     (if is_letter_latin1 c then
        (let column' = column * 26 + letter_value c in
         if column' > MaxColumns then Inl ErrInvalidRange else parseColumn column' cs)
      else Inr (column, c # cs))"

definition parsePosition :: "string \<Rightarrow> Position result" where
  "parsePosition v =
     (let value = filter (\<lambda>c. c \<noteq> CHR ''$'') v in
      if value = [] then Inl ErrInvalidRange
      else bind_result (parseColumn 0 value) (\<lambda>(column, rest).
        if rest = value \<or> rest = [] then Inl ErrInvalidRange
        else (case atoi rest of
                None \<Rightarrow> Inl ErrInvalidRange
              | Some row \<Rightarrow>
                  if row < 1 \<or> row > MaxRows \<or> column < 1 then Inl ErrInvalidRange
                  else Inr \<lparr>Row = row, Column = column\<rparr>)))"

definition Parse :: "string \<Rightarrow> Range result" where
  "Parse value =
     (case split_on (CHR '':'') (to_upper (trim_space value)) of
        [p] \<Rightarrow> bind_result (parsePosition p) (\<lambda>start. Inr \<lparr>Start = start, End = start\<rparr>)
      | [p, q] \<Rightarrow>
          bind_result (parsePosition p) (\<lambda>start.
          bind_result (parsePosition q) (\<lambda>end.
            if Row start > Row end \<or> Column start > Column end then Inl ErrInvalidRange
            else Inr \<lparr>Start = start, End = end\<rparr>))
      | _ \<Rightarrow> Inl ErrInvalidRange)"

definition Contains :: "Range \<Rightarrow> int \<Rightarrow> int \<Rightarrow> bool" where
  "Contains r row column =
     (row \<ge> Row (Start r) \<and> row \<le> Row (End r) \<and>
      column \<ge> Column (Start r) \<and> column \<le> Column (End r))"

text \<open>The loop of \<^verbatim>\<open>Address\<close>, which prepends one letter per turn.\<close>

function columnLoop :: "int \<Rightarrow> string \<Rightarrow> string" where
  "columnLoop column letters =
     (if column > 0 then
        columnLoop ((column - 1) div 26) (char_of (nat (65 + (column - 1) mod 26)) # letters)
      else letters)"
  by pat_completeness auto
termination
  by (relation "measure (\<lambda>(column, letters). nat column)") auto

declare columnLoop.simps [simp del]

definition Address :: "int \<Rightarrow> int \<Rightarrow> string" where
  "Address row column =
     (if row < 1 \<or> column < 1 then [] else columnLoop column [] @ itoa row)"

section \<open>Positions of the sheet\<close>

definition in_sheet :: "Position \<Rightarrow> bool" where
  "in_sheet p = (1 \<le> Row p \<and> Row p \<le> MaxRows \<and> 1 \<le> Column p \<and> Column p \<le> MaxColumns)"

definition well_formed_range :: "Range \<Rightarrow> bool" where
  "well_formed_range r =
     (in_sheet (Start r) \<and> in_sheet (End r) \<and>
      Row (Start r) \<le> Row (End r) \<and> Column (Start r) \<le> Column (End r))"

lemma parseColumn_bound: "parseColumn k s = Inr (n, rest) \<Longrightarrow> k \<le> MaxColumns \<Longrightarrow> n \<le> MaxColumns"
  by (induction k s rule: parseColumn.induct) (auto simp: Let_def split: if_splits)

lemma parsePosition_in_sheet: "parsePosition s = Inr p \<Longrightarrow> in_sheet p"
  by (auto simp: parsePosition_def Let_def in_sheet_def bind_result_eq_Inr MaxColumns_def
      split: if_splits option.splits dest!: parseColumn_bound)

lemma Parse_well_formed: "Parse s = Inr r \<Longrightarrow> well_formed_range r"
  by (auto simp: Parse_def well_formed_range_def bind_result_eq_Inr
      split: list.splits if_splits dest: parsePosition_in_sheet)

section \<open>Column names\<close>

abbreviation column_fold :: "int \<Rightarrow> string \<Rightarrow> int" where
  "column_fold k s \<equiv> foldl (\<lambda>n c. n * 26 + letter_value c) k s"

lemma upper_letter_range:
  assumes "0 \<le> k" "k < 26"
  shows "is_upper_byte (char_of (nat (65 + k)))"
    and "letter_value (char_of (nat (65 + k))) = k + 1"
proof -
  have b: "byte (char_of (nat (65 + k))) = nat (65 + k)" using assms by simp
  then show "is_upper_byte (char_of (nat (65 + k)))"
    using assms unfolding is_upper_byte_def by linarith
  from b show "letter_value (char_of (nat (65 + k))) = k + 1" using assms by (simp add: letter_value_def)
qed

lemma columnLoop_append: "columnLoop n (xs @ ys) = columnLoop n xs @ ys"
proof (induction n xs rule: columnLoop.induct)
  case (1 n xs)
  then show ?case
    by (cases "0 < n") (simp_all add: columnLoop.simps [of n "xs @ ys"] columnLoop.simps [of n xs])
qed

lemma columnLoop_step:
  "0 < n \<Longrightarrow>
   columnLoop n [] = columnLoop ((n - 1) div 26) [] @ [char_of (nat (65 + (n - 1) mod 26))]"
  using columnLoop_append [of "(n - 1) div 26" "[]" "[char_of (nat (65 + (n - 1) mod 26))]"]
  by (simp add: columnLoop.simps [of n "[]"])

lemma columnLoop_nonpos: "n \<le> 0 \<Longrightarrow> columnLoop n acc = acc"
  by (simp add: columnLoop.simps)

lemma columnLoop_upper: "list_all is_upper_byte (columnLoop n [])"
proof (induction "nat n" arbitrary: n rule: less_induct)
  case less
  show ?case
  proof (cases "0 < n")
    case True
    then have "list_all is_upper_byte (columnLoop ((n - 1) div 26) [])" by (intro less) simp
    with True show ?thesis by (simp add: columnLoop_step upper_letter_range)
  qed (simp add: columnLoop_nonpos)
qed

lemma column_fold_columnLoop: "0 \<le> n \<Longrightarrow> column_fold 0 (columnLoop n []) = n"
proof (induction "nat n" arbitrary: n rule: less_induct)
  case less
  show ?case
  proof (cases "0 < n")
    case True
    then have "column_fold 0 (columnLoop ((n - 1) div 26) []) = (n - 1) div 26"
      by (intro less) simp_all
    with True show ?thesis by (simp add: columnLoop_step upper_letter_range)
  next
    case False
    with less.prems show ?thesis by (simp add: columnLoop_nonpos)
  qed
qed

lemma columnLoop_not_Nil: "0 < n \<Longrightarrow> columnLoop n [] \<noteq> []"
  by (simp add: columnLoop_step)

lemma upper_letter:
  assumes "is_upper_byte c"
  shows "is_letter_latin1 c" "1 \<le> letter_value c" "letter_value c \<le> 26"
  using assms by (auto simp: is_letter_latin1_def is_alpha_byte_def is_upper_byte_def letter_value_def)

lemma column_fold_mono:
  "list_all is_upper_byte s \<Longrightarrow> 0 \<le> k \<Longrightarrow> k \<le> column_fold k s"
proof (induction s arbitrary: k)
  case (Cons c s)
  then have v: "1 \<le> letter_value c" by (simp add: upper_letter)
  with Cons.prems have "k \<le> k * 26 + letter_value c" "0 \<le> k * 26 + letter_value c" by linarith+
  with Cons show ?case by fastforce
qed simp

lemma parseColumn_letters:
  assumes "list_all is_upper_byte s" "0 \<le> k" "column_fold k s \<le> MaxColumns"
    "rest = [] \<or> \<not> is_letter_latin1 (hd rest)"
  shows "parseColumn k (s @ rest) = Inr (column_fold k s, rest)"
  using assms
proof (induction s arbitrary: k)
  case Nil
  then show ?case by (cases rest) auto
next
  case (Cons c s)
  let ?k = "k * 26 + letter_value c"
  have c: "is_letter_latin1 c" "0 \<le> ?k" using Cons.prems upper_letter [of c] by auto
  then have "?k \<le> column_fold ?k s" using Cons.prems by (intro column_fold_mono) auto
  then have "?k \<le> MaxColumns" using Cons.prems by simp
  with c Cons show ?case by simp
qed

section \<open>Printing and reading back\<close>

lemma digit_not_letter: "is_digit_byte c \<Longrightarrow> \<not> is_letter_latin1 c"
  by (auto simp: is_digit_byte_def is_letter_latin1_def is_alpha_byte_def is_upper_byte_def is_lower_byte_def)

lemma all_digits_hd: "all_digits s \<Longrightarrow> \<not> is_letter_latin1 (hd s)"
  by (cases s) (auto simp: all_digits_def digit_not_letter)

text \<open>The bytes of a printed address: capital letters, then digits.\<close>

definition address_byte :: "char \<Rightarrow> bool" where
  "address_byte c = (is_upper_byte c \<or> is_digit_byte c)"

lemma address_byte_facts:
  assumes "address_byte c"
  shows "c \<noteq> CHR ''$''" "c \<noteq> CHR '':''" "\<not> is_lower_byte c" "\<not> ascii_space (byte c)" "byte c < 128"
  using assms
  by (auto simp: address_byte_def is_upper_byte_def is_digit_byte_def is_lower_byte_def ascii_space_def)

lemma Address_bytes: "list_all address_byte (Address row column)"
proof -
  have "list_all address_byte (columnLoop column [])"
    using columnLoop_upper [of column] by (auto simp: list_all_iff address_byte_def)
  moreover have "1 \<le> row \<Longrightarrow> list_all address_byte (itoa row)"
    using itoa_pos_digits [of row] by (auto simp: list_all_iff address_byte_def all_digits_def)
  ultimately show ?thesis by (simp add: Address_def)
qed

lemma Address_not_Nil: "1 \<le> row \<Longrightarrow> 1 \<le> column \<Longrightarrow> Address row column \<noteq> []"
  by (simp add: Address_def columnLoop_not_Nil)

lemma parsePosition_Address:
  assumes "in_sheet p"
  shows "parsePosition (Address (Row p) (Column p)) = Inr p"
proof -
  let ?row = "Row p" and ?col = "Column p"
  let ?v = "Address ?row ?col"
  have r: "1 \<le> ?row" "?row \<le> MaxRows" "1 \<le> ?col" "?col \<le> MaxColumns"
    using assms by (auto simp: in_sheet_def)
  have "\<forall>c \<in> set ?v. c \<noteq> CHR ''$''"
    using Address_bytes [of ?row ?col] by (auto simp: list_all_iff address_byte_facts)
  then have f: "filter (\<lambda>c. c \<noteq> CHR ''$'') ?v = ?v" by (rule filter_True)
  have v: "?v = columnLoop ?col [] @ itoa ?row" using r by (simp add: Address_def)
  have c: "parseColumn 0 ?v = Inr (?col, itoa ?row)"
    unfolding v using r columnLoop_upper [of ?col] column_fold_columnLoop [of ?col]
      all_digits_hd [of "itoa ?row"]
    by (subst parseColumn_letters) auto
  have a: "atoi (itoa ?row) = Some ?row"
    by (rule atoi_itoa) (use r in \<open>simp_all add: MaxRows_def\<close>)
  have ne: "columnLoop ?col [] \<noteq> []" "itoa ?row \<noteq> []"
    using r columnLoop_not_Nil [of ?col] itoa_pos_digits [of ?row] by (auto simp: all_digits_def)
  then have "itoa ?row \<noteq> ?v" "?v \<noteq> []" by (auto simp: v)
  then show ?thesis
    using r ne a by (simp add: parsePosition_def f c)
qed

lemma Address_trim: "1 \<le> row \<Longrightarrow> 1 \<le> column \<Longrightarrow>
  trim_space (Address row column) = Address row column"
  using Address_bytes [of row column] Address_not_Nil [of row column]
  by (intro trim_space_id) (auto simp: list_all_iff address_byte_facts)

lemma Address_upper: "to_upper (Address row column) = Address row column"
  using Address_bytes [of row column] by (intro to_upper_id) (auto simp: list_all_iff address_byte_facts)

lemma colon_notin_Address: "CHR '':'' \<notin> set (Address row column)"
  using Address_bytes [of row column] address_byte_facts(2) by (auto simp: list_all_iff)

text \<open>How the rest of the program prints a range: both corners, joined by a colon.\<close>

definition range_address :: "Range \<Rightarrow> string" where
  "range_address r =
     Address (Row (Start r)) (Column (Start r)) @ CHR '':'' # Address (Row (End r)) (Column (End r))"

lemma range_address_trim:
  assumes "well_formed_range r"
  shows "trim_space (range_address r) = range_address r"
proof (rule trim_space_id)
  let ?s = "Address (Row (Start r)) (Column (Start r))"
  let ?e = "Address (Row (End r)) (Column (End r))"
  have ne: "?s \<noteq> []" "?e \<noteq> []"
    using assms by (simp_all add: well_formed_range_def in_sheet_def Address_not_Nil)
  have "hd (range_address r) \<in> set ?s" "last (range_address r) \<in> set ?e" using ne by (simp_all add: range_address_def)
  moreover have "\<forall>c \<in> set ?s. address_byte c" "\<forall>c \<in> set ?e. address_byte c"
    using Address_bytes by (auto simp: list_all_iff)
  ultimately have "address_byte (hd (range_address r))" "address_byte (last (range_address r))" by blast+
  then show "\<not> ascii_space (byte (hd (range_address r)))" "byte (hd (range_address r)) < 128"
    "\<not> ascii_space (byte (last (range_address r)))" "byte (last (range_address r)) < 128"
    by (simp_all add: address_byte_facts)
qed (simp add: range_address_def)

lemma range_address_clean:
  assumes "well_formed_range r"
  shows "to_upper (trim_space (range_address r)) = range_address r"
proof -
  have "\<forall>c \<in> set (range_address r). \<not> is_lower_byte c"
    using Address_bytes address_byte_facts(3)
    by (auto simp: range_address_def list_all_iff is_lower_byte_def [of "CHR '':''"])
  then show ?thesis using range_address_trim [OF assms] by (simp add: to_upper_id)
qed

lemma Parse_range_address: "well_formed_range r \<Longrightarrow> Parse (range_address r) = Inr r"
  using range_address_clean [of r]
  by (auto simp: Parse_def range_address_def split_on_app split_on_none colon_notin_Address
      parsePosition_Address well_formed_range_def)

lemma Parse_Address:
  "in_sheet p \<Longrightarrow> Parse (Address (Row p) (Column p)) = Inr \<lparr>Start = p, End = p\<rparr>"
  by (simp add: Parse_def Address_trim Address_upper split_on_none colon_notin_Address
      parsePosition_Address in_sheet_def)

lemma Parse_clean [simp]: "Parse (to_upper (trim_space s)) = Parse s"
  by (simp add: Parse_def trim_space_upper)

lemma Parse_blank: "trim_space s = [] \<Longrightarrow> \<exists>e. Parse s = Inl e"
  by (simp add: Parse_def to_upper_def parsePosition_def)

section \<open>Properties\<close>

text \<open>
  Whatever text \<open>Parse\<close> accepts, the range it returns lies inside the sheet and runs
  from its top-left to its bottom-right corner, so no caller can be handed a position that
  names no cell.
\<close>

lemma Parse_result_in_sheet:
  assumes "Parse value = Inr r"
  shows "1 \<le> Row (Start r) \<and> Row (Start r) \<le> Row (End r) \<and> Row (End r) \<le> 1048576 \<and>
    1 \<le> Column (Start r) \<and> Column (Start r) \<le> Column (End r) \<and> Column (End r) \<le> 16384"
  using Parse_well_formed [OF assms]
  by (auto simp: well_formed_range_def in_sheet_def MaxRows_def MaxColumns_def)

text \<open>
  C40. Printing and reading are inverse: every range of the sheet, printed as its two corner
  addresses joined by a colon, reads back to itself, and so does every single cell.
\<close>

theorem Parse_Address_roundtrip:
  assumes "1 \<le> row" "row \<le> 1048576" "1 \<le> column" "column \<le> 16384"
    and "row \<le> row2" "row2 \<le> 1048576" "column \<le> column2" "column2 \<le> 16384"
  shows "Parse (Address row column @ '':'' @ Address row2 column2) =
      Inr \<lparr>Start = \<lparr>Row = row, Column = column\<rparr>, End = \<lparr>Row = row2, Column = column2\<rparr>\<rparr> \<and>
    Parse (Address row column) =
      Inr \<lparr>Start = \<lparr>Row = row, Column = column\<rparr>, End = \<lparr>Row = row, Column = column\<rparr>\<rparr>"
  using Parse_range_address [of "\<lparr>Start = \<lparr>Row = row, Column = column\<rparr>, End = \<lparr>Row = row2, Column = column2\<rparr>\<rparr>"]
    Parse_Address [of "\<lparr>Row = row, Column = column\<rparr>"] assms
  by (simp add: range_address_def well_formed_range_def in_sheet_def MaxRows_def MaxColumns_def)

theorem Parse_Address_roundtrip_witness:
  "Parse (Address 3 28 @ '':'' @ Address 9 703) =
      Inr \<lparr>Start = \<lparr>Row = 3, Column = 28\<rparr>, End = \<lparr>Row = 9, Column = 703\<rparr>\<rparr> \<and>
   Parse (Address 3 28) = Inr \<lparr>Start = \<lparr>Row = 3, Column = 28\<rparr>, End = \<lparr>Row = 3, Column = 28\<rparr>\<rparr>"
  by (rule Parse_Address_roundtrip) simp_all

text \<open>
  Two spellings \<open>Parse\<close> takes for a cell although no cell has such a name. A plus sign in
  front of the row number is accepted, because the row goes to \<^verbatim>\<open>strconv.Atoi\<close>. And
  the letters are tested byte by byte as Latin-1 characters, so the two bytes of the
  ordinal sign U+00AA count as two letters: that sign followed by \<open>1\<close> reads as row 1 of
  column 3486.
\<close>

lemma Parse_accepts_misspelt:
  "Parse ''A+5'' = Inr \<lparr>Start = \<lparr>Row = 5, Column = 1\<rparr>, End = \<lparr>Row = 5, Column = 1\<rparr>\<rparr> \<and>
   Parse [CHR 0xC2, CHR 0xAA, CHR ''1''] =
     Inr \<lparr>Start = \<lparr>Row = 1, Column = 3486\<rparr>, End = \<lparr>Row = 1, Column = 3486\<rparr>\<rparr>"
  by code_simp

end
