(* ===== verification/Motion.thy ===== *)
theory Motion
  imports Prelude
begin

text \<open>
  The interface between structural changes (rows or columns inserted, deleted or moved) and
  everything that stores a row or column index: pending cell writes, row heights, hidden
  bands, outline groups, slicers, filters, merged ranges. A change moves an index or removes
  it, and moves an interval of indices or removes it. What the clients rely on is that two
  indices never land on the same place and that an interval keeps covering what it covered;
  the lemmas here follow from these laws alone. The interpretations are in the theories of
  the functions that implement the interface.
\<close>

text \<open>Running a list of changes, and moving the keys of a table through one change.\<close>

fun move_all :: "('c \<Rightarrow> int \<Rightarrow> int option) \<Rightarrow> 'c list \<Rightarrow> int \<Rightarrow> int option" where
  "move_all move [] i = Some i"
| "move_all move (c # cs) i =
     (case move c i of None \<Rightarrow> None | Some j \<Rightarrow> move_all move cs j)"

fun span_all ::
  "('c \<Rightarrow> int \<times> int \<Rightarrow> (int \<times> int) option) \<Rightarrow> 'c list \<Rightarrow> int \<times> int \<Rightarrow> (int \<times> int) option"
where
  "span_all span [] r = Some r"
| "span_all span (c # cs) r =
     (case span c r of None \<Rightarrow> None | Some r' \<Rightarrow> span_all span cs r')"

fun move_keys :: "('k \<Rightarrow> 'k option) \<Rightarrow> ('k \<times> 'v) list \<Rightarrow> ('k \<times> 'v) list" where
  "move_keys f [] = []"
| "move_keys f ((k, v) # xs) =
     (case f k of None \<Rightarrow> move_keys f xs | Some k' \<Rightarrow> (k', v) # move_keys f xs)"

lemma move_keys_iff:
  "(k', v) \<in> set (move_keys f xs) \<longleftrightarrow> (\<exists>k. (k, v) \<in> set xs \<and> f k = Some k')"
  by (induction xs) (auto split: option.splits)

lemma move_keys_fst: "k' \<in> fst ` set (move_keys f xs) \<longleftrightarrow> (\<exists>k \<in> fst ` set xs. f k = Some k')"
  by (induction xs) (auto split: option.splits)

lemma move_keys_distinct_inj:
  assumes "\<And>i j k. f i = Some k \<Longrightarrow> f j = Some k \<Longrightarrow> i = j" "distinct (map fst xs)"
  shows "distinct (map fst (move_keys f xs))"
  using assms(2)
proof (induction xs)
  case (Cons x xs)
  obtain k v where x: "x = (k, v)" by (cases x)
  show ?case
  proof (cases "f k")
    case None
    with Cons x show ?thesis by simp
  next
    case (Some k')
    have "k' \<notin> fst ` set (move_keys f xs)"
    proof
      assume "k' \<in> fst ` set (move_keys f xs)"
      then obtain l where "l \<in> fst ` set xs" "f l = Some k'" by (auto simp: move_keys_fst)
      with Some have "k \<in> fst ` set xs" using assms(1) by blast
      with Cons.prems x show False by simp
    qed
    with Cons Some x show ?thesis by simp
  qed
qed simp

locale index_motion =
  fixes valid :: "'c \<Rightarrow> bool"
    and move :: "'c \<Rightarrow> int \<Rightarrow> int option"
  assumes move_inj: "valid c \<Longrightarrow> move c i = Some k \<Longrightarrow> move c j = Some k \<Longrightarrow> i = j"
begin

lemma move_all_inj:
  "list_all valid cs \<Longrightarrow> move_all move cs i = Some k \<Longrightarrow> move_all move cs j = Some k \<Longrightarrow> i = j"
proof (induction cs arbitrary: i j)
  case (Cons c cs)
  then obtain i' j' where m: "move c i = Some i'" "move c j = Some j'"
    by (auto split: option.splits)
  with Cons have "i' = j'" by auto
  with Cons.prems(1) m show ?case by (auto intro: move_inj)
qed simp

lemma move_keys_distinct:
  "valid c \<Longrightarrow> distinct (map fst xs) \<Longrightarrow> distinct (map fst (move_keys (move c) xs))"
  by (rule move_keys_distinct_inj) (rule move_inj)

end

locale span_motion = index_motion +
  fixes inside :: "int \<Rightarrow> bool"
    and span :: "'c \<Rightarrow> int \<times> int \<Rightarrow> (int \<times> int) option"
  assumes move_inside: "valid c \<Longrightarrow> inside i \<Longrightarrow> move c i = Some k \<Longrightarrow> inside k"
    and span_covers:
      "valid c \<Longrightarrow> inside i \<Longrightarrow> s \<le> i \<Longrightarrow> i \<le> e \<Longrightarrow> move c i = Some k \<Longrightarrow>
       \<exists>s' e'. span c (s, e) = Some (s', e') \<and> s' \<le> k \<and> k \<le> e'"
begin

lemma span_all_covers:
  "list_all valid cs \<Longrightarrow> inside i \<Longrightarrow> s \<le> i \<Longrightarrow> i \<le> e \<Longrightarrow> move_all move cs i = Some k \<Longrightarrow>
   \<exists>s' e'. span_all span cs (s, e) = Some (s', e') \<and> s' \<le> k \<and> k \<le> e'"
proof (induction cs arbitrary: s e i)
  case (Cons c cs)
  then obtain j where j: "move c i = Some j" "move_all move cs j = Some k"
    by (auto split: option.splits)
  with Cons.prems have "inside j" using move_inside by fastforce
  moreover from j Cons.prems obtain s1 e1 where "span c (s, e) = Some (s1, e1)" "s1 \<le> j" "j \<le> e1"
    using span_covers by fastforce
  ultimately show ?case using Cons j by auto
qed simp

lemma span_gone:
  "valid c \<Longrightarrow> span c (s, e) = None \<Longrightarrow> inside i \<Longrightarrow> s \<le> i \<Longrightarrow> i \<le> e \<Longrightarrow> move c i = None"
  by (metis not_Some_eq option.distinct(1) span_covers)

end

end
