(* ===== verification/Structure.thy ===== *)
theory Structure
  imports CellRange Motion
begin

text \<open>
  Structural changes on positions and intervals: the arithmetic half of
  \<^verbatim>\<open>internal/formula/structure.go\<close>. A change inserts, deletes or moves
  \<open>scCount\<close> rows or columns at \<open>scIndex\<close>; \<open>transformStructuralPosition\<close> says
  where one row or column goes, \<open>transformStructuralInterval\<close> where a span goes and
  \<open>TransformRangeAddress\<close> where a stored A1 range goes. As in the code, an action that is
  neither \<^verbatim>\<open>move\<close> nor \<^verbatim>\<open>insert\<close> deletes.
\<close>

section \<open>Definitions\<close>

record StructuralChange =
  scAxis :: string
  scAction :: string
  scIndex :: int
  scCount :: int
  scDestination :: int
  scCurrentSheet :: string
  scTargetSheet :: string

definition movedPosition :: "int \<Rightarrow> StructuralChange \<Rightarrow> int" where
  "movedPosition position change =
     (let bandEnd = scIndex change + scCount change - 1 in
      if scDestination change > bandEnd then
        (let landing = scDestination change - scCount change in
         if position \<ge> scIndex change \<and> position \<le> bandEnd
         then position + landing - scIndex change
         else if position > bandEnd \<and> position < scDestination change
         then position - scCount change
         else position)
      else if scDestination change < scIndex change then
        (if position \<ge> scIndex change \<and> position \<le> bandEnd
         then position - (scIndex change - scDestination change)
         else if position \<ge> scDestination change \<and> position < scIndex change
         then position + scCount change
         else position)
      else position)"

definition axis_limit :: "StructuralChange \<Rightarrow> int" where
  "axis_limit change = (if scAxis change = ''column'' then MaxColumns else MaxRows)"

definition transformStructuralPosition :: "int \<Rightarrow> StructuralChange \<Rightarrow> int \<times> bool" where
  "transformStructuralPosition position change =
     (if scAction change = ''move'' then (movedPosition position change, True)
      else if scAction change = ''insert'' then
        (let position' = (if position \<ge> scIndex change then position + scCount change else position)
         in (position', position' \<le> axis_limit change))
      else
        (let deletedEnd = scIndex change + scCount change - 1 in
         if position \<ge> scIndex change \<and> position \<le> deletedEnd then (0, False)
         else if position > deletedEnd then (position - scCount change, True)
         else (position, True)))"

definition TransformPosition :: "int \<Rightarrow> StructuralChange \<Rightarrow> int \<times> bool" where
  "TransformPosition position change = transformStructuralPosition position change"

text \<open>
  The closure \<^verbatim>\<open>cover\<close> of \<^verbatim>\<open>movedInterval\<close>, with its captured
  variables \<open>low\<close>, \<open>high\<close> and \<open>seen\<close> as the state it passes on.
\<close>

type_synonym cover_state = "int \<times> int \<times> bool"

definition cover :: "int \<Rightarrow> int \<Rightarrow> int \<Rightarrow> int \<Rightarrow> int \<Rightarrow> cover_state \<Rightarrow> cover_state" where
  "cover start end first0 last0 shift st =
     (case st of (low, high, seen) \<Rightarrow>
       (let f = (if first0 < start then start else first0);
            l = (if last0 > end then end else last0) in
        if f > l then (low, high, seen)
        else if \<not> seen then (f + shift, l + shift, True)
        else (if f + shift < low then f + shift else low,
              if l + shift > high then l + shift else high, True)))"

definition movedInterval :: "int \<Rightarrow> int \<Rightarrow> StructuralChange \<Rightarrow> int \<times> int" where
  "movedInterval start end change =
     (let index = scIndex change; count = scCount change; dest = scDestination change;
          bandEnd = index + count - 1;
          st = (if dest > bandEnd then
                  cover start end dest MaxRows 0
                  (cover start end 1 (index - 1) 0
                  (cover start end (bandEnd + 1) (dest - 1) (- count)
                  (cover start end index bandEnd (dest - count - index) (0, 0, False))))
                else if dest < index then
                  cover start end (bandEnd + 1) MaxRows 0
                  (cover start end 1 (dest - 1) 0
                  (cover start end dest (index - 1) count
                  (cover start end index bandEnd (dest - index) (0, 0, False))))
                else cover start end start end 0 (0, 0, False))
      in (case st of (low, high, seen) \<Rightarrow> if \<not> seen then (start, end) else (low, high)))"

definition transformStructuralInterval ::
  "int \<Rightarrow> int \<Rightarrow> StructuralChange \<Rightarrow> int \<times> int \<times> bool" where
  "transformStructuralInterval start0 end0 change =
     (let start = (if start0 > end0 then end0 else start0);
          end = (if start0 > end0 then start0 else end0) in
      if scAction change = ''move'' then
        (case movedInterval start end change of (s, e) \<Rightarrow> (s, e, True))
      else if scAction change = ''insert'' then
        (if scIndex change \<le> start then (start + scCount change, end + scCount change, True)
         else if scIndex change \<le> end then (start, end + scCount change, True)
         else (start, end, True))
      else
        (let deletedEnd = scIndex change + scCount change - 1 in
         if end < scIndex change then (start, end, True)
         else if start > deletedEnd then (start - scCount change, end - scCount change, True)
         else
           (let leftExists = start < scIndex change; rightExists = end > deletedEnd in
            if \<not> leftExists \<and> \<not> rightExists then (0, 0, False)
            else (if leftExists then start else deletedEnd + 1 - scCount change,
                  if rightExists then end - scCount change else scIndex change - 1, True))))"

definition TransformInterval :: "int \<Rightarrow> int \<Rightarrow> StructuralChange \<Rightarrow> int \<times> int \<times> bool" where
  "TransformInterval start end change = transformStructuralInterval start end change"

text \<open>
  The result is the new address and whether the range still exists. The axis is tested as
  the code tests it: \<^verbatim>\<open>"column"\<close> to choose what is read and the limit,
  \<^verbatim>\<open>"row"\<close> to choose what is written.
\<close>

definition TransformRangeAddress :: "string \<Rightarrow> StructuralChange \<Rightarrow> (string \<times> bool) result" where
  "TransformRangeAddress input change =
     bind_result (Parse input) (\<lambda>selected.
       let column_axis = (scAxis change = ''column'');
           start0 = (if column_axis then Column (Start selected) else Row (Start selected));
           end0 = (if column_axis then Column (End selected) else Row (End selected));
           limit = axis_limit change in
       case transformStructuralInterval start0 end0 change of (start, end, exists) \<Rightarrow>
         if \<not> exists then Inr ([], False)
         else if start < 1 \<or> end > limit then Inl ErrBounds
         else
           (let s = (if scAxis change = ''row'' then (Start selected)\<lparr>Row := start\<rparr>
                     else (Start selected)\<lparr>Column := start\<rparr>);
                e = (if scAxis change = ''row'' then (End selected)\<lparr>Row := end\<rparr>
                     else (End selected)\<lparr>Column := end\<rparr>);
                first = Address (Row s) (Column s);
                last = Address (Row e) (Column e) in
            if first = last then Inr (first, True)
            else Inr (first @ '':'' @ last, True)))"

section \<open>Positions\<close>

text \<open>
  What a request has to satisfy before it runs (\<^verbatim>\<open>normalizeStructuralMutation\<close>
  checks it, and only such requests are recorded): a band of rows or columns that lies on the
  sheet, and for a move a destination on the sheet or just behind it.
\<close>

definition valid_change :: "StructuralChange \<Rightarrow> bool" where
  "valid_change change =
     (1 \<le> scIndex change \<and> 1 \<le> scCount change \<and>
      scIndex change + scCount change - 1 \<le> axis_limit change \<and>
      (scAction change = ''move'' \<longrightarrow>
         1 \<le> scDestination change \<and> scDestination change \<le> axis_limit change + 1))"

abbreviation is_move :: "StructuralChange \<Rightarrow> bool" where
  "is_move change \<equiv> scAction change = ''move''"

abbreviation is_insert :: "StructuralChange \<Rightarrow> bool" where
  "is_insert change \<equiv> scAction change = ''insert''"

abbreviation is_delete :: "StructuralChange \<Rightarrow> bool" where
  "is_delete change \<equiv> scAction change \<noteq> ''move'' \<and> scAction change \<noteq> ''insert''"

definition survivor :: "int \<times> bool \<Rightarrow> int option" where
  "survivor r = (if snd r then Some (fst r) else None)"

definition move_index :: "StructuralChange \<Rightarrow> int \<Rightarrow> int option" where
  "move_index change i = survivor (transformStructuralPosition i change)"

definition on_sheet :: "int \<Rightarrow> bool" where
  "on_sheet i = (1 \<le> i \<and> i \<le> MaxRows)"

lemma move_index_simps:
  "is_move c \<Longrightarrow> move_index c i = Some (movedPosition i c)"
  "is_insert c \<Longrightarrow> move_index c i =
     (let j = (if i \<ge> scIndex c then i + scCount c else i) in if j \<le> axis_limit c then Some j else None)"
  "is_delete c \<Longrightarrow> move_index c i =
     (if scIndex c \<le> i \<and> i \<le> scIndex c + scCount c - 1 then None
      else if i > scIndex c + scCount c - 1 then Some (i - scCount c) else Some i)"
  by (auto simp: move_index_def survivor_def transformStructuralPosition_def Let_def)

lemma change_cases:
  obtains (move) "is_move c" | (insert) "is_insert c" | (delete) "is_delete c"
  by blast

lemma axis_limit_le: "axis_limit c \<le> MaxRows"
  by (simp add: axis_limit_def MaxRows_def MaxColumns_def)

lemma movedPosition_inj:
  "1 \<le> scCount c \<Longrightarrow> movedPosition i c = movedPosition j c \<Longrightarrow> i = j"
  by (auto simp: movedPosition_def Let_def split: if_splits)

lemma movedPosition_bounds:
  assumes "1 \<le> scCount c" "1 \<le> scIndex c" "scIndex c + scCount c - 1 \<le> b"
    "1 \<le> scDestination c" "scDestination c \<le> b + 1" "1 \<le> i" "i \<le> b"
  shows "1 \<le> movedPosition i c" "movedPosition i c \<le> b"
  using assms by (auto simp: movedPosition_def Let_def)

lemma move_index_inj:
  assumes "valid_change c" "move_index c i = Some k" "move_index c j = Some k"
  shows "i = j"
proof (cases c rule: change_cases)
  case move
  with assms show ?thesis by (auto simp: move_index_simps valid_change_def intro: movedPosition_inj)
next
  case insert
  with assms show ?thesis by (auto simp: move_index_simps valid_change_def Let_def split: if_splits)
next
  case delete
  with assms show ?thesis by (auto simp: move_index_simps valid_change_def split: if_splits)
qed

lemma move_index_on_sheet:
  assumes "valid_change c" "on_sheet i" "move_index c i = Some k"
  shows "on_sheet k"
proof (cases c rule: change_cases)
  case move
  with assms axis_limit_le [of c] show ?thesis
    using movedPosition_bounds [of c MaxRows i]
    by (auto simp: move_index_simps valid_change_def on_sheet_def)
next
  case insert
  with assms axis_limit_le [of c] show ?thesis
    by (auto simp: move_index_simps valid_change_def on_sheet_def Let_def split: if_splits)
next
  case delete
  with assms show ?thesis
    by (auto simp: move_index_simps valid_change_def on_sheet_def split: if_splits)
qed

lemma move_index_in_axis:
  assumes "valid_change c" "1 \<le> i" "i \<le> axis_limit c" "move_index c i = Some k"
  shows "1 \<le> k" "k \<le> axis_limit c"
proof -
  have "1 \<le> k \<and> k \<le> axis_limit c"
  proof (cases c rule: change_cases)
    case move
    with assms show ?thesis
      using movedPosition_bounds [of c "axis_limit c" i] by (auto simp: move_index_simps valid_change_def)
  next
    case insert
    with assms show ?thesis by (auto simp: move_index_simps valid_change_def Let_def split: if_splits)
  next
    case delete
    with assms show ?thesis by (auto simp: move_index_simps valid_change_def split: if_splits)
  qed
  then show "1 \<le> k" "k \<le> axis_limit c" by simp_all
qed

section \<open>Intervals\<close>

text \<open>
  \<open>tracks st S\<close>: the state of \<^verbatim>\<open>cover\<close> holds the least and the greatest element
  of the set \<open>S\<close> of positions it was shown so far.
\<close>

fun tracks :: "cover_state \<Rightarrow> int set \<Rightarrow> bool" where
  "tracks (low, high, seen) S =
     ((seen \<longleftrightarrow> S \<noteq> {}) \<and> (seen \<longrightarrow> low \<in> S \<and> high \<in> S \<and> (\<forall>x \<in> S. low \<le> x \<and> x \<le> high)))"

abbreviation piece :: "int \<Rightarrow> int \<Rightarrow> int \<Rightarrow> int \<Rightarrow> int \<Rightarrow> int set" where
  "piece start end f l d \<equiv> (\<lambda>i. i + d) ` {i. start \<le> i \<and> i \<le> end \<and> f \<le> i \<and> i \<le> l}"

lemma cover_tracks:
  assumes "tracks st S"
  shows "tracks (cover start end f l d st) (S \<union> piece start end f l d)"
proof -
  obtain low high seen where st: "st = (low, high, seen)" by (cases st)
  let ?f = "max f start" and ?l = "min l end"
  have p: "piece start end f l d = {?f + d .. ?l + d}"
  proof -
    have "{i. start \<le> i \<and> i \<le> end \<and> f \<le> i \<and> i \<le> l} = {?f..?l}" by auto
    then show ?thesis by (simp only: image_add_atLeastAtMost')
  qed
  have fl: "(if f < start then start else f) = ?f" "(if l > end then end else l) = ?l" by auto
  show ?thesis
  proof (cases "?f > ?l")
    case True
    then have "{?f + d .. ?l + d} = {}" by simp
    with True assms show ?thesis unfolding cover_def st fl p by (simp add: Let_def)
  next
    case False
    then show ?thesis using assms unfolding cover_def st fl p
      by (cases seen) (auto simp: Let_def)
  qed
qed

lemma tracks_init: "tracks (0, 0, False) {}"
  by simp

text \<open>The image of a span under a move, cut into the segments the code covers one by one.\<close>

abbreviation segment :: "int \<Rightarrow> int \<Rightarrow> int \<Rightarrow> int \<Rightarrow> int set" where
  "segment start end f l \<equiv> {i. start \<le> i \<and> i \<le> end \<and> f \<le> i \<and> i \<le> l}"

lemma movedPosition_shift:
  assumes "\<And>i. i \<in> segment start end f l \<Longrightarrow> movedPosition i c = i + d"
  shows "(\<lambda>i. movedPosition i c) ` segment start end f l = piece start end f l d"
  using assms by (intro image_cong) auto

abbreviation sheet_span :: "int \<Rightarrow> int \<Rightarrow> int set" where
  "sheet_span start end \<equiv> {i. start \<le> i \<and> i \<le> end \<and> on_sheet i}"

lemma movedPosition_pieces_down:
  assumes "valid_change c" "is_move c" "scDestination c > scIndex c + scCount c - 1"
  shows "(\<lambda>i. movedPosition i c) ` sheet_span start end =
      {} \<union> piece start end (scIndex c) (scIndex c + scCount c - 1) (scDestination c - scCount c - scIndex c)
        \<union> piece start end (scIndex c + scCount c - 1 + 1) (scDestination c - 1) (- scCount c)
        \<union> piece start end 1 (scIndex c - 1) 0
        \<union> piece start end (scDestination c) MaxRows 0"
proof -
  have "sheet_span start end =
      {} \<union> segment start end (scIndex c) (scIndex c + scCount c - 1)
        \<union> segment start end (scIndex c + scCount c - 1 + 1) (scDestination c - 1)
        \<union> segment start end 1 (scIndex c - 1)
        \<union> segment start end (scDestination c) MaxRows"
    using assms axis_limit_le [of c] by (auto simp: valid_change_def on_sheet_def)
  then show ?thesis
    by (simp only: image_Un image_empty, intro arg_cong2 [where f = "(\<union>)"] refl)
      (rule movedPosition_shift; use assms in \<open>auto simp: movedPosition_def Let_def valid_change_def\<close>)+
qed

lemma movedPosition_pieces_up:
  assumes "valid_change c" "is_move c" "scDestination c < scIndex c"
  shows "(\<lambda>i. movedPosition i c) ` sheet_span start end =
      {} \<union> piece start end (scIndex c) (scIndex c + scCount c - 1) (scDestination c - scIndex c)
        \<union> piece start end (scDestination c) (scIndex c - 1) (scCount c)
        \<union> piece start end 1 (scDestination c - 1) 0
        \<union> piece start end (scIndex c + scCount c - 1 + 1) MaxRows 0"
proof -
  have "sheet_span start end =
      {} \<union> segment start end (scIndex c) (scIndex c + scCount c - 1)
        \<union> segment start end (scDestination c) (scIndex c - 1)
        \<union> segment start end 1 (scDestination c - 1)
        \<union> segment start end (scIndex c + scCount c - 1 + 1) MaxRows"
    using assms axis_limit_le [of c] by (auto simp: valid_change_def on_sheet_def)
  then show ?thesis
    by (simp only: image_Un image_empty, intro arg_cong2 [where f = "(\<union>)"] refl)
      (rule movedPosition_shift; use assms in \<open>auto simp: movedPosition_def Let_def valid_change_def\<close>)+
qed

text \<open>
  A moved span is exactly the hull of the moved positions: both ends are images and no
  image lies outside. A band that is moved to where it already is leaves a span alone.
\<close>

abbreviation stays :: "StructuralChange \<Rightarrow> bool" where
  "stays c \<equiv> scIndex c \<le> scDestination c \<and> scDestination c \<le> scIndex c + scCount c - 1"

lemma movedInterval_stays: "stays c \<Longrightarrow> start \<le> end \<Longrightarrow> movedInterval start end c = (start, end)"
  by (simp add: movedInterval_def Let_def cover_def)

lemma movedPosition_stays: "stays c \<Longrightarrow> movedPosition i c = i"
  by (simp add: movedPosition_def Let_def)

lemma movedInterval_hull:
  assumes v: "valid_change c" "is_move c" and n: "\<not> stays c"
    and i: "on_sheet i" "start \<le> i" "i \<le> end"
    and m: "movedInterval start end c = (low, high)"
  shows "tracks (low, high, True) ((\<lambda>i. movedPosition i c) ` sheet_span start end)"
proof -
  let ?img = "(\<lambda>i. movedPosition i c) ` sheet_span start end"
  consider (down) "scDestination c > scIndex c + scCount c - 1" | (up) "scDestination c < scIndex c"
    using n by linarith
  then obtain st where t: "tracks st ?img"
    and mi: "movedInterval start end c =
      (case st of (low, high, seen) \<Rightarrow> if \<not> seen then (start, end) else (low, high))"
  proof cases
    case down
    show ?thesis
      by (rule that [OF _ movedInterval_def [unfolded Let_def, of start "end" c, unfolded if_P [OF down]]])
        (simp only: movedPosition_pieces_down [OF v down], intro cover_tracks tracks_init)
  next
    case up
    then have nd: "\<not> scDestination c > scIndex c + scCount c - 1"
      using v by (simp add: valid_change_def)
    show ?thesis
      by (rule that [OF _ movedInterval_def [unfolded Let_def, of start "end" c,
              unfolded if_not_P [OF nd] if_P [OF up]]])
        (simp only: movedPosition_pieces_up [OF v up], intro cover_tracks tracks_init)
  qed
  obtain lo hi seen where st: "st = (lo, hi, seen)" by (cases st)
  have "?img \<noteq> {}" using i by auto
  with t st have seen by simp
  with t st mi m show ?thesis by simp
qed

definition move_span :: "StructuralChange \<Rightarrow> int \<times> int \<Rightarrow> (int \<times> int) option" where
  "move_span change r =
     (case transformStructuralInterval (fst r) (snd r) change of (s, e, exists) \<Rightarrow>
        if exists then Some (s, e) else None)"

lemma move_span_simps:
  "s \<le> e \<Longrightarrow> is_move c \<Longrightarrow> move_span c (s, e) = Some (movedInterval s e c)"
  "s \<le> e \<Longrightarrow> is_insert c \<Longrightarrow> move_span c (s, e) =
     Some (if scIndex c \<le> s then s + scCount c else s, if scIndex c \<le> e then e + scCount c else e)"
  by (auto simp: move_span_def transformStructuralInterval_def Let_def split: prod.splits)

lemma move_span_delete:
  assumes "s \<le> e" "is_delete c" "1 \<le> scCount c"
  shows "move_span c (s, e) =
    (if scIndex c \<le> s \<and> e \<le> scIndex c + scCount c - 1 then None
     else Some (if s < scIndex c then s else if s \<le> scIndex c + scCount c - 1 then scIndex c else s - scCount c,
                if e < scIndex c then e else if e \<le> scIndex c + scCount c - 1 then scIndex c - 1 else e - scCount c))"
  using assms by (auto simp: move_span_def transformStructuralInterval_def Let_def)

lemma move_span_covers:
  assumes "valid_change c" "on_sheet i" "s \<le> i" "i \<le> e" "move_index c i = Some k"
  shows "\<exists>s' e'. move_span c (s, e) = Some (s', e') \<and> s' \<le> k \<and> k \<le> e'"
proof (cases c rule: change_cases)
  case move
  obtain lo hi where m: "movedInterval s e c = (lo, hi)" by fastforce
  have k: "k = movedPosition i c" using move assms(5) by (simp add: move_index_simps)
  have "lo \<le> k \<and> k \<le> hi"
  proof (cases "stays c")
    case True
    with m k assms(3,4) show ?thesis by (simp add: movedInterval_stays movedPosition_stays)
  next
    case False
    from movedInterval_hull [OF assms(1) move False assms(2-4) m] k assms(2-4)
    show ?thesis by auto
  qed
  with m assms(3,4) move show ?thesis by (simp add: move_span_simps)
next
  case insert
  with assms show ?thesis by (auto simp: move_span_simps move_index_simps valid_change_def Let_def split: if_splits)
next
  case delete
  with assms show ?thesis
    by (auto simp: move_span_delete move_index_simps valid_change_def split: if_splits)
qed

interpretation formula_motion: span_motion valid_change move_index on_sheet move_span
  by unfold_locales (fact move_index_inj move_index_on_sheet move_span_covers)+


section \<open>Properties\<close>

text \<open>
  A move is a permutation of the rows (columns) of the sheet: every row lands on exactly
  one row and every row is landed on, so a move never loses or duplicates data.
\<close>

lemma move_is_permutation:
  assumes "valid_change c" "scAction c = ''move''"
  shows "bij_betw (\<lambda>i. movedPosition i c) {1..axis_limit c} {1..axis_limit c}"
proof -
  let ?f = "\<lambda>i. movedPosition i c"
  have inj: "inj_on ?f {1..axis_limit c}"
    using assms by (auto simp: inj_on_def valid_change_def intro: movedPosition_inj)
  have "?f ` {1..axis_limit c} \<subseteq> {1..axis_limit c}"
    using assms movedPosition_bounds [of c "axis_limit c"] by (auto simp: valid_change_def)
  with inj have "?f ` {1..axis_limit c} = {1..axis_limit c}"
    by (simp add: card_image card_subset_eq)
  with inj show ?thesis by (simp add: bij_betw_def)
qed

definition move_example :: StructuralChange where
  "move_example = \<lparr>scAxis = ''row'', scAction = ''move'', scIndex = 2, scCount = 2,
     scDestination = 7, scCurrentSheet = [], scTargetSheet = []\<rparr>"

lemma move_example_valid: "valid_change move_example" "scAction move_example = ''move''"
  by (simp_all add: move_example_def valid_change_def axis_limit_def MaxRows_def)

text \<open>The move that takes the band back to where it came from.\<close>

definition inverse_move :: "StructuralChange \<Rightarrow> StructuralChange" where
  "inverse_move c =
     (if scDestination c > scIndex c + scCount c - 1
      then c\<lparr>scIndex := scDestination c - scCount c, scDestination := scIndex c\<rparr>
      else if scDestination c < scIndex c
      then c\<lparr>scIndex := scDestination c, scDestination := scIndex c + scCount c\<rparr>
      else c)"

text \<open>
  Moving a band and then moving it back returns every index to where it was, so a move
  can always be undone by another move.
\<close>

lemma move_round_trip:
  assumes "1 \<le> scCount c"
  shows "movedPosition (movedPosition i c) (inverse_move c) = i"
  using assms by (auto simp: movedPosition_def inverse_move_def Let_def)

definition insert_example :: StructuralChange where
  "insert_example = \<lparr>scAxis = ''row'', scAction = ''insert'', scIndex = 3, scCount = 2,
     scDestination = 0, scCurrentSheet = [], scTargetSheet = []\<rparr>"

text \<open>The positions the survivors of a span land on.\<close>

definition landing :: "StructuralChange \<Rightarrow> int \<Rightarrow> int \<Rightarrow> int set" where
  "landing c start end = {k. \<exists>i. start \<le> i \<and> i \<le> end \<and> move_index c i = Some k}"

lemma landingI: "start \<le> i \<Longrightarrow> i \<le> end \<Longrightarrow> move_index c i = Some k \<Longrightarrow> k \<in> landing c start end"
  by (auto simp: landing_def)

lemma landing_move:
  "is_move c \<Longrightarrow> on_sheet start \<Longrightarrow> on_sheet end \<Longrightarrow>
   landing c start end = (\<lambda>i. movedPosition i c) ` sheet_span start end"
  by (auto simp: landing_def move_index_simps on_sheet_def)

lemma hull_move:
  assumes "valid_change c" "is_move c" "on_sheet start" "on_sheet end" "start \<le> end"
    and "transformStructuralInterval start end c = (low, high, exists)"
  shows "tracks (low, high, exists) (landing c start end)"
proof -
  note o = assms(3,4)
  have m: "movedInterval start end c = (low, high)" "exists"
    using assms(2,5,6) by (auto simp: transformStructuralInterval_def split: prod.splits)
  show ?thesis
  proof (cases "stays c")
    case True
    then have "landing c start end = {start..end}" using o
      by (auto simp: landing_move [OF assms(2) o] movedPosition_stays on_sheet_def)
    with True m assms(5) show ?thesis by (auto simp: movedInterval_stays)
  next
    case False
    from movedInterval_hull [OF assms(1,2) False o(1) order.refl assms(5) m(1)] m(2)
    show ?thesis by (simp add: landing_move [OF assms(2) o])
  qed
qed

lemma hull_insert:
  assumes "valid_change c" "is_insert c" "start \<le> end" "end + scCount c \<le> axis_limit c"
    and "transformStructuralInterval start end c = (low, high, exists)"
  shows "tracks (low, high, exists) (landing c start end)"
proof -
  define f where "f = (\<lambda>i. if scIndex c \<le> i then i + scCount c else i)"
  have r: "low = f start" "high = f end" "exists"
    using assms(2,3,5) by (auto simp: f_def transformStructuralInterval_def Let_def split: if_splits)
  have f: "\<And>i. i \<le> end \<Longrightarrow> move_index c i = Some (f i)"
    using assms(1,2,4) by (auto simp: f_def move_index_simps Let_def valid_change_def)
  have "landing c start end = f ` {start..end}"
    by (auto simp: landing_def f image_iff)
  moreover have "\<And>i. start \<le> i \<Longrightarrow> i \<le> end \<Longrightarrow> f start \<le> f i \<and> f i \<le> f end"
    using assms(1) by (auto simp: f_def valid_change_def)
  ultimately show ?thesis using r assms(3) by auto
qed

lemma hull_delete:
  assumes "valid_change c" "is_delete c" "start \<le> end"
    and "transformStructuralInterval start end c = (low, high, exists)"
  shows "tracks (low, high, exists) (landing c start end)"
proof (cases "scIndex c \<le> start \<and> end \<le> scIndex c + scCount c - 1")
  case True
  have d: "1 \<le> scCount c" using assms(1) by (simp add: valid_change_def)
  have "\<not> exists" using True assms(4) move_span_delete [OF assms(3,2) d]
    by (simp add: move_span_def split: if_splits)
  with True show ?thesis using assms(2) by (auto simp: landing_def move_index_simps)
next
  case False
  have d: "1 \<le> scCount c" using assms(1) by (simp add: valid_change_def)
  have ex: "exists"
    and lo: "low = (if start < scIndex c then start
       else if start \<le> scIndex c + scCount c - 1 then scIndex c else start - scCount c)"
    and hi: "high = (if end < scIndex c then end
       else if end \<le> scIndex c + scCount c - 1 then scIndex c - 1 else end - scCount c)"
    using False assms(4) move_span_delete [OF assms(3,2) d]
    by (simp_all add: move_span_def split: if_splits)
  let ?b = "scIndex c + scCount c"
  have l: "move_index c (if scIndex c \<le> start \<and> start < ?b then ?b else start) = Some low"
    and h: "move_index c (if scIndex c \<le> end \<and> end < ?b then scIndex c - 1 else end) = Some high"
    using d unfolding lo hi by (auto simp: move_index_simps(3) [OF assms(2)])
  have "low \<in> landing c start end"
    by (rule landingI [OF _ _ l]) (use False assms(3) in auto)
  moreover have "high \<in> landing c start end"
    by (rule landingI [OF _ _ h]) (use False assms(3) in auto)
  moreover have "\<forall>k \<in> landing c start end. low \<le> k \<and> k \<le> high"
    using assms(3) d unfolding lo hi landing_def
    by (auto simp: move_index_simps(3) [OF assms(2)] split: if_splits)
  ultimately show ?thesis using ex by auto
qed

text \<open>
  The span a stored range, hidden band or outline group is given after a change is
  exactly the hull of where its rows went: both its ends are places where rows of the span
  went, no row of the span ends up outside, and it disappears precisely when all its rows
  were deleted. (An insertion is taken to push no row of the span off the sheet.)
\<close>

lemma interval_is_hull:
  assumes "valid_change c" "1 \<le> start" "start \<le> end" "end \<le> axis_limit c"
    and "scAction c = ''insert'' \<longrightarrow> end + scCount c \<le> axis_limit c"
    and "transformStructuralInterval start end c = (low, high, exists)"
  shows "(exists \<longleftrightarrow> landing c start end \<noteq> {}) \<and>
    (exists \<longrightarrow> low \<in> landing c start end \<and> high \<in> landing c start end \<and>
       (\<forall>k \<in> landing c start end. low \<le> k \<and> k \<le> high))"
proof -
  have "on_sheet start" "on_sheet end"
    using assms(2-4) axis_limit_le [of c] by (auto simp: on_sheet_def)
  with assms have "tracks (low, high, exists) (landing c start end)"
    by (cases c rule: change_cases) (auto intro: hull_move hull_insert hull_delete simp del: tracks.simps)
  then show ?thesis by simp
qed

section \<open>Stored ranges\<close>

text \<open>Where a cell of the changed sheet goes.\<close>

definition move_cell :: "StructuralChange \<Rightarrow> int \<times> int \<Rightarrow> (int \<times> int) option" where
  "move_cell c p =
     (if scAxis c = ''column'' then map_option (\<lambda>k. (fst p, k)) (move_index c (snd p))
      else map_option (\<lambda>k. (k, snd p)) (move_index c (fst p)))"

definition axis_index :: "StructuralChange \<Rightarrow> int \<times> int \<Rightarrow> int" where
  "axis_index c p = (if scAxis c = ''column'' then snd p else fst p)"

lemma move_cell_index:
  "move_cell c p = Some q \<Longrightarrow> move_index c (axis_index c p) = Some (axis_index c q)"
  "move_cell c p = None \<longleftrightarrow> move_index c (axis_index c p) = None"
  by (auto simp: move_cell_def axis_index_def split: if_splits)

lemma Contains_on_sheet:
  "well_formed_range r \<Longrightarrow> Contains r row column \<Longrightarrow> on_sheet row \<and> on_sheet column"
  by (auto simp: well_formed_range_def in_sheet_def Contains_def on_sheet_def MaxRows_def MaxColumns_def)

text \<open>
  The new range as a value: the interval of the changed axis, the old interval of the other.
\<close>

definition set_span :: "StructuralChange \<Rightarrow> Range \<Rightarrow> int \<Rightarrow> int \<Rightarrow> Range" where
  "set_span c r start end =
     (if scAxis c = ''row'' then \<lparr>Start = (Start r)\<lparr>Row := start\<rparr>, End = (End r)\<lparr>Row := end\<rparr>\<rparr>
      else \<lparr>Start = (Start r)\<lparr>Column := start\<rparr>, End = (End r)\<lparr>Column := end\<rparr>\<rparr>)"

definition range_span :: "StructuralChange \<Rightarrow> Range \<Rightarrow> int \<times> int" where
  "range_span c r =
     (if scAxis c = ''column'' then (Column (Start r), Column (End r)) else (Row (Start r), Row (End r)))"

definition print_range :: "Range \<Rightarrow> string" where
  "print_range r =
     (let first = Address (Row (Start r)) (Column (Start r));
          last = Address (Row (End r)) (Column (End r))
      in if first = last then first else first @ '':'' @ last)"

lemma TransformRangeAddress_alt:
  "TransformRangeAddress input c =
     bind_result (Parse input) (\<lambda>r.
       case move_span c (range_span c r) of
         None \<Rightarrow> Inr ([], False)
       | Some (s, e) \<Rightarrow> if s < 1 \<or> e > axis_limit c then Inl ErrBounds
           else Inr (print_range (set_span c r s e), True))"
  unfolding TransformRangeAddress_def
  by (rule arg_cong [where f = "bind_result (Parse input)"], rule ext)
    (auto simp: move_span_def range_span_def set_span_def print_range_def Let_def split: prod.splits)

lemma Address_inj:
  assumes "in_sheet p" "in_sheet q" "Address (Row p) (Column p) = Address (Row q) (Column q)"
  shows "p = q"
  using assms parsePosition_Address by (metis sum.inject(2))

lemma Parse_print_range: "well_formed_range r \<Longrightarrow> Parse (print_range r) = Inr r"
proof -
  assume w: "well_formed_range r"
  show ?thesis
  proof (cases "Address (Row (Start r)) (Column (Start r)) = Address (Row (End r)) (Column (End r))")
    case True
    with w have "Start r = End r" by (auto simp: well_formed_range_def intro: Address_inj)
    with w show ?thesis
      by (cases r) (simp add: print_range_def Parse_Address well_formed_range_def)
  next
    case False
    then have "print_range r = range_address r" by (simp add: print_range_def range_address_def)
    with w show ?thesis by (simp add: Parse_range_address)
  qed
qed

lemma set_span_well_formed:
  assumes "well_formed_range r" "scAxis c = ''row'' \<or> scAxis c = ''column''"
    "1 \<le> s" "s \<le> e" "e \<le> axis_limit c"
  shows "well_formed_range (set_span c r s e)"
  using assms by (auto simp: well_formed_range_def set_span_def in_sheet_def axis_limit_def)

lemma Contains_set_span:
  assumes "scAxis c = ''row'' \<or> scAxis c = ''column''" "Contains r row column"
    "move_cell c (row, column) = Some (row', column')"
    "s \<le> axis_index c (row', column')" "axis_index c (row', column') \<le> e"
  shows "Contains (set_span c r s e) row' column'"
  using assms by (auto simp: Contains_def set_span_def move_cell_def axis_index_def)

lemma Contains_range_span:
  assumes "well_formed_range r" "Contains r row column"
  shows "fst (range_span c r) \<le> axis_index c (row, column)"
    "axis_index c (row, column) \<le> snd (range_span c r)" "on_sheet (axis_index c (row, column))"
  using assms Contains_on_sheet [OF assms] by (auto simp: Contains_def range_span_def axis_index_def)

lemma move_span_ordered:
  assumes "valid_change c" "s \<le> e" "move_span c (s, e) = Some (s', e')"
    and "1 \<le> s" "e \<le> axis_limit c"
  shows "s' \<le> e'"
proof -
  have t: "transformStructuralInterval s e c = (s', e', True)"
    using assms(3) by (auto simp: move_span_def split: prod.splits if_splits)
  show ?thesis
  proof (cases c rule: change_cases)
    case insert
    with assms show ?thesis by (auto simp: move_span_simps valid_change_def split: if_splits)
  next
    case delete
    with assms show ?thesis by (auto simp: move_span_delete valid_change_def split: if_splits)
  next
    case move
    have "on_sheet s" "on_sheet e" using assms axis_limit_le [of c] by (auto simp: on_sheet_def)
    with hull_move [OF assms(1) move _ _ assms(2) t] show ?thesis by auto
  qed
qed

lemma range_span_bounds:
  assumes "well_formed_range r" "range_span c r = (s, e)"
  shows "1 \<le> s" "s \<le> e" "e \<le> axis_limit c"
  using assms by (auto simp: well_formed_range_def in_sheet_def range_span_def axis_limit_def split: if_splits)

lemma transformed_range:
  assumes "valid_change c" "scAxis c = ''row'' \<or> scAxis c = ''column''"
    and "Parse input = Inr r" "TransformRangeAddress input c = Inr (address, True)"
  obtains s e where "move_span c (range_span c r) = Some (s, e)" "address = print_range (set_span c r s e)"
    "well_formed_range (set_span c r s e)" "Parse address = Inr (set_span c r s e)"
proof -
  have w: "well_formed_range r" using assms(3) by (rule Parse_well_formed)
  obtain s e where se: "range_span c r = (s, e)" by fastforce
  note b = range_span_bounds [OF w se]
  obtain s' e' where m: "move_span c (s, e) = Some (s', e')" "1 \<le> s'" "e' \<le> axis_limit c"
    "address = print_range (set_span c r s' e')"
    using assms(3,4) se by (auto simp: TransformRangeAddress_alt split: option.splits if_splits)
  have "s' \<le> e'" using move_span_ordered [OF assms(1) b(2) m(1)] b by auto
  then have "well_formed_range (set_span c r s' e')"
    using set_span_well_formed [OF w assms(2)] m by blast
  then show ?thesis using that m se Parse_print_range by auto
qed

lemma transformed_range_covers:
  assumes "valid_change c" "scAxis c = ''row'' \<or> scAxis c = ''column''" "well_formed_range r"
    and "move_span c (range_span c r) = Some (s, e)"
    and "Contains r row column" "move_cell c (row, column) = Some (row', column')"
  shows "Contains (set_span c r s e) row' column'"
proof -
  obtain l h where lh: "range_span c r = (l, h)" by fastforce
  note ax = Contains_range_span [OF assms(3,5), of c, unfolded lh fst_conv snd_conv]
  have "s \<le> axis_index c (row', column') \<and> axis_index c (row', column') \<le> e"
    using formula_motion.span_covers [OF assms(1) ax(3) ax(1,2) move_cell_index(1) [OF assms(6)]]
      assms(4) lh by auto
  then show ?thesis using Contains_set_span [OF assms(2,5,6)] by simp
qed

lemma dropped_range:
  assumes "valid_change c" "Parse input = Inr r" "TransformRangeAddress input c = Inr (address, False)"
    and "Contains r row column"
  shows "move_cell c (row, column) = None"
proof -
  have w: "well_formed_range r" using assms(2) by (rule Parse_well_formed)
  obtain s e where se: "range_span c r = (s, e)" by fastforce
  note ax = Contains_range_span [OF w assms(4), of c, unfolded se fst_conv snd_conv]
  have "move_span c (s, e) = None"
    using assms(2,3) se by (auto simp: TransformRangeAddress_alt split: option.splits if_splits)
  from formula_motion.span_gone [OF assms(1) this] ax show ?thesis by (simp add: move_cell_index)
qed

text \<open>
  Insertions and deletions keep the order of the rows, so a cell outside the old range is
  outside the new one. (A move does not: the hull of a torn range takes in other rows.)
\<close>

lemma move_span_exact:
  assumes "valid_change c" "\<not> is_move c" "s \<le> e" "move_span c (s, e) = Some (s', e')"
    and "move_index c i = Some k" "s' \<le> k" "k \<le> e'"
  shows "s \<le> i" "i \<le> e"
proof -
  have "s \<le> i \<and> i \<le> e"
  proof (cases "is_insert c")
    case True
    with assms show ?thesis
      by (auto simp: move_span_simps move_index_simps valid_change_def Let_def split: if_splits)
  next
    case False
    with assms show ?thesis
      by (auto simp: move_span_delete move_index_simps valid_change_def split: if_splits)
  qed
  then show "s \<le> i" "i \<le> e" by simp_all
qed

lemma transformed_range_exact:
  assumes "valid_change c" "\<not> is_move c" "scAxis c = ''row'' \<or> scAxis c = ''column''" "well_formed_range r"
    and "move_span c (range_span c r) = Some (s, e)"
    and "Contains (set_span c r s e) row' column'" "move_cell c (row, column) = Some (row', column')"
  shows "Contains r row column"
proof -
  obtain l h where lh: "range_span c r = (l, h)" by fastforce
  have i: "s \<le> axis_index c (row', column')" "axis_index c (row', column') \<le> e"
    using assms(3,6) by (auto simp: Contains_def set_span_def axis_index_def)
  have "l \<le> axis_index c (row, column) \<and> axis_index c (row, column) \<le> h"
    using move_span_exact [OF assms(1,2) range_span_bounds(2) [OF assms(4) lh] _
        move_cell_index(1) [OF assms(7)] i] assms(5) lh by auto
  then show ?thesis
    using assms(3,6,7) lh
    by (auto simp: Contains_def set_span_def move_cell_def axis_index_def range_span_def split: if_splits)
qed

lemma move_cell_in_sheet:
  assumes "valid_change c" "scAxis c = ''row'' \<or> scAxis c = ''column''"
    and "in_sheet \<lparr>Row = row, Column = column\<rparr>" "move_cell c (row, column) = Some (row', column')"
  shows "in_sheet \<lparr>Row = row', Column = column'\<rparr>"
  using assms move_index_in_axis [OF assms(1), of "axis_index c (row, column)" "axis_index c (row', column')"]
  by (auto simp: in_sheet_def move_cell_def axis_index_def axis_limit_def split: if_splits)

text \<open>A single cell goes where its index goes.\<close>

lemma move_span_single:
  assumes "valid_change c" "1 \<le> i" "i \<le> axis_limit c" "move_span c (i, i) = Some (s, e)" "e \<le> axis_limit c"
  shows "e = s \<and> move_index c i = Some s"
proof (cases c rule: change_cases)
  case move
  have o: "on_sheet i" using assms(2,3) axis_limit_le [of c] by (simp add: on_sheet_def)
  have "transformStructuralInterval i i c = (s, e, True)"
    using assms(4) by (auto simp: move_span_def split: prod.splits if_splits)
  from hull_move [OF assms(1) move o o order.refl this]
  have "s \<in> landing c i i" "e \<in> landing c i i" by auto
  then show ?thesis by (auto simp: landing_def)
next
  case insert
  with assms show ?thesis by (auto simp: move_span_simps move_index_simps valid_change_def Let_def split: if_splits)
next
  case delete
  with assms show ?thesis by (auto simp: move_span_delete move_index_simps valid_change_def split: if_splits)
qed

lemma transformed_cell:
  assumes "valid_change c" "scAxis c = ''row'' \<or> scAxis c = ''column''" "in_sheet \<lparr>Row = row, Column = column\<rparr>"
    and "TransformRangeAddress (Address row column @ '':'' @ Address row column) c = Inr (address, exists)"
  shows "if exists then \<exists>row' column'. move_cell c (row, column) = Some (row', column') \<and> address = Address row' column'
    else move_cell c (row, column) = None"
proof -
  define r where "r = \<lparr>Start = \<lparr>Row = row, Column = column\<rparr>, End = \<lparr>Row = row, Column = column\<rparr>\<rparr>"
  have w: "well_formed_range r" using assms(3) by (simp add: r_def well_formed_range_def)
  have a: "Address row column @ '':'' @ Address row column = range_address r" by (simp add: r_def range_address_def)
  have p: "Parse (range_address r) = Inr r" using w by (rule Parse_range_address)
  have c: "Contains r row column" by (simp add: r_def Contains_def)
  show ?thesis
  proof (cases "exists")
    case False
    with dropped_range [OF assms(1) p _ c] assms(4) a show ?thesis by simp
  next
    case True
    with assms(4) a have t: "TransformRangeAddress (range_address r) c = Inr (address, True)" by simp
    obtain s e where m: "move_span c (range_span c r) = Some (s, e)" "address = print_range (set_span c r s e)"
      "well_formed_range (set_span c r s e)"
      by (rule transformed_range [OF assms(1,2) p t])
    let ?i = "axis_index c (row, column)"
    have i: "range_span c r = (?i, ?i)" by (simp add: r_def range_span_def axis_index_def)
    have "1 \<le> ?i" "?i \<le> axis_limit c"
      using assms(3) by (auto simp: axis_index_def axis_limit_def in_sheet_def)
    moreover have "e \<le> axis_limit c"
      using m(3) assms(2) by (auto simp: well_formed_range_def in_sheet_def set_span_def axis_limit_def)
    ultimately have s: "e = s" "move_index c ?i = Some s" using move_span_single [OF assms(1)] m(1) i by auto
    then show ?thesis
      using True m(2) assms(2) by (auto simp: move_cell_def axis_index_def set_span_def r_def print_range_def)
  qed
qed

lemma move_cell_inj:
  assumes "valid_change c" "move_cell c p = Some q" "move_cell c p' = Some q"
  shows "p = p'"
proof -
  have "axis_index c p = axis_index c p'"
    using formula_motion.move_inj [OF assms(1)] move_cell_index(1) [OF assms(2)] move_cell_index(1) [OF assms(3)] by blast
  with assms(2,3) show ?thesis by (cases p; cases p') (auto simp: move_cell_def axis_index_def split: if_splits)
qed

text \<open>The same on addresses: the cells an address stands for, before and after.\<close>

definition address_covers :: "string \<Rightarrow> int \<Rightarrow> int \<Rightarrow> bool" where
  "address_covers address row column =
     (case Parse address of Inl _ \<Rightarrow> False | Inr x \<Rightarrow> Contains x row column)"

lemma transformed_address:
  assumes "valid_change c" "scAxis c = ''row'' \<or> scAxis c = ''column''"
    and "TransformRangeAddress input c = Inr (address, True)"
  shows "\<exists>r. address = print_range r \<and> well_formed_range r"
    and "is_ok (Parse address)"
    and "move_cell c (row, column) = Some (row', column') \<Longrightarrow>
      address_covers input row column \<Longrightarrow> address_covers address row' column'"
    and "scAction c \<noteq> ''move'' \<Longrightarrow> move_cell c (row, column) = Some (row', column') \<Longrightarrow>
      address_covers address row' column' \<Longrightarrow> address_covers input row column"
proof -
  obtain r where r: "Parse input = Inr r"
    using assms(3) by (auto simp: TransformRangeAddress_alt bind_result_eq_Inr)
  have w: "well_formed_range r" using r by (rule Parse_well_formed)
  obtain s e where m: "move_span c (range_span c r) = Some (s, e)" "address = print_range (set_span c r s e)"
    "well_formed_range (set_span c r s e)" "Parse address = Inr (set_span c r s e)"
    by (rule transformed_range [OF assms(1,2) r assms(3)])
  show "\<exists>r. address = print_range r \<and> well_formed_range r" "is_ok (Parse address)" using m by auto
  show "move_cell c (row, column) = Some (row', column') \<Longrightarrow>
      address_covers input row column \<Longrightarrow> address_covers address row' column'"
    using transformed_range_covers [OF assms(1,2) w m(1)] by (simp add: address_covers_def r m(4))
  show "scAction c \<noteq> ''move'' \<Longrightarrow> move_cell c (row, column) = Some (row', column') \<Longrightarrow>
      address_covers address row' column' \<Longrightarrow> address_covers input row column"
    using transformed_range_exact [OF assms(1) _ assms(2) w m(1)] by (simp add: address_covers_def r m(4))
qed

lemma dropped_address:
  assumes "valid_change c" "TransformRangeAddress input c = Inr (address, False)" "address_covers input row column"
  shows "move_cell c (row, column) = None"
  using dropped_range [OF assms(1) _ assms(2)] assms(3) by (auto simp: address_covers_def split: sum.splits)

text \<open>
  C2. A stored range (a named range, a validation, a filter, a comment, a merge) follows its
  cells through a change: when the transformed address is kept, it reads back to a range
  inside the sheet that contains every cell of the old range wherever the change put it, and
  when the range is dropped, the change deleted every one of its cells. Unless the change is
  a move, the new range holds no other cell of the old sheet either.
\<close>

theorem TransformRangeAddress_follows_cells:
  assumes "valid_change c" "scAxis c = ''row'' \<or> scAxis c = ''column''"
    and "Parse input = Inr r" "TransformRangeAddress input c = Inr (address, exists)"
  shows "if exists
    then \<exists>r'. Parse address = Inr r' \<and> well_formed_range r' \<and>
      (\<forall>row column row' column'. move_cell c (row, column) = Some (row', column') \<longrightarrow>
         (Contains r row column \<longrightarrow> Contains r' row' column') \<and>
         (scAction c \<noteq> ''move'' \<longrightarrow> Contains r' row' column' \<longrightarrow> Contains r row column))
    else \<forall>row column. Contains r row column \<longrightarrow> move_cell c (row, column) = None"
proof (cases "exists")
  case True
  have w: "well_formed_range r" using assms(3) by (rule Parse_well_formed)
  obtain s e where "move_span c (range_span c r) = Some (s, e)"
    and "well_formed_range (set_span c r s e)" "Parse address = Inr (set_span c r s e)"
    using transformed_range [OF assms(1-3)] assms(4) True by metis
  then show ?thesis
    using True transformed_range_covers [OF assms(1,2) w] transformed_range_exact [OF assms(1) _ assms(2) w]
    by auto
next
  case False
  with dropped_range [OF assms(1,3)] assms(4) show ?thesis by auto
qed

lemma follows_cells_example:
  "Parse ''B2:C5'' = Inr \<lparr>Start = \<lparr>Row = 2, Column = 2\<rparr>, End = \<lparr>Row = 5, Column = 3\<rparr>\<rparr>"
  "TransformRangeAddress ''B2:C5'' insert_example = Inr (''B2:C7'', True)"
  by code_simp+

theorem TransformRangeAddress_follows_cells_witness:
  "\<exists>r'. Parse ''B2:C7'' = Inr r' \<and> well_formed_range r' \<and>
      (\<forall>row column row' column'.
         move_cell insert_example (row, column) = Some (row', column') \<longrightarrow>
         (Contains \<lparr>Start = \<lparr>Row = 2, Column = 2\<rparr>, End = \<lparr>Row = 5, Column = 3\<rparr>\<rparr> row column \<longleftrightarrow>
          Contains r' row' column'))"
proof -
  have "valid_change insert_example" "scAxis insert_example = ''row'' \<or> scAxis insert_example = ''column''"
    by (simp_all add: insert_example_def valid_change_def axis_limit_def MaxRows_def)
  moreover have "scAction insert_example \<noteq> ''move''" by (simp add: insert_example_def)
  ultimately show ?thesis
    using TransformRangeAddress_follows_cells [OF _ _ follows_cells_example] by (auto split: if_splits)
qed

text \<open>
  Reading a stored range that parses can only fail in one way: an insertion in front of
  the end of the range pushes that end past the edge of the sheet.
\<close>

lemma TransformRangeAddress_error:
  assumes "valid_change c" "Parse input = Inr r" "TransformRangeAddress input c = Inl err"
  shows "err = ErrBounds \<and> scAction c = ''insert'' \<and> scIndex c \<le> snd (range_span c r) \<and>
    snd (range_span c r) + scCount c > axis_limit c"
proof -
  have w: "well_formed_range r" using assms(2) by (rule Parse_well_formed)
  obtain s e where se: "range_span c r = (s, e)" by fastforce
  note b = range_span_bounds [OF w se]
  obtain s' e' where sp: "move_span c (s, e) = Some (s', e')" "s' < 1 \<or> e' > axis_limit c" "err = ErrBounds"
    using assms(2,3) se by (auto simp: TransformRangeAddress_alt split: option.splits if_splits)
  have o: "on_sheet s" "on_sheet e" using b axis_limit_le [of c] by (auto simp: on_sheet_def)
  show ?thesis
  proof (cases c rule: change_cases)
    case move
    have t: "transformStructuralInterval s e c = (s', e', True)"
      using sp(1) by (auto simp: move_span_def split: prod.splits if_splits)
    from hull_move [OF assms(1) move o b(2) t] obtain i j
      where "s' = movedPosition i c" "e' = movedPosition j c" "s \<le> i" "i \<le> e" "s \<le> j" "j \<le> e"
      by (auto simp: landing_move [OF move o])
    moreover have "1 \<le> movedPosition k c \<and> movedPosition k c \<le> axis_limit c"
      if "s \<le> k" "k \<le> e" for k
      using movedPosition_bounds [of c "axis_limit c" k] that b move assms(1)
      by (simp add: valid_change_def)
    ultimately show ?thesis using sp(2) by force
  next
    case insert
    with sp b se assms(1) show ?thesis
      by (auto simp: move_span_simps valid_change_def split: if_splits)
  next
    case delete
    with sp b assms(1) show ?thesis
      by (auto simp: move_span_delete valid_change_def split: if_splits)
  qed
qed

end
