(* ===== verification/Utf8.thy ===== *)
theory Utf8
  imports Prelude
begin

text \<open>
  Runes of a Go string: \<^verbatim>\<open>utf8.DecodeRuneInString\<close> on the bytes of a string, the
  number of runes \<^verbatim>\<open>len([]rune(s))\<close> counts, and the \<^verbatim>\<open>unicode\<close> tables the
  sources ask about letters and digits, which are data and stay an argument.
\<close>

section \<open>Runes\<close>

record unicode_tables =
  uniLetter :: "nat \<Rightarrow> bool"
  uniDigit :: "nat \<Rightarrow> bool"

definition IsLetter :: "unicode_tables \<Rightarrow> nat \<Rightarrow> bool" where
  "IsLetter U r = (if r < 128 then 65 \<le> r \<and> r \<le> 90 \<or> 97 \<le> r \<and> r \<le> 122 else uniLetter U r)"

definition IsDigit :: "unicode_tables \<Rightarrow> nat \<Rightarrow> bool" where
  "IsDigit U r = (if r < 128 then 48 \<le> r \<and> r \<le> 57 else uniDigit U r)"

definition continuation :: "nat \<Rightarrow> bool" where
  "continuation b = (128 \<le> b \<and> b \<le> 191)"

text \<open>
  \<^verbatim>\<open>utf8.DecodeRuneInString\<close>: the rune and its size in bytes; a byte that starts no
  valid encoding is the replacement rune U+FFFD of size 1.
\<close>

definition decode2 :: "nat \<Rightarrow> nat \<Rightarrow> nat option" where
  "decode2 a b = (if 194 \<le> a \<and> a \<le> 223 \<and> continuation b then Some ((a - 192) * 64 + (b - 128)) else None)"

definition decode3 :: "nat \<Rightarrow> nat \<Rightarrow> nat \<Rightarrow> nat option" where
  "decode3 a b c =
     (if 224 \<le> a \<and> a \<le> 239 \<and> continuation b \<and> continuation c \<and>
         (a = 224 \<longrightarrow> 160 \<le> b) \<and> (a = 237 \<longrightarrow> b \<le> 159)
      then Some ((a - 224) * 4096 + (b - 128) * 64 + (c - 128)) else None)"

definition decode4 :: "nat \<Rightarrow> nat \<Rightarrow> nat \<Rightarrow> nat \<Rightarrow> nat option" where
  "decode4 a b c d =
     (if 240 \<le> a \<and> a \<le> 244 \<and> continuation b \<and> continuation c \<and> continuation d \<and>
         (a = 240 \<longrightarrow> 144 \<le> b) \<and> (a = 244 \<longrightarrow> b \<le> 143)
      then Some ((a - 240) * 262144 + (b - 128) * 4096 + (c - 128) * 64 + (d - 128)) else None)"

definition byte_at :: "string \<Rightarrow> nat \<Rightarrow> nat" where
  "byte_at s i = (if i < length s then byte (s ! i) else 0)"

definition decode_rune :: "string \<Rightarrow> nat \<times> nat" where
  "decode_rune s =
     (if s = [] then (65533, 0)
      else let a = byte_at s 0; b = byte_at s 1; c = byte_at s 2; d = byte_at s 3 in
        if a < 128 then (a, 1)
        else case decode2 a b of Some r \<Rightarrow> (r, 2) | None \<Rightarrow>
             (case decode3 a b c of Some r \<Rightarrow> (r, 3) | None \<Rightarrow>
             (case decode4 a b c d of Some r \<Rightarrow> (r, 4) | None \<Rightarrow> (65533, 1))))"

text \<open>
  Writing back the rune just decoded: the bytes it was read from, or the encoding of U+FFFD
  where the byte was invalid.
\<close>

definition write_rune :: "string \<Rightarrow> string" where
  "write_rune s =
     (case decode_rune s of (r, width) \<Rightarrow>
        if r = 65533 \<and> width = 1 then [CHR 0xEF, CHR 0xBF, CHR 0xBD] else take width s)"

abbreviation rune_rest :: "string \<Rightarrow> string" where
  "rune_rest s \<equiv> drop (snd (decode_rune s)) s"

definition consumed :: "string \<Rightarrow> string \<Rightarrow> string" where
  "consumed s rest = take (length s - length rest) s"

lemma decode_rune_size: "s \<noteq> [] \<Longrightarrow> 1 \<le> snd (decode_rune s)"
  by (auto simp: decode_rune_def Let_def split: option.splits)

lemma decode_rune_shorter: "s \<noteq> [] \<Longrightarrow> length s - snd (decode_rune s) < length s"
  using decode_rune_size [of s] by simp

lemma rune_rest_shorter: "s \<noteq> [] \<Longrightarrow> length (rune_rest s) < length s"
  using decode_rune_size [of s] by simp

lemma decode_rune_ascii: "byte c < 128 \<Longrightarrow> decode_rune (c # s) = (byte c, 1)"
  by (simp add: decode_rune_def byte_at_def)

function rune_count :: "string \<Rightarrow> nat" where
  "rune_count s = (if s = [] then 0 else Suc (rune_count (rune_rest s)))"
  by pat_completeness auto
termination
  by (relation "measure length") (auto simp: decode_rune_shorter rune_rest_shorter)

declare rune_count.simps [simp del]

lemma rune_count_Nil [simp]: "rune_count [] = 0"
  by (subst rune_count.simps) simp

lemma rune_count_le: "rune_count s \<le> length s"
proof (induction s rule: rune_count.induct)
  case (1 s)
  then show ?case
    using rune_rest_shorter [of s] by (cases "s = []") (simp_all add: rune_count.simps [of s])
qed

end
