(* ===== verification/FormulaText.thy ===== *)
theory FormulaText
  imports Structure Utf8
begin

text \<open>
  Structural changes on formula text: the scanner half of
  \<^verbatim>\<open>internal/formula/structure.go\<close>. A position in the formula is the rest of the
  text from there on, so an index the Go code returns is the rest returned here.

  Which runes beyond ASCII are letters or digits is data of Go's \<^verbatim>\<open>unicode\<close>
  tables; it is the argument \<open>U\<close> of the functions that ask, and every theorem holds for
  whatever the tables say. The column of a cell is accumulated in a Go \<^verbatim>\<open>int\<close>
  without a check inside the loop, so its arithmetic is written with \<open>wrap64\<close>.
\<close>

section \<open>Scanning\<close>

definition formulaIdentifierStart :: "unicode_tables \<Rightarrow> nat \<Rightarrow> bool" where
  "formulaIdentifierStart U r = (IsLetter U r \<or> r = byte CHR ''_'' \<or> r = byte CHR ''$'')"

definition identifier_rune :: "unicode_tables \<Rightarrow> nat \<Rightarrow> bool" where
  "identifier_rune U r =
     (IsLetter U r \<or> IsDigit U r \<or> r = byte CHR ''_'' \<or> r = byte CHR ''.'' \<or> r = byte CHR ''$'')"

function formulaIdentifierEnd :: "unicode_tables \<Rightarrow> string \<Rightarrow> string" where
  "formulaIdentifierEnd U s =
     (if s \<noteq> [] \<and> identifier_rune U (fst (decode_rune s))
      then formulaIdentifierEnd U (rune_rest s) else s)"
  by pat_completeness auto
termination
  by (relation "measure (\<lambda>(U, s). length s)") (auto intro: decode_rune_shorter)

declare formulaIdentifierEnd.simps [simp del]

text \<open>The loop of \<^verbatim>\<open>skipFormulaSpaces\<close> drops one white space rune per turn.\<close>

definition skipFormulaSpaces :: "string \<Rightarrow> string" where
  "skipFormulaSpaces s = strip lead_space s"

fun copyString :: "string \<Rightarrow> string \<times> string" where
  "copyString [] = ([], [])"
| "copyString [c] = ([c], [])"
| "copyString (c # d # ds) =
     (if c \<noteq> CHR 0x22 then (case copyString (d # ds) of (out, rest) \<Rightarrow> (c # out, rest))
      else if d = CHR 0x22 then (case copyString ds of (out, rest) \<Rightarrow> (c # d # out, rest))
      else ([c], d # ds))"

text \<open>\<open>s\<close> starts at the opening quotation mark; the results are what is written and the rest.\<close>

definition copyFormulaString :: "string \<Rightarrow> string \<times> string" where
  "copyFormulaString s = (case copyString (tl s) of (out, rest) \<Rightarrow> (CHR 0x22 # out, rest))"

text \<open>
  \<open>quotedName\<close> runs from behind the opening quote; \<open>None\<close> is the \<^verbatim>\<open>false\<close> of the
  code, otherwise the place behind the exclamation mark and the unquoted sheet name.
\<close>

function quotedName :: "string \<Rightarrow> string \<Rightarrow> (string \<times> string) option" where
  "quotedName s name =
     (if s = [] then None
      else if hd s \<noteq> CHR 0x27 then quotedName (rune_rest s) (name @ write_rune s)
      else if tl s \<noteq> [] \<and> hd (tl s) = CHR 0x27 then quotedName (tl (tl s)) (name @ [CHR 0x27])
      else
        (let after = skipFormulaSpaces (tl s) in
         if after = [] \<or> hd after \<noteq> CHR ''!'' then None
         else Some (skipFormulaSpaces (tl after), name)))"
  by pat_completeness auto
termination
  by (relation "measure (\<lambda>(s, name). length s)") (auto intro: decode_rune_shorter)

declare quotedName.simps [simp del]

definition quotedQualifier :: "string \<Rightarrow> (string \<times> string) option" where
  "quotedQualifier s = quotedName (tl s) []"

section \<open>Cells and bands\<close>

record structuralCell =
  columnAbsolute :: bool
  rowAbsolute :: bool
  cellRow :: int
  cellColumn :: int

datatype bandKind = structuralColumnBand | structuralRowBand

fun scanLetters :: "int \<Rightarrow> string \<Rightarrow> int \<times> string" where
  "scanLetters column [] = (column, [])"
| "scanLetters column (c # cs) =
     (if is_alpha_byte c
      then scanLetters (wrap64 (column * 26 + (int (byte (upper_byte c)) - 65 + 1))) cs
      else (column, c # cs))"

definition scanDigits :: "string \<Rightarrow> string \<times> string" where
  "scanDigits s = (takeWhile is_digit_byte s, dropWhile is_digit_byte s)"

definition skip_dollar :: "string \<Rightarrow> bool \<times> string" where
  "skip_dollar s = (if s \<noteq> [] \<and> hd s = CHR ''$'' then (True, tl s) else (False, s))"

definition parseStructuralCell :: "string \<Rightarrow> (structuralCell \<times> string) option" where
  "parseStructuralCell s =
     (let (colAbs, s1) = skip_dollar s;
          (column, s2) = scanLetters 0 s1 in
      if length s2 = length s1 \<or> column > MaxColumns then None
      else let (rowAbs, s3) = skip_dollar s2;
               (digits, s4) = scanDigits s3 in
           if digits = [] then None
           else case atoi digits of
                  None \<Rightarrow> None
                | Some row \<Rightarrow>
                    if row < 1 \<or> row > MaxRows then None
                    else Some (\<lparr>columnAbsolute = colAbs, rowAbsolute = rowAbs,
                                cellRow = row, cellColumn = column\<rparr>, s4))"

definition starts_with_digit :: "string \<Rightarrow> bool" where
  "starts_with_digit s = (s \<noteq> [] \<and> is_digit_byte (hd s))"

definition parseStructuralBand :: "string \<Rightarrow> (int \<times> string \<times> bool \<times> bandKind) option" where
  "parseStructuralBand s =
     (let (dollar, s1) = skip_dollar s;
          (column, s2) = scanLetters 0 s1 in
      if length s2 < length s1 then
        (if length s1 - length s2 > 3 \<or> column > MaxColumns \<or> starts_with_digit s2 then None
         else Some (column, s2, dollar, structuralColumnBand))
      else let (digits, s3) = scanDigits s1 in
        if digits = [] then None
        else case atoi digits of
               None \<Rightarrow> None
             | Some row \<Rightarrow>
                 if row < 1 \<or> row > MaxRows then None else Some (row, s3, dollar, structuralRowBand))"

definition columnName :: "int \<Rightarrow> string" where
  "columnName column = columnLoop column []"

definition renderStructuralBand :: "int \<Rightarrow> bool \<Rightarrow> bandKind \<Rightarrow> string" where
  "renderStructuralBand position absolute kind =
     (if absolute then ''$'' else []) @
     (if kind = structuralRowBand then itoa position else columnName position)"

definition renderStructuralCell :: "structuralCell \<Rightarrow> string" where
  "renderStructuralCell cell =
     (if columnAbsolute cell then ''$'' else []) @ columnName (cellColumn cell) @
     (if rowAbsolute cell then ''$'' else []) @ itoa (cellRow cell)"

definition transformStructuralCells ::
  "structuralCell \<Rightarrow> structuralCell \<Rightarrow> bool \<Rightarrow> StructuralChange \<Rightarrow>
   (structuralCell \<times> structuralCell) option" where
  "transformStructuralCells first second ranged change =
     (if \<not> ranged then
        (let position0 = (if scAxis change = ''column'' then cellColumn first else cellRow first);
             (position, exists) = transformStructuralPosition position0 change in
         if \<not> exists then None
         else if scAxis change = ''row'' then Some (first\<lparr>cellRow := position\<rparr>, second)
         else Some (first\<lparr>cellColumn := position\<rparr>, second))
      else
        (let start0 = (if scAxis change = ''column'' then cellColumn first else cellRow first);
             end0 = (if scAxis change = ''column'' then cellColumn second else cellRow second);
             (start, end, exists) = transformStructuralInterval start0 end0 change in
         if \<not> exists then None
         else if end > axis_limit change then None
         else if scAxis change = ''row''
         then Some (first\<lparr>cellRow := start\<rparr>, second\<lparr>cellRow := end\<rparr>)
         else Some (first\<lparr>cellColumn := start\<rparr>, second\<lparr>cellColumn := end\<rparr>)))"

section \<open>References\<close>

text \<open>
  The result is the rest behind the reference and the text that replaces it; \<open>None\<close> where
  the code returns \<^verbatim>\<open>false\<close>: no reference starts here.
\<close>

definition structuralBandAt ::
  "unicode_tables \<Rightarrow> string \<Rightarrow> StructuralChange \<Rightarrow> bool \<Rightarrow> (string \<times> string) option" where
  "structuralBandAt U s change affected =
     (case parseStructuralBand s of
        None \<Rightarrow> None
      | Some (first, s1, absolute, kind) \<Rightarrow>
          (let colon = skipFormulaSpaces s1 in
           if colon = [] \<or> hd colon \<noteq> CHR '':'' then None
           else case parseStructuralBand (skipFormulaSpaces (tl colon)) of
                  None \<Rightarrow> None
                | Some (second, rest, secondAbsolute, secondKind) \<Rightarrow>
                    if secondKind \<noteq> kind \<or> formulaIdentifierEnd U rest \<noteq> rest then None
                    else
                      (let axis = (if kind = structuralRowBand then ''row'' else ''column'') in
                       if \<not> affected \<or> scAxis change \<noteq> axis then Some (rest, consumed s rest)
                       else
                         (let low = (if first > second then second else first);
                              high = (if first > second then first else second);
                              (l, h, exists) = transformStructuralInterval low high change in
                          if \<not> exists then Some (rest, ''#REF!'')
                          else
                            (let a = (if first > second then h else l);
                                 b = (if first > second then l else h) in
                             Some (rest, renderStructuralBand a absolute kind @ '':'' @
                                         renderStructuralBand b secondAbsolute kind))))))"

definition structuralReferenceAt ::
  "unicode_tables \<Rightarrow> string \<Rightarrow> StructuralChange \<Rightarrow> bool \<Rightarrow> (string \<times> string) option" where
  "structuralReferenceAt U s change affected =
     (case structuralBandAt U s change affected of
        Some r \<Rightarrow> Some r
      | None \<Rightarrow>
          (case parseStructuralCell s of
             None \<Rightarrow> None
           | Some (first, s1) \<Rightarrow>
               if formulaIdentifierEnd U s1 \<noteq> s1 then None
               else
                 (let colon = skipFormulaSpaces s1;
                      second =
                        (if colon \<noteq> [] \<and> hd colon = CHR '':'' then
                           (case parseStructuralCell (skipFormulaSpaces (tl colon)) of
                              None \<Rightarrow> None
                            | Some (cell, s2) \<Rightarrow>
                                if formulaIdentifierEnd U s2 \<noteq> s2 then None else Some (cell, s2, True))
                         else Some (first, s1, False)) in
                  case second of
                    None \<Rightarrow> None
                  | Some (second, rest, ranged) \<Rightarrow>
                      (let next = skipFormulaSpaces rest in
                       if \<not> ranged \<and> next \<noteq> [] \<and> hd next = CHR ''('' then None
                       else if \<not> affected then Some (rest, consumed s rest)
                       else case transformStructuralCells first second ranged change of
                              None \<Rightarrow> Some (rest, ''#REF!'')
                            | Some (a, b) \<Rightarrow>
                                Some (rest, renderStructuralCell a @
                                  (if ranged then '':'' @ renderStructuralCell b else []))))))"

section \<open>The scanner\<close>

text \<open>
  One turn of the loop: what is written and the rest. The three forms of a reference are
  tried in the order of the code: behind a quoted sheet name, as a row band at a digit,
  and at an identifier, first behind its exclamation mark and then in place.
\<close>

definition withQualifier ::
  "string \<Rightarrow> string \<Rightarrow> (string \<times> string) option \<Rightarrow> (string \<times> string) option" where
  "withQualifier s next reference =
     (case reference of
        None \<Rightarrow> None
      | Some (rest, replacement) \<Rightarrow>
          Some ((if replacement \<noteq> ''#REF!'' then consumed s next else []) @ replacement, rest))"

definition quotedToken :: "unicode_tables \<Rightarrow> StructuralChange \<Rightarrow> string \<Rightarrow> (string \<times> string) option" where
  "quotedToken U change s =
     (if hd s \<noteq> CHR 0x27 then None
      else case quotedQualifier s of
             None \<Rightarrow> None
           | Some (next, qualifier) \<Rightarrow>
               withQualifier s next
                 (structuralReferenceAt U next change (equal_fold qualifier (scTargetSheet change))))"

definition number_byte :: "char \<Rightarrow> bool" where
  "number_byte c = (is_digit_byte c \<or> c = CHR ''.'')"

definition numberToken :: "unicode_tables \<Rightarrow> StructuralChange \<Rightarrow> string \<Rightarrow> string \<times> string" where
  "numberToken U change s =
     (case (if equal_fold (scCurrentSheet change) (scTargetSheet change)
            then structuralBandAt U s change True else None) of
        Some (rest, replacement) \<Rightarrow> (replacement, rest)
      | None \<Rightarrow> (takeWhile number_byte s, dropWhile number_byte s))"

definition qualifiedToken :: "unicode_tables \<Rightarrow> StructuralChange \<Rightarrow> string \<Rightarrow> (string \<times> string) option" where
  "qualifiedToken U change s =
     (let tokenEnd = formulaIdentifierEnd U s; bang = skipFormulaSpaces tokenEnd in
      if bang \<noteq> [] \<and> hd bang = CHR ''!'' then
        (let referenceStart = skipFormulaSpaces (tl bang);
             qualifier = filter (\<lambda>c. c \<noteq> CHR ''$'') (consumed s tokenEnd) in
         withQualifier s referenceStart
           (structuralReferenceAt U referenceStart change (equal_fold qualifier (scTargetSheet change))))
      else None)"

definition identifierToken :: "unicode_tables \<Rightarrow> StructuralChange \<Rightarrow> string \<Rightarrow> string \<times> string" where
  "identifierToken U change s =
     (case qualifiedToken U change s of
        Some r \<Rightarrow> r
      | None \<Rightarrow>
          (case (if equal_fold (scCurrentSheet change) (scTargetSheet change)
                 then structuralReferenceAt U s change True else None) of
             Some (rest, replacement) \<Rightarrow> (replacement, rest)
           | None \<Rightarrow> (let tokenEnd = formulaIdentifierEnd U s in (consumed s tokenEnd, tokenEnd))))"

definition scanToken :: "unicode_tables \<Rightarrow> StructuralChange \<Rightarrow> string \<Rightarrow> string \<times> string" where
  "scanToken U change s =
     (if hd s = CHR 0x22 then copyFormulaString s
      else case quotedToken U change s of
             Some r \<Rightarrow> r
           | None \<Rightarrow>
               if is_digit_byte (hd s) then numberToken U change s
               else if formulaIdentifierStart U (fst (decode_rune s)) then identifierToken U change s
               else (write_rune s, rune_rest s))"


section \<open>Every turn consumes text\<close>

lemma strip_length: "length (strip f s) \<le> length s"
  using strip_suffix [of f s] by auto

lemma skipFormulaSpaces_length: "length (skipFormulaSpaces s) \<le> length s"
  by (simp add: skipFormulaSpaces_def strip_length)

lemma scanLetters_length: "length (snd (scanLetters k s)) \<le> length s"
  by (induction k s rule: scanLetters.induct) auto

lemma skip_dollar_length: "length (snd (skip_dollar s)) \<le> length s"
  by (simp add: skip_dollar_def)

lemma scanDigits_length: "fst (scanDigits s) \<noteq> [] \<Longrightarrow> length (snd (scanDigits s)) < length s"
proof -
  assume "fst (scanDigits s) \<noteq> []"
  moreover have "length (takeWhile is_digit_byte s) + length (dropWhile is_digit_byte s) = length s"
    by (metis length_append takeWhile_dropWhile_id)
  ultimately show ?thesis by (simp add: scanDigits_def) (metis add_less_cancel_right length_greater_0_conv add_0)
qed

lemma parseStructuralCell_length: "parseStructuralCell s = Some (cell, rest) \<Longrightarrow> length rest < length s"
  using skip_dollar_length [of s] scanLetters_length [of 0 "snd (skip_dollar s)"]
    skip_dollar_length [of "snd (scanLetters 0 (snd (skip_dollar s)))"]
    scanDigits_length [of "snd (skip_dollar (snd (scanLetters 0 (snd (skip_dollar s)))))"]
  by (auto simp: parseStructuralCell_def Let_def split: prod.splits if_splits option.splits)

lemma parseStructuralBand_length: "parseStructuralBand s = Some (p, rest, a, k) \<Longrightarrow> length rest < length s"
  using skip_dollar_length [of s] scanLetters_length [of 0 "snd (skip_dollar s)"]
    scanDigits_length [of "snd (skip_dollar s)"]
  by (auto simp: parseStructuralBand_def Let_def split: prod.splits if_splits option.splits)

lemma structuralBandAt_length:
  assumes "structuralBandAt U s c a = Some (rest, out)"
  shows "length rest < length s"
proof -
  obtain first s1 ab kind where p: "parseStructuralBand s = Some (first, s1, ab, kind)"
    using assms by (auto simp: structuralBandAt_def split: option.splits)
  let ?colon = "skipFormulaSpaces s1"
  obtain second rest' ab2 kind2
    where q: "parseStructuralBand (skipFormulaSpaces (tl ?colon)) = Some (second, rest', ab2, kind2)"
    using assms p by (auto simp: structuralBandAt_def Let_def split: option.splits if_splits)
  have "rest = rest'"
    using assms p q by (auto simp: structuralBandAt_def Let_def split: if_splits prod.splits)
  moreover have "length (tl ?colon) \<le> length s1" using skipFormulaSpaces_length [of s1] by simp
  ultimately show ?thesis
    using parseStructuralBand_length [OF p] parseStructuralBand_length [OF q]
      skipFormulaSpaces_length [of "tl ?colon"] by simp
qed

lemma structuralReferenceAt_length:
  assumes "structuralReferenceAt U s c a = Some (rest, out)"
  shows "length rest < length s"
proof (cases "structuralBandAt U s c a")
  case (Some r)
  with assms structuralBandAt_length [of U s c a rest out] show ?thesis
    by (simp add: structuralReferenceAt_def)
next
  case None
  obtain first s1 where p: "parseStructuralCell s = Some (first, s1)"
    using assms None by (auto simp: structuralReferenceAt_def split: option.splits)
  let ?colon = "skipFormulaSpaces s1"
  have l: "length (tl ?colon) \<le> length s1" "length s1 < length s"
    using skipFormulaSpaces_length [of s1] parseStructuralCell_length [OF p] by auto
  have "rest = s1 \<or> (\<exists>cell. parseStructuralCell (skipFormulaSpaces (tl ?colon)) = Some (cell, rest))"
    using assms None p by (auto simp: structuralReferenceAt_def Let_def split: option.splits if_splits)
  then show ?thesis
  proof
    assume "rest = s1"
    with l show ?thesis by simp
  next
    assume "\<exists>cell. parseStructuralCell (skipFormulaSpaces (tl ?colon)) = Some (cell, rest)"
    then show ?thesis
      using l skipFormulaSpaces_length [of "tl ?colon"] parseStructuralCell_length by fastforce
  qed
qed

lemma copyString_app: "copyString s = (out, rest) \<Longrightarrow> out @ rest = s"
proof (induction s arbitrary: out rest rule: copyString.induct)
  case (3 c d ds)
  consider "c \<noteq> CHR 0x22" | "c = CHR 0x22" "d = CHR 0x22" | "c = CHR 0x22" "d \<noteq> CHR 0x22" by blast
  then show ?case using 3 by cases (auto simp del: copyString.simps(2) split: prod.splits)
qed simp_all

lemma copyFormulaString_app: "s \<noteq> [] \<Longrightarrow> hd s = CHR 0x22 \<Longrightarrow> copyFormulaString s = (out, rest) \<Longrightarrow> out @ rest = s"
  by (cases s) (auto simp: copyFormulaString_def split: prod.splits dest: copyString_app)

lemma formulaIdentifierEnd_length: "length (formulaIdentifierEnd U s) \<le> length s"
proof (induction U s rule: formulaIdentifierEnd.induct)
  case (1 U s)
  then show ?case
    by (cases "s \<noteq> [] \<and> identifier_rune U (fst (decode_rune s))")
      (auto simp: formulaIdentifierEnd.simps [of U s])
qed

lemma formulaIdentifierEnd_shorter:
  assumes "s \<noteq> []" "formulaIdentifierStart U (fst (decode_rune s))"
  shows "length (formulaIdentifierEnd U s) < length s"
proof -
  have "identifier_rune U (fst (decode_rune s))"
    using assms(2) by (auto simp: identifier_rune_def formulaIdentifierStart_def)
  then have "formulaIdentifierEnd U s = formulaIdentifierEnd U (rune_rest s)"
    using assms(1) by (simp add: formulaIdentifierEnd.simps [of U s])
  then show ?thesis
    using formulaIdentifierEnd_length [of U "rune_rest s"] rune_rest_shorter [OF assms(1)] by simp
qed

lemma quotedName_length: "quotedName s name = Some (next, q) \<Longrightarrow> length next < length s"
proof (induction s name rule: quotedName.induct)
  case (1 s name)
  then have ne: "s \<noteq> []" by (auto simp: quotedName.simps [of s name])
  have t: "length (tl s) < length s" "length (tl (tl s)) \<le> length s" using ne by (cases s) auto
  show ?case
  proof (cases "hd s \<noteq> CHR 0x27")
    case True
    with 1 ne have "length next < length (rune_rest s)" by (simp add: quotedName.simps [of s name])
    with rune_rest_shorter [OF ne] show ?thesis by simp
  next
    case quote: False
    show ?thesis
    proof (cases "tl s \<noteq> [] \<and> hd (tl s) = CHR 0x27")
      case True
      with 1 ne quote have "length next < length (tl (tl s))" by (simp add: quotedName.simps [of s name])
      with t show ?thesis by simp
    next
      case False
      with 1 ne quote have "next = skipFormulaSpaces (tl (skipFormulaSpaces (tl s)))"
        by (auto simp: quotedName.simps [of s name] Let_def split: if_splits)
      then show ?thesis
        using t skipFormulaSpaces_length [of "tl s"]
          skipFormulaSpaces_length [of "tl (skipFormulaSpaces (tl s))"] by simp
    qed
  qed
qed

lemma quotedToken_length:
  assumes "quotedToken U c s = Some (out, rest)" "s \<noteq> []"
  shows "length rest < length s"
proof -
  obtain next' q r where q: "quotedName (tl s) [] = Some (next', q)"
    and "structuralReferenceAt U next' c (equal_fold q (scTargetSheet c)) = Some (rest, r)"
    using assms by (auto simp: quotedToken_def quotedQualifier_def withQualifier_def
        split: if_splits option.splits)
  then show ?thesis
    using quotedName_length [OF q] structuralReferenceAt_length assms(2) by (fastforce simp: less_diff_conv)
qed

lemma qualifiedToken_length:
  assumes "qualifiedToken U c s = Some (out, rest)"
  shows "length rest < length s"
proof -
  let ?bang = "skipFormulaSpaces (formulaIdentifierEnd U s)"
  let ?next = "skipFormulaSpaces (tl ?bang)"
  obtain a r where "structuralReferenceAt U ?next c a = Some (rest, r)"
    using assms by (auto simp: qualifiedToken_def withQualifier_def Let_def split: if_splits option.splits)
  then have "length rest < length ?next" by (rule structuralReferenceAt_length)
  also have "\<dots> \<le> length (tl ?bang)" by (rule skipFormulaSpaces_length)
  also have "\<dots> \<le> length (formulaIdentifierEnd U s)"
    using skipFormulaSpaces_length [of "formulaIdentifierEnd U s"] by simp
  also have "\<dots> \<le> length s" by (rule formulaIdentifierEnd_length)
  finally show ?thesis .
qed

lemma identifierToken_length:
  assumes "identifierToken U c s = (out, rest)" "s \<noteq> []" "formulaIdentifierStart U (fst (decode_rune s))"
  shows "length rest < length s"
  using assms formulaIdentifierEnd_shorter [OF assms(2,3)]
  by (auto simp: identifierToken_def Let_def split: option.splits if_splits
      dest: qualifiedToken_length structuralReferenceAt_length)

lemma numberToken_length:
  assumes "numberToken U c s = (out, rest)" "s \<noteq> []" "is_digit_byte (hd s)"
  shows "length rest < length s"
proof -
  have "length (dropWhile number_byte s) < length s"
    using assms(2,3) length_dropWhile_le [of number_byte "tl s"]
    by (cases s) (auto simp: number_byte_def le_imp_less_Suc)
  with assms show ?thesis
    by (auto simp: numberToken_def split: option.splits if_splits dest: structuralBandAt_length)
qed

lemma scanToken_length:
  assumes "s \<noteq> []"
  shows "length (snd (scanToken U c s)) < length s"
proof -
  have q: "length (snd (copyFormulaString s)) < length s"
  proof -
    obtain out rest where r: "copyString (tl s) = (out, rest)" by fastforce
    from copyString_app [OF r] have "length rest \<le> length (tl s)" by (metis le_add2 length_append)
    with assms r show ?thesis by (cases s) (auto simp: copyFormulaString_def)
  qed
  then show ?thesis
    using assms quotedToken_length [of U c s] numberToken_length [of U c s] identifierToken_length [of U c s]
      rune_rest_shorter [of s]
    by (cases "numberToken U c s"; cases "identifierToken U c s")
      (auto simp: scanToken_def split: option.splits)
qed

function transformLoop :: "unicode_tables \<Rightarrow> StructuralChange \<Rightarrow> string \<Rightarrow> string" where
  "transformLoop U change s =
     (if s = [] then []
      else fst (scanToken U change s) @ transformLoop U change (snd (scanToken U change s)))"
  by pat_completeness auto
termination
  by (relation "measure (\<lambda>(U, change, s). length s)") (auto intro: scanToken_length)

declare transformLoop.simps [simp del]

definition TransformStructuralReferences :: "unicode_tables \<Rightarrow> string \<Rightarrow> StructuralChange \<Rightarrow> string" where
  "TransformStructuralReferences U input change =
     (if input = [] \<or> scIndex change < 1 \<or> scCount change < 1 \<or>
         (scAxis change \<noteq> ''row'' \<and> scAxis change \<noteq> ''column'') \<or>
         (scAction change \<noteq> ''insert'' \<and> scAction change \<noteq> ''delete'' \<and> scAction change \<noteq> ''move'') \<or>
         (scAction change = ''move'' \<and> scDestination change < 1)
      then input
      else transformLoop U change input)"


section \<open>References in place\<close>

text \<open>
  Text that ends a reference: nothing, or a byte that is no part of an identifier and starts
  no quotation, sheet qualifier, range or call, such as an operator, a comma or a closing
  parenthesis.
\<close>

definition ascii_identifier :: "char \<Rightarrow> bool" where
  "ascii_identifier c = (is_alpha_byte c \<or> is_digit_byte c \<or> c = CHR ''_'' \<or> c = CHR ''.'' \<or> c = CHR ''$'')"

definition delimiter :: "char \<Rightarrow> bool" where
  "delimiter c =
     (byte c < 128 \<and> \<not> ascii_identifier c \<and> \<not> ascii_space (byte c) \<and>
      c \<noteq> CHR 0x22 \<and> c \<noteq> CHR 0x27 \<and> c \<noteq> CHR '':'' \<and> c \<noteq> CHR ''!'' \<and> c \<noteq> CHR ''('')"

definition delimited :: "string \<Rightarrow> bool" where
  "delimited s = (s = [] \<or> delimiter (hd s))"

lemma ascii_identifier_rune:
  assumes "byte c < 128"
  shows "identifier_rune U (byte c) \<longleftrightarrow> ascii_identifier c"
proof -
  have "byte c = byte d \<longleftrightarrow> c = d" for d by simp
  note e = this [of "CHR ''_''"] this [of "CHR ''.''"] this [of "CHR ''$''"]
  show ?thesis using assms unfolding identifier_rune_def ascii_identifier_def e
    by (auto simp: IsLetter_def IsDigit_def is_alpha_byte_def is_upper_byte_def
        is_lower_byte_def is_digit_byte_def)
qed

lemma ascii_identifier_less: "ascii_identifier c \<Longrightarrow> byte c < 128"
  by (auto simp: ascii_identifier_def is_alpha_byte_def is_upper_byte_def is_lower_byte_def is_digit_byte_def)

lemma formulaIdentifierEnd_app:
  "list_all ascii_identifier s \<Longrightarrow> formulaIdentifierEnd U (s @ rest) = formulaIdentifierEnd U rest"
proof (induction s)
  case (Cons c s)
  then have "byte c < 128" by (simp add: ascii_identifier_less)
  with Cons show ?case
    by (simp add: formulaIdentifierEnd.simps [of U "c # s @ rest"] decode_rune_ascii ascii_identifier_rune)
qed simp

lemma formulaIdentifierEnd_delimited: "delimited s \<Longrightarrow> formulaIdentifierEnd U s = s"
  by (subst formulaIdentifierEnd.simps)
    (cases s; auto simp: delimited_def delimiter_def decode_rune_ascii ascii_identifier_rune)

lemma skipFormulaSpaces_ascii:
  "byte c < 128 \<Longrightarrow> \<not> ascii_space (byte c) \<Longrightarrow> skipFormulaSpaces (c # s) = c # s"
  by (simp add: skipFormulaSpaces_def strip_stop lead_space_ascii)

lemma skipFormulaSpaces_delimited: "delimited s \<Longrightarrow> skipFormulaSpaces s = s"
  by (cases s) (auto simp: delimited_def delimiter_def skipFormulaSpaces_ascii,
      simp add: skipFormulaSpaces_def)

lemma delimited_hd:
  "delimited s \<Longrightarrow> s \<noteq> [] \<Longrightarrow> hd s \<noteq> CHR '':'' \<and> hd s \<noteq> CHR ''!'' \<and> hd s \<noteq> CHR ''('' \<and> \<not> is_digit_byte (hd s)"
  by (auto simp: delimited_def delimiter_def ascii_identifier_def)

section \<open>Reading back a rendered cell\<close>

definition cell_in_sheet :: "structuralCell \<Rightarrow> bool" where
  "cell_in_sheet cell =
     (1 \<le> cellRow cell \<and> cellRow cell \<le> MaxRows \<and> 1 \<le> cellColumn cell \<and> cellColumn cell \<le> MaxColumns)"

lemma upper_scan_value: "is_upper_byte c \<Longrightarrow> int (byte (upper_byte c)) - 65 + 1 = letter_value c"
  by (auto simp: upper_byte_def is_upper_byte_def is_lower_byte_def letter_value_def)

lemma scanLetters_upper:
  assumes "list_all is_upper_byte s" "0 \<le> k" "column_fold k s \<le> MaxColumns"
    "rest = [] \<or> \<not> is_alpha_byte (hd rest)"
  shows "scanLetters k (s @ rest) = (column_fold k s, rest)"
  using assms
proof (induction s arbitrary: k)
  case Nil
  then show ?case by (cases rest) auto
next
  case (Cons c s)
  let ?k = "k * 26 + letter_value c"
  have u: "is_upper_byte c" "0 \<le> ?k" using Cons.prems upper_letter [of c] by auto
  then have "?k \<le> column_fold ?k s" using Cons.prems by (intro column_fold_mono) auto
  then have "?k \<le> MaxColumns" using Cons.prems by simp
  with u have "wrap64 ?k = ?k" by (intro wrap64_id) (auto simp: MaxColumns_def)
  moreover have "is_alpha_byte c" using u(1) by (simp add: is_alpha_byte_def)
  ultimately show ?case using Cons u by (simp add: upper_scan_value)
qed

lemma scanLetters_columnName:
  assumes "1 \<le> n" "n \<le> MaxColumns" "rest = [] \<or> \<not> is_alpha_byte (hd rest)"
  shows "scanLetters 0 (columnName n @ rest) = (n, rest)"
  using assms columnLoop_upper [of n] column_fold_columnLoop [of n]
  by (simp add: columnName_def scanLetters_upper)

lemma columnName_facts:
  assumes "1 \<le> n"
  shows "columnName n \<noteq> []" "is_upper_byte (hd (columnName n))" "list_all is_upper_byte (columnName n)"
  using assms columnLoop_not_Nil [of n] columnLoop_upper [of n]
  by (auto simp: columnName_def list_all_iff)

lemma skip_dollar_app:
  "s \<noteq> [] \<Longrightarrow> hd s \<noteq> CHR ''$'' \<Longrightarrow> skip_dollar ((if b then ''$'' else []) @ s) = (b, s)"
  by (simp add: skip_dollar_def)

lemma scanDigits_app:
  "all_digits d \<Longrightarrow> \<not> starts_with_digit rest \<Longrightarrow> scanDigits (d @ rest) = (d, rest)"
  by (cases rest) (auto simp: scanDigits_def all_digits_def starts_with_digit_def list_all_iff
      takeWhile_append2 dropWhile_append2)

lemma digits_hd: "all_digits d \<Longrightarrow> d \<noteq> [] \<and> is_digit_byte (hd d)"
  by (cases d) (auto simp: all_digits_def)

lemma digit_facts: "is_digit_byte c \<Longrightarrow> c \<noteq> CHR ''$'' \<and> \<not> is_alpha_byte c"
  by (auto simp: is_digit_byte_def is_alpha_byte_def is_upper_byte_def is_lower_byte_def)

lemma upper_facts: "is_upper_byte c \<Longrightarrow> c \<noteq> CHR ''$'' \<and> is_alpha_byte c"
  by (auto simp: is_alpha_byte_def is_upper_byte_def)

abbreviation dollar :: "bool \<Rightarrow> string" where
  "dollar b \<equiv> (if b then ''$'' else [])"

lemma parseStructuralCell_render:
  assumes "cell_in_sheet cell" "\<not> starts_with_digit rest"
  shows "parseStructuralCell (renderStructuralCell cell @ rest) = Some (cell, rest)"
proof -
  let ?col = "columnName (cellColumn cell)" and ?row = "itoa (cellRow cell)"
  let ?tail = "dollar (rowAbsolute cell) @ ?row @ rest"
  have r: "1 \<le> cellRow cell" "cellRow cell \<le> MaxRows" "1 \<le> cellColumn cell" "cellColumn cell \<le> MaxColumns"
    using assms(1) by (auto simp: cell_in_sheet_def)
  note c = columnName_facts [OF r(3)]
  have d: "all_digits ?row" using r(1) by simp
  note dh = digits_hd [OF d]
  have t: "?tail \<noteq> []" "\<not> is_alpha_byte (hd ?tail)"
    using dh digit_facts [of "hd ?row"] by (auto simp: is_alpha_byte_def is_upper_byte_def is_lower_byte_def)
  have s: "renderStructuralCell cell @ rest = dollar (columnAbsolute cell) @ (?col @ ?tail)"
    by (simp add: renderStructuralCell_def)
  have 1: "skip_dollar (renderStructuralCell cell @ rest) = (columnAbsolute cell, ?col @ ?tail)"
    unfolding s using c upper_facts [OF c(2)] by (intro skip_dollar_app) auto
  have 2: "scanLetters 0 (?col @ ?tail) = (cellColumn cell, ?tail)"
    using r t by (intro scanLetters_columnName) auto
  have 3: "skip_dollar ?tail = (rowAbsolute cell, ?row @ rest)"
    using dh digit_facts [of "hd ?row"] by (intro skip_dollar_app) auto
  have 4: "scanDigits (?row @ rest) = (?row, rest)" using d assms(2) by (rule scanDigits_app)
  have 5: "atoi ?row = Some (cellRow cell)"
    by (rule atoi_itoa) (use r in \<open>simp_all add: MaxRows_def\<close>)
  show ?thesis unfolding parseStructuralCell_def Let_def 1 prod.case 2 3 4 5
    using r dh c(1) by simp
qed

lemma render_ascii_identifier:
  assumes "cell_in_sheet cell"
  shows "list_all ascii_identifier (renderStructuralCell cell)"
proof -
  have "list_all is_upper_byte (columnName (cellColumn cell))"
    "list_all is_digit_byte (itoa (cellRow cell))"
    using assms columnName_facts(3) itoa_pos_digits [of "cellRow cell"]
    by (auto simp: cell_in_sheet_def all_digits_def)
  then show ?thesis
    by (auto simp: renderStructuralCell_def list_all_iff ascii_identifier_def is_alpha_byte_def)
qed

text \<open>A cell is not taken for a band: its letters are followed by a digit or a dollar sign.\<close>

lemma parseStructuralBand_render:
  assumes "cell_in_sheet cell" "parseStructuralBand (renderStructuralCell cell @ rest) = Some (p, s1, a, k)"
  shows "s1 = ''$'' @ itoa (cellRow cell) @ rest"
proof -
  let ?col = "columnName (cellColumn cell)" and ?row = "itoa (cellRow cell)"
  let ?tail = "dollar (rowAbsolute cell) @ ?row @ rest"
  have r: "1 \<le> cellRow cell" "cellRow cell \<le> MaxRows" "1 \<le> cellColumn cell" "cellColumn cell \<le> MaxColumns"
    using assms(1) by (auto simp: cell_in_sheet_def)
  note c = columnName_facts [OF r(3)]
  note dh = digits_hd [OF itoa_pos_digits, of "cellRow cell"]
  have dh': "?row \<noteq> []" "is_digit_byte (hd ?row)" using dh r(1) by auto
  have t: "?tail \<noteq> []" "\<not> is_alpha_byte (hd ?tail)"
    using dh' digit_facts [of "hd ?row"] by (auto simp: is_alpha_byte_def is_upper_byte_def is_lower_byte_def)
  have s: "renderStructuralCell cell @ rest = dollar (columnAbsolute cell) @ (?col @ ?tail)"
    by (simp add: renderStructuralCell_def)
  have 1: "skip_dollar (renderStructuralCell cell @ rest) = (columnAbsolute cell, ?col @ ?tail)"
    unfolding s using c upper_facts [OF c(2)] by (intro skip_dollar_app) auto
  have 2: "scanLetters 0 (?col @ ?tail) = (cellColumn cell, ?tail)"
    using r t by (intro scanLetters_columnName) auto
  have "\<not> starts_with_digit ?tail" and "s1 = ?tail"
    using assms(2) c(1) unfolding parseStructuralBand_def Let_def 1 prod.case 2
    by (auto split: if_splits)
  then show ?thesis using dh' by (auto simp: starts_with_digit_def split: if_splits)
qed

lemma structuralBandAt_render:
  assumes "cell_in_sheet cell"
  shows "structuralBandAt U (renderStructuralCell cell @ rest) c aff = None"
proof (cases "parseStructuralBand (renderStructuralCell cell @ rest)")
  case None
  then show ?thesis by (simp add: structuralBandAt_def)
next
  case (Some r)
  obtain p s1 a k where r: "r = (p, s1, a, k)" by (cases r)
  have "s1 = CHR ''$'' # itoa (cellRow cell) @ rest"
    using parseStructuralBand_render [OF assms] Some r by simp
  then have "skipFormulaSpaces s1 = CHR ''$'' # itoa (cellRow cell) @ rest"
    by (simp add: skipFormulaSpaces_ascii ascii_space_def)
  with Some r show ?thesis by (simp add: structuralBandAt_def)
qed

text \<open>The text a reference to a cell is replaced with.\<close>

definition moved_reference :: "StructuralChange \<Rightarrow> structuralCell \<Rightarrow> string" where
  "moved_reference c cell =
     (case move_cell c (cellRow cell, cellColumn cell) of
        None \<Rightarrow> ''#REF!''
      | Some (row, column) \<Rightarrow> renderStructuralCell (cell\<lparr>cellRow := row, cellColumn := column\<rparr>))"

lemma transformStructuralCells_single:
  assumes "scAxis c = ''row'' \<or> scAxis c = ''column''"
  shows "(case transformStructuralCells cell cell False c of
      None \<Rightarrow> ''#REF!'' | Some (a, b) \<Rightarrow> renderStructuralCell a) = moved_reference c cell"
  using assms
  by (cases cell) (auto simp: transformStructuralCells_def moved_reference_def move_cell_def
      move_index_def survivor_def split: prod.splits)

lemma delimited_not_digit: "delimited rest \<Longrightarrow> \<not> starts_with_digit rest"
  using delimited_hd [of rest] by (auto simp: starts_with_digit_def)

lemma structuralReferenceAt_render:
  assumes "cell_in_sheet cell" "delimited rest" "scAxis c = ''row'' \<or> scAxis c = ''column''"
  shows "structuralReferenceAt U (renderStructuralCell cell @ rest) c True =
    Some (rest, moved_reference c cell)"
  using assms(1,2) delimited_hd [OF assms(2)] transformStructuralCells_single [OF assms(3), of cell]
  by (auto simp: structuralReferenceAt_def structuralBandAt_render parseStructuralCell_render
      delimited_not_digit formulaIdentifierEnd_delimited skipFormulaSpaces_delimited
      split: option.splits)

lemma render_start:
  assumes "cell_in_sheet cell"
  obtains x xs where "renderStructuralCell cell = x # xs" "byte x < 128" "x \<noteq> CHR 0x22" "x \<noteq> CHR 0x27"
    "\<not> is_digit_byte x" "\<And>U. formulaIdentifierStart U (byte x)"
proof -
  let ?s = "renderStructuralCell cell"
  have c: "columnName (cellColumn cell) \<noteq> []" "is_upper_byte (hd (columnName (cellColumn cell)))"
    using assms columnName_facts [of "cellColumn cell"] by (auto simp: cell_in_sheet_def)
  obtain x xs where s: "?s = x # xs" by (cases ?s) (use c in \<open>auto simp: renderStructuralCell_def\<close>)
  then have "x = CHR ''$'' \<or> is_upper_byte x"
    using c by (cases "columnName (cellColumn cell)") (auto simp: renderStructuralCell_def split: if_splits)
  then show ?thesis
    by (intro that [OF s])
      (auto simp: is_upper_byte_def is_digit_byte_def formulaIdentifierStart_def IsLetter_def)
qed

lemma scanToken_render:
  assumes "cell_in_sheet cell" "delimited rest" "scAxis c = ''row'' \<or> scAxis c = ''column''"
    and "equal_fold (scCurrentSheet c) (scTargetSheet c)"
  shows "scanToken U c (renderStructuralCell cell @ rest) = (moved_reference c cell, rest)"
proof -
  obtain x xs where x: "renderStructuralCell cell = x # xs" "byte x < 128" "x \<noteq> CHR 0x22" "x \<noteq> CHR 0x27"
    "\<not> is_digit_byte x" "formulaIdentifierStart U (byte x)"
    using render_start [OF assms(1)] by metis
  have e: "formulaIdentifierEnd U (renderStructuralCell cell @ rest) = rest"
    by (simp add: formulaIdentifierEnd_app render_ascii_identifier assms formulaIdentifierEnd_delimited)
  have "qualifiedToken U c (renderStructuralCell cell @ rest) = None"
    using delimited_hd [OF assms(2)]
    by (auto simp: qualifiedToken_def Let_def e skipFormulaSpaces_delimited assms(2))
  then have "identifierToken U c (renderStructuralCell cell @ rest) = (moved_reference c cell, rest)"
    by (simp add: identifierToken_def structuralReferenceAt_render assms)
  then show ?thesis using x
    by (simp add: scanToken_def quotedToken_def decode_rune_ascii)
qed

lemma scanToken_delimiter:
  assumes "delimiter d"
  shows "scanToken U c (d # s) = ([d], s)"
proof -
  have d: "byte d < 128" "d \<noteq> CHR 0x22" "d \<noteq> CHR 0x27" "\<not> is_digit_byte d"
    using assms by (auto simp: delimiter_def ascii_identifier_def)
  have "\<not> formulaIdentifierStart U (byte d)"
    using assms ascii_identifier_rune [OF d(1), of U]
    by (auto simp: delimiter_def formulaIdentifierStart_def identifier_rune_def)
  moreover have "byte d \<noteq> 65533" using d(1) by simp
  ultimately show ?thesis using d
    by (simp add: scanToken_def quotedToken_def decode_rune_ascii write_rune_def)
qed


section \<open>Properties\<close>

definition runs :: "StructuralChange \<Rightarrow> bool" where
  "runs c =
     (1 \<le> scIndex c \<and> 1 \<le> scCount c \<and> (scAxis c = ''row'' \<or> scAxis c = ''column'') \<and>
      (scAction c = ''insert'' \<or> scAction c = ''delete'' \<or> scAction c = ''move'' \<and> 1 \<le> scDestination c))"

lemma TransformStructuralReferences_runs:
  "runs c \<Longrightarrow> TransformStructuralReferences U s c = transformLoop U c s"
  by (auto simp: TransformStructuralReferences_def runs_def transformLoop.simps [of U c "[]"])

lemma transformLoop_step:
  "scanToken U c s = (out, rest) \<Longrightarrow> s \<noteq> [] \<Longrightarrow> transformLoop U c s = out @ transformLoop U c rest"
  by (simp add: transformLoop.simps [of U c s])

lemma transformLoop_Nil [simp]: "transformLoop U c [] = []"
  by (simp add: transformLoop.simps)

text \<open>A formula made of references, each behind an operator: \<open>=$B$2*C3+AA10\<close>.\<close>

definition formula_text :: "(char \<times> structuralCell) list \<Rightarrow> string" where
  "formula_text xs = concat (map (\<lambda>(d, cell). d # renderStructuralCell cell) xs)"

lemma formula_text_delimited: "\<forall>(d, cell) \<in> set xs. delimiter d \<Longrightarrow> delimited (formula_text xs)"
  by (cases xs) (auto simp: formula_text_def delimited_def)

lemma transformLoop_formula_text:
  assumes "scAxis c = ''row'' \<or> scAxis c = ''column''" "equal_fold (scCurrentSheet c) (scTargetSheet c)"
    and "\<forall>(d, cell) \<in> set xs. delimiter d \<and> cell_in_sheet cell"
  shows "transformLoop U c (formula_text xs) = concat (map (\<lambda>(d, cell). d # moved_reference c cell) xs)"
  using assms(3)
proof (induction xs)
  case (Cons x xs)
  obtain d cell where x: "x = (d, cell)" by fastforce
  have dl: "delimiter d" "cell_in_sheet cell" and "delimited (formula_text xs)"
    using Cons.prems x by (auto intro: formula_text_delimited)
  then have "scanToken U c (renderStructuralCell cell @ formula_text xs) = (moved_reference c cell, formula_text xs)"
    using assms by (intro scanToken_render) auto
  moreover have "renderStructuralCell cell @ formula_text xs \<noteq> []"
    using render_start [OF dl(2)] by (metis Nil_is_append_conv list.distinct(1))
  moreover have "formula_text (x # xs) = d # renderStructuralCell cell @ formula_text xs"
    by (simp add: formula_text_def x)
  ultimately show ?case
    using Cons x transformLoop_step [OF scanToken_delimiter [OF dl(1)]] by (simp add: transformLoop_step)
qed (simp add: formula_text_def)


definition no_tables :: unicode_tables where
  "no_tables = \<lparr>uniLetter = (\<lambda>_. False), uniDigit = (\<lambda>_. False)\<rparr>"

definition delete_example :: StructuralChange where
  "delete_example = \<lparr>scAxis = ''row'', scAction = ''delete'', scIndex = 3, scCount = 2,
     scDestination = 0, scCurrentSheet = ''Sheet1'', scTargetSheet = ''SHEET1''\<rparr>"

definition example_cells :: "(char \<times> structuralCell) list" where
  "example_cells =
     [(CHR ''='', \<lparr>columnAbsolute = True, rowAbsolute = False, cellRow = 9, cellColumn = 28\<rparr>),
      (CHR ''*'', \<lparr>columnAbsolute = False, rowAbsolute = True, cellRow = 4, cellColumn = 2\<rparr>)]"


text \<open>
  The text of a string literal is never touched: whatever it spells, it is copied, and
  the change goes on behind it.
\<close>

lemma string_literal_untouched:
  assumes "runs c" "CHR 0x22 \<notin> set body" "rest = [] \<or> hd rest \<noteq> CHR 0x22"
  shows "TransformStructuralReferences U (CHR 0x22 # body @ CHR 0x22 # rest) c =
    CHR 0x22 # body @ CHR 0x22 # TransformStructuralReferences U rest c"
proof -
  have "copyString (body @ CHR 0x22 # rest) = (body @ [CHR 0x22], rest)"
    using assms(2)
  proof (induction body)
    case Nil
    then show ?case using assms(3) by (cases rest) auto
  next
    case (Cons b body)
    then show ?case by (cases body) auto
  qed
  then have "scanToken U c (CHR 0x22 # body @ CHR 0x22 # rest) = (CHR 0x22 # body @ [CHR 0x22], rest)"
    by (simp add: scanToken_def copyFormulaString_def)
  from transformLoop_step [OF this] show ?thesis
    using assms(1) by (simp add: TransformStructuralReferences_runs)
qed

text \<open>
  A long name whose column arithmetic runs past 64 bits is taken for a cell: the letters
  of the workbook name \<^verbatim>\<open>AnnualSalesTarget2024\<close> fold to a negative column, which
  passes the test against the last column, so a row inserted above row 2024 of the sheet
  turns the name into a bare number.
\<close>

lemma long_name_rewritten_to_number:
  "TransformStructuralReferences no_tables ''=AnnualSalesTarget2024*2''
     (insert_example\<lparr>scIndex := 10, scCount := 1\<rparr>) = ''=2025*2''"
proof -
  let ?c = "insert_example\<lparr>scIndex := 10, scCount := 1\<rparr>"
  have r: "runs ?c"
    and 1: "scanToken no_tables ?c ''=AnnualSalesTarget2024*2'' = (''='', ''AnnualSalesTarget2024*2'')"
    and 2: "scanToken no_tables ?c ''AnnualSalesTarget2024*2'' = (''2025'', ''*2'')"
    and 3: "scanToken no_tables ?c ''*2'' = (''*'', ''2'')"
    and 4: "scanToken no_tables ?c ''2'' = (''2'', [])"
    by code_simp+
  show ?thesis
    by (simp add: TransformStructuralReferences_runs [OF r] transformLoop_step [OF 1]
        transformLoop_step [OF 2] transformLoop_step [OF 3] transformLoop_step [OF 4])
qed

text \<open>
  A whole-column reference that reaches the last column is pushed off the sheet by an
  inserted column: the band is rendered one column past \<^verbatim>\<open>XFD\<close>, a name no sheet has,
  where the same change turns the cell range to the same column into \<^verbatim>\<open>#REF!\<close>.
\<close>

lemma band_pushed_off_sheet:
  "TransformStructuralReferences no_tables ''=B:XFD''
     (insert_example\<lparr>scAxis := ''column'', scCount := 1\<rparr>) = ''=B:XFE'' \<and>
   TransformStructuralReferences no_tables ''=B1:XFD1''
     (insert_example\<lparr>scAxis := ''column'', scCount := 1\<rparr>) = ''=#REF!'' \<and>
   parseStructuralBand ''XFE'' = None"
proof -
  let ?c = "insert_example\<lparr>scAxis := ''column'', scCount := 1\<rparr>"
  have r: "runs ?c"
    and 1: "scanToken no_tables ?c ''=B:XFD'' = (''='', ''B:XFD'')"
    and 2: "scanToken no_tables ?c ''B:XFD'' = (''B:XFE'', [])"
    and 3: "scanToken no_tables ?c ''=B1:XFD1'' = (''='', ''B1:XFD1'')"
    and 4: "scanToken no_tables ?c ''B1:XFD1'' = (''#REF!'', [])"
    and 5: "parseStructuralBand ''XFE'' = None"
    by code_simp+
  show ?thesis
    by (simp add: TransformStructuralReferences_runs [OF r] transformLoop_step [OF 1]
        transformLoop_step [OF 2] transformLoop_step [OF 3] transformLoop_step [OF 4] 5)
qed

lemma formulaIdentifierEnd_suffix: "\<exists>n. formulaIdentifierEnd U s = drop n s"
proof (induction U s rule: formulaIdentifierEnd.induct)
  case (1 U s)
  show ?case
  proof (cases "s \<noteq> [] \<and> identifier_rune U (fst (decode_rune s))")
    case True
    with 1 show ?thesis by (metis drop_drop formulaIdentifierEnd.simps)
  next
    case False
    then show ?thesis by (metis drop0 formulaIdentifierEnd.simps)
  qed
qed

lemma formulaIdentifierEnd_set: "set (formulaIdentifierEnd U s) \<subseteq> set s"
  using formulaIdentifierEnd_suffix [of U s] by (metis set_drop_subset)

lemma skipFormulaSpaces_set: "set (skipFormulaSpaces s) \<subseteq> set s"
  using strip_suffix [of lead_space s] by (metis set_drop_subset skipFormulaSpaces_def)

lemma consumed_drop: "rest = drop n s \<Longrightarrow> consumed s rest @ rest = s"
  by (simp add: consumed_def) (metis append_take_drop_id diff_diff_cancel linear take_all drop_all
      cancel_comm_monoid_add_class.diff_zero diff_is_0_eq' length_drop)

lemma quotedName_bang: "quotedName s name = Some r \<Longrightarrow> CHR ''!'' \<in> set s"
proof (induction s name rule: quotedName.induct)
  case (1 s name)
  have sub: "set (rune_rest s) \<subseteq> set s" "set (tl s) \<subseteq> set s" "set (tl (tl s)) \<subseteq> set s"
    by (auto dest: in_set_dropD list.set_sel(2) [rotated]) (metis list.sel(2) list.set_sel(2))+
  show ?case
  proof (rule ccontr)
    assume n: "CHR ''!'' \<notin> set s"
    let ?after = "skipFormulaSpaces (tl s)"
    have "CHR ''!'' \<notin> set ?after" using n sub skipFormulaSpaces_set [of "tl s"] by blast
    then have "?after = [] \<or> hd ?after \<noteq> CHR ''!''" by (metis list.set_sel(1))
    with 1 n sub show False
      by (auto simp: quotedName.simps [of s name] Let_def split: if_splits)
  qed
qed

lemma qualifiedToken_bang: "qualifiedToken U c s = Some r \<Longrightarrow> CHR ''!'' \<in> set s"
proof -
  let ?bang = "skipFormulaSpaces (formulaIdentifierEnd U s)"
  assume "qualifiedToken U c s = Some r"
  then have "?bang \<noteq> []" "hd ?bang = CHR ''!''" by (auto simp: qualifiedToken_def Let_def split: if_splits)
  then have "CHR ''!'' \<in> set ?bang" by (metis list.set_sel(1))
  then show ?thesis
    using skipFormulaSpaces_set [of "formulaIdentifierEnd U s"] formulaIdentifierEnd_set [of U s] by blast
qed

lemma quotedToken_bang: "quotedToken U c s = Some r \<Longrightarrow> CHR ''!'' \<in> set s"
proof -
  assume "quotedToken U c s = Some r"
  then obtain q where "quotedName (tl s) [] = Some q"
    by (auto simp: quotedToken_def quotedQualifier_def split: if_splits option.splits)
  then have "CHR ''!'' \<in> set (tl s)" by (rule quotedName_bang)
  then show ?thesis by (cases s) auto
qed

lemma scanToken_verbatim:
  assumes "s \<noteq> []" "\<not> equal_fold (scCurrentSheet c) (scTargetSheet c)"
    and "CHR ''!'' \<notin> set s" "\<forall>b \<in> set s. byte b < 128"
  shows "fst (scanToken U c s) @ snd (scanToken U c s) = s"
proof -
  have q: "quotedToken U c s = None" "qualifiedToken U c s = None"
    using assms(3) quotedToken_bang qualifiedToken_bang by (metis not_Some_eq)+
  have "consumed s (formulaIdentifierEnd U s) @ formulaIdentifierEnd U s = s"
    using formulaIdentifierEnd_suffix [of U s] consumed_drop by blast
  then have i: "fst (identifierToken U c s) @ snd (identifierToken U c s) = s"
    using assms(2) q by (simp add: identifierToken_def Let_def)
  have n: "fst (numberToken U c s) @ snd (numberToken U c s) = s"
    using assms(2) by (simp add: numberToken_def)
  have r: "write_rune s @ rune_rest s = s"
    using assms(1,4) by (cases s) (auto simp: write_rune_def decode_rune_ascii)
  have "hd s = CHR 0x22 \<Longrightarrow> fst (copyFormulaString s) @ snd (copyFormulaString s) = s"
    using assms(1) copyFormulaString_app [of s] by (metis prod.collapse)
  with q i n r show ?thesis by (simp add: scanToken_def)
qed

text \<open>
  A formula of another sheet that names no sheet is left as it is: without an
  exclamation mark there is no qualifier, and an unqualified reference means the formula's
  own sheet, which did not change.
\<close>

lemma other_sheet_untouched:
  assumes "runs c" "\<not> equal_fold (scCurrentSheet c) (scTargetSheet c)"
    and "CHR ''!'' \<notin> set input" "\<forall>b \<in> set input. byte b < 128"
  shows "TransformStructuralReferences U input c = input"
proof -
  have "transformLoop U c input = input"
    using assms(3,4)
  proof (induction "length input" arbitrary: input rule: less_induct)
    case less
    show ?case
    proof (cases "input = []")
      case False
      note v = scanToken_verbatim [OF False assms(2) less.prems, of U]
      then have "set (snd (scanToken U c input)) \<subseteq> set input" by (metis Un_upper2 set_append)
      with less scanToken_length [OF False, of U c]
      have "transformLoop U c (snd (scanToken U c input)) = snd (scanToken U c input)" by blast
      with v False show ?thesis by (simp add: transformLoop.simps [of U c input])
    qed simp
  qed
  with assms(1) show ?thesis by (simp add: TransformStructuralReferences_runs)
qed

end
