(* ===== verification/SheetStructure.thy ===== *)
theory SheetStructure
  imports Structure
begin

text \<open>
  Structural requests on a sheet and the writes they race with:
  \<^verbatim>\<open>internal/workbook/rebase.go\<close> and the request half of
  \<^verbatim>\<open>internal/workbook/structure.go\<close>. A request is normalised before it runs;
  a cell write addressed before the request took effect is rebased through it, so that it
  lands on the cell its author meant, or is dropped when that cell is gone.
  A JSON value (\<^verbatim>\<open>json.RawMessage\<close>) is its raw text.
\<close>

section \<open>Definitions\<close>

definition MaxStructuralCount :: int where
  "MaxStructuralCount = 1000"

record StructuralMutation =
  smSheetID :: string
  smActorID :: string
  smClientID :: string
  smBaseVersion :: int
  smIdempotencyKey :: string
  smAxis :: string
  smAction :: string
  smIndex :: int
  smCount :: int
  smDestination :: int

definition normalizeStructuralMutation :: "StructuralMutation \<Rightarrow> StructuralMutation result" where
  "normalizeStructuralMutation raw =
     (let input = raw\<lparr>smAxis := to_lower (trim_space (smAxis raw)),
                      smAction := to_lower (trim_space (smAction raw)),
                      smIdempotencyKey := trim_space (smIdempotencyKey raw)\<rparr>;
          limit = (if smAxis input = ''column'' then MaxColumns else MaxRows) in
      if smIdempotencyKey input = [] then Inl ErrInvalid
      else if smAxis input \<noteq> ''row'' \<and> smAxis input \<noteq> ''column'' then Inl ErrInvalid
      else if smAction input \<noteq> ''insert'' \<and> smAction input \<noteq> ''delete'' \<and> smAction input \<noteq> ''move''
      then Inl ErrInvalid
      else if smIndex input < 1 \<or> smIndex input > limit \<or> smCount input < 1 \<or>
              smCount input > MaxStructuralCount \<or> smIndex input + smCount input - 1 > limit
      then Inl ErrInvalid
      else if smAction input = ''move'' then
        (if smDestination input < 1 \<or> smDestination input > limit + 1 then Inl ErrInvalid
         else Inr input)
      else Inr (input\<lparr>smDestination := 0\<rparr>))"

definition formulaStructuralChange :: "StructuralMutation \<Rightarrow> string \<Rightarrow> string \<Rightarrow> StructuralChange" where
  "formulaStructuralChange input currentSheet targetSheet =
     \<lparr>scAxis = smAxis input, scAction = smAction input, scIndex = smIndex input,
      scCount = smCount input, scDestination = smDestination input,
      scCurrentSheet = currentSheet, scTargetSheet = targetSheet\<rparr>"

definition structuralPosition :: "int \<Rightarrow> StructuralMutation \<Rightarrow> int \<times> bool" where
  "structuralPosition position input =
     (if smAction input = ''move'' then
        TransformPosition position (formulaStructuralChange input [] [])
      else if smAction input = ''insert'' then
        (if position \<ge> smIndex input then position + smCount input else position, True)
      else
        (let deletedEnd = smIndex input + smCount input - 1 in
         if position \<ge> smIndex input \<and> position \<le> deletedEnd then (0, False)
         else if position > deletedEnd then (position - smCount input, True)
         else (position, True)))"

record CellInput =
  ciSheetID :: string
  ciRow :: int
  ciColumn :: int
  ciValue :: string
  ciFormula :: string
  ciStyle :: string
  ciNote :: string
  ciSpillSource :: string

record CellCoordinate =
  ccSheetID :: string
  ccRow :: int
  ccColumn :: int

fun rebasePosition :: "int \<Rightarrow> int \<Rightarrow> StructuralChange list \<Rightarrow> int \<times> int \<times> bool" where
  "rebasePosition row column [] = (row, column, True)"
| "rebasePosition row column (change # changes) =
     (if scAxis change = ''column'' then
        (case TransformPosition column change of (next, alive) \<Rightarrow>
           if \<not> alive then (0, 0, False) else rebasePosition row next changes)
      else
        (case TransformPosition row change of (next, alive) \<Rightarrow>
           if \<not> alive then (0, 0, False) else rebasePosition next column changes))"

fun rebaseLoop ::
  "StructuralChange list \<Rightarrow> CellInput list \<Rightarrow> CellInput list \<times> CellCoordinate list \<times> int" where
  "rebaseLoop changes [] = ([], [], 0)"
| "rebaseLoop changes (input # cells) =
     (case rebaseLoop changes cells of (rebased, dropped, moved) \<Rightarrow>
        (case rebasePosition (ciRow input) (ciColumn input) changes of (row, column, alive) \<Rightarrow>
           if \<not> alive
           then (rebased, \<lparr>ccSheetID = [], ccRow = ciRow input, ccColumn = ciColumn input\<rparr> # dropped, moved)
           else (input\<lparr>ciRow := row, ciColumn := column\<rparr> # rebased, dropped,
                 if row \<noteq> ciRow input \<or> column \<noteq> ciColumn input then moved + 1 else moved)))"

definition rebaseCellInputs ::
  "CellInput list \<Rightarrow> StructuralChange list \<Rightarrow> CellInput list \<times> CellCoordinate list \<times> int" where
  "rebaseCellInputs cells changes =
     (if changes = [] then (cells, [], 0) else rebaseLoop changes cells)"

section \<open>Requests\<close>

definition mutation_change :: "StructuralMutation \<Rightarrow> StructuralChange" where
  "mutation_change input = formulaStructuralChange input [] []"

definition valid_mutation :: "StructuralMutation \<Rightarrow> bool" where
  "valid_mutation input =
     (valid_change (mutation_change input) \<and> (smAxis input = ''row'' \<or> smAxis input = ''column'') \<and>
      (smAction input = ''insert'' \<or> smAction input = ''delete'' \<or> smAction input = ''move''))"

lemmas mutation_defs =
  mutation_change_def formulaStructuralChange_def valid_change_def axis_limit_def

text \<open>Where a request, made at some time, puts a cell.\<close>

definition moved_cell :: "StructuralMutation \<times> 'n \<Rightarrow> int \<times> int \<Rightarrow> (int \<times> int) option" where
  "moved_cell m p = move_cell (formulaStructuralChange (fst m) [] []) p"

lemma normalizeStructuralMutation_valid:
  "normalizeStructuralMutation raw = Inr input \<Longrightarrow> valid_mutation input"
  by (auto simp: normalizeStructuralMutation_def valid_mutation_def mutation_defs Let_def split: if_splits)

text \<open>A request in normal form, which the normaliser keeps as it is.\<close>

definition normal_mutation :: "StructuralMutation \<Rightarrow> bool" where
  "normal_mutation input =
     (valid_mutation input \<and> smIdempotencyKey input \<noteq> [] \<and>
      trim_space (smIdempotencyKey input) = smIdempotencyKey input \<and>
      smCount input \<le> MaxStructuralCount \<and>
      (smAction input \<noteq> ''move'' \<longrightarrow> smDestination input = 0))"

lemma normalizeStructuralMutation_normal:
  assumes "normalizeStructuralMutation raw = Inr input"
  shows "normal_mutation input"
  using assms normalizeStructuralMutation_valid [OF assms]
  by (auto simp: normalizeStructuralMutation_def normal_mutation_def Let_def split: if_splits)

lemma request_words:
  "trim_space ''row'' = ''row''" "to_lower ''row'' = ''row''"
  "trim_space ''column'' = ''column''" "to_lower ''column'' = ''column''"
  "trim_space ''insert'' = ''insert''" "to_lower ''insert'' = ''insert''"
  "trim_space ''delete'' = ''delete''" "to_lower ''delete'' = ''delete''"
  "trim_space ''move'' = ''move''" "to_lower ''move'' = ''move''"
  by code_simp+

lemma normalizeStructuralMutation_idem:
  assumes "normal_mutation input"
  shows "normalizeStructuralMutation input = Inr input"
proof -
  have words: "to_lower (trim_space (smAxis input)) = smAxis input"
    "to_lower (trim_space (smAction input)) = smAction input"
    "trim_space (smIdempotencyKey input) = smIdempotencyKey input"
    using assms by (auto simp: normal_mutation_def valid_mutation_def request_words)
  have same: "input\<lparr>smAxis := smAxis input, smAction := smAction input,
      smIdempotencyKey := smIdempotencyKey input\<rparr> = input" by simp
  have dest: "smAction input \<noteq> ''move'' \<Longrightarrow> input\<lparr>smDestination := 0\<rparr> = input"
    using assms by (cases input) (simp add: normal_mutation_def)
  define limit where "limit = (if smAxis input = ''column'' then MaxColumns else MaxRows)"
  have bounds: "1 \<le> smIndex input" "1 \<le> smCount input" "smIndex input + smCount input - 1 \<le> limit"
    "smAction input \<noteq> ''move'' \<or> 1 \<le> smDestination input \<and> smDestination input \<le> limit + 1"
    using assms by (auto simp: normal_mutation_def valid_mutation_def mutation_defs limit_def)
  have checks: "smIdempotencyKey input \<noteq> []" "smAxis input = ''row'' \<or> smAxis input = ''column''"
    "smAction input = ''insert'' \<or> smAction input = ''delete'' \<or> smAction input = ''move''"
    "smCount input \<le> MaxStructuralCount"
    using assms by (auto simp: normal_mutation_def valid_mutation_def)
  show ?thesis
    unfolding normalizeStructuralMutation_def Let_def words same limit_def [symmetric]
    using checks bounds dest by auto
qed

definition move_sheet_index :: "StructuralMutation \<Rightarrow> int \<Rightarrow> int option" where
  "move_sheet_index input i = survivor (structuralPosition i input)"

lemma move_sheet_index_eq:
  "move_sheet_index m i =
     (if smAction m = ''insert'' then Some (if i \<ge> smIndex m then i + smCount m else i)
      else move_index (mutation_change m) i)"
  by (auto simp: move_sheet_index_def move_index_def structuralPosition_def TransformPosition_def
      transformStructuralPosition_def mutation_change_def formulaStructuralChange_def survivor_def Let_def)

lemma move_sheet_index_inj:
  assumes "valid_mutation m" "move_sheet_index m i = Some k" "move_sheet_index m j = Some k"
  shows "i = j"
proof (cases "smAction m = ''insert''")
  case True
  with assms show ?thesis
    by (auto simp: move_sheet_index_eq valid_mutation_def mutation_defs split: if_splits)
next
  case False
  with assms show ?thesis
    by (auto simp: move_sheet_index_eq valid_mutation_def intro: formula_motion.move_inj)
qed

interpretation sheet_motion: index_motion valid_mutation move_sheet_index
  by unfold_locales (fact move_sheet_index_inj)

section \<open>Rebasing\<close>

abbreviation column_changes :: "StructuralChange list \<Rightarrow> StructuralChange list" where
  "column_changes \<equiv> filter (\<lambda>c. scAxis c = ''column'')"

abbreviation row_changes :: "StructuralChange list \<Rightarrow> StructuralChange list" where
  "row_changes \<equiv> filter (\<lambda>c. scAxis c \<noteq> ''column'')"

lemma TransformPosition_survivor:
  "TransformPosition i c = (k, True) \<Longrightarrow> move_index c i = Some k"
  "TransformPosition i c = (k, False) \<Longrightarrow> move_index c i = None"
  by (simp_all add: move_index_def survivor_def TransformPosition_def)

text \<open>
  Rebasing a cell is rebasing its row through the row changes and its column through the
  column changes; a write is dropped when either is gone.
\<close>

lemma rebasePosition_axes:
  "rebasePosition row column changes =
     (case (move_all move_index (row_changes changes) row, move_all move_index (column_changes changes) column) of
        (Some r, Some c) \<Rightarrow> (r, c, True) | _ \<Rightarrow> (0, 0, False))"
proof (induction row column changes rule: rebasePosition.induct)
  case (2 row column change changes)
  obtain k alive where t: "TransformPosition column change = (k, alive)" by fastforce
  obtain l alive' where u: "TransformPosition row change = (l, alive')" by fastforce
  show ?case
    using 2 t u by (cases alive; cases alive'; cases "scAxis change = ''column''")
      (auto simp: TransformPosition_survivor split: option.splits)
qed simp

lemma rebasePosition_inj:
  assumes "list_all valid_change changes"
    and "rebasePosition row column changes = (r, c, True)"
    and "rebasePosition row' column' changes = (r, c, True)"
  shows "row = row' \<and> column = column'"
proof -
  have v: "list_all valid_change (row_changes changes)" "list_all valid_change (column_changes changes)"
    using assms(1) by (auto simp: list_all_iff)
  show ?thesis
    using assms(2,3) formula_motion.move_all_inj [OF v(1)] formula_motion.move_all_inj [OF v(2)]
    by (auto simp: rebasePosition_axes split: option.splits)
qed

definition coordinate :: "CellInput \<Rightarrow> int \<times> int" where
  "coordinate input = (ciRow input, ciColumn input)"

definition lands :: "StructuralChange list \<Rightarrow> CellInput \<Rightarrow> CellInput option" where
  "lands changes input =
     (case rebasePosition (ciRow input) (ciColumn input) changes of (row, column, alive) \<Rightarrow>
        if alive then Some (input\<lparr>ciRow := row, ciColumn := column\<rparr>) else None)"

lemma rebaseLoop_spec:
  "rebaseLoop changes cells =
     (List.map_filter (lands changes) cells,
      map (\<lambda>i. \<lparr>ccSheetID = [], ccRow = ciRow i, ccColumn = ciColumn i\<rparr>)
        (filter (\<lambda>i. lands changes i = None) cells),
      int (length (filter (\<lambda>i. \<exists>j. lands changes i = Some j \<and> coordinate j \<noteq> coordinate i) cells)))"
proof (induction cells)
  case (Cons input cells)
  obtain row column alive
    where p: "rebasePosition (ciRow input) (ciColumn input) changes = (row, column, alive)"
    by (cases "rebasePosition (ciRow input) (ciColumn input) changes")
  show ?case
  proof (cases alive)
    case True
    with p have "lands changes input = Some (input\<lparr>ciRow := row, ciColumn := column\<rparr>)"
      by (simp add: lands_def)
    with Cons p True show ?thesis by (simp add: coordinate_def List.map_filter_simps)
  next
    case False
    with p have "lands changes input = None" by (simp add: lands_def)
    with Cons p False show ?thesis by (simp add: List.map_filter_simps)
  qed
qed (simp add: List.map_filter_simps)

lemma lands_Nil: "lands [] i = Some i"
  by (cases i) (simp add: lands_def)

lemma rebaseCellInputs_spec:
  "rebaseCellInputs cells changes =
     (List.map_filter (lands changes) cells,
      map (\<lambda>i. \<lparr>ccSheetID = [], ccRow = ciRow i, ccColumn = ciColumn i\<rparr>)
        (filter (\<lambda>i. lands changes i = None) cells),
      int (length (filter (\<lambda>i. \<exists>j. lands changes i = Some j \<and> coordinate j \<noteq> coordinate i) cells)))"
proof (cases "changes = []")
  case True
  have "List.map_filter (lands []) cells = cells"
    by (induction cells) (auto simp: List.map_filter_simps lands_Nil)
  with True show ?thesis by (simp add: rebaseCellInputs_def lands_Nil)
qed (simp add: rebaseCellInputs_def rebaseLoop_spec)

lemma lands_coordinate_inj:
  assumes "list_all valid_change changes" "lands changes i = Some i'" "lands changes j = Some j'"
    "coordinate i' = coordinate j'"
  shows "coordinate i = coordinate j"
  using assms rebasePosition_inj [OF assms(1)]
  by (fastforce simp: lands_def coordinate_def split: prod.splits if_splits)

section \<open>Properties\<close>


definition blank_cell :: "int \<Rightarrow> int \<Rightarrow> string \<Rightarrow> CellInput" where
  "blank_cell row column v =
     \<lparr>ciSheetID = [], ciRow = row, ciColumn = column, ciValue = v, ciFormula = [],
      ciStyle = [], ciNote = [], ciSpillSource = []\<rparr>"

definition delete_rows :: StructuralChange where
  "delete_rows = insert_example\<lparr>scAction := ''delete''\<rparr>"


definition raw_request :: StructuralMutation where
  "raw_request = \<lparr>smSheetID = ''s'', smActorID = ''u'', smClientID = ''c'', smBaseVersion = 3,
     smIdempotencyKey = '' k1 '', smAxis = '' Row'', smAction = ''MOVE '', smIndex = 2, smCount = 3,
     smDestination = 9\<rparr>"

definition normal_request :: StructuralMutation where
  "normal_request = raw_request\<lparr>smIdempotencyKey := ''k1'', smAxis := ''row'', smAction := ''move''\<rparr>"

text \<open>
  C37. The sheet and the formulas agree on where a row goes: for a normalised request, the
  position the cell store moves a cell to is the one the formula references to it are
  rewritten to, except that a reference is lost when an insertion pushes it past the edge of
  the sheet, where the cell store refuses the whole operation.
\<close>

theorem sheet_and_formula_agree:
  assumes "normalizeStructuralMutation raw = Inr input"
    and "1 \<le> position" "position \<le> axis_limit (formulaStructuralChange input current target)"
  shows "transformStructuralPosition position (formulaStructuralChange input current target) =
    (case structuralPosition position input of (next, remains) \<Rightarrow>
       (next, remains \<and> next \<le> axis_limit (formulaStructuralChange input current target)))"
proof -
  let ?c = "formulaStructuralChange input current target"
  have v: "valid_mutation input" using assms(1) by (rule normalizeStructuralMutation_valid)
  then have m: "smAction input = ''move'' \<Longrightarrow> movedPosition position ?c \<le> axis_limit ?c"
    using assms(2,3) movedPosition_bounds(2) [of ?c "axis_limit ?c" position]
    by (auto simp: valid_mutation_def mutation_defs)
  have e: "movedPosition position (formulaStructuralChange input [] []) = movedPosition position ?c"
    by (simp add: movedPosition_def formulaStructuralChange_def Let_def)
  have a: "scAction (formulaStructuralChange input x y) = smAction input"
    "scIndex (formulaStructuralChange input x y) = smIndex input"
    "scCount (formulaStructuralChange input x y) = smCount input" for x y
    by (simp_all add: formulaStructuralChange_def)
  have n: "1 \<le> smCount input" using v by (simp add: valid_mutation_def mutation_defs)
  consider "smAction input = ''move''" | "smAction input = ''insert''" | "smAction input = ''delete''"
    using v by (auto simp: valid_mutation_def)
  then show ?thesis
    using assms(2,3) m n
    by cases (auto simp: structuralPosition_def transformStructuralPosition_def TransformPosition_def Let_def e a)
qed

theorem sheet_and_formula_agree_witness:
  "transformStructuralPosition 3 (formulaStructuralChange normal_request ''A'' ''B'') =
    (case structuralPosition 3 normal_request of (next, remains) \<Rightarrow>
       (next, remains \<and> next \<le> axis_limit (formulaStructuralChange normal_request ''A'' ''B''))) \<and>
   structuralPosition 3 normal_request = (7, True)"
proof -
  have n: "normalizeStructuralMutation raw_request = Inr normal_request"
    and b: "1 \<le> (3::int)" "3 \<le> axis_limit (formulaStructuralChange normal_request ''A'' ''B'')"
    and p: "structuralPosition 3 normal_request = (7, True)"
    by code_simp+
  from sheet_and_formula_agree [OF n b] p show ?thesis by blast
qed

end
