(* ===== verification/Dimensions.thy ===== *)
theory Dimensions
  imports SheetStructure Complex_Main "HOL-Library.AList" "HOL-Library.Product_Lexorder"
begin

text \<open>
  Rows and columns as a sheet shows them: the sizes, hidden runs and outline groups of
  \<^verbatim>\<open>internal/workbook/layout.go\<close>, one axis at a time. A size is a rational number:
  the code compares sizes and copies them, and does no arithmetic on them. A Go map is an
  association list; where the code ranges over a map it sorts the keys before they are
  stored, so the order in which the map gives them up is not seen.
\<close>

section \<open>Sizes\<close>

record DimensionSize =
  dsIndex :: int
  dsSize :: rat

record DimensionRange =
  drStart :: int
  drEnd :: int

record DimensionGroup =
  dgStart :: int
  dgEnd :: int
  dgCollapsed :: bool
  dgDepth :: int

definition MaxLayoutEntries :: nat where
  "MaxLayoutEntries = 10000"

definition sizes_by_index :: "DimensionSize list \<Rightarrow> (int \<times> rat) list \<Rightarrow> (int \<times> rat) list" where
  "sizes_by_index items m = fold (\<lambda>item. AList.update (dsIndex item) (dsSize item)) items m"

definition normalizeDimensionSizes ::
  "DimensionSize list \<Rightarrow> int \<Rightarrow> rat \<Rightarrow> rat \<Rightarrow> rat \<Rightarrow> DimensionSize list" where
  "normalizeDimensionSizes input limit minimum maximum defaultSize =
     (let kept = filter (\<lambda>item. \<not> (dsIndex item < 1 \<or> dsIndex item > limit \<or> dsSize item < minimum \<or>
                     dsSize item > maximum \<or> dsSize item = defaultSize)) input;
          byIndex = sizes_by_index kept [];
          indexes = take MaxLayoutEntries (sort (map fst byIndex)) in
      map (\<lambda>index. \<lparr>dsIndex = index, dsSize = the (map_of byIndex index)\<rparr>) indexes)"

section \<open>Hidden runs\<close>

definition clamp_range :: "int \<Rightarrow> DimensionRange \<Rightarrow> DimensionRange" where
  "clamp_range limit item =
     (let item = (if drStart item < 1 then item\<lparr>drStart := 1\<rparr> else item) in
      if drEnd item > limit then item\<lparr>drEnd := limit\<rparr> else item)"

definition merge_step :: "DimensionRange list \<Rightarrow> DimensionRange \<Rightarrow> DimensionRange list" where
  "merge_step merged item =
     (if merged = [] \<or> drStart item > drEnd (last merged) + 1 then merged @ [item]
      else if drEnd item > drEnd (last merged)
      then butlast merged @ [(last merged)\<lparr>drEnd := drEnd item\<rparr>]
      else merged)"

definition mergeDimensionRanges :: "DimensionRange list \<Rightarrow> int \<Rightarrow> DimensionRange list" where
  "mergeDimensionRanges input limit =
     (let items = filter (\<lambda>item. drStart item \<le> drEnd item) (map (clamp_range limit) input) in
      foldl merge_step [] (sort_key (\<lambda>item. (drStart item, drEnd item)) items))"

definition normalizeDimensionRanges :: "DimensionRange list \<Rightarrow> int \<Rightarrow> DimensionRange list" where
  "normalizeDimensionRanges input limit = take MaxLayoutEntries (mergeDimensionRanges input limit)"

section \<open>Outline groups\<close>

definition MaxGroupDepth :: int where
  "MaxGroupDepth = 8"

definition MaxGroups :: nat where
  "MaxGroups = 200"

definition encloses :: "DimensionGroup \<Rightarrow> DimensionGroup \<Rightarrow> bool" where
  "encloses outer inner =
     (if dgStart outer = dgStart inner \<and> dgEnd outer = dgEnd inner then False
      else dgStart outer \<le> dgStart inner \<and> dgEnd outer \<ge> dgEnd inner)"

definition clamp_group :: "int \<Rightarrow> DimensionGroup \<Rightarrow> DimensionGroup" where
  "clamp_group limit grp =
     (let grp = (if dgStart grp < 1 then grp\<lparr>dgStart := 1\<rparr> else grp) in
      if dgEnd grp > limit then grp\<lparr>dgEnd := limit\<rparr> else grp)"

abbreviation group_key :: "DimensionGroup \<Rightarrow> int \<times> int" where
  "group_key grp \<equiv> (dgStart grp, dgEnd grp)"

definition see_group ::
  "DimensionGroup \<Rightarrow> ((int \<times> int) \<times> DimensionGroup) list \<Rightarrow> ((int \<times> int) \<times> DimensionGroup) list" where
  "see_group grp seen =
     (let grp = (case map_of seen (group_key grp) of
                     Some existing \<Rightarrow> grp\<lparr>dgCollapsed := dgCollapsed grp \<or> dgCollapsed existing\<rparr>
                   | None \<Rightarrow> grp) in
      AList.update (group_key grp) grp seen)"

definition group_depth :: "DimensionGroup list \<Rightarrow> nat \<Rightarrow> int" where
  "group_depth groups index =
     int (length (filter (\<lambda>other. other \<noteq> index \<and> encloses (groups ! other) (groups ! index))
       [0..<length groups]))"

definition set_depths :: "DimensionGroup list \<Rightarrow> DimensionGroup list" where
  "set_depths groups =
     map (\<lambda>index. (groups ! index)\<lparr>dgDepth := group_depth groups index\<rparr>) [0..<length groups]"

definition normalizeDimensionGroups :: "DimensionGroup list \<Rightarrow> int \<Rightarrow> DimensionGroup list" where
  "normalizeDimensionGroups input limit =
     (let kept = filter (\<lambda>grp. \<not> dgStart grp \<ge> dgEnd grp) (map (clamp_group limit) input);
          seen = fold see_group kept [];
          groups = sort_key (\<lambda>grp. (dgStart grp, - dgEnd grp)) (map snd seen) in
      set_depths (take MaxGroups groups))"

definition innermost_step ::
  "int \<Rightarrow> int \<Rightarrow> DimensionGroup option \<Rightarrow> DimensionGroup \<Rightarrow> DimensionGroup option" where
  "innermost_step start end best grp =
     (if dgStart grp > start \<or> dgEnd grp < end then best
      else case best of
          None \<Rightarrow> Some grp
        | Some b \<Rightarrow> if dgEnd grp - dgStart grp < dgEnd b - dgStart b then Some grp else best)"

definition innermostGroup :: "DimensionGroup list \<Rightarrow> int \<Rightarrow> int \<Rightarrow> DimensionGroup option" where
  "innermostGroup groups start end = foldl (innermost_step start end) None groups"

section \<open>Following a structural change\<close>

fun transformDimensionSizes :: "DimensionSize list \<Rightarrow> StructuralMutation \<Rightarrow> DimensionSize list \<times> bool" where
  "transformDimensionSizes [] mutation = ([], False)"
| "transformDimensionSizes (item # input) mutation =
     (case transformDimensionSizes input mutation of (result, changed) \<Rightarrow>
        case structuralPosition (dsIndex item) mutation of (index, remains) \<Rightarrow>
          if \<not> remains then (result, True)
          else (item\<lparr>dsIndex := index\<rparr> # result, changed \<or> index \<noteq> dsIndex item))"

definition transformGroupInterval :: "int \<Rightarrow> int \<Rightarrow> StructuralMutation \<Rightarrow> int \<times> int \<times> bool" where
  "transformGroupInterval start end mutation =
     TransformInterval start end (formulaStructuralChange mutation [] [])"

text \<open>
  One turn of the loop of \<^verbatim>\<open>transformDimensionRanges\<close>: the interval it continues with,
  or none when the move drops it.
\<close>

definition moved_range :: "DimensionRange \<Rightarrow> StructuralMutation \<Rightarrow> DimensionRange option" where
  "moved_range interval mutation =
     (if smAction mutation = ''move'' then
        (case transformGroupInterval (drStart interval) (drEnd interval) mutation of (start, end, exists) \<Rightarrow>
           if exists then Some (interval\<lparr>drStart := start, drEnd := end\<rparr>) else None)
      else if smAction mutation = ''insert'' then
        Some (if smIndex mutation \<le> drStart interval
              then interval\<lparr>drStart := drStart interval + smCount mutation,
                            drEnd := drEnd interval + smCount mutation\<rparr>
              else if smIndex mutation \<le> drEnd interval
              then interval\<lparr>drEnd := drEnd interval + smCount mutation\<rparr>
              else interval)
      else
        (let deleteStart = smIndex mutation; deleteEnd = smIndex mutation + smCount mutation - 1 in
         Some (if deleteEnd < drStart interval
               then interval\<lparr>drStart := drStart interval - smCount mutation,
                             drEnd := drEnd interval - smCount mutation\<rparr>
               else if deleteStart \<le> drEnd interval then
                 (let removed = min (drEnd interval) deleteEnd - max (drStart interval) deleteStart + 1;
                      shrunk = interval\<lparr>drEnd := drEnd interval - removed\<rparr> in
                  if deleteStart < drStart interval then
                    (let shift = min (smCount mutation) (drStart interval - deleteStart) in
                     shrunk\<lparr>drStart := drStart shrunk - shift, drEnd := drEnd shrunk - shift\<rparr>)
                  else shrunk)
               else interval)))"

fun transformDimensionRanges ::
  "DimensionRange list \<Rightarrow> StructuralMutation \<Rightarrow> DimensionRange list \<times> bool" where
  "transformDimensionRanges [] mutation = ([], False)"
| "transformDimensionRanges (interval # input) mutation =
     (case transformDimensionRanges input mutation of (result, changed) \<Rightarrow>
        case moved_range interval mutation of
          None \<Rightarrow> (result, True)
        | Some moved \<Rightarrow>
            (if drStart moved \<le> drEnd moved then moved # result else result, changed \<or> moved \<noteq> interval))"

fun transformDimensionGroups ::
  "DimensionGroup list \<Rightarrow> StructuralMutation \<Rightarrow> DimensionGroup list \<times> bool" where
  "transformDimensionGroups [] mutation = ([], False)"
| "transformDimensionGroups (grp # input) mutation =
     (case transformDimensionGroups input mutation of (result, changed) \<Rightarrow>
        case transformGroupInterval (dgStart grp) (dgEnd grp) mutation of (start, end, exists) \<Rightarrow>
          if \<not> exists then (result, True)
          else (grp\<lparr>dgStart := start, dgEnd := end\<rparr> # result,
                changed \<or> start \<noteq> dgStart grp \<or> end \<noteq> dgEnd grp))"

definition transformFrozenCount :: "int \<Rightarrow> StructuralMutation \<Rightarrow> int" where
  "transformFrozenCount count mutation =
     (if count = 0 \<or> smAction mutation = ''move'' \<or> smIndex mutation > count then count
      else if smAction mutation = ''insert'' then count + smCount mutation
      else
        (let deletedInside = min count (smIndex mutation + smCount mutation - 1) - smIndex mutation + 1;
             deletedInside = (if deletedInside < 0 then 0 else deletedInside) in
         max 0 (count - deletedInside)))"

section \<open>Hidden runs as sets of rows\<close>

lemma sorted_map_fst: "sorted (map (\<lambda>x. (f x, g x)) xs) \<Longrightarrow> sorted (map f xs)"
  for f :: "'a \<Rightarrow> 'b::linorder" and g :: "'a \<Rightarrow> 'c::linorder"
  by (auto simp: sorted_wrt_map less_eq_prod_def elim!: sorted_wrt_mono_rel [rotated])

lemma update_new: "k \<notin> fst ` set m \<Longrightarrow> AList.update k v m = m @ [(k, v)]"
  by (induction m) auto

definition rows_of :: "DimensionRange list \<Rightarrow> int set" where
  "rows_of rs = (\<Union>r \<in> set rs. {drStart r..drEnd r})"

definition separated :: "DimensionRange list \<Rightarrow> bool" where
  "separated rs = (sorted_wrt (\<lambda>a b. drEnd a + 1 < drStart b) rs \<and> (\<forall>r \<in> set rs. drStart r \<le> drEnd r))"

lemma rows_of_simps [simp]:
  "rows_of [] = {}" "rows_of (r # rs) = {drStart r..drEnd r} \<union> rows_of rs"
  "rows_of (xs @ ys) = rows_of xs \<union> rows_of ys"
  by (auto simp: rows_of_def)

lemma merge_step_rows:
  assumes "separated merged" "drStart item \<le> drEnd item"
    and "merged \<noteq> [] \<longrightarrow> drStart (last merged) \<le> drStart item"
  shows "separated (merge_step merged item) \<and>
    rows_of (merge_step merged item) = rows_of merged \<union> {drStart item..drEnd item} \<and>
    merge_step merged item \<noteq> [] \<and> drStart (last (merge_step merged item)) \<le> drStart item"
proof (cases merged rule: rev_cases)
  case Nil
  with assms show ?thesis by (simp add: merge_step_def separated_def)
next
  case (snoc front l)
  consider "drStart item > drEnd l + 1" | "drStart item \<le> drEnd l + 1" "drEnd item > drEnd l"
    | "drEnd item \<le> drEnd l" "drStart item \<le> drEnd l + 1" by linarith
  then show ?thesis
  proof cases
    case 1
    with snoc assms show ?thesis
      by (fastforce simp: merge_step_def separated_def sorted_wrt_append)
  next
    case 2
    have "{drStart l..drEnd item} = {drStart l..drEnd l} \<union> {drStart item..drEnd item}"
      using 2 snoc assms by (auto simp: separated_def)
    with 2 snoc assms show ?thesis
      by (auto simp: merge_step_def separated_def sorted_wrt_append)
  next
    case 3
    with snoc assms show ?thesis by (auto simp: merge_step_def separated_def)
  qed
qed

lemma merge_rows:
  assumes "separated merged" "sorted (map drStart items)" "\<forall>r \<in> set items. drStart r \<le> drEnd r"
    and "merged \<noteq> [] \<longrightarrow> (\<forall>r \<in> set items. drStart (last merged) \<le> drStart r)"
  shows "separated (foldl merge_step merged items) \<and>
    rows_of (foldl merge_step merged items) = rows_of merged \<union> rows_of items"
  using assms
proof (induction items arbitrary: merged)
  case (Cons item items)
  have step: "separated (merge_step merged item)"
    "rows_of (merge_step merged item) = rows_of merged \<union> {drStart item..drEnd item}"
    "drStart (last (merge_step merged item)) \<le> drStart item"
    using Cons.prems merge_step_rows [of merged item] by auto
  have "\<forall>r \<in> set items. drStart (last (merge_step merged item)) \<le> drStart r"
    using Cons.prems(2) step(3) by force
  with Cons.IH [OF step(1)] Cons.prems step(2) show ?case by auto
qed simp

lemma clamp_range_rows: "{drStart (clamp_range limit r)..drEnd (clamp_range limit r)} = {drStart r..drEnd r} \<inter> {1..limit}"
  by (auto simp: clamp_range_def Let_def)

lemma rows_of_filter: "rows_of (filter (\<lambda>item. drStart item \<le> drEnd item) rs) = rows_of rs"
  by (induction rs) auto

lemma rows_of_clamped:
  "rows_of (filter (\<lambda>item. drStart item \<le> drEnd item) (map (clamp_range limit) rs)) = rows_of rs \<inter> {1..limit}"
  unfolding rows_of_filter
proof (induction rs)
  case (Cons r rs)
  then show ?case by (simp only: list.map rows_of_simps clamp_range_rows Int_Un_distrib2)
qed simp

lemma mergeDimensionRanges_rows:
  "separated (mergeDimensionRanges rs limit)"
  "rows_of (mergeDimensionRanges rs limit) = rows_of rs \<inter> {1..limit}"
proof -
  let ?items = "sort_key (\<lambda>item. (drStart item, drEnd item))
    (filter (\<lambda>item. drStart item \<le> drEnd item) (map (clamp_range limit) rs))"
  have s: "sorted (map drStart ?items)" by (rule sorted_map_fst) (rule sorted_sort_key)
  have r: "rows_of ?items = rows_of rs \<inter> {1..limit}"
    unfolding rows_of_clamped [symmetric] by (simp add: rows_of_def)
  have m: "mergeDimensionRanges rs limit = foldl merge_step [] ?items"
    by (simp only: mergeDimensionRanges_def Let_def)
  have "separated (foldl merge_step [] ?items) \<and> rows_of (foldl merge_step [] ?items) = rows_of [] \<union> rows_of ?items"
    by (rule merge_rows) (use s in \<open>simp_all add: separated_def\<close>)
  then show "separated (mergeDimensionRanges rs limit)"
    "rows_of (mergeDimensionRanges rs limit) = rows_of rs \<inter> {1..limit}"
    unfolding m r by simp_all
qed

lemma separated_Cons:
  "separated (r # rs) \<longleftrightarrow> drStart r \<le> drEnd r \<and> separated rs \<and> (\<forall>i \<in> rows_of rs. drEnd r + 1 < i)"
proof -
  have "(\<forall>x \<in> set rs. drEnd r + 1 < drStart x) \<longleftrightarrow> (\<forall>i \<in> rows_of rs. drEnd r + 1 < i)" if "separated rs"
    using that by (force simp: separated_def rows_of_def)
  then show ?thesis by (auto simp: separated_def)
qed

lemma separated_rows_nonempty: "separated (r # rs) \<Longrightarrow> rows_of (r # rs) \<noteq> {}"
  by (auto simp: separated_Cons)

lemma separated_canonical:
  "separated xs \<Longrightarrow> separated ys \<Longrightarrow> rows_of xs = rows_of ys \<Longrightarrow> xs = ys"
proof (induction xs arbitrary: ys)
  case Nil
  then show ?case using separated_rows_nonempty by (cases ys) fastforce+
next
  case (Cons x xs)
  then obtain y ys' where y: "ys = y # ys'"
    using separated_rows_nonempty by (cases ys) fastforce+
  note sx = Cons.prems(1) [unfolded separated_Cons]
  note sy = Cons.prems(2) [unfolded y separated_Cons]
  have eq: "{drStart x..drEnd x} \<union> rows_of xs = {drStart y..drEnd y} \<union> rows_of ys'"
    using Cons.prems(3) y by simp
  have start: "drStart x = drStart y"
  proof (rule antisym)
    have "drStart y \<in> {drStart x..drEnd x} \<union> rows_of xs" using eq sy by auto
    then show "drStart x \<le> drStart y" using sx by force
    have "drStart x \<in> {drStart y..drEnd y} \<union> rows_of ys'" using eq sx by auto
    then show "drStart y \<le> drStart x" using sy by force
  qed
  have "drEnd x + 1 \<notin> {drStart x..drEnd x} \<union> rows_of xs" using sx by auto
  moreover have "drEnd y + 1 \<notin> {drStart y..drEnd y} \<union> rows_of ys'" using sy by auto
  ultimately have "drEnd x + 1 \<notin> {drStart y..drEnd y}" "drEnd y + 1 \<notin> {drStart x..drEnd x}"
    using eq by blast+
  then have end': "drEnd x = drEnd y" using start sx sy by auto
  have "rows_of xs = rows_of ys'"
  proof (rule set_eqI)
    fix i
    show "i \<in> rows_of xs \<longleftrightarrow> i \<in> rows_of ys'"
      using eq start end' sx sy by (metis Un_iff atLeastAtMost_iff less_add_one linorder_not_less order.strict_trans)
  qed
  with Cons.IH [of ys'] sx sy have "xs = ys'" by simp
  moreover have "x = y" using start end' by (cases x; cases y) simp
  ultimately show ?case using y by simp
qed

section \<open>Sizes in normal form\<close>

definition size_of :: "DimensionSize list \<Rightarrow> int \<Rightarrow> rat option" where
  "size_of ss = map_of (map (\<lambda>s. (dsIndex s, dsSize s)) ss)"

definition wf_sizes :: "int \<Rightarrow> rat \<Rightarrow> rat \<Rightarrow> rat \<Rightarrow> DimensionSize list \<Rightarrow> bool" where
  "wf_sizes limit minimum maximum defaultSize ss =
     (sorted_wrt (\<lambda>a b. dsIndex a < dsIndex b) ss \<and> length ss \<le> MaxLayoutEntries \<and>
      (\<forall>s \<in> set ss. 1 \<le> dsIndex s \<and> dsIndex s \<le> limit \<and> minimum \<le> dsSize s \<and> dsSize s \<le> maximum \<and>
         dsSize s \<noteq> defaultSize))"

lemma sizes_by_index_Cons:
  "sizes_by_index (s # ss) m = sizes_by_index ss (AList.update (dsIndex s) (dsSize s) m)"
  by (simp add: sizes_by_index_def)

lemma sizes_by_index_distinct:
  "distinct (map fst m) \<Longrightarrow> distinct (map fst (sizes_by_index ss m))"
  by (induction ss arbitrary: m) (simp_all add: sizes_by_index_Cons distinct_update, simp add: sizes_by_index_def)

lemma sizes_by_index_fst: "fst ` set (sizes_by_index ss m) = fst ` set m \<union> dsIndex ` set ss"
proof (induction ss arbitrary: m)
  case (Cons s ss)
  show ?case unfolding sizes_by_index_Cons Cons.IH by (simp add: dom_update)
qed (simp add: sizes_by_index_def)

lemma sizes_by_index_lookup:
  "map_of (sizes_by_index ss m) = map_of m ++ size_of (rev ss)"
  by (induction ss arbitrary: m)
    (auto simp: sizes_by_index_Cons update_conv' size_of_def map_add_def fun_eq_iff split: option.splits,
     simp add: sizes_by_index_def)

lemma size_of_mem: "size_of ss i = Some v \<Longrightarrow> \<exists>s \<in> set ss. dsIndex s = i \<and> dsSize s = v"
  by (auto simp: size_of_def dest!: map_of_SomeD)

lemma sizes_by_index_same:
  "distinct (map dsIndex ss) \<Longrightarrow> fst ` set m \<inter> dsIndex ` set ss = {} \<Longrightarrow>
   sizes_by_index ss m = m @ map (\<lambda>s. (dsIndex s, dsSize s)) ss"
proof (induction ss arbitrary: m)
  case (Cons s ss)
  then have "AList.update (dsIndex s) (dsSize s) m = m @ [(dsIndex s, dsSize s)]"
    by (simp add: update_new)
  moreover have "fst ` set (m @ [(dsIndex s, dsSize s)]) \<inter> dsIndex ` set ss = {}"
    using Cons.prems by auto
  ultimately show ?case using Cons by (simp add: sizes_by_index_Cons)
qed (simp add: sizes_by_index_def)

lemma normalizeDimensionSizes_wf:
  "wf_sizes limit minimum maximum defaultSize (normalizeDimensionSizes ss limit minimum maximum defaultSize)"
proof -
  let ?ok = "\<lambda>item. \<not> (dsIndex item < 1 \<or> dsIndex item > limit \<or> dsSize item < minimum \<or>
                     dsSize item > maximum \<or> dsSize item = defaultSize)"
  let ?m = "sizes_by_index (filter ?ok ss) []"
  let ?ix = "take MaxLayoutEntries (sort (map fst ?m))"
  let ?n = "map (\<lambda>index. \<lparr>dsIndex = index, dsSize = the (map_of ?m index)\<rparr>) ?ix"
  have n: "normalizeDimensionSizes ss limit minimum maximum defaultSize = ?n"
    by (simp only: normalizeDimensionSizes_def Let_def)
  have "distinct (map (\<lambda>x. x) (map fst ?m))" using sizes_by_index_distinct [of "[]"] by simp
  then have "sorted_wrt (\<lambda>a b. a < b) (sort (map fst ?m))" by (rule sort_key_strict)
  then have "sorted_wrt (\<lambda>a b. a < b) ?ix" by (rule sorted_wrt_take)
  then have 1: "sorted_wrt (\<lambda>a b. dsIndex a < dsIndex b) ?n" by (simp add: sorted_wrt_map)
  have 2: "\<forall>s \<in> set ?n. 1 \<le> dsIndex s \<and> dsIndex s \<le> limit \<and> minimum \<le> dsSize s \<and> dsSize s \<le> maximum \<and>
         dsSize s \<noteq> defaultSize"
  proof
    fix s assume "s \<in> set ?n"
    then obtain i where i: "i \<in> set ?ix" "s = \<lparr>dsIndex = i, dsSize = the (map_of ?m i)\<rparr>" by auto
    then have "i \<in> fst ` set ?m" using set_take_subset by fastforce
    then obtain v where v: "map_of ?m i = Some v" by (cases "map_of ?m i") (auto simp: map_of_eq_None_iff)
    then have "size_of (rev (filter ?ok ss)) i = Some v" by (simp add: sizes_by_index_lookup)
    from size_of_mem [OF this] i(2) v
    show "1 \<le> dsIndex s \<and> dsIndex s \<le> limit \<and> minimum \<le> dsSize s \<and> dsSize s \<le> maximum \<and> dsSize s \<noteq> defaultSize"
      by auto
  qed
  show ?thesis unfolding wf_sizes_def n by (intro conjI 1 2) simp
qed

lemma normalizeDimensionSizes_id:
  assumes "wf_sizes limit minimum maximum defaultSize ss"
  shows "normalizeDimensionSizes ss limit minimum maximum defaultSize = ss"
proof -
  let ?pair = "\<lambda>s. (dsIndex s, dsSize s)"
  have s: "sorted_wrt (<) (map dsIndex ss)" using assms by (simp add: wf_sizes_def sorted_wrt_map)
  then have d: "distinct (map dsIndex ss)" by (simp add: strict_sorted_iff)
  have "sort (map dsIndex ss) = map dsIndex ss"
    using s by (simp add: sort_key_id_if_sorted strict_sorted_iff)
  moreover have "take MaxLayoutEntries (map dsIndex ss) = map dsIndex ss" using assms by (simp add: wf_sizes_def)
  moreover have "sizes_by_index ss [] = map ?pair ss" using d by (simp add: sizes_by_index_same)
  moreover have "the (map_of (map ?pair ss) (dsIndex s)) = dsSize s" if "s \<in> set ss" for s
  proof -
    have "map_of (map ?pair ss) (dsIndex s) = Some (dsSize s)"
      by (rule map_of_is_SomeI) (use d that in \<open>auto simp: comp_def\<close>)
    then show ?thesis by simp
  qed
  moreover have "filter (\<lambda>item. \<not> (dsIndex item < 1 \<or> dsIndex item > limit \<or> dsSize item < minimum \<or>
                     dsSize item > maximum \<or> dsSize item = defaultSize)) ss = ss"
    using assms by (auto simp: wf_sizes_def intro!: filter_True)
  ultimately show ?thesis
    by (auto simp: normalizeDimensionSizes_def Let_def comp_def intro!: map_idI)
qed

section \<open>Groups in normal form\<close>

abbreviation group_order :: "DimensionGroup \<Rightarrow> int \<times> int" where
  "group_order g \<equiv> (dgStart g, - dgEnd g)"

definition wf_group :: "int \<Rightarrow> DimensionGroup \<Rightarrow> bool" where
  "wf_group limit g = (1 \<le> dgStart g \<and> dgStart g < dgEnd g \<and> dgEnd g \<le> limit)"

definition wf_groups :: "int \<Rightarrow> DimensionGroup list \<Rightarrow> bool" where
  "wf_groups limit gs =
     (sorted_wrt (\<lambda>a b. group_order a < group_order b) gs \<and> length gs \<le> MaxGroups \<and>
      list_all (wf_group limit) gs \<and> set_depths gs = gs)"

lemma clamp_group_id: "wf_group limit g \<Longrightarrow> clamp_group limit g = g"
  by (simp add: wf_group_def clamp_group_def Let_def)

lemma clamp_group_wf: "\<not> dgStart (clamp_group limit g) \<ge> dgEnd (clamp_group limit g) \<Longrightarrow> wf_group limit (clamp_group limit g)"
  by (auto simp: wf_group_def clamp_group_def Let_def split: if_splits)

lemma see_group_key: "fst ` set (see_group g seen) = insert (group_key g) (fst ` set seen)"
  by (auto simp: see_group_def Let_def dom_update split: option.splits)

definition seen_ok :: "int \<Rightarrow> ((int \<times> int) \<times> DimensionGroup) list \<Rightarrow> bool" where
  "seen_ok limit seen =
     (distinct (map fst seen) \<and> (\<forall>(k, g) \<in> set seen. group_key g = k \<and> wf_group limit g))"

lemma see_group_ok:
  assumes "seen_ok limit seen" "wf_group limit g"
  shows "seen_ok limit (see_group g seen)"
proof -
  define g' where "g' = (case map_of seen (group_key g) of
    Some existing \<Rightarrow> g\<lparr>dgCollapsed := dgCollapsed g \<or> dgCollapsed existing\<rparr> | None \<Rightarrow> g)"
  have g': "see_group g seen = AList.update (group_key g') g' seen" "group_key g' = group_key g"
    by (simp_all add: see_group_def Let_def g'_def split: option.splits)
  have "wf_group limit g'" using g'(2) assms(2) by (simp add: wf_group_def)
  moreover have "set (AList.update (group_key g') g' seen) \<subseteq> insert (group_key g', g') (set seen)"
    by (induction seen) auto
  ultimately show ?thesis
    using assms(1) unfolding seen_ok_def g'(1) by (auto simp: distinct_update)
qed

lemma fold_see_group_ok:
  "seen_ok limit seen \<Longrightarrow> list_all (wf_group limit) gs \<Longrightarrow> seen_ok limit (fold see_group gs seen)"
  by (induction gs arbitrary: seen) (simp_all add: see_group_ok)

lemma fold_see_group_same:
  "distinct (map group_key gs) \<Longrightarrow> fst ` set seen \<inter> group_key ` set gs = {} \<Longrightarrow>
   fold see_group gs seen = seen @ map (\<lambda>g. (group_key g, g)) gs"
proof (induction gs arbitrary: seen)
  case (Cons g gs)
  then have "group_key g \<notin> fst ` set seen" by auto
  then have "see_group g seen = seen @ [(group_key g, g)]"
    by (simp add: see_group_def update_new map_of_eq_None_iff [THEN iffD2])
  moreover have "fst ` set (seen @ [(group_key g, g)]) \<inter> group_key ` set gs = {}"
    using Cons.prems by auto
  ultimately show ?case using Cons by simp
qed simp

lemma set_depths_length [simp]: "length (set_depths gs) = length gs"
  by (simp add: set_depths_def)

lemma set_depths_nth:
  "i < length gs \<Longrightarrow> set_depths gs ! i = (gs ! i)\<lparr>dgDepth := group_depth gs i\<rparr>"
  by (simp add: set_depths_def)

lemma group_depth_cong:
  assumes "length gs = length hs" "\<And>i. i < length gs \<Longrightarrow> group_key (gs ! i) = group_key (hs ! i)" "j < length gs"
  shows "group_depth gs j = group_depth hs j"
proof -
  have "filter (\<lambda>other. other \<noteq> j \<and> encloses (gs ! other) (gs ! j)) [0..<length gs] =
    filter (\<lambda>other. other \<noteq> j \<and> encloses (hs ! other) (hs ! j)) [0..<length hs]"
    using assms by (auto simp: encloses_def intro!: filter_cong)
  then show ?thesis by (simp add: group_depth_def)
qed

lemma set_depths_key: "i < length gs \<Longrightarrow> group_key (set_depths gs ! i) = group_key (gs ! i)"
  by (simp add: set_depths_nth)

lemma set_depths_idem: "set_depths (set_depths gs) = set_depths gs"
proof (rule nth_equalityI)
  fix i assume "i < length (set_depths (set_depths gs))"
  then have i: "i < length gs" by simp
  have "group_depth (set_depths gs) i = group_depth gs i"
    using i by (intro group_depth_cong) (simp_all add: set_depths_nth)
  with i show "set_depths (set_depths gs) ! i = set_depths gs ! i" by (simp add: set_depths_nth)
qed simp

lemma set_depths_sorted:
  "sorted_wrt (\<lambda>a b. group_order a < group_order b) gs \<Longrightarrow>
   sorted_wrt (\<lambda>a b. group_order a < group_order b) (set_depths gs)"
  by (simp add: sorted_wrt_iff_nth_less set_depths_nth)

lemma set_depths_wf: "list_all (wf_group limit) gs \<Longrightarrow> list_all (wf_group limit) (set_depths gs)"
  by (simp add: list_all_length set_depths_nth wf_group_def)

lemma normalizeDimensionGroups_wf: "wf_groups limit (normalizeDimensionGroups gs limit)"
proof -
  let ?kept = "filter (\<lambda>g. \<not> dgStart g \<ge> dgEnd g) (map (clamp_group limit) gs)"
  let ?seen = "fold see_group ?kept []"
  let ?sorted = "sort_key group_order (map snd ?seen)"
  have n: "normalizeDimensionGroups gs limit = set_depths (take MaxGroups ?sorted)"
    by (simp only: normalizeDimensionGroups_def Let_def)
  have "list_all (wf_group limit) ?kept"
    unfolding list_all_iff using clamp_group_wf by auto
  then have ok: "seen_ok limit ?seen" by (rule fold_see_group_ok [rotated]) (simp add: seen_ok_def)
  then have k: "map group_key (map snd ?seen) = map fst ?seen"
    by (auto simp: seen_ok_def)
  have "distinct (map group_order (map snd ?seen))"
  proof -
    have "distinct (map group_key (map snd ?seen))" using ok unfolding k by (simp add: seen_ok_def)
    then show ?thesis by (auto simp: distinct_map inj_on_def)
  qed
  then have s: "sorted_wrt (\<lambda>a b. group_order a < group_order b) (take MaxGroups ?sorted)"
    by (intro sorted_wrt_take sort_key_strict)
  have w: "list_all (wf_group limit) (take MaxGroups ?sorted)"
    using ok set_take_subset [of MaxGroups ?sorted] by (fastforce simp: list_all_iff seen_ok_def)
  show ?thesis
    unfolding wf_groups_def n by (intro conjI set_depths_sorted s set_depths_wf w set_depths_idem) simp
qed

lemma normalizeDimensionGroups_sorted:
  assumes "sorted_wrt (\<lambda>a b. group_order a < group_order b) gs" "list_all (wf_group limit) gs"
  shows "normalizeDimensionGroups gs limit = set_depths (take MaxGroups gs)"
proof -
  have "sorted_wrt (<) (map group_order gs)" using assms(1) by (simp add: sorted_wrt_map)
  then have "distinct (map group_order gs)" by (simp add: strict_sorted_iff)
  then have d: "distinct (map group_key gs)" by (auto simp: distinct_map inj_on_def)
  have "map (clamp_group limit) gs = gs"
    using assms(2) by (auto simp: list_all_iff clamp_group_id intro!: map_idI)
  moreover have "filter (\<lambda>g. \<not> dgStart g \<ge> dgEnd g) gs = gs"
    using assms(2) by (auto simp: list_all_iff wf_group_def intro!: filter_True)
  moreover have "map snd (fold see_group gs []) = gs"
    using d by (simp add: fold_see_group_same comp_def)
  moreover have "sort_key group_order gs = gs" using assms(1) by (rule sort_key_strict_id)
  ultimately show ?thesis by (simp add: normalizeDimensionGroups_def Let_def)
qed

lemma normalizeDimensionGroups_id: "wf_groups limit gs \<Longrightarrow> normalizeDimensionGroups gs limit = gs"
  by (simp add: wf_groups_def normalizeDimensionGroups_sorted)

text \<open>The innermost group covering a range: among the groups that cover it, one with the fewest rows.\<close>

abbreviation covers :: "int \<Rightarrow> int \<Rightarrow> DimensionGroup \<Rightarrow> bool" where
  "covers start end g \<equiv> dgStart g \<le> start \<and> end \<le> dgEnd g"

lemma innermost_None:
  "foldl (innermost_step start end) best gs = None \<longleftrightarrow> best = None \<and> (\<forall>g \<in> set gs. \<not> covers start end g)"
  by (induction gs arbitrary: best) (auto simp: innermost_step_def split: option.splits)

lemma innermost_mem:
  "foldl (innermost_step start end) best gs = Some b \<Longrightarrow> best = Some b \<or> b \<in> set gs \<and> covers start end b"
proof (induction gs arbitrary: best)
  case (Cons g gs)
  from Cons.IH [of "innermost_step start end best g"] Cons.prems
  show ?case by (auto simp: innermost_step_def split: option.splits if_splits)
qed simp

lemma innermost_least:
  "foldl (innermost_step start end) best gs = Some b \<Longrightarrow>
   (\<forall>b'. best = Some b' \<longrightarrow> dgEnd b - dgStart b \<le> dgEnd b' - dgStart b') \<and>
   (\<forall>g \<in> set gs. covers start end g \<longrightarrow> dgEnd b - dgStart b \<le> dgEnd g - dgStart g)"
proof (induction gs arbitrary: best)
  case (Cons g gs)
  from Cons.IH [of "innermost_step start end best g"] Cons.prems
  show ?case by (auto simp: innermost_step_def split: option.splits if_splits)
qed simp

lemma innermostGroup_None: "innermostGroup gs start end = None \<longleftrightarrow> (\<forall>g \<in> set gs. \<not> covers start end g)"
  by (simp add: innermostGroup_def innermost_None)

lemma innermostGroup_Some:
  assumes "innermostGroup gs start end = Some b"
  shows "b \<in> set gs" "covers start end b"
    "g \<in> set gs \<Longrightarrow> covers start end g \<Longrightarrow> dgEnd b - dgStart b \<le> dgEnd g - dgStart g"
  using assms innermost_mem [of start "end" None gs b] innermost_least [of start "end" None gs b]
  by (auto simp: innermostGroup_def)

section \<open>Hidden runs through a structural change\<close>

definition hidden_index :: "StructuralMutation \<Rightarrow> int \<Rightarrow> int option" where
  "hidden_index m i = move_index (mutation_change m) i"

definition hidden_span :: "StructuralMutation \<Rightarrow> int \<times> int \<Rightarrow> (int \<times> int) option" where
  "hidden_span m r =
     (case moved_range \<lparr>drStart = fst r, drEnd = snd r\<rparr> m of
        Some moved \<Rightarrow> if drStart moved \<le> drEnd moved then Some (drStart moved, drEnd moved) else None
      | None \<Rightarrow> None)"

lemma mutation_change_simps [simp]:
  "scAction (mutation_change m) = smAction m" "scIndex (mutation_change m) = smIndex m"
  "scCount (mutation_change m) = smCount m" "scDestination (mutation_change m) = smDestination m"
  "scAxis (mutation_change m) = smAxis m"
  by (simp_all add: mutation_change_def formulaStructuralChange_def)

lemma hidden_span_eq:
  assumes "valid_mutation m" "s \<le> i" "i \<le> e" "on_sheet i"
  shows "hidden_span m (s, e) = move_span (mutation_change m) (s, e)"
proof -
  have n: "1 \<le> smCount m" using assms(1) by (simp add: valid_mutation_def valid_change_def)
  consider "smAction m = ''move''" | "smAction m = ''insert''" | "smAction m = ''delete''"
    using assms(1) by (auto simp: valid_mutation_def)
  then show ?thesis
  proof cases
    case 1
    obtain lo hi where mi: "movedInterval s e (mutation_change m) = (lo, hi)" by fastforce
    have "move_index (mutation_change m) i = Some (movedPosition i (mutation_change m))"
      using 1 by (simp add: move_index_simps)
    from move_span_covers [OF _ assms(4,2,3) this] have "lo \<le> hi"
      using 1 assms mi by (auto simp: move_span_simps valid_mutation_def)
    with 1 assms mi show ?thesis
      by (simp add: hidden_span_def moved_range_def transformGroupInterval_def TransformInterval_def
        transformStructuralInterval_def mutation_change_def [symmetric] move_span_simps)
  next
    case 2
    with assms n show ?thesis by (auto simp: hidden_span_def moved_range_def move_span_simps)
  next
    case 3
    with assms n show ?thesis
      by (auto simp: hidden_span_def moved_range_def move_span_delete Let_def min_def max_def)
  qed
qed


lemma hidden_index_on_sheet:
  "valid_mutation m \<Longrightarrow> on_sheet i \<Longrightarrow> hidden_index m i = Some k \<Longrightarrow> on_sheet k"
  by (auto simp: hidden_index_def valid_mutation_def intro: formula_motion.move_inside)

interpretation hidden_motion: span_motion valid_mutation hidden_index on_sheet hidden_span
proof unfold_locales
  fix c i j k
  assume "valid_mutation c" "hidden_index c i = Some k" "hidden_index c j = Some k"
  then show "i = j"
    unfolding hidden_index_def valid_mutation_def by (blast intro: formula_motion.move_inj)
next
  fix c i s e k
  assume "valid_mutation c" "on_sheet i" "s \<le> i" "i \<le> e" "hidden_index c i = Some k"
  then show "\<exists>s' e'. hidden_span c (s, e) = Some (s', e') \<and> s' \<le> k \<and> k \<le> e'"
    using formula_motion.span_covers [of "mutation_change c" i s e k]
    by (simp add: hidden_span_eq [of c s i e] hidden_index_def valid_mutation_def)
qed (fact hidden_index_on_sheet)

lemma transformDimensionRanges_spans:
  "fst (transformDimensionRanges rs m) =
     map (\<lambda>(s, e). \<lparr>drStart = s, drEnd = e\<rparr>) (List.map_filter (\<lambda>r. hidden_span m (drStart r, drEnd r)) rs)"
proof (induction rs)
  case (Cons r rs)
  obtain res ch where t: "transformDimensionRanges rs m = (res, ch)" by fastforce
  have r: "\<lparr>drStart = drStart r, drEnd = drEnd r\<rparr> = r" by (cases r) simp
  show ?case
  proof (cases "moved_range r m")
    case (Some moved)
    have "\<lparr>drStart = drStart moved, drEnd = drEnd moved\<rparr> = moved" by (cases moved) simp
    moreover have "hidden_span m (drStart r, drEnd r) =
        (if drStart moved \<le> drEnd moved then Some (drStart moved, drEnd moved) else None)"
      unfolding hidden_span_def fst_conv snd_conv r Some by simp
    ultimately show ?thesis using Cons t Some by (simp add: List.map_filter_simps)
  next
    case None
    then have "hidden_span m (drStart r, drEnd r) = None" unfolding hidden_span_def fst_conv snd_conv r by simp
    with Cons t None show ?thesis by (simp add: List.map_filter_simps)
  qed
qed (simp add: List.map_filter_simps)

lemma rows_of_transform:
  "k \<in> rows_of (fst (transformDimensionRanges rs m)) \<longleftrightarrow>
     (\<exists>r \<in> set rs. \<exists>s e. hidden_span m (drStart r, drEnd r) = Some (s, e) \<and> s \<le> k \<and> k \<le> e)"
  unfolding transformDimensionRanges_spans rows_of_def List.map_filter_def by force

lemma hidden_row_follows:
  assumes "valid_mutation m" "i \<in> rows_of rs" "on_sheet i" "hidden_index m i = Some k"
  shows "k \<in> rows_of (fst (transformDimensionRanges rs m))"
proof -
  obtain r where r: "r \<in> set rs" "drStart r \<le> i" "i \<le> drEnd r" using assms(2) by (auto simp: rows_of_def)
  from hidden_motion.span_covers [OF assms(1,3) r(2,3) assms(4)] r(1)
  show ?thesis by (auto simp: rows_of_transform)
qed

text \<open>Deleting rows hides exactly the rows that were hidden before.\<close>

lemma hidden_row_delete:
  assumes "valid_mutation m" "smAction m = ''delete''" "\<forall>r \<in> set rs. drStart r \<le> drEnd r \<and> on_sheet (drStart r)"
    and "k \<in> rows_of (fst (transformDimensionRanges rs m))"
  shows "\<exists>i \<in> rows_of rs. hidden_index m i = Some k"
proof -
  obtain r s e where r: "r \<in> set rs" "hidden_span m (drStart r, drEnd r) = Some (s, e)" "s \<le> k" "k \<le> e"
    using assms(4) by (auto simp: rows_of_transform)
  have n: "1 \<le> smCount m" using assms(1) by (simp add: valid_mutation_def valid_change_def)
  have o: "drStart r \<le> drEnd r" "on_sheet (drStart r)" using assms(3) r(1) by auto
  have sp: "move_span (mutation_change m) (drStart r, drEnd r) = Some (s, e)"
    using r(2) hidden_span_eq [OF assms(1) order_refl o] by simp
  define i where "i = (if k < smIndex m then k else k + smCount m)"
  have "i \<in> {drStart r..drEnd r}"
    using sp r(3,4) n o(1) assms(2)
    by (auto simp: move_span_delete i_def split: if_splits)
  moreover have "hidden_index m i = Some k"
    using assms(2) n by (auto simp: hidden_index_def move_index_simps i_def)
  ultimately show ?thesis using r(1) unfolding rows_of_def by blast
qed

section \<open>Sizes through a structural change\<close>

abbreviation size_pairs :: "DimensionSize list \<Rightarrow> (int \<times> rat) list" where
  "size_pairs ss \<equiv> map (\<lambda>s. (dsIndex s, dsSize s)) ss"

lemma transformDimensionSizes_keys:
  "size_pairs (fst (transformDimensionSizes ss m)) = move_keys (move_sheet_index m) (size_pairs ss)"
proof (induction ss)
  case (Cons s ss)
  obtain res ch where t: "transformDimensionSizes ss m = (res, ch)" by fastforce
  obtain i remains where p: "structuralPosition (dsIndex s) m = (i, remains)" by fastforce
  from Cons t p show ?case by (simp add: move_sheet_index_def survivor_def)
qed simp

lemma transformDimensionSizes_distinct:
  assumes "valid_mutation m" "distinct (map dsIndex ss)"
  shows "distinct (map dsIndex (fst (transformDimensionSizes ss m)))"
proof -
  have "distinct (map fst (size_pairs ss))" using assms(2) by (simp add: comp_def)
  from sheet_motion.move_keys_distinct [OF assms(1) this]
  show ?thesis unfolding transformDimensionSizes_keys [symmetric] by (simp add: comp_def)
qed

section \<open>Properties\<close>

text \<open>
  Hidden rows are stored in one canonical form: the merged runs hide exactly the rows of
  the sheet that the given runs name, they are in ascending order with at least one visible
  row between two of them, and two ways of naming the same rows are stored identically.
\<close>

lemma hidden_runs_canonical:
  "rows_of (mergeDimensionRanges rs limit) = rows_of rs \<inter> {1..limit} \<and>
   separated (mergeDimensionRanges rs limit) \<and>
   (rows_of rs \<inter> {1..limit} = rows_of rs' \<inter> {1..limit}) =
     (mergeDimensionRanges rs limit = mergeDimensionRanges rs' limit)"
  using separated_canonical mergeDimensionRanges_rows by metis

definition move_out :: StructuralMutation where
  "move_out = \<lparr>smSheetID = ''s'', smActorID = ''u'', smClientID = ''c'', smBaseVersion = 3,
     smIdempotencyKey = ''k1'', smAxis = ''row'', smAction = ''move'', smIndex = 3, smCount = 1,
     smDestination = 10\<rparr>"

text \<open>
  Moving a row out of a hidden run hides rows nobody hid: the run is stored as the hull
  of where its rows went. With rows 2 and 3 hidden, moving row 3 to before row 10 leaves rows
  2 to 9 hidden, although only rows 2 and 9 hold what was hidden before.
\<close>

lemma move_hides_visible_row:
  "normalizeStructuralMutation move_out = Inr move_out \<and>
   transformDimensionRanges [\<lparr>drStart = 2, drEnd = 3\<rparr>] move_out = ([\<lparr>drStart = 2, drEnd = 9\<rparr>], True) \<and>
   map (\<lambda>i. structuralPosition i move_out) [2, 3, 4] = [(2, True), (9, True), (3, True)]"
  by code_simp

end
