(* ===== verification/Layout.thy ===== *)
theory Layout
  imports Dimensions Utf8
begin

text \<open>
  The layout of a sheet: \<^verbatim>\<open>internal/workbook/layout.go\<close> (normalisation, layout requests
  and their application, structural changes) and \<^verbatim>\<open>ApplySheetLayout\<close> of
  \<^verbatim>\<open>memory_layout.go\<close>. The layouts of a workbook's sheets, its version and the table of
  answered requests are the state the repository operation passes on; a fresh identifier and
  the clock are arguments.
\<close>

section \<open>Definitions\<close>

definition DefaultRowHeight :: rat where "DefaultRowHeight = 27"
definition DefaultColumnWidth :: rat where "DefaultColumnWidth = 108"
definition MinRowHeight :: rat where "MinRowHeight = 16"
definition MaxRowHeight :: rat where "MaxRowHeight = 400"
definition MinColumnWidth :: rat where "MinColumnWidth = 32"
definition MaxColumnWidth :: rat where "MaxColumnWidth = 600"
definition MaxLayoutSpan :: int where "MaxLayoutSpan = 10000"
definition MaxFrozenRows :: int where "MaxFrozenRows = 100"
definition MaxFrozenColumns :: int where "MaxFrozenColumns = 50"
definition MaxPrintAreaCells :: int where "MaxPrintAreaCells = 1000000"
definition MaxSlicers :: nat where "MaxSlicers = 24"
definition MinSlicerWidth :: int where "MinSlicerWidth = 140"
definition MaxSlicerWidth :: int where "MaxSlicerWidth = 600"
definition MinSlicerHeight :: int where "MinSlicerHeight = 96"
definition MaxSlicerHeight :: int where "MaxSlicerHeight = 640"

record ChartPosition =
  cpX :: int
  cpY :: int
  cpWidth :: int
  cpHeight :: int

record Slicer =
  slID :: string
  slFilterViewID :: string
  slColumn :: int
  slTitle :: string
  slPosition :: ChartPosition

record SheetLayout =
  slyRevision :: int
  slyRowHeights :: "DimensionSize list"
  slyColumnWidths :: "DimensionSize list"
  slyHiddenRows :: "DimensionRange list"
  slyHiddenColumns :: "DimensionRange list"
  slyRowGroups :: "DimensionGroup list"
  slyColumnGroups :: "DimensionGroup list"
  slyFrozenRows :: int
  slyFrozenColumns :: int
  slySlicers :: "Slicer list"
  slyPrintArea :: string

record SheetLayoutMutation =
  lmSheetID :: string
  lmActorID :: string
  lmClientID :: string
  lmIdempotencyKey :: string
  lmExpectedRevision :: int
  lmAction :: string
  lmAxis :: string
  lmStart :: int
  lmCount :: int
  lmSize :: rat
  lmFrozenRows :: int
  lmFrozenColumns :: int
  lmSlicer :: "Slicer option"
  lmRange :: string

definition defaultSheetLayout :: SheetLayout where
  "defaultSheetLayout = \<lparr>slyRevision = 1, slyRowHeights = [], slyColumnWidths = [], slyHiddenRows = [],
     slyHiddenColumns = [], slyRowGroups = [], slyColumnGroups = [], slyFrozenRows = 0,
     slyFrozenColumns = 0, slySlicers = [], slyPrintArea = []\<rparr>"

definition normalizeSlicer :: "Slicer \<Rightarrow> Slicer result" where
  "normalizeSlicer raw =
     (let item = raw\<lparr>slID := trim_space (slID raw), slFilterViewID := trim_space (slFilterViewID raw),
                     slTitle := trim_space (slTitle raw)\<rparr>;
          p = slPosition item in
      if slID item = [] \<or> slFilterViewID item = [] then Inl ErrInvalid
      else if rune_count (slTitle item) > 64 then Inl ErrInvalid
      else if slColumn item < 1 \<or> slColumn item > MaxColumns then Inl ErrInvalid
      else if cpWidth p < MinSlicerWidth \<or> cpWidth p > MaxSlicerWidth \<or>
              cpHeight p < MinSlicerHeight \<or> cpHeight p > MaxSlicerHeight then Inl ErrInvalid
      else
        (let p = (if cpX p < 0 then p\<lparr>cpX := 0\<rparr> else p);
             p = (if cpY p < 0 then p\<lparr>cpY := 0\<rparr> else p) in
         Inr (item\<lparr>slPosition := p\<rparr>)))"

fun slicerLoop :: "Slicer list \<Rightarrow> Slicer list \<Rightarrow> Slicer list" where
  "slicerLoop acc [] = acc"
| "slicerLoop acc (item # input) =
     (case normalizeSlicer item of
        Inl e \<Rightarrow> slicerLoop acc input
      | Inr normalized \<Rightarrow>
          if slID normalized \<in> set (map slID acc) then slicerLoop acc input
          else (let acc = acc @ [normalized] in
                if length acc = MaxSlicers then acc else slicerLoop acc input))"

definition normalizeSlicers :: "Slicer list \<Rightarrow> Slicer list" where
  "normalizeSlicers input = slicerLoop [] input"

definition normalizeSheetLayout :: "SheetLayout \<Rightarrow> SheetLayout" where
  "normalizeSheetLayout layout =
     layout\<lparr>
       slyRevision := (if slyRevision layout < 1 then 1 else slyRevision layout),
       slyRowHeights := normalizeDimensionSizes (slyRowHeights layout) MaxRows MinRowHeight MaxRowHeight DefaultRowHeight,
       slyColumnWidths := normalizeDimensionSizes (slyColumnWidths layout) MaxColumns MinColumnWidth MaxColumnWidth DefaultColumnWidth,
       slyHiddenRows := normalizeDimensionRanges (slyHiddenRows layout) MaxRows,
       slyHiddenColumns := normalizeDimensionRanges (slyHiddenColumns layout) MaxColumns,
       slyRowGroups := normalizeDimensionGroups (slyRowGroups layout) MaxRows,
       slyColumnGroups := normalizeDimensionGroups (slyColumnGroups layout) MaxColumns,
       slyFrozenRows := (if slyFrozenRows layout < 0 \<or> slyFrozenRows layout > MaxRows then 0 else slyFrozenRows layout),
       slyFrozenColumns := (if slyFrozenColumns layout < 0 \<or> slyFrozenColumns layout > MaxColumns then 0 else slyFrozenColumns layout),
       slySlicers := normalizeSlicers (slySlicers layout)\<rparr>"

definition importedSheetLayout :: "SheetLayout option \<Rightarrow> SheetLayout" where
  "importedSheetLayout layout =
     (case layout of
        None \<Rightarrow> defaultSheetLayout
      | Some l \<Rightarrow> (normalizeSheetLayout l)\<lparr>slyRevision := 1, slySlicers := []\<rparr>)"

abbreviation slicer_action :: "string \<Rightarrow> bool" where
  "slicer_action a \<equiv> a = ''slicer_add'' \<or> a = ''slicer_update'' \<or> a = ''slicer_remove''"

abbreviation group_action :: "string \<Rightarrow> bool" where
  "group_action a \<equiv> a = ''group'' \<or> a = ''ungroup'' \<or> a = ''collapse'' \<or> a = ''expand''"

abbreviation size_action :: "string \<Rightarrow> bool" where
  "size_action a \<equiv> a = ''resize'' \<or> a = ''reset_size'' \<or> a = ''hide'' \<or> a = ''show'' \<or> a = ''show_all''"

text \<open>
  \<^verbatim>\<open>input.Start+input.Count-1\<close> in Go's 64-bit \<^verbatim>\<open>int\<close>: nothing bounds the
  start before the sum is compared with the sheet, so the sum may wrap around.
\<close>

definition span_end :: "SheetLayoutMutation \<Rightarrow> int" where
  "span_end input = wrap64 (wrap64 (lmStart input + lmCount input) - 1)"

text \<open>
  The span of a request on rows or columns: the part of \<^verbatim>\<open>normalizeSheetLayoutMutation\<close>
  after its switch.
\<close>

definition check_span :: "SheetLayoutMutation \<Rightarrow> SheetLayoutMutation result" where
  "check_span input =
     (if lmAxis input \<noteq> ''row'' \<and> lmAxis input \<noteq> ''column'' then Inl ErrInvalid
      else if lmAction input = ''show_all'' then Inr input
      else
        (let limit = (if lmAxis input = ''column'' then MaxColumns else MaxRows) in
         if lmStart input < 1 \<or> lmCount input < 1 \<or> lmCount input > MaxLayoutSpan \<or>
            span_end input > limit then Inl ErrInvalid
         else if lmAction input = ''resize'' then
           (let minimum = (if lmAxis input = ''column'' then MinColumnWidth else MinRowHeight);
                maximum = (if lmAxis input = ''column'' then MaxColumnWidth else MaxRowHeight) in
            if lmSize input < minimum \<or> lmSize input > maximum then Inl ErrInvalid else Inr input)
         else Inr input))"

definition normalizeSheetLayoutMutation :: "string \<Rightarrow> SheetLayoutMutation \<Rightarrow> SheetLayoutMutation result" where
  "normalizeSheetLayoutMutation newID raw =
     (let input = raw\<lparr>lmIdempotencyKey := trim_space (lmIdempotencyKey raw),
                      lmAction := to_lower (trim_space (lmAction raw)),
                      lmAxis := to_lower (trim_space (lmAxis raw))\<rparr> in
      if lmIdempotencyKey input = [] then Inl ErrInvalid
      else if lmExpectedRevision input < 1 then Inl ErrInvalid
      else if lmAction input = ''print_area_set'' then
        (case Parse (trim_space (lmRange input)) of
           Inl e \<Rightarrow> Inl ErrInvalid
         | Inr selected \<Rightarrow>
             (let cells = (Row (End selected) - Row (Start selected) + 1) *
                          (Column (End selected) - Column (Start selected) + 1) in
              if cells > MaxPrintAreaCells then Inl ErrInvalid
              else Inr (input\<lparr>lmRange := Address (Row (Start selected)) (Column (Start selected)) @ '':'' @
                                        Address (Row (End selected)) (Column (End selected))\<rparr>)))
      else if lmAction input = ''print_area_clear'' then Inr input
      else if lmAction input = ''freeze'' then
        (if lmFrozenRows input < 0 \<or> lmFrozenRows input > MaxFrozenRows \<or>
            lmFrozenColumns input < 0 \<or> lmFrozenColumns input > MaxFrozenColumns
         then Inl ErrInvalid else Inr input)
      else if lmAction input = ''slicer_add'' \<or> lmAction input = ''slicer_update'' then
        (case lmSlicer input of
           None \<Rightarrow> Inl ErrInvalid
         | Some slicer \<Rightarrow>
             (let slicer = (if lmAction input = ''slicer_add'' then slicer\<lparr>slID := newID\<rparr> else slicer) in
              case normalizeSlicer slicer of
                Inl e \<Rightarrow> Inl e
              | Inr normalized \<Rightarrow> Inr (input\<lparr>lmSlicer := Some normalized\<rparr>)))
      else if lmAction input = ''slicer_remove'' then
        (case lmSlicer input of
           None \<Rightarrow> Inl ErrInvalid
         | Some slicer \<Rightarrow> if trim_space (slID slicer) = [] then Inl ErrInvalid else Inr input)
      else if size_action (lmAction input) \<or> group_action (lmAction input) then check_span input
      else Inl ErrInvalid)"

definition applySlicerMutation :: "Slicer list \<Rightarrow> SheetLayoutMutation \<Rightarrow> Slicer list result" where
  "applySlicerMutation current input =
     (case lmSlicer input of
        None \<Rightarrow> Inl Panic
      | Some target \<Rightarrow>
          if lmAction input = ''slicer_add'' then
            (if length current \<ge> MaxSlicers then Inl ErrInvalid else Inr (current @ [target]))
          else
            (let result = concat (map (\<lambda>item. if slID item \<noteq> slID target then [item]
                   else if lmAction input = ''slicer_update'' then [target] else []) current);
                 found = list_ex (\<lambda>item. slID item = slID target) current in
             if \<not> found then Inl ErrNotFound else Inr result))"

text \<open>The indices \<^verbatim>\<open>for index := input.Start; index <= end; index++\<close> visits.\<close>

definition resize_map :: "(int \<times> rat) list \<Rightarrow> SheetLayoutMutation \<Rightarrow> rat \<Rightarrow> (int \<times> rat) list" where
  "resize_map byIndex input defaultSize =
     fold (\<lambda>index m. if lmAction input = ''reset_size'' \<or> lmSize input = defaultSize
                       then AList.delete index m else AList.update index (lmSize input) m)
       [lmStart input..span_end input] byIndex"

definition show_step :: "int \<Rightarrow> int \<Rightarrow> DimensionRange \<Rightarrow> DimensionRange list" where
  "show_step start end interval =
     (if drEnd interval < start \<or> drStart interval > end then [interval]
      else (if drStart interval < start then [\<lparr>drStart = drStart interval, drEnd = start - 1\<rparr>] else []) @
           (if drEnd interval > end then [\<lparr>drStart = end + 1, drEnd = drEnd interval\<rparr>] else []))"

definition applyDimensionMutation ::
  "DimensionSize list \<Rightarrow> DimensionRange list \<Rightarrow> SheetLayoutMutation \<Rightarrow> rat \<Rightarrow>
   DimensionSize list \<times> DimensionRange list" where
  "applyDimensionMutation sizes hidden input defaultSize =
     (let end = span_end input in
      if lmAction input = ''show_all'' then (sizes, [])
      else if lmAction input = ''resize'' \<or> lmAction input = ''reset_size'' then
        (map (\<lambda>(index, sz). \<lparr>dsIndex = index, dsSize = sz\<rparr>)
           (resize_map (sizes_by_index sizes []) input defaultSize), hidden)
      else if lmAction input = ''hide'' then (sizes, hidden @ [\<lparr>drStart = lmStart input, drEnd = end\<rparr>])
      else if lmAction input = ''show'' then (sizes, concat (map (show_step (lmStart input) end) hidden))
      else (sizes, hidden))"

definition applyGroupMutation ::
  "DimensionGroup list \<Rightarrow> SheetLayoutMutation \<Rightarrow> int \<Rightarrow> DimensionGroup list result" where
  "applyGroupMutation groups input limit =
     (let end = span_end input in
      if lmAction input = ''group'' then
        (if lmCount input < 2 then Inl ErrInvalid
         else
           (let next = normalizeDimensionGroups
                  (groups @ [\<lparr>dgStart = lmStart input, dgEnd = end, dgCollapsed = False, dgDepth = 0\<rparr>]) limit in
            if list_ex (\<lambda>g. dgDepth g \<ge> MaxGroupDepth) next then Inl ErrInvalid
            else if length next > MaxGroups then Inl ErrInvalid
            else Inr next))
      else if lmAction input = ''ungroup'' then
        (case innermostGroup groups (lmStart input) end of
           None \<Rightarrow> Inl ErrInvalid
         | Some target \<Rightarrow>
             Inr (normalizeDimensionGroups
               (filter (\<lambda>g. \<not> (dgStart g = dgStart target \<and> dgEnd g = dgEnd target)) groups) limit))
      else if lmAction input = ''collapse'' \<or> lmAction input = ''expand'' then
        (case innermostGroup groups (lmStart input) end of
           None \<Rightarrow> Inl ErrInvalid
         | Some target \<Rightarrow>
             Inr (normalizeDimensionGroups
               (map (\<lambda>g. if dgStart g = dgStart target \<and> dgEnd g = dgEnd target
                          then g\<lparr>dgCollapsed := (lmAction input = ''collapse'')\<rparr> else g) groups) limit))
      else Inr groups)"

definition bump_layout :: "SheetLayout \<Rightarrow> SheetLayout" where
  "bump_layout layout = layout\<lparr>slyRevision := slyRevision layout + 1\<rparr>"

text \<open>
  The last part of \<^verbatim>\<open>applySheetLayoutMutation\<close>: the entry limit, the new revision
  and the normalisation every change to rows or columns goes through.
\<close>

definition finish_layout :: "SheetLayout \<Rightarrow> SheetLayout result" where
  "finish_layout next =
     (if length (slyRowHeights next) > MaxLayoutEntries \<or> length (slyColumnWidths next) > MaxLayoutEntries \<or>
         length (mergeDimensionRanges (slyHiddenRows next) MaxRows) > MaxLayoutEntries \<or>
         length (mergeDimensionRanges (slyHiddenColumns next) MaxColumns) > MaxLayoutEntries
      then Inl ErrInvalid
      else Inr (normalizeSheetLayout (bump_layout next)))"

definition applySheetLayoutMutation :: "SheetLayout \<Rightarrow> SheetLayoutMutation \<Rightarrow> SheetLayout result" where
  "applySheetLayoutMutation current input =
     (let next = normalizeSheetLayout current in
      if lmAction input = ''freeze'' then
        Inr (bump_layout (next\<lparr>slyFrozenRows := lmFrozenRows input, slyFrozenColumns := lmFrozenColumns input\<rparr>))
      else if lmAction input = ''print_area_set'' \<or> lmAction input = ''print_area_clear'' then
        Inr (bump_layout (next\<lparr>slyPrintArea := (if lmAction input = ''print_area_set'' then lmRange input else [])\<rparr>))
      else if slicer_action (lmAction input) then
        (case applySlicerMutation (slySlicers next) input of
           Inl e \<Rightarrow> Inl e
         | Inr updated \<Rightarrow> Inr (normalizeSheetLayout (bump_layout (next\<lparr>slySlicers := updated\<rparr>))))
      else if group_action (lmAction input) then
        (let limit = (if lmAxis input = ''column'' then MaxColumns else MaxRows);
             groups = (if lmAxis input = ''column'' then slyColumnGroups next else slyRowGroups next) in
         case applyGroupMutation groups input limit of
           Inl e \<Rightarrow> Inl e
         | Inr updated \<Rightarrow>
             finish_layout (if lmAxis input = ''row'' then next\<lparr>slyRowGroups := updated\<rparr>
                            else next\<lparr>slyColumnGroups := updated\<rparr>))
      else if lmAxis input = ''row'' then
        (case applyDimensionMutation (slyRowHeights next) (slyHiddenRows next) input DefaultRowHeight of
           (sizes, hidden) \<Rightarrow> finish_layout (next\<lparr>slyRowHeights := sizes, slyHiddenRows := hidden\<rparr>))
      else
        (case applyDimensionMutation (slyColumnWidths next) (slyHiddenColumns next) input DefaultColumnWidth of
           (sizes, hidden) \<Rightarrow> finish_layout (next\<lparr>slyColumnWidths := sizes, slyHiddenColumns := hidden\<rparr>)))"

fun transformSlicers :: "Slicer list \<Rightarrow> StructuralMutation \<Rightarrow> Slicer list \<times> bool" where
  "transformSlicers [] input = ([], False)"
| "transformSlicers (slicer # rest) input =
     (case transformSlicers rest input of (slicers, changed) \<Rightarrow>
        case structuralPosition (slColumn slicer) input of (column, remains) \<Rightarrow>
          if \<not> remains then (slicers, True)
          else (slicer\<lparr>slColumn := column\<rparr> # slicers, changed \<or> column \<noteq> slColumn slicer))"

definition transformLayoutForStructure :: "SheetLayout \<Rightarrow> StructuralMutation \<Rightarrow> SheetLayout" where
  "transformLayoutForStructure raw input =
     (let layout = normalizeSheetLayout raw in
      if smAxis input = ''row'' then
        (case transformDimensionSizes (slyRowHeights layout) input of (sizes, sizesChanged) \<Rightarrow>
         case transformDimensionRanges (slyHiddenRows layout) input of (hidden, rangeChanged) \<Rightarrow>
         case transformDimensionGroups (slyRowGroups layout) input of (groups, groupChanged) \<Rightarrow>
           (let frozen = transformFrozenCount (slyFrozenRows layout) input;
                changed = (sizesChanged \<or> rangeChanged \<or> groupChanged \<or> frozen \<noteq> slyFrozenRows layout);
                moved = layout\<lparr>slyRowHeights := sizes, slyHiddenRows := hidden, slyRowGroups := groups,
                               slyFrozenRows := frozen\<rparr> in
            normalizeSheetLayout (if changed then bump_layout moved else moved)))
      else
        (case transformDimensionSizes (slyColumnWidths layout) input of (sizes, sizesChanged) \<Rightarrow>
         case transformDimensionRanges (slyHiddenColumns layout) input of (hidden, rangeChanged) \<Rightarrow>
         case transformDimensionGroups (slyColumnGroups layout) input of (groups, groupChanged) \<Rightarrow>
         case (if smAxis input = ''column'' then transformSlicers (slySlicers layout) input
               else (slySlicers layout, False)) of (slicers, slicersChanged) \<Rightarrow>
           (let frozen = transformFrozenCount (slyFrozenColumns layout) input;
                changed = (sizesChanged \<or> rangeChanged \<or> groupChanged \<or> frozen \<noteq> slyFrozenColumns layout \<or>
                           slicersChanged);
                moved = layout\<lparr>slyColumnWidths := sizes, slyHiddenColumns := hidden, slyColumnGroups := groups,
                               slyFrozenColumns := frozen, slySlicers := slicers\<rparr> in
            normalizeSheetLayout (if changed then bump_layout moved else moved))))"

text \<open>
  \<^verbatim>\<open>ApplySheetLayout\<close> of the in-memory repository, on the part of a workbook's state it
  reads and writes: the layout of each sheet, the workbook version and the answered requests
  by \<^verbatim>\<open>ActorID + ":" + IdempotencyKey\<close>.
\<close>

record SheetLayoutResult =
  lrOperationID :: string
  lrWorkbookID :: string
  lrSheetID :: string
  lrBaseVersion :: int
  lrServerVersion :: int
  lrLayout :: SheetLayout
  lrDuplicate :: bool
  lrCreatedAt :: int

record layout_state =
  lsWorkbookID :: string
  lsVersion :: int
  lsUpdatedAt :: int
  lsSheets :: "string \<Rightarrow> SheetLayout option"
  lsIdempotent :: "string \<Rightarrow> SheetLayoutResult option"

definition layout_key :: "SheetLayoutMutation \<Rightarrow> string" where
  "layout_key input = lmActorID input @ '':'' @ lmIdempotencyKey input"

definition ApplySheetLayout ::
  "string \<Rightarrow> string \<Rightarrow> int \<Rightarrow> SheetLayoutMutation \<Rightarrow> layout_state \<Rightarrow> SheetLayoutResult result \<times> layout_state" where
  "ApplySheetLayout newID operationID now raw state =
     (case normalizeSheetLayoutMutation newID raw of
        Inl e \<Rightarrow> (Inl e, state)
      | Inr input \<Rightarrow>
          (case lsSheets state (lmSheetID input) of
             None \<Rightarrow> (Inl ErrNotFound, state)
           | Some stored \<Rightarrow>
               (case lsIdempotent state (layout_key input) of
                  Some existing \<Rightarrow> (Inr (existing\<lparr>lrDuplicate := True\<rparr>), state)
                | None \<Rightarrow>
                    (let layout = normalizeSheetLayout stored in
                     if lmExpectedRevision input \<noteq> slyRevision layout then (Inl ErrRevision, state)
                     else case applySheetLayoutMutation layout input of
                         Inl e \<Rightarrow> (Inl e, state)
                       | Inr updated \<Rightarrow>
                           (let baseVersion = lsVersion state;
                                result = \<lparr>lrOperationID = operationID, lrWorkbookID = lsWorkbookID state,
                                  lrSheetID = lmSheetID input, lrBaseVersion = baseVersion,
                                  lrServerVersion = baseVersion + 1, lrLayout = updated, lrDuplicate = False,
                                  lrCreatedAt = now\<rparr> in
                            (Inr result,
                             state\<lparr>lsSheets := (lsSheets state)(lmSheetID input \<mapsto> updated),
                                   lsVersion := baseVersion + 1, lsUpdatedAt := now,
                                   lsIdempotent := (lsIdempotent state)(layout_key input \<mapsto> result)\<rparr>))))))"

section \<open>Layouts in normal form\<close>

definition wf_slicer :: "Slicer \<Rightarrow> bool" where
  "wf_slicer s =
     (trim_space (slID s) = slID s \<and> slID s \<noteq> [] \<and>
      trim_space (slFilterViewID s) = slFilterViewID s \<and> slFilterViewID s \<noteq> [] \<and>
      trim_space (slTitle s) = slTitle s \<and> rune_count (slTitle s) \<le> 64 \<and>
      1 \<le> slColumn s \<and> slColumn s \<le> MaxColumns \<and>
      MinSlicerWidth \<le> cpWidth (slPosition s) \<and> cpWidth (slPosition s) \<le> MaxSlicerWidth \<and>
      MinSlicerHeight \<le> cpHeight (slPosition s) \<and> cpHeight (slPosition s) \<le> MaxSlicerHeight \<and>
      0 \<le> cpX (slPosition s) \<and> 0 \<le> cpY (slPosition s))"

definition wf_slicers :: "Slicer list \<Rightarrow> bool" where
  "wf_slicers ss = (distinct (map slID ss) \<and> length ss \<le> MaxSlicers \<and> list_all wf_slicer ss)"

definition wf_ranges :: "int \<Rightarrow> DimensionRange list \<Rightarrow> bool" where
  "wf_ranges limit rs = (separated rs \<and> rows_of rs \<subseteq> {1..limit} \<and> length rs \<le> MaxLayoutEntries)"

definition wf_layout :: "SheetLayout \<Rightarrow> bool" where
  "wf_layout l =
     (1 \<le> slyRevision l \<and>
      wf_sizes MaxRows MinRowHeight MaxRowHeight DefaultRowHeight (slyRowHeights l) \<and>
      wf_sizes MaxColumns MinColumnWidth MaxColumnWidth DefaultColumnWidth (slyColumnWidths l) \<and>
      wf_ranges MaxRows (slyHiddenRows l) \<and> wf_ranges MaxColumns (slyHiddenColumns l) \<and>
      wf_groups MaxRows (slyRowGroups l) \<and> wf_groups MaxColumns (slyColumnGroups l) \<and>
      0 \<le> slyFrozenRows l \<and> slyFrozenRows l \<le> MaxRows \<and>
      0 \<le> slyFrozenColumns l \<and> slyFrozenColumns l \<le> MaxColumns \<and> wf_slicers (slySlicers l))"

lemma rows_of_mono: "set xs \<subseteq> set ys \<Longrightarrow> rows_of xs \<subseteq> rows_of ys"
  by (auto simp: rows_of_def)

lemma normalizeDimensionRanges_wf: "wf_ranges limit (normalizeDimensionRanges rs limit)"
proof -
  have "separated (take n xs)" if "separated xs" for n and xs :: "DimensionRange list"
    using that set_take_subset [of n xs] by (auto simp: separated_def intro: sorted_wrt_take)
  moreover have "rows_of (take n xs) \<subseteq> rows_of xs" for n xs
    by (rule rows_of_mono) (rule set_take_subset)
  ultimately show ?thesis
    using mergeDimensionRanges_rows [of rs limit]
    unfolding wf_ranges_def normalizeDimensionRanges_def by fastforce
qed

lemma normalizeDimensionRanges_id: "wf_ranges limit rs \<Longrightarrow> normalizeDimensionRanges rs limit = rs"
proof -
  assume w: "wf_ranges limit rs"
  then have "mergeDimensionRanges rs limit = rs"
    using mergeDimensionRanges_rows [of rs limit]
    by (intro separated_canonical) (auto simp: wf_ranges_def)
  with w show ?thesis by (simp add: normalizeDimensionRanges_def wf_ranges_def)
qed

lemma normalizeSlicer_wf: "normalizeSlicer s = Inr t \<Longrightarrow> wf_slicer t"
  by (auto simp: normalizeSlicer_def wf_slicer_def Let_def not_less split: if_splits)

lemma normalizeSlicer_id: "wf_slicer s \<Longrightarrow> normalizeSlicer s = Inr s"
  by (cases s) (auto simp: normalizeSlicer_def wf_slicer_def Let_def)

lemma slicerLoop_wf:
  assumes "wf_slicers acc" "length acc < MaxSlicers"
  shows "wf_slicers (slicerLoop acc ss)"
  using assms
proof (induction acc ss rule: slicerLoop.induct)
  case (2 acc item input)
  show ?case
  proof (cases "normalizeSlicer item")
    case (Inl e)
    with 2 show ?thesis by simp
  next
    case (Inr n)
    show ?thesis
    proof (cases "slID n \<in> set (map slID acc)")
      case True
      with 2 Inr show ?thesis by simp
    next
      case False
      have w: "wf_slicers (acc @ [n])"
        using 2(4,5) False normalizeSlicer_wf [OF Inr] by (auto simp: wf_slicers_def)
      show ?thesis
      proof (cases "length (acc @ [n]) = MaxSlicers")
        case True
        with False Inr w show ?thesis by (simp add: Let_def)
      next
        case False': False
        have "length (acc @ [n]) < MaxSlicers" using 2(5) False' by simp
        with "2.IH"(3) [OF Inr False refl False' w] False False' Inr show ?thesis by (simp add: Let_def)
      qed
    qed
  qed
qed simp

lemma slicerLoop_id:
  "wf_slicers (acc @ ss) \<Longrightarrow> length acc < MaxSlicers \<Longrightarrow> slicerLoop acc ss = acc @ ss"
proof (induction ss arbitrary: acc)
  case (Cons s ss)
  have n: "normalizeSlicer s = Inr s" "slID s \<notin> set (map slID acc)"
    using Cons.prems by (auto simp: wf_slicers_def normalizeSlicer_id)
  show ?case
  proof (cases "length (acc @ [s]) = MaxSlicers")
    case True
    moreover have "length (acc @ s # ss) \<le> MaxSlicers" using Cons.prems(1) by (simp only: wf_slicers_def)
    ultimately have "length ss = 0" by (simp del: length_0_conv)
    with True n show ?thesis by (simp add: Let_def)
  next
    case False
    with Cons.prems Cons.IH [of "acc @ [s]"] n show ?thesis by (simp add: Let_def)
  qed
qed simp

lemma normalizeSlicers_wf: "wf_slicers (normalizeSlicers ss)"
  unfolding normalizeSlicers_def by (rule slicerLoop_wf) (simp_all add: wf_slicers_def MaxSlicers_def)

lemma normalizeSlicers_id: "wf_slicers ss \<Longrightarrow> normalizeSlicers ss = ss"
  by (simp add: normalizeSlicers_def slicerLoop_id MaxSlicers_def)

lemma normalizeSheetLayout_wf: "wf_layout (normalizeSheetLayout l)"
  by (simp add: wf_layout_def normalizeSheetLayout_def normalizeDimensionSizes_wf normalizeDimensionRanges_wf
      normalizeDimensionGroups_wf normalizeSlicers_wf MaxRows_def MaxColumns_def)

lemma normalizeSheetLayout_id: "wf_layout l \<Longrightarrow> normalizeSheetLayout l = l"
  by (cases l) (simp add: wf_layout_def normalizeSheetLayout_def normalizeDimensionSizes_id
      normalizeDimensionRanges_id normalizeDimensionGroups_id normalizeSlicers_id)


section \<open>Layout requests\<close>

lemma bump_layout_simps [simp]:
  "slyRevision (bump_layout l) = slyRevision l + 1" "slyRowHeights (bump_layout l) = slyRowHeights l"
  "slyColumnWidths (bump_layout l) = slyColumnWidths l" "slyHiddenRows (bump_layout l) = slyHiddenRows l"
  "slyHiddenColumns (bump_layout l) = slyHiddenColumns l" "slyRowGroups (bump_layout l) = slyRowGroups l"
  "slyColumnGroups (bump_layout l) = slyColumnGroups l" "slyFrozenRows (bump_layout l) = slyFrozenRows l"
  "slyFrozenColumns (bump_layout l) = slyFrozenColumns l" "slySlicers (bump_layout l) = slySlicers l"
  "slyPrintArea (bump_layout l) = slyPrintArea l"
  by (simp_all add: bump_layout_def)

lemma normalizeSheetLayout_revision: "1 \<le> slyRevision l \<Longrightarrow> slyRevision (normalizeSheetLayout l) = slyRevision l"
  by (simp add: normalizeSheetLayout_def)

lemma finish_layout_ok:
  assumes "finish_layout l = Inr l'" "1 \<le> slyRevision l"
  shows "l' = normalizeSheetLayout (bump_layout l)" "wf_layout l'" "slyRevision l' = slyRevision l + 1"
    "length (mergeDimensionRanges (slyHiddenRows l) MaxRows) \<le> MaxLayoutEntries"
    "length (mergeDimensionRanges (slyHiddenColumns l) MaxColumns) \<le> MaxLayoutEntries"
    "length (slyRowHeights l) \<le> MaxLayoutEntries" "length (slyColumnWidths l) \<le> MaxLayoutEntries"
  using assms by (auto simp: finish_layout_def normalizeSheetLayout_wf normalizeSheetLayout_revision split: if_splits)

lemma wf_layout_revision: "wf_layout l \<Longrightarrow> 1 \<le> slyRevision l"
  by (simp add: wf_layout_def)

definition frozen_request :: "SheetLayoutMutation \<Rightarrow> bool" where
  "frozen_request input =
     (lmAction input = ''freeze'' \<longrightarrow> 0 \<le> lmFrozenRows input \<and> lmFrozenRows input \<le> MaxFrozenRows \<and>
        0 \<le> lmFrozenColumns input \<and> lmFrozenColumns input \<le> MaxFrozenColumns)"

lemma check_span_frozen: "check_span raw = Inr input \<Longrightarrow> input = raw"
  by (auto simp: check_span_def Let_def split: if_splits)

lemma normalizeSheetLayoutMutation_frozen:
  "normalizeSheetLayoutMutation newID raw = Inr input \<Longrightarrow> frozen_request input"
  by (auto simp: normalizeSheetLayoutMutation_def frozen_request_def Let_def
      split: if_splits sum.splits option.splits dest!: check_span_frozen)

lemma applySheetLayoutMutation_wf:
  assumes "applySheetLayoutMutation l input = Inr l'" "frozen_request input"
  shows "wf_layout l' \<and> slyRevision l' = slyRevision (normalizeSheetLayout l) + 1"
proof -
  define n where "n = normalizeSheetLayout l"
  have w: "wf_layout n" by (simp add: n_def normalizeSheetLayout_wf)
  note r = wf_layout_revision [OF w]
  have app: "applySheetLayoutMutation l input = Inr l'" by fact
  consider "lmAction input = ''freeze''" | "lmAction input = ''print_area_set'' \<or> lmAction input = ''print_area_clear''"
    | "slicer_action (lmAction input)" | "group_action (lmAction input)"
    | "\<not> (lmAction input = ''freeze'' \<or> lmAction input = ''print_area_set'' \<or> lmAction input = ''print_area_clear'' \<or>
        slicer_action (lmAction input) \<or> group_action (lmAction input))"
    by blast
  then show ?thesis
  proof cases
    case 1
    with assms w show ?thesis
      by (auto simp: applySheetLayoutMutation_def n_def [symmetric] wf_layout_def frozen_request_def
        MaxFrozenRows_def MaxFrozenColumns_def MaxRows_def MaxColumns_def)
  next
    case 2
    with app w show ?thesis
      by (auto simp: applySheetLayoutMutation_def n_def [symmetric] wf_layout_def)
  next
    case 3
    then obtain u where "l' = normalizeSheetLayout (bump_layout (n\<lparr>slySlicers := u\<rparr>))"
      using app by (auto simp: applySheetLayoutMutation_def n_def [symmetric] split: sum.splits)
    with r show ?thesis by (simp add: normalizeSheetLayout_wf normalizeSheetLayout_revision n_def)
  next
    case 4
    then obtain m where m: "finish_layout m = Inr l'" "slyRevision m = slyRevision n"
      using app by (auto simp: applySheetLayoutMutation_def n_def [symmetric] Let_def split: sum.splits if_splits)
    with finish_layout_ok [OF m(1)] r show ?thesis by (simp add: n_def)
  next
    case 5
    then obtain m where m: "finish_layout m = Inr l'" "slyRevision m = slyRevision n"
      using app by (auto simp: applySheetLayoutMutation_def n_def [symmetric] split: prod.splits if_splits)
    with finish_layout_ok [OF m(1)] r show ?thesis by (simp add: n_def)
  qed
qed


lemma rows_of_show: "rows_of (concat (map (show_step a b) rs)) = rows_of rs - {a..b}" if "a \<le> b"
proof (induction rs)
  case (Cons r rs)
  have "rows_of (show_step a b r) = {drStart r..drEnd r} - {a..b}"
    using that by (auto simp: show_step_def)
  with Cons show ?case by auto
qed simp

text \<open>The rows a request to hide or show asks to be hidden, from those hidden before.\<close>

definition hidden_spec :: "SheetLayoutMutation \<Rightarrow> int set \<Rightarrow> int set" where
  "hidden_spec input rows =
     (if lmAction input = ''show_all'' then {}
      else if lmAction input = ''hide'' then rows \<union> {lmStart input..span_end input}
      else if lmAction input = ''show'' then rows - {lmStart input..span_end input}
      else rows)"

lemma applyDimensionMutation_hidden:
  assumes "lmAction input = ''show'' \<Longrightarrow> lmStart input \<le> span_end input"
  shows "rows_of (snd (applyDimensionMutation sizes hidden input d)) = hidden_spec input (rows_of hidden)"
  using assms by (auto simp: applyDimensionMutation_def hidden_spec_def Let_def rows_of_show)

text \<open>The sizes a request to resize asks for.\<close>

definition size_spec :: "SheetLayoutMutation \<Rightarrow> rat \<Rightarrow> (int \<Rightarrow> rat option) \<Rightarrow> int \<Rightarrow> rat option" where
  "size_spec input d sizes i =
     (if (lmAction input = ''resize'' \<or> lmAction input = ''reset_size'') \<and> lmStart input \<le> i \<and> i \<le> span_end input
      then (if lmAction input = ''reset_size'' \<or> lmSize input = d then None else Some (lmSize input))
      else sizes i)"

lemma map_of_resize:
  "map_of (fold (\<lambda>index m. if b then AList.delete index m else AList.update index v m) is m) i =
     (if i \<in> set is then (if b then None else Some v) else map_of m i)"
  by (induction "is" arbitrary: m) (auto simp: delete_conv' update_conv')

lemma resize_distinct:
  "distinct (map fst m) \<Longrightarrow>
   distinct (map fst (fold (\<lambda>index m. if b then AList.delete index m else AList.update index v m) is m))"
  by (induction "is" arbitrary: m) (auto simp: distinct_update distinct_delete)

lemma size_of_pairs: "size_of (map (\<lambda>(index, sz). \<lparr>dsIndex = index, dsSize = sz\<rparr>) m) = map_of m"
  by (simp add: size_of_def comp_def case_prod_unfold)

lemma size_of_rev: "distinct (map dsIndex ss) \<Longrightarrow> size_of (rev ss) = size_of ss"
  unfolding size_of_def by (subst map_of_inject_set) (simp_all add: comp_def rev_map [symmetric])

lemma applyDimensionMutation_sizes:
  assumes "distinct (map dsIndex sizes)" "applyDimensionMutation sizes hidden input d = (sizes', hidden')"
  shows "size_of sizes' = size_spec input d (size_of sizes)" "distinct (map dsIndex sizes')"
proof -
  let ?m = "sizes_by_index sizes []"
  have m: "map_of ?m = size_of sizes" "distinct (map fst ?m)"
    using assms(1) sizes_by_index_distinct [of "[]" sizes]
    by (simp_all add: sizes_by_index_lookup size_of_rev)
  have idx: "map dsIndex (map (\<lambda>(index, sz). \<lparr>dsIndex = index, dsSize = sz\<rparr>) m) = map fst m" for m
    by (simp add: comp_def case_prod_unfold)
  consider (resize) "lmAction input = ''resize'' \<or> lmAction input = ''reset_size''"
    | (other) "\<not> (lmAction input = ''resize'' \<or> lmAction input = ''reset_size'')" by blast
  then have "size_of sizes' = size_spec input d (size_of sizes) \<and> distinct (map dsIndex sizes')"
  proof cases
    case resize
    then have "sizes' = map (\<lambda>(index, sz). \<lparr>dsIndex = index, dsSize = sz\<rparr>) (resize_map ?m input d)"
      using assms(2) by (auto simp: applyDimensionMutation_def Let_def)
    moreover have "map_of (resize_map ?m input d) = size_spec input d (size_of sizes)"
      unfolding resize_map_def map_of_resize m(1) fun_eq_iff using resize by (simp add: map_of_resize m(1) size_spec_def)
    moreover have "distinct (map fst (resize_map ?m input d))"
      unfolding resize_map_def by (rule resize_distinct) (rule m(2))
    ultimately show ?thesis by (simp only: size_of_pairs idx)
  next
    case other
    then have "sizes' = sizes"
      using assms(2) by (auto simp: applyDimensionMutation_def Let_def split: if_splits)
    with other assms(1) show ?thesis by (simp add: size_spec_def fun_eq_iff)
  qed
  then show "size_of sizes' = size_spec input d (size_of sizes)" "distinct (map dsIndex sizes')" by simp_all
qed

lemma size_of_filter:
  "distinct (map dsIndex ss) \<Longrightarrow> size_of (filter (\<lambda>s. P (dsIndex s) (dsSize s)) ss) i =
     (case size_of ss i of Some v \<Rightarrow> if P i v then Some v else None | None \<Rightarrow> None)"
proof (induction ss)
  case (Cons s ss)
  show ?case
  proof (cases "dsIndex s = i")
    case True
    then have "i \<notin> dsIndex ` set ss" using Cons.prems by auto
    then have "size_of (filter (\<lambda>s. P (dsIndex s) (dsSize s)) ss) i = None"
      by (auto simp: size_of_def map_of_eq_None_iff)
    with True show ?thesis by (simp add: size_of_def)
  next
    case False
    with Cons show ?thesis by (simp add: size_of_def)
  qed
qed (simp add: size_of_def)

text \<open>Normalising a table with distinct indices drops what the sheet cannot show and nothing else.\<close>

lemma size_of_normalize:
  assumes "distinct (map dsIndex ss)" "length ss \<le> MaxLayoutEntries"
  shows "size_of (normalizeDimensionSizes ss limit minimum maximum defaultSize) i =
    (case size_of ss i of
       Some v \<Rightarrow> if 1 \<le> i \<and> i \<le> limit \<and> minimum \<le> v \<and> v \<le> maximum \<and> v \<noteq> defaultSize then Some v else None
     | None \<Rightarrow> None)"
proof -
  let ?ok = "\<lambda>item. \<not> (dsIndex item < 1 \<or> dsIndex item > limit \<or> dsSize item < minimum \<or>
                     dsSize item > maximum \<or> dsSize item = defaultSize)"
  let ?kept = "filter ?ok ss"
  have d: "distinct (map dsIndex ?kept)" using assms(1) by (simp add: distinct_map_filter)
  then have m: "sizes_by_index ?kept [] = map (\<lambda>s. (dsIndex s, dsSize s)) ?kept" by (simp add: sizes_by_index_same)
  have "length ?kept \<le> MaxLayoutEntries" using assms(2) length_filter_le order_trans by blast
  then have n: "normalizeDimensionSizes ss limit minimum maximum defaultSize =
      map (\<lambda>index. \<lparr>dsIndex = index, dsSize = the (size_of ?kept index)\<rparr>) (sort (map dsIndex ?kept))"
    unfolding normalizeDimensionSizes_def Let_def m size_of_def by (simp add: comp_def)
  have "size_of (map (\<lambda>index. \<lparr>dsIndex = index, dsSize = f index\<rparr>) xs) i = (if i \<in> set xs then Some (f i) else None)"
    for f xs by (induction xs) (auto simp: size_of_def)
  then have "size_of (normalizeDimensionSizes ss limit minimum maximum defaultSize) i =
      (if i \<in> dsIndex ` set ?kept then Some (the (size_of ?kept i)) else None)"
    unfolding n by simp
  also have "\<dots> = size_of ?kept i"
  proof (cases "size_of ?kept i")
    case None
    then have "i \<notin> dsIndex ` set ?kept" unfolding size_of_def map_of_eq_None_iff by (simp add: image_image)
    with None show ?thesis by (simp only: if_False)
  next
    case (Some v)
    then have "i \<in> dsIndex ` set ?kept" using size_of_mem by blast
    with Some show ?thesis by (simp only: if_True option.sel)
  qed
  also have "size_of ?kept i = (case size_of ss i of
       Some v \<Rightarrow> if \<not> (i < 1 \<or> i > limit \<or> v < minimum \<or> v > maximum \<or> v = defaultSize) then Some v else None
     | None \<Rightarrow> None)"
    by (rule size_of_filter) (rule assms(1))
  also have "\<dots> = (case size_of ss i of
       Some v \<Rightarrow> if 1 \<le> i \<and> i \<le> limit \<and> minimum \<le> v \<and> v \<le> maximum \<and> v \<noteq> defaultSize then Some v else None
     | None \<Rightarrow> None)"
    by (auto split: option.split)
  finally show ?thesis .
qed


section \<open>Spans of a request\<close>

definition request_limit :: "SheetLayoutMutation \<Rightarrow> int" where
  "request_limit input = (if lmAxis input = ''column'' then MaxColumns else MaxRows)"

lemma request_limit_bounds: "0 < request_limit input" "request_limit input < 2 ^ 62"
  by (simp_all add: request_limit_def MaxRows_def MaxColumns_def)

lemma check_span_bounds:
  assumes "check_span input = Inr input'" "is_int64 (lmStart input)" "lmAction input \<noteq> ''show_all''"
  shows "1 \<le> lmStart input"
    "lmStart input \<le> span_end input \<and> span_end input \<le> request_limit input \<or>
     request_limit input < lmStart input \<and> span_end input < lmStart input"
proof -
  have b: "1 \<le> lmStart input" "1 \<le> lmCount input" "lmCount input \<le> 10000" "span_end input \<le> request_limit input"
    using assms(1,3) by (auto simp: check_span_def Let_def request_limit_def MaxLayoutSpan_def split: if_splits)
  have e: "span_end input = wrap64 (lmStart input + lmCount input - 1)"
    by (simp add: span_end_def wrap64_minus)
  show "1 \<le> lmStart input" by (fact b)
  show "lmStart input \<le> span_end input \<and> span_end input \<le> request_limit input \<or>
     request_limit input < lmStart input \<and> span_end input < lmStart input"
  proof (cases "lmStart input + lmCount input - 1 < 2 ^ 63")
    case True
    then have "span_end input = lmStart input + lmCount input - 1"
      unfolding e using b by (intro wrap64_id) simp_all
    with b show ?thesis by simp
  next
    case False
    have "span_end input = lmStart input + lmCount input - 1 - 2 ^ 64"
      unfolding e using False b assms(2) by (intro wrap64_over) (simp_all add: is_int64_def)
    with False b request_limit_bounds(2) [of input] show ?thesis by (simp add: is_int64_def)
  qed
qed

lemma normalized_size_request:
  assumes "normalizeSheetLayoutMutation newID raw = Inr input" "size_action (lmAction input)"
  shows "check_span input = Inr input" "lmStart input = lmStart raw"
proof -
  have n: "normalizeSheetLayoutMutation newID raw = Inr input" by fact
  have "check_span input = Inr input \<and> lmStart input = lmStart raw"
    using n assms(2) unfolding normalizeSheetLayoutMutation_def Let_def
    by (auto split: if_splits sum.splits option.splits dest: check_span_frozen)
  then show "check_span input = Inr input" "lmStart input = lmStart raw" by simp_all
qed


section \<open>What a request on rows or columns does\<close>

definition hidden_on :: "string \<Rightarrow> SheetLayout \<Rightarrow> int set" where
  "hidden_on axis l = rows_of (if axis = ''row'' then slyHiddenRows l else slyHiddenColumns l)"

definition sizes_on :: "string \<Rightarrow> SheetLayout \<Rightarrow> int \<Rightarrow> rat option" where
  "sizes_on axis l = size_of (if axis = ''row'' then slyRowHeights l else slyColumnWidths l)"

definition default_on :: "string \<Rightarrow> rat" where
  "default_on axis = (if axis = ''row'' then DefaultRowHeight else DefaultColumnWidth)"

definition other_axis :: "string \<Rightarrow> string" where
  "other_axis axis = (if axis = ''row'' then ''column'' else ''row'')"

lemma wf_sizes_distinct: "wf_sizes limit mn mx d ss \<Longrightarrow> distinct (map dsIndex ss)"
proof -
  assume "wf_sizes limit mn mx d ss"
  then have "sorted_wrt (<) (map dsIndex ss)" by (simp add: wf_sizes_def sorted_wrt_map)
  then show ?thesis by (simp add: strict_sorted_iff)
qed

lemma normalized_rows:
  "length (mergeDimensionRanges rs limit) \<le> MaxLayoutEntries \<Longrightarrow>
   rows_of (normalizeDimensionRanges rs limit) = rows_of rs \<inter> {1..limit}"
  by (simp add: normalizeDimensionRanges_def mergeDimensionRanges_rows)

lemma rows_of_show_outside:
  "\<forall>i \<in> rows_of rs. i < a \<Longrightarrow> \<forall>r \<in> set rs. drStart r \<le> drEnd r \<Longrightarrow> concat (map (show_step a b) rs) = rs"
  by (induction rs) (auto simp: show_step_def)

text \<open>One axis: sizes and hidden runs in normal form, changed by a checked request and normalised.\<close>

lemma dimension_request:
  assumes wf: "wf_sizes limit mn mx d sizes" "wf_ranges limit hidden"
    and span: "check_span input = Inr input" "is_int64 (lmStart input)" "limit = request_limit input"
    and size: "lmAction input = ''resize'' \<Longrightarrow> mn \<le> lmSize input \<and> lmSize input \<le> mx"
    and act: "size_action (lmAction input)"
    and app: "applyDimensionMutation sizes hidden input d = (sizes', hidden')"
    and len: "length sizes' \<le> MaxLayoutEntries" "length (mergeDimensionRanges hidden' limit) \<le> MaxLayoutEntries"
  shows "rows_of (normalizeDimensionRanges hidden' limit) = hidden_spec input (rows_of hidden)"
    and "size_of (normalizeDimensionSizes sizes' limit mn mx d) = size_spec input d (size_of sizes)"
proof -
  have sub: "rows_of hidden \<subseteq> {1..limit}" "\<forall>r \<in> set hidden. drStart r \<le> drEnd r"
    using wf(2) by (auto simp: wf_ranges_def separated_def)
  note b = check_span_bounds [OF span(1,2)]
  have "rows_of hidden' = hidden_spec input (rows_of hidden)"
  proof (cases "lmAction input = ''show'' \<and> \<not> lmStart input \<le> span_end input")
    case True
    then have "request_limit input < lmStart input" using b(2) by auto
    then have "\<forall>i \<in> rows_of hidden. i < lmStart input" using sub(1) span(3) by auto
    with True app sub(2) show ?thesis
      by (auto simp: applyDimensionMutation_def Let_def rows_of_show_outside hidden_spec_def)
  next
    case False
    with applyDimensionMutation_hidden [of input sizes hidden d] app show ?thesis by auto
  qed
  moreover have "hidden_spec input (rows_of hidden) \<subseteq> {1..limit}"
    using sub(1) b span(3) by (auto simp: hidden_spec_def)
  ultimately show "rows_of (normalizeDimensionRanges hidden' limit) = hidden_spec input (rows_of hidden)"
    using normalized_rows [OF len(2)] by blast
  note s = applyDimensionMutation_sizes [OF wf_sizes_distinct [OF wf(1)] app]
  have old: "1 \<le> i \<and> i \<le> limit \<and> mn \<le> v \<and> v \<le> mx \<and> v \<noteq> d" if "size_of sizes i = Some v" for i v
    using size_of_mem [OF that] wf(1) by (auto simp: wf_sizes_def)
  have new: "1 \<le> i \<and> i \<le> limit \<and> mn \<le> v \<and> v \<le> mx \<and> v \<noteq> d" if "size_spec input d (size_of sizes) i = Some v" for i v
  proof (cases "(lmAction input = ''resize'' \<or> lmAction input = ''reset_size'') \<and> lmStart input \<le> i \<and> i \<le> span_end input")
    case True
    with that have v: "lmAction input = ''resize''" "v = lmSize input" "v \<noteq> d"
      by (auto simp: size_spec_def split: if_splits)
    then have "span_end input \<le> limit" "1 \<le> lmStart input" using b True span(3) by auto
    with True v size show ?thesis by simp
  next
    case False
    with that old show ?thesis by (simp add: size_spec_def)
  qed
  show "size_of (normalizeDimensionSizes sizes' limit mn mx d) = size_spec input d (size_of sizes)"
  proof
    fix i
    show "size_of (normalizeDimensionSizes sizes' limit mn mx d) i = size_spec input d (size_of sizes) i"
      unfolding size_of_normalize [OF s(2) len(1)] s(1)
      using new [of i] by (cases "size_spec input d (size_of sizes) i") simp_all
  qed
qed


lemma size_request_row:
  assumes "wf_layout l" "check_span input = Inr input" "is_int64 (lmStart input)" "size_action (lmAction input)"
    and "lmAxis input = ''row''" "applySheetLayoutMutation l input = Inr l'"
  shows "hidden_on ''row'' l' = hidden_spec input (hidden_on ''row'' l) \<and>
    sizes_on ''row'' l' = size_spec input DefaultRowHeight (sizes_on ''row'' l) \<and>
    hidden_on ''column'' l' = hidden_on ''column'' l \<and> sizes_on ''column'' l' = sizes_on ''column'' l"
proof -
  obtain sizes' hidden' where app: "applyDimensionMutation (slyRowHeights l) (slyHiddenRows l) input DefaultRowHeight = (sizes', hidden')"
    by fastforce
  let ?m = "l\<lparr>slyRowHeights := sizes', slyHiddenRows := hidden'\<rparr>"
  have f: "finish_layout ?m = Inr l'"
    using assms(4-6) app by (auto simp: applySheetLayoutMutation_def normalizeSheetLayout_id [OF assms(1)])
  note fin = finish_layout_ok [OF f, simplified, OF wf_layout_revision [OF assms(1)]]
  have sz: "lmAction input = ''resize'' \<Longrightarrow> MinRowHeight \<le> lmSize input \<and> lmSize input \<le> MaxRowHeight"
    using assms(2,5) by (auto simp: check_span_def Let_def split: if_splits)
  have w: "wf_sizes MaxRows MinRowHeight MaxRowHeight DefaultRowHeight (slyRowHeights l)" "wf_ranges MaxRows (slyHiddenRows l)"
    "wf_sizes MaxColumns MinColumnWidth MaxColumnWidth DefaultColumnWidth (slyColumnWidths l)" "wf_ranges MaxColumns (slyHiddenColumns l)"
    using assms(1) by (simp_all add: wf_layout_def)
  have lim: "MaxRows = request_limit input" using assms(5) by (simp add: request_limit_def)
  note d = dimension_request [OF w(1,2) assms(2,3) lim sz assms(4) app fin(6) fin(4)]
  have l': "slyHiddenRows l' = normalizeDimensionRanges hidden' MaxRows"
    "slyRowHeights l' = normalizeDimensionSizes sizes' MaxRows MinRowHeight MaxRowHeight DefaultRowHeight"
    "slyHiddenColumns l' = slyHiddenColumns l" "slyColumnWidths l' = slyColumnWidths l"
    using w by (simp_all add: fin(1) normalizeSheetLayout_def normalizeDimensionRanges_id normalizeDimensionSizes_id)
  show ?thesis by (simp add: hidden_on_def sizes_on_def l' d)
qed

lemma size_request_column:
  assumes "wf_layout l" "check_span input = Inr input" "is_int64 (lmStart input)" "size_action (lmAction input)"
    and "lmAxis input = ''column''" "applySheetLayoutMutation l input = Inr l'"
  shows "hidden_on ''column'' l' = hidden_spec input (hidden_on ''column'' l) \<and>
    sizes_on ''column'' l' = size_spec input DefaultColumnWidth (sizes_on ''column'' l) \<and>
    hidden_on ''row'' l' = hidden_on ''row'' l \<and> sizes_on ''row'' l' = sizes_on ''row'' l"
proof -
  obtain sizes' hidden' where app: "applyDimensionMutation (slyColumnWidths l) (slyHiddenColumns l) input DefaultColumnWidth = (sizes', hidden')"
    by fastforce
  let ?m = "l\<lparr>slyColumnWidths := sizes', slyHiddenColumns := hidden'\<rparr>"
  have f: "finish_layout ?m = Inr l'"
    using assms(4-6) app by (auto simp: applySheetLayoutMutation_def normalizeSheetLayout_id [OF assms(1)])
  note fin = finish_layout_ok [OF f, simplified, OF wf_layout_revision [OF assms(1)]]
  have sz: "lmAction input = ''resize'' \<Longrightarrow> MinColumnWidth \<le> lmSize input \<and> lmSize input \<le> MaxColumnWidth"
    using assms(2,5) by (auto simp: check_span_def Let_def split: if_splits)
  have w: "wf_sizes MaxRows MinRowHeight MaxRowHeight DefaultRowHeight (slyRowHeights l)" "wf_ranges MaxRows (slyHiddenRows l)"
    "wf_sizes MaxColumns MinColumnWidth MaxColumnWidth DefaultColumnWidth (slyColumnWidths l)" "wf_ranges MaxColumns (slyHiddenColumns l)"
    using assms(1) by (simp_all add: wf_layout_def)
  have lim: "MaxColumns = request_limit input" using assms(5) by (simp add: request_limit_def)
  note d = dimension_request [OF w(3,4) assms(2,3) lim sz assms(4) app fin(7) fin(5)]
  have l': "slyHiddenColumns l' = normalizeDimensionRanges hidden' MaxColumns"
    "slyColumnWidths l' = normalizeDimensionSizes sizes' MaxColumns MinColumnWidth MaxColumnWidth DefaultColumnWidth"
    "slyHiddenRows l' = slyHiddenRows l" "slyRowHeights l' = slyRowHeights l"
    using w by (simp_all add: fin(1) normalizeSheetLayout_def normalizeDimensionRanges_id normalizeDimensionSizes_id)
  show ?thesis by (simp add: hidden_on_def sizes_on_def l' d)
qed

section \<open>A layout through a structural change\<close>

lemma transformDimensionSizes_length: "length (fst (transformDimensionSizes ss m)) \<le> length ss"
  by (induction ss m rule: transformDimensionSizes.induct) (auto split: prod.splits)

lemma size_of_transform:
  assumes "valid_mutation m" "distinct (map dsIndex ss)" "move_sheet_index m i = Some k"
  shows "size_of (fst (transformDimensionSizes ss m)) k = size_of ss i"
proof -
  have "map_of (move_keys (move_sheet_index m) xs) k = map_of xs i" for xs :: "(int \<times> rat) list"
  proof (induction xs)
    case (Cons x xs)
    obtain j v where x: "x = (j, v)" by (cases x)
    show ?case
      using Cons x assms(3) sheet_motion.move_inj [OF assms(1), of j k i]
      by (auto split: option.splits)
  qed simp
  then show ?thesis unfolding size_of_def transformDimensionSizes_keys .
qed

lemma frozen_follows:
  assumes "valid_mutation m" "0 \<le> count" "smAction m \<noteq> ''move''" "1 \<le> i" "move_sheet_index m i = Some k"
  shows "i \<le> count \<longleftrightarrow> k \<le> transformFrozenCount count m"
proof -
  have n: "1 \<le> smCount m" "1 \<le> smIndex m" using assms(1) by (simp_all add: valid_mutation_def valid_change_def)
  consider "smAction m = ''insert''" | "smAction m = ''delete''"
    using assms(1,3) by (auto simp: valid_mutation_def)
  then show ?thesis
  proof cases
    case 1
    with assms n show ?thesis
      by (auto simp: move_sheet_index_eq transformFrozenCount_def split: if_splits)
  next
    case 2
    with assms n show ?thesis
      by (auto simp: move_sheet_index_eq move_index_simps transformFrozenCount_def Let_def min_def max_def split: if_splits)
  qed
qed


lemma hidden_only_followers:
  assumes "valid_mutation m" "smAction m \<noteq> ''move''" "separated rs" "rows_of rs \<subseteq> {1..MaxRows}"
    and "hidden_index m i = Some k" "k \<in> rows_of (fst (transformDimensionRanges rs m))"
  shows "i \<in> rows_of rs"
proof -
  have inside: "\<forall>r \<in> set rs. drStart r \<le> drEnd r \<and> on_sheet (drStart r)"
    using assms(3,4) by (fastforce simp: separated_def rows_of_def on_sheet_def)
  have n: "1 \<le> smCount m" using assms(1) by (simp add: valid_mutation_def valid_change_def)
  consider "smAction m = ''insert''" | "smAction m = ''delete''"
    using assms(1,2) by (auto simp: valid_mutation_def)
  then show ?thesis
  proof cases
    case 1
    obtain r s e where r: "r \<in> set rs" "hidden_span m (drStart r, drEnd r) = Some (s, e)" "s \<le> k" "k \<le> e"
      using assms(6) by (auto simp: rows_of_transform)
    have o: "drStart r \<le> drEnd r" "on_sheet (drStart r)" using inside r(1) by auto
    have "move_span (mutation_change m) (drStart r, drEnd r) = Some (s, e)"
      using r(2) hidden_span_eq [OF assms(1) order_refl o] by simp
    then have "i \<in> {drStart r..drEnd r}"
      using 1 o(1) r(3,4) assms(5) n by (auto simp: move_span_simps hidden_index_def move_index_simps Let_def split: if_splits)
    with r(1) show ?thesis by (auto simp: rows_of_def)
  next
    case 2
    from hidden_row_delete [OF assms(1) 2 inside assms(6)] hidden_motion.move_inj [OF assms(1) assms(5)]
    show ?thesis by blast
  qed
qed

lemma merge_step_length: "length (foldl merge_step merged items) \<le> length merged + length items"
proof (induction items arbitrary: merged)
  case (Cons item items)
  have "length (merge_step merged item) \<le> Suc (length merged)" by (auto simp: merge_step_def)
  with Cons [of "merge_step merged item"] show ?case by simp
qed simp

lemma mergeDimensionRanges_length: "length (mergeDimensionRanges rs limit) \<le> length rs"
proof -
  let ?items = "filter (\<lambda>item. drStart item \<le> drEnd item) (map (clamp_range limit) rs)"
  have "length (mergeDimensionRanges rs limit) \<le> length ?items"
    unfolding mergeDimensionRanges_def Let_def
    by (rule merge_step_length [of "[]", THEN order_trans]) (simp del: filter_map)
  also have "\<dots> \<le> length (map (clamp_range limit) rs)" by (rule length_filter_le)
  finally show ?thesis by simp
qed

lemma transformDimensionRanges_length: "length (fst (transformDimensionRanges rs m)) \<le> length rs"
  by (induction rs m rule: transformDimensionRanges.induct) (auto split: prod.splits option.splits)

lemma transformed_rows:
  assumes "wf_ranges limit rs"
  shows "rows_of (normalizeDimensionRanges (fst (transformDimensionRanges rs m)) limit) =
    rows_of (fst (transformDimensionRanges rs m)) \<inter> {1..limit}"
proof (rule normalized_rows)
  show "length (mergeDimensionRanges (fst (transformDimensionRanges rs m)) limit) \<le> MaxLayoutEntries"
    using assms mergeDimensionRanges_length [of "fst (transformDimensionRanges rs m)" limit]
      transformDimensionRanges_length [of rs m] by (simp add: wf_ranges_def)
qed

lemma transformed_sizes:
  assumes "wf_sizes limit mn mx d ss" "valid_mutation m" "move_sheet_index m i = Some k" "1 \<le> k" "k \<le> limit"
  shows "size_of (normalizeDimensionSizes (fst (transformDimensionSizes ss m)) limit mn mx d) k = size_of ss i"
proof -
  have d: "distinct (map dsIndex ss)" using assms(1) by (rule wf_sizes_distinct)
  have len: "length (fst (transformDimensionSizes ss m)) \<le> MaxLayoutEntries"
    using assms(1) transformDimensionSizes_length [of ss m] by (simp add: wf_sizes_def)
  have ok: "mn \<le> v \<and> v \<le> mx \<and> v \<noteq> d" if "size_of ss i = Some v" for v
    using size_of_mem [OF that] assms(1) by (auto simp: wf_sizes_def)
  show ?thesis
    unfolding size_of_normalize [OF transformDimensionSizes_distinct [OF assms(2) d] len]
      size_of_transform [OF assms(2) d assms(3)]
    using ok assms(4,5) by (cases "size_of ss i") simp_all
qed

lemma transform_rows:
  assumes "wf_layout l" "smAxis m = ''row''"
  shows "slyRowHeights (transformLayoutForStructure l m) =
      normalizeDimensionSizes (fst (transformDimensionSizes (slyRowHeights l) m)) MaxRows MinRowHeight MaxRowHeight DefaultRowHeight"
    "slyHiddenRows (transformLayoutForStructure l m) =
      normalizeDimensionRanges (fst (transformDimensionRanges (slyHiddenRows l) m)) MaxRows"
    "slyFrozenRows (transformLayoutForStructure l m) =
      (let frozen = transformFrozenCount (slyFrozenRows l) m in if frozen < 0 \<or> frozen > MaxRows then 0 else frozen)"
  using assms
  by (simp_all add: transformLayoutForStructure_def normalizeSheetLayout_id Let_def normalizeSheetLayout_def [of "if _ then _ else _"]
      split: prod.split)

lemma transform_columns:
  assumes "wf_layout l" "smAxis m = ''column''"
  shows "slyColumnWidths (transformLayoutForStructure l m) =
      normalizeDimensionSizes (fst (transformDimensionSizes (slyColumnWidths l) m)) MaxColumns MinColumnWidth MaxColumnWidth DefaultColumnWidth"
    "slyHiddenColumns (transformLayoutForStructure l m) =
      normalizeDimensionRanges (fst (transformDimensionRanges (slyHiddenColumns l) m)) MaxColumns"
    "slyFrozenColumns (transformLayoutForStructure l m) =
      (let frozen = transformFrozenCount (slyFrozenColumns l) m in if frozen < 0 \<or> frozen > MaxColumns then 0 else frozen)"
  using assms
  by (simp_all add: transformLayoutForStructure_def normalizeSheetLayout_id Let_def normalizeSheetLayout_def [of "if _ then _ else _"]
      split: prod.split)


lemma sheet_position_cases:
  assumes "valid_mutation m" "structuralPosition i m = (k, True)" "1 \<le> i" "i \<le> axis_limit (mutation_change m)"
    and "k \<le> axis_limit (mutation_change m)"
  shows "move_sheet_index m i = Some k" "hidden_index m i = Some k" "on_sheet i" "1 \<le> k"
proof -
  show s: "move_sheet_index m i = Some k" using assms(2) by (simp add: move_sheet_index_def survivor_def)
  show h: "hidden_index m i = Some k"
  proof (cases "smAction m = ''insert''")
    case True
    with s assms(5) show ?thesis by (auto simp: move_sheet_index_eq hidden_index_def move_index_simps Let_def)
  next
    case False
    with s show ?thesis by (simp add: move_sheet_index_eq hidden_index_def)
  qed
  show o: "on_sheet i" using assms(3,4) axis_limit_le [of "mutation_change m"] by (simp add: on_sheet_def)
  show "1 \<le> k" using hidden_motion.move_inside [OF assms(1) o h] by (simp add: on_sheet_def)
qed

section \<open>Properties\<close>


definition layout_request :: "string \<Rightarrow> string \<Rightarrow> int \<Rightarrow> int \<Rightarrow> SheetLayoutMutation" where
  "layout_request key action start count =
     \<lparr>lmSheetID = ''s1'', lmActorID = ''ann'', lmClientID = ''c'', lmIdempotencyKey = key,
      lmExpectedRevision = 1, lmAction = action, lmAxis = ''row'', lmStart = start, lmCount = count,
      lmSize = 40, lmFrozenRows = 0, lmFrozenColumns = 0, lmSlicer = None, lmRange = []\<rparr>"

definition hidden_layout :: "(int \<times> int) list \<Rightarrow> int \<Rightarrow> SheetLayout" where
  "hidden_layout rs revision = defaultSheetLayout\<lparr>slyRevision := revision,
     slyHiddenRows := map (\<lambda>(s, e). \<lparr>drStart = s, drEnd = e\<rparr>) rs\<rparr>"


text \<open>
  Hiding, showing and resizing do exactly what they say: after a successful request on
  rows or columns the hidden ones are those before, plus or minus the span (or none, for
  show-all); every index of the span has the new size, or none when the size is reset or the
  default, and no other size changed; and the other axis is as it was.
\<close>

lemma layout_request_effect:
  assumes "wf_layout l" "normalizeSheetLayoutMutation newID raw = Inr input" "is_int64 (lmStart raw)"
    and "size_action (lmAction input)" "applySheetLayoutMutation l input = Inr l'"
  shows "hidden_on (lmAxis input) l' = hidden_spec input (hidden_on (lmAxis input) l) \<and>
    sizes_on (lmAxis input) l' = size_spec input (default_on (lmAxis input)) (sizes_on (lmAxis input) l) \<and>
    hidden_on (other_axis (lmAxis input)) l' = hidden_on (other_axis (lmAxis input)) l \<and>
    sizes_on (other_axis (lmAxis input)) l' = sizes_on (other_axis (lmAxis input)) l"
proof -
  note c = normalized_size_request [OF assms(2,4)]
  have i: "is_int64 (lmStart input)" using assms(3) c(2) by simp
  have "lmAxis input = ''row'' \<or> lmAxis input = ''column''"
    using c(1) by (auto simp: check_span_def split: if_splits)
  then show ?thesis
    using size_request_row [OF assms(1) c(1) i assms(4) _ assms(5)]
      size_request_column [OF assms(1) c(1) i assms(4) _ assms(5)]
    by (auto simp: other_axis_def default_on_def)
qed

definition frozen_on :: "string \<Rightarrow> SheetLayout \<Rightarrow> int" where
  "frozen_on axis l = (if axis = ''row'' then slyFrozenRows l else slyFrozenColumns l)"

text \<open>
  C36. The layout follows the rows and columns it describes: when a structural change takes
  row or column \<open>i\<close> to \<open>k\<close>, its size is what \<open>i\<close> had, and it is hidden if \<open>i\<close> was. For an
  insertion or a deletion it is hidden only if \<open>i\<close> was, and it is in the frozen pane just when
  \<open>i\<close> was (as long as the pane does not outgrow the sheet).
\<close>

theorem layout_follows_structure:
  assumes "normalizeStructuralMutation raw = Inr m" "wf_layout l"
    and "1 \<le> i" "i \<le> axis_limit (mutation_change m)"
    and "structuralPosition i m = (k, True)" "k \<le> axis_limit (mutation_change m)"
  shows "sizes_on (smAxis m) (transformLayoutForStructure l m) k = sizes_on (smAxis m) l i \<and>
    (i \<in> hidden_on (smAxis m) l \<longrightarrow> k \<in> hidden_on (smAxis m) (transformLayoutForStructure l m)) \<and>
    (smAction m \<noteq> ''move'' \<longrightarrow>
      (k \<in> hidden_on (smAxis m) (transformLayoutForStructure l m) \<longleftrightarrow> i \<in> hidden_on (smAxis m) l) \<and>
      (frozen_on (smAxis m) l + smCount m \<le> axis_limit (mutation_change m) \<longrightarrow>
        (k \<le> frozen_on (smAxis m) (transformLayoutForStructure l m) \<longleftrightarrow> i \<le> frozen_on (smAxis m) l)))"
proof -
  let ?l' = "transformLayoutForStructure l m"
  have v: "valid_mutation m" using assms(1) by (rule normalizeStructuralMutation_valid)
  note p = sheet_position_cases [OF v assms(5,3,4,6)]
  have n: "1 \<le> smCount m" "1 \<le> smIndex m" using v by (simp_all add: valid_mutation_def valid_change_def)
  have ax: "smAxis m = ''row'' \<or> smAxis m = ''column''" using v by (simp add: valid_mutation_def)
  define hidden where "hidden = (if smAxis m = ''row'' then slyHiddenRows l else slyHiddenColumns l)"
  have lim: "axis_limit (mutation_change m) = (if smAxis m = ''row'' then MaxRows else MaxColumns)"
    using ax by (auto simp: axis_limit_def)
  have wr: "wf_ranges (axis_limit (mutation_change m)) hidden"
    using assms(2) ax by (auto simp: hidden_def lim wf_layout_def)
  have size: "sizes_on (smAxis m) ?l' k = sizes_on (smAxis m) l i"
    using assms(2,6) p(4) ax lim
    by (auto simp: sizes_on_def transform_rows transform_columns wf_layout_def intro!: transformed_sizes [OF _ v p(1)])
  have hid': "hidden_on (smAxis m) ?l' = rows_of (fst (transformDimensionRanges hidden m)) \<inter> {1..axis_limit (mutation_change m)}"
    using assms(2) ax lim wr transformed_rows [of _ hidden m]
    by (auto simp: hidden_on_def hidden_def transform_rows transform_columns)
  have hid: "hidden_on (smAxis m) l = rows_of hidden" by (simp add: hidden_on_def hidden_def)
  have to: "k \<in> hidden_on (smAxis m) ?l'" if "i \<in> hidden_on (smAxis m) l"
    using hidden_row_follows [OF v _ p(3,2)] that p(4) assms(6) by (simp add: hid hid')
  have sub: "separated hidden" "rows_of hidden \<subseteq> {1..MaxRows}"
    using wr axis_limit_le [of "mutation_change m"] by (auto simp: wf_ranges_def)
  have only: "i \<in> hidden_on (smAxis m) l" if "smAction m \<noteq> ''move''" "k \<in> hidden_on (smAxis m) ?l'"
    using hidden_only_followers [OF v that(1) sub p(2)] that(2) by (simp add: hid hid')
  have frozen: "k \<le> frozen_on (smAxis m) ?l' \<longleftrightarrow> i \<le> frozen_on (smAxis m) l"
    if "smAction m \<noteq> ''move''" "frozen_on (smAxis m) l + smCount m \<le> axis_limit (mutation_change m)"
  proof -
    have z: "0 \<le> frozen_on (smAxis m) l" using assms(2) by (simp add: frozen_on_def wf_layout_def)
    have "0 \<le> transformFrozenCount (frozen_on (smAxis m) l) m"
      "transformFrozenCount (frozen_on (smAxis m) l) m \<le> frozen_on (smAxis m) l + smCount m"
      using n z by (auto simp: transformFrozenCount_def Let_def)
    then have "frozen_on (smAxis m) ?l' = transformFrozenCount (frozen_on (smAxis m) l) m"
      using assms(2) ax lim that(2) by (auto simp: frozen_on_def transform_rows transform_columns Let_def)
    with frozen_follows [OF v z that(1) assms(3) p(1)] show ?thesis by simp
  qed
  from size to only frozen show ?thesis by blast
qed

theorem layout_follows_structure_witness:
  "sizes_on ''row'' (transformLayoutForStructure (hidden_layout [(2, 3)] 1) move_out) 9 =
     sizes_on ''row'' (hidden_layout [(2, 3)] 1) 3 \<and>
   9 \<in> hidden_on ''row'' (transformLayoutForStructure (hidden_layout [(2, 3)] 1) move_out)"
proof -
  have n: "normalizeStructuralMutation move_out = Inr move_out"
    and b: "1 \<le> (3::int)" "3 \<le> axis_limit (mutation_change move_out)" "structuralPosition 3 move_out = (9, True)"
      "9 \<le> axis_limit (mutation_change move_out)" "smAxis move_out = ''row''"
    by code_simp+
  have "normalizeSheetLayout (hidden_layout [(2, 3)] 1) = hidden_layout [(2, 3)] 1" by code_simp
  then have w: "wf_layout (hidden_layout [(2, 3)] 1)" by (metis normalizeSheetLayout_wf)
  have "3 \<in> hidden_on ''row'' (hidden_layout [(2, 3)] 1)"
    by (simp add: hidden_on_def hidden_layout_def rows_of_def)
  with layout_follows_structure [OF n w b(1-4)] show ?thesis unfolding b(5) by blast
qed

lemma normalizeSlicer_newID:
  assumes "normalizeSlicer (s\<lparr>slID := a\<rparr>) = Inr t" "trim_space b \<noteq> []"
  shows "\<exists>t'. normalizeSlicer (s\<lparr>slID := b\<rparr>) = Inr t'"
  using assms by (auto simp: normalizeSlicer_def Let_def split: if_splits)

lemma normalize_fields:
  assumes "normalizeSheetLayoutMutation newID raw = Inr input"
  shows "lmSheetID input = lmSheetID raw" "lmActorID input = lmActorID raw"
    "lmIdempotencyKey input = trim_space (lmIdempotencyKey raw)" "lmExpectedRevision input = lmExpectedRevision raw"
  using assms unfolding normalizeSheetLayoutMutation_def Let_def
  by (auto split: if_splits sum.splits option.splits dest: check_span_frozen)

lemma normalize_newID:
  assumes "normalizeSheetLayoutMutation newID raw = Inr input" "trim_space newID' \<noteq> []"
  shows "\<exists>input'. normalizeSheetLayoutMutation newID' raw = Inr input'"
proof (cases "to_lower (trim_space (lmAction raw)) = ''slicer_add''")
  case True
  with assms show ?thesis
    unfolding normalizeSheetLayoutMutation_def Let_def
    by (auto split: if_splits sum.splits option.splits dest: normalizeSlicer_newID)
next
  case False
  then have "normalizeSheetLayoutMutation newID' raw = normalizeSheetLayoutMutation newID raw"
    unfolding normalizeSheetLayoutMutation_def Let_def by (simp split: option.split)
  with assms(1) show ?thesis by (intro exI) (rule trans)
qed

lemma ApplySheetLayout_fresh:
  assumes "ApplySheetLayout newID operationID now raw st = (Inr result, st')" "\<not> lrDuplicate result"
  obtains input stored updated where
    "normalizeSheetLayoutMutation newID raw = Inr input" "lsSheets st (lmSheetID input) = Some stored"
    "lsIdempotent st (layout_key input) = None" "lmExpectedRevision input = slyRevision (normalizeSheetLayout stored)"
    "applySheetLayoutMutation (normalizeSheetLayout stored) input = Inr updated" "lrLayout result = updated"
    "lrBaseVersion result = lsVersion st" "lrServerVersion result = lsVersion st + 1"
    "st' = st\<lparr>lsSheets := (lsSheets st)(lmSheetID input \<mapsto> updated), lsVersion := lsVersion st + 1,
       lsUpdatedAt := now, lsIdempotent := (lsIdempotent st)(layout_key input \<mapsto> result)\<rparr>"
proof -
  have app: "ApplySheetLayout newID operationID now raw st = (Inr result, st')" by fact
  obtain input where i: "normalizeSheetLayoutMutation newID raw = Inr input"
    using app by (cases "normalizeSheetLayoutMutation newID raw") (auto simp: ApplySheetLayout_def)
  obtain stored where s: "lsSheets st (lmSheetID input) = Some stored"
    using app i by (cases "lsSheets st (lmSheetID input)") (auto simp: ApplySheetLayout_def)
  have n: "lsIdempotent st (layout_key input) = None"
    using app i s assms(2) by (cases "lsIdempotent st (layout_key input)") (auto simp: ApplySheetLayout_def)
  have e: "lmExpectedRevision input = slyRevision (normalizeSheetLayout stored)"
    using app i s n by (auto simp: ApplySheetLayout_def Let_def split: if_splits)
  obtain updated where u: "applySheetLayoutMutation (normalizeSheetLayout stored) input = Inr updated"
    using app i s n e
    by (cases "applySheetLayoutMutation (normalizeSheetLayout stored) input") (auto simp: ApplySheetLayout_def Let_def)
  from app i s n e u have r: "result = \<lparr>lrOperationID = operationID, lrWorkbookID = lsWorkbookID st,
      lrSheetID = lmSheetID input, lrBaseVersion = lsVersion st, lrServerVersion = lsVersion st + 1,
      lrLayout = updated, lrDuplicate = False, lrCreatedAt = now\<rparr>"
    and st': "st' = st\<lparr>lsSheets := (lsSheets st)(lmSheetID input \<mapsto> updated), lsVersion := lsVersion st + 1,
       lsUpdatedAt := now, lsIdempotent := (lsIdempotent st)(layout_key input \<mapsto> result)\<rparr>"
    by (auto simp: ApplySheetLayout_def Let_def)
  show ?thesis by (rule that [OF i s n e u _ _ _ st']) (simp_all add: r)
qed

text \<open>
  A layout request is answered once and never overwrites an edit it has not seen. After a
  request succeeds, sending it again returns the recorded answer marked as a duplicate and
  changes nothing, and a request with another key that was prepared against the same revision
  of the same sheet is refused with a revision conflict and changes nothing. The version of
  the workbook goes up by one and the layouts of the other sheets stay as they were.
\<close>

lemma layout_request_answered_once:
  assumes "ApplySheetLayout newID operationID now raw st = (Inr result, st')" "\<not> lrDuplicate result"
    and "trim_space newID2 \<noteq> []" "normalizeSheetLayoutMutation newID3 raw3 = Inr input3"
    and "lmSheetID raw3 = lmSheetID raw" "lmExpectedRevision raw3 = lmExpectedRevision raw"
    and "lsIdempotent st' (layout_key input3) = None"
  shows "ApplySheetLayout newID2 operationID2 now2 raw st' = (Inr (result\<lparr>lrDuplicate := True\<rparr>), st') \<and>
    ApplySheetLayout newID3 operationID3 now3 raw3 st' = (Inl ErrRevision, st') \<and>
    lsVersion st' = lsVersion st + 1 \<and>
    (\<forall>s. s \<noteq> lmSheetID raw \<longrightarrow> lsSheets st' s = lsSheets st s)"
proof -
  obtain input stored updated where fresh:
    "normalizeSheetLayoutMutation newID raw = Inr input" "lsSheets st (lmSheetID input) = Some stored"
    "lsIdempotent st (layout_key input) = None" "lmExpectedRevision input = slyRevision (normalizeSheetLayout stored)"
    "applySheetLayoutMutation (normalizeSheetLayout stored) input = Inr updated" "lrLayout result = updated"
    "lrBaseVersion result = lsVersion st" "lrServerVersion result = lsVersion st + 1"
    "st' = st\<lparr>lsSheets := (lsSheets st)(lmSheetID input \<mapsto> updated), lsVersion := lsVersion st + 1,
       lsUpdatedAt := now, lsIdempotent := (lsIdempotent st)(layout_key input \<mapsto> result)\<rparr>"
    using ApplySheetLayout_fresh [OF assms(1,2)] .
  note f = normalize_fields [OF fresh(1)]
  obtain input2 where i2: "normalizeSheetLayoutMutation newID2 raw = Inr input2"
    using normalize_newID [OF fresh(1) assms(3)] by blast
  note f2 = normalize_fields [OF i2] and f3 = normalize_fields [OF assms(4)]
  have "layout_key input2 = layout_key input" by (simp add: layout_key_def f f2)
  then have retry: "ApplySheetLayout newID2 operationID2 now2 raw st' = (Inr (result\<lparr>lrDuplicate := True\<rparr>), st')"
    by (simp add: ApplySheetLayout_def i2 fresh(9) f f2)
  have u: "wf_layout updated" "slyRevision updated = slyRevision (normalizeSheetLayout stored) + 1"
    using applySheetLayoutMutation_wf [OF fresh(5) normalizeSheetLayoutMutation_frozen [OF fresh(1)]]
    by (simp_all add: normalizeSheetLayout_id normalizeSheetLayout_wf)
  have s': "lsSheets st' (lmSheetID raw) = Some updated" by (simp add: fresh(9) f)
  have conflict: "ApplySheetLayout newID3 operationID3 now3 raw3 st' = (Inl ErrRevision, st')"
    using u f(4) fresh(4) assms(6)
    by (simp add: ApplySheetLayout_def assms(4,7) f3 assms(5) s' normalizeSheetLayout_id)
  show ?thesis using retry conflict by (simp add: fresh(9) f)
qed

definition one_sheet :: layout_state where
  "one_sheet = \<lparr>lsWorkbookID = ''wb'', lsVersion = 7, lsUpdatedAt = 0,
     lsSheets = [''s1'' \<mapsto> defaultSheetLayout], lsIdempotent = Map.empty\<rparr>"

text \<open>
  A span that wraps around is accepted: the end of the span is computed in a 64-bit integer
  before it is compared with the sheet, so a request that starts at the largest integer passes
  the bounds check, is answered as a success that hides nothing, and uses up a revision.
\<close>

lemma wrapped_span_accepted:
  "normalizeSheetLayoutMutation ''id'' (layout_request ''k'' ''hide'' 9223372036854775807 2) =
     Inr (layout_request ''k'' ''hide'' 9223372036854775807 2) \<and>
   applySheetLayoutMutation defaultSheetLayout (layout_request ''k'' ''hide'' 9223372036854775807 2) =
     Inr (hidden_layout [] 2)"
  by code_simp

definition full_outline :: "DimensionGroup list" where
  "full_outline = map (\<lambda>i. \<lparr>dgStart = 2 * int i + 1, dgEnd = 2 * int i + 2, dgCollapsed = False, dgDepth = 0\<rparr>) [0..<200]"

lemma full_outline_wf: "wf_groups MaxRows full_outline"
proof -
  have len: "length full_outline = 200" by (simp add: full_outline_def)
  have nth: "full_outline ! i = \<lparr>dgStart = 2 * int i + 1, dgEnd = 2 * int i + 2, dgCollapsed = False, dgDepth = 0\<rparr>"
    if "i < 200" for i using that by (simp add: full_outline_def)
  have "group_depth full_outline i = 0" if "i < 200" for i
    using that nth by (auto simp: group_depth_def encloses_def len filter_empty_conv)
  then have "set_depths full_outline = full_outline"
    by (intro nth_equalityI) (simp_all add: set_depths_nth len nth)
  moreover have "sorted_wrt (\<lambda>a b. group_order a < group_order b) full_outline"
    by (simp add: sorted_wrt_iff_nth_less len nth)
  moreover have "list_all (wf_group MaxRows) full_outline"
    by (auto simp: list_all_length len nth wf_group_def MaxRows_def)
  ultimately show ?thesis by (simp add: wf_groups_def len MaxGroups_def)
qed

text \<open>
  A group added to a full outline can vanish without an error: with the largest number of
  groups stored, a request for one more group behind them is answered as a success and stores
  the outline without it. The check that should refuse it counts the groups after the
  normalisation has already cut them off at the limit, so it never fires.
\<close>

lemma full_outline_drops_group:
  assumes "wf_groups limit gs" "length gs = MaxGroups" "\<forall>g \<in> set gs. dgDepth g < MaxGroupDepth"
    and "lmAction input = ''group''" "2 \<le> lmCount input"
    and "1 \<le> lmStart input" "lmStart input < span_end input" "span_end input \<le> limit"
    and "\<forall>g \<in> set gs. dgStart g < lmStart input"
  shows "applyGroupMutation gs input limit = Inr gs"
proof -
  let ?g = "\<lparr>dgStart = lmStart input, dgEnd = span_end input, dgCollapsed = False, dgDepth = 0\<rparr>"
  have "normalizeDimensionGroups (gs @ [?g]) limit = set_depths (take MaxGroups (gs @ [?g]))"
  proof (rule normalizeDimensionGroups_sorted)
    show "sorted_wrt (\<lambda>a b. group_order a < group_order b) (gs @ [?g])"
      using assms(1,9) by (auto simp: sorted_wrt_append wf_groups_def)
    show "list_all (wf_group limit) (gs @ [?g])"
      using assms(1,6-8) by (simp add: wf_groups_def wf_group_def)
  qed
  then have "normalizeDimensionGroups (gs @ [?g]) limit = gs"
    using assms(1,2) by (simp add: wf_groups_def)
  moreover have "\<not> list_ex (\<lambda>g. dgDepth g \<ge> MaxGroupDepth) gs"
    using assms(3) by (fastforce simp: list_ex_iff)
  ultimately show ?thesis
    using assms(2,4,5) by (simp add: applyGroupMutation_def Let_def)
qed

lemma full_outline_example:
  "applyGroupMutation full_outline (layout_request ''k'' ''group'' 500 3) MaxRows = Inr full_outline"
proof (rule full_outline_drops_group [OF full_outline_wf])
  show "length full_outline = MaxGroups" by (simp add: full_outline_def MaxGroups_def)
  show "\<forall>g \<in> set full_outline. dgDepth g < MaxGroupDepth" by (simp add: full_outline_def MaxGroupDepth_def)
  show "\<forall>g \<in> set full_outline. dgStart g < lmStart (layout_request ''k'' ''group'' 500 3)"
    by (auto simp: full_outline_def layout_request_def)
  show "lmAction (layout_request ''k'' ''group'' 500 3) = ''group''" "2 \<le> lmCount (layout_request ''k'' ''group'' 500 3)"
    "1 \<le> lmStart (layout_request ''k'' ''group'' 500 3)"
    "lmStart (layout_request ''k'' ''group'' 500 3) < span_end (layout_request ''k'' ''group'' 500 3)"
    "span_end (layout_request ''k'' ''group'' 500 3) \<le> MaxRows"
    by code_simp+
qed

end
