(* ===== verification/Sharing.thy ===== *)
theory Sharing
  imports Utf8 "HOL-Library.AList" "HOL-Library.List_Lexorder" "HOL-Library.Char_ord" "HOL-Library.Product_Lexorder"
begin

text \<open>
  Who may do what with a workbook: roles, capabilities, the validation of sharing requests and
  the access decision of \<^verbatim>\<open>internal/workbook/sharing.go\<close>. A role is the Go string it
  is stored as. The departments a principal belongs to, with their names, come as the
  association list the repository computes (theory \<open>Departments\<close>). A time is an integer.
\<close>

section \<open>Roles and capabilities\<close>

type_synonym ShareRole = string

definition RoleNone :: ShareRole where "RoleNone = []"
definition RoleViewer :: ShareRole where "RoleViewer = ''viewer''"
definition RoleCommenter :: ShareRole where "RoleCommenter = ''commenter''"
definition RoleEditor :: ShareRole where "RoleEditor = ''editor''"
definition RoleOwner :: ShareRole where "RoleOwner = ''owner''"

datatype Capability = CapabilityRead | CapabilityComment | CapabilityWrite | CapabilityManage

definition roleRank :: "ShareRole \<Rightarrow> nat" where
  "roleRank role =
     (if role = RoleViewer then 1 else if role = RoleCommenter then 2
      else if role = RoleEditor then 3 else if role = RoleOwner then 4 else 0)"

fun Allows :: "ShareRole \<Rightarrow> Capability \<Rightarrow> bool" where
  "Allows role CapabilityRead = (roleRank role \<ge> roleRank RoleViewer)"
| "Allows role CapabilityComment = (roleRank role \<ge> roleRank RoleCommenter)"
| "Allows role CapabilityWrite = (roleRank role \<ge> roleRank RoleEditor)"
| "Allows role CapabilityManage = (roleRank role \<ge> roleRank RoleOwner)"

definition AssignableShareRole :: "ShareRole \<Rightarrow> bool" where
  "AssignableShareRole role = (role = RoleViewer \<or> role = RoleCommenter \<or> role = RoleEditor)"

definition ValidLinkAccess :: "string \<Rightarrow> bool" where
  "ValidLinkAccess v = (v = ''restricted'' \<or> v = ''organization'' \<or> v = ''anyone'')"

definition ValidPrincipalType :: "string \<Rightarrow> bool" where
  "ValidPrincipalType v = (v = ''user'' \<or> v = ''department'' \<or> v = ''role'')"

section \<open>Principals and sharing state\<close>

record AccessPrincipal =
  apUserID :: string
  apEmail :: string
  apRoles :: "string list"
  apAdmin :: bool
  apAuthenticated :: bool

definition identities :: "AccessPrincipal \<Rightarrow> string list" where
  "identities who =
     (let ids = (let i = trim_space (apUserID who) in if i \<noteq> [] then [to_lower i] else []);
          email = trim_space (apEmail who) in
      if email \<noteq> [] then
        (let lowered = to_lower email in
         if ids = [] \<or> hd ids \<noteq> lowered then ids @ [lowered] else ids)
      else ids)"

definition roleSet :: "AccessPrincipal \<Rightarrow> string list" where
  "roleSet who = map to_lower (filter (\<lambda>r. r \<noteq> []) (map trim_space (apRoles who)))"

record WorkbookShare =
  shID :: string
  shWorkbookID :: string
  shPrincipalType :: string
  shPrincipalID :: string
  shPrincipalLabel :: string
  shRole :: ShareRole
  shRevision :: int
  shCreatedBy :: string
  shCreatedAt :: int
  shUpdatedAt :: int

record WorkbookSharing =
  wsWorkbookID :: string
  wsOwnerID :: string
  wsLinkAccess :: string
  wsLinkRole :: ShareRole
  wsSharingLocked :: bool
  wsViewerCanCopy :: bool
  wsShares :: "WorkbookShare list"

record WorkbookAccess =
  waWorkbookID :: string
  waActorID :: string
  waRole :: ShareRole
  waSource :: string
  waSourceLabel :: string
  waCanRead :: bool
  waCanComment :: bool
  waCanWrite :: bool
  waCanManage :: bool
  waCanCopy :: bool
  waLinkAccess :: string
  waLinkRole :: ShareRole
  waOwnerID :: string

definition newWorkbookAccess ::
  "string \<Rightarrow> AccessPrincipal \<Rightarrow> WorkbookSharing \<Rightarrow> ShareRole \<Rightarrow> string \<Rightarrow> string \<Rightarrow> WorkbookAccess" where
  "newWorkbookAccess workbookID who sharing role source label =
     (let access = \<lparr>waWorkbookID = workbookID, waActorID = apUserID who, waRole = role,
            waSource = source, waSourceLabel = label, waCanRead = False, waCanComment = False,
            waCanWrite = False, waCanManage = False, waCanCopy = False,
            waLinkAccess = wsLinkAccess sharing, waLinkRole = wsLinkRole sharing,
            waOwnerID = wsOwnerID sharing\<rparr> in
      if role = RoleNone then access
      else access\<lparr>
        waCanRead := Allows role CapabilityRead,
        waCanComment := Allows role CapabilityComment,
        waCanWrite := Allows role CapabilityWrite,
        waCanManage := Allows role CapabilityManage \<or> \<not> wsSharingLocked sharing \<and> role = RoleEditor,
        waCanCopy := Allows role CapabilityWrite \<or> wsViewerCanCopy sharing\<rparr>)"

section \<open>The decision\<close>

type_synonym grant = "ShareRole \<times> string \<times> string"

definition promote :: "grant \<Rightarrow> grant \<Rightarrow> grant" where
  "promote candidate best = (if roleRank (fst candidate) > roleRank (fst best) then candidate else best)"

text \<open>The grants one share row makes to a principal: one turn of the loop over the shares.\<close>

definition share_grants ::
  "string list \<Rightarrow> string list \<Rightarrow> (string \<times> string) list \<Rightarrow> WorkbookShare \<Rightarrow> grant list" where
  "share_grants ids roles departmentIDs share =
     (let principalID = to_lower (trim_space (shPrincipalID share)) in
      if shPrincipalType share = ''user'' then
        map (\<lambda>i. (shRole share, ''user'', shPrincipalLabel share)) (filter (\<lambda>i. i = principalID) ids)
      else if shPrincipalType share = ''department'' then
        (case map_of departmentIDs principalID of
           Some name \<Rightarrow>
             [(shRole share, ''department'', if name = [] then shPrincipalLabel share else name)]
         | None \<Rightarrow> [])
      else if shPrincipalType share = ''role'' then
        map (\<lambda>i. (shRole share, ''role'', shPrincipalID share)) (filter (\<lambda>i. i = principalID) roles)
      else [])"

definition link_grants :: "AccessPrincipal \<Rightarrow> WorkbookSharing \<Rightarrow> grant list" where
  "link_grants who sharing =
     (if (wsLinkAccess sharing = ''organization'' \<or> wsLinkAccess sharing = ''anyone'') \<and>
         (apAuthenticated who \<or> trim_space (apUserID who) \<noteq> [])
      then [(wsLinkRole sharing, ''link'', wsLinkAccess sharing)] else [])"

definition resolveAccess ::
  "string \<Rightarrow> AccessPrincipal \<Rightarrow> WorkbookSharing \<Rightarrow> (string \<times> string) list \<Rightarrow> WorkbookAccess" where
  "resolveAccess workbookID who sharing departmentIDs =
     (let ids = identities who in
      if list_ex (\<lambda>i. i = to_lower (trim_space (wsOwnerID sharing)) \<and> i \<noteq> []) ids then
        newWorkbookAccess workbookID who sharing RoleOwner ''owner'' []
      else if apAdmin who then
        newWorkbookAccess workbookID who sharing RoleOwner ''admin'' []
      else
        (let fromShares = fold (\<lambda>share best. fold promote
                 (share_grants ids (roleSet who) departmentIDs share) best)
               (wsShares sharing) (RoleNone, [], []) in
         case fold promote (link_grants who sharing) fromShares of (role, source, label) \<Rightarrow>
           newWorkbookAccess workbookID who sharing role source label))"

section \<open>Validation of sharing requests\<close>

definition MaxDepartmentNameRunes :: nat where "MaxDepartmentNameRunes = 80"
definition MaxDepartmentDescriptionRunes :: nat where "MaxDepartmentDescriptionRunes = 300"
definition MaxDepartmentDepth :: nat where "MaxDepartmentDepth = 8"
definition MaxDepartmentMembersPerCall :: nat where "MaxDepartmentMembersPerCall = 200"
definition MaxWorkbookShares :: nat where "MaxWorkbookShares = 500"
definition MaxAccessRequestMessageRunes :: nat where "MaxAccessRequestMessageRunes = 500"
definition MaxPrincipalIDRunes :: nat where "MaxPrincipalIDRunes = 320"

record ShareInput =
  siPrincipalType :: string
  siPrincipalID :: string
  siPrincipalLabel :: string
  siRole :: ShareRole
  siActorID :: string

definition validateShareInput :: "ShareInput \<Rightarrow> ShareInput result" where
  "validateShareInput raw =
     (let input = raw\<lparr>siPrincipalType := trim_space (to_lower (siPrincipalType raw)),
                      siPrincipalID := trim_space (siPrincipalID raw),
                      siPrincipalLabel := trim_space (siPrincipalLabel raw)\<rparr> in
      if \<not> ValidPrincipalType (siPrincipalType input) then Inl ErrInvalid
      else if siPrincipalID input = [] \<or> rune_count (siPrincipalID input) > MaxPrincipalIDRunes then Inl ErrInvalid
      else if \<not> AssignableShareRole (siRole input) then Inl ErrInvalid
      else if rune_count (siPrincipalLabel input) > MaxDepartmentNameRunes then Inl ErrInvalid
      else Inr input)"

record UpdateSharingInput =
  usLinkAccess :: "string option"
  usLinkRole :: "ShareRole option"
  usSharingLocked :: "bool option"
  usViewerCanCopy :: "bool option"
  usActorID :: string

definition validateSharingInput :: "UpdateSharingInput \<Rightarrow> UpdateSharingInput result" where
  "validateSharingInput raw =
     (let access = map_option (\<lambda>v. trim_space (to_lower v)) (usLinkAccess raw);
          input = raw\<lparr>usLinkAccess := access\<rparr> in
      if (case access of None \<Rightarrow> False | Some v \<Rightarrow> \<not> ValidLinkAccess v) then Inl ErrInvalid
      else if (case usLinkRole input of None \<Rightarrow> False | Some v \<Rightarrow> \<not> AssignableShareRole v) then Inl ErrInvalid
      else if usLinkAccess input = None \<and> usLinkRole input = None \<and> usSharingLocked input = None \<and>
              usViewerCanCopy input = None then Inl ErrInvalid
      else Inr input)"

definition validateDepartmentName :: "string \<Rightarrow> string result" where
  "validateDepartmentName name =
     (let trimmed = trim_space name in
      if trimmed = [] \<or> rune_count trimmed > MaxDepartmentNameRunes then Inl ErrInvalid else Inr trimmed)"

definition validateDepartmentDescription :: "string \<Rightarrow> string result" where
  "validateDepartmentDescription description =
     (let trimmed = trim_space description in
      if rune_count trimmed > MaxDepartmentDescriptionRunes then Inl ErrInvalid else Inr trimmed)"

fun memberLoop :: "string list \<Rightarrow> string list \<Rightarrow> string list result" where
  "memberLoop members [] = Inr members"
| "memberLoop members (candidate # rest) =
     (let trimmed = trim_space candidate in
      if trimmed = [] then memberLoop members rest
      else if rune_count trimmed > MaxPrincipalIDRunes then Inl ErrInvalid
      else if to_lower trimmed \<in> set (map to_lower members) then memberLoop members rest
      else memberLoop (members @ [trimmed]) rest)"

definition normalizeMemberIDs :: "string list \<Rightarrow> string list result" where
  "normalizeMemberIDs userIDs =
     (case memberLoop [] userIDs of
        Inl e \<Rightarrow> Inl e
      | Inr members \<Rightarrow>
          if members = [] \<or> length members > MaxDepartmentMembersPerCall then Inl ErrInvalid else Inr members)"

record CreateAccessRequestInput =
  carRequestedRole :: ShareRole
  carMessage :: string
  carRequesterID :: string
  carRequesterMail :: string
  carRequesterName :: string

definition validateAccessRequestInput :: "CreateAccessRequestInput \<Rightarrow> CreateAccessRequestInput result" where
  "validateAccessRequestInput raw =
     (let input = (if carRequestedRole raw = RoleNone then raw\<lparr>carRequestedRole := RoleViewer\<rparr> else raw);
          trimmed = input\<lparr>carMessage := trim_space (carMessage input)\<rparr> in
      if \<not> AssignableShareRole (carRequestedRole input) then Inl ErrInvalid
      else if rune_count (carMessage trimmed) > MaxAccessRequestMessageRunes then Inl ErrInvalid
      else if trim_space (carRequesterID trimmed) = [] then Inl ErrInvalid
      else Inr trimmed)"

text \<open>The columns of a workbook that sharing reads and writes, and a request for access.\<close>

record Workbook =
  wbID :: string
  wbTitle :: string
  wbOwnerID :: string
  wbLinkAccess :: string
  wbLinkRole :: ShareRole
  wbSharingLocked :: bool
  wbViewerCanCopy :: bool
  wbUpdatedAt :: int

record AccessRequest =
  arID :: string
  arWorkbookID :: string
  arWorkbookTitle :: string
  arRequesterID :: string
  arRequesterMail :: string
  arRequesterName :: string
  arRequestedRole :: ShareRole
  arMessage :: string
  arStatus :: string
  arDecidedBy :: string
  arDecidedAt :: "int option"
  arCreatedAt :: int

section \<open>Grants\<close>

lemmas role_defs = RoleNone_def RoleViewer_def RoleCommenter_def RoleEditor_def RoleOwner_def

lemma roleRank_simps [simp]:
  "roleRank RoleNone = 0" "roleRank RoleViewer = 1" "roleRank RoleCommenter = 2" "roleRank RoleEditor = 3"
  "roleRank RoleOwner = 4"
  by (simp_all add: roleRank_def role_defs)

lemma roleRank_le: "roleRank r \<le> 4"
  by (simp add: roleRank_def)

lemma roleRank_owner: "roleRank r = 4 \<longleftrightarrow> r = RoleOwner"
  by (auto simp: roleRank_def role_defs)

lemma assignable_rank: "AssignableShareRole r \<Longrightarrow> 1 \<le> roleRank r \<and> roleRank r \<le> 3"
  by (auto simp: AssignableShareRole_def)

text \<open>The grants of a workbook to a principal, in the order the decision considers them.\<close>

definition all_grants :: "AccessPrincipal \<Rightarrow> WorkbookSharing \<Rightarrow> (string \<times> string) list \<Rightarrow> grant list" where
  "all_grants who sharing departmentIDs =
     concat (map (share_grants (identities who) (roleSet who) departmentIDs) (wsShares sharing)) @
     link_grants who sharing"

lemma fold_fold_concat: "fold (\<lambda>x acc. fold f (g x) acc) xs acc = fold f (concat (map g xs)) acc"
  by (induction xs arbitrary: acc) simp_all

definition is_owner :: "AccessPrincipal \<Rightarrow> WorkbookSharing \<Rightarrow> bool" where
  "is_owner who sharing =
     list_ex (\<lambda>i. i = to_lower (trim_space (wsOwnerID sharing)) \<and> i \<noteq> []) (identities who)"

lemma resolveAccess_grants:
  "resolveAccess workbookID who sharing departmentIDs =
     (if is_owner who sharing then newWorkbookAccess workbookID who sharing RoleOwner ''owner'' []
      else if apAdmin who then newWorkbookAccess workbookID who sharing RoleOwner ''admin'' []
      else case fold promote (all_grants who sharing departmentIDs) (RoleNone, [], []) of
        (role, source, label) \<Rightarrow> newWorkbookAccess workbookID who sharing role source label)"
  by (simp add: resolveAccess_def is_owner_def all_grants_def Let_def fold_fold_concat)

lemma fold_promote:
  "fold promote gs best = g \<Longrightarrow>
   (g = best \<or> g \<in> set gs) \<and> roleRank (fst best) \<le> roleRank (fst g) \<and> (\<forall>h \<in> set gs. roleRank (fst h) \<le> roleRank (fst g))"
proof (induction gs arbitrary: best)
  case (Cons h gs)
  from Cons.IH [of "promote h best"] Cons.prems show ?case
    by (auto simp: promote_def split: if_splits)
qed simp

lemma newWorkbookAccess_simps [simp]:
  "waRole (newWorkbookAccess w p s role source label) = role"
  "waSource (newWorkbookAccess w p s role source label) = source"
  "waCanRead (newWorkbookAccess w p s role source label) \<longleftrightarrow> Allows role CapabilityRead"
  "waCanComment (newWorkbookAccess w p s role source label) \<longleftrightarrow> Allows role CapabilityComment"
  "waCanWrite (newWorkbookAccess w p s role source label) \<longleftrightarrow> Allows role CapabilityWrite"
  "waCanManage (newWorkbookAccess w p s role source label) \<longleftrightarrow>
     role = RoleOwner \<or> role = RoleEditor \<and> \<not> wsSharingLocked s"
  by (auto simp: newWorkbookAccess_def Let_def roleRank_def role_defs)

section \<open>Properties\<close>

text \<open>When a share row applies to a principal, whatever role it carries.\<close>

definition applies :: "AccessPrincipal \<Rightarrow> (string \<times> string) list \<Rightarrow> WorkbookShare \<Rightarrow> bool" where
  "applies who departmentIDs share =
     (let principalID = to_lower (trim_space (shPrincipalID share)) in
      shPrincipalType share = ''user'' \<and> principalID \<in> set (identities who) \<or>
      shPrincipalType share = ''department'' \<and> principalID \<in> fst ` set departmentIDs \<or>
      shPrincipalType share = ''role'' \<and> principalID \<in> set (roleSet who))"

definition link_applies :: "AccessPrincipal \<Rightarrow> WorkbookSharing \<Rightarrow> bool" where
  "link_applies who sharing =
     (wsLinkAccess sharing \<in> {''organization'', ''anyone''} \<and>
      (apAuthenticated who \<or> trim_space (apUserID who) \<noteq> []))"

lemma share_grants_applies:
  "fst ` set (share_grants (identities who) (roleSet who) departmentIDs share) =
     (if applies who departmentIDs share then {shRole share} else {})"
proof -
  have dep: "map_of departmentIDs x = None \<longleftrightarrow> x \<notin> fst ` set departmentIDs" for x
    by (simp add: map_of_eq_None_iff)
  let ?id = "to_lower (trim_space (shPrincipalID share))"
  consider "shPrincipalType share = ''user''" | "shPrincipalType share = ''role''" | "shPrincipalType share = ''department''"
    | "shPrincipalType share \<notin> {''user'', ''department'', ''role''}" by blast
  then show ?thesis
  proof cases
    case 1
    then show ?thesis by (auto simp: share_grants_def applies_def Let_def image_def)
  next
    case 2
    then show ?thesis by (auto simp: share_grants_def applies_def Let_def image_def)
  next
    case 3
    then show ?thesis
      using dep [of ?id] by (cases "map_of departmentIDs ?id") (simp_all add: share_grants_def applies_def Let_def)
  next
    case 4
    then show ?thesis by (simp add: share_grants_def applies_def Let_def)
  qed
qed

lemma all_grants_roles:
  "fst ` set (all_grants who sharing departmentIDs) =
     shRole ` {share \<in> set (wsShares sharing). applies who departmentIDs share} \<union>
     (if link_applies who sharing then {wsLinkRole sharing} else {})"
proof -
  have "fst ` set (link_grants who sharing) = (if link_applies who sharing then {wsLinkRole sharing} else {})"
    by (auto simp: link_grants_def link_applies_def)
  moreover have "fst ` set (concat (map (share_grants (identities who) (roleSet who) departmentIDs) shares)) =
      shRole ` {share \<in> set shares. applies who departmentIDs share}" for shares
    by (induction shares) (auto simp: image_Un share_grants_applies split: if_splits)
  ultimately show ?thesis by (simp add: all_grants_def image_Un)
qed

lemma resolved_best:
  assumes "\<not> is_owner who sharing" "\<not> apAdmin who"
    and "waRole (resolveAccess workbookID who sharing departmentIDs) = role"
  shows "role = RoleNone \<or> role \<in> fst ` set (all_grants who sharing departmentIDs)"
    "\<forall>r \<in> fst ` set (all_grants who sharing departmentIDs). roleRank r \<le> roleRank role"
proof -
  obtain source label where f: "fold promote (all_grants who sharing departmentIDs) (RoleNone, [], []) = (role, source, label)"
    using assms by (auto simp: resolveAccess_grants split: prod.splits)
  note best = fold_promote [OF f]
  show "role = RoleNone \<or> role \<in> fst ` set (all_grants who sharing departmentIDs)"
    using best by force
  show "\<forall>r \<in> fst ` set (all_grants who sharing departmentIDs). roleRank r \<le> roleRank role"
    using best by auto
qed

lemma resolved_at_least:
  assumes "share \<in> set (wsShares sharing)" "applies who departmentIDs share"
  shows "roleRank (shRole share) \<le> roleRank (waRole (resolveAccess workbookID who sharing departmentIDs))"
proof (cases "is_owner who sharing \<or> apAdmin who")
  case True
  then have "waRole (resolveAccess workbookID who sharing departmentIDs) = RoleOwner"
    by (auto simp: resolveAccess_grants)
  then show ?thesis by (simp add: roleRank_le)
next
  case False
  then show ?thesis
    using resolved_best(2) [OF _ _ refl, of who sharing departmentIDs workbookID] assms
    by (auto simp: all_grants_roles)
qed

lemma owner_role_iff:
  assumes "\<forall>share. share \<in> set (wsShares sharing) \<longrightarrow> AssignableShareRole (shRole share)"
    and "AssignableShareRole (wsLinkRole sharing)"
    and "resolveAccess workbookID who sharing departmentIDs = access"
  shows "(waRole access = RoleOwner \<longleftrightarrow> is_owner who sharing \<or> apAdmin who) \<and>
    (waCanManage access \<longleftrightarrow> is_owner who sharing \<or> apAdmin who \<or>
       waRole access = RoleEditor \<and> \<not> wsSharingLocked sharing)"
proof -
  have role: "waRole access = RoleOwner \<longleftrightarrow> is_owner who sharing \<or> apAdmin who"
  proof (cases "is_owner who sharing \<or> apAdmin who")
    case True
    then show ?thesis using assms(3) by (auto simp: resolveAccess_grants)
  next
    case False
    then have "roleRank (waRole access) \<le> 3"
      using assms resolved_best(1) [of who sharing workbookID departmentIDs "waRole access"]
      by (auto simp: all_grants_roles dest!: assignable_rank split: if_splits)
    with False show ?thesis by auto
  qed
  obtain r s l where a: "access = newWorkbookAccess workbookID who sharing r s l"
    using assms(3) by (auto simp: resolveAccess_grants split: if_splits prod.splits)
  show ?thesis using role unfolding a by auto
qed

text \<open>
  C30. The decision keeps the strongest grant: for a principal who is neither owner nor
  administrator, the resolved role is none or that of a share row or link that applies to
  them, and no share row or link that applies to them carries a stronger one.
\<close>

theorem access_is_strongest_grant:
  assumes "\<not> is_owner who sharing" "\<not> apAdmin who"
    and "waRole (resolveAccess workbookID who sharing departmentIDs) = role"
  shows "(role = RoleNone \<or>
      (\<exists>share. share \<in> set (wsShares sharing) \<and> applies who departmentIDs share \<and> shRole share = role) \<or>
      link_applies who sharing \<and> wsLinkRole sharing = role) \<and>
    (\<forall>share. share \<in> set (wsShares sharing) \<longrightarrow> applies who departmentIDs share \<longrightarrow>
       roleRank (shRole share) \<le> roleRank role) \<and>
    (link_applies who sharing \<longrightarrow> roleRank (wsLinkRole sharing) \<le> roleRank role)"
  using resolved_best [OF assms] by (auto simp: all_grants_roles split: if_splits)

definition sample_share :: "string \<Rightarrow> string \<Rightarrow> ShareRole \<Rightarrow> WorkbookShare" where
  "sample_share ptype pid role = \<lparr>shID = pid, shWorkbookID = ''wb'', shPrincipalType = ptype, shPrincipalID = pid,
     shPrincipalLabel = [], shRole = role, shRevision = 1, shCreatedBy = [], shCreatedAt = 0, shUpdatedAt = 0\<rparr>"

definition sample_sharing :: "bool \<Rightarrow> WorkbookSharing" where
  "sample_sharing locked = \<lparr>wsWorkbookID = ''wb'', wsOwnerID = ''boss'', wsLinkAccess = ''organization'',
     wsLinkRole = RoleViewer, wsSharingLocked = locked, wsViewerCanCopy = False,
     wsShares = [sample_share ''user'' ''Ann'' RoleCommenter, sample_share ''department'' ''d1'' RoleEditor]\<rparr>"

definition ann :: AccessPrincipal where
  "ann = \<lparr>apUserID = ''ann'', apEmail = [], apRoles = [], apAdmin = False, apAuthenticated = True\<rparr>"

theorem access_is_strongest_grant_witness:
  "waRole (resolveAccess ''wb'' ann (sample_sharing True) [(''d1'', ''Sales'')]) = RoleEditor \<and>
   {share \<in> set (wsShares (sample_sharing True)). applies ann [(''d1'', ''Sales'')] share} \<subseteq>
     {share. roleRank (shRole share) \<le> roleRank RoleEditor}"
proof -
  have h: "\<not> is_owner ann (sample_sharing True)" "\<not> apAdmin ann"
    "waRole (resolveAccess ''wb'' ann (sample_sharing True) [(''d1'', ''Sales'')]) = RoleEditor"
    by code_simp+
  from access_is_strongest_grant [OF h] h(3) show ?thesis by blast
qed

text \<open>
  A share never makes an owner: while the stored share rows and the link carry only roles
  that can be assigned, the owner role is resolved exactly for the owner and administrators.
  Each capability includes the weaker ones, and the right to manage sharing belongs to the
  owner role alone once sharing is locked, but to editors too while it is not.
\<close>

lemma owner_role_only_for_owner:
  assumes "\<forall>share. share \<in> set (wsShares sharing) \<longrightarrow> AssignableShareRole (shRole share)"
    and "AssignableShareRole (wsLinkRole sharing)"
    and "resolveAccess workbookID who sharing departmentIDs = access"
  shows "(waRole access = RoleOwner \<longleftrightarrow> is_owner who sharing \<or> apAdmin who) \<and>
    (waCanManage access \<longleftrightarrow> is_owner who sharing \<or> apAdmin who \<or>
       waRole access = RoleEditor \<and> \<not> wsSharingLocked sharing) \<and>
    (waCanManage access \<longrightarrow> waCanWrite access) \<and> (waCanWrite access \<longrightarrow> waCanComment access) \<and>
    (waCanComment access \<longrightarrow> waCanRead access)"
proof -
  obtain r s l where a: "access = newWorkbookAccess workbookID who sharing r s l"
    using assms(3) by (auto simp: resolveAccess_grants split: if_splits prod.splits)
  from owner_role_iff [OF assms] show ?thesis unfolding a by auto
qed

end
