(* ===== verification/Forest.thy ===== *)
theory Forest
  imports Prelude
begin

text \<open>
  The interface between a table whose rows name a parent row and the code that walks up the
  parents. The walks of the sources are loops without a bound; they return because the table
  never holds a cycle. The interface is a table in every state the invariant admits; its law
  is that the invariant excludes cycles, and its lemmas are that a walk returns, that it
  visits exactly the ancestors and none of them twice.
\<close>

text \<open>
  The walk: the keys from \<open>k\<close> upwards while the table knows them. \<open>None\<close> is a walk that never
  returns.
\<close>

partial_function (option) walk :: "('k \<Rightarrow> 'k option) \<Rightarrow> 'k \<Rightarrow> 'k list option" where
  [code]: "walk parent k =
     (case parent k of
        None \<Rightarrow> Some [k]
      | Some p \<Rightarrow> Option.bind (walk parent p) (\<lambda>ks. Some (k # ks)))"

definition parent_rel :: "('k \<Rightarrow> 'k option) \<Rightarrow> ('k \<times> 'k) set" where
  "parent_rel parent = {(k, p). parent k = Some p}"

lemma walk_root: "parent k = None \<Longrightarrow> walk parent k = Some [k]"
  by (subst walk.simps) simp

lemma walk_step: "parent k = Some p \<Longrightarrow> walk parent p = Some ks \<Longrightarrow> walk parent k = Some (k # ks)"
  by (subst walk.simps) simp

lemma walk_up:
  assumes "walk parent k = Some ks" "(k, a) \<in> (parent_rel parent)\<^sup>*"
  shows "a \<in> set ks"
  using assms(2,1)
proof (induction arbitrary: ks rule: converse_rtrancl_induct)
  case base
  then show ?case by (cases ks) (auto simp: walk.simps [of parent a] split: option.splits bind_splits)
next
  case (step k p)
  then have "parent k = Some p" by (simp add: parent_rel_def)
  with step show ?case by (auto simp: walk.simps [of parent k] split: option.splits bind_splits)
qed

lemma walk_only_up:
  assumes "walk parent k = Some ks" "a \<in> set ks"
  shows "(k, a) \<in> (parent_rel parent)\<^sup>*"
  using assms
proof (induction ks arbitrary: k)
  case (Cons k' ks)
  show ?case
  proof (cases "parent k")
    case None
    with Cons.prems show ?thesis by (simp add: walk_root)
  next
    case (Some p)
    then obtain ps where p: "walk parent p = Some ps" "k' = k" "ks = ps"
      using Cons.prems(1) by (auto simp: walk.simps [of parent k] split: option.splits bind_splits)
    have e: "(k, p) \<in> parent_rel parent" using Some by (simp add: parent_rel_def)
    show ?thesis
    proof (cases "a = k")
      case False
      then have "(p, a) \<in> (parent_rel parent)\<^sup>*" using Cons p by auto
      with e show ?thesis by (rule converse_rtrancl_into_rtrancl)
    qed simp
  qed
qed simp

locale parent_forest =
  fixes inv :: "'s \<Rightarrow> bool"
    and parent :: "'s \<Rightarrow> 'k \<Rightarrow> 'k option"
  assumes finite_parents: "inv s \<Longrightarrow> finite (dom (parent s))"
    and no_cycle: "inv s \<Longrightarrow> acyclic (parent_rel (parent s))"
begin

lemma wf_parents: "inv s \<Longrightarrow> wf ((parent_rel (parent s))\<inverse>)"
proof -
  assume i: "inv s"
  have "parent_rel (parent s) \<subseteq> (\<lambda>k. (k, the (parent s k))) ` dom (parent s)"
    by (auto simp: parent_rel_def image_iff)
  then have "finite (parent_rel (parent s))"
    using finite_parents [OF i] finite_subset by blast
  then show ?thesis using no_cycle [OF i] by (simp add: finite_acyclic_wf_converse)
qed

lemma walk_returns:
  assumes "inv s"
  shows "\<exists>ks. walk (parent s) k = Some ks"
proof (induction k rule: wf_induct_rule [OF wf_parents [OF assms]])
  case (1 k)
  show ?case
  proof (cases "parent s k")
    case (Some p)
    with 1 [of p] obtain ks where "walk (parent s) p = Some ks" by (auto simp: parent_rel_def)
    with Some show ?thesis by (auto intro: walk_step)
  qed (auto intro: walk_root)
qed

lemma walk_set:
  assumes "inv s" "walk (parent s) k = Some ks"
  shows "set ks = {a. (k, a) \<in> (parent_rel (parent s))\<^sup>*}"
  using walk_up [OF assms(2)] walk_only_up [OF assms(2)] by blast

lemma walk_distinct: "inv s \<Longrightarrow> walk (parent s) k = Some ks \<Longrightarrow> distinct ks"
proof (induction ks arbitrary: k)
  case (Cons k' ks)
  show ?case
  proof (cases "parent s k")
    case None
    with Cons.prems show ?thesis by (simp add: walk_root)
  next
    case (Some p)
    then obtain ps where p: "walk (parent s) p = Some ps" "k' = k" "ks = ps"
      using Cons.prems(2) by (auto simp: walk.simps [of "parent s" k] split: option.splits bind_splits)
    have "k \<notin> set ps"
    proof
      assume "k \<in> set ps"
      then have "(p, k) \<in> (parent_rel (parent s))\<^sup>*" by (rule walk_only_up [OF p(1)])
      then have "(k, k) \<in> (parent_rel (parent s))\<^sup>+"
        using Some by (intro rtrancl_into_trancl2) (auto simp: parent_rel_def)
      with no_cycle [OF Cons.prems(1)] show False by (simp add: acyclic_def)
    qed
    with Cons p show ?thesis by simp
  qed
qed simp

end

text \<open>Hanging a row under a parent whose ancestors do not include it keeps the table free of cycles.\<close>

lemma acyclic_hang:
  assumes "acyclic (parent_rel parent)" "walk parent p = Some ks" "k \<notin> set ks"
  shows "acyclic (parent_rel (parent(k \<mapsto> p)))"
proof -
  let ?r = "parent_rel (parent(k := None))"
  have sub: "?r \<subseteq> parent_rel parent" by (auto simp: parent_rel_def split: if_splits)
  have "(p, k) \<notin> ?r\<^sup>*"
    using walk_up [OF assms(2)] assms(3) rtrancl_mono [OF sub] by blast
  moreover have "acyclic ?r" by (rule acyclic_subset [OF assms(1) sub])
  moreover have "parent_rel (parent(k \<mapsto> p)) = insert (k, p) ?r"
    by (auto simp: parent_rel_def split: if_splits)
  ultimately show ?thesis by (simp add: acyclic_insert)
qed

lemma acyclic_cut: "acyclic (parent_rel parent) \<Longrightarrow> acyclic (parent_rel (parent(k := None)))"
  by (rule acyclic_subset) (auto simp: parent_rel_def split: if_splits)

text \<open>A table all of whose walks return has no cycle.\<close>

lemma walk_length:
  assumes "(k, a) \<in> (parent_rel parent)\<^sup>+" "walk parent k = Some ks" "walk parent a = Some as"
  shows "length as < length ks"
  using assms
proof (induction arbitrary: ks rule: converse_trancl_induct)
  case (base k)
  then show ?case by (auto simp: parent_rel_def walk.simps [of parent k] split: bind_splits)
next
  case (step k p)
  then obtain ps where "walk parent p = Some ps" "ks = k # ps"
    by (auto simp: parent_rel_def walk.simps [of parent k] split: bind_splits)
  with step show ?case by auto
qed

lemma acyclic_if_walks:
  assumes "\<And>k. parent k \<noteq> None \<Longrightarrow> walk parent k \<noteq> None"
  shows "acyclic (parent_rel parent)"
  unfolding acyclic_def
proof (intro allI notI)
  fix k
  assume c: "(k, k) \<in> (parent_rel parent)\<^sup>+"
  then have "parent k \<noteq> None" by (auto simp: parent_rel_def dest: tranclD)
  with assms obtain ks where "walk parent k = Some ks" by blast
  with walk_length [OF c] show False by blast
qed

end
