(* ===== verification/Departments.thy ===== *)
theory Departments
  imports Sharing Forest
begin

text \<open>
  Departments, their members and managers: the department half of
  \<^verbatim>\<open>internal/workbook/memory_sharing.go\<close>. The maps of the in-memory repository are
  association lists. Three loops of the code climb from a department to its parent without a
  bound on the steps; they are partial functions here, \<open>None\<close> is a loop that never returns,
  and that they return in every state the operations can produce is proved. A fresh
  identifier and the clock are arguments.
\<close>

section \<open>State\<close>

record Department =
  dpID :: string
  dpParentID :: string
  dpName :: string
  dpDescription :: string
  dpPath :: string
  dpDepth :: nat
  dpMemberCount :: nat
  dpMembers :: "string list"
  dpManagers :: "string list"
  dpRevision :: int
  dpCreatedBy :: string
  dpCreatedAt :: int
  dpUpdatedAt :: int

type_synonym departments = "(string \<times> Department) list"

record repository =
  rpWorkbooks :: "(string \<times> Workbook) list"
  rpShares :: "(string \<times> (string \<times> WorkbookShare) list) list"
  rpDepartments :: departments
  rpMembers :: "(string \<times> string list) list"
  rpManagers :: "(string \<times> string list) list"
  rpAccessRequests :: "(string \<times> AccessRequest) list"

text \<open>Reading a Go map of slices or maps: a missing key reads as empty.\<close>

definition slice_at :: "('k \<times> 'v list) list \<Rightarrow> 'k \<Rightarrow> 'v list" where
  "slice_at m k = (case map_of m k of Some xs \<Rightarrow> xs | None \<Rightarrow> [])"

section \<open>Climbing\<close>

function depthLoop :: "departments \<Rightarrow> nat \<Rightarrow> string \<Rightarrow> nat" where
  "depthLoop deps depth i =
     (case map_of deps i of
        None \<Rightarrow> depth
      | Some cursor \<Rightarrow>
          if dpParentID cursor = [] then depth
          else if depth + 1 > MaxDepartmentDepth then depth + 1
          else depthLoop deps (depth + 1) (dpParentID cursor))"
  by pat_completeness auto
termination
  by (relation "measure (\<lambda>(_, depth, _). Suc MaxDepartmentDepth - depth)") auto

declare depthLoop.simps [simp del]

definition departmentDepthLocked :: "departments \<Rightarrow> string \<Rightarrow> nat" where
  "departmentDepthLocked deps i = depthLoop deps 0 i"

partial_function (option) pathLoop :: "departments \<Rightarrow> string list \<Rightarrow> string \<Rightarrow> string list option" where
  [code]: "pathLoop deps names i =
     (case map_of deps i of
        None \<Rightarrow> Some names
      | Some cursor \<Rightarrow>
          if dpParentID cursor = [] then Some (dpName cursor # names)
          else pathLoop deps (dpName cursor # names) (dpParentID cursor))"

definition departmentPathLocked :: "departments \<Rightarrow> string \<Rightarrow> string option" where
  "departmentPathLocked deps i = map_option (join '' / '') (pathLoop deps [] i)"

partial_function (option) closureLoop ::
  "departments \<Rightarrow> (string \<times> string) list \<Rightarrow> Department \<Rightarrow> (string \<times> string) list option" where
  [code]: "closureLoop deps closure cursor =
     (case map_of deps (dpParentID cursor) of
        None \<Rightarrow> Some (AList.update (to_lower (dpID cursor)) (dpName cursor) closure)
      | Some parent \<Rightarrow> closureLoop deps (AList.update (to_lower (dpID cursor)) (dpName cursor) closure) parent)"

partial_function (option) descendantLoop :: "departments \<Rightarrow> string \<Rightarrow> string \<Rightarrow> bool option" where
  [code]: "descendantLoop deps i key =
     (case map_of deps key of
        None \<Rightarrow> Some False
      | Some cursor \<Rightarrow>
          if dpID cursor = i then Some True
          else if dpParentID cursor = [] then Some False
          else descendantLoop deps i (dpParentID cursor))"

fun fold_option :: "('a \<Rightarrow> 'b \<Rightarrow> 'b option) \<Rightarrow> 'a list \<Rightarrow> 'b \<Rightarrow> 'b option" where
  "fold_option f [] acc = Some acc"
| "fold_option f (x # xs) acc = Option.bind (f x acc) (fold_option f xs)"

text \<open>
  The closure of a principal: for every department, every member entry and every identity that
  match, the climb from that department.
\<close>

definition departmentClosureLocked :: "repository \<Rightarrow> AccessPrincipal \<Rightarrow> (string \<times> string) list option" where
  "departmentClosureLocked r who =
     (let ids = identities who in
      if ids = [] then Some []
      else fold_option (\<lambda>(i, department). fold_option (\<lambda>member. fold_option (\<lambda>identity closure.
               if to_lower member \<noteq> identity then Some closure
               else closureLoop (rpDepartments r) closure department) ids)
             (slice_at (rpMembers r) i)) (rpDepartments r) [])"

section \<open>Reading\<close>

definition departmentLocked :: "repository \<Rightarrow> string \<Rightarrow> Department result option" where
  "departmentLocked r i =
     (case map_of (rpDepartments r) i of
        None \<Rightarrow> Some (Inl ErrNotFound)
      | Some stored \<Rightarrow>
          (let members = sort_key to_lower (slice_at (rpMembers r) i);
               managers = sort_key to_lower (slice_at (rpManagers r) i) in
           map_option (\<lambda>path. Inr (stored\<lparr>dpMembers := members, dpMemberCount := length members,
               dpManagers := managers, dpDepth := departmentDepthLocked (rpDepartments r) i, dpPath := path\<rparr>))
             (departmentPathLocked (rpDepartments r) i)))"

definition GetDepartment :: "repository \<Rightarrow> string \<Rightarrow> Department result option" where
  "GetDepartment r i = departmentLocked r i"

fun list_departments :: "repository \<Rightarrow> string list \<Rightarrow> Department list result option" where
  "list_departments r [] = Some (Inr [])"
| "list_departments r (i # is) =
     (case departmentLocked r i of
        None \<Rightarrow> None
      | Some (Inl e) \<Rightarrow> Some (Inl e)
      | Some (Inr d) \<Rightarrow> map_option (map_sum id (\<lambda>ds. d # ds)) (list_departments r is))"

definition ListDepartments :: "repository \<Rightarrow> Department list result option" where
  "ListDepartments r =
     map_option (map_sum id (sort_key dpPath)) (list_departments r (map fst (rpDepartments r)))"

definition ListDepartmentsForUser :: "repository \<Rightarrow> string \<Rightarrow> Department list result option" where
  "ListDepartmentsForUser r userID =
     (case departmentClosureLocked r \<lparr>apUserID = userID, apEmail = [], apRoles = [], apAdmin = False,
              apAuthenticated = False\<rparr> of
        None \<Rightarrow> None
      | Some closure \<Rightarrow>
          map_option (map_sum id (sort_key dpPath))
            (list_departments r (concat (map (\<lambda>(i, name).
               filter (\<lambda>candidate. equal_fold candidate i) (map fst (rpDepartments r))) closure))))"

section \<open>Changing\<close>

definition CreateDepartment ::
  "string \<Rightarrow> int \<Rightarrow> string \<Rightarrow> string \<Rightarrow> string \<Rightarrow> string \<Rightarrow> repository \<Rightarrow> (Department result \<times> repository) option" where
  "CreateDepartment newID now rawName rawParentID rawDescription actorID r =
     (case validateDepartmentName rawName of
        Inl e \<Rightarrow> Some (Inl e, r)
      | Inr name \<Rightarrow>
     (case validateDepartmentDescription rawDescription of
        Inl e \<Rightarrow> Some (Inl e, r)
      | Inr description \<Rightarrow>
          (let parentID = trim_space rawParentID in
           if parentID \<noteq> [] \<and> map_of (rpDepartments r) parentID = None then Some (Inl ErrNotFound, r)
           else if parentID \<noteq> [] \<and> departmentDepthLocked (rpDepartments r) parentID + 1 \<ge> MaxDepartmentDepth
           then Some (Inl ErrInvalid, r)
           else if list_ex (\<lambda>(_, existing). dpParentID existing = parentID \<and> equal_fold (dpName existing) name)
                     (rpDepartments r)
           then Some (Inl ErrDuplicateName, r)
           else
             (let department = \<lparr>dpID = newID, dpParentID = parentID, dpName = name, dpDescription = description,
                    dpPath = [], dpDepth = 0, dpMemberCount = 0, dpMembers = [], dpManagers = [], dpRevision = 1,
                    dpCreatedBy = actorID, dpCreatedAt = now, dpUpdatedAt = now\<rparr>;
                  r' = r\<lparr>rpDepartments := AList.update newID department (rpDepartments r)\<rparr> in
              map_option (\<lambda>d. (d, r')) (departmentLocked r' newID)))))"

record UpdateDepartmentInput =
  udName :: "string option"
  udParentID :: "string option"
  udDescription :: "string option"
  udExpectedRevision :: int

definition update_name ::
  "departments \<Rightarrow> string \<Rightarrow> string option \<Rightarrow> Department \<Rightarrow> Department result" where
  "update_name deps i newName current =
     (case newName of
        None \<Rightarrow> Inr current
      | Some raw \<Rightarrow>
          bind_result (validateDepartmentName raw) (\<lambda>name.
            if list_ex (\<lambda>(candidateID, existing). candidateID \<noteq> i \<and>
                 dpParentID existing = dpParentID current \<and> equal_fold (dpName existing) name) deps
            then Inl ErrDuplicateName else Inr (current\<lparr>dpName := name\<rparr>)))"

definition update_description :: "string option \<Rightarrow> Department \<Rightarrow> Department result" where
  "update_description newDescription current =
     (case newDescription of
        None \<Rightarrow> Inr current
      | Some raw \<Rightarrow> bind_result (validateDepartmentDescription raw) (\<lambda>d. Inr (current\<lparr>dpDescription := d\<rparr>)))"

definition update_parent :: "departments \<Rightarrow> string \<Rightarrow> string option \<Rightarrow> Department \<Rightarrow> Department result option" where
  "update_parent deps i newParent current =
     (case newParent of
        None \<Rightarrow> Some (Inr current)
      | Some raw \<Rightarrow>
          (let parentID = trim_space raw in
           if equal_fold parentID i then Some (Inl ErrInvalid)
           else if parentID = [] then Some (Inr (current\<lparr>dpParentID := parentID\<rparr>))
           else if map_of deps parentID = None then Some (Inl ErrNotFound)
           else map_option (\<lambda>found. if found then Inl ErrInvalid else Inr (current\<lparr>dpParentID := parentID\<rparr>))
                  (descendantLoop deps i parentID)))"

definition UpdateDepartment ::
  "int \<Rightarrow> string \<Rightarrow> UpdateDepartmentInput \<Rightarrow> repository \<Rightarrow> (Department result \<times> repository) option" where
  "UpdateDepartment now i input r =
     (case map_of (rpDepartments r) i of
        None \<Rightarrow> Some (Inl ErrNotFound, r)
      | Some current \<Rightarrow>
          if udExpectedRevision input > 0 \<and> udExpectedRevision input \<noteq> dpRevision current
          then Some (Inl ErrVersionConflict, r)
          else
            (case bind_result (update_name (rpDepartments r) i (udName input) current)
                    (update_description (udDescription input)) of
               Inl e \<Rightarrow> Some (Inl e, r)
             | Inr named \<Rightarrow>
                 (case update_parent (rpDepartments r) i (udParentID input) named of
                    None \<Rightarrow> None
                  | Some (Inl e) \<Rightarrow> Some (Inl e, r)
                  | Some (Inr moved) \<Rightarrow>
                      (let updated = moved\<lparr>dpRevision := dpRevision moved + 1, dpUpdatedAt := now\<rparr>;
                           r' = r\<lparr>rpDepartments := AList.update i updated (rpDepartments r)\<rparr> in
                       map_option (\<lambda>d. (d, r')) (departmentLocked r' i)))))"

definition DeleteDepartment :: "string \<Rightarrow> repository \<Rightarrow> unit result \<times> repository" where
  "DeleteDepartment i r =
     (if map_of (rpDepartments r) i = None then (Inl ErrNotFound, r)
      else if list_ex (\<lambda>(_, candidate). dpParentID candidate = i) (rpDepartments r) then (Inl ErrInvalid, r)
      else (Inr (),
        r\<lparr>rpDepartments := AList.delete i (rpDepartments r),
          rpMembers := AList.delete i (rpMembers r),
          rpShares := map (\<lambda>(workbookID, shares). (workbookID,
            filter (\<lambda>(key, share). \<not> (shPrincipalType share = ''department'' \<and>
              equal_fold (shPrincipalID share) i)) shares)) (rpShares r)\<rparr>))"

definition add_people :: "string list \<Rightarrow> string list \<Rightarrow> string list" where
  "add_people existing people =
     existing @ filter (\<lambda>p. to_lower p \<notin> set (map to_lower existing)) people"

definition AddDepartmentManagers ::
  "string \<Rightarrow> string list \<Rightarrow> repository \<Rightarrow> (Department result \<times> repository) option" where
  "AddDepartmentManagers i userIDs r =
     (case normalizeMemberIDs userIDs of
        Inl e \<Rightarrow> Some (Inl e, r)
      | Inr managers \<Rightarrow>
          if map_of (rpDepartments r) i = None then Some (Inl ErrNotFound, r)
          else
            (let r' = r\<lparr>rpManagers := AList.update i (add_people (slice_at (rpManagers r) i) managers)
                          (rpManagers r)\<rparr> in
             map_option (\<lambda>d. (d, r')) (departmentLocked r' i)))"

definition RemoveDepartmentManager ::
  "string \<Rightarrow> string \<Rightarrow> repository \<Rightarrow> (Department result \<times> repository) option" where
  "RemoveDepartmentManager i userID r =
     (if map_of (rpDepartments r) i = None then Some (Inl ErrNotFound, r)
      else
        (let r' = r\<lparr>rpManagers := AList.update i
                (filter (\<lambda>m. \<not> equal_fold (trim_space m) (trim_space userID)) (slice_at (rpManagers r) i))
                (rpManagers r)\<rparr> in
         map_option (\<lambda>d. (d, r')) (departmentLocked r' i)))"

definition AddDepartmentMembers ::
  "string \<Rightarrow> string list \<Rightarrow> repository \<Rightarrow> (Department result \<times> repository) option" where
  "AddDepartmentMembers i userIDs r =
     (case normalizeMemberIDs userIDs of
        Inl e \<Rightarrow> Some (Inl e, r)
      | Inr members \<Rightarrow>
          if map_of (rpDepartments r) i = None then Some (Inl ErrNotFound, r)
          else
            (let r' = r\<lparr>rpMembers := AList.update i (add_people (slice_at (rpMembers r) i) members)
                          (rpMembers r)\<rparr> in
             map_option (\<lambda>d. (d, r')) (departmentLocked r' i)))"

definition RemoveDepartmentMember ::
  "string \<Rightarrow> string \<Rightarrow> repository \<Rightarrow> (Department result \<times> repository) option" where
  "RemoveDepartmentMember i userID r =
     (if map_of (rpDepartments r) i = None then Some (Inl ErrNotFound, r)
      else
        (let before = slice_at (rpMembers r) i;
             remaining = filter (\<lambda>m. \<not> equal_fold m (trim_space userID)) before in
         if \<not> list_ex (\<lambda>m. equal_fold m (trim_space userID)) before then Some (Inl ErrNotFound, r)
         else
           (let r' = r\<lparr>rpMembers := AList.update i remaining (rpMembers r)\<rparr> in
            map_option (\<lambda>d. (d, r')) (departmentLocked r' i))))"

section \<open>Delegated management\<close>

text \<open>The closure \<^verbatim>\<open>inScope\<close> of \<^verbatim>\<open>ManagedMembers\<close>, with its step counter.\<close>

function inScope :: "departments \<Rightarrow> string list \<Rightarrow> nat \<Rightarrow> string \<Rightarrow> bool" where
  "inScope deps roots steps i =
     (case map_of deps i of
        None \<Rightarrow> False
      | Some cursor \<Rightarrow>
          if \<not> steps \<le> MaxDepartmentDepth then False
          else if dpID cursor \<in> set roots then True
          else if dpParentID cursor = [] then False
          else inScope deps roots (steps + 1) (dpParentID cursor))"
  by pat_completeness auto
termination
  by (relation "measure (\<lambda>(_, _, steps, _). Suc MaxDepartmentDepth - steps)") auto

declare inScope.simps [simp del]

definition managed_roots :: "repository \<Rightarrow> string \<Rightarrow> string list" where
  "managed_roots r manager =
     map fst (filter (\<lambda>(_, managers). list_ex (\<lambda>c. to_lower (trim_space c) = manager) managers) (rpManagers r))"

fun collect_members :: "string list \<Rightarrow> string list \<Rightarrow> string list" where
  "collect_members acc [] = acc"
| "collect_members acc (m # ms) =
     (let key = to_lower (trim_space m) in
      if key = [] \<or> key \<in> set (map (\<lambda>x. to_lower (trim_space x)) acc) then collect_members acc ms
      else collect_members (acc @ [m]) ms)"

definition ManagedMembers :: "repository \<Rightarrow> string \<Rightarrow> string list" where
  "ManagedMembers r managerID =
     (let manager = to_lower (trim_space managerID) in
      if manager = [] then []
      else
        (let roots = managed_roots r manager in
         if roots = [] then []
         else sort (collect_members []
           (concat (map snd (filter (\<lambda>(i, _). inScope (rpDepartments r) roots 0 i) (rpMembers r)))))))"

section \<open>The department table\<close>

definition dept_parent :: "departments \<Rightarrow> string \<Rightarrow> string option" where
  "dept_parent deps k =
     (case map_of deps k of
        None \<Rightarrow> None
      | Some d \<Rightarrow> if map_of deps (dpParentID d) = None then None else Some (dpParentID d))"

text \<open>
  The invariant of the department table: keys are the identifiers, none is empty, a parent is
  empty or in the table, and the parents have no cycle.
\<close>

definition wf_entry :: "departments \<Rightarrow> string \<Rightarrow> Department \<Rightarrow> bool" where
  "wf_entry deps k d = (dpID d = k \<and> k \<noteq> [] \<and> (dpParentID d = [] \<or> map_of deps (dpParentID d) \<noteq> None))"

definition depts_ok :: "departments \<Rightarrow> bool" where
  "depts_ok deps =
     (distinct (map fst deps) \<and> (\<forall>k d. map_of deps k = Some d \<longrightarrow> wf_entry deps k d) \<and>
      acyclic (parent_rel (dept_parent deps)))"

lemma depts_okD:
  "depts_ok deps \<Longrightarrow> map_of deps k = Some d \<Longrightarrow> dpID d = k"
  "depts_ok deps \<Longrightarrow> map_of deps k = Some d \<Longrightarrow> k \<noteq> []"
  "depts_ok deps \<Longrightarrow> map_of deps k = Some d \<Longrightarrow> dpParentID d \<noteq> [] \<Longrightarrow> map_of deps (dpParentID d) \<noteq> None"
  "depts_ok deps \<Longrightarrow> map_of deps [] = None"
proof -
  assume ok: "depts_ok deps"
  have e: "wf_entry deps k d" if "map_of deps k = Some d" for k d using ok that by (simp only: depts_ok_def)
  show "map_of deps k = Some d \<Longrightarrow> dpID d = k" "map_of deps k = Some d \<Longrightarrow> k \<noteq> []"
    "map_of deps k = Some d \<Longrightarrow> dpParentID d \<noteq> [] \<Longrightarrow> map_of deps (dpParentID d) \<noteq> None"
    using e by (auto simp: wf_entry_def)
  show "map_of deps [] = None" using e [of "[]"] by (cases "map_of deps []") (auto simp: wf_entry_def)
qed

lemma dept_parent_cases:
  assumes "depts_ok deps" "map_of deps k = Some d"
  shows "dept_parent deps k = (if dpParentID d = [] then None else Some (dpParentID d))"
  using assms(2) depts_okD(3) [OF assms] depts_okD(4) [OF assms(1)]
  by (cases "dpParentID d = []") (auto simp: dept_parent_def)

interpretation department_forest: parent_forest depts_ok dept_parent
proof
  fix deps
  assume "depts_ok deps"
  then show "acyclic (parent_rel (dept_parent deps))" by (simp add: depts_ok_def)
  have "dom (dept_parent deps) \<subseteq> dom (map_of deps)" by (auto simp: dept_parent_def split: option.splits)
  then show "finite (dom (dept_parent deps))" by (rule finite_subset) (rule finite_dom_map_of)
qed

section \<open>The climbs return\<close>

lemma walk_cases:
  assumes "depts_ok deps" "map_of deps k = Some d" "walk (dept_parent deps) k = Some ks"
  obtains "dpParentID d = []" "map_of deps (dpParentID d) = None" "ks = [k]"
  | p ks' where "dpParentID d \<noteq> []" "map_of deps (dpParentID d) = Some p"
      "walk (dept_parent deps) (dpParentID d) = Some ks'" "ks = k # ks'"
proof (cases "dpParentID d = []")
  case True
  then have "dept_parent deps k = None" using dept_parent_cases [OF assms(1,2)] by simp
  with True show ?thesis using that(1) assms depts_okD(4) [OF assms(1)] by (simp add: walk_root)
next
  case False
  then have "dept_parent deps k = Some (dpParentID d)" using dept_parent_cases [OF assms(1,2)] by simp
  then show ?thesis
    using that(2) False depts_okD(3) [OF assms(1,2)] assms(3)
    by (auto simp: walk.simps [of _ k] split: bind_splits)
qed

definition dept_name :: "departments \<Rightarrow> string \<Rightarrow> string" where
  "dept_name deps k = (case map_of deps k of Some d \<Rightarrow> dpName d | None \<Rightarrow> [])"

lemma pathLoop_walk:
  assumes "depts_ok deps" "map_of deps k = Some d" "walk (dept_parent deps) k = Some ks"
  shows "pathLoop deps names k = Some (rev (map (dept_name deps) ks) @ names)"
  using assms(2,3)
proof (induction ks arbitrary: k d names)
  case (Cons k' ks)
  from assms(1) Cons.prems show ?case
  proof (cases rule: walk_cases)
    case 1
    with Cons.prems show ?thesis by (simp add: pathLoop.simps [of deps names] dept_name_def)
  next
    case (2 p ks')
    with Cons.IH [of "dpParentID d" p] Cons.prems show ?thesis
      by (simp add: pathLoop.simps [of deps names] dept_name_def)
  qed
qed (auto elim: walk_cases [OF assms(1)])

lemma descendantLoop_walk:
  assumes "depts_ok deps" "map_of deps k = Some d" "walk (dept_parent deps) k = Some ks"
  shows "descendantLoop deps i k = Some (i \<in> set ks)"
  using assms(2,3)
proof (induction ks arbitrary: k d)
  case (Cons k' ks)
  have "dpID d = k" using depts_okD(1) [OF assms(1)] Cons.prems by simp
  from assms(1) Cons.prems show ?case
  proof (cases rule: walk_cases)
    case 1
    with Cons.prems \<open>dpID d = k\<close> show ?thesis by (auto simp: descendantLoop.simps [of deps i])
  next
    case (2 p ks')
    with Cons.IH [of "dpParentID d" p] Cons.prems \<open>dpID d = k\<close> show ?thesis
      by (auto simp: descendantLoop.simps [of deps i k])
  qed
qed (auto elim: walk_cases [OF assms(1)])

lemma closureLoop_walk:
  assumes "depts_ok deps" "map_of deps k = Some d" "walk (dept_parent deps) k = Some ks"
  shows "\<exists>c. closureLoop deps closure d = Some c \<and> fst ` set c = fst ` set closure \<union> to_lower ` set ks"
  using assms(2,3)
proof (induction ks arbitrary: k d closure)
  case (Cons k' ks)
  have i: "dpID d = k" using depts_okD(1) [OF assms(1)] Cons.prems by simp
  from assms(1) Cons.prems show ?case
  proof (cases rule: walk_cases)
    case 1
    with Cons.prems i show ?thesis by (auto simp: closureLoop.simps [of deps closure] dom_update)
  next
    case (2 p ks')
    with Cons.IH [of "dpParentID d" p "AList.update (to_lower (dpID d)) (dpName d) closure"] Cons.prems i
    show ?thesis by (auto simp: closureLoop.simps [of deps closure] dom_update)
  qed
qed (auto elim: walk_cases [OF assms(1)])

lemma departmentPathLocked_returns:
  assumes "depts_ok deps"
  shows "\<exists>path. departmentPathLocked deps k = Some path"
proof (cases "map_of deps k")
  case None
  then show ?thesis by (simp add: departmentPathLocked_def pathLoop.simps)
next
  case (Some d)
  obtain ks where "walk (dept_parent deps) k = Some ks" using department_forest.walk_returns [OF assms] by blast
  with pathLoop_walk [OF assms Some] show ?thesis by (simp add: departmentPathLocked_def)
qed

lemma departmentLocked_returns:
  assumes "depts_ok (rpDepartments r)"
  shows "\<exists>d. departmentLocked r k = Some d"
  using departmentPathLocked_returns [OF assms, of k]
  by (auto simp: departmentLocked_def Let_def split: option.split)


section \<open>The operations keep the forest\<close>

lemma dept_parent_update:
  assumes "depts_ok deps" "k \<noteq> []" "map_of deps k \<noteq> None \<or> (\<forall>k' d'. map_of deps k' = Some d' \<longrightarrow> dpParentID d' \<noteq> k)"
    and "dpParentID d = [] \<or> map_of deps (dpParentID d) \<noteq> None"
  shows "dept_parent (AList.update k d deps) =
    (dept_parent deps)(k := if dpParentID d = [] then None else Some (dpParentID d))"
proof
  fix j
  have e: "map_of deps [] = None" by (rule depts_okD(4) [OF assms(1)])
  show "dept_parent (AList.update k d deps) j =
    ((dept_parent deps)(k := if dpParentID d = [] then None else Some (dpParentID d))) j"
  proof (cases "j = k")
    case True
    with assms(2,4) e show ?thesis by (auto simp: dept_parent_def update_conv')
  next
    case False
    then show ?thesis
      using assms(3) by (auto simp: dept_parent_def update_conv' split: option.splits)
  qed
qed

lemma update_keeps_depts:
  assumes ok: "depts_ok deps" and k: "k \<noteq> []" "dpID d = k"
    and new: "map_of deps k \<noteq> None \<or> (\<forall>k' d'. map_of deps k' = Some d' \<longrightarrow> dpParentID d' \<noteq> k)"
    and parent: "dpParentID d = [] \<or> (map_of deps (dpParentID d) \<noteq> None \<and>
      (\<forall>ks. walk (dept_parent deps) (dpParentID d) = Some ks \<longrightarrow> k \<notin> set ks))"
  shows "depts_ok (AList.update k d deps)"
proof -
  have p: "dpParentID d = [] \<or> map_of deps (dpParentID d) \<noteq> None" using parent by blast
  have "acyclic (parent_rel (dept_parent (AList.update k d deps)))"
  proof (cases "dpParentID d = []")
    case True
    with dept_parent_update [OF ok k(1) new p] acyclic_cut department_forest.no_cycle [OF ok] show ?thesis by simp
  next
    case False
    obtain ks where ks: "walk (dept_parent deps) (dpParentID d) = Some ks"
      using department_forest.walk_returns [OF ok] by blast
    with False parent have "k \<notin> set ks" by blast
    with False ks dept_parent_update [OF ok k(1) new p] acyclic_hang [OF department_forest.no_cycle [OF ok]]
    show ?thesis by simp
  qed
  moreover have "wf_entry (AList.update k d deps) j e" if "map_of (AList.update k d deps) j = Some e" for j e
  proof (cases "j = k")
    case True
    with that have "e = d" by (simp add: update_conv')
    with True p k show ?thesis by (auto simp: wf_entry_def update_conv')
  next
    case False
    with that have "map_of deps j = Some e" by (simp add: update_conv')
    with ok have "wf_entry deps j e" by (simp only: depts_ok_def)
    then show ?thesis by (auto simp: wf_entry_def update_conv')
  qed
  moreover have "distinct (map fst (AList.update k d deps))"
    using ok by (simp add: depts_ok_def distinct_update)
  ultimately show ?thesis unfolding depts_ok_def by blast
qed

lemma delete_keeps_depts:
  assumes ok: "depts_ok deps" and leaf: "\<forall>k' d'. map_of deps k' = Some d' \<longrightarrow> dpParentID d' \<noteq> k"
  shows "depts_ok (AList.delete k deps)"
proof -
  have "dept_parent (AList.delete k deps) = (dept_parent deps)(k := None)"
    using leaf by (auto simp: dept_parent_def delete_conv' fun_eq_iff split: option.splits)
  then have "acyclic (parent_rel (dept_parent (AList.delete k deps)))"
    using acyclic_cut department_forest.no_cycle [OF ok] by simp
  moreover have "wf_entry (AList.delete k deps) j e" if "map_of (AList.delete k deps) j = Some e" for j e
  proof -
    from that have j: "map_of deps j = Some e" "j \<noteq> k" by (auto simp: delete_conv' split: if_splits)
    with ok have "wf_entry deps j e" by (simp only: depts_ok_def)
    with leaf j show ?thesis by (auto simp: wf_entry_def delete_conv')
  qed
  moreover have "distinct (map fst (AList.delete k deps))" using ok by (simp add: depts_ok_def distinct_delete)
  ultimately show ?thesis unfolding depts_ok_def by blast
qed

lemma update_name_keeps:
  "bind_result (update_name deps i nm d) (update_description ds) = Inr d' \<Longrightarrow>
   dpID d' = dpID d \<and> dpParentID d' = dpParentID d"
  by (auto simp: update_name_def update_description_def bind_result_eq_Inr split: option.splits if_splits)

lemma update_parent_returns:
  assumes "depts_ok deps"
  shows "\<exists>res. update_parent deps i newParent e = Some res"
proof -
  have "\<exists>b. descendantLoop deps i p = Some b" if "map_of deps p = Some q" for p q
  proof -
    obtain ks where "walk (dept_parent deps) p = Some ks" using department_forest.walk_returns [OF assms] by blast
    with descendantLoop_walk [OF assms that] show ?thesis by blast
  qed
  then show ?thesis by (fastforce simp: update_parent_def Let_def split: option.splits)
qed

lemma walk_above:
  assumes "depts_ok deps" "map_of deps i = Some d" "dpParentID d \<noteq> []"
    "walk (dept_parent deps) (dpParentID d) = Some ps"
  shows "i \<notin> set ps"
proof -
  have "dept_parent deps i = Some (dpParentID d)" using dept_parent_cases [OF assms(1,2)] assms(3) by simp
  then have "walk (dept_parent deps) i = Some (i # ps)" using assms(4) by (rule walk_step)
  from department_forest.walk_distinct [OF assms(1) this] show ?thesis by simp
qed

lemma update_parent_result:
  assumes "depts_ok deps" "map_of deps i = Some d" "dpID e = i" "dpParentID e = dpParentID d"
    and "update_parent deps i newParent e = Some (Inr e')"
  shows "dpID e' = i \<and> (dpParentID e' = [] \<or> (map_of deps (dpParentID e') \<noteq> None \<and>
    (\<forall>ks. walk (dept_parent deps) (dpParentID e') = Some ks \<longrightarrow> i \<notin> set ks)))"
proof (cases newParent)
  case None
  then have "e' = e" using assms(5) by (simp add: update_parent_def)
  with assms(3,4) depts_okD(3) [OF assms(1,2)] walk_above [OF assms(1,2)] show ?thesis by (cases "dpParentID d = []") auto
next
  case (Some raw)
  let ?p = "trim_space raw"
  have "?p = [] \<or> map_of deps ?p \<noteq> None \<and> descendantLoop deps i ?p = Some False" and e': "e' = e\<lparr>dpParentID := ?p\<rparr>"
    using assms(5) Some by (auto simp: update_parent_def Let_def split: if_splits)
  then consider "?p = []" | q where "map_of deps ?p = Some q" "descendantLoop deps i ?p = Some False" by blast
  then show ?thesis
  proof cases
    case 2
    from descendantLoop_walk [OF assms(1) 2(1), of _ i] 2 e' assms(3) show ?thesis by auto
  qed (use e' assms(3) in simp)
qed

definition depts_valid :: "repository \<Rightarrow> bool" where
  "depts_valid r = depts_ok (rpDepartments r)"

lemma CreateDepartment_keeps:
  assumes "depts_valid r" "newID \<noteq> []" "map_of (rpDepartments r) newID = None"
    and "\<forall>k d. map_of (rpDepartments r) k = Some d \<longrightarrow> dpParentID d \<noteq> newID"
  shows "\<exists>res r'. CreateDepartment newID now name parentID description actorID r = Some (res, r') \<and> depts_valid r'"
proof -
  let ?p = "trim_space parentID"
  let ?deps = "rpDepartments r"
  have ok: "depts_ok ?deps" using assms(1) by (simp add: depts_valid_def)
  have leaf: "newID \<notin> set ks" if p: "map_of ?deps ?p = Some d" and ks: "walk (dept_parent ?deps) ?p = Some ks" for d ks
  proof
    assume "newID \<in> set ks"
    then have "(?p, newID) \<in> (parent_rel (dept_parent ?deps))\<^sup>*" by (rule walk_only_up [OF ks])
    then consider "?p = newID" | k where "(k, newID) \<in> parent_rel (dept_parent ?deps)"
      by (meson rtranclE)
    then show False
      using assms(3,4) p by cases (auto simp: parent_rel_def dept_parent_def split: option.splits if_splits)
  qed
  have upd: "depts_ok (AList.update newID d ?deps)"
    if "dpID d = newID" "dpParentID d = ?p" "?p \<noteq> [] \<Longrightarrow> map_of ?deps ?p \<noteq> None" for d
    by (rule update_keeps_depts [OF ok assms(2)]) (use that assms(3,4) leaf in auto)
  show ?thesis
  proof (cases "\<exists>e. CreateDepartment newID now name parentID description actorID r = Some (Inl e, r)")
    case True
    then show ?thesis using assms(1) by blast
  next
    case False
    then obtain nm ds where v: "validateDepartmentName name = Inr nm" "validateDepartmentDescription description = Inr ds"
      by (auto simp: CreateDepartment_def split: sum.splits)
    let ?d = "\<lparr>dpID = newID, dpParentID = ?p, dpName = nm, dpDescription = ds,
      dpPath = [], dpDepth = 0, dpMemberCount = 0, dpMembers = [], dpManagers = [], dpRevision = 1,
      dpCreatedBy = actorID, dpCreatedAt = now, dpUpdatedAt = now\<rparr>"
    let ?r = "r\<lparr>rpDepartments := AList.update newID ?d ?deps\<rparr>"
    have p: "?p \<noteq> [] \<Longrightarrow> map_of ?deps ?p \<noteq> None"
      using False v by (auto simp: CreateDepartment_def Let_def split: if_splits)
    have ok': "depts_ok (rpDepartments ?r)" using upd [of ?d] p by simp
    have "CreateDepartment newID now name parentID description actorID r = map_option (\<lambda>d. (d, ?r)) (departmentLocked ?r newID)"
      using False v by (auto simp: CreateDepartment_def Let_def split: if_splits)
    with departmentLocked_returns [OF ok', of newID] ok' show ?thesis by (auto simp: depts_valid_def)
  qed
qed

lemma UpdateDepartment_keeps:
  assumes "depts_valid r"
  shows "\<exists>res r'. UpdateDepartment now i input r = Some (res, r') \<and> depts_valid r'"
proof -
  let ?deps = "rpDepartments r"
  have ok: "depts_ok ?deps" using assms by (simp add: depts_valid_def)
  show ?thesis
  proof (cases "map_of ?deps i")
    case None
    with assms show ?thesis by (simp add: UpdateDepartment_def)
  next
    case (Some d)
    show ?thesis
    proof (cases "udExpectedRevision input > 0 \<and> udExpectedRevision input \<noteq> dpRevision d")
      case True
      with assms Some show ?thesis by (simp add: UpdateDepartment_def)
    next
      case rev: False
      show ?thesis
      proof (cases "bind_result (update_name ?deps i (udName input) d) (update_description (udDescription input))")
        case (Inl e)
        with assms Some rev show ?thesis by (simp add: UpdateDepartment_def)
      next
        case (Inr e)
        with update_name_keeps [OF Inr] depts_okD(1) [OF ok Some]
        have "dpID e = i" "dpParentID e = dpParentID d" by simp_all
        note e = this
        obtain res where res: "update_parent ?deps i (udParentID input) e = Some res"
          using update_parent_returns [OF ok] by blast
        show ?thesis
        proof (cases res)
          case (Inl err)
          with assms Some rev Inr res show ?thesis by (auto simp: UpdateDepartment_def)
        next
          case (Inr e')
          let ?e = "e'\<lparr>dpRevision := dpRevision e' + 1, dpUpdatedAt := now\<rparr>"
          let ?r = "r\<lparr>rpDepartments := AList.update i ?e ?deps\<rparr>"
          have "depts_ok (AList.update i ?e ?deps)"
            by (rule update_keeps_depts [OF ok depts_okD(2) [OF ok Some]])
              (use update_parent_result [OF ok Some e res [unfolded Inr]] Some in simp_all)
          then have ok': "depts_ok (rpDepartments ?r)" by simp
          have "UpdateDepartment now i input r = map_option (\<lambda>d. (d, ?r)) (departmentLocked ?r i)"
            by (simp only: UpdateDepartment_def Some option.case rev if_False \<open>bind_result _ _ = Inr e\<close> sum.case
              res(1) Inr Let_def)
          with departmentLocked_returns [OF ok', of i] ok' show ?thesis by (auto simp: depts_valid_def)
        qed
      qed
    qed
  qed
qed

lemma DeleteDepartment_keeps:
  assumes "depts_valid r"
  shows "depts_valid (snd (DeleteDepartment i r))"
proof (cases "map_of (rpDepartments r) i = None \<or> list_ex (\<lambda>(_, candidate). dpParentID candidate = i) (rpDepartments r)")
  case True
  with assms show ?thesis by (auto simp: DeleteDepartment_def)
next
  case False
  then have "\<forall>k' d'. map_of (rpDepartments r) k' = Some d' \<longrightarrow> dpParentID d' \<noteq> i"
    by (auto simp: list_ex_iff dest!: map_of_SomeD)
  with assms False show ?thesis
    by (auto simp: DeleteDepartment_def depts_valid_def intro: delete_keeps_depts)
qed

section \<open>The departments a principal belongs to\<close>

definition member_of :: "repository \<Rightarrow> AccessPrincipal \<Rightarrow> string \<Rightarrow> bool" where
  "member_of r who i =
     (map_of (rpDepartments r) i \<noteq> None \<and>
      (\<exists>m \<in> set (slice_at (rpMembers r) i). to_lower m \<in> set (identities who)))"

definition above :: "repository \<Rightarrow> string \<Rightarrow> string set" where
  "above r i = {a. (i, a) \<in> (parent_rel (dept_parent (rpDepartments r)))\<^sup>*}"

lemma fold_option_keys:
  assumes "\<And>x acc. x \<in> set xs \<Longrightarrow> \<exists>acc'. f x acc = Some acc' \<and> fst ` set acc' = fst ` set acc \<union> g x"
  shows "\<exists>acc'. fold_option f xs acc = Some acc' \<and> fst ` set acc' = fst ` set acc \<union> (\<Union>x \<in> set xs. g x)"
  using assms
proof (induction xs arbitrary: acc)
  case (Cons x xs)
  obtain a where a: "f x acc = Some a" "fst ` set a = fst ` set acc \<union> g x" using Cons.prems [of x acc] by auto
  from Cons.IH [of a] Cons.prems obtain b
    where "fold_option f xs a = Some b" "fst ` set b = fst ` set a \<union> (\<Union>x \<in> set xs. g x)" by auto
  with a show ?case by auto
qed simp

lemma closure_of_department:
  assumes "depts_valid r" "map_of (rpDepartments r) i = Some d"
  shows "\<exists>c. closureLoop (rpDepartments r) closure d = Some c \<and> fst ` set c = fst ` set closure \<union> to_lower ` above r i"
proof -
  have ok: "depts_ok (rpDepartments r)" using assms(1) by (simp add: depts_valid_def)
  obtain ks where ks: "walk (dept_parent (rpDepartments r)) i = Some ks"
    using department_forest.walk_returns [OF ok] by blast
  with closureLoop_walk [OF ok assms(2) ks] department_forest.walk_set [OF ok ks] show ?thesis
    by (simp add: above_def)
qed

lemma departmentClosureLocked_keys:
  assumes "depts_valid r"
  shows "\<exists>c. departmentClosureLocked r who = Some c \<and>
    fst ` set c = to_lower ` (\<Union>i \<in> {i. member_of r who i}. above r i)"
proof (cases "identities who = []")
  case True
  then show ?thesis by (simp add: departmentClosureLocked_def member_of_def)
next
  case False
  let ?deps = "rpDepartments r" and ?ids = "identities who"
  let ?one = "\<lambda>i member identity. if to_lower member \<noteq> identity then {} else to_lower ` above r i"
  have entry: "\<exists>acc'. fold_option (\<lambda>member. fold_option (\<lambda>identity closure.
        if to_lower member \<noteq> identity then Some closure else closureLoop ?deps closure d) ?ids)
      (slice_at (rpMembers r) i) acc = Some acc' \<and>
    fst ` set acc' = fst ` set acc \<union> (\<Union>m \<in> set (slice_at (rpMembers r) i). \<Union>x \<in> set ?ids. ?one i m x)"
    if "map_of ?deps i = Some d" for i d acc
    by (intro fold_option_keys) (use closure_of_department [OF assms that] in auto)
  have distinct: "map_of ?deps i = Some d" if "(i, d) \<in> set ?deps" for i d
    using that assms by (simp add: depts_valid_def depts_ok_def)
  have "\<exists>c. departmentClosureLocked r who = Some c \<and> fst ` set c = fst ` set ([] :: (string \<times> string) list) \<union>
     (\<Union>(i, d) \<in> set ?deps. \<Union>m \<in> set (slice_at (rpMembers r) i). \<Union>x \<in> set ?ids. ?one i m x)"
    unfolding departmentClosureLocked_def Let_def if_not_P [OF False]
    by (rule fold_option_keys) (use entry distinct in \<open>force split: prod.splits\<close>)
  moreover have "(\<Union>(i, d) \<in> set ?deps. \<Union>m \<in> set (slice_at (rpMembers r) i). \<Union>x \<in> set ?ids. ?one i m x) =
     to_lower ` (\<Union>i \<in> {i. member_of r who i}. above r i)"
  proof -
    have each: "(\<Union>m \<in> set (slice_at (rpMembers r) i). \<Union>x \<in> set ?ids. ?one i m x) =
        (if \<exists>m \<in> set (slice_at (rpMembers r) i). to_lower m \<in> set ?ids then to_lower ` above r i else {})" for i
      by (auto split: if_splits)
    have "{i. map_of ?deps i \<noteq> None} = fst ` set ?deps" by (auto simp: map_of_eq_None_iff)
    then have "(\<Union>(i, d) \<in> set ?deps. G i) = (\<Union>i \<in> {i. map_of ?deps i \<noteq> None}. G i)" for G :: "string \<Rightarrow> string set"
      by (simp only:) force
    then show ?thesis unfolding each by (auto simp: member_of_def split: if_splits)
  qed
  ultimately show ?thesis by simp
qed

section \<open>Delegated management\<close>

lemma inScope_walk:
  assumes "depts_ok deps" "map_of deps k = Some d" "walk (dept_parent deps) k = Some ks"
  shows "inScope deps roots steps k = (\<exists>a \<in> set (take (Suc MaxDepartmentDepth - steps) ks). a \<in> set roots)"
  using assms(2,3)
proof (induction ks arbitrary: k d steps)
  case (Cons k' ks)
  have i: "dpID d = k" using depts_okD(1) [OF assms(1)] Cons.prems by simp
  show ?case
  proof (cases "steps \<le> MaxDepartmentDepth")
    case False
    with Cons.prems show ?thesis by (simp add: inScope.simps [of deps roots steps])
  next
    case True
    then have n: "Suc MaxDepartmentDepth - steps = Suc (MaxDepartmentDepth - steps)" by simp
    from assms(1) Cons.prems show ?thesis
    proof (cases rule: walk_cases)
      case 1
      with Cons.prems i True n show ?thesis by (simp add: inScope.simps [of deps roots steps])
    next
      case (2 p ks')
      with Cons.IH [of "dpParentID d" p "steps + 1"] Cons.prems i True n show ?thesis
        by (auto simp: inScope.simps [of deps roots steps])
    qed
  qed
qed (auto elim: walk_cases [OF assms(1)])

abbreviation person_key :: "string \<Rightarrow> string" where
  "person_key m \<equiv> to_lower (trim_space m)"

lemma collect_members_keys:
  "distinct (map person_key acc) \<Longrightarrow> [] \<notin> person_key ` set acc \<Longrightarrow>
   distinct (map person_key (collect_members acc ms)) \<and>
   person_key ` set (collect_members acc ms) = person_key ` set acc \<union> (person_key ` set ms - {[]})"
proof (induction acc ms rule: collect_members.induct)
  case (2 acc m ms)
  show ?case
  proof (cases "person_key m = [] \<or> person_key m \<in> set (map person_key acc)")
    case True
    with 2 show ?thesis by (auto simp: Let_def)
  next
    case False
    have d: "distinct (map person_key (acc @ [m]))" "[] \<notin> person_key ` set (acc @ [m])"
      using 2(3,4) False by (auto dest: sym [of "[]"])
    from 2(2) [OF refl False d] False show ?thesis by (simp add: Let_def insert_Diff_if)
  qed
qed simp

text \<open>The people a manager is in charge of: the members of the departments at or below one they manage.\<close>

definition manages :: "repository \<Rightarrow> string \<Rightarrow> string \<Rightarrow> bool" where
  "manages r managerID a = (\<exists>ms. (a, ms) \<in> set (rpManagers r) \<and> (\<exists>c \<in> set ms. person_key c = person_key managerID))"

definition charge :: "repository \<Rightarrow> string \<Rightarrow> string set" where
  "charge r managerID =
     {m. \<exists>i ms. (i, ms) \<in> set (rpMembers r) \<and> m \<in> set ms \<and> map_of (rpDepartments r) i \<noteq> None \<and>
        (\<exists>a \<in> above r i. manages r managerID a)}"

definition shallow :: "repository \<Rightarrow> bool" where
  "shallow r = (\<forall>i ks. walk (dept_parent (rpDepartments r)) i = Some ks \<longrightarrow> length ks \<le> Suc MaxDepartmentDepth)"

lemma managed_roots_set: "set (managed_roots r (person_key managerID)) = {a. manages r managerID a}"
  by (force simp: managed_roots_def manages_def list_ex_iff)

lemma inScope_shallow:
  assumes "depts_valid r" "shallow r"
  shows "inScope (rpDepartments r) roots 0 i \<longleftrightarrow> map_of (rpDepartments r) i \<noteq> None \<and> (\<exists>a \<in> above r i. a \<in> set roots)"
proof (cases "map_of (rpDepartments r) i")
  case None
  then show ?thesis by (simp add: inScope.simps)
next
  case (Some d)
  have ok: "depts_ok (rpDepartments r)" using assms(1) by (simp add: depts_valid_def)
  obtain ks where ks: "walk (dept_parent (rpDepartments r)) i = Some ks"
    using department_forest.walk_returns [OF ok] by blast
  then have "take (Suc MaxDepartmentDepth) ks = ks" using assms(2) by (simp add: shallow_def)
  with inScope_walk [OF ok Some ks, of roots 0] department_forest.walk_set [OF ok ks] Some show ?thesis
    by (simp add: above_def)
qed


section \<open>Properties\<close>

text \<open>
  C33. Departments stay a forest and every operation on them returns: creating a department
  under a fresh identifier, updating one in any way a request can ask for, and deleting one
  leave every department with an existing parent or none, and never close a cycle, so that
  the climbs from a department to its ancestors, which have no bound in the code, come to an
  end in every state the operations produce.
\<close>

theorem departments_stay_forest:
  assumes "depts_valid r" "newID \<noteq> []" "map_of (rpDepartments r) newID = None"
    and "\<forall>k d. map_of (rpDepartments r) k = Some d \<longrightarrow> dpParentID d \<noteq> newID"
  shows "(\<exists>res r'. CreateDepartment newID now name parentID description actorID r = Some (res, r') \<and> depts_valid r') \<and>
    (\<exists>res r'. UpdateDepartment now i input r = Some (res, r') \<and> depts_valid r') \<and>
    depts_valid (snd (DeleteDepartment i r)) \<and>
    (\<exists>closure. departmentClosureLocked r who = Some closure) \<and>
    (\<exists>path. departmentPathLocked (rpDepartments r) i = Some path)"
proof -
  have "\<exists>closure. departmentClosureLocked r who = Some closure" using departmentClosureLocked_keys [OF assms(1)] by blast
  moreover have "\<exists>path. departmentPathLocked (rpDepartments r) i = Some path"
    using departmentPathLocked_returns assms(1) by (simp add: depts_valid_def)
  ultimately show ?thesis
    using CreateDepartment_keeps [OF assms] UpdateDepartment_keeps [OF assms(1)] DeleteDepartment_keeps [OF assms(1)]
    by blast
qed

definition sample_department :: "string \<Rightarrow> string \<Rightarrow> string \<Rightarrow> Department" where
  "sample_department i parentID name = \<lparr>dpID = i, dpParentID = parentID, dpName = name, dpDescription = [],
     dpPath = [], dpDepth = 0, dpMemberCount = 0, dpMembers = [], dpManagers = [], dpRevision = 1,
     dpCreatedBy = [], dpCreatedAt = 0, dpUpdatedAt = 0\<rparr>"

definition sample_repository :: "(string \<times> string) list \<Rightarrow> (string \<times> string list) list \<Rightarrow> (string \<times> string list) list \<Rightarrow> repository" where
  "sample_repository tree members managers = \<lparr>rpWorkbooks = [], rpShares = [],
     rpDepartments = map (\<lambda>(i, p). (i, sample_department i p i)) tree, rpMembers = members,
     rpManagers = managers, rpAccessRequests = []\<rparr>"

definition empty_repository :: repository where
  "empty_repository = sample_repository [] [] []"

definition move_to :: "string \<Rightarrow> UpdateDepartmentInput" where
  "move_to parentID = \<lparr>udName = None, udParentID = Some parentID, udDescription = None, udExpectedRevision = 1\<rparr>"

lemma empty_valid: "depts_valid empty_repository"
  by (simp add: depts_valid_def depts_ok_def empty_repository_def sample_repository_def parent_rel_def dept_parent_def acyclic_def)

text \<open>A check of the invariant that can be run.\<close>

definition check_depts :: "departments \<Rightarrow> bool" where
  "check_depts deps =
     (distinct (map fst deps) \<and> list_all (\<lambda>(k, d). wf_entry deps k d \<and> walk (dept_parent deps) k \<noteq> None) deps)"

lemma check_depts_ok: "check_depts deps \<Longrightarrow> depts_ok deps"
  unfolding depts_ok_def
proof (intro conjI allI impI)
  assume c: "check_depts deps"
  then show "distinct (map fst deps)" by (simp add: check_depts_def)
  fix k d
  assume "map_of deps k = Some d"
  with c show "wf_entry deps k d" by (auto simp: check_depts_def list_all_iff dest: map_of_SomeD)
next
  assume c: "check_depts deps"
  show "acyclic (parent_rel (dept_parent deps))"
  proof (rule acyclic_if_walks)
    fix k
    assume "dept_parent deps k \<noteq> None"
    then obtain d where "map_of deps k = Some d" by (auto simp: dept_parent_def split: option.splits)
    with c show "walk (dept_parent deps) k \<noteq> None"
      by (auto simp: check_depts_def list_all_iff simp del: not_None_eq dest!: map_of_SomeD)
  qed
qed

definition two_levels :: repository where
  "two_levels = sample_repository [(''hq'', []), (''sales'', ''hq'')] [(''sales'', [''Ann''])] [(''hq'', [''boss''])]"

lemma two_levels_valid: "depts_valid two_levels"
  unfolding depts_valid_def by (rule check_depts_ok) code_simp

theorem departments_stay_forest_witness:
  "\<exists>res r'. UpdateDepartment 5 ''hq'' (move_to ''sales'') two_levels = Some (res, r') \<and> depts_valid r' \<and> res = Inl ErrInvalid"
proof -
  have u: "UpdateDepartment 5 ''hq'' (move_to ''sales'') two_levels = Some (Inl ErrInvalid, two_levels)"
    and f: "map_of (rpDepartments two_levels) ''new'' = None" "list_all (\<lambda>(_, d). dpParentID d \<noteq> ''new'') (rpDepartments two_levels)"
    by code_simp+
  have "\<forall>k d. map_of (rpDepartments two_levels) k = Some d \<longrightarrow> dpParentID d \<noteq> ''new''"
    using f(2) by (auto simp: list_all_iff dest!: map_of_SomeD)
  from departments_stay_forest [OF two_levels_valid _ f(1) this, of 5 "''x''" "[]" "[]" "[]" "''hq''" "move_to ''sales''" ann]
  show ?thesis unfolding u by simp
qed

text \<open>
  C34. A principal's departments are exactly those they are a member of, under either of their
  identities and whatever the case of the entry, together with all the departments above.
\<close>

theorem closure_is_membership_upwards:
  assumes "depts_valid r" "departmentClosureLocked r who = Some closure"
  shows "fst ` set closure = to_lower ` {a. \<exists>i. member_of r who i \<and> a \<in> above r i}"
proof -
  have "{a. \<exists>i. member_of r who i \<and> a \<in> above r i} = (\<Union>i \<in> {i. member_of r who i}. above r i)" by auto
  with departmentClosureLocked_keys [OF assms(1), of who] assms(2) show ?thesis by auto
qed

theorem closure_is_membership_upwards_witness:
  "departmentClosureLocked two_levels ann = Some [(''sales'', ''sales''), (''hq'', ''hq'')] \<and>
   to_lower ` {a. \<exists>i. member_of two_levels ann i \<and> a \<in> above two_levels i} = {''sales'', ''hq''}"
proof -
  have c: "departmentClosureLocked two_levels ann = Some [(''sales'', ''sales''), (''hq'', ''hq'')]" by code_simp
  from closure_is_membership_upwards [OF two_levels_valid c] c show ?thesis by simp
qed

text \<open>
  A department manager is shown the right people: while no department is more than eight
  levels below a root, the accounts listed for a manager are, each once, exactly those of the
  members of the departments they manage and of all the departments below them.
\<close>

lemma managed_members_exact:
  assumes "depts_valid r" "shallow r" "person_key managerID \<noteq> []"
  shows "person_key ` set (ManagedMembers r managerID) = person_key ` charge r managerID - {[]} \<and>
    distinct (map person_key (ManagedMembers r managerID))"
proof -
  let ?roots = "managed_roots r (person_key managerID)"
  let ?all = "concat (map snd (filter (\<lambda>(i, _). inScope (rpDepartments r) ?roots 0 i) (rpMembers r)))"
  have all: "set ?all = charge r managerID"
    by (force simp: charge_def inScope_shallow [OF assms(1,2)] managed_roots_set)
  have none: "charge r managerID = {}" if "?roots = []"
    using that managed_roots_set [of r managerID] by (auto simp: charge_def)
  have c: "distinct (map person_key (collect_members [] ?all))"
    "person_key ` set (collect_members [] ?all) = person_key ` charge r managerID - {[]}"
    using collect_members_keys [of "[]" ?all] all by simp_all
  have "ManagedMembers r managerID = (if ?roots = [] then [] else sort (collect_members [] ?all))"
    using assms(3) by (simp add: ManagedMembers_def Let_def)
  moreover have "distinct (map person_key (sort (collect_members [] ?all)))"
    using c(1) by (simp add: distinct_map)
  ultimately show ?thesis using c none by simp
qed


lemma walk_in_table:
  assumes "depts_ok deps" "map_of deps k \<noteq> None" "walk (dept_parent deps) k = Some ks"
  shows "set ks \<subseteq> fst ` set deps"
proof
  fix a assume "a \<in> set ks"
  then have "(k, a) \<in> (parent_rel (dept_parent deps))\<^sup>*" by (rule walk_only_up [OF assms(3)])
  then have "map_of deps a \<noteq> None"
    using assms(2) by (cases rule: rtranclE) (auto simp: parent_rel_def dept_parent_def split: option.splits if_splits)
  then show "a \<in> fst ` set deps" by (simp add: map_of_eq_None_iff)
qed

lemma small_table_shallow:
  assumes "depts_valid r" "length (rpDepartments r) \<le> Suc MaxDepartmentDepth"
  shows "shallow r"
  unfolding shallow_def
proof (intro allI impI)
  let ?deps = "rpDepartments r"
  have ok: "depts_ok ?deps" using assms(1) by (simp add: depts_valid_def)
  fix i ks
  assume ks: "walk (dept_parent ?deps) i = Some ks"
  show "length ks \<le> Suc MaxDepartmentDepth"
  proof (cases "map_of ?deps i")
    case None
    then have "ks = [i]" using ks by (simp add: walk_root dept_parent_def)
    then show ?thesis by simp
  next
    case (Some d)
    have "length ks = card (set ks)" using department_forest.walk_distinct [OF ok ks] by (simp add: distinct_card)
    also have "\<dots> \<le> card (fst ` set ?deps)" using walk_in_table [OF ok _ ks] Some by (intro card_mono) simp_all
    also have "\<dots> \<le> length ?deps" by (meson card_image_le card_length finite_set order_trans)
    finally show ?thesis using assms(2) by simp
  qed
qed

definition deep_repository :: repository where
  "deep_repository = sample_repository
     [(''a1'', []), (''a2'', ''a1''), (''a3'', ''a2''), (''a4'', ''a3''), (''a5'', ''a4''), (''a6'', ''a5''),
      (''a7'', ''a6''), (''a8'', ''a7''), (''b1'', []), (''b2'', ''b1'')]
     [(''b2'', [''Ann''])] [(''a1'', [''boss''])]"

text \<open>
  Moving a department escapes the limit on nesting: a ninth level cannot be created, but
  a department with children can be moved below the eighth. The climb that decides what a
  manager is in charge of gives up after nine steps, so the manager of the root is not shown
  the members of the departments that ended up deeper, although the departments are below
  theirs and a workbook shared with the root still reaches those members.
\<close>

lemma moved_department_escapes_manager:
  "map_option fst (CreateDepartment ''b1'' 5 ''b1'' ''a8'' [] [] deep_repository) = Some (Inl ErrInvalid) \<and>
   (case UpdateDepartment 5 ''b1'' (move_to ''a8'') deep_repository of
      Some (Inr d, r') \<Rightarrow> dpDepth d = 8 \<and> ManagedMembers r' ''boss'' = [] \<and>
        (case departmentClosureLocked r' ann of Some closure \<Rightarrow> ''a1'' \<in> fst ` set closure | None \<Rightarrow> False)
    | _ \<Rightarrow> False)"
  by code_simp

definition namesake_repository :: repository where
  "namesake_repository = (sample_repository [(''hq'', []), (''d1'', ''hq''), (''d2'', [])] [] [])
     \<lparr>rpDepartments := [(''hq'', sample_department ''hq'' [] ''HQ''), (''d1'', sample_department ''d1'' ''hq'' ''Sales''),
        (''d2'', sample_department ''d2'' [] ''sales'')]\<rparr>"

text \<open>
  Moving a department can give two siblings the same name: creating a second department of
  that name under the parent is refused as a duplicate, moving one there is not, because the
  names are compared only when the request changes the name, and then with the siblings
  under the old parent.
\<close>

lemma move_makes_namesakes:
  "map_option fst (CreateDepartment ''d3'' 5 ''sales'' ''hq'' [] [] namesake_repository) = Some (Inl ErrDuplicateName) \<and>
   (case UpdateDepartment 5 ''d2'' (move_to ''hq'') namesake_repository of
      Some (Inr d, r') \<Rightarrow> dpPath d = ''HQ / sales'' \<and>
        map (\<lambda>(_, e). (dpParentID e, to_lower (dpName e))) (rpDepartments r') =
          [([], ''hq''), (''hq'', ''sales''), (''hq'', ''sales'')]
    | _ \<Rightarrow> False)"
  by code_simp

end
