(* ===== verification/SharingStore.thy ===== *)
theory SharingStore
  imports Departments
begin

text \<open>
  Sharing a workbook: the sharing half of \<^verbatim>\<open>internal/workbook/memory_sharing.go\<close>
  (share rows, link access, ownership, requests for access) on the state of theory
  \<open>Departments\<close>. Deciding a request for access holds the lock twice with an update of the
  share rows in between; its critical sections are separate definitions, the operation is
  their composition, and the ways two decisions can interleave are a step relation.
\<close>

section \<open>Share rows\<close>

definition share_order :: "WorkbookShare \<Rightarrow> string \<times> string" where
  "share_order share = (shPrincipalType share, to_lower (shPrincipalID share))"

definition sharingLocked :: "repository \<Rightarrow> string \<Rightarrow> WorkbookSharing result" where
  "sharingLocked r workbookID =
     (case map_of (rpWorkbooks r) workbookID of
        None \<Rightarrow> Inl ErrNotFound
      | Some wb \<Rightarrow> Inr
          \<lparr>wsWorkbookID = workbookID, wsOwnerID = wbOwnerID wb,
           wsLinkAccess = (if wbLinkAccess wb = [] then ''restricted'' else wbLinkAccess wb),
           wsLinkRole = (if wbLinkRole wb = RoleNone then RoleViewer else wbLinkRole wb),
           wsSharingLocked = wbSharingLocked wb, wsViewerCanCopy = wbViewerCanCopy wb,
           wsShares = sort_key share_order (map snd (slice_at (rpShares r) workbookID))\<rparr>)"

definition GetWorkbookSharing :: "repository \<Rightarrow> string \<Rightarrow> WorkbookSharing result" where
  "GetWorkbookSharing r workbookID = sharingLocked r workbookID"

definition sharingFromWorkbook :: "Workbook \<Rightarrow> WorkbookShare list \<Rightarrow> WorkbookSharing" where
  "sharingFromWorkbook wb shares =
     \<lparr>wsWorkbookID = wbID wb, wsOwnerID = wbOwnerID wb,
      wsLinkAccess = (if wbLinkAccess wb = [] then ''restricted'' else wbLinkAccess wb),
      wsLinkRole = (if wbLinkRole wb = RoleNone then RoleViewer else wbLinkRole wb),
      wsSharingLocked = wbSharingLocked wb, wsViewerCanCopy = wbViewerCanCopy wb, wsShares = shares\<rparr>"

definition ResolveWorkbookAccess ::
  "repository \<Rightarrow> string \<Rightarrow> AccessPrincipal \<Rightarrow> WorkbookAccess result option" where
  "ResolveWorkbookAccess r workbookID who =
     (case sharingLocked r workbookID of
        Inl e \<Rightarrow> Some (Inl e)
      | Inr sharing \<Rightarrow>
          map_option (\<lambda>departmentIDs. Inr (resolveAccess workbookID who sharing departmentIDs))
            (departmentClosureLocked r who))"

definition UpdateWorkbookSharing ::
  "int \<Rightarrow> string \<Rightarrow> UpdateSharingInput \<Rightarrow> repository \<Rightarrow> WorkbookSharing result \<times> repository" where
  "UpdateWorkbookSharing now workbookID input r =
     (case validateSharingInput input of
        Inl e \<Rightarrow> (Inl e, r)
      | Inr normalized \<Rightarrow>
          (case map_of (rpWorkbooks r) workbookID of
             None \<Rightarrow> (Inl ErrNotFound, r)
           | Some wb \<Rightarrow>
               (let wb' = wb\<lparr>wbLinkAccess := given (usLinkAccess normalized) (wbLinkAccess wb),
                             wbLinkRole := given (usLinkRole normalized) (wbLinkRole wb),
                             wbSharingLocked := given (usSharingLocked normalized) (wbSharingLocked wb),
                             wbViewerCanCopy := given (usViewerCanCopy normalized) (wbViewerCanCopy wb),
                             wbUpdatedAt := now\<rparr>;
                    r' = r\<lparr>rpWorkbooks := AList.update workbookID wb' (rpWorkbooks r)\<rparr> in
                (sharingLocked r' workbookID, r'))))"

definition share_key :: "string \<Rightarrow> string \<Rightarrow> string" where
  "share_key principalType principalID = principalType @ '':'' @ to_lower principalID"

definition put_share :: "string \<Rightarrow> string \<Rightarrow> WorkbookShare \<Rightarrow> repository \<Rightarrow> repository" where
  "put_share workbookID key share r =
     r\<lparr>rpShares := AList.update workbookID (AList.update key share (slice_at (rpShares r) workbookID)) (rpShares r)\<rparr>"

definition PutWorkbookShare ::
  "string \<Rightarrow> int \<Rightarrow> string \<Rightarrow> ShareInput \<Rightarrow> repository \<Rightarrow> WorkbookShare result \<times> repository" where
  "PutWorkbookShare newID now workbookID input r =
     (case validateShareInput input of
        Inl e \<Rightarrow> (Inl e, r)
      | Inr normalized \<Rightarrow>
          (case map_of (rpWorkbooks r) workbookID of
             None \<Rightarrow> (Inl ErrNotFound, r)
           | Some wb \<Rightarrow>
               if siPrincipalType normalized = ''user'' \<and> equal_fold (siPrincipalID normalized) (wbOwnerID wb)
               then (Inl ErrInvalid, r)
               else if siPrincipalType normalized = ''department'' \<and>
                       map_of (rpDepartments r) (siPrincipalID normalized) = None
               then (Inl ErrNotFound, r)
               else
                 (let shares = slice_at (rpShares r) workbookID;
                      key = share_key (siPrincipalType normalized) (siPrincipalID normalized);
                      finish = (\<lambda>share. share\<lparr>shRole := siRole normalized,
                        shPrincipalLabel := siPrincipalLabel normalized, shUpdatedAt := now\<rparr>) in
                  case map_of shares key of
                    None \<Rightarrow>
                      if length shares \<ge> MaxWorkbookShares then (Inl ErrInvalid, r)
                      else
                        (let share = finish \<lparr>shID = newID, shWorkbookID = workbookID,
                               shPrincipalType = siPrincipalType normalized, shPrincipalID = siPrincipalID normalized,
                               shPrincipalLabel = [], shRole = RoleNone, shRevision = 1,
                               shCreatedBy = siActorID normalized, shCreatedAt = now, shUpdatedAt = 0\<rparr> in
                         (Inr share, put_share workbookID key share r))
                  | Some existing \<Rightarrow>
                      (let share = finish (existing\<lparr>shRevision := shRevision existing + 1\<rparr>) in
                       (Inr share, put_share workbookID key share r)))))"

text \<open>
  The first row with the identifier is deleted; a Go map gives the rows in no particular order,
  which does not show because identifiers are unique.
\<close>

definition DeleteWorkbookShare :: "string \<Rightarrow> string \<Rightarrow> repository \<Rightarrow> unit result \<times> repository" where
  "DeleteWorkbookShare workbookID shareID r =
     (let shares = slice_at (rpShares r) workbookID in
      case find (\<lambda>(_, share). shID share = shareID) shares of
        None \<Rightarrow> (Inl ErrNotFound, r)
      | Some (key, _) \<Rightarrow>
          (Inr (), r\<lparr>rpShares := AList.update workbookID (AList.delete key shares) (rpShares r)\<rparr>))"

record TransferOwnershipInput =
  toNewOwnerID :: string
  toKeepAsEditor :: bool
  toActorID :: string

definition TransferWorkbookOwnership ::
  "string \<Rightarrow> int \<Rightarrow> string \<Rightarrow> TransferOwnershipInput \<Rightarrow> repository \<Rightarrow> WorkbookSharing result \<times> repository" where
  "TransferWorkbookOwnership newID now workbookID input r =
     (let newOwner = trim_space (toNewOwnerID input) in
      if newOwner = [] then (Inl ErrInvalid, r)
      else
        (case map_of (rpWorkbooks r) workbookID of
           None \<Rightarrow> (Inl ErrNotFound, r)
         | Some wb \<Rightarrow>
             (let previous = wbOwnerID wb in
              if equal_fold previous newOwner then (sharingLocked r workbookID, r)
              else
                (let r1 = r\<lparr>rpWorkbooks := AList.update workbookID
                              (wb\<lparr>wbOwnerID := newOwner, wbUpdatedAt := now\<rparr>) (rpWorkbooks r),
                            rpShares := AList.update workbookID
                              (AList.delete (share_key ''user'' newOwner) (slice_at (rpShares r) workbookID)) (rpShares r)\<rparr>;
                     key = share_key ''user'' previous;
                     share = (case map_of (slice_at (rpShares r1) workbookID) key of
                         None \<Rightarrow> \<lparr>shID = newID, shWorkbookID = workbookID, shPrincipalType = ''user'',
                           shPrincipalID = previous, shPrincipalLabel = [], shRole = RoleNone, shRevision = 1,
                           shCreatedBy = toActorID input, shCreatedAt = now, shUpdatedAt = 0\<rparr>
                       | Some existing \<Rightarrow> existing\<lparr>shRevision := shRevision existing + 1\<rparr>)
                       \<lparr>shRole := RoleEditor, shUpdatedAt := now\<rparr>;
                     r2 = (if toKeepAsEditor input \<and> trim_space previous \<noteq> [] then put_share workbookID key share r1 else r1) in
                 (sharingLocked r2 workbookID, r2)))))"

section \<open>Requests for access\<close>

definition CreateAccessRequest ::
  "string \<Rightarrow> int \<Rightarrow> string \<Rightarrow> CreateAccessRequestInput \<Rightarrow> repository \<Rightarrow> AccessRequest result \<times> repository" where
  "CreateAccessRequest newID now workbookID input r =
     (case validateAccessRequestInput input of
        Inl e \<Rightarrow> (Inl e, r)
      | Inr normalized \<Rightarrow>
          (case map_of (rpWorkbooks r) workbookID of
             None \<Rightarrow> (Inl ErrNotFound, r)
           | Some wb \<Rightarrow>
               (case find (\<lambda>(_, existing). arWorkbookID existing = workbookID \<and> arStatus existing = ''pending'' \<and>
                         equal_fold (arRequesterID existing) (carRequesterID normalized)) (rpAccessRequests r) of
                  Some (i, existing) \<Rightarrow>
                    (let request = existing\<lparr>arRequestedRole := carRequestedRole normalized,
                           arMessage := carMessage normalized, arCreatedAt := now\<rparr> in
                     (Inr request, r\<lparr>rpAccessRequests := AList.update i request (rpAccessRequests r)\<rparr>))
                | None \<Rightarrow>
                    (let request = \<lparr>arID = newID, arWorkbookID = workbookID, arWorkbookTitle = wbTitle wb,
                           arRequesterID = carRequesterID normalized, arRequesterMail = carRequesterMail normalized,
                           arRequesterName = carRequesterName normalized, arRequestedRole = carRequestedRole normalized,
                           arMessage = carMessage normalized, arStatus = ''pending'', arDecidedBy = [],
                           arDecidedAt = None, arCreatedAt = now\<rparr> in
                     (Inr request, r\<lparr>rpAccessRequests := AList.update newID request (rpAccessRequests r)\<rparr>)))))"

definition ListAccessRequests :: "string \<Rightarrow> bool \<Rightarrow> repository \<Rightarrow> AccessRequest list result" where
  "ListAccessRequests workbookID pendingOnly r =
     (if map_of (rpWorkbooks r) workbookID = None then Inl ErrNotFound
      else Inr (sort_key (\<lambda>request. - arCreatedAt request)
        (filter (\<lambda>request. arWorkbookID request = workbookID \<and> (pendingOnly \<longrightarrow> arStatus request = ''pending''))
          (map snd (rpAccessRequests r)))))"

record DecideAccessRequestInput =
  darApprove :: bool
  darRole :: ShareRole
  darActorID :: string

text \<open>The first critical section: the request, if it is pending, and the role to grant.\<close>

definition decide_check ::
  "string \<Rightarrow> DecideAccessRequestInput \<Rightarrow> repository \<Rightarrow> (AccessRequest \<times> ShareRole) result" where
  "decide_check requestID input r =
     (case map_of (rpAccessRequests r) requestID of
        None \<Rightarrow> Inl ErrNotFound
      | Some request \<Rightarrow>
          if arStatus request \<noteq> ''pending'' then Inl ErrRevision
          else if darRole input \<noteq> RoleNone then
            (if \<not> AssignableShareRole (darRole input) then Inl ErrInvalid else Inr (request, darRole input))
          else Inr (request, arRequestedRole request))"

text \<open>The share row of an approval, which \<^verbatim>\<open>PutWorkbookShare\<close> writes under the lock.\<close>

definition decide_grant ::
  "string \<Rightarrow> int \<Rightarrow> AccessRequest \<Rightarrow> ShareRole \<Rightarrow> DecideAccessRequestInput \<Rightarrow> repository \<Rightarrow> unit result \<times> repository" where
  "decide_grant newID now request granted input r =
     (if darApprove input then
        (case PutWorkbookShare newID now (arWorkbookID request)
                \<lparr>siPrincipalType = ''user'', siPrincipalID = arRequesterID request,
                 siPrincipalLabel = arRequesterName request, siRole = granted, siActorID = darActorID input\<rparr> r of
           (Inl e, r') \<Rightarrow> (Inl e, r')
         | (Inr _, r') \<Rightarrow> (Inr (), r'))
      else (Inr (), r))"

text \<open>The second critical section: the request is stored as decided.\<close>

definition decide_commit ::
  "int \<Rightarrow> string \<Rightarrow> AccessRequest \<Rightarrow> ShareRole \<Rightarrow> DecideAccessRequestInput \<Rightarrow> repository \<Rightarrow> AccessRequest \<times> repository" where
  "decide_commit now requestID request granted input r =
     (let decided = request\<lparr>arStatus := (if darApprove input then ''approved'' else ''denied''),
            arRequestedRole := granted, arDecidedBy := darActorID input, arDecidedAt := Some now\<rparr> in
      (decided, r\<lparr>rpAccessRequests := AList.update requestID decided (rpAccessRequests r)\<rparr>))"

definition DecideAccessRequest ::
  "string \<Rightarrow> int \<Rightarrow> string \<Rightarrow> DecideAccessRequestInput \<Rightarrow> repository \<Rightarrow> AccessRequest result \<times> repository" where
  "DecideAccessRequest newID now requestID input r =
     (case decide_check requestID input r of
        Inl e \<Rightarrow> (Inl e, r)
      | Inr (request, granted) \<Rightarrow>
          (case decide_grant newID now request granted input r of
             (Inl e, r1) \<Rightarrow> (Inl e, r1)
           | (Inr _, r1) \<Rightarrow>
               (case decide_commit now requestID request granted input r1 of (decided, r2) \<Rightarrow> (Inr decided, r2))))"

section \<open>The invariant of the share rows\<close>

definition wf_share :: "string \<Rightarrow> WorkbookShare \<Rightarrow> bool" where
  "wf_share key share =
     (key = share_key (shPrincipalType share) (shPrincipalID share) \<and> ValidPrincipalType (shPrincipalType share) \<and>
      AssignableShareRole (shRole share) \<and>
      (shPrincipalType share = ''department'' \<longrightarrow> trim_space (shPrincipalID share) = shPrincipalID share))"

definition link_ok :: "Workbook \<Rightarrow> bool" where
  "link_ok wb = (wbLinkRole wb = RoleNone \<or> AssignableShareRole (wbLinkRole wb))"

definition wf_workbook :: "repository \<Rightarrow> string \<Rightarrow> bool" where
  "wf_workbook r workbookID =
     (let shares = slice_at (rpShares r) workbookID in
      distinct (map fst shares) \<and> list_all (\<lambda>(key, share). wf_share key share) shares \<and>
      (case map_of (rpWorkbooks r) workbookID of
         None \<Rightarrow> True
       | Some wb \<Rightarrow> link_ok wb \<and> share_key ''user'' (wbOwnerID wb) \<notin> fst ` set shares))"

definition sharing_ok :: "repository \<Rightarrow> bool" where
  "sharing_ok r = (\<forall>workbookID. wf_workbook r workbookID)"

lemma slice_at_update [simp]: "slice_at (AList.update k v m) j = (if j = k then v else slice_at m j)"
  by (simp add: slice_at_def update_conv')

lemma set_update_subset: "set (AList.update k v m) \<subseteq> insert (k, v) (set m)"
  by (induction m) auto

lemma set_delete_subset: "set (AList.delete k m) \<subseteq> set m"
  by (simp add: AList.delete_eq)

lemma fst_delete: "fst ` set (AList.delete k m) = fst ` set m - {k}"
  by (auto simp: AList.delete_eq image_iff)

lemma update_mem: "(k, v) \<in> set (AList.update k v m)"
  by (rule map_of_SomeD) (simp add: update_conv')

lemma wf_share_update:
  "list_all (\<lambda>(key, share). wf_share key share) m \<Longrightarrow> wf_share k s \<Longrightarrow>
   list_all (\<lambda>(key, share). wf_share key share) (AList.update k s m)"
  using set_update_subset [of k s m] by (auto simp: list_all_iff)

lemma wf_share_delete:
  "list_all (\<lambda>(key, share). wf_share key share) m \<Longrightarrow> list_all (\<lambda>(key, share). wf_share key share) (AList.delete k m)"
  using set_delete_subset [of k m] by (auto simp: list_all_iff)

lemma wf_workbook_shares:
  "wf_workbook r w \<Longrightarrow> distinct (map fst (slice_at (rpShares r) w))"
  "wf_workbook r w \<Longrightarrow> list_all (\<lambda>(key, share). wf_share key share) (slice_at (rpShares r) w)"
  by (simp_all add: wf_workbook_def Let_def)

lemma put_share_ok:
  assumes "sharing_ok r" "wf_share key share"
    and "\<And>wb. map_of (rpWorkbooks r) workbookID = Some wb \<Longrightarrow> key \<noteq> share_key ''user'' (wbOwnerID wb)"
  shows "sharing_ok (put_share workbookID key share r)"
  unfolding sharing_ok_def
proof
  fix w
  have w: "wf_workbook r w" using assms(1) by (simp add: sharing_ok_def)
  show "wf_workbook (put_share workbookID key share r) w"
  proof (cases "w = workbookID")
    case True
    with w assms(2) assms(3) show ?thesis
      by (auto simp: wf_workbook_def put_share_def Let_def distinct_update dom_update wf_share_update split: option.splits)
  next
    case False
    with w show ?thesis by (simp add: wf_workbook_def put_share_def Let_def)
  qed
qed

lemma share_key_eq: "share_key t a = share_key t b \<longleftrightarrow> equal_fold a b"
  by (simp add: share_key_def equal_fold_def)

lemma share_key_user: "ValidPrincipalType t \<Longrightarrow> share_key t a = share_key ''user'' b \<longleftrightarrow> t = ''user'' \<and> equal_fold a b"
  by (auto simp: ValidPrincipalType_def share_key_def equal_fold_def)

lemma validateShareInput_ok:
  assumes "validateShareInput raw = Inr input"
  shows "ValidPrincipalType (siPrincipalType input)" "AssignableShareRole (siRole input)"
    "trim_space (siPrincipalID input) = siPrincipalID input"
  using assms by (auto simp: validateShareInput_def Let_def split: if_splits)

text \<open>What a successful \<^verbatim>\<open>PutWorkbookShare\<close> does: one row, under the key of its principal.\<close>

lemma PutWorkbookShare_cases:
  assumes "sharing_ok r"
  obtains (error) e where "PutWorkbookShare newID now workbookID raw r = (Inl e, r)"
  | (ok) input wb share where "validateShareInput raw = Inr input" "map_of (rpWorkbooks r) workbookID = Some wb"
      "PutWorkbookShare newID now workbookID raw r =
         (Inr share, put_share workbookID (share_key (siPrincipalType input) (siPrincipalID input)) share r)"
      "wf_share (share_key (siPrincipalType input) (siPrincipalID input)) share"
      "shPrincipalType share = siPrincipalType input" "equal_fold (shPrincipalID share) (siPrincipalID input)"
      "shRole share = siRole input"
      "share_key (siPrincipalType input) (siPrincipalID input) \<noteq> share_key ''user'' (wbOwnerID wb)"
proof (cases "\<exists>e. PutWorkbookShare newID now workbookID raw r = (Inl e, r)")
  case True
  then show ?thesis using error by blast
next
  case False
  obtain input where i: "validateShareInput raw = Inr input"
    using False by (cases "validateShareInput raw") (auto simp: PutWorkbookShare_def)
  obtain wb where w: "map_of (rpWorkbooks r) workbookID = Some wb"
    using False i by (cases "map_of (rpWorkbooks r) workbookID") (auto simp: PutWorkbookShare_def)
  note v = validateShareInput_ok [OF i]
  let ?key = "share_key (siPrincipalType input) (siPrincipalID input)"
  have o: "\<not> (siPrincipalType input = ''user'' \<and> equal_fold (siPrincipalID input) (wbOwnerID wb))"
    "\<not> (siPrincipalType input = ''department'' \<and> map_of (rpDepartments r) (siPrincipalID input) = None)"
    using False i w by (auto simp: PutWorkbookShare_def split: if_splits)
  then have nk: "?key \<noteq> share_key ''user'' (wbOwnerID wb)" using share_key_user [OF v(1)] by simp
  show ?thesis
  proof (cases "map_of (slice_at (rpShares r) workbookID) ?key")
    case None
    let ?s = "\<lparr>shID = newID, shWorkbookID = workbookID, shPrincipalType = siPrincipalType input,
      shPrincipalID = siPrincipalID input, shPrincipalLabel = siPrincipalLabel input, shRole = siRole input,
      shRevision = 1, shCreatedBy = siActorID input, shCreatedAt = now, shUpdatedAt = now\<rparr>"
    have "PutWorkbookShare newID now workbookID raw r = (Inr ?s, put_share workbookID ?key ?s r)"
      using False i w o None by (auto simp: PutWorkbookShare_def Let_def split: if_splits)
    then show ?thesis by (rule ok [OF i w _ _ _ _ _ nk]) (use v in \<open>auto simp: wf_share_def equal_fold_def\<close>)
  next
    case (Some existing)
    let ?s = "existing\<lparr>shRevision := shRevision existing + 1, shRole := siRole input,
      shPrincipalLabel := siPrincipalLabel input, shUpdatedAt := now\<rparr>"
    have p: "PutWorkbookShare newID now workbookID raw r = (Inr ?s, put_share workbookID ?key ?s r)"
      unfolding PutWorkbookShare_def i sum.case w option.case if_not_P [OF o(1)] if_not_P [OF o(2)] Let_def Some by simp
    have "wf_workbook r workbookID" using assms by (simp add: sharing_ok_def)
    from wf_workbook_shares(2) [OF this] Some have e: "wf_share ?key existing"
      by (auto simp: list_all_iff dest: map_of_SomeD)
    then have k: "?key = share_key (shPrincipalType existing) (shPrincipalID existing)" by (simp add: wf_share_def)
    then have t: "shPrincipalType existing = siPrincipalType input" "equal_fold (shPrincipalID existing) (siPrincipalID input)"
      using e v(1) by (auto simp: wf_share_def ValidPrincipalType_def share_key_def equal_fold_def)
    show ?thesis
      by (rule ok [OF i w p _ _ _ _ nk]) (use e t v in \<open>auto simp: wf_share_def\<close>)
  qed
qed

lemma PutWorkbookShare_keeps: "sharing_ok r \<Longrightarrow> sharing_ok (snd (PutWorkbookShare newID now workbookID raw r))"
proof -
  assume ok: "sharing_ok r"
  then show ?thesis
  proof (cases rule: PutWorkbookShare_cases [of r newID now workbookID raw])
    case (ok input wb share)
    have "sharing_ok (put_share workbookID (share_key (siPrincipalType input) (siPrincipalID input)) share r)"
      by (rule put_share_ok [OF \<open>sharing_ok r\<close> ok(4)]) (use ok(2,8) in simp)
    then show ?thesis by (simp add: ok(3))
  qed (use \<open>sharing_ok r\<close> in simp)
qed


lemma sharing_ok_update:
  assumes "sharing_ok r" "distinct (map fst shares)" "list_all (\<lambda>(key, share). wf_share key share) shares"
    and "link_ok wb" "share_key ''user'' (wbOwnerID wb) \<notin> fst ` set shares"
  shows "sharing_ok (r\<lparr>rpWorkbooks := AList.update w wb (rpWorkbooks r), rpShares := AList.update w shares (rpShares r)\<rparr>)"
  using assms by (auto simp: sharing_ok_def wf_workbook_def Let_def update_conv')

lemma DeleteWorkbookShare_keeps:
  assumes "sharing_ok r"
  shows "sharing_ok (snd (DeleteWorkbookShare workbookID shareID r))"
proof -
  have "sharing_ok (r\<lparr>rpShares := AList.update workbookID (AList.delete key (slice_at (rpShares r) workbookID)) (rpShares r)\<rparr>)" for key
    unfolding sharing_ok_def
  proof
    fix w
    have "wf_workbook r w" using assms by (simp add: sharing_ok_def)
    then show "wf_workbook (r\<lparr>rpShares := AList.update workbookID (AList.delete key (slice_at (rpShares r) workbookID)) (rpShares r)\<rparr>) w"
      by (cases "map_of (rpWorkbooks r) w"; cases "w = workbookID")
        (simp_all add: wf_workbook_def Let_def distinct_delete wf_share_delete fst_delete)
  qed
  with assms show ?thesis
    by (auto simp: DeleteWorkbookShare_def Let_def split: option.split prod.split)
qed

lemma UpdateWorkbookSharing_keeps:
  assumes "sharing_ok r"
  shows "sharing_ok (snd (UpdateWorkbookSharing now workbookID raw r))"
proof (cases "validateSharingInput raw")
  case (Inl e)
  with assms show ?thesis by (simp add: UpdateWorkbookSharing_def)
next
  case (Inr input)
  show ?thesis
  proof (cases "map_of (rpWorkbooks r) workbookID")
    case None
    with Inr assms show ?thesis by (simp add: UpdateWorkbookSharing_def)
  next
    case (Some wb)
    have role: "usLinkRole input = None \<or> AssignableShareRole (the (usLinkRole input))"
      using Inr by (auto simp: validateSharingInput_def Let_def split: if_splits option.splits)
    have w: "wf_workbook r w" for w using assms by (simp add: sharing_ok_def)
    have "link_ok wb" "share_key ''user'' (wbOwnerID wb) \<notin> fst ` set (slice_at (rpShares r) workbookID)"
      using w [of workbookID] Some by (simp_all add: wf_workbook_def Let_def)
    moreover have "link_ok (wb\<lparr>wbLinkAccess := a, wbLinkRole := given (usLinkRole input) (wbLinkRole wb), wbSharingLocked := b,
        wbViewerCanCopy := c, wbUpdatedAt := now\<rparr>)" for a b c
      using role \<open>link_ok wb\<close> by (auto simp: link_ok_def given_def split: option.splits)
    ultimately show ?thesis
      using Inr Some w by (auto simp: UpdateWorkbookSharing_def Let_def sharing_ok_def wf_workbook_def update_conv' split: option.splits)
  qed
qed

lemma TransferWorkbookOwnership_keeps:
  assumes "sharing_ok r"
  shows "sharing_ok (snd (TransferWorkbookOwnership newID now workbookID input r))"
proof (cases "map_of (rpWorkbooks r) workbookID")
  case None
  with assms show ?thesis by (simp add: TransferWorkbookOwnership_def Let_def)
next
  case (Some wb)
  let ?new = "trim_space (toNewOwnerID input)" and ?shares = "slice_at (rpShares r) workbookID"
  show ?thesis
  proof (cases "?new = [] \<or> equal_fold (wbOwnerID wb) ?new")
    case True
    with Some assms show ?thesis by (auto simp: TransferWorkbookOwnership_def Let_def)
  next
    case False
    let ?wb = "wb\<lparr>wbOwnerID := ?new, wbUpdatedAt := now\<rparr>"
    let ?del = "AList.delete (share_key ''user'' ?new) ?shares"
    let ?r1 = "r\<lparr>rpWorkbooks := AList.update workbookID ?wb (rpWorkbooks r), rpShares := AList.update workbookID ?del (rpShares r)\<rparr>"
    have w: "wf_workbook r workbookID" using assms by (simp add: sharing_ok_def)
    have r1: "sharing_ok ?r1"
    proof (rule sharing_ok_update [OF assms])
      show "distinct (map fst ?del)" "list_all (\<lambda>(key, share). wf_share key share) ?del"
        using wf_workbook_shares [OF w] by (simp_all add: distinct_delete wf_share_delete)
      show "link_ok ?wb" using w Some by (simp add: wf_workbook_def Let_def link_ok_def)
      show "share_key ''user'' (wbOwnerID ?wb) \<notin> fst ` set ?del" by (simp add: fst_delete)
    qed
    let ?key = "share_key ''user'' (wbOwnerID wb)"
    define base where "base = (case map_of (slice_at (rpShares ?r1) workbookID) ?key of
        None \<Rightarrow> \<lparr>shID = newID, shWorkbookID = workbookID, shPrincipalType = ''user'', shPrincipalID = wbOwnerID wb,
          shPrincipalLabel = [], shRole = RoleNone, shRevision = 1, shCreatedBy = toActorID input, shCreatedAt = now, shUpdatedAt = 0\<rparr>
      | Some existing \<Rightarrow> existing\<lparr>shRevision := shRevision existing + 1\<rparr>)"
    have none: "map_of ?shares ?key = None"
      using w Some by (simp add: wf_workbook_def Let_def map_of_eq_None_iff)
    have "wf_share ?key (base\<lparr>shRole := RoleEditor, shUpdatedAt := now\<rparr>)"
      using none by (simp add: base_def wf_share_def delete_conv' ValidPrincipalType_def AssignableShareRole_def)
    then have r2: "sharing_ok (put_share workbookID ?key (base\<lparr>shRole := RoleEditor, shUpdatedAt := now\<rparr>) ?r1)"
      by (rule put_share_ok [OF r1]) (use False in \<open>auto simp: update_conv' share_key_eq\<close>)
    have "snd (TransferWorkbookOwnership newID now workbookID input r) =
        (if toKeepAsEditor input \<and> trim_space (wbOwnerID wb) \<noteq> []
         then put_share workbookID ?key (base\<lparr>shRole := RoleEditor, shUpdatedAt := now\<rparr>) ?r1 else ?r1)"
      using Some False unfolding TransferWorkbookOwnership_def Let_def base_def by simp
    with r1 r2 show ?thesis by simp
  qed
qed


lemma sharing_ok_same:
  "rpWorkbooks r' = rpWorkbooks r \<Longrightarrow> rpShares r' = rpShares r \<Longrightarrow> sharing_ok r' = sharing_ok r"
  by (simp add: sharing_ok_def wf_workbook_def)

lemma decide_grant_keeps:
  assumes "sharing_ok r"
  shows "sharing_ok (snd (decide_grant newID now request granted input r))"
proof -
  obtain res r1 where p: "PutWorkbookShare newID now (arWorkbookID request)
      \<lparr>siPrincipalType = ''user'', siPrincipalID = arRequesterID request,
       siPrincipalLabel = arRequesterName request, siRole = granted, siActorID = darActorID input\<rparr> r = (res, r1)" by fastforce
  then have "sharing_ok r1" using PutWorkbookShare_keeps [OF assms] by (metis snd_conv)
  with p assms show ?thesis by (cases res) (simp_all add: decide_grant_def)
qed

lemma decide_commit_keeps: "sharing_ok r \<Longrightarrow> sharing_ok (snd (decide_commit now requestID request granted input r))"
  by (rule sharing_ok_same [THEN iffD2]) (simp_all add: decide_commit_def Let_def)

lemma DecideAccessRequest_keeps:
  assumes "sharing_ok r"
  shows "sharing_ok (snd (DecideAccessRequest newID now requestID input r))"
proof (cases "decide_check requestID input r")
  case (Inl e)
  with assms show ?thesis by (simp add: DecideAccessRequest_def)
next
  case (Inr p)
  obtain request granted where p: "p = (request, granted)" by (cases p)
  obtain g r1 where g: "decide_grant newID now request granted input r = (g, r1)" by fastforce
  have r1: "sharing_ok r1" using decide_grant_keeps [OF assms, of newID now request granted input] g by simp
  show ?thesis
  proof (cases g)
    case (Inl e)
    with \<open>decide_check requestID input r = Inr p\<close> p g r1 show ?thesis by (simp add: DecideAccessRequest_def)
  next
    case (Inr u)
    with \<open>decide_check requestID input r = Inr p\<close> p g decide_commit_keeps [OF r1, of now requestID request granted input]
    show ?thesis
      by (cases "decide_commit now requestID request granted input r1") (simp add: DecideAccessRequest_def)
  qed
qed

lemma CreateAccessRequest_keeps: "sharing_ok r \<Longrightarrow> sharing_ok (snd (CreateAccessRequest newID now workbookID input r))"
  by (rule sharing_ok_same [THEN iffD2])
    (simp_all add: CreateAccessRequest_def Let_def split: sum.split option.split prod.split)

lemma slice_at_map: "slice_at (map (\<lambda>(w, shares). (w, f shares)) m) k = (case map_of m k of None \<Rightarrow> [] | Some xs \<Rightarrow> f xs)"
  by (simp add: slice_at_def map_of_map split: option.split)

lemma sharing_ok_filter:
  assumes "sharing_ok r" "rpWorkbooks r' = rpWorkbooks r"
    and "\<And>w. slice_at (rpShares r') w = filter P (slice_at (rpShares r) w)"
  shows "sharing_ok r'"
  unfolding sharing_ok_def
proof
  fix w
  have "wf_workbook r w" using assms(1) by (simp add: sharing_ok_def)
  moreover have all: "list_all Q xs \<Longrightarrow> list_all Q (filter P xs)" for Q xs by (auto simp: list_all_iff)
  moreover have "fst ` set (filter P (slice_at (rpShares r) w)) \<subseteq> fst ` set (slice_at (rpShares r) w)" by auto
  ultimately show "wf_workbook r' w"
    by (cases "map_of (rpWorkbooks r) w")
      (auto simp: wf_workbook_def Let_def assms(2,3) distinct_map_filter all simp del: set_filter)
qed

lemma DeleteDepartment_sharing:
  assumes "sharing_ok r"
  shows "sharing_ok (snd (DeleteDepartment i r))"
proof (cases "map_of (rpDepartments r) i = None \<or> list_ex (\<lambda>(_, candidate). dpParentID candidate = i) (rpDepartments r)")
  case True
  with assms show ?thesis by (auto simp: DeleteDepartment_def)
next
  case False
  let ?keep = "\<lambda>(key::string, share). \<not> (shPrincipalType share = ''department'' \<and> equal_fold (shPrincipalID share) i)"
  have d: "snd (DeleteDepartment i r) = r\<lparr>rpDepartments := AList.delete i (rpDepartments r), rpMembers := AList.delete i (rpMembers r),
      rpShares := map (\<lambda>(w, shares). (w, filter ?keep shares)) (rpShares r)\<rparr>"
  proof -
    have n: "map_of (rpDepartments r) i \<noteq> None"
      "\<not> list_ex (\<lambda>(_, candidate). dpParentID candidate = i) (rpDepartments r)" using False by auto
    show ?thesis by (simp only: DeleteDepartment_def n if_False snd_conv)
  qed
  have s: "slice_at (map (\<lambda>(w, shares). (w, filter ?keep shares)) (rpShares r)) w = filter ?keep (slice_at (rpShares r) w)" for w
    unfolding slice_at_map by (simp add: slice_at_def split: option.split)
  show ?thesis
  proof (rule sharing_ok_filter [OF assms])
    show "rpWorkbooks (snd (DeleteDepartment i r)) = rpWorkbooks r" unfolding d by simp
    show "slice_at (rpShares (snd (DeleteDepartment i r))) w = filter ?keep (slice_at (rpShares r) w)" for w
      unfolding d s [symmetric] by simp
  qed
qed


section \<open>Properties\<close>

text \<open>
  C31. Share rows stay sound: every operation of the repository, successful or refused, keeps
  one row per principal, under the key of that principal, with a role that can be assigned,
  and no row for the owner, also when the ownership is handed over or a department is
  deleted.
\<close>

theorem sharing_invariant:
  assumes "sharing_ok r"
  shows "sharing_ok (snd (PutWorkbookShare newID now workbookID share r)) \<and>
    sharing_ok (snd (DeleteWorkbookShare workbookID shareID r)) \<and>
    sharing_ok (snd (UpdateWorkbookSharing now workbookID update r)) \<and>
    sharing_ok (snd (TransferWorkbookOwnership newID now workbookID transfer r)) \<and>
    sharing_ok (snd (CreateAccessRequest newID now workbookID request r)) \<and>
    sharing_ok (snd (DecideAccessRequest newID now requestID decision r)) \<and>
    sharing_ok (snd (DeleteDepartment department r))"
  using assms by (intro conjI PutWorkbookShare_keeps DeleteWorkbookShare_keeps UpdateWorkbookSharing_keeps
    TransferWorkbookOwnership_keeps CreateAccessRequest_keeps DecideAccessRequest_keeps DeleteDepartment_sharing)

definition sample_workbook :: Workbook where
  "sample_workbook = \<lparr>wbID = ''wb'', wbTitle = ''Plan'', wbOwnerID = ''Boss'', wbLinkAccess = [], wbLinkRole = RoleNone,
     wbSharingLocked = True, wbViewerCanCopy = False, wbUpdatedAt = 0\<rparr>"

definition shared_repository :: repository where
  "shared_repository = two_levels\<lparr>rpWorkbooks := [(''wb'', sample_workbook)]\<rparr>"

lemma shared_repository_ok: "sharing_ok shared_repository" "depts_valid shared_repository"
proof -
  show "sharing_ok shared_repository"
    by (simp add: sharing_ok_def wf_workbook_def shared_repository_def two_levels_def sample_repository_def slice_at_def
        sample_workbook_def link_ok_def)
  show "depts_valid shared_repository"
    using two_levels_valid by (simp add: depts_valid_def shared_repository_def)
qed

definition hand_over :: TransferOwnershipInput where
  "hand_over = \<lparr>toNewOwnerID = ''ann'', toKeepAsEditor = True, toActorID = ''boss''\<rparr>"

theorem sharing_invariant_witness:
  "sharing_ok (snd (TransferWorkbookOwnership ''id'' 5 ''wb'' hand_over shared_repository)) \<and>
   map fst (slice_at (rpShares (snd (TransferWorkbookOwnership ''id'' 5 ''wb'' hand_over shared_repository))) ''wb'') = [''user:boss'']"
proof -
  have "map fst (slice_at (rpShares (snd (TransferWorkbookOwnership ''id'' 5 ''wb'' hand_over shared_repository))) ''wb'') = [''user:boss'']"
    by code_simp
  with sharing_invariant [OF shared_repository_ok(1)] show ?thesis by blast
qed


lemma sharingLocked_ok:
  assumes "sharing_ok r" "sharingLocked r workbookID = Inr sharing"
  shows "\<forall>share. share \<in> set (wsShares sharing) \<longrightarrow> AssignableShareRole (shRole share)"
    "AssignableShareRole (wsLinkRole sharing)"
    "set (wsShares sharing) = snd ` set (slice_at (rpShares r) workbookID)"
proof -
  obtain wb where w: "map_of (rpWorkbooks r) workbookID = Some wb"
    using assms(2) by (auto simp: sharingLocked_def split: option.splits)
  have wf: "wf_workbook r workbookID" using assms(1) by (simp add: sharing_ok_def)
  show s: "set (wsShares sharing) = snd ` set (slice_at (rpShares r) workbookID)"
  proof -
    have "wsShares sharing = sort_key share_order (map snd (slice_at (rpShares r) workbookID))"
      using assms(2) w by (auto simp: sharingLocked_def)
    then show ?thesis by simp
  qed
  show "\<forall>share. share \<in> set (wsShares sharing) \<longrightarrow> AssignableShareRole (shRole share)"
    using wf_workbook_shares(2) [OF wf] unfolding s by (auto simp: list_all_iff wf_share_def)
  have "link_ok wb" using wf w by (simp add: wf_workbook_def Let_def)
  then show "AssignableShareRole (wsLinkRole sharing)"
    using assms(2) w by (auto simp: sharingLocked_def link_ok_def AssignableShareRole_def)
qed

text \<open>
  Access is always decided, and nobody becomes an owner by being shared with: on a sound
  repository the decision for a workbook in it returns for every principal, and its role is
  the owner's exactly when the principal is the owner of the workbook or an administrator.
\<close>

lemma access_is_decided:
  assumes "sharing_ok r" "depts_valid r" "sharingLocked r workbookID = Inr sharing"
  shows "\<exists>access. ResolveWorkbookAccess r workbookID who = Some (Inr access) \<and>
    (waRole access = RoleOwner \<longleftrightarrow> is_owner who sharing \<or> apAdmin who) \<and>
    (waCanManage access \<longrightarrow> wsSharingLocked sharing \<longrightarrow> is_owner who sharing \<or> apAdmin who)"
proof -
  obtain closure where c: "departmentClosureLocked r who = Some closure"
    using departmentClosureLocked_keys [OF assms(2)] by blast
  have a: "ResolveWorkbookAccess r workbookID who = Some (Inr (resolveAccess workbookID who sharing closure))"
    by (simp add: ResolveWorkbookAccess_def assms(3) c)
  from owner_role_iff [OF sharingLocked_ok(1,2) [OF assms(1,3)] refl] a show ?thesis by blast
qed

text \<open>
  C32. Sharing with a department reaches everyone below it: once a share with a department is
  stored, each member of that department or of any department below it is granted at least
  the role of the share.
\<close>

theorem department_share_reaches_members:
  assumes "sharing_ok r" "depts_valid r"
    and "PutWorkbookShare newID now workbookID raw r = (Inr share, r')"
    and "shPrincipalType share = ''department''" "member_of r who i" "shPrincipalID share \<in> above r i"
  shows "\<exists>access. ResolveWorkbookAccess r' workbookID who = Some (Inr access) \<and>
    roleRank (shRole share) \<le> roleRank (waRole access)"
  using assms(1)
proof (cases rule: PutWorkbookShare_cases [of r newID now workbookID raw])
  case (ok input wb share')
  let ?key = "share_key (siPrincipalType input) (siPrincipalID input)"
  have eq: "share' = share" "r' = put_share workbookID ?key share r" using ok(3) assms(3) by auto
  have r': "sharing_ok r'" using PutWorkbookShare_keeps [OF assms(1)] assms(3) by (metis snd_conv)
  have same: "rpDepartments r' = rpDepartments r" "rpMembers r' = rpMembers r" "rpWorkbooks r' = rpWorkbooks r"
    by (simp_all add: eq put_share_def)
  have dv: "depts_valid r'" using assms(2) same by (simp add: depts_valid_def)
  obtain sharing where s: "sharingLocked r' workbookID = Inr sharing"
    using ok(2) same by (simp add: sharingLocked_def)
  have "(?key, share) \<in> set (slice_at (rpShares r') workbookID)"
    by (simp add: eq put_share_def update_mem)
  then have stored: "share \<in> set (wsShares sharing)"
    using sharingLocked_ok(3) [OF r' s] by force
  obtain closure where c: "departmentClosureLocked r' who = Some closure"
    "fst ` set closure = to_lower ` (\<Union>i \<in> {i. member_of r' who i}. above r' i)"
    using departmentClosureLocked_keys [OF dv, of who] by (elim exE conjE)
  have m: "member_of r' who i" "shPrincipalID share \<in> above r' i"
    using assms(5,6) same by (simp_all add: member_of_def above_def)
  have "to_lower (shPrincipalID share) \<in> fst ` set closure"
    unfolding c(2) by (rule imageI) (rule UN_I [of i], simp_all add: m)
  moreover have "trim_space (shPrincipalID share) = shPrincipalID share"
    using ok(4) eq(1) assms(4) by (simp add: wf_share_def)
  ultimately have app: "applies who closure share"
    by (simp add: applies_def Let_def assms(4))
  have a: "ResolveWorkbookAccess r' workbookID who = Some (Inr (resolveAccess workbookID who sharing closure))"
    by (simp add: ResolveWorkbookAccess_def s c(1))
  have "roleRank (shRole share) \<le> roleRank (waRole (resolveAccess workbookID who sharing closure))"
    using stored app by (rule resolved_at_least)
  with a show ?thesis by blast
qed (use assms(3) in simp)


definition sales_share :: ShareInput where
  "sales_share = \<lparr>siPrincipalType = ''Department'', siPrincipalID = '' hq'', siPrincipalLabel = [], siRole = RoleCommenter,
     siActorID = ''boss''\<rparr>"

definition hq_row :: WorkbookShare where
  "hq_row = (sample_share ''department'' ''hq'' RoleCommenter)\<lparr>shID := ''id'', shCreatedBy := ''boss'', shCreatedAt := 5, shUpdatedAt := 5\<rparr>"

theorem department_share_reaches_members_witness:
  "\<exists>r' access. PutWorkbookShare ''id'' 5 ''wb'' sales_share shared_repository = (Inr hq_row, r') \<and>
     ResolveWorkbookAccess r' ''wb'' ann = Some (Inr access) \<and> roleRank RoleCommenter \<le> roleRank (waRole access)"
proof -
  let ?r' = "put_share ''wb'' ''department:hq'' hq_row shared_repository"
  have p: "PutWorkbookShare ''id'' 5 ''wb'' sales_share shared_repository = (Inr hq_row, ?r')" by code_simp
  have "(''sales'', ''hq'') \<in> parent_rel (dept_parent (rpDepartments shared_repository))"
    unfolding parent_rel_def mem_Collect_eq case_prod_conv by code_simp
  then have a: "''hq'' \<in> above shared_repository ''sales''" by (simp add: above_def)
  have m: "member_of shared_repository ann ''sales''" by code_simp
  have t: "shPrincipalType hq_row = ''department''" "shPrincipalID hq_row = ''hq''" "shRole hq_row = RoleCommenter" by code_simp+
  from department_share_reaches_members [OF shared_repository_ok p t(1) m] a t p show ?thesis by simp
qed

section \<open>Deciding a request for access\<close>

lemma request_user: "trim_space (to_lower ''user'') = ''user''"
  by code_simp

text \<open>
  A request is decided once: when a decision succeeds, the request is stored as approved
  or denied, an approval has left a share with the role it granted for the requester, and
  every later decision on the same request is refused and changes nothing.
\<close>

lemma request_decided_once:
  assumes "sharing_ok r" "DecideAccessRequest newID now requestID input r = (Inr decided, r')"
  shows "map_of (rpAccessRequests r') requestID = Some decided \<and>
    arStatus decided = (if darApprove input then ''approved'' else ''denied'') \<and>
    (darApprove input \<longrightarrow> (\<exists>share. (share_key ''user'' (trim_space (arRequesterID decided)), share)
        \<in> set (slice_at (rpShares r') (arWorkbookID decided)) \<and> shRole share = arRequestedRole decided)) \<and>
    DecideAccessRequest newID2 now2 requestID input2 r' = (Inl ErrRevision, r')"
proof -
  obtain request granted where c: "decide_check requestID input r = Inr (request, granted)"
    using assms(2) by (auto simp: DecideAccessRequest_def split: sum.splits)
  obtain r1 where g: "decide_grant newID now request granted input r = (Inr (), r1)"
    using assms(2) c by (auto simp: DecideAccessRequest_def split: sum.splits prod.splits)
  have d: "decide_commit now requestID request granted input r1 = (decided, r')"
    using assms(2) c g by (auto simp: DecideAccessRequest_def split: prod.splits)
  have stored: "map_of (rpAccessRequests r') requestID = Some decided"
    and status: "arStatus decided = (if darApprove input then ''approved'' else ''denied'')"
    and same: "arRequesterID decided = arRequesterID request" "arWorkbookID decided = arWorkbookID request"
      "arRequestedRole decided = granted" "rpShares r' = rpShares r1"
    using d by (auto simp: decide_commit_def Let_def update_conv')
  have share: "\<exists>share. (share_key ''user'' (trim_space (arRequesterID decided)), share)
        \<in> set (slice_at (rpShares r') (arWorkbookID decided)) \<and> shRole share = arRequestedRole decided" if ap: "darApprove input"
  proof -
    let ?in = "\<lparr>siPrincipalType = ''user'', siPrincipalID = arRequesterID request,
      siPrincipalLabel = arRequesterName request, siRole = granted, siActorID = darActorID input\<rparr>"
    obtain res where "PutWorkbookShare newID now (arWorkbookID request) ?in r = (Inr res, r1)"
      using g ap by (auto simp: decide_grant_def split: prod.splits sum.splits if_splits)
    with assms(1) show ?thesis
    proof (cases rule: PutWorkbookShare_cases [of r newID now "arWorkbookID request" ?in])
      case (ok normal wb row)
      have "siPrincipalType normal = ''user''" "siPrincipalID normal = trim_space (arRequesterID request)" "siRole normal = granted"
        using ok(1) by (auto simp: validateShareInput_def Let_def request_user split: if_splits)
      with ok \<open>PutWorkbookShare _ _ _ _ _ = (Inr res, r1)\<close> same show ?thesis
        by (auto simp: put_share_def intro!: exI [of _ row] update_mem)
    qed simp
  qed
  have "DecideAccessRequest newID2 now2 requestID input2 r' = (Inl ErrRevision, r')"
    using stored status by (auto simp: DecideAccessRequest_def decide_check_def)
  with stored status share show ?thesis by blast
qed


definition pending_request :: AccessRequest where
  "pending_request = \<lparr>arID = ''q'', arWorkbookID = ''wb'', arWorkbookTitle = ''Plan'', arRequesterID = ''Ann'',
     arRequesterMail = [], arRequesterName = [], arRequestedRole = RoleEditor, arMessage = [], arStatus = ''pending'',
     arDecidedBy = [], arDecidedAt = None, arCreatedAt = 1\<rparr>"

definition asked_repository :: repository where
  "asked_repository = shared_repository\<lparr>rpAccessRequests := [(''q'', pending_request)]\<rparr>"

lemma asked_repository_ok: "sharing_ok asked_repository"
  using shared_repository_ok(1) by (rule sharing_ok_same [THEN iffD2, rotated 2]) (simp_all add: asked_repository_def)

definition approve :: DecideAccessRequestInput where
  "approve = \<lparr>darApprove = True, darRole = RoleNone, darActorID = ''boss''\<rparr>"

definition deny :: DecideAccessRequestInput where
  "deny = \<lparr>darApprove = False, darRole = RoleNone, darActorID = ''kim''\<rparr>"

text \<open>
  Two decisions running at the same time. A decision is at one of its critical sections; a
  step runs the next section of one of them.
\<close>

datatype decision =
    Deciding DecideAccessRequestInput
  | Granting DecideAccessRequestInput AccessRequest ShareRole
  | Committing DecideAccessRequestInput AccessRequest ShareRole
  | Decided AccessRequest
  | Refused go_error

fun decision_section :: "string \<Rightarrow> int \<Rightarrow> string \<Rightarrow> decision \<Rightarrow> repository \<Rightarrow> (decision \<times> repository) option" where
  "decision_section newID now requestID (Deciding input) r =
     Some (case decide_check requestID input r of
       Inl e \<Rightarrow> (Refused e, r)
     | Inr (request, granted) \<Rightarrow> (Granting input request granted, r))"
| "decision_section newID now requestID (Granting input request granted) r =
     Some (case decide_grant newID now request granted input r of
       (Inl e, r') \<Rightarrow> (Refused e, r')
     | (Inr _, r') \<Rightarrow> (Committing input request granted, r'))"
| "decision_section newID now requestID (Committing input request granted) r =
     Some (case decide_commit now requestID request granted input r of (decided, r') \<Rightarrow> (Decided decided, r'))"
| "decision_section newID now requestID (Decided decided) r = None"
| "decision_section newID now requestID (Refused e) r = None"

inductive interleaved ::
  "string \<Rightarrow> decision \<times> decision \<times> repository \<Rightarrow> decision \<times> decision \<times> repository \<Rightarrow> bool"
  for requestID :: string where
  stop: "interleaved requestID s s"
| first: "decision_section newID now requestID a r = Some (a', r') \<Longrightarrow> interleaved requestID (a', b, r') s \<Longrightarrow>
    interleaved requestID (a, b, r) s"
| second: "decision_section newID now requestID b r = Some (b', r') \<Longrightarrow> interleaved requestID (a, b', r') s \<Longrightarrow>
    interleaved requestID (a, b, r) s"

lemma decision_section_keeps:
  assumes "decision_section newID now requestID a r = Some (a', r')" "sharing_ok r"
  shows "sharing_ok r'"
proof (cases a)
  case (Deciding input)
  with assms show ?thesis by (auto split: sum.splits)
next
  case (Granting input request granted)
  have "r' = snd (decide_grant newID now request granted input r)"
    using assms(1) Granting by (auto split: sum.splits prod.splits)
  with decide_grant_keeps [OF assms(2)] show ?thesis by simp
next
  case (Committing input request granted)
  have "r' = snd (decide_commit now requestID request granted input r)"
    using assms(1) Committing by (auto split: prod.splits)
  with decide_commit_keeps [OF assms(2)] show ?thesis by simp
qed (use assms in simp_all)

lemma interleaved_sharing: "interleaved requestID s s' \<Longrightarrow> sharing_ok (snd (snd s)) \<Longrightarrow> sharing_ok (snd (snd s'))"
  by (induction rule: interleaved.induct) (auto dest: decision_section_keeps)

text \<open>
  Two decisions on one request can both succeed: the check that the request is pending and
  the write that decides it are separate critical sections, so an approval and a denial that
  overlap both return a decided request. In one such run the request ends as denied while
  the requester holds an editor share; on their own, the later one would have been refused.
\<close>

lemma overlapping_decisions_both_succeed:
  "\<exists>a d r'. interleaved ''q'' (Deciding approve, Deciding deny, asked_repository) (Decided a, Decided d, r') \<and>
     arStatus a = ''approved'' \<and> arStatus d = ''denied'' \<and>
     map_option arStatus (map_of (rpAccessRequests r') ''q'') = Some ''denied'' \<and>
     map_option shRole (map_of (slice_at (rpShares r') ''wb'') ''user:ann'') = Some RoleEditor"
proof -
  let ?r = asked_repository
  let ?run = "\<lambda>x r. the (decision_section ''id'' 5 ''q'' x r)"
  let ?g = "?run (Granting approve pending_request RoleEditor) ?r"
  have steps: "decision_section ''id'' 5 ''q'' (Deciding approve) ?r = Some (Granting approve pending_request RoleEditor, ?r)"
    "decision_section ''id'' 5 ''q'' (Deciding deny) ?r = Some (Granting deny pending_request RoleEditor, ?r)"
    "decision_section ''id'' 5 ''q'' (Granting deny pending_request RoleEditor) ?r = Some (Committing deny pending_request RoleEditor, ?r)"
    "decision_section ''id'' 5 ''q'' (Granting approve pending_request RoleEditor) ?r =
       Some (Committing approve pending_request RoleEditor, snd ?g)"
    by code_simp+
  have commit: "\<exists>d r'. decision_section ''id'' 5 ''q'' (Committing x pending_request RoleEditor) r = Some (Decided d, r')" for x r
    by (cases "decide_commit 5 ''q'' pending_request RoleEditor x r") simp
  obtain a r2 where a: "decision_section ''id'' 5 ''q'' (Committing approve pending_request RoleEditor) (snd ?g) = Some (Decided a, r2)"
    using commit by blast
  obtain d r3 where d: "decision_section ''id'' 5 ''q'' (Committing deny pending_request RoleEditor) r2 = Some (Decided d, r3)"
    using commit by blast
  have "interleaved ''q'' (Deciding approve, Deciding deny, ?r) (Decided a, Decided d, r3)"
    by (intro interleaved.first [OF steps(1)] interleaved.second [OF steps(2)] interleaved.second [OF steps(3)]
      interleaved.first [OF steps(4)] interleaved.first [OF a] interleaved.second [OF d] interleaved.stop)
  moreover have "arStatus a = ''approved''" "arStatus d = ''denied''" "map_of (rpAccessRequests r3) ''q'' = Some d"
    "rpShares r3 = rpShares (snd ?g)"
    using a d by (auto simp: decide_commit_def Let_def approve_def deny_def update_conv')
  moreover have "map_option shRole (map_of (slice_at (rpShares (snd ?g)) ''wb'') ''user:ann'') = Some RoleEditor"
    by code_simp
  ultimately show ?thesis
    by (intro exI [of _ a] exI [of _ d] exI [of _ r3]) (simp only: option.map simp_thms)
qed

end
