(* ===== verification/RuleStore.thy ===== *)
theory RuleStore
  imports Prelude "HOL-Library.AList" "HOL-Library.Sublist"
begin

text \<open>
  What the in-memory repository's tables of rules have in common: protected ranges, watch
  rules and scenarios are each kept in a map from id to record, are created once per
  idempotency key within their sheet or workbook, are bounded in number there, and are moved
  or dropped by structural changes. \<open>store_ok\<close> is the invariant of such a table; the locale
  states what a kind of rule has to promise about moving one record, and its lemmas carry the
  invariant over adding, replacing, removing and moving. The interpretations are in the
  theories of the rules.
\<close>

definition store_ok ::
  "('r \<Rightarrow> string) \<Rightarrow> ('r \<Rightarrow> string) \<Rightarrow> ('r \<Rightarrow> string) \<Rightarrow> ('r \<Rightarrow> bool) \<Rightarrow> nat \<Rightarrow> (string \<times> 'r) list \<Rightarrow> bool" where
  "store_ok ident scope key ok limit store =
     (distinct (map fst store) \<and>
      (\<forall>(i, r) \<in> set store. ident r = i \<and> ok r) \<and>
      distinct (map (\<lambda>(i, r). (scope r, key r)) store) \<and>
      (\<forall>s. length (filter (\<lambda>(i, r). scope r = s) store) \<le> limit))"

text \<open>A table moved through a change: a record moves or goes, and the first failure ends it.\<close>

fun move_store :: "('r \<Rightarrow> 'r option result) \<Rightarrow> (string \<times> 'r) list \<Rightarrow> (string \<times> 'r) list result" where
  "move_store move [] = Inr []"
| "move_store move ((i, r) # store) =
     bind_result (move r) (\<lambda>moved.
       bind_result (move_store move store) (\<lambda>next.
         Inr (case moved of None \<Rightarrow> next | Some r' \<Rightarrow> (i, r') # next)))"

lemma length_filter_update:
  "length (filter P (AList.update k v xs)) \<le> Suc (length (filter P xs))"
  by (induction xs) auto

lemma update_present:
  "distinct (map fst xs) \<Longrightarrow> (k, old) \<in> set xs \<Longrightarrow> f (k, v) = f (k, old) \<Longrightarrow>
   map f (AList.update k v xs) = map f xs"
  by (induction xs) (auto simp: image_iff)

lemma filter_update_present:
  "distinct (map fst xs) \<Longrightarrow> (k, old) \<in> set xs \<Longrightarrow> P (k, v) = P (k, old) \<Longrightarrow>
   length (filter P (AList.update k v xs)) = length (filter P xs)"
  by (induction xs) (auto simp: image_iff)

lemma update_absent: "k \<notin> fst ` set xs \<Longrightarrow> AList.update k v xs = xs @ [(k, v)]"
  by (induction xs) auto

lemma set_update_distinct:
  "distinct (map fst xs) \<Longrightarrow> set (AList.update k v xs) = {(k, v)} \<union> {p \<in> set xs. fst p \<noteq> k}"
  by (induction xs) (auto simp: image_iff)

lemma delete_filter: "AList.delete k xs = filter (\<lambda>p. fst p \<noteq> k) xs"
  by (auto simp: AList.delete_eq case_prod_unfold intro!: filter_cong)

lemma subseq_distinct: "subseq xs ys \<Longrightarrow> distinct ys \<Longrightarrow> distinct xs"
proof (induction rule: list_emb.induct)
  case (list_emb_Cons2 x y xs ys)
  have "set xs \<subseteq> set ys" using list_emb_set [OF list_emb_Cons2(2)] by blast
  with list_emb_Cons2 show ?case by auto
qed auto

locale rule_store =
  fixes ident scope key :: "'r \<Rightarrow> string"
    and ok :: "'r \<Rightarrow> bool"
    and limit :: nat
    and valid :: "'m \<Rightarrow> bool"
    and move :: "'m \<Rightarrow> 'r \<Rightarrow> 'r option result"
  assumes move_keeps:
    "valid m \<Longrightarrow> ok r \<Longrightarrow> move m r = Inr (Some r') \<Longrightarrow>
     ok r' \<and> ident r' = ident r \<and> scope r' = scope r \<and> key r' = key r"
begin

abbreviation inv :: "(string \<times> 'r) list \<Rightarrow> bool" where
  "inv \<equiv> store_ok ident scope key ok limit"

lemma inv_empty: "inv []"
  by (simp add: store_ok_def)

lemma inv_get: "inv store \<Longrightarrow> map_of store i = Some r \<Longrightarrow> ident r = i \<and> ok r"
  by (auto simp: store_ok_def dest: map_of_SomeD)

lemma inv_key_unique:
  assumes "inv store" "(i, r) \<in> set store" "(j, s) \<in> set store" "scope r = scope s" "key r = key s"
  shows "i = j \<and> r = s"
proof -
  have "inj_on (\<lambda>(i, r). (scope r, key r)) (set store)"
    using assms(1) by (simp add: store_ok_def distinct_map)
  from inj_onD [OF this _ assms(2,3)] assms(4,5) show ?thesis by simp
qed

lemma inv_add:
  assumes "inv store" "i \<notin> fst ` set store" "ident r = i" "ok r"
    and "\<forall>(j, s) \<in> set store. scope s = scope r \<longrightarrow> key s \<noteq> key r"
    and "length (filter (\<lambda>(i, s). scope s = scope r) store) < limit"
  shows "inv (AList.update i r store)"
  using assms by (auto simp: store_ok_def update_absent image_iff case_prod_unfold)

lemma inv_replace:
  assumes "inv store" "map_of store i = Some old" "ident r = ident old" "ok r" "scope r = scope old" "key r = key old"
  shows "inv (AList.update i r store)"
proof -
  have d: "distinct (map fst store)" and m: "(i, old) \<in> set store"
    using assms(1,2) by (auto simp: store_ok_def dest: map_of_SomeD)
  have "ident old = i" using inv_get [OF assms(1,2)] by simp
  with assms m show ?thesis
    by (auto simp: store_ok_def set_update_distinct [OF d] update_present [OF d m] filter_update_present [OF d m]
        distinct_update)
qed

text \<open>A record may also take a new key, when no other record of its scope has it.\<close>

lemma inv_rekey:
  assumes "inv store" "map_of store i = Some old" "ident r = ident old" "ok r" "scope r = scope old"
    and "\<forall>(j, s) \<in> set store. j \<noteq> i \<longrightarrow> scope s = scope r \<longrightarrow> key s \<noteq> key r"
  shows "inv (AList.update i r store)"
proof -
  have d: "distinct (map fst store)" and m: "(i, old) \<in> set store"
    using assms(1,2) by (auto simp: store_ok_def dest: map_of_SomeD)
  have old: "ident old = i" using inv_get [OF assms(1,2)] by simp
  have "distinct (map (\<lambda>(i, r). (scope r, key r)) (AList.update i r store))"
  proof -
    have "inj_on (\<lambda>(i, r). (scope r, key r)) (set store)" "distinct store"
      using assms(1) by (simp_all add: store_ok_def distinct_map)
    then have "inj_on (\<lambda>(i, r). (scope r, key r)) (set (AList.update i r store))"
      using assms(6) unfolding set_update_distinct [OF d] inj_on_def by auto
    moreover have "distinct (AList.update i r store)"
      using distinct_update [OF d, of i r] by (simp add: distinct_map)
    ultimately show ?thesis by (simp add: distinct_map)
  qed
  with assms old m show ?thesis
    by (auto simp: store_ok_def set_update_distinct [OF d] filter_update_present [OF d m] distinct_update)
qed

lemma inv_remove: "inv store \<Longrightarrow> inv (AList.delete i store)"
proof -
  assume a: "inv store"
  have "length (filter (\<lambda>(i, r). scope r = s) (filter (\<lambda>p. fst p \<noteq> i) store)) \<le> limit" for s
  proof -
    have "length (filter (\<lambda>(i, r). scope r = s) (filter (\<lambda>p. fst p \<noteq> i) store)) \<le>
        length (filter (\<lambda>(i, r). scope r = s) store)"
      by (intro list_emb_length [where P = "(=)"] subseq_filter subseq_filter_left)
    also have "\<dots> \<le> limit" using a by (simp add: store_ok_def)
    finally show ?thesis .
  qed
  with a show ?thesis
    by (simp add: store_ok_def delete_filter distinct_map_filter)
qed

lemma move_store_member:
  assumes "valid m" "\<forall>(i, r) \<in> set store. ident r = i \<and> ok r" "move_store (move m) store = Inr next"
    and "(i, r') \<in> set next"
  shows "\<exists>r. (i, r) \<in> set store \<and> move m r = Inr (Some r') \<and> ok r' \<and>
    ident r' = ident r \<and> scope r' = scope r \<and> key r' = key r"
  using assms
proof (induction store arbitrary: "next")
  case (Cons p store)
  obtain j r where p: "p = (j, r)" by fastforce
  with Cons.prems(3) obtain moved rest where t: "move m r = Inr moved" "move_store (move m) store = Inr rest"
    "next = (case moved of None \<Rightarrow> rest | Some r' \<Rightarrow> (j, r') # rest)"
    by (auto simp: bind_result_eq_Inr)
  show ?case
  proof (cases "(i, r') \<in> set rest")
    case True
    with Cons.IH [OF Cons.prems(1) _ t(2)] Cons.prems(2) show ?thesis by auto
  next
    case False
    with Cons.prems(4) t(3) have "moved = Some r'" "i = j" by (auto split: option.splits)
    moreover have "ok r" using Cons.prems(2) p by auto
    ultimately show ?thesis using move_keeps [OF Cons.prems(1)] t(1) p by auto
  qed
qed simp

text \<open>What is left is a subsequence of the table, with ids, scopes and keys unchanged.\<close>

lemma move_store_subseq:
  assumes "valid m" "\<forall>(i, r) \<in> set store. ok r" "move_store (move m) store = Inr next"
  shows "subseq (map (\<lambda>(i, r). (i, scope r, key r)) next) (map (\<lambda>(i, r). (i, scope r, key r)) store)"
  using assms(2,3)
proof (induction store arbitrary: "next")
  case (Cons p store)
  obtain j r where p: "p = (j, r)" by fastforce
  with Cons.prems(2) obtain moved rest where t: "move m r = Inr moved" "move_store (move m) store = Inr rest"
    "next = (case moved of None \<Rightarrow> rest | Some r' \<Rightarrow> (j, r') # rest)"
    by (auto simp: bind_result_eq_Inr)
  have r: "ok r" using Cons.prems(1) p by auto
  have s: "subseq (map (\<lambda>(i, r). (i, scope r, key r)) rest) (map (\<lambda>(i, r). (i, scope r, key r)) store)"
    using Cons.IH [OF _ t(2)] Cons.prems(1) by auto
  show ?case
  proof (cases moved)
    case None
    with s t(3) p show ?thesis by auto
  next
    case (Some r')
    with move_keeps [OF assms(1) r] t(1) have "scope r' = scope r \<and> key r' = key r" by simp
    with s t(3) p Some show ?thesis by simp
  qed
qed simp

lemma inv_move:
  assumes "valid m" "inv store" "move_store (move m) store = Inr next"
  shows "inv next"
proof -
  let ?f = "\<lambda>(i, r). (i, scope r, key r)"
  have a: "\<forall>(i, r) \<in> set store. ident r = i \<and> ok r" using assms(2) by (simp add: store_ok_def)
  have s: "subseq (map ?f next) (map ?f store)"
    using move_store_subseq [OF assms(1) _ assms(3)] a by auto
  have "distinct (map fst (map ?f store))" "distinct (map snd (map ?f store))"
    using assms(2) by (simp_all add: store_ok_def comp_def case_prod_unfold)
  then have "distinct (map fst (map ?f next))" "distinct (map snd (map ?f next))"
    using subseq_distinct [OF subseq_map [OF s]] by blast+
  moreover have "length (filter (\<lambda>(i, r). scope r = x) next) \<le> length (filter (\<lambda>(i, r). scope r = x) store)" for x
  proof -
    have "length (filter (\<lambda>q. fst (snd q) = x) (map ?f next)) \<le> length (filter (\<lambda>q. fst (snd q) = x) (map ?f store))"
      by (intro list_emb_length [where P = "(=)"] subseq_filter s)
    then show ?thesis by (simp add: filter_map comp_def case_prod_unfold)
  qed
  moreover have "\<forall>x. length (filter (\<lambda>(i, r). scope r = x) store) \<le> limit"
    using assms(2) by (simp add: store_ok_def)
  moreover have "\<forall>(i, r) \<in> set next. ident r = i \<and> ok r"
    using move_store_member [OF assms(1) a assms(3)] a by fastforce
  ultimately show ?thesis
    by (auto simp: store_ok_def comp_def case_prod_unfold intro: order.trans)
qed

end

end
