(* ===== verification/Follower.thy ===== *)
theory Follower
  imports Prelude
begin

text \<open>
  The interface between structural changes and the objects that stand for cells of a sheet:
  protected ranges, watch rules, scenarios. A change moves a cell or removes it, and moves an
  object or drops it; what is promised is that an object that stood for a cell stands for it
  where the change put it, and is dropped only when the change removed all of its cells. The
  locale carries this over every sequence of changes, however long a sheet has been edited.
\<close>

fun place_all :: "('m \<Rightarrow> 'p \<Rightarrow> 'p option) \<Rightarrow> 'm list \<Rightarrow> 'p \<Rightarrow> 'p option" where
  "place_all place [] p = Some p"
| "place_all place (m # ms) p = (case place m p of None \<Rightarrow> None | Some q \<Rightarrow> place_all place ms q)"

fun follow_all :: "('m \<Rightarrow> 'r \<Rightarrow> 'r option result) \<Rightarrow> 'm list \<Rightarrow> 'r \<Rightarrow> 'r option result" where
  "follow_all move [] r = Inr (Some r)"
| "follow_all move (m # ms) r =
     bind_result (move m r) (\<lambda>moved. case moved of None \<Rightarrow> Inr None | Some r' \<Rightarrow> follow_all move ms r')"

locale cell_follower =
  fixes valid :: "'m \<Rightarrow> bool"
    and place :: "'m \<Rightarrow> 'p \<Rightarrow> 'p option"
    and ok :: "'r \<Rightarrow> bool"
    and stands_for :: "'r \<Rightarrow> 'p \<Rightarrow> bool"
    and move :: "'m \<Rightarrow> 'r \<Rightarrow> 'r option result"
  assumes move_ok: "valid m \<Longrightarrow> ok r \<Longrightarrow> move m r = Inr (Some r') \<Longrightarrow> ok r'"
    and move_covers: "valid m \<Longrightarrow> ok r \<Longrightarrow> move m r = Inr (Some r') \<Longrightarrow> stands_for r p \<Longrightarrow>
      place m p = Some q \<Longrightarrow> stands_for r' q"
    and move_drops: "valid m \<Longrightarrow> ok r \<Longrightarrow> move m r = Inr None \<Longrightarrow> stands_for r p \<Longrightarrow> place m p = None"
begin

lemma follow_all_ok: "list_all valid ms \<Longrightarrow> ok r \<Longrightarrow> follow_all move ms r = Inr (Some r') \<Longrightarrow> ok r'"
proof (induction ms arbitrary: r)
  case (Cons m ms)
  then show ?case by (auto simp: bind_result_eq_Inr split: option.splits intro: move_ok)
qed simp

lemma follow_all_covers:
  assumes "list_all valid ms" "ok r" "follow_all move ms r = Inr res" "stands_for r p" "place_all place ms p = Some q"
  shows "\<exists>r'. res = Some r' \<and> stands_for r' q"
  using assms
proof (induction ms arbitrary: r p)
  case (Cons m ms)
  then obtain moved p' where m: "move m r = Inr moved" "place m p = Some p'" "place_all place ms p' = Some q"
    by (auto simp: bind_result_eq_Inr split: option.splits)
  with Cons.prems move_drops [of m r p] obtain r' where r': "moved = Some r'" by (cases moved) auto
  have "ok r'" "stands_for r' p'"
    using Cons.prems m r' move_ok [of m r r'] move_covers [of m r r' p p'] by auto
  with Cons m r' show ?case by auto
qed auto

lemma follow_all_gone:
  assumes "list_all valid ms" "ok r" "follow_all move ms r = Inr None" "stands_for r p"
  shows "place_all place ms p = None"
  using follow_all_covers [OF assms] by (cases "place_all place ms p") auto

end

end
