(* ===== verification/WatchRules.thy ===== *)
theory WatchRules
  imports SheetStructure Utf8 RuleStore Follower "HOL-Library.List_Lexorder" "HOL-Library.Char_ord"
begin

text \<open>
  Watch rules: "tell me when this range changes".
  \<^verbatim>\<open>internal/workbook/watch_rule.go\<close> and \<^verbatim>\<open>memory_watch_rule.go\<close>. A rule with an
  empty range watches the whole sheet. The notices of one change are an association list by
  the watcher's name in lower case, in the order the rules first produce them.
\<close>

section \<open>Definitions\<close>

definition MaxWatchRules :: nat where "MaxWatchRules = 200"

record WatchRule =
  wrID :: string
  wrWorkbookID :: string
  wrSheetID :: string
  wrCreateKey :: string
  wrWatcher :: string
  wrRange :: string
  wrLabel :: string
  wrEnabled :: bool
  wrRevision :: int
  wrCreatedBy :: string
  wrUpdatedBy :: string
  wrCreatedAt :: int
  wrUpdatedAt :: int

record CreateWatchRuleInput =
  cwIdempotencyKey :: string
  cwSheetID :: string
  cwWatcher :: string
  cwRange :: string
  cwLabel :: string

record UpdateWatchRuleInput =
  uwRange :: "string option"
  uwLabel :: "string option"
  uwEnabled :: "bool option"
  uwExpectedRevision :: "int option"

definition normalizeWatchRule :: "WatchRule \<Rightarrow> WatchRule result" where
  "normalizeWatchRule raw =
     (let item = raw\<lparr>wrWatcher := trim_space (wrWatcher raw)\<rparr> in
      if wrWatcher item = [] then Inl ErrInvalid
      else
        let item = item\<lparr>wrLabel := trim_space (wrLabel item)\<rparr> in
        if rune_count (wrLabel item) > 200 then Inl ErrInvalid
        else
          let target = trim_space (wrRange item) in
          if target = [] then Inr (item\<lparr>wrRange := []\<rparr>)
          else case Parse target of
              Inl _ \<Rightarrow> Inl ErrInvalid
            | Inr parsed \<Rightarrow> Inr (item\<lparr>wrRange := range_address parsed\<rparr>))"

definition WatchRuleCovers :: "WatchRule \<Rightarrow> int \<Rightarrow> int \<Rightarrow> bool" where
  "WatchRuleCovers rule row column =
     (if trim_space (wrRange rule) = [] then True
      else case Parse (wrRange rule) of
          Inl _ \<Rightarrow> False
        | Inr parsed \<Rightarrow> row \<ge> Row (Start parsed) \<and> row \<le> Row (End parsed) \<and>
            column \<ge> Column (Start parsed) \<and> column \<le> Column (End parsed))"

record WatchNotice =
  wnWatcher :: string
  wnLabel :: string
  wnRanges :: "string list"
  wnFirstCell :: string
  wnCells :: int

definition appendUnique :: "string list \<Rightarrow> string \<Rightarrow> string list" where
  "appendUnique items value = (if value \<in> set items then items else items @ [value])"

definition countChanged :: "WatchRule \<Rightarrow> CellCoordinate list \<Rightarrow> int \<times> string" where
  "countChanged rule changed =
     foldl (\<lambda>(count, first) cell.
       if \<not> WatchRuleCovers rule (ccRow cell) (ccColumn cell) then (count, first)
       else (count + 1, if count = 0 then Address (ccRow cell) (ccColumn cell) else first)) (0, []) changed"

definition emptyNotice :: WatchNotice where
  "emptyNotice = \<lparr>wnWatcher = [], wnLabel = [], wnRanges = [], wnFirstCell = [], wnCells = 0\<rparr>"

definition noticeStep ::
  "string \<Rightarrow> CellCoordinate list \<Rightarrow> (string \<times> WatchNotice) list \<Rightarrow> WatchRule \<Rightarrow> (string \<times> WatchNotice) list" where
  "noticeStep actor changed notices rule =
     (if \<not> wrEnabled rule \<or> equal_fold (trim_space (wrWatcher rule)) (trim_space actor) then notices
      else case countChanged rule changed of (count, first) \<Rightarrow>
        if count = 0 then notices
        else
          let key = to_lower (trim_space (wrWatcher rule));
              notice = (case map_of notices key of None \<Rightarrow> emptyNotice | Some n \<Rightarrow> n) in
          AList.update key
            (notice\<lparr>wnWatcher := wrWatcher rule, wnCells := wnCells notice + count,
                    wnFirstCell := (if wnFirstCell notice = [] then first else wnFirstCell notice),
                    wnLabel := (if wnLabel notice = [] then wrLabel rule else wnLabel notice),
                    wnRanges := appendUnique (wnRanges notice) (wrRange rule)\<rparr>) notices)"

definition WatchersToNotify ::
  "WatchRule list \<Rightarrow> string \<Rightarrow> CellCoordinate list \<Rightarrow> (string \<times> WatchNotice) list" where
  "WatchersToNotify rules actor changed = foldl (noticeStep actor changed) [] rules"

text \<open>
  \<open>transformRangeAddress\<close> is the wrapper of \<^verbatim>\<open>conditional_format.go\<close> the objects of a
  sheet call; \<open>None\<close> is a rule that does not survive.
\<close>

definition transformRangeAddress :: "string \<Rightarrow> StructuralMutation \<Rightarrow> (string \<times> bool) result" where
  "transformRangeAddress value input = TransformRangeAddress value (formulaStructuralChange input [] [])"

definition transformWatchRuleForStructure ::
  "WatchRule \<Rightarrow> StructuralMutation \<Rightarrow> string \<Rightarrow> int \<Rightarrow> WatchRule option result" where
  "transformWatchRuleForStructure rule input actor now =
     (if trim_space (wrRange rule) = [] then Inr (Some rule)
      else case transformRangeAddress (wrRange rule) input of
          Inl _ \<Rightarrow> Inl ErrInvalid
        | Inr (transformed, exists) \<Rightarrow>
            if \<not> exists then Inr None
            else if transformed = wrRange rule then Inr (Some rule)
            else bind_result
                (normalizeWatchRule (rule\<lparr>wrRange := transformed, wrRevision := wrRevision rule + 1,
                                          wrUpdatedBy := actor, wrUpdatedAt := now\<rparr>))
                (\<lambda>normalized. Inr (Some normalized)))"

section \<open>The store\<close>

record watch_store =
  wtWorkbooks :: "string \<Rightarrow> bool"
  wtSheetToWB :: "string \<Rightarrow> string option"
  wtRules :: "(string \<times> WatchRule) list"

definition watchRulesForSheetLocked :: "watch_store \<Rightarrow> string \<Rightarrow> WatchRule list" where
  "watchRulesForSheetLocked r sheetID =
     sort_key wrID (filter (\<lambda>item. wrSheetID item = sheetID) (map snd (wtRules r)))"

definition newWatchRule :: "string \<Rightarrow> string \<Rightarrow> CreateWatchRuleInput \<Rightarrow> WatchRule" where
  "newWatchRule workbookID actor input =
     (let watcher = trim_space (cwWatcher input) in
      \<lparr>wrID = [], wrWorkbookID = workbookID, wrSheetID = cwSheetID input,
       wrCreateKey = trim_space (cwIdempotencyKey input), wrWatcher = (if watcher = [] then actor else watcher),
       wrRange = cwRange input, wrLabel = cwLabel input, wrEnabled = True, wrRevision = 0,
       wrCreatedBy = actor, wrUpdatedBy = actor, wrCreatedAt = 0, wrUpdatedAt = 0\<rparr>)"

definition CreateWatchRule ::
  "string \<Rightarrow> int \<Rightarrow> string \<Rightarrow> string \<Rightarrow> CreateWatchRuleInput \<Rightarrow> watch_store \<Rightarrow> WatchRule result \<times> watch_store" where
  "CreateWatchRule newID now workbookID actor input r =
     (let key = trim_space (cwIdempotencyKey input) in
      if key = [] then (Inl ErrInvalid, r)
      else if \<not> wtWorkbooks r workbookID then (Inl ErrNotFound, r)
      else if wtSheetToWB r (cwSheetID input) \<noteq> Some workbookID then (Inl ErrInvalid, r)
      else case List.find (\<lambda>item. wrWorkbookID item = workbookID \<and> wrCreateKey item = key) (map snd (wtRules r)) of
          Some item \<Rightarrow> (Inr item, r)
        | None \<Rightarrow>
            if length (filter (\<lambda>(_, item). wrWorkbookID item = workbookID) (wtRules r)) \<ge> MaxWatchRules
            then (Inl ErrInvalid, r)
            else case normalizeWatchRule (newWatchRule workbookID actor input) of
                Inl e \<Rightarrow> (Inl e, r)
              | Inr item \<Rightarrow>
                  if list_ex (\<lambda>other. equal_fold (wrWatcher other) (wrWatcher item) \<and> wrRange other = wrRange item)
                       (watchRulesForSheetLocked r (wrSheetID item))
                  then (Inl ErrDuplicateName, r)
                  else
                    let item = item\<lparr>wrID := newID, wrRevision := 1, wrCreatedAt := now, wrUpdatedAt := now\<rparr> in
                    (Inr item, r\<lparr>wtRules := AList.update newID item (wtRules r)\<rparr>))"

definition ListWatchRules :: "string \<Rightarrow> string \<Rightarrow> watch_store \<Rightarrow> WatchRule list result" where
  "ListWatchRules workbookID watcher r =
     (if \<not> wtWorkbooks r workbookID then Inl ErrNotFound
      else Inr (sort_key wrID (filter (\<lambda>item. wrWorkbookID item = workbookID \<and>
             equal_fold (wrWatcher item) (trim_space watcher)) (map snd (wtRules r)))))"

definition SheetWatchRules :: "string \<Rightarrow> watch_store \<Rightarrow> WatchRule list" where
  "SheetWatchRules sheetID r = watchRulesForSheetLocked r sheetID"

definition UpdateWatchRule ::
  "int \<Rightarrow> string \<Rightarrow> string \<Rightarrow> UpdateWatchRuleInput \<Rightarrow> watch_store \<Rightarrow> WatchRule result \<times> watch_store" where
  "UpdateWatchRule now ruleID actor input r =
     (case map_of (wtRules r) ruleID of
        None \<Rightarrow> (Inl ErrNotFound, r)
      | Some current \<Rightarrow>
          if uwExpectedRevision input \<noteq> None \<and> uwExpectedRevision input \<noteq> Some (wrRevision current)
          then (Inl ErrVersionConflict, r)
          else
            let updated = current\<lparr>wrRange := given (uwRange input) (wrRange current),
                  wrLabel := given (uwLabel input) (wrLabel current),
                  wrEnabled := given (uwEnabled input) (wrEnabled current), wrUpdatedBy := actor\<rparr> in
            case normalizeWatchRule updated of
              Inl e \<Rightarrow> (Inl e, r)
            | Inr normalized \<Rightarrow>
                let rule = normalized\<lparr>wrRevision := wrRevision current + 1, wrUpdatedAt := now\<rparr> in
                (Inr rule, r\<lparr>wtRules := AList.update ruleID rule (wtRules r)\<rparr>))"

definition DeleteWatchRule :: "string \<Rightarrow> int option \<Rightarrow> watch_store \<Rightarrow> unit result \<times> watch_store" where
  "DeleteWatchRule ruleID expectedRevision r =
     (case map_of (wtRules r) ruleID of
        None \<Rightarrow> (Inl ErrNotFound, r)
      | Some current \<Rightarrow>
          if expectedRevision \<noteq> None \<and> expectedRevision \<noteq> Some (wrRevision current)
          then (Inl ErrVersionConflict, r)
          else (Inr (), r\<lparr>wtRules := AList.delete ruleID (wtRules r)\<rparr>))"

definition GetWatchRule :: "string \<Rightarrow> watch_store \<Rightarrow> WatchRule result" where
  "GetWatchRule ruleID r = (case map_of (wtRules r) ruleID of None \<Rightarrow> Inl ErrNotFound | Some item \<Rightarrow> Inr item)"

text \<open>The rules after a structural change of one sheet, in \<^verbatim>\<open>ApplyStructure\<close>.\<close>

fun structureWatchRules ::
  "string \<Rightarrow> StructuralMutation \<Rightarrow> int \<Rightarrow> (string \<times> WatchRule) list \<Rightarrow> (string \<times> WatchRule) list result" where
  "structureWatchRules targetID input now [] = Inr []"
| "structureWatchRules targetID input now ((ruleID, rule) # rules) =
     (if wrSheetID rule \<noteq> targetID
      then bind_result (structureWatchRules targetID input now rules) (\<lambda>next. Inr ((ruleID, rule) # next))
      else bind_result (transformWatchRuleForStructure rule input (smActorID input) now) (\<lambda>updated.
        bind_result (structureWatchRules targetID input now rules) (\<lambda>next.
          Inr (case updated of None \<Rightarrow> next | Some rule' \<Rightarrow> (ruleID, rule') # next))))"

section \<open>Rules in normal form\<close>

definition watch_ok :: "WatchRule \<Rightarrow> bool" where
  "watch_ok rule = (normalizeWatchRule rule = Inr rule \<and> 1 \<le> wrRevision rule)"

text \<open>What a rule watches: a range it names, or the whole sheet.\<close>

definition watched_range :: "string \<Rightarrow> string result" where
  "watched_range address =
     (let target = trim_space address in
      if target = [] then Inr []
      else case Parse target of Inl _ \<Rightarrow> Inl ErrInvalid | Inr parsed \<Rightarrow> Inr (range_address parsed))"

lemma normalizeWatchRule_alt:
  "normalizeWatchRule raw =
     (if trim_space (wrWatcher raw) = [] \<or> rune_count (trim_space (wrLabel raw)) > 200 then Inl ErrInvalid
      else bind_result (watched_range (wrRange raw)) (\<lambda>range.
        Inr (raw\<lparr>wrWatcher := trim_space (wrWatcher raw), wrLabel := trim_space (wrLabel raw), wrRange := range\<rparr>)))"
  by (cases "Parse (trim_space (wrRange raw))") (simp_all add: normalizeWatchRule_def watched_range_def Let_def)

lemma Parse_trim [simp]: "Parse (trim_space s) = Parse s"
  by (simp add: Parse_def)

lemma watched_range_again: "watched_range a = Inr b \<Longrightarrow> watched_range b = Inr b"
proof (cases "trim_space a = []")
  case False
  assume "watched_range a = Inr b"
  with False obtain x where x: "Parse a = Inr x" "b = range_address x"
    by (auto simp: watched_range_def Let_def split: sum.splits)
  then have w: "well_formed_range x" by (intro Parse_well_formed)
  moreover have "range_address x \<noteq> []" by (simp add: range_address_def)
  ultimately show ?thesis using x by (simp add: watched_range_def range_address_trim Parse_range_address)
qed (simp add: watched_range_def Let_def)

lemma watch_ok_iff:
  "watch_ok rule \<longleftrightarrow> trim_space (wrWatcher rule) = wrWatcher rule \<and> wrWatcher rule \<noteq> [] \<and>
     trim_space (wrLabel rule) = wrLabel rule \<and> rune_count (wrLabel rule) \<le> 200 \<and>
     watched_range (wrRange rule) = Inr (wrRange rule) \<and> 1 \<le> wrRevision rule"
proof -
  have "rule\<lparr>wrWatcher := a, wrLabel := b, wrRange := c\<rparr> = rule \<longleftrightarrow>
      a = wrWatcher rule \<and> b = wrLabel rule \<and> c = wrRange rule" for a b c
    by (cases rule) auto
  then show ?thesis by (auto simp: watch_ok_def normalizeWatchRule_alt bind_result_eq_Inr)
qed

lemma normalizeWatchRule_ok:
  assumes "normalizeWatchRule raw = Inr n"
  shows "1 \<le> wrRevision rule \<Longrightarrow> wrWatcher rule = wrWatcher n \<Longrightarrow> wrLabel rule = wrLabel n \<Longrightarrow>
      wrRange rule = wrRange n \<Longrightarrow> watch_ok rule"
    and "wrID n = wrID raw" "wrWorkbookID n = wrWorkbookID raw" "wrSheetID n = wrSheetID raw"
      "wrCreateKey n = wrCreateKey raw" "wrRevision n = wrRevision raw" "wrEnabled n = wrEnabled raw"
      "wrWatcher n = trim_space (wrWatcher raw)" "watched_range (wrRange raw) = Inr (wrRange n)"
  using assms watched_range_again [of "wrRange raw"]
  by (auto simp: normalizeWatchRule_alt bind_result_eq_Inr watch_ok_iff split: if_splits)

lemma WatchRuleCovers_iff:
  "WatchRuleCovers rule row column \<longleftrightarrow> trim_space (wrRange rule) = [] \<or> address_covers (wrRange rule) row column"
  by (auto simp: WatchRuleCovers_def address_covers_def Contains_def split: sum.splits)

lemma watched_range_covers:
  "watched_range a = Inr b \<Longrightarrow> trim_space a \<noteq> [] \<Longrightarrow> trim_space b \<noteq> [] \<and> address_covers b = address_covers a"
proof -
  assume a: "watched_range a = Inr b" "trim_space a \<noteq> []"
  then obtain x where x: "Parse a = Inr x" "b = range_address x"
    by (auto simp: watched_range_def Let_def split: sum.splits)
  then have w: "well_formed_range x" by (intro Parse_well_formed)
  then have "Parse b = Inr x" "trim_space b = b" "b \<noteq> []"
    by (simp_all add: x(2) Parse_range_address range_address_trim) (simp add: range_address_def)
  with x show ?thesis by (auto simp: address_covers_def fun_eq_iff)
qed

section \<open>Rules through structural changes\<close>

definition move_watch :: "StructuralMutation \<times> int \<Rightarrow> WatchRule \<Rightarrow> WatchRule option result" where
  "move_watch m rule = transformWatchRuleForStructure rule (fst m) (smActorID (fst m)) (snd m)"

lemma transformWatchRule_Some:
  assumes "transformWatchRuleForStructure rule input actor now = Inr (Some rule')" "trim_space (wrRange rule) \<noteq> []"
  obtains transformed where
    "TransformRangeAddress (wrRange rule) (formulaStructuralChange input [] []) = Inr (transformed, True)"
    "rule' = rule \<and> transformed = wrRange rule \<or>
     normalizeWatchRule (rule\<lparr>wrRange := transformed, wrRevision := wrRevision rule + 1,
       wrUpdatedBy := actor, wrUpdatedAt := now\<rparr>) = Inr rule'"
  using assms unfolding transformWatchRuleForStructure_def transformRangeAddress_def
  by (auto simp: bind_result_eq_Inr split: sum.splits prod.splits if_splits)

lemma trim_nonempty_transformed:
  "valid_change c \<Longrightarrow> scAxis c = ''row'' \<or> scAxis c = ''column'' \<Longrightarrow>
   TransformRangeAddress a c = Inr (b, True) \<Longrightarrow> trim_space b \<noteq> []"
  using transformed_address(2) [of c a b] Parse_blank [of b] by auto

lemma transformWatchRule_follows:
  assumes "valid_mutation input" "watch_ok rule"
    and "transformWatchRuleForStructure rule input actor now = Inr (Some rule')"
  shows "watch_ok rule' \<and> wrID rule' = wrID rule \<and> wrWorkbookID rule' = wrWorkbookID rule \<and>
      wrCreateKey rule' = wrCreateKey rule \<and> wrSheetID rule' = wrSheetID rule \<and>
      wrWatcher rule' = wrWatcher rule \<and> wrEnabled rule' = wrEnabled rule"
    and "move_cell (formulaStructuralChange input [] []) (row, column) = Some (row', column') \<Longrightarrow>
      WatchRuleCovers rule row column \<Longrightarrow> WatchRuleCovers rule' row' column'"
    and "smAction input \<noteq> ''move'' \<Longrightarrow>
      move_cell (formulaStructuralChange input [] []) (row, column) = Some (row', column') \<Longrightarrow>
      WatchRuleCovers rule' row' column' \<Longrightarrow> WatchRuleCovers rule row column"
proof -
  let ?c = "formulaStructuralChange input [] []"
  have v: "valid_change ?c" "scAxis ?c = ''row'' \<or> scAxis ?c = ''column''" and act: "scAction ?c = smAction input"
    using assms(1) by (simp_all add: valid_mutation_def mutation_change_def formulaStructuralChange_def)
  have "(watch_ok rule' \<and> wrID rule' = wrID rule \<and> wrWorkbookID rule' = wrWorkbookID rule \<and>
      wrCreateKey rule' = wrCreateKey rule \<and> wrSheetID rule' = wrSheetID rule \<and>
      wrWatcher rule' = wrWatcher rule \<and> wrEnabled rule' = wrEnabled rule) \<and>
    (move_cell ?c (row, column) = Some (row', column') \<longrightarrow>
      (WatchRuleCovers rule row column \<longrightarrow> WatchRuleCovers rule' row' column') \<and>
      (smAction input \<noteq> ''move'' \<longrightarrow> WatchRuleCovers rule' row' column' \<longrightarrow> WatchRuleCovers rule row column))"
  proof (cases "trim_space (wrRange rule) = []")
    case True
    with assms show ?thesis by (simp add: transformWatchRuleForStructure_def WatchRuleCovers_iff)
  next
    case False
    obtain t where t: "TransformRangeAddress (wrRange rule) ?c = Inr (t, True)"
      and r: "rule' = rule \<and> t = wrRange rule \<or>
        normalizeWatchRule (rule\<lparr>wrRange := t, wrRevision := wrRevision rule + 1,
          wrUpdatedBy := actor, wrUpdatedAt := now\<rparr>) = Inr rule'"
      by (rule transformWatchRule_Some [OF assms(3) False])
    have ne: "trim_space t \<noteq> []" using trim_nonempty_transformed [OF v t] .
    have cov: "trim_space (wrRange rule') \<noteq> [] \<and> address_covers (wrRange rule') = address_covers t"
      using r
    proof
      assume n: "normalizeWatchRule (rule\<lparr>wrRange := t, wrRevision := wrRevision rule + 1,
          wrUpdatedBy := actor, wrUpdatedAt := now\<rparr>) = Inr rule'"
      from normalizeWatchRule_ok(9) [OF n] watched_range_covers [OF _ ne] show ?thesis by simp
    qed (use ne in simp)
    have keep: "watch_ok rule' \<and> wrID rule' = wrID rule \<and> wrWorkbookID rule' = wrWorkbookID rule \<and>
      wrCreateKey rule' = wrCreateKey rule \<and> wrSheetID rule' = wrSheetID rule \<and>
      wrWatcher rule' = wrWatcher rule \<and> wrEnabled rule' = wrEnabled rule"
      using r
    proof
      assume n: "normalizeWatchRule (rule\<lparr>wrRange := t, wrRevision := wrRevision rule + 1,
          wrUpdatedBy := actor, wrUpdatedAt := now\<rparr>) = Inr rule'"
      have "1 \<le> wrRevision rule'" using normalizeWatchRule_ok(6) [OF n] assms(2) by (simp add: watch_ok_iff)
      then have "watch_ok rule'" using normalizeWatchRule_ok(1) [OF n] by blast
      with normalizeWatchRule_ok(2-8) [OF n] assms(2) show ?thesis by (simp add: watch_ok_iff)
    qed (use assms(2) in simp)
    then show ?thesis
      using transformed_address(3,4) [OF v t] False cov act by (simp add: WatchRuleCovers_iff)
  qed
  then show "watch_ok rule' \<and> wrID rule' = wrID rule \<and> wrWorkbookID rule' = wrWorkbookID rule \<and>
      wrCreateKey rule' = wrCreateKey rule \<and> wrSheetID rule' = wrSheetID rule \<and>
      wrWatcher rule' = wrWatcher rule \<and> wrEnabled rule' = wrEnabled rule"
    and "move_cell ?c (row, column) = Some (row', column') \<Longrightarrow>
      WatchRuleCovers rule row column \<Longrightarrow> WatchRuleCovers rule' row' column'"
    and "smAction input \<noteq> ''move'' \<Longrightarrow> move_cell ?c (row, column) = Some (row', column') \<Longrightarrow>
      WatchRuleCovers rule' row' column' \<Longrightarrow> WatchRuleCovers rule row column"
    by blast+
qed

lemma transformWatchRule_drops:
  assumes "valid_mutation input" "transformWatchRuleForStructure rule input actor now = Inr None"
    and "WatchRuleCovers rule row column"
  shows "move_cell (formulaStructuralChange input [] []) (row, column) = None"
proof -
  let ?c = "formulaStructuralChange input [] []"
  have v: "valid_change ?c" using assms(1) by (simp add: valid_mutation_def mutation_change_def)
  obtain t where "TransformRangeAddress (wrRange rule) ?c = Inr (t, False)" "trim_space (wrRange rule) \<noteq> []"
    using assms(2) unfolding transformWatchRuleForStructure_def transformRangeAddress_def
    by (auto simp: bind_result_eq_Inr split: sum.splits prod.splits if_splits)
  with dropped_address [OF v] assms(3) show ?thesis by (simp add: WatchRuleCovers_iff)
qed

interpretation watch_follower: cell_follower "\<lambda>m. valid_mutation (fst m)" moved_cell watch_ok
  "\<lambda>rule p. WatchRuleCovers rule (fst p) (snd p)" move_watch
proof unfold_locales
  fix m :: "StructuralMutation \<times> int" and rule rule' p q
  assume v: "valid_mutation (fst m)" and ok: "watch_ok rule"
  show "watch_ok rule'" if "move_watch m rule = Inr (Some rule')"
    using transformWatchRule_follows(1) [OF v ok] that by (simp add: move_watch_def)
  show "WatchRuleCovers rule' (fst q) (snd q)"
    if "move_watch m rule = Inr (Some rule')" "WatchRuleCovers rule (fst p) (snd p)" "moved_cell m p = Some q"
    using transformWatchRule_follows(2) [OF v ok, of _ _ rule' "fst p" "snd p" "fst q" "snd q"] that
    by (simp add: move_watch_def moved_cell_def)
  show "moved_cell m p = None" if "move_watch m rule = Inr None" "WatchRuleCovers rule (fst p) (snd p)"
    using transformWatchRule_drops [OF v _ that(2)] that(1) by (simp add: move_watch_def moved_cell_def)
qed

section \<open>The store keeps its rules\<close>

abbreviation watch_rules_ok :: "(string \<times> WatchRule) list \<Rightarrow> bool" where
  "watch_rules_ok \<equiv> store_ok wrID wrWorkbookID wrCreateKey watch_ok MaxWatchRules"

definition move_sheet_watch :: "string \<times> StructuralMutation \<times> int \<Rightarrow> WatchRule \<Rightarrow> WatchRule option result" where
  "move_sheet_watch m rule = (if wrSheetID rule \<noteq> fst m then Inr (Some rule) else move_watch (snd m) rule)"

interpretation watch_rules: rule_store wrID wrWorkbookID wrCreateKey watch_ok MaxWatchRules
  "\<lambda>m. valid_mutation (fst (snd m))" move_sheet_watch
proof unfold_locales
  fix m :: "string \<times> StructuralMutation \<times> int" and rule rule'
  assume "valid_mutation (fst (snd m))" "watch_ok rule" "move_sheet_watch m rule = Inr (Some rule')"
  then show "watch_ok rule' \<and> wrID rule' = wrID rule \<and> wrWorkbookID rule' = wrWorkbookID rule \<and>
      wrCreateKey rule' = wrCreateKey rule"
    using transformWatchRule_follows(1) [of "fst (snd m)" rule "smActorID (fst (snd m))" "snd (snd m)" rule']
    by (auto simp: move_sheet_watch_def move_watch_def split: if_splits)
qed

lemma structureWatchRules_move_store:
  "structureWatchRules target input now store = move_store (move_sheet_watch (target, input, now)) store"
  by (induction store) (auto simp: move_sheet_watch_def move_watch_def split: option.splits)

lemma CreateWatchRule_ok:
  assumes "watch_rules_ok (wtRules r)" "newID \<notin> fst ` set (wtRules r)"
  shows "watch_rules_ok (wtRules (snd (CreateWatchRule newID now workbookID actor input r)))"
proof (cases "wtRules (snd (CreateWatchRule newID now workbookID actor input r)) = wtRules r")
  case False
  let ?key = "trim_space (cwIdempotencyKey input)"
  let ?p = "\<lambda>item. wrWorkbookID item = workbookID \<and> wrCreateKey item = ?key"
  from False obtain n where find: "List.find ?p (map snd (wtRules r)) = None"
    and count: "length (filter (\<lambda>(_, item). wrWorkbookID item = workbookID) (wtRules r)) < MaxWatchRules"
    and n: "normalizeWatchRule (newWatchRule workbookID actor input) = Inr n"
    and u: "wtRules (snd (CreateWatchRule newID now workbookID actor input r)) =
      AList.update newID (n\<lparr>wrID := newID, wrRevision := 1, wrCreatedAt := now, wrUpdatedAt := now\<rparr>) (wtRules r)"
    unfolding CreateWatchRule_def Let_def by (auto split: option.splits sum.splits if_splits)
  define new where "new = n\<lparr>wrID := newID, wrRevision := 1, wrCreatedAt := now, wrUpdatedAt := now\<rparr>"
  have k: "wrID new = newID" "wrWorkbookID new = workbookID" "wrCreateKey new = ?key"
    using normalizeWatchRule_ok(3,5) [OF n] by (simp_all add: new_def newWatchRule_def Let_def)
  have "watch_ok new" by (rule normalizeWatchRule_ok(1) [OF n]) (simp_all add: new_def)
  moreover have "\<forall>(j, s) \<in> set (wtRules r). wrWorkbookID s = wrWorkbookID new \<longrightarrow> wrCreateKey s \<noteq> wrCreateKey new"
    using find unfolding find_None_iff k by force
  ultimately show ?thesis
    using watch_rules.inv_add [OF assms k(1)] count unfolding u new_def [symmetric] k by simp
qed (use assms in simp)

lemma UpdateWatchRule_ok:
  assumes "watch_rules_ok (wtRules r)"
  shows "watch_rules_ok (wtRules (snd (UpdateWatchRule now ruleID actor input r)))"
proof (cases "wtRules (snd (UpdateWatchRule now ruleID actor input r)) = wtRules r")
  case False
  then obtain current raw n where c: "map_of (wtRules r) ruleID = Some current"
    and n: "normalizeWatchRule raw = Inr n"
    and k: "wrID raw = wrID current" "wrWorkbookID raw = wrWorkbookID current" "wrCreateKey raw = wrCreateKey current"
    and u: "wtRules (snd (UpdateWatchRule now ruleID actor input r)) =
      AList.update ruleID (n\<lparr>wrRevision := wrRevision current + 1, wrUpdatedAt := now\<rparr>) (wtRules r)"
    unfolding UpdateWatchRule_def Let_def by (auto split: option.splits sum.splits if_splits)
  have "watch_ok current" using watch_rules.inv_get [OF assms c] by simp
  then have "watch_ok (n\<lparr>wrRevision := wrRevision current + 1, wrUpdatedAt := now\<rparr>)"
    by (intro normalizeWatchRule_ok(1) [OF n]) (simp_all add: watch_ok_iff)
  then show ?thesis
    unfolding u using watch_rules.inv_replace [OF assms c] normalizeWatchRule_ok(2,3,5) [OF n] k by simp
qed (use assms in simp)

lemma DeleteWatchRule_ok:
  "watch_rules_ok (wtRules r) \<Longrightarrow> watch_rules_ok (wtRules (snd (DeleteWatchRule ruleID expected r)))"
  by (auto simp: DeleteWatchRule_def watch_rules.inv_remove split: option.splits)

section \<open>Notices\<close>

abbreviation covered :: "WatchRule \<Rightarrow> CellCoordinate list \<Rightarrow> CellCoordinate list" where
  "covered rule changed \<equiv> filter (\<lambda>cell. WatchRuleCovers rule (ccRow cell) (ccColumn cell)) changed"

lemma countChanged_eq:
  "countChanged rule changed =
     (int (length (covered rule changed)),
      case covered rule changed of [] \<Rightarrow> [] | cell # _ \<Rightarrow> Address (ccRow cell) (ccColumn cell))"
proof (induction changed rule: rev_induct)
  case Nil
  show ?case by (simp add: countChanged_def)
next
  case (snoc cell changed)
  have "countChanged rule (changed @ [cell]) =
      (case countChanged rule changed of (count, first) \<Rightarrow>
         if \<not> WatchRuleCovers rule (ccRow cell) (ccColumn cell) then (count, first)
         else (count + 1, if count = 0 then Address (ccRow cell) (ccColumn cell) else first))"
    by (simp add: countChanged_def split: prod.splits)
  with snoc show ?case by (cases "covered rule changed") auto
qed

text \<open>The rules whose owner is told about a change made by someone else.\<close>

definition speaks :: "string \<Rightarrow> CellCoordinate list \<Rightarrow> string \<Rightarrow> WatchRule \<Rightarrow> bool" where
  "speaks actor changed key rule =
     (wrEnabled rule \<and> \<not> equal_fold (trim_space (wrWatcher rule)) (trim_space actor) \<and>
      to_lower (trim_space (wrWatcher rule)) = key \<and> covered rule changed \<noteq> [])"

definition notice_for :: "string \<Rightarrow> CellCoordinate list \<Rightarrow> WatchRule list \<Rightarrow> string \<Rightarrow> WatchNotice option" where
  "notice_for actor changed rules key =
     (let mine = filter (speaks actor changed key) rules in
      if mine = [] then None
      else Some
        \<lparr>wnWatcher = wrWatcher (last mine),
         wnLabel = (case filter (\<lambda>l. l \<noteq> []) (map wrLabel mine) of [] \<Rightarrow> [] | l # _ \<Rightarrow> l),
         wnRanges = foldl appendUnique [] (map wrRange mine),
         wnFirstCell = (let cell = hd (covered (hd mine) changed) in Address (ccRow cell) (ccColumn cell)),
         wnCells = (\<Sum>rule\<leftarrow>mine. int (length (covered rule changed)))\<rparr>)"

text \<open>The cells that can be changed have an address, so the first one found is kept.\<close>

definition addressable :: "CellCoordinate list \<Rightarrow> bool" where
  "addressable changed = list_all (\<lambda>cell. 1 \<le> ccRow cell \<and> 1 \<le> ccColumn cell) changed"

lemma first_address:
  assumes "addressable changed" "covered rule changed \<noteq> []"
  shows "Address (ccRow (hd (covered rule changed))) (ccColumn (hd (covered rule changed))) \<noteq> []"
proof -
  have "hd (covered rule changed) \<in> set changed" using hd_in_set [OF assms(2)] by simp
  with assms(1) have "1 \<le> ccRow (hd (covered rule changed))" "1 \<le> ccColumn (hd (covered rule changed))"
    unfolding addressable_def list_all_iff by blast+
  then show ?thesis by (rule Address_not_Nil)
qed

lemma noticeStep_map_of:
  "map_of (noticeStep actor changed notices rule) key =
     (if speaks actor changed key rule
      then Some (let notice = (case map_of notices key of None \<Rightarrow> emptyNotice | Some n \<Rightarrow> n);
                     cell = hd (covered rule changed) in
        notice\<lparr>wnWatcher := wrWatcher rule, wnCells := wnCells notice + int (length (covered rule changed)),
               wnFirstCell := (if wnFirstCell notice = [] then Address (ccRow cell) (ccColumn cell) else wnFirstCell notice),
               wnLabel := (if wnLabel notice = [] then wrLabel rule else wnLabel notice),
               wnRanges := appendUnique (wnRanges notice) (wrRange rule)\<rparr>)
      else map_of notices key)"
  by (cases "covered rule changed")
    (auto simp: noticeStep_def speaks_def countChanged_eq update_conv' Let_def)

lemma notices_eq:
  assumes "addressable changed"
  shows "map_of (WatchersToNotify rules actor changed) key = notice_for actor changed rules key"
proof (induction rules rule: rev_induct)
  case Nil
  show ?case by (simp add: WatchersToNotify_def notice_for_def)
next
  case (snoc rule rules)
  let ?mine = "filter (speaks actor changed key) rules"
  have step: "WatchersToNotify (rules @ [rule]) actor changed =
      noticeStep actor changed (WatchersToNotify rules actor changed) rule"
    by (simp add: WatchersToNotify_def)
  show ?case
  proof (cases "speaks actor changed key rule")
    case False
    then show ?thesis by (simp add: step noticeStep_map_of snoc notice_for_def)
  next
    case True
    show ?thesis
    proof (cases "?mine = []")
      case True
      with \<open>speaks actor changed key rule\<close> show ?thesis
        by (simp add: step noticeStep_map_of snoc notice_for_def emptyNotice_def Let_def)
    next
      case False
      have "speaks actor changed key (hd ?mine)" using hd_in_set [OF False] by simp
      then have "covered (hd ?mine) changed \<noteq> []" by (simp add: speaks_def)
      note first = first_address [OF assms this]
      have label: "y \<noteq> []" if "filter (\<lambda>l. l \<noteq> []) (map wrLabel ?mine) = y # ys" for y ys
        using that by (auto simp: filter_eq_Cons_iff)
      show ?thesis
        using False True first
        by (simp add: step noticeStep_map_of snoc notice_for_def Let_def hd_append split: list.splits)
          (use label in blast)
    qed
  qed
qed

lemma noticeStep_distinct: "distinct (map fst notices) \<Longrightarrow> distinct (map fst (noticeStep actor changed notices rule))"
  by (auto simp: noticeStep_def Let_def distinct_update split: prod.splits)

lemma notices_distinct: "distinct (map fst (WatchersToNotify rules actor changed))"
proof (induction rules rule: rev_induct)
  case (snoc rule rules)
  then show ?case by (simp add: WatchersToNotify_def noticeStep_distinct)
qed (simp add: WatchersToNotify_def)

text \<open>
  C29. One message per person, and only to those it concerns: a change made by \<open>actor\<close> produces
  exactly one notice for each other person who has an enabled rule covering one of the
  changed cells, and none for anybody else, least of all the actor. The notice names the
  first changed cell of the first such rule, the first label that is set, and each watched
  range once.
\<close>

theorem one_notice_per_watcher:
  assumes "addressable changed"
  shows "distinct (map fst (WatchersToNotify rules actor changed)) \<and>
    map_of (WatchersToNotify rules actor changed) key = notice_for actor changed rules key \<and>
    map_of (WatchersToNotify rules actor changed) (to_lower (trim_space actor)) = None"
proof -
  have "\<not> speaks actor changed (to_lower (trim_space actor)) rule" for rule
    by (auto simp: speaks_def equal_fold_def)
  then have "notice_for actor changed rules (to_lower (trim_space actor)) = None"
    by (simp add: notice_for_def)
  with notices_eq [OF assms] notices_distinct show ?thesis by simp
qed

definition sample_watch :: "string \<Rightarrow> string \<Rightarrow> string \<Rightarrow> WatchRule" where
  "sample_watch ruleID watcher address =
     \<lparr>wrID = ruleID, wrWorkbookID = ''w'', wrSheetID = ''s'', wrCreateKey = ruleID, wrWatcher = watcher,
      wrRange = address, wrLabel = [], wrEnabled = True, wrRevision = 1, wrCreatedBy = watcher,
      wrUpdatedBy = watcher, wrCreatedAt = 0, wrUpdatedAt = 0\<rparr>"

definition changed_cell :: "int \<Rightarrow> int \<Rightarrow> CellCoordinate" where
  "changed_cell row column = \<lparr>ccSheetID = ''s'', ccRow = row, ccColumn = column\<rparr>"

theorem one_notice_per_watcher_witness:
  "map_of (WatchersToNotify [sample_watch ''1'' ''Eve'' ''A1:B2'', sample_watch ''2'' ''bob'' ''A1:A1''] ''Bob''
     [changed_cell 1 1, changed_cell 2 2]) ''bob'' = None \<and>
   map_option wnCells (notice_for ''Bob'' [changed_cell 1 1, changed_cell 2 2]
     [sample_watch ''1'' ''Eve'' ''A1:B2'', sample_watch ''2'' ''bob'' ''A1:A1''] ''eve'') = Some 2"
proof -
  have "addressable [changed_cell 1 1, changed_cell 2 2]" and "to_lower (trim_space ''Bob'') = ''bob''"
    and "map_option wnCells (notice_for ''Bob'' [changed_cell 1 1, changed_cell 2 2]
     [sample_watch ''1'' ''Eve'' ''A1:B2'', sample_watch ''2'' ''bob'' ''A1:A1''] ''eve'') = Some 2" by code_simp+
  with one_notice_per_watcher [of _ _ "''Bob''"] show ?thesis by metis
qed

text \<open>
  A watch rule follows what it watches. Through rows or columns inserted or deleted a
  cell is watched after the change exactly when it was before; through a move everything
  watched stays watched; and the rule is dropped only when the change deleted everything it
  watched. It stays readable and keeps its watcher and whether it is switched on.
\<close>

lemma watch_rule_follows_structure:
  assumes "normalizeStructuralMutation raw = Inr input" "watch_ok rule"
    and "transformWatchRuleForStructure rule input actor now = Inr kept"
    and "move_cell (formulaStructuralChange input [] []) (row, column) = Some (row', column')"
  shows "case kept of
      None \<Rightarrow> \<not> WatchRuleCovers rule row column
    | Some rule' \<Rightarrow> watch_ok rule' \<and> wrWatcher rule' = wrWatcher rule \<and> wrEnabled rule' = wrEnabled rule \<and>
        (WatchRuleCovers rule row column \<longrightarrow> WatchRuleCovers rule' row' column') \<and>
        (smAction input \<noteq> ''move'' \<longrightarrow> WatchRuleCovers rule' row' column' \<longrightarrow> WatchRuleCovers rule row column)"
proof -
  have v: "valid_mutation input" using assms(1) by (rule normalizeStructuralMutation_valid)
  show ?thesis
  proof (cases kept)
    case None
    with transformWatchRule_drops [OF v, of rule actor now row column] assms(3,4) show ?thesis by auto
  next
    case (Some rule')
    with transformWatchRule_follows [OF v assms(2), of actor now rule'] assms(3,4) show ?thesis by simp
  qed
qed

definition one_row :: "string \<Rightarrow> int \<Rightarrow> StructuralMutation" where
  "one_row action index = \<lparr>smSheetID = ''s'', smActorID = ''ann'', smClientID = ''c'', smBaseVersion = 1,
     smIdempotencyKey = ''k'', smAxis = ''row'', smAction = action, smIndex = index, smCount = 1, smDestination = 0\<rparr>"

text \<open>
  The table of watch rules stays sound: creating, updating and deleting rules and moving
  them through a structural change keep every stored rule in normal form, one rule per id
  and per idempotency key of its workbook, and at most 200 rules in a workbook.
\<close>

lemma watch_rules_stay_sound:
  assumes "watch_rules_ok (wtRules r)"
  shows "(newID \<notin> fst ` set (wtRules r) \<longrightarrow>
      watch_rules_ok (wtRules (snd (CreateWatchRule newID now workbookID actor create r)))) \<and>
    watch_rules_ok (wtRules (snd (UpdateWatchRule now ruleID actor update r))) \<and>
    watch_rules_ok (wtRules (snd (DeleteWatchRule ruleID expected r))) \<and>
    (\<forall>input next. normalizeStructuralMutation raw = Inr input \<longrightarrow>
      structureWatchRules target input now (wtRules r) = Inr next \<longrightarrow> watch_rules_ok next)"
proof (intro conjI impI allI)
  show "watch_rules_ok next" if "normalizeStructuralMutation raw = Inr input"
    "structureWatchRules target input now (wtRules r) = Inr next" for input "next"
    using watch_rules.inv_move [of "(target, input, now)", OF _ assms] that normalizeStructuralMutation_valid
    by (simp add: structureWatchRules_move_store)
qed (use assms CreateWatchRule_ok UpdateWatchRule_ok DeleteWatchRule_ok in blast)+

definition watch_example :: watch_store where
  "watch_example = \<lparr>wtWorkbooks = (\<lambda>w. w = ''w''), wtSheetToWB = [''s'' \<mapsto> ''w''],
     wtRules = [(''1'', sample_watch ''1'' ''eve'' ''A1:B2''), (''2'', sample_watch ''2'' ''eve'' ''C1:C1'')]\<rparr>"

text \<open>
  An update is not checked against the other rules, as a creation is: after it, one person
  can watch one range twice, and a changed cell is then counted twice in the notice.
\<close>

definition to_range :: "string \<Rightarrow> UpdateWatchRuleInput" where
  "to_range address = \<lparr>uwRange = Some address, uwLabel = None, uwEnabled = None, uwExpectedRevision = None\<rparr>"

lemma update_doubles_watch:
  "let create = \<lparr>cwIdempotencyKey = ''k'', cwSheetID = ''s'', cwWatcher = ''eve'', cwRange = ''A1:B2'', cwLabel = []\<rparr>;
       after = snd (UpdateWatchRule 5 ''2'' ''eve'' (to_range ''A1:B2'') watch_example) in
   fst (CreateWatchRule ''3'' 5 ''w'' ''eve'' create watch_example) = Inl ErrDuplicateName \<and>
   map wrRange (SheetWatchRules ''s'' after) = [''A1:B2'', ''A1:B2''] \<and>
   map (wnCells \<circ> snd) (WatchersToNotify (SheetWatchRules ''s'' after) ''bob'' [changed_cell 1 1]) = [2]"
  by code_simp

text \<open>
  A rule on a single cell is stored as both corners and transformed to one, so every
  structural change of its sheet, wherever it is, counts as a move of the rule and uses up a
  revision, on which a later update by its owner can fail.
\<close>

lemma single_cell_rule_revised:
  "transformWatchRuleForStructure (sample_watch ''2'' ''eve'' ''C1:C1'') (one_row ''insert'' 500) ''bob'' 7 =
     Inr (Some (sample_watch ''2'' ''eve'' ''C1:C1''\<lparr>wrRevision := 2, wrUpdatedBy := ''bob'', wrUpdatedAt := 7\<rparr>))"
  by code_simp

end
