(* ===== verification/Scenarios.thy ===== *)
theory Scenarios
  imports WatchRules Complex_Main
begin

text \<open>
  Scenarios: named sets of assumptions, each a cell and the value to try in it.
  \<^verbatim>\<open>internal/workbook/scenario.go\<close> and \<^verbatim>\<open>memory_scenario.go\<close>. The cells of the
  assumptions follow structural changes; a name is used once in a workbook, whatever its
  case. A value is a rational number, or absent.
\<close>

section \<open>Definitions\<close>

definition MaxScenarios :: nat where "MaxScenarios = 100"
definition MaxScenarioInputs :: nat where "MaxScenarioInputs = 50"

record ScenarioInput =
  asCell :: string
  asValue :: "rat option"

record Scenario =
  scID :: string
  scWorkbookID :: string
  scWorkbookVersion :: int
  scSheetID :: string
  scCreateKey :: string
  scName :: string
  scInputs :: "ScenarioInput list"
  scNote :: string
  scRevision :: int
  scCreatedBy :: string
  scUpdatedBy :: string
  scCreatedAt :: int
  scUpdatedAt :: int

record CreateScenarioInput =
  csIdempotencyKey :: string
  csSheetID :: string
  csName :: string
  csInputs :: "ScenarioInput list"
  csNote :: string

record UpdateScenarioInput =
  upsName :: "string option"
  upsInputs :: "ScenarioInput list option"
  upsNote :: "string option"
  upsExpectedRevision :: "int option"

fun inputLoop :: "string list \<Rightarrow> ScenarioInput list \<Rightarrow> ScenarioInput list result" where
  "inputLoop seen [] = Inr []"
| "inputLoop seen (input # rest) =
     (case Parse (filter (\<lambda>c. c \<noteq> CHR ''$'') (trim_space (asCell input))) of
        Inl _ \<Rightarrow> Inl ErrInvalid
      | Inr parsed \<Rightarrow>
          if Start parsed \<noteq> End parsed then Inl ErrInvalid
          else
            let address = Address (Row (Start parsed)) (Column (Start parsed)) in
            if address \<in> set seen then Inl ErrInvalid
            else bind_result (inputLoop (address # seen) rest) (\<lambda>inputs.
              Inr (\<lparr>asCell = address, asValue = asValue input\<rparr> # inputs)))"

definition normalizeScenario :: "Scenario \<Rightarrow> Scenario result" where
  "normalizeScenario raw =
     (let name = trim_space (scName raw) in
      if name = [] \<or> rune_count name > 100 then Inl ErrInvalid
      else if trim_space (scSheetID raw) = [] then Inl ErrInvalid
      else if scInputs raw = [] then Inl ErrInvalid
      else if length (scInputs raw) > MaxScenarioInputs then Inl ErrInvalid
      else bind_result (inputLoop [] (scInputs raw)) (\<lambda>inputs.
        Inr (raw\<lparr>scName := name, scInputs := inputs, scNote := trim_space (scNote raw)\<rparr>)))"

text \<open>The loop over the assumptions: what is left of them, and whether any of them moved.\<close>

fun moveInputs :: "StructuralMutation \<Rightarrow> ScenarioInput list \<Rightarrow> (ScenarioInput list \<times> bool) result" where
  "moveInputs input [] = Inr ([], False)"
| "moveInputs input (assumption # rest) =
     (case transformRangeAddress (asCell assumption @ '':'' @ asCell assumption) input of
        Inl _ \<Rightarrow> Inl ErrInvalid
      | Inr (transformed, exists) \<Rightarrow>
          bind_result (moveInputs input rest) (\<lambda>(inputs, moved).
            if \<not> exists then Inr (inputs, True)
            else
              let address = hd (split_on (CHR '':'') transformed) in
              Inr (\<lparr>asCell = address, asValue = asValue assumption\<rparr> # inputs,
                   moved \<or> address \<noteq> asCell assumption)))"

definition transformScenarioForStructure ::
  "Scenario \<Rightarrow> StructuralMutation \<Rightarrow> string \<Rightarrow> int \<Rightarrow> Scenario option result" where
  "transformScenarioForStructure item input actor now =
     bind_result (moveInputs input (scInputs item)) (\<lambda>(inputs, moved).
       if \<not> moved then Inr (Some item)
       else if inputs = [] then Inr None
       else Inr (Some (item\<lparr>scInputs := inputs, scRevision := scRevision item + 1, scUpdatedBy := actor,
                            scUpdatedAt := now\<rparr>)))"

section \<open>The store\<close>

text \<open>A workbook is known when it has a version; \<open>snSheets\<close> are the sheets of each workbook.\<close>

record scenario_store =
  snVersion :: "string \<Rightarrow> int option"
  snUpdatedAt :: "string \<Rightarrow> int"
  snSheets :: "string \<Rightarrow> string \<Rightarrow> bool"
  snScenarios :: "(string \<times> Scenario) list"

definition bump_workbook :: "string \<Rightarrow> int \<Rightarrow> int \<Rightarrow> scenario_store \<Rightarrow> scenario_store" where
  "bump_workbook workbookID version now r =
     r\<lparr>snVersion := (snVersion r)(workbookID \<mapsto> version + 1),
       snUpdatedAt := (snUpdatedAt r)(workbookID := now)\<rparr>"

definition scenariosForWorkbookLocked :: "scenario_store \<Rightarrow> string \<Rightarrow> Scenario list" where
  "scenariosForWorkbookLocked r workbookID =
     sort_key scName (filter (\<lambda>item. scWorkbookID item = workbookID) (map snd (snScenarios r)))"

definition newScenario :: "string \<Rightarrow> string \<Rightarrow> CreateScenarioInput \<Rightarrow> Scenario" where
  "newScenario workbookID actor input =
     \<lparr>scID = [], scWorkbookID = workbookID, scWorkbookVersion = 0, scSheetID = csSheetID input,
      scCreateKey = trim_space (csIdempotencyKey input), scName = csName input, scInputs = csInputs input,
      scNote = csNote input, scRevision = 0, scCreatedBy = actor, scUpdatedBy = actor,
      scCreatedAt = 0, scUpdatedAt = 0\<rparr>"

definition CreateScenario ::
  "string \<Rightarrow> int \<Rightarrow> string \<Rightarrow> string \<Rightarrow> CreateScenarioInput \<Rightarrow> scenario_store \<Rightarrow>
   Scenario result \<times> scenario_store" where
  "CreateScenario newID now workbookID actor input r =
     (let key = trim_space (csIdempotencyKey input) in
      if key = [] then (Inl ErrInvalid, r)
      else case snVersion r workbookID of
          None \<Rightarrow> (Inl ErrNotFound, r)
        | Some version \<Rightarrow>
            (case List.find (\<lambda>item. scWorkbookID item = workbookID \<and> scCreateKey item = key)
                    (map snd (snScenarios r)) of
               Some item \<Rightarrow> (Inr (item\<lparr>scWorkbookVersion := version\<rparr>), r)
             | None \<Rightarrow>
                 if \<not> snSheets r workbookID (csSheetID input) then (Inl ErrInvalid, r)
                 else
                   let existing = scenariosForWorkbookLocked r workbookID in
                   if length existing \<ge> MaxScenarios then (Inl ErrInvalid, r)
                   else case normalizeScenario (newScenario workbookID actor input) of
                       Inl e \<Rightarrow> (Inl e, r)
                     | Inr item \<Rightarrow>
                         if list_ex (\<lambda>other. equal_fold (scName other) (scName item)) existing
                         then (Inl ErrDuplicateName, r)
                         else
                           let item = item\<lparr>scID := newID, scRevision := 1, scCreatedAt := now,
                                 scUpdatedAt := now, scWorkbookVersion := version + 1\<rparr> in
                           (Inr item, (bump_workbook workbookID version now r)
                              \<lparr>snScenarios := AList.update newID item (snScenarios r)\<rparr>)))"

definition ListScenarios :: "string \<Rightarrow> scenario_store \<Rightarrow> Scenario list result" where
  "ListScenarios workbookID r =
     (case snVersion r workbookID of
        None \<Rightarrow> Inl ErrNotFound
      | Some version \<Rightarrow>
          Inr (map (\<lambda>item. item\<lparr>scWorkbookVersion := version\<rparr>) (scenariosForWorkbookLocked r workbookID)))"

definition GetScenario :: "string \<Rightarrow> scenario_store \<Rightarrow> Scenario result" where
  "GetScenario scenarioID r =
     (case map_of (snScenarios r) scenarioID of
        None \<Rightarrow> Inl ErrNotFound
      | Some item \<Rightarrow>
          Inr (case snVersion r (scWorkbookID item) of
                 None \<Rightarrow> item | Some version \<Rightarrow> item\<lparr>scWorkbookVersion := version\<rparr>))"

definition UpdateScenario ::
  "int \<Rightarrow> string \<Rightarrow> string \<Rightarrow> UpdateScenarioInput \<Rightarrow> scenario_store \<Rightarrow> Scenario result \<times> scenario_store" where
  "UpdateScenario now scenarioID actor input r =
     (case map_of (snScenarios r) scenarioID of
        None \<Rightarrow> (Inl ErrNotFound, r)
      | Some current \<Rightarrow>
          (case snVersion r (scWorkbookID current) of
             None \<Rightarrow> (Inl ErrNotFound, r)
           | Some version \<Rightarrow>
               if upsExpectedRevision input \<noteq> None \<and> upsExpectedRevision input \<noteq> Some (scRevision current)
               then (Inl ErrRevision, r)
               else
                 let updated = current\<lparr>scName := given (upsName input) (scName current),
                       scInputs := given (upsInputs input) (scInputs current),
                       scNote := given (upsNote input) (scNote current)\<rparr> in
                 case normalizeScenario updated of
                   Inl e \<Rightarrow> (Inl e, r)
                 | Inr normalized \<Rightarrow>
                     if list_ex (\<lambda>other. scID other \<noteq> scenarioID \<and> equal_fold (scName other) (scName normalized))
                          (scenariosForWorkbookLocked r (scWorkbookID current))
                     then (Inl ErrDuplicateName, r)
                     else
                       let item = normalized\<lparr>scRevision := scRevision current + 1, scUpdatedBy := actor,
                             scUpdatedAt := now, scWorkbookVersion := version + 1\<rparr> in
                       (Inr item, (bump_workbook (scWorkbookID current) version now r)
                          \<lparr>snScenarios := AList.update scenarioID item (snScenarios r)\<rparr>)))"

definition DeleteScenario :: "int \<Rightarrow> string \<Rightarrow> int option \<Rightarrow> scenario_store \<Rightarrow> unit result \<times> scenario_store" where
  "DeleteScenario now scenarioID expectedRevision r =
     (case map_of (snScenarios r) scenarioID of
        None \<Rightarrow> (Inl ErrNotFound, r)
      | Some current \<Rightarrow>
          if expectedRevision \<noteq> None \<and> expectedRevision \<noteq> Some (scRevision current) then (Inl ErrRevision, r)
          else case snVersion r (scWorkbookID current) of
              None \<Rightarrow> (Inl ErrNotFound, r)
            | Some version \<Rightarrow>
                (Inr (), (bump_workbook (scWorkbookID current) version now r)
                   \<lparr>snScenarios := AList.delete scenarioID (snScenarios r)\<rparr>))"

text \<open>The scenarios after a structural change of one sheet, in \<^verbatim>\<open>ApplyStructure\<close>.\<close>

fun structureScenarios ::
  "string \<Rightarrow> StructuralMutation \<Rightarrow> int \<Rightarrow> (string \<times> Scenario) list \<Rightarrow> (string \<times> Scenario) list result" where
  "structureScenarios targetID input now [] = Inr []"
| "structureScenarios targetID input now ((scenarioID, item) # items) =
     (if scSheetID item \<noteq> targetID
      then bind_result (structureScenarios targetID input now items) (\<lambda>next. Inr ((scenarioID, item) # next))
      else bind_result (transformScenarioForStructure item input (smActorID input) now) (\<lambda>updated.
        bind_result (structureScenarios targetID input now items) (\<lambda>next.
          Inr (case updated of None \<Rightarrow> next | Some item' \<Rightarrow> (scenarioID, item') # next))))"

section \<open>Scenarios in normal form\<close>

text \<open>The assumptions of a scenario as cells with values, and back.\<close>

definition assumptions :: "((int \<times> int) \<times> rat option) list \<Rightarrow> ScenarioInput list" where
  "assumptions ps = map (\<lambda>(p, v). \<lparr>asCell = Address (fst p) (snd p), asValue = v\<rparr>) ps"

definition cell_of :: "string \<Rightarrow> int \<times> int" where
  "cell_of address =
     (case Parse address of Inl _ \<Rightarrow> (0, 0) | Inr r \<Rightarrow> (Row (Start r), Column (Start r)))"

definition assumed :: "Scenario \<Rightarrow> ((int \<times> int) \<times> rat option) list" where
  "assumed item = map (\<lambda>a. (cell_of (asCell a), asValue a)) (scInputs item)"

definition in_grid :: "int \<times> int \<Rightarrow> bool" where
  "in_grid p = in_sheet \<lparr>Row = fst p, Column = snd p\<rparr>"

definition good_cells :: "((int \<times> int) \<times> rat option) list \<Rightarrow> bool" where
  "good_cells ps = (distinct (map fst ps) \<and> list_all (\<lambda>(p, v). in_grid p) ps)"

lemma Parse_grid: "in_grid p \<Longrightarrow> Parse (Address (fst p) (snd p)) =
    Inr \<lparr>Start = \<lparr>Row = fst p, Column = snd p\<rparr>, End = \<lparr>Row = fst p, Column = snd p\<rparr>\<rparr>"
  using Parse_Address [of "\<lparr>Row = fst p, Column = snd p\<rparr>"] by (simp add: in_grid_def)

lemma cell_of_Address: "in_grid p \<Longrightarrow> cell_of (Address (fst p) (snd p)) = p"
  by (simp add: cell_of_def Parse_grid)

lemma cell_of_Address_pair: "in_grid (r, c) \<Longrightarrow> cell_of (Address r c) = (r, c)"
  using cell_of_Address [of "(r, c)"] by simp

lemma assumed_assumptions:
  "scInputs item = assumptions ps \<Longrightarrow> list_all (\<lambda>(p, v). in_grid p) ps \<Longrightarrow> assumed item = ps"
  by (auto simp: assumed_def assumptions_def list_all_iff cell_of_Address_pair intro!: map_idI)

lemma Address_plain:
  assumes "in_grid p"
  shows "filter (\<lambda>c. c \<noteq> CHR ''$'') (trim_space (Address (fst p) (snd p))) = Address (fst p) (snd p)"
proof -
  have "1 \<le> fst p" "1 \<le> snd p" using assms by (simp_all add: in_grid_def in_sheet_def)
  then have "trim_space (Address (fst p) (snd p)) = Address (fst p) (snd p)" by (rule Address_trim)
  moreover have "\<forall>c \<in> set (Address (fst p) (snd p)). c \<noteq> CHR ''$''"
    using Address_bytes [of "fst p" "snd p"] by (auto simp: list_all_iff address_byte_facts)
  ultimately show ?thesis by (simp add: filter_True)
qed

lemma inputLoop_good:
  assumes "inputLoop seen xs = Inr ys"
  shows "\<exists>ps. ys = assumptions ps \<and> good_cells ps \<and> length ps = length xs \<and>
    (\<forall>(p, v) \<in> set ps. Address (fst p) (snd p) \<notin> set seen)"
  using assms
proof (induction xs arbitrary: seen ys)
  case Nil
  then show ?case by (intro exI [of _ "[]"]) (simp add: assumptions_def good_cells_def)
next
  case (Cons input rest)
  from Cons.prems obtain x zs where x: "Parse (filter (\<lambda>c. c \<noteq> CHR ''$'') (trim_space (asCell input))) = Inr x"
    "Start x = End x"
    and n: "Address (Row (Start x)) (Column (Start x)) \<notin> set seen"
    and z: "inputLoop (Address (Row (Start x)) (Column (Start x)) # seen) rest = Inr zs"
    and y: "ys = \<lparr>asCell = Address (Row (Start x)) (Column (Start x)), asValue = asValue input\<rparr> # zs"
    by (auto simp: Let_def bind_result_eq_Inr split: sum.splits if_splits)
  from Cons.IH [OF z] obtain ps where ps: "zs = assumptions ps" "good_cells ps" "length ps = length rest"
    "\<forall>(p, v) \<in> set ps. Address (fst p) (snd p) \<notin> set (Address (Row (Start x)) (Column (Start x)) # seen)" by blast
  let ?p = "(Row (Start x), Column (Start x))"
  have "in_grid ?p" using Parse_well_formed [OF x(1)] by (simp add: in_grid_def well_formed_range_def in_sheet_def)
  moreover have "?p \<notin> fst ` set ps" using ps(4) by fastforce
  ultimately show ?case using ps n y
    by (intro exI [of _ "(?p, asValue input) # ps"]) (auto simp: assumptions_def good_cells_def)
qed

lemma inputLoop_id:
  "good_cells ps \<Longrightarrow> \<forall>(p, v) \<in> set ps. Address (fst p) (snd p) \<notin> set seen \<Longrightarrow>
   inputLoop seen (assumptions ps) = Inr (assumptions ps)"
proof (induction ps arbitrary: seen)
  case (Cons a ps)
  obtain p v where a: "a = (p, v)" by (cases a)
  have g: "in_grid p" "good_cells ps" "p \<notin> fst ` set ps" using Cons.prems(1) a by (auto simp: good_cells_def)
  have "Address (fst q) (snd q) \<noteq> Address (fst p) (snd p)" if "(q, w) \<in> set ps" for q w
    using that g cell_of_Address Cons.prems(1) a by (metis (no_types, lifting) fst_conv good_cells_def image_eqI
        list_all_iff prod.case)
  then have "\<forall>(q, w) \<in> set ps. Address (fst q) (snd q) \<notin> set (Address (fst p) (snd p) # seen)"
    using Cons.prems(2) by auto
  from Cons.IH [OF g(2) this] show ?case
    using Cons.prems(2) a by (simp add: assumptions_def Address_plain g(1) Parse_grid Let_def)
qed (simp add: assumptions_def)

definition scenario_ok :: "Scenario \<Rightarrow> bool" where
  "scenario_ok item =
     (trim_space (scName item) = scName item \<and> scName item \<noteq> [] \<and> rune_count (scName item) \<le> 100 \<and>
      trim_space (scSheetID item) \<noteq> [] \<and> trim_space (scNote item) = scNote item \<and>
      scInputs item = assumptions (assumed item) \<and> good_cells (assumed item) \<and>
      scInputs item \<noteq> [] \<and> length (scInputs item) \<le> MaxScenarioInputs \<and> 1 \<le> scRevision item)"

text \<open>This is what the normaliser produces and keeps.\<close>

lemma normalizeScenario_ok:
  assumes "normalizeScenario raw = Inr n"
  shows "1 \<le> scRevision item \<Longrightarrow> scName item = scName n \<Longrightarrow> scSheetID item = scSheetID n \<Longrightarrow>
      scNote item = scNote n \<Longrightarrow> scInputs item = scInputs n \<Longrightarrow> scenario_ok item"
    and "scID n = scID raw" "scWorkbookID n = scWorkbookID raw" "scSheetID n = scSheetID raw"
      "scCreateKey n = scCreateKey raw"
proof -
  from assms obtain inputs where c: "trim_space (scName raw) \<noteq> []" "rune_count (trim_space (scName raw)) \<le> 100"
    "trim_space (scSheetID raw) \<noteq> []" "scInputs raw \<noteq> []" "length (scInputs raw) \<le> MaxScenarioInputs"
    and i: "inputLoop [] (scInputs raw) = Inr inputs"
    and n: "n = raw\<lparr>scName := trim_space (scName raw), scInputs := inputs, scNote := trim_space (scNote raw)\<rparr>"
    by (auto simp: normalizeScenario_def Let_def bind_result_eq_Inr split: if_splits)
  obtain ps where ps: "inputs = assumptions ps" "good_cells ps" "length ps = length (scInputs raw)"
    using inputLoop_good [OF i] by blast
  show "scenario_ok item" if "1 \<le> scRevision item" "scName item = scName n" "scSheetID item = scSheetID n"
      "scNote item = scNote n" "scInputs item = scInputs n"
  proof -
    have "assumed item = ps"
      using ps(2) by (intro assumed_assumptions) (simp_all add: that n ps(1) good_cells_def)
    moreover have "length (assumptions ps) = length ps" by (simp add: assumptions_def)
    ultimately show ?thesis using c that ps by (auto simp: scenario_ok_def n assumptions_def)
  qed
  show "scID n = scID raw" "scWorkbookID n = scWorkbookID raw" "scSheetID n = scSheetID raw"
      "scCreateKey n = scCreateKey raw"
    by (simp_all add: n)
qed

lemma normalizeScenario_id: "scenario_ok item \<Longrightarrow> normalizeScenario item = Inr item"
proof -
  assume a: "scenario_ok item"
  have "inputLoop [] (scInputs item) = Inr (scInputs item)"
    using inputLoop_id [of "assumed item" "[]"] a by (simp add: scenario_ok_def)
  moreover have "scInputs item \<noteq> []" "length (scInputs item) \<le> MaxScenarioInputs" "scName item \<noteq> []"
    "trim_space (scName item) = scName item" "rune_count (scName item) \<le> 100"
    "trim_space (scSheetID item) \<noteq> []" "trim_space (scNote item) = scNote item"
    using a unfolding scenario_ok_def by blast+
  ultimately show ?thesis by (simp add: normalizeScenario_def Let_def)
qed

section \<open>Scenarios through structural changes\<close>

lemma moveInputs_eq:
  assumes "valid_change (formulaStructuralChange input [] [])"
    "smAxis input = ''row'' \<or> smAxis input = ''column''" "list_all (\<lambda>(p, v). in_grid p) ps"
    and "moveInputs input (assumptions ps) = Inr (ins, moved)"
  shows "ins = assumptions (move_keys (move_cell (formulaStructuralChange input [] [])) ps) \<and>
    (\<not> moved \<longrightarrow> move_keys (move_cell (formulaStructuralChange input [] [])) ps = ps)"
  using assms(3,4)
proof (induction ps arbitrary: ins moved)
  case Nil
  then show ?case by (simp add: assumptions_def)
next
  case (Cons a ps)
  let ?c = "formulaStructuralChange input [] []"
  obtain p v where a: "a = (p, v)" by (cases a)
  let ?A = "Address (fst p) (snd p)"
  have step: "moveInputs input (\<lparr>asCell = ?A, asValue = v\<rparr> # assumptions ps) = Inr (ins, moved)"
    using Cons.prems(2) a by (simp add: assumptions_def)
  obtain t ex ins' moved' where t: "TransformRangeAddress (?A @ '':'' @ ?A) ?c = Inr (t, ex)"
    and rest: "moveInputs input (assumptions ps) = Inr (ins', moved')"
    using step by (auto simp: transformRangeAddress_def bind_result_eq_Inr split: sum.splits)
  have r: "(if \<not> ex then Inr (ins', True) else Inr (\<lparr>asCell = hd (split_on (CHR '':'') t), asValue = v\<rparr> # ins',
      moved' \<or> hd (split_on (CHR '':'') t) \<noteq> ?A)) = (Inr (ins, moved) :: (ScenarioInput list \<times> bool) result)"
    using step t rest by (cases ex) (simp_all add: transformRangeAddress_def Let_def)
  have g: "in_sheet \<lparr>Row = fst p, Column = snd p\<rparr>" "list_all (\<lambda>(p, v). in_grid p) ps"
    using Cons.prems(1) a by (simp_all add: in_grid_def)
  have ax: "scAxis ?c = ''row'' \<or> scAxis ?c = ''column''" using assms(2) by (simp add: formulaStructuralChange_def)
  note tc = transformed_cell [OF assms(1) ax g(1) t]
  show ?case
  proof (cases ex)
    case False
    then have "move_cell ?c p = None" using tc by simp
    with Cons.IH [OF g(2) rest] r False a show ?thesis by simp
  next
    case True
    then obtain q where q: "move_cell ?c p = Some q" "t = Address (fst q) (snd q)" using tc by auto
    have "in_sheet \<lparr>Row = fst q, Column = snd q\<rparr>"
      using move_cell_in_sheet [OF assms(1) ax g(1), of "fst q" "snd q"] q(1) by simp
    then have "in_grid q" by (simp add: in_grid_def)
    moreover have "in_grid p" using g(1) by (simp add: in_grid_def)
    ultimately have "t = ?A \<longleftrightarrow> q = p" using q(2) cell_of_Address by metis
    moreover have "hd (split_on (CHR '':'') t) = t"
      using q(2) by (simp add: split_on_none colon_notin_Address)
    ultimately show ?thesis
      using Cons.IH [OF g(2) rest] r True a q by (auto simp: assumptions_def)
  qed
qed

lemma move_keys_grid:
  assumes "valid_change c" "scAxis c = ''row'' \<or> scAxis c = ''column''" "good_cells ps"
  shows "good_cells (move_keys (move_cell c) ps)"
proof -
  have "distinct (map fst (move_keys (move_cell c) ps))"
    by (rule move_keys_distinct_inj) (use assms(3) move_cell_inj [OF assms(1)] in \<open>auto simp: good_cells_def\<close>)
  moreover have "in_grid q" if "(q, v) \<in> set (move_keys (move_cell c) ps)" for q v
  proof -
    from that obtain p where p: "(p, v) \<in> set ps" "move_cell c p = Some q" by (auto simp: move_keys_iff)
    then have "in_grid p" using assms(3) by (auto simp: good_cells_def list_all_iff)
    with p(2) move_cell_in_sheet [OF assms(1,2), of "fst p" "snd p" "fst q" "snd q"] show ?thesis
      by (simp add: in_grid_def)
  qed
  ultimately show ?thesis by (auto simp: good_cells_def list_all_iff)
qed

lemma length_move_keys: "length (move_keys f ps) \<le> length ps"
  by (induction f ps rule: move_keys.induct) (auto split: option.splits)

lemma transformScenario_follows:
  assumes "valid_mutation input" "scenario_ok item" "transformScenarioForStructure item input actor now = Inr kept"
  shows "case kept of
      None \<Rightarrow> move_keys (move_cell (formulaStructuralChange input [] [])) (assumed item) = []
    | Some item' \<Rightarrow> scenario_ok item' \<and> scID item' = scID item \<and> scWorkbookID item' = scWorkbookID item \<and>
        scCreateKey item' = scCreateKey item \<and> scName item' = scName item \<and> scSheetID item' = scSheetID item \<and>
        assumed item' = move_keys (move_cell (formulaStructuralChange input [] [])) (assumed item)"
proof -
  let ?c = "formulaStructuralChange input [] []"
  have v: "valid_change ?c" "smAxis input = ''row'' \<or> smAxis input = ''column''"
    using assms(1) by (simp_all add: valid_mutation_def mutation_change_def)
  then have ax: "scAxis ?c = ''row'' \<or> scAxis ?c = ''column''" by (simp add: formulaStructuralChange_def)
  let ?ps = "assumed item" and ?qs = "move_keys (move_cell ?c) (assumed item)"
  have ok: "scInputs item = assumptions ?ps" "good_cells ?ps" "?ps \<noteq> []"
    using assms(2) by (auto simp: scenario_ok_def assumed_def)
  obtain ins moved where m: "moveInputs input (assumptions ?ps) = Inr (ins, moved)"
    and k: "kept = (if \<not> moved then Some item else if ins = [] then None
      else Some (item\<lparr>scInputs := ins, scRevision := scRevision item + 1, scUpdatedBy := actor, scUpdatedAt := now\<rparr>))"
    using assms(3) ok(1) by (auto simp: transformScenarioForStructure_def bind_result_eq_Inr split: if_splits)
  have ins: "ins = assumptions ?qs" "\<not> moved \<longrightarrow> ?qs = ?ps"
    using moveInputs_eq [OF v _ m] ok(2) by (auto simp: good_cells_def)
  have g: "good_cells ?qs" using move_keys_grid [OF v(1) ax ok(2)] .
  show ?thesis
  proof (cases moved)
    case False
    with k ins(2) assms(2) show ?thesis by simp
  next
    case True
    show ?thesis
    proof (cases "ins = []")
      case True
      with k \<open>moved\<close> ins(1) show ?thesis by (simp add: assumptions_def)
    next
      case False
      let ?item = "item\<lparr>scInputs := ins, scRevision := scRevision item + 1, scUpdatedBy := actor, scUpdatedAt := now\<rparr>"
      have a: "assumed ?item = ?qs"
        using g by (intro assumed_assumptions) (simp_all add: ins(1) good_cells_def)
      have "length ins \<le> length (scInputs item)"
        using length_move_keys [of "move_cell ?c" ?ps] by (simp add: ins(1) ok(1)) (simp add: assumptions_def)
      moreover have "length (scInputs item) \<le> MaxScenarioInputs" using assms(2) unfolding scenario_ok_def by blast
      ultimately have "length ins \<le> MaxScenarioInputs" by (rule order.trans)
      moreover have "trim_space (scName item) = scName item" "scName item \<noteq> []" "rune_count (scName item) \<le> 100"
        "trim_space (scSheetID item) \<noteq> []" "trim_space (scNote item) = scNote item" "1 \<le> scRevision item"
        using assms(2) unfolding scenario_ok_def by blast+
      ultimately have "scenario_ok ?item" using False a g unfolding scenario_ok_def by (simp add: ins(1))
      with a k True False show ?thesis by simp
    qed
  qed
qed

definition move_scenario :: "StructuralMutation \<times> int \<Rightarrow> Scenario \<Rightarrow> Scenario option result" where
  "move_scenario m item = transformScenarioForStructure item (fst m) (smActorID (fst m)) (snd m)"

definition assumes_cell :: "Scenario \<Rightarrow> int \<times> int \<Rightarrow> bool" where
  "assumes_cell item p = (p \<in> fst ` set (assumed item))"

interpretation scenario_follower: cell_follower "\<lambda>m. valid_mutation (fst m)" moved_cell scenario_ok
  assumes_cell move_scenario
proof unfold_locales
  fix m :: "StructuralMutation \<times> int" and item item' p q
  assume v: "valid_mutation (fst m)" and ok: "scenario_ok item"
  show "scenario_ok item'" if "move_scenario m item = Inr (Some item')"
    using transformScenario_follows [OF v ok] that by (fastforce simp: move_scenario_def)
  show "assumes_cell item' q"
    if "move_scenario m item = Inr (Some item')" "assumes_cell item p" "moved_cell m p = Some q"
  proof -
    have "assumed item' = move_keys (move_cell (formulaStructuralChange (fst m) [] [])) (assumed item)"
      using transformScenario_follows [OF v ok] that(1) by (fastforce simp: move_scenario_def)
    with that(2,3) show ?thesis unfolding assumes_cell_def moved_cell_def by (simp only: move_keys_fst) blast
  qed
  show "moved_cell m p = None" if "move_scenario m item = Inr None" "assumes_cell item p"
  proof -
    have "move_keys (move_cell (formulaStructuralChange (fst m) [] [])) (assumed item) = []"
      using transformScenario_follows [OF v ok] that(1) by (fastforce simp: move_scenario_def)
    then have "q \<notin> fst ` set (move_keys (move_cell (formulaStructuralChange (fst m) [] [])) (assumed item))" for q
      by simp
    with that(2) show ?thesis unfolding assumes_cell_def moved_cell_def move_keys_fst by (metis not_Some_eq)
  qed
qed

section \<open>The store keeps its scenarios\<close>

definition folded_name :: "Scenario \<Rightarrow> string" where
  "folded_name item = to_lower (scName item)"

abbreviation scenario_keys_ok :: "(string \<times> Scenario) list \<Rightarrow> bool" where
  "scenario_keys_ok \<equiv> store_ok scID scWorkbookID scCreateKey scenario_ok MaxScenarios"

abbreviation scenario_names_ok :: "(string \<times> Scenario) list \<Rightarrow> bool" where
  "scenario_names_ok \<equiv> store_ok scID scWorkbookID folded_name scenario_ok MaxScenarios"

definition move_sheet_scenario :: "string \<times> StructuralMutation \<times> int \<Rightarrow> Scenario \<Rightarrow> Scenario option result" where
  "move_sheet_scenario m item = (if scSheetID item \<noteq> fst m then Inr (Some item) else move_scenario (snd m) item)"

lemma move_sheet_scenario_keeps:
  assumes "valid_mutation (fst (snd m))" "scenario_ok item" "move_sheet_scenario m item = Inr (Some item')"
  shows "scenario_ok item' \<and> scID item' = scID item \<and> scWorkbookID item' = scWorkbookID item \<and>
    scCreateKey item' = scCreateKey item \<and> folded_name item' = folded_name item"
  using assms transformScenario_follows [OF assms(1,2), of "smActorID (fst (snd m))" "snd (snd m)" "Some item'"]
  by (auto simp: move_sheet_scenario_def move_scenario_def folded_name_def split: if_splits)

interpretation scenario_keys: rule_store scID scWorkbookID scCreateKey scenario_ok MaxScenarios
  "\<lambda>m. valid_mutation (fst (snd m))" move_sheet_scenario
  by unfold_locales (use move_sheet_scenario_keeps in blast)

interpretation scenario_names: rule_store scID scWorkbookID folded_name scenario_ok MaxScenarios
  "\<lambda>m. valid_mutation (fst (snd m))" move_sheet_scenario
  by unfold_locales (use move_sheet_scenario_keeps in blast)

lemma structureScenarios_move_store:
  "structureScenarios target input now store = move_store (move_sheet_scenario (target, input, now)) store"
  by (induction store) (auto simp: move_sheet_scenario_def move_scenario_def split: option.splits)

lemma scenarios_count:
  "length (scenariosForWorkbookLocked r w) = length (filter (\<lambda>(i, item). scWorkbookID item = w) (snScenarios r))"
  by (simp add: scenariosForWorkbookLocked_def filter_map comp_def case_prod_unfold)

lemma scenario_other_names:
  assumes "\<not> list_ex (\<lambda>other. Q (scID other) \<and> equal_fold (scName other) (scName item)) (scenariosForWorkbookLocked r w)"
    and "scWorkbookID item = w" "(j, s) \<in> set (snScenarios r)" "Q (scID s)" "scWorkbookID s = scWorkbookID item"
  shows "folded_name s \<noteq> folded_name item"
proof -
  have "s \<in> set (scenariosForWorkbookLocked r w)"
    using assms by (force simp: scenariosForWorkbookLocked_def)
  with assms(1,4) show ?thesis by (auto simp: list_ex_iff equal_fold_def folded_name_def)
qed

lemma CreateScenario_ok:
  assumes "scenario_keys_ok (snScenarios r)" "scenario_names_ok (snScenarios r)" "newID \<notin> fst ` set (snScenarios r)"
    and after_def: "after = snScenarios (snd (CreateScenario newID now workbookID actor input r))"
  shows "scenario_keys_ok after \<and> scenario_names_ok after"
proof (cases "after = snScenarios r")
  case False
  let ?key = "trim_space (csIdempotencyKey input)"
  from False obtain n version where
    find: "List.find (\<lambda>item. scWorkbookID item = workbookID \<and> scCreateKey item = ?key) (map snd (snScenarios r)) = None"
    and count: "length (scenariosForWorkbookLocked r workbookID) < MaxScenarios"
    and n: "normalizeScenario (newScenario workbookID actor input) = Inr n"
    and names: "\<not> list_ex (\<lambda>other. equal_fold (scName other) (scName n)) (scenariosForWorkbookLocked r workbookID)"
    and u: "after = AList.update newID (n\<lparr>scID := newID, scRevision := 1, scCreatedAt := now, scUpdatedAt := now,
      scWorkbookVersion := version + 1\<rparr>) (snScenarios r)"
    unfolding CreateScenario_def Let_def after_def by (auto split: option.splits sum.splits if_splits)
  define new where "new = n\<lparr>scID := newID, scRevision := 1, scCreatedAt := now, scUpdatedAt := now,
    scWorkbookVersion := version + 1\<rparr>"
  have k: "scID new = newID" "scWorkbookID new = workbookID" "scCreateKey new = ?key" "scName new = scName n"
    using normalizeScenario_ok(3,5) [OF n] by (simp_all add: new_def newScenario_def)
  have ok: "scenario_ok new" by (rule normalizeScenario_ok(1) [OF n]) (simp_all add: new_def)
  have "\<forall>(j, s) \<in> set (snScenarios r). scWorkbookID s = scWorkbookID new \<longrightarrow> scCreateKey s \<noteq> scCreateKey new"
    using find unfolding find_None_iff k by force
  moreover have "\<forall>(j, s) \<in> set (snScenarios r). scWorkbookID s = scWorkbookID new \<longrightarrow> folded_name s \<noteq> folded_name new"
    using scenario_other_names [where Q = "\<lambda>_. True" and item = new and r = r and w = workbookID] names k by auto
  moreover have "length (filter (\<lambda>(i, s). scWorkbookID s = scWorkbookID new) (snScenarios r)) < MaxScenarios"
    using count by (simp add: scenarios_count k)
  ultimately show ?thesis
    using scenario_keys.inv_add [OF assms(1,3) k(1) ok] scenario_names.inv_add [OF assms(2,3) k(1) ok]
    unfolding u new_def [symmetric] by blast
qed (use assms in simp)

lemma UpdateScenario_ok:
  assumes "scenario_keys_ok (snScenarios r)" "scenario_names_ok (snScenarios r)"
    and after_def: "after = snScenarios (snd (UpdateScenario now scenarioID actor input r))"
  shows "scenario_keys_ok after \<and> scenario_names_ok after"
proof (cases "after = snScenarios r")
  case False
  then obtain current raw n version where c: "map_of (snScenarios r) scenarioID = Some current"
    and n: "normalizeScenario raw = Inr n"
    and k: "scID raw = scID current" "scWorkbookID raw = scWorkbookID current" "scCreateKey raw = scCreateKey current"
    and names: "\<not> list_ex (\<lambda>other. scID other \<noteq> scenarioID \<and> equal_fold (scName other) (scName n))
      (scenariosForWorkbookLocked r (scWorkbookID current))"
    and u: "after = AList.update scenarioID (n\<lparr>scRevision := scRevision current + 1, scUpdatedBy := actor,
      scUpdatedAt := now, scWorkbookVersion := version + 1\<rparr>) (snScenarios r)"
    unfolding UpdateScenario_def Let_def after_def by (auto split: option.splits sum.splits if_splits)
  define new where "new = n\<lparr>scRevision := scRevision current + 1, scUpdatedBy := actor, scUpdatedAt := now,
    scWorkbookVersion := version + 1\<rparr>"
  have "scenario_ok current" and cid: "scID current = scenarioID"
    using scenario_keys.inv_get [OF assms(1) c] by simp_all
  then have ok: "scenario_ok new"
    by (intro normalizeScenario_ok(1) [OF n]) (simp_all add: new_def scenario_ok_def)
  have kn: "scID new = scID current" "scWorkbookID new = scWorkbookID current" "scCreateKey new = scCreateKey current"
    "scName new = scName n"
    using normalizeScenario_ok(2,3,5) [OF n] k by (simp_all add: new_def)
  have ids: "scID s = j" if "(j, s) \<in> set (snScenarios r)" for j s
    using assms(1) that by (auto simp: store_ok_def)
  have "\<forall>(j, s) \<in> set (snScenarios r). j \<noteq> scenarioID \<longrightarrow> scWorkbookID s = scWorkbookID new \<longrightarrow>
      folded_name s \<noteq> folded_name new"
    using scenario_other_names [where Q = "\<lambda>i. i \<noteq> scenarioID" and item = new and r = r and w = "scWorkbookID current"]
      names kn ids by auto
  then show ?thesis
    using scenario_keys.inv_replace [OF assms(1) c kn(1) ok kn(2,3)]
      scenario_names.inv_rekey [OF assms(2) c kn(1) ok kn(2)]
    unfolding u new_def [symmetric] by blast
qed (use assms in simp)

lemma DeleteScenario_ok:
  "scenario_keys_ok (snScenarios r) \<Longrightarrow> scenario_keys_ok (snScenarios (snd (DeleteScenario now i expected r)))"
  "scenario_names_ok (snScenarios r) \<Longrightarrow> scenario_names_ok (snScenarios (snd (DeleteScenario now i expected r)))"
  by (auto simp: DeleteScenario_def scenario_keys.inv_remove scenario_names.inv_remove split: option.splits)

text \<open>
  The assumptions of a scenario follow their cells: after a structural change it assumes
  the same values, in the same order, of exactly those cells that the change did not delete,
  each at the place the change moved it to; and it is dropped only when the change deleted
  every cell it makes an assumption about. What is kept is again in normal form.
\<close>

lemma scenario_follows_structure:
  assumes "normalizeStructuralMutation raw = Inr input" "scenario_ok item"
    and "transformScenarioForStructure item input actor now = Inr kept"
  shows "case kept of
      None \<Rightarrow> move_keys (move_cell (formulaStructuralChange input [] [])) (assumed item) = []
    | Some item' \<Rightarrow> scenario_ok item' \<and> scName item' = scName item \<and>
        assumed item' = move_keys (move_cell (formulaStructuralChange input [] [])) (assumed item)"
  using transformScenario_follows [OF normalizeStructuralMutation_valid [OF assms(1)] assms(2,3)]
  by (simp split: option.splits)

definition sample_scenario :: "string \<Rightarrow> string \<Rightarrow> string list \<Rightarrow> Scenario" where
  "sample_scenario scenarioID name cells =
     \<lparr>scID = scenarioID, scWorkbookID = ''w'', scWorkbookVersion = 3, scSheetID = ''s'', scCreateKey = scenarioID,
      scName = name, scInputs = map (\<lambda>c. \<lparr>asCell = c, asValue = Some (3 / 2)\<rparr>) cells, scNote = [],
      scRevision = 1, scCreatedBy = ''eve'', scUpdatedBy = ''eve'', scCreatedAt = 0, scUpdatedAt = 0\<rparr>"

text \<open>
  The table of scenarios stays sound: creating, updating and deleting scenarios and moving
  them through a structural change keep every stored scenario in normal form, one scenario
  per id, per idempotency key and per name of its workbook whatever the case of the letters,
  and at most 100 scenarios in a workbook.
\<close>

lemma scenarios_stay_sound:
  assumes "scenario_keys_ok (snScenarios r)" "scenario_names_ok (snScenarios r)"
  shows "(newID \<notin> fst ` set (snScenarios r) \<longrightarrow>
      scenario_keys_ok (snScenarios (snd (CreateScenario newID now workbookID actor create r))) \<and>
      scenario_names_ok (snScenarios (snd (CreateScenario newID now workbookID actor create r)))) \<and>
    scenario_keys_ok (snScenarios (snd (UpdateScenario now scenarioID actor update r))) \<and>
    scenario_names_ok (snScenarios (snd (UpdateScenario now scenarioID actor update r))) \<and>
    scenario_keys_ok (snScenarios (snd (DeleteScenario now scenarioID expected r))) \<and>
    scenario_names_ok (snScenarios (snd (DeleteScenario now scenarioID expected r))) \<and>
    (\<forall>input next. normalizeStructuralMutation raw = Inr input \<longrightarrow>
      structureScenarios target input now (snScenarios r) = Inr next \<longrightarrow>
      scenario_keys_ok next \<and> scenario_names_ok next)"
proof (intro conjI impI allI)
  fix input "next"
  assume a: "normalizeStructuralMutation raw = Inr input" "structureScenarios target input now (snScenarios r) = Inr next"
  then have v: "valid_mutation (fst (snd (target, input, now)))" using normalizeStructuralMutation_valid by simp
  show "scenario_keys_ok next" "scenario_names_ok next"
    using scenario_keys.inv_move [OF v assms(1)] scenario_names.inv_move [OF v assms(2)] a(2)
    by (simp_all add: structureScenarios_move_store)
qed (use CreateScenario_ok [OF assms _ refl] UpdateScenario_ok [OF assms refl] DeleteScenario_ok(1) [OF assms(1)]
    DeleteScenario_ok(2) [OF assms(2)] in simp_all)

definition scenario_example :: scenario_store where
  "scenario_example = \<lparr>snVersion = [''w'' \<mapsto> 3], snUpdatedAt = (\<lambda>_. 0), snSheets = (\<lambda>w s. w = ''w'' \<and> s = ''s''),
     snScenarios = [(''1'', sample_scenario ''1'' ''best'' [''A1'', ''B2'']), (''2'', sample_scenario ''2'' ''worst'' [''A1''])]\<rparr>"

text \<open>A name in other letters is refused; a repeated request answers with the scenario it made before.\<close>

lemma scenario_name_refused:
  "fst (CreateScenario ''3'' 9 ''w'' ''ann'' \<lparr>csIdempotencyKey = ''k'', csSheetID = ''s'', csName = '' BEST'',
     csInputs = [\<lparr>asCell = ''C3'', asValue = None\<rparr>], csNote = []\<rparr> scenario_example) = Inl ErrDuplicateName"
  by code_simp

end
