(* ===== verification/Protected.thy ===== *)
theory Protected
  imports SheetStructure Utf8 RuleStore Follower "HOL-Library.List_Lexorder" "HOL-Library.Char_ord"
begin

text \<open>
  Protected ranges: who may write where inside a shared sheet.
  \<^verbatim>\<open>internal/workbook/protected.go\<close> in full,
  \<^verbatim>\<open>internal/workbook/memory_protected.go\<close> (creating, listing, updating and deleting
  rules) and the step of \<^verbatim>\<open>ApplyStructure\<close> that moves the rules with the rows and
  columns they guard. The store is an association list from rule id to rule; a Go map has no
  order, so a list that depends on it is determined up to rules with the same range. A new
  id (\<^verbatim>\<open>identity.New\<close>) and the clock are arguments.
\<close>

section \<open>Definitions\<close>

definition MaxProtectedRanges :: nat where "MaxProtectedRanges = 200"
definition MaxProtectedEditors :: nat where "MaxProtectedEditors = 200"
definition MaxProtectedExceptions :: nat where "MaxProtectedExceptions = 20"
definition maxProtectionDescription :: nat where "maxProtectionDescription = 200"
definition SheetProtectionRange :: string where "SheetProtectionRange = ''A1:XFD1048576''"

record ProtectedRange =
  prID :: string
  prSheetID :: string
  prCreateKey :: string
  prRange :: string
  prScope :: string
  prExceptions :: "string list"
  prDescription :: string
  prEditors :: "string list"
  prWarningOnly :: bool
  prRevision :: int
  prCreatedBy :: string
  prUpdatedBy :: string
  prCreatedAt :: int
  prUpdatedAt :: int

text \<open>The two loops of the normaliser keep the first of several equal entries.\<close>

fun editorLoop :: "string list \<Rightarrow> string list \<Rightarrow> string list" where
  "editorLoop seen [] = []"
| "editorLoop seen (item # rest) =
     (let editor = trim_space item; key = to_lower editor in
      if editor = [] then editorLoop seen rest
      else if key \<in> set seen then editorLoop seen rest
      else editor # editorLoop (key # seen) rest)"

fun exceptionLoop :: "string list \<Rightarrow> string list \<Rightarrow> string list result" where
  "exceptionLoop seen [] = Inr []"
| "exceptionLoop seen (raw # rest) =
     (let item = to_upper (trim_space raw) in
      if item = [] then exceptionLoop seen rest
      else case Parse item of
          Inl _ \<Rightarrow> Inl ErrInvalid
        | Inr selected \<Rightarrow>
            (let normalized = range_address selected in
             if normalized \<in> set seen then exceptionLoop seen rest
             else bind_result (exceptionLoop (normalized # seen) rest) (\<lambda>result. Inr (normalized # result))))"

definition normalizeProtectionExceptions :: "string list \<Rightarrow> string list result" where
  "normalizeProtectionExceptions input =
     (if input = [] then Inr []
      else if length input > MaxProtectedExceptions then Inl ErrInvalid
      else bind_result (exceptionLoop [] input) (\<lambda>result. Inr (sort result)))"

definition NormalizeProtectedRange :: "ProtectedRange \<Rightarrow> (ProtectedRange \<times> Range) result" where
  "NormalizeProtectedRange raw =
     (let scope = to_lower (trim_space (prScope raw));
          scope = (if scope = [] then ''range'' else scope) in
      if scope \<noteq> ''range'' \<and> scope \<noteq> ''sheet'' then Inl ErrInvalid
      else
        let address = (if scope = ''sheet'' then SheetProtectionRange else prRange raw);
            exceptions = (if scope = ''sheet'' then prExceptions raw else []);
            address = to_upper (trim_space address);
            description = trim_space (prDescription raw) in
        case Parse address of
          Inl _ \<Rightarrow> Inl ErrInvalid
        | Inr selected \<Rightarrow>
            if rune_count description > maxProtectionDescription then Inl ErrInvalid
            else
              let editors = editorLoop [] (prEditors raw) in
              if length editors > MaxProtectedEditors then Inl ErrInvalid
              else bind_result (normalizeProtectionExceptions exceptions) (\<lambda>exceptions.
                Inr (raw\<lparr>prScope := scope, prRange := address, prDescription := description,
                         prEditors := sort editors, prExceptions := exceptions,
                         prRevision := (if prRevision raw < 1 then 1 else prRevision raw)\<rparr>,
                     selected)))"

definition protectionCovers :: "Range \<Rightarrow> Range list \<Rightarrow> int \<Rightarrow> int \<Rightarrow> bool" where
  "protectionCovers selected exceptions row column =
     (Contains selected row column \<and> \<not> list_ex (\<lambda>exception. Contains exception row column) exceptions)"

record CreateProtectedRangeInput =
  cpIdempotencyKey :: string
  cpRange :: string
  cpScope :: string
  cpExceptions :: "string list"
  cpDescription :: string
  cpEditors :: "string list"
  cpWarningOnly :: bool

definition protectedFromInput ::
  "string \<Rightarrow> string \<Rightarrow> string \<Rightarrow> CreateProtectedRangeInput \<Rightarrow> ProtectedRange result" where
  "protectedFromInput sheetID key actor input =
     bind_result (NormalizeProtectedRange
       \<lparr>prID = [], prSheetID = sheetID, prCreateKey = key, prRange = cpRange input, prScope = cpScope input,
        prExceptions = cpExceptions input, prDescription = cpDescription input, prEditors = cpEditors input,
        prWarningOnly = cpWarningOnly input, prRevision = 0, prCreatedBy = actor, prUpdatedBy = actor,
        prCreatedAt = 0, prUpdatedAt = 0\<rparr>) (\<lambda>(rule, _). Inr rule)"

definition MayEditProtected :: "ProtectedRange \<Rightarrow> string \<Rightarrow> string \<Rightarrow> bool" where
  "MayEditProtected rule actor ownerID =
     (if actor = [] then False
      else if equal_fold actor ownerID \<or> equal_fold actor (prCreatedBy rule) then True
      else list_ex (\<lambda>editor. equal_fold editor actor) (prEditors rule))"

record ProtectionViolation =
  pvProtectionID :: string
  pvRow :: int
  pvColumn :: int
  pvMessage :: string

text \<open>
  The messages are Korean; their constant parts are given as the UTF-8 bytes of the source:
  "the range ..." or "this sheet", then "is protected: ..." or "is protected and editing it
  needs permission".
\<close>

definition utf8_text :: "nat list \<Rightarrow> string" where
  "utf8_text bs = map char_of bs"

definition protectionMessage :: "ProtectedRange \<Rightarrow> string" where
  "protectionMessage rule =
     (let subject =
        (if prScope rule = ''sheet''
         then utf8_text [236, 157, 180, 32, 236, 139, 156, 237, 138, 184, 235, 138, 148]
         else prRange rule @ utf8_text [32, 235, 178, 148, 236, 156, 132, 235, 138, 148]) in
      if prDescription rule \<noteq> []
      then subject @ utf8_text [32, 235, 179, 180, 237, 152, 184, 235, 144, 152, 236, 150, 180, 32, 236, 158, 136,
             236, 138, 181, 235, 139, 136, 235, 139, 164, 58, 32] @ prDescription rule
      else subject @ utf8_text [32, 235, 179, 180, 237, 152, 184, 235, 144, 152, 236, 150, 180, 32, 236, 158, 136,
             236, 150, 180, 32, 237, 142, 184, 236, 167, 145, 32, 234, 182, 140, 237, 149, 156, 236, 157, 180, 32,
             237, 149, 132, 236, 154, 148, 237, 149, 169, 235, 139, 136, 235, 139, 164, 46])"

record bounds =
  bdRule :: ProtectedRange
  bdSelected :: Range
  bdExceptions :: "Range list"
  bdAllowed :: bool

fun parse_exceptions :: "string list \<Rightarrow> Range list" where
  "parse_exceptions [] = []"
| "parse_exceptions (item # rest) =
     (case Parse item of Inl _ \<Rightarrow> parse_exceptions rest | Inr parsed \<Rightarrow> parsed # parse_exceptions rest)"

fun prepare :: "string \<Rightarrow> string \<Rightarrow> ProtectedRange list \<Rightarrow> bounds list" where
  "prepare actor ownerID [] = []"
| "prepare actor ownerID (rule # rules) =
     (case NormalizeProtectedRange rule of
        Inl _ \<Rightarrow> prepare actor ownerID rules
      | Inr (normalized, selected) \<Rightarrow>
          \<lparr>bdRule = normalized, bdSelected = selected, bdExceptions = parse_exceptions (prExceptions normalized),
           bdAllowed = MayEditProtected normalized actor ownerID\<rparr> # prepare actor ownerID rules)"

text \<open>The inner loop stops (\<^verbatim>\<open>break\<close>) at the first rule that stands in the way.\<close>

fun firstViolation :: "bounds list \<Rightarrow> CellInput \<Rightarrow> (ProtectionViolation \<times> bool) option" where
  "firstViolation [] input = None"
| "firstViolation (item # items) input =
     (if bdAllowed item \<or> \<not> protectionCovers (bdSelected item) (bdExceptions item) (ciRow input) (ciColumn input)
      then firstViolation items input
      else Some (\<lparr>pvProtectionID = prID (bdRule item), pvRow = ciRow input, pvColumn = ciColumn input,
                  pvMessage = protectionMessage (bdRule item)\<rparr>, prWarningOnly (bdRule item)))"

fun violationLoop :: "bounds list \<Rightarrow> CellInput list \<Rightarrow> ProtectionViolation list \<times> ProtectionViolation list" where
  "violationLoop prepared [] = ([], [])"
| "violationLoop prepared (input # submitted) =
     (case violationLoop prepared submitted of (blocked, warnings) \<Rightarrow>
        case firstViolation prepared input of
          None \<Rightarrow> (blocked, warnings)
        | Some (violation, warningOnly) \<Rightarrow>
            if warningOnly then (blocked, violation # warnings) else (violation # blocked, warnings))"

definition CheckProtectedRanges ::
  "ProtectedRange list \<Rightarrow> string \<Rightarrow> string \<Rightarrow> CellInput list \<Rightarrow>
   ProtectionViolation list \<times> ProtectionViolation list" where
  "CheckProtectedRanges rules actor ownerID submitted =
     (if rules = [] \<or> submitted = [] then ([], [])
      else violationLoop (prepare actor ownerID rules) submitted)"

text \<open>The rule moved through a change; \<open>None\<close> when it does not survive.\<close>

fun transformExceptions :: "string list \<Rightarrow> StructuralChange \<Rightarrow> string list result" where
  "transformExceptions [] change = Inr []"
| "transformExceptions (item # rest) change =
     (case TransformRangeAddress item change of
        Inl _ \<Rightarrow> Inl ErrInvalid
      | Inr (moved, stillExists) \<Rightarrow>
          bind_result (transformExceptions rest change) (\<lambda>exceptions.
            Inr (if stillExists then moved # exceptions else exceptions)))"

definition movedProtection :: "ProtectedRange \<Rightarrow> StructuralChange \<Rightarrow> string option result" where
  "movedProtection rule change =
     (if prScope rule \<noteq> ''sheet''
      then (case TransformRangeAddress (prRange rule) change of
              Inl _ \<Rightarrow> Inl ErrInvalid
            | Inr (transformed, exists) \<Rightarrow> Inr (if exists then Some transformed else None))
      else Inr (Some (prRange rule)))"

definition transformProtectedForStructure ::
  "ProtectedRange \<Rightarrow> string \<Rightarrow> StructuralMutation \<Rightarrow> string \<Rightarrow> int \<Rightarrow> ProtectedRange option result" where
  "transformProtectedForStructure rule targetSheetID input actor now =
     (if prSheetID rule \<noteq> targetSheetID then Inr (Some rule)
      else
        let change = formulaStructuralChange input [] [] in
        bind_result (movedProtection rule change) (\<lambda>moved.
          case moved of
            None \<Rightarrow> Inr None
          | Some selected \<Rightarrow>
              bind_result (transformExceptions (prExceptions rule) change) (\<lambda>exceptions.
                let movedExceptions = (join '','' exceptions \<noteq> join '','' (prExceptions rule));
                    updated = rule\<lparr>prExceptions := exceptions, prRange := selected\<rparr> in
                if selected = prRange rule \<and> \<not> movedExceptions then Inr (Some updated)
                else Inr (Some (updated\<lparr>prRevision := prRevision rule + 1, prUpdatedBy := actor,
                                        prUpdatedAt := now\<rparr>)))))"

section \<open>The store\<close>

record protection_store =
  psSheetToWB :: "string \<Rightarrow> string option"
  psVersion :: "string \<Rightarrow> int"
  psWorkbookUpdatedAt :: "string \<Rightarrow> int"
  psProtections :: "(string \<times> ProtectedRange) list"

definition bump :: "string \<Rightarrow> int \<Rightarrow> protection_store \<Rightarrow> protection_store" where
  "bump workbookID now r =
     r\<lparr>psVersion := (psVersion r)(workbookID := psVersion r workbookID + 1),
       psWorkbookUpdatedAt := (psWorkbookUpdatedAt r)(workbookID := now)\<rparr>"

definition countProtectionsLocked :: "protection_store \<Rightarrow> string \<Rightarrow> nat" where
  "countProtectionsLocked r sheetID = length (filter (\<lambda>(_, rule). prSheetID rule = sheetID) (psProtections r))"

definition sheetProtections :: "(string \<times> ProtectedRange) list \<Rightarrow> string \<Rightarrow> ProtectedRange list" where
  "sheetProtections rules sheetID =
     sort_key prRange (filter (\<lambda>rule. prSheetID rule = sheetID) (map snd rules))"

definition protectionsForSheetLocked :: "protection_store \<Rightarrow> string \<Rightarrow> ProtectedRange list" where
  "protectionsForSheetLocked r sheetID = sheetProtections (psProtections r) sheetID"

definition CreateProtectedRange ::
  "string \<Rightarrow> int \<Rightarrow> string \<Rightarrow> string \<Rightarrow> CreateProtectedRangeInput \<Rightarrow> protection_store \<Rightarrow>
   ProtectedRange result \<times> protection_store" where
  "CreateProtectedRange newID now sheetID actor input r =
     (let key = trim_space (cpIdempotencyKey input) in
      if key = [] then (Inl ErrInvalid, r)
      else case psSheetToWB r sheetID of
          None \<Rightarrow> (Inl ErrNotFound, r)
        | Some workbookID \<Rightarrow>
            (case List.find (\<lambda>existing. prSheetID existing = sheetID \<and> prCreateKey existing = key)
                    (map snd (psProtections r)) of
               Some existing \<Rightarrow> (Inr existing, r)
             | None \<Rightarrow>
                 (case protectedFromInput sheetID key actor input of
                    Inl e \<Rightarrow> (Inl e, r)
                  | Inr rule \<Rightarrow>
                      if countProtectionsLocked r sheetID \<ge> MaxProtectedRanges then (Inl ErrInvalid, r)
                      else
                        let rule = rule\<lparr>prID := newID, prRevision := 1, prCreatedAt := now, prUpdatedAt := now\<rparr> in
                        (Inr rule,
                         (bump workbookID now r)\<lparr>psProtections := AList.update newID rule (psProtections r)\<rparr>))))"

definition ListProtectedRanges :: "string \<Rightarrow> protection_store \<Rightarrow> ProtectedRange list result" where
  "ListProtectedRanges sheetID r =
     (case psSheetToWB r sheetID of
        None \<Rightarrow> Inl ErrNotFound
      | Some _ \<Rightarrow> Inr (protectionsForSheetLocked r sheetID))"

record UpdateProtectedRangeInput =
  upExpectedRevision :: "int option"
  upRange :: "string option"
  upScope :: "string option"
  upExceptions :: "string list option"
  upDescription :: "string option"
  upEditors :: "string list option"
  upWarningOnly :: "bool option"

definition UpdateProtectedRange ::
  "int \<Rightarrow> string \<Rightarrow> string \<Rightarrow> UpdateProtectedRangeInput \<Rightarrow> protection_store \<Rightarrow>
   ProtectedRange result \<times> protection_store" where
  "UpdateProtectedRange now ruleID actor input r =
     (case map_of (psProtections r) ruleID of
        None \<Rightarrow> (Inl ErrNotFound, r)
      | Some current \<Rightarrow>
          if upExpectedRevision input \<noteq> None \<and> upExpectedRevision input \<noteq> Some (prRevision current)
          then (Inl ErrRevision, r)
          else case psSheetToWB r (prSheetID current) of
              None \<Rightarrow> (Inl ErrNotFound, r)
            | Some workbookID \<Rightarrow>
                let updated = current\<lparr>prRange := given (upRange input) (prRange current),
                      prScope := given (upScope input) (prScope current),
                      prExceptions := given (upExceptions input) (prExceptions current),
                      prDescription := given (upDescription input) (prDescription current),
                      prEditors := given (upEditors input) (prEditors current),
                      prWarningOnly := given (upWarningOnly input) (prWarningOnly current)\<rparr> in
                case NormalizeProtectedRange updated of
                  Inl e \<Rightarrow> (Inl e, r)
                | Inr (normalized, _) \<Rightarrow>
                    let rule = normalized\<lparr>prRevision := prRevision current + 1, prUpdatedBy := actor,
                                          prUpdatedAt := now\<rparr> in
                    (Inr rule, (bump workbookID now r)\<lparr>psProtections := AList.update ruleID rule (psProtections r)\<rparr>))"

definition DeleteProtectedRange :: "int \<Rightarrow> string \<Rightarrow> protection_store \<Rightarrow> unit result \<times> protection_store" where
  "DeleteProtectedRange now ruleID r =
     (case map_of (psProtections r) ruleID of
        None \<Rightarrow> (Inl ErrNotFound, r)
      | Some current \<Rightarrow>
          (case psSheetToWB r (prSheetID current) of
             None \<Rightarrow> (Inl ErrNotFound, r)
           | Some workbookID \<Rightarrow>
               (Inr (), bump workbookID now (r\<lparr>psProtections := AList.delete ruleID (psProtections r)\<rparr>))))"

text \<open>The rules after a structural change of one sheet, in \<^verbatim>\<open>ApplyStructure\<close>.\<close>

fun structureProtections ::
  "string \<Rightarrow> StructuralMutation \<Rightarrow> int \<Rightarrow> (string \<times> ProtectedRange) list \<Rightarrow>
   (string \<times> ProtectedRange) list result" where
  "structureProtections targetID input now [] = Inr []"
| "structureProtections targetID input now ((ruleID, rule) # rules) =
     (if prSheetID rule \<noteq> targetID
      then bind_result (structureProtections targetID input now rules) (\<lambda>next. Inr ((ruleID, rule) # next))
      else bind_result (transformProtectedForStructure rule targetID input (smActorID input) now) (\<lambda>updated.
        bind_result (structureProtections targetID input now rules) (\<lambda>next.
          Inr (case updated of None \<Rightarrow> next | Some rule' \<Rightarrow> (ruleID, rule') # next))))"

section \<open>Rules in normal form\<close>

declare editorLoop.simps(2) [simp del] exceptionLoop.simps(2) [simp del]

lemma editorLoop_Cons [simp]:
  "editorLoop seen (item # rest) =
     (if trim_space item = [] \<or> to_lower (trim_space item) \<in> set seen then editorLoop seen rest
      else trim_space item # editorLoop (to_lower (trim_space item) # seen) rest)"
  by (simp add: editorLoop.simps(2) Let_def)

lemma exceptionLoop_Cons [simp]:
  "exceptionLoop seen (raw # rest) =
     (if trim_space raw = [] then exceptionLoop seen rest
      else case Parse raw of
          Inl _ \<Rightarrow> Inl ErrInvalid
        | Inr x \<Rightarrow>
            if range_address x \<in> set seen then exceptionLoop seen rest
            else bind_result (exceptionLoop (range_address x # seen) rest) (\<lambda>result. Inr (range_address x # result)))"
  by (cases "Parse raw") (simp_all add: exceptionLoop.simps(2) Let_def)

lemma editorLoop_length: "length (editorLoop seen es) \<le> length es"
  by (induction es arbitrary: seen) (auto simp: le_SucI)

lemma editorLoop_clean:
  "e \<in> set (editorLoop seen es) \<Longrightarrow> trim_space e = e \<and> e \<noteq> [] \<and> to_lower e \<notin> set seen"
  by (induction es arbitrary: seen) (fastforce split: if_splits)+

lemma editorLoop_distinct: "distinct (map to_lower (editorLoop seen es))"
  by (induction es arbitrary: seen) (auto dest: editorLoop_clean)

lemma editorLoop_id:
  assumes "\<forall>e \<in> set es. trim_space e = e \<and> e \<noteq> []" "distinct (map to_lower es)"
    "\<forall>e \<in> set es. to_lower e \<notin> set seen"
  shows "editorLoop seen es = es"
  using assms
proof (induction es arbitrary: seen)
  case (Cons e es)
  then have "\<forall>x \<in> set es. to_lower x \<notin> set (to_lower e # seen)" by (auto simp: image_iff)
  with Cons show ?case by simp
qed simp

lemma editorLoop_again: "editorLoop [] (sort (editorLoop [] es)) = sort (editorLoop [] es)"
proof (rule editorLoop_id)
  show "distinct (map to_lower (sort (editorLoop [] es)))"
    using editorLoop_distinct [of "[]" es] by (simp add: distinct_map)
qed (auto dest: editorLoop_clean)

text \<open>Dropping repeated editors loses nobody.\<close>

lemma editorLoop_covers:
  "k \<noteq> [] \<Longrightarrow>
   (\<exists>e \<in> set (editorLoop seen es). to_lower e = k) \<or> k \<in> set seen \<longleftrightarrow>
   k \<in> set seen \<or> (\<exists>e \<in> set es. to_lower (trim_space e) = k)"
proof (induction es arbitrary: seen)
  case (Cons e es)
  let ?t = "to_lower (trim_space e)"
  show ?case
  proof (cases "trim_space e = [] \<or> ?t \<in> set seen")
    case True
    then have "?t = k \<Longrightarrow> k \<in> set seen" using Cons.prems by auto
    then show ?thesis using Cons.IH [OF Cons.prems, of seen] True by auto
  next
    case False
    then show ?thesis using Cons.IH [OF Cons.prems, of "?t # seen"] by (cases "?t = k") auto
  qed
qed simp

lemma exceptionLoop_set:
  "exceptionLoop seen xs = Inr res \<Longrightarrow>
   set res \<union> set seen = set seen \<union> {range_address x | x e. e \<in> set xs \<and> Parse e = Inr x}"
proof (induction xs arbitrary: seen res)
  case (Cons raw rest)
  show ?case
  proof (cases "Parse raw")
    case (Inl e)
    with Cons show ?thesis by (auto split: if_splits)
  next
    case (Inr x)
    then have ne: "trim_space raw \<noteq> []" using Parse_blank by fastforce
    show ?thesis
    proof (cases "range_address x \<in> set seen")
      case True
      with Cons.IH [of seen res] Cons.prems Inr ne show ?thesis by auto
    next
      case False
      then obtain res' where "exceptionLoop (range_address x # seen) rest = Inr res'" "res = range_address x # res'"
        using Cons.prems Inr ne by (auto simp: bind_result_eq_Inr)
      with Cons.IH [of "range_address x # seen" res'] Inr show ?thesis by auto
    qed
  qed
qed auto

lemma exceptionLoop_ok:
  "is_ok (exceptionLoop seen xs) \<longleftrightarrow> (\<forall>e \<in> set xs. trim_space e = [] \<or> is_ok (Parse e))"
proof (induction xs arbitrary: seen)
  case (Cons raw rest)
  have b: "is_ok (bind_result m (\<lambda>r. Inr (f r))) = is_ok m" for m :: "'x result" and f :: "'x \<Rightarrow> 'y"
    by (cases m) simp_all
  show ?case by (cases "Parse raw") (auto simp: Cons.IH b)
qed simp

lemma exceptionLoop_facts:
  "exceptionLoop seen xs = Inr res \<Longrightarrow> distinct res \<and> set res \<inter> set seen = {} \<and> length res \<le> length xs"
proof (induction xs arbitrary: seen res)
  case (Cons raw rest)
  show ?case
  proof (cases "exceptionLoop seen rest = Inr res")
    case True
    then show ?thesis using Cons.IH [of seen res] by simp
  next
    case False
    then obtain x res' where "exceptionLoop (range_address x # seen) rest = Inr res'"
      "res = range_address x # res'" "range_address x \<notin> set seen"
      using Cons.prems by (auto simp: bind_result_eq_Inr split: sum.splits if_splits)
    then show ?thesis using Cons.IH [of "range_address x # seen" res'] by auto
  qed
qed simp

lemma exceptionLoop_id:
  assumes "\<forall>e \<in> set xs. \<exists>x. well_formed_range x \<and> e = range_address x" "distinct xs" "set xs \<inter> set seen = {}"
  shows "exceptionLoop seen xs = Inr xs"
  using assms
proof (induction xs arbitrary: seen)
  case (Cons e xs)
  then obtain x where x: "well_formed_range x" "e = range_address x" by auto
  then have "Parse e = Inr x" "to_upper (trim_space e) = e" "e \<noteq> []"
    by (simp_all add: Parse_range_address range_address_clean) (simp add: range_address_def)
  moreover from this have "trim_space e \<noteq> []" by (metis to_upper_Nil_iff)
  ultimately show ?case using Cons x by simp
qed simp

lemma normalizeProtectionExceptions_ok:
  "is_ok (normalizeProtectionExceptions xs) \<longleftrightarrow>
     length xs \<le> MaxProtectedExceptions \<and> (\<forall>e \<in> set xs. trim_space e = [] \<or> is_ok (Parse e))"
proof -
  have b: "is_ok (bind_result m (\<lambda>r. Inr (f r))) = is_ok m" for m :: "'x result" and f :: "'x \<Rightarrow> 'y"
    by (cases m) simp_all
  show ?thesis by (auto simp: normalizeProtectionExceptions_def b exceptionLoop_ok)
qed

lemma normalizeProtectionExceptions_set:
  assumes "normalizeProtectionExceptions xs = Inr res"
  shows "set res = {range_address x | x e. e \<in> set xs \<and> Parse e = Inr x}"
proof (cases "xs = []")
  case True
  with assms show ?thesis by (simp add: normalizeProtectionExceptions_def)
next
  case False
  with assms obtain r where r: "exceptionLoop [] xs = Inr r" "res = sort r"
    by (auto simp: normalizeProtectionExceptions_def bind_result_eq_Inr split: if_splits)
  have "set r \<union> set [] = set [] \<union> {range_address x | x e. e \<in> set xs \<and> Parse e = Inr x}"
    by (rule exceptionLoop_set [OF r(1)])
  with r(2) show ?thesis by (simp only: set_sort list.set Un_empty_left Un_empty_right)
qed

lemma normalizeProtectionExceptions_again:
  assumes "normalizeProtectionExceptions xs = Inr res"
  shows "normalizeProtectionExceptions res = Inr res"
proof -
  have w: "\<exists>x. well_formed_range x \<and> e = range_address x" if "e \<in> set res" for e
    using that normalizeProtectionExceptions_set [OF assms] by (auto dest: Parse_well_formed)
  have "distinct res \<and> length res \<le> MaxProtectedExceptions \<and> sort res = res"
    using assms exceptionLoop_facts [of "[]" xs]
    by (auto simp: normalizeProtectionExceptions_def bind_result_eq_Inr MaxProtectedExceptions_def split: if_splits)
  with w exceptionLoop_id [of res "[]"] show ?thesis by (simp add: normalizeProtectionExceptions_def)
qed

text \<open>What a rule says after cleaning: its scope, its range and its exceptions.\<close>

definition rule_scope :: "ProtectedRange \<Rightarrow> string" where
  "rule_scope rule =
     (let scope = to_lower (trim_space (prScope rule)) in if scope = [] then ''range'' else scope)"

definition rule_range :: "ProtectedRange \<Rightarrow> string" where
  "rule_range rule = (if rule_scope rule = ''sheet'' then SheetProtectionRange else prRange rule)"

definition rule_exceptions :: "ProtectedRange \<Rightarrow> string list" where
  "rule_exceptions rule = (if rule_scope rule = ''sheet'' then prExceptions rule else [])"

lemma Normalize_Inr_iff:
  "NormalizeProtectedRange raw = Inr (n, sel) \<longleftrightarrow>
     (\<exists>exceptions. (rule_scope raw = ''range'' \<or> rule_scope raw = ''sheet'') \<and>
        Parse (rule_range raw) = Inr sel \<and>
        rune_count (trim_space (prDescription raw)) \<le> maxProtectionDescription \<and>
        length (editorLoop [] (prEditors raw)) \<le> MaxProtectedEditors \<and>
        normalizeProtectionExceptions (rule_exceptions raw) = Inr exceptions \<and>
        n = raw\<lparr>prScope := rule_scope raw, prRange := to_upper (trim_space (rule_range raw)),
                prDescription := trim_space (prDescription raw), prEditors := sort (editorLoop [] (prEditors raw)),
                prExceptions := exceptions, prRevision := (if prRevision raw < 1 then 1 else prRevision raw)\<rparr>)"
  by (auto simp: NormalizeProtectedRange_def rule_scope_def rule_range_def rule_exceptions_def Let_def
      bind_result_eq_Inr split: if_splits sum.splits)

lemma Normalize_ok_iff:
  "is_ok (NormalizeProtectedRange raw) \<longleftrightarrow>
     (rule_scope raw = ''range'' \<or> rule_scope raw = ''sheet'') \<and> is_ok (Parse (rule_range raw)) \<and>
     rune_count (trim_space (prDescription raw)) \<le> maxProtectionDescription \<and>
     length (editorLoop [] (prEditors raw)) \<le> MaxProtectedEditors \<and>
     is_ok (normalizeProtectionExceptions (rule_exceptions raw))"
proof -
  have ok: "is_ok m \<longleftrightarrow> (\<exists>x. m = Inr x)" for m :: "'x result" by (cases m) simp_all
  have "is_ok (NormalizeProtectedRange raw) \<longleftrightarrow> (\<exists>n sel. NormalizeProtectedRange raw = Inr (n, sel))"
    by (auto simp: ok)
  then show ?thesis unfolding Normalize_Inr_iff by (auto simp: ok)
qed

text \<open>The normal form is a fixed point, so what is stored is read back unchanged.\<close>

lemma Normalize_again:
  assumes "NormalizeProtectedRange raw = Inr (n, sel)"
  shows "NormalizeProtectedRange n = Inr (n, sel)"
proof -
  from assms obtain exceptions where f:
    "rule_scope raw = ''range'' \<or> rule_scope raw = ''sheet''" "Parse (rule_range raw) = Inr sel"
    "rune_count (trim_space (prDescription raw)) \<le> maxProtectionDescription"
    "length (editorLoop [] (prEditors raw)) \<le> MaxProtectedEditors"
    "normalizeProtectionExceptions (rule_exceptions raw) = Inr exceptions"
    and n: "n = raw\<lparr>prScope := rule_scope raw, prRange := to_upper (trim_space (rule_range raw)),
        prDescription := trim_space (prDescription raw), prEditors := sort (editorLoop [] (prEditors raw)),
        prExceptions := exceptions, prRevision := (if prRevision raw < 1 then 1 else prRevision raw)\<rparr>"
    unfolding Normalize_Inr_iff by blast
  have "trim_space ''range'' = ''range''" "trim_space ''sheet'' = ''sheet''" by code_simp+
  moreover have "to_lower ''range'' = ''range''" "to_lower ''sheet'' = ''sheet''" by code_simp+
  ultimately have s: "rule_scope n = rule_scope raw" using f(1) by (auto simp: n rule_scope_def)
  have u: "to_upper (trim_space SheetProtectionRange) = SheetProtectionRange" by code_simp
  have r: "rule_range n = to_upper (trim_space (rule_range raw))"
    unfolding rule_range_def [of n] s by (auto simp: n rule_range_def u)
  have x: "rule_exceptions n = exceptions"
    using f(5) unfolding rule_exceptions_def [of n] s
    by (auto simp: n rule_exceptions_def normalizeProtectionExceptions_def split: if_splits)
  have "length (editorLoop [] (prEditors n)) \<le> MaxProtectedEditors"
    using f(4) by (simp add: n editorLoop_again)
  then show ?thesis
    unfolding Normalize_Inr_iff s r x
    using f normalizeProtectionExceptions_again [OF f(5)]
    by (auto simp: n editorLoop_again trim_space_upper)
qed

section \<open>What a rule guards\<close>

text \<open>
  The cells a rule guards and the people it lets through, read off the rule as it is stored:
  the range it names, less the ranges it leaves editable, which only a sheet-wide rule has;
  the owner, the creator and the listed editors, whatever the case of their names and the
  white space around them.
\<close>

definition exempt :: "string list \<Rightarrow> int \<Rightarrow> int \<Rightarrow> bool" where
  "exempt exceptions row column =
     (\<exists>e \<in> set exceptions. \<exists>x. Parse e = Inr x \<and> Contains x row column)"

definition guards :: "ProtectedRange \<Rightarrow> int \<Rightarrow> int \<Rightarrow> bool" where
  "guards rule row column =
     (is_ok (NormalizeProtectedRange rule) \<and>
      (\<exists>x. Parse (rule_range rule) = Inr x \<and> Contains x row column) \<and>
      \<not> exempt (rule_exceptions rule) row column)"

definition may_write :: "ProtectedRange \<Rightarrow> string \<Rightarrow> string \<Rightarrow> bool" where
  "may_write rule actor ownerID =
     (actor \<noteq> [] \<and>
      (equal_fold actor ownerID \<or> equal_fold actor (prCreatedBy rule) \<or>
       (\<exists>e \<in> set (prEditors rule). equal_fold (trim_space e) actor)))"

lemma parse_exceptions_set: "set (parse_exceptions xs) = {x. \<exists>e \<in> set xs. Parse e = Inr x}"
  by (induction xs) (auto split: sum.splits)

lemma exempt_normalized:
  assumes "normalizeProtectionExceptions xs = Inr res"
  shows "exempt xs row column \<longleftrightarrow> (\<exists>x \<in> set (parse_exceptions res). Contains x row column)"
proof -
  have "Parse (range_address x) = Inr x" if "Parse e = Inr x" for e x
    using that by (intro Parse_range_address Parse_well_formed)
  then have "set (parse_exceptions res) = {x. \<exists>e \<in> set xs. Parse e = Inr x}"
    unfolding parse_exceptions_set normalizeProtectionExceptions_set [OF assms] by force
  then show ?thesis by (auto simp: exempt_def)
qed

lemma guards_normalized:
  assumes "NormalizeProtectedRange rule = Inr (n, sel)"
  shows "protectionCovers sel (parse_exceptions (prExceptions n)) row column \<longleftrightarrow> guards rule row column"
proof -
  from assms have p: "Parse (rule_range rule) = Inr sel"
    and e: "normalizeProtectionExceptions (rule_exceptions rule) = Inr (prExceptions n)"
    by (auto simp: Normalize_Inr_iff)
  show ?thesis using assms exempt_normalized [OF e] p
    by (auto simp: guards_def protectionCovers_def list_ex_iff)
qed

lemma may_write_normalized:
  assumes "NormalizeProtectedRange rule = Inr (n, sel)"
  shows "MayEditProtected n actor ownerID \<longleftrightarrow> may_write rule actor ownerID"
proof (cases "actor = []")
  case False
  have n: "prEditors n = sort (editorLoop [] (prEditors rule))" "prCreatedBy n = prCreatedBy rule"
    using assms by (auto simp: Normalize_Inr_iff)
  have "(\<exists>e \<in> set (editorLoop [] (prEditors rule)). equal_fold e actor) \<longleftrightarrow>
    (\<exists>e \<in> set (prEditors rule). equal_fold (trim_space e) actor)"
    using editorLoop_covers [of "to_lower actor" "[]" "prEditors rule"] False by (simp add: equal_fold_def)
  then show ?thesis using False by (auto simp: MayEditProtected_def may_write_def n list_ex_iff)
qed (simp add: MayEditProtected_def may_write_def)

lemma Normalize_keeps:
  assumes "NormalizeProtectedRange rule = Inr (n, sel)"
  shows "prID n = prID rule" "prWarningOnly n = prWarningOnly rule" "prSheetID n = prSheetID rule"
    "prCreateKey n = prCreateKey rule" "prCreatedBy n = prCreatedBy rule"
  using assms by (auto simp: Normalize_Inr_iff)

section \<open>The check\<close>

definition stands_in_the_way :: "string \<Rightarrow> string \<Rightarrow> ProtectedRange \<Rightarrow> int \<Rightarrow> int \<Rightarrow> bool" where
  "stands_in_the_way actor ownerID rule row column =
     (guards rule row column \<and> \<not> may_write rule actor ownerID)"

text \<open>The inner loop looks for the first rule that stands in the way.\<close>

lemma firstViolation_prepare:
  "firstViolation (prepare actor ownerID rules) input =
     map_option (\<lambda>rule. (\<lparr>pvProtectionID = prID rule, pvRow = ciRow input, pvColumn = ciColumn input,
         pvMessage = protectionMessage (fst (projr (NormalizeProtectedRange rule)))\<rparr>, prWarningOnly rule))
       (List.find (\<lambda>rule. stands_in_the_way actor ownerID rule (ciRow input) (ciColumn input)) rules)"
proof (induction rules)
  case (Cons rule rules)
  show ?case
  proof (cases "NormalizeProtectedRange rule")
    case (Inl e)
    then have "\<not> guards rule (ciRow input) (ciColumn input)" by (simp add: guards_def)
    with Inl Cons show ?thesis by (simp add: stands_in_the_way_def)
  next
    case (Inr p)
    then obtain n sel where p: "NormalizeProtectedRange rule = Inr (n, sel)" by (cases p) simp
    show ?thesis
      using Cons guards_normalized [OF p] may_write_normalized [OF p] Normalize_keeps [OF p]
      by (simp add: p stands_in_the_way_def)
  qed
qed simp

lemma violationLoop_sets:
  "violationLoop items submitted = (blocked, warnings) \<Longrightarrow>
   set blocked = {v. Some (v, False) \<in> firstViolation items ` set submitted} \<and>
   set warnings = {v. Some (v, True) \<in> firstViolation items ` set submitted}"
proof (induction submitted arbitrary: blocked warnings)
  case (Cons input submitted)
  obtain b w where l: "violationLoop items submitted = (b, w)" by fastforce
  define S where "S = firstViolation items ` set submitted"
  define f where "f = firstViolation items input"
  have S: "firstViolation items ` set (input # submitted) = insert f S" by (simp add: S_def f_def)
  have IH: "set b = {v. Some (v, False) \<in> S}" "set w = {v. Some (v, True) \<in> S}"
    using Cons.IH [OF l] by (simp_all add: S_def)
  have "(blocked, warnings) =
      (case f of None \<Rightarrow> (b, w) | Some (v, warningOnly) \<Rightarrow> if warningOnly then (b, v # w) else (v # b, w))"
    using Cons.prems l by (simp add: f_def)
  with IH show ?case unfolding S by (cases f) (auto split: if_splits)
qed simp

lemma CheckProtectedRanges_sets:
  assumes "CheckProtectedRanges rules actor ownerID submitted = (blocked, warnings)"
  shows "set blocked = {v. Some (v, False) \<in> firstViolation (prepare actor ownerID rules) ` set submitted}"
    "set warnings = {v. Some (v, True) \<in> firstViolation (prepare actor ownerID rules) ` set submitted}"
proof -
  show "set blocked = {v. Some (v, False) \<in> firstViolation (prepare actor ownerID rules) ` set submitted}"
    "set warnings = {v. Some (v, True) \<in> firstViolation (prepare actor ownerID rules) ` set submitted}"
    using assms violationLoop_sets [of "prepare actor ownerID rules" submitted blocked warnings]
    by (cases "rules = []"; cases "submitted = []"; simp add: CheckProtectedRanges_def image_def)+
qed

lemma violation_names_rule:
  assumes "Some (v, w) \<in> firstViolation (prepare actor ownerID rules) ` set submitted"
  obtains rule where "rule \<in> set rules" "prID rule = pvProtectionID v" "prWarningOnly rule = w"
    "stands_in_the_way actor ownerID rule (pvRow v) (pvColumn v)"
    "(pvRow v, pvColumn v) \<in> (\<lambda>input. (ciRow input, ciColumn input)) ` set submitted"
proof -
  from assms obtain input where i: "input \<in> set submitted"
    "firstViolation (prepare actor ownerID rules) input = Some (v, w)" by (metis imageE)
  let ?stands = "\<lambda>rule. stands_in_the_way actor ownerID rule (ciRow input) (ciColumn input)"
  obtain rule where f: "List.find ?stands rules = Some rule"
    and e: "(\<lparr>pvProtectionID = prID rule, pvRow = ciRow input, pvColumn = ciColumn input,
         pvMessage = protectionMessage (fst (projr (NormalizeProtectedRange rule)))\<rparr>, prWarningOnly rule) = (v, w)"
    using i(2) unfolding firstViolation_prepare map_option_eq_Some by (elim exE conjE)
  from e have "v = \<lparr>pvProtectionID = prID rule, pvRow = ciRow input, pvColumn = ciColumn input,
         pvMessage = protectionMessage (fst (projr (NormalizeProtectedRange rule)))\<rparr>" "w = prWarningOnly rule"
    by simp_all
  then have v: "pvProtectionID v = prID rule" "pvRow v = ciRow input" "pvColumn v = ciColumn input"
    "w = prWarningOnly rule" by simp_all
  from f have "rule \<in> set rules" "stands_in_the_way actor ownerID rule (ciRow input) (ciColumn input)"
    unfolding find_Some_iff by (metis nth_mem)+
  with v i(1) that show ?thesis by (metis (no_types, lifting) imageI)
qed

lemma violation_found:
  assumes "input \<in> set submitted" "rule \<in> set rules"
    and "stands_in_the_way actor ownerID rule (ciRow input) (ciColumn input)"
  obtains v w where "Some (v, w) \<in> firstViolation (prepare actor ownerID rules) ` set submitted"
    "pvRow v = ciRow input" "pvColumn v = ciColumn input"
proof -
  obtain first where f:
    "List.find (\<lambda>rule. stands_in_the_way actor ownerID rule (ciRow input) (ciColumn input)) rules = Some first"
    using assms(2,3) find_None_iff [of _ rules] by (metis option.exhaust)
  define v where "v = \<lparr>pvProtectionID = prID first, pvRow = ciRow input, pvColumn = ciColumn input,
         pvMessage = protectionMessage (fst (projr (NormalizeProtectedRange first)))\<rparr>"
  have "firstViolation (prepare actor ownerID rules) input = Some (v, prWarningOnly first)"
    unfolding firstViolation_prepare f v_def by simp
  with assms(1) have "Some (v, prWarningOnly first) \<in> firstViolation (prepare actor ownerID rules) ` set submitted"
    by (metis imageI)
  then show ?thesis by (rule that) (simp_all add: v_def)
qed

text \<open>
  C4. The check misses no unpermitted write and reports nothing else: a cell is reported,
  as blocked or as a warning, exactly when the request writes it and some rule guards it
  against this person; what is blocked is blocked by a rule that is not warning-only, and a
  warning comes from one that is, so that a sheet without warning-only rules blocks every
  unpermitted write.
\<close>

theorem protected_check_exact:
  assumes "CheckProtectedRanges rules actor ownerID submitted = (blocked, warnings)"
  shows "((\<exists>v \<in> set blocked \<union> set warnings. pvRow v = row \<and> pvColumn v = column) \<longleftrightarrow>
      (row, column) \<in> (\<lambda>input. (ciRow input, ciColumn input)) ` set submitted \<and>
      (\<exists>rule \<in> set rules. stands_in_the_way actor ownerID rule row column)) \<and>
    (\<forall>v \<in> set blocked. \<exists>rule \<in> set rules. prID rule = pvProtectionID v \<and> \<not> prWarningOnly rule \<and>
      stands_in_the_way actor ownerID rule (pvRow v) (pvColumn v)) \<and>
    (\<forall>v \<in> set warnings. \<exists>rule \<in> set rules. prID rule = pvProtectionID v \<and> prWarningOnly rule \<and>
      stands_in_the_way actor ownerID rule (pvRow v) (pvColumn v))"
proof (intro conjI iffI ballI)
  let ?S = "firstViolation (prepare actor ownerID rules) ` set submitted"
  note sets = CheckProtectedRanges_sets [OF assms]
  {
    assume "\<exists>v \<in> set blocked \<union> set warnings. pvRow v = row \<and> pvColumn v = column"
    then obtain v w where v: "Some (v, w) \<in> ?S" "pvRow v = row" "pvColumn v = column"
      unfolding sets by (metis UnE mem_Collect_eq)
    show "(row, column) \<in> (\<lambda>input. (ciRow input, ciColumn input)) ` set submitted"
      using violation_names_rule [OF v(1)] v(2,3) by metis
    show "\<exists>rule \<in> set rules. stands_in_the_way actor ownerID rule row column"
      using violation_names_rule [OF v(1)] v(2,3) by metis
  }
  {
    assume a: "(row, column) \<in> (\<lambda>input. (ciRow input, ciColumn input)) ` set submitted \<and>
      (\<exists>rule \<in> set rules. stands_in_the_way actor ownerID rule row column)"
    then obtain rule where r: "rule \<in> set rules" "stands_in_the_way actor ownerID rule row column" by blast
    from a obtain input where i: "(row, column) = (ciRow input, ciColumn input)" "input \<in> set submitted"
      by (elim conjE imageE)
    then have s: "stands_in_the_way actor ownerID rule (ciRow input) (ciColumn input)" using r(2) by simp
    obtain v w where "Some (v, w) \<in> ?S" "pvRow v = row" "pvColumn v = column"
      using violation_found [OF i(2) r(1) s] i(1) by (metis Pair_inject)
    then show "\<exists>v \<in> set blocked \<union> set warnings. pvRow v = row \<and> pvColumn v = column"
      unfolding sets by (cases w) auto
  }
  fix v
  show "\<exists>rule \<in> set rules. prID rule = pvProtectionID v \<and> \<not> prWarningOnly rule \<and>
      stands_in_the_way actor ownerID rule (pvRow v) (pvColumn v)" if "v \<in> set blocked"
    using that violation_names_rule [of v False] unfolding sets by (metis mem_Collect_eq)
  show "\<exists>rule \<in> set rules. prID rule = pvProtectionID v \<and> prWarningOnly rule \<and>
      stands_in_the_way actor ownerID rule (pvRow v) (pvColumn v)" if "v \<in> set warnings"
    using that violation_names_rule [of v True] unfolding sets by (metis mem_Collect_eq)
qed


section \<open>Rules through structural changes\<close>

definition rule_ok :: "ProtectedRange \<Rightarrow> bool" where
  "rule_ok rule =
     (is_ok (NormalizeProtectedRange rule) \<and> (prScope rule = ''range'' \<or> prScope rule = ''sheet'') \<and>
      1 \<le> prRevision rule)"

lemma rule_scope_ok: "prScope rule = ''range'' \<or> prScope rule = ''sheet'' \<Longrightarrow> rule_scope rule = prScope rule"
proof -
  have "trim_space ''range'' = ''range''" "trim_space ''sheet'' = ''sheet''"
    "to_lower ''range'' = ''range''" "to_lower ''sheet'' = ''sheet''" by code_simp+
  then show "prScope rule = ''range'' \<or> prScope rule = ''sheet'' \<Longrightarrow> rule_scope rule = prScope rule"
    by (auto simp: rule_scope_def)
qed

lemma transformExceptions_ok:
  assumes "valid_change c" "scAxis c = ''row'' \<or> scAxis c = ''column''"
  shows "transformExceptions xs c = Inr ys \<Longrightarrow> length ys \<le> length xs \<and> (\<forall>e \<in> set ys. is_ok (Parse e))"
proof (induction xs arbitrary: ys)
  case (Cons e xs)
  then obtain moved still zs where t: "TransformRangeAddress e c = Inr (moved, still)"
    "transformExceptions xs c = Inr zs" "ys = (if still then moved # zs else zs)"
    by (auto simp: bind_result_eq_Inr split: sum.splits)
  then obtain r where r: "Parse e = Inr r" by (auto simp: TransformRangeAddress_alt bind_result_eq_Inr)
  have "is_ok (Parse moved)" if "still"
    using transformed_range [OF assms r] t(1) that by (metis is_ok_simps(2))
  with Cons.IH [OF t(2)] t(3) show ?case by auto
qed simp

lemma transformExceptions_exempt:
  assumes "valid_change c" "scAxis c = ''row'' \<or> scAxis c = ''column''"
    and "move_cell c (row, column) = Some (row', column')"
  shows "transformExceptions xs c = Inr ys \<Longrightarrow>
    (exempt xs row column \<longrightarrow> exempt ys row' column') \<and>
    (scAction c \<noteq> ''move'' \<longrightarrow> exempt ys row' column' \<longrightarrow> exempt xs row column)"
proof (induction xs arbitrary: ys)
  case (Cons e xs)
  then obtain moved still zs where t: "TransformRangeAddress e c = Inr (moved, still)"
    "transformExceptions xs c = Inr zs" "ys = (if still then moved # zs else zs)"
    by (auto simp: bind_result_eq_Inr split: sum.splits)
  then obtain r where r: "Parse e = Inr r" by (auto simp: TransformRangeAddress_alt bind_result_eq_Inr)
  have w: "well_formed_range r" using r by (rule Parse_well_formed)
  have ex: "exempt (a # as) i j \<longleftrightarrow> (\<exists>x. Parse a = Inr x \<and> Contains x i j) \<or> exempt as i j" for a as i j
    by (auto simp: exempt_def)
  show ?case
  proof (cases still)
    case True
    then obtain s h where m: "move_span c (range_span c r) = Some (s, h)" "Parse moved = Inr (set_span c r s h)"
      using transformed_range [OF assms(1,2) r] t(1) by metis
    have "Contains r row column \<longrightarrow> Contains (set_span c r s h) row' column'"
      using transformed_range_covers [OF assms(1,2) w m(1) _ assms(3)] by blast
    moreover have "scAction c \<noteq> ''move'' \<longrightarrow> Contains (set_span c r s h) row' column' \<longrightarrow> Contains r row column"
      using transformed_range_exact [OF assms(1) _ assms(2) w m(1) _ assms(3)] by blast
    ultimately show ?thesis using Cons.IH [OF t(2)] t(3) True r m(2) by (auto simp: ex)
  next
    case False
    then have "\<not> Contains r row column"
      using dropped_range [OF assms(1) r] t(1) assms(3) by fastforce
    then show ?thesis using Cons.IH [OF t(2)] t(3) False r by (auto simp: ex)
  qed
qed (simp add: exempt_def)

text \<open>What the transformation changes, and what it leaves alone.\<close>

definition same_rule :: "ProtectedRange \<Rightarrow> ProtectedRange \<Rightarrow> bool" where
  "same_rule rule rule' =
     (prID rule' = prID rule \<and> prSheetID rule' = prSheetID rule \<and> prCreateKey rule' = prCreateKey rule \<and>
      prScope rule' = prScope rule \<and> prDescription rule' = prDescription rule \<and> prEditors rule' = prEditors rule \<and>
      prWarningOnly rule' = prWarningOnly rule \<and> prCreatedBy rule' = prCreatedBy rule \<and>
      prRevision rule \<le> prRevision rule')"

lemma transformProtected_Some:
  assumes "prSheetID rule = target"
    and "transformProtectedForStructure rule target input actor now = Inr (Some rule')"
  shows "same_rule rule rule' \<and>
    transformExceptions (prExceptions rule) (formulaStructuralChange input [] []) = Inr (prExceptions rule') \<and>
    (if prScope rule = ''sheet'' then prRange rule' = prRange rule
     else TransformRangeAddress (prRange rule) (formulaStructuralChange input [] []) = Inr (prRange rule', True))"
proof -
  let ?c = "formulaStructuralChange input [] []"
  obtain selected exceptions where m: "movedProtection rule ?c = Inr (Some selected)"
    and e: "transformExceptions (prExceptions rule) ?c = Inr exceptions"
    and r: "rule' = rule\<lparr>prExceptions := exceptions, prRange := selected\<rparr> \<or>
      rule' = rule\<lparr>prExceptions := exceptions, prRange := selected, prRevision := prRevision rule + 1,
        prUpdatedBy := actor, prUpdatedAt := now\<rparr>"
    using assms unfolding transformProtectedForStructure_def
    by (auto split: option.splits if_splits simp: bind_result_eq_Inr Let_def)
  from r have "same_rule rule rule' \<and> prExceptions rule' = exceptions \<and> prRange rule' = selected"
    by (elim disjE) (simp_all add: same_rule_def)
  moreover have "if prScope rule = ''sheet'' then selected = prRange rule
     else TransformRangeAddress (prRange rule) ?c = Inr (selected, True)"
    using m by (auto simp: movedProtection_def split: sum.splits if_splits)
  ultimately show ?thesis using e by simp
qed

lemma transformProtected_None:
  assumes "prSheetID rule = target"
    and "transformProtectedForStructure rule target input actor now = Inr None"
  shows "prScope rule \<noteq> ''sheet'' \<and>
    (\<exists>a. TransformRangeAddress (prRange rule) (formulaStructuralChange input [] []) = Inr (a, False))"
proof -
  have "movedProtection rule (formulaStructuralChange input [] []) = Inr None"
    using assms unfolding transformProtectedForStructure_def
    by (auto split: option.splits if_splits simp: bind_result_eq_Inr Let_def)
  then show ?thesis by (auto simp: movedProtection_def split: sum.splits if_splits)
qed

lemma same_rule_may_write: "same_rule rule rule' \<Longrightarrow> may_write rule' actor ownerID = may_write rule actor ownerID"
  by (simp add: same_rule_def may_write_def)

lemma rule_ok_moved:
  assumes "valid_change (formulaStructuralChange input [] [])" "smAxis input = ''row'' \<or> smAxis input = ''column''"
    and "rule_ok rule" "prSheetID rule = target"
    and "transformProtectedForStructure rule target input actor now = Inr (Some rule')"
  shows "rule_ok rule'"
proof -
  let ?c = "formulaStructuralChange input [] []"
  note t = transformProtected_Some [OF assms(4,5)]
  have ax: "scAxis ?c = ''row'' \<or> scAxis ?c = ''column''" using assms(2) by (simp add: formulaStructuralChange_def)
  have sc: "prScope rule = ''range'' \<or> prScope rule = ''sheet''" using assms(3) by (simp add: rule_ok_def)
  have sc': "rule_scope rule = prScope rule" "rule_scope rule' = prScope rule"
    using rule_scope_ok [of rule] rule_scope_ok [of rule'] sc t by (simp_all add: same_rule_def)
  have n: "is_ok (NormalizeProtectedRange rule)" using assms(3) by (simp add: rule_ok_def)
  have p: "is_ok (Parse (rule_range rule'))"
  proof (cases "prScope rule = ''sheet''")
    case True
    then show ?thesis using n sc' by (simp add: Normalize_ok_iff rule_range_def)
  next
    case False
    with t have tr: "TransformRangeAddress (prRange rule) ?c = Inr (prRange rule', True)" by simp
    then obtain r where "Parse (prRange rule) = Inr r" by (auto simp: TransformRangeAddress_alt bind_result_eq_Inr)
    from transformed_range [OF assms(1) ax this tr] have "is_ok (Parse (prRange rule'))" by (metis is_ok_simps(2))
    with False sc' show ?thesis by (simp add: rule_range_def)
  qed
  have e: "is_ok (normalizeProtectionExceptions (rule_exceptions rule'))"
    using n transformExceptions_ok [OF assms(1) ax, of "prExceptions rule"] t sc'
    by (auto simp: Normalize_ok_iff rule_exceptions_def normalizeProtectionExceptions_ok)
  from n p e t sc sc' assms(3) show ?thesis
    by (simp add: rule_ok_def Normalize_ok_iff same_rule_def)
qed

lemma Contains_sheet_range:
  "Parse SheetProtectionRange = Inr \<lparr>Start = \<lparr>Row = 1, Column = 1\<rparr>, End = \<lparr>Row = MaxRows, Column = MaxColumns\<rparr>\<rparr>"
  by code_simp

lemma guards_sheet:
  "rule_ok rule \<Longrightarrow> prScope rule = ''sheet'' \<Longrightarrow>
   guards rule row column \<longleftrightarrow> in_sheet \<lparr>Row = row, Column = column\<rparr> \<and> \<not> exempt (prExceptions rule) row column"
  using rule_scope_ok [of rule]
  by (auto simp: guards_def rule_ok_def rule_range_def rule_exceptions_def Contains_sheet_range Contains_def in_sheet_def)

lemma guards_range:
  "rule_ok rule \<Longrightarrow> prScope rule = ''range'' \<Longrightarrow>
   guards rule row column \<longleftrightarrow> (\<exists>x. Parse (prRange rule) = Inr x \<and> Contains x row column)"
  using rule_scope_ok [of rule]
  by (auto simp: guards_def rule_ok_def rule_range_def rule_exceptions_def exempt_def)

lemma transformProtected_follows:
  assumes "valid_mutation input" "rule_ok rule" "prSheetID rule = target"
    and "transformProtectedForStructure rule target input actor now = Inr kept"
    and "in_sheet \<lparr>Row = row, Column = column\<rparr>"
    and "move_cell (formulaStructuralChange input [] []) (row, column) = Some (row', column')"
  shows "case kept of
      None \<Rightarrow> \<not> guards rule row column
    | Some rule' \<Rightarrow> rule_ok rule' \<and> may_write rule' = may_write rule \<and>
        (smAction input \<noteq> ''move'' \<longrightarrow> guards rule' row' column' = guards rule row column) \<and>
        (if prScope rule = ''sheet'' then guards rule' row' column' \<longrightarrow> guards rule row column
         else guards rule row column \<longrightarrow> guards rule' row' column')"
proof -
  let ?c = "formulaStructuralChange input [] []"
  from assms(1) have v: "valid_change ?c" and axis: "smAxis input = ''row'' \<or> smAxis input = ''column''"
    by (simp_all add: valid_mutation_def mutation_change_def)
  then have ax: "scAxis ?c = ''row'' \<or> scAxis ?c = ''column''" by (simp add: formulaStructuralChange_def)
  have act: "scAction ?c = smAction input" by (simp add: formulaStructuralChange_def)
  have sc: "prScope rule = ''range'' \<or> prScope rule = ''sheet''" using assms(2) by (simp add: rule_ok_def)
  show ?thesis
  proof (cases kept)
    case None
    with transformProtected_None [OF assms(3), of input actor now] assms(4) obtain a
      where s: "prScope rule \<noteq> ''sheet''" and t: "TransformRangeAddress (prRange rule) ?c = Inr (a, False)" by auto
    have "\<not> Contains x row column" if "Parse (prRange rule) = Inr x" for x
      using dropped_range [OF v that t] assms(6) by fastforce
    with s sc None show ?thesis by (auto simp: guards_range [OF assms(2)])
  next
    case (Some rule')
    note t = transformProtected_Some [OF assms(3), of input actor now rule']
    have ok': "rule_ok rule'" using rule_ok_moved [OF v axis assms(2,3)] assms(4) Some by blast
    have tr: "same_rule rule rule'"
      "transformExceptions (prExceptions rule) ?c = Inr (prExceptions rule')"
      "prScope rule \<noteq> ''sheet'' \<Longrightarrow> TransformRangeAddress (prRange rule) ?c = Inr (prRange rule', True)"
      using t assms(4) Some by auto
    have mw: "may_write rule' = may_write rule" using tr(1) by (intro ext) (rule same_rule_may_write)
    have sc': "prScope rule' = prScope rule" using tr(1) by (simp add: same_rule_def)
    show ?thesis
    proof (cases "prScope rule = ''sheet''")
      case True
      have "in_sheet \<lparr>Row = row', Column = column'\<rparr>" by (rule move_cell_in_sheet [OF v ax assms(5,6)])
      then show ?thesis
        using transformExceptions_exempt [OF v ax assms(6) tr(2)] True sc' Some ok' mw assms(5) act
        by (auto simp: guards_sheet [OF assms(2)] guards_sheet [OF ok'])
    next
      case False
      then have r: "prScope rule = ''range''" using sc by simp
      obtain x where x: "Parse (prRange rule) = Inr x"
        using tr(3) [OF False] by (auto simp: TransformRangeAddress_alt bind_result_eq_Inr)
      have w: "well_formed_range x" using x by (rule Parse_well_formed)
      obtain s e where m: "move_span ?c (range_span ?c x) = Some (s, e)" "Parse (prRange rule') = Inr (set_span ?c x s e)"
        using transformed_range [OF v ax x tr(3) [OF False]] by metis
      have g: "guards rule row column = Contains x row column"
        by (simp add: guards_range [OF assms(2) r] x)
      have g': "guards rule' row' column' = Contains (set_span ?c x s e) row' column'"
        using sc' r by (simp add: guards_range [OF ok'] m(2))
      have "Contains x row column \<longrightarrow> Contains (set_span ?c x s e) row' column'"
        using transformed_range_covers [OF v ax w m(1) _ assms(6)] by blast
      moreover have "smAction input \<noteq> ''move'' \<longrightarrow> Contains (set_span ?c x s e) row' column' \<longrightarrow> Contains x row column"
        using transformed_range_exact [OF v _ ax w m(1) _ assms(6)] unfolding act by blast
      ultimately show ?thesis using False ok' mw g g' unfolding Some option.case by argo
    qed
  qed
qed

text \<open>The rules on a range of one sheet, and the cells of the sheet they guard.\<close>

definition guards_cell :: "ProtectedRange \<Rightarrow> int \<times> int \<Rightarrow> bool" where
  "guards_cell rule p =
     (guards rule (fst p) (snd p) \<and> in_sheet \<lparr>Row = fst p, Column = snd p\<rparr>)"

definition range_rule :: "ProtectedRange \<Rightarrow> bool" where
  "range_rule rule = (rule_ok rule \<and> prScope rule = ''range'')"

definition move_rule :: "StructuralMutation \<times> int \<Rightarrow> ProtectedRange \<Rightarrow> ProtectedRange option result" where
  "move_rule m rule =
     transformProtectedForStructure rule (prSheetID rule) (fst m) (smActorID (fst m)) (snd m)"

interpretation protection_follower: cell_follower "\<lambda>m. valid_mutation (fst m)" moved_cell range_rule
  guards_cell move_rule
proof unfold_locales
  fix m :: "StructuralMutation \<times> int" and rule rule' p q
  let ?c = "formulaStructuralChange (fst m) [] []"
  assume v: "valid_mutation (fst m)" and r: "range_rule rule"
  then have ok: "rule_ok rule" and sc: "prScope rule = ''range''" and c: "valid_change ?c"
    and ax: "scAxis ?c = ''row'' \<or> scAxis ?c = ''column''" "smAxis (fst m) = ''row'' \<or> smAxis (fst m) = ''column''"
    by (simp_all add: range_rule_def valid_mutation_def mutation_change_def formulaStructuralChange_def)
  show "range_rule rule'" if "move_rule m rule = Inr (Some rule')"
    using rule_ok_moved [OF c ax(2) ok refl] transformProtected_Some [OF refl] that sc
    unfolding range_rule_def move_rule_def same_rule_def by metis
  show "guards_cell rule' q"
    if "move_rule m rule = Inr (Some rule')" "guards_cell rule p" "moved_cell m p = Some q"
    using transformProtected_follows [OF v ok refl, of _ _ "Some rule'" "fst p" "snd p" "fst q" "snd q"]
      move_cell_in_sheet [OF c ax(1), of "fst p" "snd p" "fst q" "snd q"] that sc
    by (simp add: move_rule_def guards_cell_def moved_cell_def)
  show "moved_cell m p = None" if "move_rule m rule = Inr None" "guards_cell rule p"
  proof (rule ccontr)
    assume "moved_cell m p \<noteq> None"
    then obtain q where "moved_cell m p = Some q" by blast
    with transformProtected_follows [OF v ok refl, of _ _ None "fst p" "snd p" "fst q" "snd q"] that
    show False by (simp add: move_rule_def guards_cell_def moved_cell_def)
  qed
qed

text \<open>
  A rule follows the cells it guards. Through rows or columns inserted or deleted, every
  cell of the sheet is guarded after the change exactly when it was before, and a rule is
  dropped only when the change deleted every cell it guards. Through a move, a rule on a
  range guards every cell it guarded before, and a sheet-wide rule leaves every cell editable
  that it left editable before. Who may write is not touched, and the rule stays readable.
\<close>

lemma protection_follows_structure:
  assumes "normalizeStructuralMutation raw = Inr input" "rule_ok rule" "prSheetID rule = target"
    and "transformProtectedForStructure rule target input actor now = Inr kept"
    and "in_sheet \<lparr>Row = row, Column = column\<rparr>"
    and "move_cell (formulaStructuralChange input [] []) (row, column) = Some (row', column')"
  shows "case kept of
      None \<Rightarrow> \<not> guards rule row column
    | Some rule' \<Rightarrow> rule_ok rule' \<and> may_write rule' = may_write rule \<and>
        (smAction input \<noteq> ''move'' \<longrightarrow> guards rule' row' column' = guards rule row column) \<and>
        (if prScope rule = ''sheet'' then guards rule' row' column' \<longrightarrow> guards rule row column
         else guards rule row column \<longrightarrow> guards rule' row' column')"
  by (rule transformProtected_follows [OF normalizeStructuralMutation_valid [OF assms(1)] assms(2-)])

section \<open>The store keeps its rules\<close>

abbreviation protections_ok :: "(string \<times> ProtectedRange) list \<Rightarrow> bool" where
  "protections_ok \<equiv> store_ok prID prSheetID prCreateKey rule_ok MaxProtectedRanges"

definition move_protection :: "string \<times> StructuralMutation \<times> int \<Rightarrow> ProtectedRange \<Rightarrow> ProtectedRange option result" where
  "move_protection m rule =
     (case m of (target, input, now) \<Rightarrow>
        transformProtectedForStructure rule target input (smActorID input) now)"

lemma move_protection_keeps:
  assumes "valid_mutation (fst (snd m))" "rule_ok rule" "move_protection m rule = Inr (Some rule')"
  shows "rule_ok rule' \<and> prID rule' = prID rule \<and> prSheetID rule' = prSheetID rule \<and> prCreateKey rule' = prCreateKey rule"
proof -
  obtain target input now where m: "m = (target, input, now)" by (cases m) auto
  show ?thesis
  proof (cases "prSheetID rule = target")
    case True
    with assms m have t: "transformProtectedForStructure rule target input (smActorID input) now = Inr (Some rule')"
      by (simp add: move_protection_def)
    have "valid_change (formulaStructuralChange input [] [])" "smAxis input = ''row'' \<or> smAxis input = ''column''"
      using assms(1) m by (simp_all add: valid_mutation_def mutation_change_def)
    from rule_ok_moved [OF this assms(2) True t] transformProtected_Some [OF True t]
    show ?thesis by (simp add: same_rule_def)
  next
    case False
    with assms m show ?thesis by (simp add: move_protection_def transformProtectedForStructure_def)
  qed
qed

interpretation protections: rule_store prID prSheetID prCreateKey rule_ok MaxProtectedRanges
  "\<lambda>m. valid_mutation (fst (snd m))" move_protection
  by unfold_locales (rule move_protection_keeps)

lemma structureProtections_move_store:
  "structureProtections target input now store = move_store (move_protection (target, input, now)) store"
  by (induction store) (auto simp: move_protection_def transformProtectedForStructure_def split: option.splits)

lemma rule_ok_same:
  assumes "NormalizeProtectedRange raw = Inr (n, sel)"
    and "prScope rule = prScope n" "prRange rule = prRange n" "prExceptions rule = prExceptions n"
    "prDescription rule = prDescription n" "prEditors rule = prEditors n" "1 \<le> prRevision rule"
  shows "rule_ok rule"
proof -
  have "is_ok (NormalizeProtectedRange n)" using Normalize_again [OF assms(1)] by simp
  moreover have "prScope n = ''range'' \<or> prScope n = ''sheet''" using assms(1) by (auto simp: Normalize_Inr_iff)
  moreover have s: "rule_scope rule = rule_scope n" by (simp add: rule_scope_def assms(2))
  moreover have "rule_range rule = rule_range n" "rule_exceptions rule = rule_exceptions n"
    by (simp_all add: rule_range_def rule_exceptions_def s assms(3,4))
  ultimately show ?thesis using assms by (simp add: rule_ok_def Normalize_ok_iff)
qed

lemma CreateProtectedRange_ok:
  assumes "protections_ok (psProtections r)" "newID \<notin> fst ` set (psProtections r)"
  shows "protections_ok (psProtections (snd (CreateProtectedRange newID now sheetID actor input r)))"
proof -
  let ?key = "trim_space (cpIdempotencyKey input)"
  let ?p = "\<lambda>existing. prSheetID existing = sheetID \<and> prCreateKey existing = ?key"
  show ?thesis
  proof (cases "?key \<noteq> [] \<and> psSheetToWB r sheetID \<noteq> None \<and>
      List.find ?p (map snd (psProtections r)) = None \<and>
      is_ok (protectedFromInput sheetID ?key actor input) \<and> countProtectionsLocked r sheetID < MaxProtectedRanges")
    case False
    then have "snd (CreateProtectedRange newID now sheetID actor input r) = r"
      by (auto simp: CreateProtectedRange_def Let_def is_ok_def split: option.splits sum.splits)
    with assms show ?thesis by simp
  next
    case True
    then obtain wb rule where w: "psSheetToWB r sheetID = Some wb"
      and f: "protectedFromInput sheetID ?key actor input = Inr rule"
      by (auto simp: is_ok_def split: sum.splits)
    define new where "new = rule\<lparr>prID := newID, prRevision := 1, prCreatedAt := now, prUpdatedAt := now\<rparr>"
    have c: "psProtections (snd (CreateProtectedRange newID now sheetID actor input r)) =
        AList.update newID new (psProtections r)"
      using True w f by (simp add: CreateProtectedRange_def Let_def new_def)
    from f obtain raw sel where n: "NormalizeProtectedRange raw = Inr (rule, sel)"
      and raw: "prSheetID raw = sheetID" "prCreateKey raw = ?key"
      by (auto simp: protectedFromInput_def bind_result_eq_Inr)
    have "rule_ok new" by (rule rule_ok_same [OF n]) (simp_all add: new_def)
    moreover have k: "prID new = newID" "prSheetID new = sheetID" "prCreateKey new = ?key"
      using Normalize_keeps [OF n] raw by (simp_all add: new_def)
    moreover have "\<forall>(j, s) \<in> set (psProtections r). prSheetID s = prSheetID new \<longrightarrow> prCreateKey s \<noteq> prCreateKey new"
      using True unfolding find_None_iff k by force
    moreover have "length (filter (\<lambda>(i, s). prSheetID s = prSheetID new) (psProtections r)) < MaxProtectedRanges"
      using True unfolding k countProtectionsLocked_def by blast
    ultimately show ?thesis unfolding c using protections.inv_add [OF assms] by blast
  qed
qed

lemma UpdateProtectedRange_ok:
  assumes "protections_ok (psProtections r)"
  shows "protections_ok (psProtections (snd (UpdateProtectedRange now ruleID actor input r)))"
proof (cases "psProtections (snd (UpdateProtectedRange now ruleID actor input r)) = psProtections r")
  case True
  with assms show ?thesis by simp
next
  case False
  then obtain current raw n sel where c: "map_of (psProtections r) ruleID = Some current"
    and n: "NormalizeProtectedRange raw = Inr (n, sel)"
    and k: "prID raw = prID current" "prSheetID raw = prSheetID current" "prCreateKey raw = prCreateKey current"
    and u: "psProtections (snd (UpdateProtectedRange now ruleID actor input r)) =
      AList.update ruleID (n\<lparr>prRevision := prRevision current + 1, prUpdatedBy := actor, prUpdatedAt := now\<rparr>)
        (psProtections r)"
    by (auto simp: UpdateProtectedRange_def Let_def split: option.splits sum.splits if_splits)
  have ok: "rule_ok current" using protections.inv_get [OF assms c] by simp
  then have "rule_ok (n\<lparr>prRevision := prRevision current + 1, prUpdatedBy := actor, prUpdatedAt := now\<rparr>)"
    by (intro rule_ok_same [OF n]) (simp_all add: rule_ok_def)
  then show ?thesis unfolding u using protections.inv_replace [OF assms c] Normalize_keeps [OF n] k by simp
qed

lemma DeleteProtectedRange_ok:
  "protections_ok (psProtections r) \<Longrightarrow> protections_ok (psProtections (snd (DeleteProtectedRange now ruleID r)))"
  by (auto simp: DeleteProtectedRange_def bump_def protections.inv_remove split: option.splits)

text \<open>
  C5. A stored rule is never skipped: the check passes over a rule it cannot read, and no
  operation lets one in. Creating, updating and deleting rules and moving them through a
  structural change keep every stored rule readable, one rule per id and per idempotency key
  of its sheet, and at most 200 rules on a sheet.
\<close>

theorem protections_stay_readable:
  assumes "protections_ok (psProtections r)"
  shows "(newID \<notin> fst ` set (psProtections r) \<longrightarrow>
      protections_ok (psProtections (snd (CreateProtectedRange newID now sheetID actor create r)))) \<and>
    protections_ok (psProtections (snd (UpdateProtectedRange now ruleID actor update r))) \<and>
    protections_ok (psProtections (snd (DeleteProtectedRange now ruleID r))) \<and>
    (\<forall>input next. normalizeStructuralMutation raw = Inr input \<longrightarrow>
      structureProtections target input now (psProtections r) = Inr next \<longrightarrow> protections_ok next)"
proof (intro conjI impI allI)
  show "protections_ok next" if "normalizeStructuralMutation raw = Inr input"
    "structureProtections target input now (psProtections r) = Inr next" for input "next"
    using protections.inv_move [of "(target, input, now)", OF _ assms] that normalizeStructuralMutation_valid
    by (simp add: structureProtections_move_store)
qed (use assms CreateProtectedRange_ok UpdateProtectedRange_ok DeleteProtectedRange_ok in blast)+


section \<open>Examples\<close>

definition sample_rule :: "string \<Rightarrow> string \<Rightarrow> string \<Rightarrow> bool \<Rightarrow> ProtectedRange" where
  "sample_rule ruleID scope address warning =
     \<lparr>prID = ruleID, prSheetID = ''s'', prCreateKey = ruleID, prRange = address, prScope = scope,
      prExceptions = [], prDescription = ''totals'', prEditors = [''eve''], prWarningOnly = warning,
      prRevision = 1, prCreatedBy = ''ann'', prUpdatedBy = ''ann'', prCreatedAt = 0, prUpdatedAt = 0\<rparr>"

definition write_at :: "int \<Rightarrow> int \<Rightarrow> CellInput" where
  "write_at row column = blank_cell row column ''1''"

definition reports :: "ProtectionViolation list \<times> ProtectionViolation list \<Rightarrow> (string \<times> int \<times> int) list \<times> (string \<times> int \<times> int) list" where
  "reports p = (let f = map (\<lambda>v. (pvProtectionID v, pvRow v, pvColumn v)) in (f (fst p), f (snd p)))"

lemma check_example:
  "reports (CheckProtectedRanges [sample_rule ''p'' ''range'' ''A1:B2'' False] ''bob'' ''ann'' [write_at 1 1, write_at 5 5]) =
     ([(''p'', 1, 1)], [])"
  by code_simp

theorem protected_check_exact_witness:
  "\<exists>rule \<in> {sample_rule ''p'' ''range'' ''A1:B2'' False}. stands_in_the_way ''bob'' ''ann'' rule 1 1"
proof -
  let ?rules = "[sample_rule ''p'' ''range'' ''A1:B2'' False]"
  obtain blocked warnings
    where c: "CheckProtectedRanges ?rules ''bob'' ''ann'' [write_at 1 1, write_at 5 5] = (blocked, warnings)"
    by fastforce
  have "map (\<lambda>v. (pvProtectionID v, pvRow v, pvColumn v)) blocked = [(''p'', 1, 1)]"
    using check_example unfolding c reports_def Let_def by simp
  then obtain v where "v \<in> set blocked" "pvRow v = 1" "pvColumn v = 1" by (cases blocked) auto
  with protected_check_exact [OF c, of 1 1] show ?thesis by auto
qed

definition row_request :: "string \<Rightarrow> int \<Rightarrow> int \<Rightarrow> int \<Rightarrow> StructuralMutation" where
  "row_request action index count destination =
     \<lparr>smSheetID = ''s'', smActorID = ''ann'', smClientID = ''c'', smBaseVersion = 1, smIdempotencyKey = ''k'',
      smAxis = ''row'', smAction = action, smIndex = index, smCount = count, smDestination = destination\<rparr>"

definition sample_store :: "ProtectedRange list \<Rightarrow> protection_store" where
  "sample_store rules = \<lparr>psSheetToWB = [''s'' \<mapsto> ''w''], psVersion = (\<lambda>_. 1), psWorkbookUpdatedAt = (\<lambda>_. 0),
     psProtections = map (\<lambda>rule. (prID rule, rule)) rules\<rparr>"

theorem protections_stay_readable_witness:
  "protections_ok (psProtections (snd (DeleteProtectedRange 5 ''p'' (sample_store [sample_rule ''p'' ''range'' ''A1:B2'' False]))))"
proof -
  have r: "rule_ok (sample_rule ''p'' ''range'' ''A1:B2'' False)" by code_simp
  have "psProtections (sample_store [sample_rule ''p'' ''range'' ''A1:B2'' False]) =
      [(''p'', sample_rule ''p'' ''range'' ''A1:B2'' False)]"
    by (simp add: sample_store_def sample_rule_def)
  then have "protections_ok (psProtections (sample_store [sample_rule ''p'' ''range'' ''A1:B2'' False]))"
    using r by (simp add: store_ok_def MaxProtectedRanges_def) (simp add: sample_rule_def)
  from protections_stay_readable [OF this] show ?thesis by blast
qed

text \<open>
  A rule that only warns can switch off one that forbids. The check stops at the first
  rule in the way, and the rules come sorted by their range, so a warning-only rule on
  A1:A9 answers for a write to A1 before the lock on A1:B9 is asked: the write goes through
  with a warning, although the lock alone would block it.
\<close>

lemma warning_rule_hides_lock:
  "let warn = sample_rule ''w'' ''range'' ''A1:A9'' True; lock = sample_rule ''l'' ''range'' ''A1:B9'' False;
       store = sample_store [lock, warn] in
   reports (CheckProtectedRanges [lock] ''bob'' ''ann'' [write_at 1 1]) = ([(''l'', 1, 1)], []) \<and>
   lock \<in> set (protectionsForSheetLocked store ''s'') \<and>
   reports (CheckProtectedRanges (protectionsForSheetLocked store ''s'') ''bob'' ''ann'' [write_at 1 1]) =
     ([], [(''w'', 1, 1)])"
  by code_simp

text \<open>
  Moving a row out of a form opens locked cells. An editable range of a locked sheet is
  kept as one range, the hull of where its rows went: after row 3 of the input cells B2:B4
  is moved below row 9, the range is B2:B9 and the write to the cell that was B6 (now B5),
  blocked before, passes.
\<close>

lemma moved_exception_unlocks_cells:
  "let rule = sample_rule ''f'' ''sheet'' SheetProtectionRange False\<lparr>prExceptions := [''B2:B4'']\<rparr>;
       move = row_request ''move'' 3 1 10 in
   reports (CheckProtectedRanges [rule] ''bob'' ''ann'' [write_at 6 2]) = ([(''f'', 6, 2)], []) \<and>
   structuralPosition 6 move = (5, True) \<and>
   (case transformProtectedForStructure rule ''s'' move ''ann'' 9 of
      Inr (Some rule') \<Rightarrow>
        prExceptions rule' = [''B2:B9''] \<and>
        CheckProtectedRanges [rule'] ''bob'' ''ann'' [write_at 5 2] = ([], [])
    | _ \<Rightarrow> False)"
  by code_simp


end
