(* ===== verification/CellStore.thy ===== *)
theory CellStore
  imports Protected "HOL-Library.Product_Lexorder"
begin

text \<open>
  Writing cells: \<^verbatim>\<open>ApplyCells\<close>, \<^verbatim>\<open>UndoOperation\<close>, the conflicts of cells and their
  resolution, of \<^verbatim>\<open>internal/workbook/memory_repository.go\<close> and \<^verbatim>\<open>conflicts.go\<close>,
  with the merges of \<^verbatim>\<open>merge.go\<close> that a write dissolves.

  A JSON value is its raw text, and a missing one the empty text. What reads or writes JSON
  styles, and what computes formulas, validations and table growth, is an argument of the
  operations, the record \<open>engine\<close>; everything proved holds whatever these functions do. The
  objects they read (names, tables, validations, imports) are the component \<open>crOthers\<close>. New
  ids and the clock are arguments. Go maps are association lists, with
  \<^const>\<open>AList.update\<close> for assignment.
\<close>

section \<open>Data\<close>

definition MaxPasteCells :: nat where "MaxPasteCells = 10000"
definition MaxSortCells :: nat where "MaxSortCells = 60000"
definition ConflictStatusOpen :: string where "ConflictStatusOpen = ''open''"
definition ConflictStatusResolved :: string where "ConflictStatusResolved = ''resolved''"
definition ConflictKeepCurrent :: string where "ConflictKeepCurrent = ''keep_current''"
definition ConflictRestorePrevious :: string where "ConflictRestorePrevious = ''restore_previous''"

record Cell =
  ceSheetID :: string
  ceRow :: int
  ceColumn :: int
  ceValue :: string
  ceFormula :: string
  ceStyle :: string
  ceSpillSource :: string
  ceNote :: string
  ceUpdatedAt :: int

text \<open>The zero value, which a map lookup gives for a missing key.\<close>

definition zeroCell :: Cell where
  "zeroCell = \<lparr>ceSheetID = [], ceRow = 0, ceColumn = 0, ceValue = [], ceFormula = [], ceStyle = [],
     ceSpillSource = [], ceNote = [], ceUpdatedAt = 0\<rparr>"

record CellConflictSnapshot =
  spValue :: string
  spFormula :: string
  spStyle :: string
  spSpillSource :: string

record CellConflict =
  cfID :: string
  cfWorkbookID :: string
  cfSheetID :: string
  cfOperationID :: string
  cfRow :: int
  cfColumn :: int
  cfBaseVersion :: int
  cfChangedAtVersion :: int
  cfServerVersion :: int
  cfActorID :: string
  cfClientID :: string
  cfConflictingActorID :: string
  cfBaseCell :: CellConflictSnapshot
  cfConflictingCell :: CellConflictSnapshot
  cfSubmittedCell :: CellConflictSnapshot
  cfAppliedCell :: CellConflictSnapshot
  cfCurrentCell :: CellConflictSnapshot
  cfPreviousValue :: string
  cfSubmittedValue :: string
  cfStatus :: string
  cfResolution :: string
  cfRevision :: int
  cfResolvedBy :: string
  cfResolutionOperationID :: string
  cfResolutionServerVersion :: int
  cfResolvedAt :: "int option"
  cfCreatedAt :: int
  cfUpdatedAt :: int

record CellFormulaError =
  feSheetID :: string
  feRow :: int
  feColumn :: int
  feCode :: string
  feMessage :: string

record ValidationViolation =
  vvValidationID :: string
  vvRow :: int
  vvColumn :: int
  vvMessage :: string

record MutationResult =
  mrOperationID :: string
  mrWorkbookID :: string
  mrSheetID :: string
  mrBaseVersion :: int
  mrServerVersion :: int
  mrAppliedCells :: int
  mrRecalculatedCells :: "CellCoordinate list"
  mrFormulaErrors :: "CellFormulaError list"
  mrValidationWarnings :: "ValidationViolation list"
  mrDuplicate :: bool
  mrConflicts :: "CellConflict list"
  mrBackupVersionID :: string
  mrUnmergedRanges :: "string list"
  mrStructuralAxis :: string
  mrStructuralAction :: string
  mrStructuralIndex :: int
  mrStructuralCount :: int
  mrStructuralDestination :: int
  mrRebasedCells :: int
  mrDroppedCells :: "CellCoordinate list"
  mrCreatedAt :: int

definition zeroResult :: MutationResult where
  "zeroResult = \<lparr>mrOperationID = [], mrWorkbookID = [], mrSheetID = [], mrBaseVersion = 0, mrServerVersion = 0,
     mrAppliedCells = 0, mrRecalculatedCells = [], mrFormulaErrors = [], mrValidationWarnings = [],
     mrDuplicate = False, mrConflicts = [], mrBackupVersionID = [], mrUnmergedRanges = [],
     mrStructuralAxis = [], mrStructuralAction = [], mrStructuralIndex = 0, mrStructuralCount = 0,
     mrStructuralDestination = 0, mrRebasedCells = 0, mrDroppedCells = [], mrCreatedAt = 0\<rparr>"

type_synonym cellKey = "int \<times> int"
type_synonym scopedCellKey = "string \<times> cellKey"

record operation =
  opResult :: MutationResult
  opBefore :: "(scopedCellKey \<times> Cell) list"
  opAfter :: "(scopedCellKey \<times> Cell) list"
  opSubmitted :: "CellCoordinate list"
  opActorID :: string
  opClientID :: string
  opOperationType :: string
  opUndoOf :: string
  opStructural :: bool

record workbook_state =
  wsID :: string
  wsOwnerID :: string
  wsVersion :: int
  wsUpdatedAt :: int
  wsCells :: "string \<Rightarrow> (cellKey \<times> Cell) list"
  wsOperations :: "operation list"
  wsIdempotent :: "(string \<times> MutationResult) list"

record 'o cell_store =
  crSheetToWB :: "string \<Rightarrow> string option"
  crWorkbooks :: "(string \<times> workbook_state) list"
  crProtections :: "(string \<times> ProtectedRange) list"
  crConflicts :: "(string \<times> CellConflict) list"
  crOthers :: 'o

record BorderCommand =
  bcPreset :: string
  bcStyle :: string
  bcColor :: string
  bcStartRow :: int
  bcStartColumn :: int
  bcEndRow :: int
  bcEndColumn :: int

record CellMutation =
  cmSheetID :: string
  cmActorID :: string
  cmClientID :: string
  cmBaseVersion :: int
  cmIdempotencyKey :: string
  cmCells :: "CellInput list"
  cmStylePatch :: string
  cmNotePatch :: "string option"
  cmBorder :: "BorderCommand option"
  cmExpected :: "(cellKey \<times> Cell) list option"
  cmOperationType :: string
  cmUndoOfOperationID :: string
  cmRequireExactVersion :: bool

record MergeMetadata =
  mgStartRow :: int
  mgStartColumn :: int
  mgEndRow :: int
  mgEndColumn :: int

type_synonym sheet_cells = "(cellKey \<times> Cell) list"

text \<open>
  The functions of the source that this theory takes as arguments: the validation of styles
  and borders, the style a patch and a border make, equality of styles, the merge a cell's
  style carries and the style without it, the tables a write grows, recalculation, and the
  validation of values. Recalculation gives the cells to write, in this sheet and others, the
  coordinates recalculated and the formula errors.
\<close>

record 'o engine =
  enValidateStylePatch :: "string \<Rightarrow> unit result"
  enValidateBorderCommand :: "BorderCommand \<Rightarrow> unit result"
  enValidateCellStyle :: "CellInput \<Rightarrow> unit result"
  enFormatStyle :: "string \<Rightarrow> string \<Rightarrow> BorderCommand option \<Rightarrow> int \<Rightarrow> int \<Rightarrow> string result"
  enStylesEqual :: "string \<Rightarrow> string \<Rightarrow> bool"
  enCellMerge :: "string \<Rightarrow> int \<Rightarrow> int \<Rightarrow> MergeMetadata option result"
  enDropMerge :: "string \<Rightarrow> string result"
  enGrowTables :: "'o \<Rightarrow> string \<Rightarrow> CellInput list \<Rightarrow> sheet_cells \<Rightarrow> string \<Rightarrow> int \<Rightarrow> 'o"
  enRecalculate :: "'o \<Rightarrow> (string \<Rightarrow> sheet_cells) \<Rightarrow> string \<Rightarrow> CellInput list \<Rightarrow>
     (CellInput list \<times> CellCoordinate list \<times> CellFormulaError list) result"
  enValidateCells :: "'o \<Rightarrow> string \<Rightarrow> sheet_cells \<Rightarrow> CellInput list \<Rightarrow> CellInput list \<Rightarrow>
     ValidationViolation list result"

section \<open>Cells, snapshots and the history\<close>

definition isEmptyCell :: "Cell \<Rightarrow> bool" where
  "isEmptyCell cell =
     (trim_space (ceValue cell) = [] \<and> ceFormula cell = [] \<and> trim_space (ceStyle cell) = [] \<and>
      ceSpillSource cell = [] \<and> ceNote cell = [])"

definition cellsEqual :: "Cell \<Rightarrow> Cell \<Rightarrow> bool" where
  "cellsEqual left right =
     (trim_space (ceValue left) = trim_space (ceValue right) \<and> ceFormula left = ceFormula right \<and>
      trim_space (ceStyle left) = trim_space (ceStyle right) \<and> ceSpillSource left = ceSpillSource right \<and>
      ceNote left = ceNote right)"

definition submittedCoordinates :: "CellInput list \<Rightarrow> CellCoordinate list" where
  "submittedCoordinates inputs = map (\<lambda>i. \<lparr>ccSheetID = [], ccRow = ciRow i, ccColumn = ciColumn i\<rparr>) inputs"

definition inputFromCell :: "int \<Rightarrow> int \<Rightarrow> Cell \<Rightarrow> CellInput" where
  "inputFromCell row column cell =
     \<lparr>ciSheetID = ceSheetID cell, ciRow = row, ciColumn = column, ciValue = ceValue cell, ciFormula = ceFormula cell,
      ciStyle = ceStyle cell, ciNote = ceNote cell, ciSpillSource = ceSpillSource cell\<rparr>"

definition inputsForSheet :: "CellInput list \<Rightarrow> string \<Rightarrow> CellInput list" where
  "inputsForSheet inputs sheetID = filter (\<lambda>input. ciSheetID input = sheetID \<or> ciSheetID input = []) inputs"

text \<open>A lookup in a Go map of cells.\<close>

definition cell_at :: "('k \<times> Cell) list \<Rightarrow> 'k \<Rightarrow> Cell" where
  "cell_at cells key = (case map_of cells key of None \<Rightarrow> zeroCell | Some cell \<Rightarrow> cell)"

definition conflictSnapshotFromCell :: "Cell \<Rightarrow> CellConflictSnapshot" where
  "conflictSnapshotFromCell cell =
     \<lparr>spValue = ceValue cell, spFormula = ceFormula cell, spStyle = ceStyle cell, spSpillSource = ceSpillSource cell\<rparr>"

definition conflictSnapshotFromInput :: "CellInput \<Rightarrow> CellConflictSnapshot" where
  "conflictSnapshotFromInput input =
     \<lparr>spValue = ciValue input, spFormula = ciFormula input, spStyle = ciStyle input, spSpillSource = ciSpillSource input\<rparr>"

definition cellFromConflictSnapshot :: "string \<Rightarrow> int \<Rightarrow> int \<Rightarrow> CellConflictSnapshot \<Rightarrow> Cell" where
  "cellFromConflictSnapshot sheetID row column snap =
     zeroCell\<lparr>ceSheetID := sheetID, ceRow := row, ceColumn := column, ceValue := spValue snap,
       ceFormula := spFormula snap, ceStyle := spStyle snap, ceSpillSource := spSpillSource snap\<rparr>"

definition inputFromConflictSnapshot :: "int \<Rightarrow> int \<Rightarrow> CellConflictSnapshot \<Rightarrow> CellInput" where
  "inputFromConflictSnapshot row column snap =
     \<lparr>ciSheetID = [], ciRow = row, ciColumn = column, ciValue = spValue snap, ciFormula = spFormula snap,
      ciStyle = spStyle snap, ciNote = [], ciSpillSource = spSpillSource snap\<rparr>"

definition zeroSnapshot :: CellConflictSnapshot where
  "zeroSnapshot = \<lparr>spValue = [], spFormula = [], spStyle = [], spSpillSource = []\<rparr>"

definition emptyConflictSnapshot :: "CellConflictSnapshot \<Rightarrow> bool" where
  "emptyConflictSnapshot snap = (spValue snap = [] \<and> spFormula snap = [] \<and> spStyle snap = [] \<and> spSpillSource snap = [])"

definition zeroConflict :: CellConflict where
  "zeroConflict =
     \<lparr>cfID = [], cfWorkbookID = [], cfSheetID = [], cfOperationID = [], cfRow = 0, cfColumn = 0, cfBaseVersion = 0,
      cfChangedAtVersion = 0, cfServerVersion = 0, cfActorID = [], cfClientID = [], cfConflictingActorID = [],
      cfBaseCell = zeroSnapshot, cfConflictingCell = zeroSnapshot, cfSubmittedCell = zeroSnapshot,
      cfAppliedCell = zeroSnapshot, cfCurrentCell = zeroSnapshot, cfPreviousValue = [], cfSubmittedValue = [],
      cfStatus = [], cfResolution = [], cfRevision = 0, cfResolvedBy = [], cfResolutionOperationID = [],
      cfResolutionServerVersion = 0, cfResolvedAt = None, cfCreatedAt = 0, cfUpdatedAt = 0\<rparr>"

text \<open>The operations that are news to a client: later than its version, and not its own.\<close>

definition foreign_op :: "int \<Rightarrow> string \<Rightarrow> string \<Rightarrow> operation \<Rightarrow> bool" where
  "foreign_op afterVersion actorID clientID item =
     (\<not> (mrServerVersion (opResult item) \<le> afterVersion) \<and>
      \<not> (clientID \<noteq> [] \<and> opActorID item = actorID \<and> opClientID item = clientID))"

fun latestLoop ::
  "string \<Rightarrow> cellKey \<Rightarrow> int \<Rightarrow> string \<Rightarrow> string \<Rightarrow> operation list \<Rightarrow> int \<Rightarrow> int" where
  "latestLoop sheetID key afterVersion actorID clientID [] version = version"
| "latestLoop sheetID key afterVersion actorID clientID (item # items) version =
     latestLoop sheetID key afterVersion actorID clientID items
       (if \<not> foreign_op afterVersion actorID clientID item then version
        else if opStructural item then mrServerVersion (opResult item)
        else if map_of (opAfter item) (sheetID, key) \<noteq> None then mrServerVersion (opResult item)
        else version)"

definition latestChange ::
  "operation list \<Rightarrow> string \<Rightarrow> cellKey \<Rightarrow> int \<Rightarrow> string \<Rightarrow> string \<Rightarrow> int" where
  "latestChange operations sheetID key afterVersion actorID clientID =
     latestLoop sheetID key afterVersion actorID clientID operations 0"

fun detailsLoop ::
  "scopedCellKey \<Rightarrow> int \<Rightarrow> string \<Rightarrow> string \<Rightarrow> operation list \<Rightarrow>
   CellConflictSnapshot \<times> CellConflictSnapshot \<times> string \<times> bool \<Rightarrow> CellConflictSnapshot \<times> CellConflictSnapshot \<times> string" where
  "detailsLoop coord afterVersion actorID clientID [] (base, conflicting, conflictingActor, found) =
     (base, conflicting, conflictingActor)"
| "detailsLoop coord afterVersion actorID clientID (item # items) (base, conflicting, conflictingActor, found) =
     detailsLoop coord afterVersion actorID clientID items
       (if \<not> foreign_op afterVersion actorID clientID item then (base, conflicting, conflictingActor, found)
        else if opStructural item then (base, conflicting, opActorID item, found)
        else case map_of (opAfter item) coord of
            None \<Rightarrow> (base, conflicting, conflictingActor, found)
          | Some changed \<Rightarrow>
              (if found then base else conflictSnapshotFromCell (cell_at (opBefore item) coord),
               conflictSnapshotFromCell changed, opActorID item, True))"

definition memoryConflictDetails ::
  "operation list \<Rightarrow> string \<Rightarrow> cellKey \<Rightarrow> int \<Rightarrow> string \<Rightarrow> string \<Rightarrow>
   CellConflictSnapshot \<times> CellConflictSnapshot \<times> string" where
  "memoryConflictDetails operations sheetID key afterVersion actorID clientID =
     detailsLoop (sheetID, key) afterVersion actorID clientID operations (zeroSnapshot, zeroSnapshot, [], False)"

definition structuralChangeFromResult :: "MutationResult \<Rightarrow> StructuralChange option" where
  "structuralChangeFromResult r =
     (if mrStructuralAxis r = [] \<or> mrStructuralAction r = [] \<or> mrStructuralCount r < 1 \<or>
         mrStructuralIndex r < 1
      then None
      else Some \<lparr>scAxis = mrStructuralAxis r, scAction = mrStructuralAction r,
                 scIndex = mrStructuralIndex r, scCount = mrStructuralCount r,
                 scDestination = mrStructuralDestination r, scCurrentSheet = [], scTargetSheet = []\<rparr>)"

definition memoryStructuralChangesSince :: "operation list \<Rightarrow> string \<Rightarrow> int \<Rightarrow> StructuralChange list" where
  "memoryStructuralChangesSince operations sheetID baseVersion =
     (if baseVersion < 1 then []
      else List.map_filter (\<lambda>item. structuralChangeFromResult (opResult item))
        (filter (\<lambda>item. opStructural item \<and> mrSheetID (opResult item) = sheetID \<and>
           mrServerVersion (opResult item) > baseVersion) operations))"

section \<open>Merges\<close>

definition merge_address :: "MergeMetadata \<Rightarrow> string" where
  "merge_address m =
     Address (mgStartRow m) (mgStartColumn m) @ '':'' @ Address (mgEndRow m) (mgEndColumn m)"

fun mergeLoop ::
  "'o engine \<Rightarrow> sheet_cells \<Rightarrow> MergeMetadata list \<Rightarrow> CellInput list \<Rightarrow> MergeMetadata list" where
  "mergeLoop en cells seen [] = []"
| "mergeLoop en cells seen (input # rest) =
     (case map_of cells (ciRow input, ciColumn input) of
        None \<Rightarrow> mergeLoop en cells seen rest
      | Some cell \<Rightarrow>
          (case enCellMerge en (ceStyle cell) (ceRow cell) (ceColumn cell) of
             Inr (Some stored) \<Rightarrow>
               if enCellMerge en (ciStyle input) (ciRow input) (ciColumn input) = Inr (Some stored)
                  \<or> stored \<in> set seen
               then mergeLoop en cells seen rest
               else stored # mergeLoop en cells (stored # seen) rest
           | _ \<Rightarrow> mergeLoop en cells seen rest))"

definition brokenMerges :: "'o engine \<Rightarrow> sheet_cells \<Rightarrow> CellInput list \<Rightarrow> MergeMetadata list" where
  "brokenMerges en cells effective = mergeLoop en cells [] effective"

text \<open>The cells of a merge, row by row.\<close>

definition merge_cells :: "MergeMetadata \<Rightarrow> cellKey list" where
  "merge_cells m =
     concat (map (\<lambda>row. map (\<lambda>column. (row, column)) [mgStartColumn m .. mgEndColumn m]) [mgStartRow m .. mgEndRow m])"

text \<open>The index of the last input for a coordinate, as the loop that fills the map leaves it.\<close>

definition last_index :: "CellInput list \<Rightarrow> cellKey \<Rightarrow> nat option" where
  "last_index effective key =
     map_of (rev (zip (map (\<lambda>input. (ciRow input, ciColumn input)) effective) [0..<length effective])) key"

fun dissolveLoop ::
  "'o engine \<Rightarrow> string \<Rightarrow> sheet_cells \<Rightarrow> (cellKey \<Rightarrow> nat option) \<Rightarrow> (MergeMetadata \<times> cellKey) list \<Rightarrow>
   CellInput list \<Rightarrow> (CellInput list \<times> CellInput list) result" where
  "dissolveLoop en sheetID cells written [] effective = Inr (effective, [])"
| "dissolveLoop en sheetID cells written ((merged, key) # rest) effective =
     (case written key of
        Some index \<Rightarrow>
          bind_result (enDropMerge en (ciStyle (effective ! index))) (\<lambda>style.
            dissolveLoop en sheetID cells written rest (effective[index := (effective ! index)\<lparr>ciStyle := style\<rparr>]))
      | None \<Rightarrow>
          (case map_of cells key of
             None \<Rightarrow> dissolveLoop en sheetID cells written rest effective
           | Some cell \<Rightarrow>
               if enCellMerge en (ceStyle cell) (ceRow cell) (ceColumn cell) \<noteq> Inr (Some merged)
               then dissolveLoop en sheetID cells written rest effective
               else bind_result (enDropMerge en (ceStyle cell)) (\<lambda>style.
                 bind_result (dissolveLoop en sheetID cells written rest effective) (\<lambda>(adjusted, extra).
                   Inr (adjusted,
                     \<lparr>ciSheetID = sheetID, ciRow = fst key, ciColumn = snd key, ciValue = ceValue cell,
                      ciFormula = ceFormula cell, ciStyle = style, ciNote = ceNote cell,
                      ciSpillSource = ceSpillSource cell\<rparr> # extra)))))"

definition dissolveMerges ::
  "'o engine \<Rightarrow> string \<Rightarrow> sheet_cells \<Rightarrow> CellInput list \<Rightarrow> MergeMetadata list \<Rightarrow>
   (CellInput list \<times> CellInput list) result" where
  "dissolveMerges en sheetID cells effective ranges =
     (if ranges = [] then Inr (effective, [])
      else dissolveLoop en sheetID cells (last_index effective)
        (concat (map (\<lambda>merged. map (\<lambda>key. (merged, key)) (merge_cells merged)) ranges)) effective)"

section \<open>Applying a write\<close>

definition sheetState :: "'o cell_store \<Rightarrow> string \<Rightarrow> (string \<times> workbook_state) result" where
  "sheetState r sheetID =
     (case crSheetToWB r sheetID of
        None \<Rightarrow> Inl ErrNotFound
      | Some workbookID \<Rightarrow>
          (case map_of (crWorkbooks r) workbookID of None \<Rightarrow> Inl Panic | Some state \<Rightarrow> Inr (workbookID, state)))"

definition formatMutation :: "CellMutation \<Rightarrow> bool" where
  "formatMutation mutation = (cmStylePatch mutation \<noteq> [] \<or> cmBorder mutation \<noteq> None)"

fun validateStyles :: "'o engine \<Rightarrow> CellInput list \<Rightarrow> unit result" where
  "validateStyles en [] = Inr ()"
| "validateStyles en (input # rest) = bind_result (enValidateCellStyle en input) (\<lambda>_. validateStyles en rest)"

text \<open>What is checked before the lock is taken.\<close>

definition checkMutation :: "'o engine \<Rightarrow> CellMutation \<Rightarrow> unit result" where
  "checkMutation en mutation =
     (let limit = (if cmOperationType mutation = ''range.sort'' then MaxSortCells else MaxPasteCells) in
      if trim_space (cmIdempotencyKey mutation) = [] then Inl ErrInvalid
      else if cmCells mutation = [] \<or> length (cmCells mutation) > limit then Inl ErrInvalid
      else bind_result (if cmStylePatch mutation \<noteq> [] then enValidateStylePatch en (cmStylePatch mutation) else Inr ()) (\<lambda>_.
        bind_result (case cmBorder mutation of None \<Rightarrow> Inr () | Some border \<Rightarrow> enValidateBorderCommand en border) (\<lambda>_.
          if formatMutation mutation then Inr () else validateStyles en (cmCells mutation))))"

definition applyCellNote :: "Cell \<Rightarrow> CellInput \<Rightarrow> string \<Rightarrow> CellInput" where
  "applyCellNote current input note =
     input\<lparr>ciValue := ceValue current, ciFormula := ceFormula current, ciStyle := ceStyle current,
       ciSpillSource := ceSpillSource current, ciNote := note\<rparr>"

definition applyCellFormatting ::
  "'o engine \<Rightarrow> Cell \<Rightarrow> CellInput \<Rightarrow> string \<Rightarrow> BorderCommand option \<Rightarrow> CellInput result" where
  "applyCellFormatting en current input patch border =
     bind_result (enFormatStyle en (ceStyle current) patch border (ciRow input) (ciColumn input)) (\<lambda>style.
       Inr (input\<lparr>ciValue := ceValue current, ciFormula := ceFormula current, ciStyle := style,
              ciSpillSource := ceSpillSource current, ciNote := ceNote current\<rparr>))"

text \<open>The conflict of one cell, if there is one, and whether the cell is skipped for it.\<close>

definition findConflict ::
  "CellMutation \<Rightarrow> workbook_state \<Rightarrow> CellInput \<Rightarrow> Cell \<Rightarrow> (CellConflict option \<times> bool) result" where
  "findConflict mutation state input current =
     (let key = (ciRow input, ciColumn input);
          changedVersion = latestChange (wsOperations state) (cmSheetID mutation) key (cmBaseVersion mutation)
            (cmActorID mutation) (cmClientID mutation);
          conflict = zeroConflict\<lparr>cfRow := ciRow input, cfColumn := ciColumn input,
            cfSubmittedCell := conflictSnapshotFromInput input, cfPreviousValue := ceValue current,
            cfSubmittedValue := ciValue input\<rparr> in
      case cmExpected mutation of
        Some known \<Rightarrow>
          (case map_of known key of
             None \<Rightarrow> Inl ErrInvalid
           | Some expected \<Rightarrow>
               if \<not> cellsEqual current expected
               then Inr (Some (conflict\<lparr>
                 cfChangedAtVersion := (if changedVersion = 0 then wsVersion state else changedVersion),
                 cfBaseCell := conflictSnapshotFromCell expected,
                 cfConflictingCell := conflictSnapshotFromCell current\<rparr>), True)
               else Inr (None, False))
      | None \<Rightarrow>
          if cmBaseVersion mutation \<ge> 1 \<and> cmBaseVersion mutation < wsVersion state \<and> changedVersion > 0
          then (case memoryConflictDetails (wsOperations state) (cmSheetID mutation) key (cmBaseVersion mutation)
                  (cmActorID mutation) (cmClientID mutation) of (baseCell, conflictingCell, conflictingActor) \<Rightarrow>
                Inr (Some (conflict\<lparr>cfChangedAtVersion := changedVersion, cfConflictingActorID := conflictingActor,
                  cfBaseCell := baseCell,
                  cfConflictingCell := (if emptyConflictSnapshot conflictingCell then conflictSnapshotFromCell current
                    else conflictingCell)\<rparr>), False))
          else Inr (None, False))"

text \<open>What one cell is to be written, or nothing when formatting or annotating changes nothing.\<close>

definition prepareInput :: "'o engine \<Rightarrow> CellMutation \<Rightarrow> Cell \<Rightarrow> CellInput \<Rightarrow> CellInput option result" where
  "prepareInput en mutation current input =
     bind_result (if formatMutation mutation
                  then applyCellFormatting en current input (cmStylePatch mutation) (cmBorder mutation)
                  else Inr input) (\<lambda>formatted.
       if formatMutation mutation \<and> enStylesEqual en (ceStyle current) (ciStyle formatted) then Inr None
       else case cmNotePatch mutation of
           None \<Rightarrow> Inr (Some (formatted\<lparr>ciSheetID := cmSheetID mutation\<rparr>))
         | Some note \<Rightarrow>
             if ceNote current = note then Inr None
             else Inr (Some ((applyCellNote current formatted note)\<lparr>ciSheetID := cmSheetID mutation\<rparr>)))"

fun cellLoop ::
  "'o engine \<Rightarrow> CellMutation \<Rightarrow> workbook_state \<Rightarrow> CellInput list \<Rightarrow> (CellConflict list \<times> CellInput list) result" where
  "cellLoop en mutation state [] = Inr ([], [])"
| "cellLoop en mutation state (input # rest) =
     (if ciRow input < 1 \<or> ciColumn input < 1 then Inl ErrInvalid
      else
        let current = cell_at (wsCells state (cmSheetID mutation)) (ciRow input, ciColumn input) in
        bind_result (findConflict mutation state input current) (\<lambda>(conflict, skip).
          bind_result (if skip then Inr None else prepareInput en mutation current input) (\<lambda>prepared.
            bind_result (cellLoop en mutation state rest) (\<lambda>(conflicts, effective).
              Inr (case conflict of None \<Rightarrow> conflicts | Some c \<Rightarrow> c # conflicts,
                   case prepared of None \<Rightarrow> effective | Some e \<Rightarrow> e # effective)))))"

text \<open>Merges a write breaks are dissolved in it; their addresses are reported.\<close>

definition dissolveStep ::
  "'o engine \<Rightarrow> CellMutation \<Rightarrow> workbook_state \<Rightarrow> CellInput list \<Rightarrow> (CellInput list \<times> string list) result" where
  "dissolveStep en mutation state effective =
     (if \<not> formatMutation mutation \<and> cmOperationType mutation \<noteq> ''range.merge'' \<and>
         cmOperationType mutation \<noteq> ''range.unmerge''
      then
        let cells = wsCells state (cmSheetID mutation);
            dissolved = brokenMerges en cells effective in
        bind_result (dissolveMerges en (cmSheetID mutation) cells effective dissolved) (\<lambda>(adjusted, extra).
          Inr (adjusted @ extra, map merge_address dissolved))
      else Inr (effective, []))"

record 'o write_plan =
  plEffective :: "CellInput list"
  plExpanded :: "CellInput list"
  plRecalculated :: "CellCoordinate list"
  plFormulaErrors :: "CellFormulaError list"
  plWarnings :: "ValidationViolation list"
  plUnmerged :: "string list"
  plOthers :: 'o

text \<open>Everything that can still refuse the write, before anything is written.\<close>

definition planWrite ::
  "'o engine \<Rightarrow> int \<Rightarrow> CellMutation \<Rightarrow> workbook_state \<Rightarrow> CellInput list \<Rightarrow> 'o cell_store \<Rightarrow> 'o write_plan result" where
  "planWrite en now mutation state submitted r =
     bind_result (dissolveStep en mutation state submitted) (\<lambda>(effective, unmerged).
       if fst (CheckProtectedRanges (sheetProtections (crProtections r) (cmSheetID mutation)) (cmActorID mutation)
            (wsOwnerID state) effective) \<noteq> []
       then Inl ProtectionFailure
       else if formatMutation mutation
       then Inr \<lparr>plEffective = effective, plExpanded = effective, plRecalculated = [], plFormulaErrors = [],
              plWarnings = [], plUnmerged = unmerged, plOthers = crOthers r\<rparr>
       else
         let cells = wsCells state (cmSheetID mutation);
             others = enGrowTables en (crOthers r) (cmSheetID mutation) effective cells (cmActorID mutation) now in
         bind_result (enRecalculate en others (wsCells state) (cmSheetID mutation) effective)
           (\<lambda>(expanded, recalculated, formulaErrors).
             bind_result (enValidateCells en (crOthers r) (cmSheetID mutation) cells
                 (inputsForSheet expanded (cmSheetID mutation)) effective) (\<lambda>warnings.
               Inr \<lparr>plEffective = effective, plExpanded = expanded, plRecalculated = recalculated,
                 plFormulaErrors = formulaErrors, plWarnings = warnings, plUnmerged = unmerged, plOthers = others\<rparr>)))"

record written =
  wrCells :: "string \<Rightarrow> sheet_cells"
  wrBefore :: "(scopedCellKey \<times> Cell) list"
  wrAfter :: "(scopedCellKey \<times> Cell) list"

definition cellFromInput :: "string \<Rightarrow> int \<Rightarrow> CellInput \<Rightarrow> Cell" where
  "cellFromInput sheetID now input =
     \<lparr>ceSheetID = sheetID, ceRow = ciRow input, ceColumn = ciColumn input, ceValue = ciValue input,
      ceFormula = ciFormula input, ceStyle = ciStyle input, ceSpillSource = ciSpillSource input,
      ceNote = ciNote input, ceUpdatedAt = now\<rparr>"

definition target_sheet :: "string \<Rightarrow> CellInput \<Rightarrow> string" where
  "target_sheet sheetID input = (if ciSheetID input = [] then sheetID else ciSheetID input)"

definition writeCell :: "string \<Rightarrow> int \<Rightarrow> CellInput \<Rightarrow> written \<Rightarrow> written" where
  "writeCell sheetID now input w =
     (let target = target_sheet sheetID input;
          key = (ciRow input, ciColumn input);
          cell = cellFromInput target now input;
          cells = wrCells w target in
      \<lparr>wrCells = (wrCells w)(target := if isEmptyCell cell then AList.delete key cells else AList.update key cell cells),
       wrBefore = AList.update (target, key) (cell_at cells key) (wrBefore w),
       wrAfter = AList.update (target, key) cell (wrAfter w)\<rparr>)"

definition writeCells :: "string \<Rightarrow> int \<Rightarrow> CellInput list \<Rightarrow> (string \<Rightarrow> sheet_cells) \<Rightarrow> written" where
  "writeCells sheetID now inputs cells =
     fold (writeCell sheetID now) inputs \<lparr>wrCells = cells, wrBefore = [], wrAfter = []\<rparr>"

definition finalizeCellConflict ::
  "string \<Rightarrow> int \<Rightarrow> CellMutation \<Rightarrow> MutationResult \<Rightarrow> (scopedCellKey \<times> Cell) list \<Rightarrow> CellConflict \<Rightarrow> CellConflict" where
  "finalizeCellConflict newID now mutation result after conflict =
     (let key = (cfRow conflict, cfColumn conflict);
          input = (case map_of (rev (map (\<lambda>i. ((ciRow i, ciColumn i), i)) (cmCells mutation))) key of
            None \<Rightarrow> \<lparr>ciSheetID = [], ciRow = 0, ciColumn = 0, ciValue = [], ciFormula = [], ciStyle = [], ciNote = [],
                     ciSpillSource = []\<rparr>
          | Some input \<Rightarrow> input);
          submitted = (if emptyConflictSnapshot (cfSubmittedCell conflict) then conflictSnapshotFromInput input
            else cfSubmittedCell conflict);
          current = (case map_of after (cmSheetID mutation, key) of
            None \<Rightarrow> submitted | Some cell \<Rightarrow> conflictSnapshotFromCell cell) in
      conflict\<lparr>cfID := newID, cfWorkbookID := mrWorkbookID result, cfSheetID := cmSheetID mutation,
        cfOperationID := mrOperationID result, cfBaseVersion := cmBaseVersion mutation,
        cfServerVersion := mrServerVersion result, cfActorID := cmActorID mutation, cfClientID := cmClientID mutation,
        cfSubmittedCell := submitted, cfCurrentCell := current, cfAppliedCell := current,
        cfPreviousValue := (if cfPreviousValue conflict = [] then spValue (cfConflictingCell conflict)
          else cfPreviousValue conflict),
        cfSubmittedValue := (if cfSubmittedValue conflict = [] then spValue submitted else cfSubmittedValue conflict),
        cfStatus := ConflictStatusOpen, cfRevision := 1, cfCreatedAt := now, cfUpdatedAt := now\<rparr>)"

definition finalizeCellConflicts ::
  "(nat \<Rightarrow> string) \<Rightarrow> int \<Rightarrow> CellMutation \<Rightarrow> MutationResult \<Rightarrow> (scopedCellKey \<times> Cell) list \<Rightarrow>
   CellConflict list \<Rightarrow> CellConflict list" where
  "finalizeCellConflicts newIDs now mutation result after conflicts =
     map (\<lambda>(i, conflict). finalizeCellConflict (newIDs i) now mutation result after conflict)
       (zip [0..<length conflicts] conflicts)"

text \<open>The new ids of an operation: its own, and one for each conflict it records.\<close>

record fresh_ids =
  fiOperation :: string
  fiConflict :: "nat \<Rightarrow> string"

definition writeResult ::
  "fresh_ids \<Rightarrow> int \<Rightarrow> CellMutation \<Rightarrow> workbook_state \<Rightarrow> CellCoordinate list \<Rightarrow> int \<Rightarrow> 'o write_plan \<Rightarrow> MutationResult" where
  "writeResult ids now mutation state dropped moved plan =
     zeroResult\<lparr>mrOperationID := fiOperation ids, mrWorkbookID := wsID state, mrSheetID := cmSheetID mutation,
       mrBaseVersion := cmBaseVersion mutation, mrServerVersion := wsVersion state + 1,
       mrAppliedCells := int (length (plEffective plan)), mrRecalculatedCells := plRecalculated plan,
       mrFormulaErrors := plFormulaErrors plan, mrValidationWarnings := plWarnings plan, mrRebasedCells := moved,
       mrDroppedCells := dropped, mrUnmergedRanges := plUnmerged plan, mrCreatedAt := now\<rparr>"

definition idempotency_key :: "CellMutation \<Rightarrow> string" where
  "idempotency_key mutation = cmActorID mutation @ '':'' @ cmIdempotencyKey mutation"

text \<open>The result with its conflicts, the operation recorded for it, and the workbook after it.\<close>

definition committedResult ::
  "fresh_ids \<Rightarrow> int \<Rightarrow> CellMutation \<Rightarrow> workbook_state \<Rightarrow> CellCoordinate list \<Rightarrow> int \<Rightarrow> CellConflict list \<Rightarrow>
   'o write_plan \<Rightarrow> MutationResult" where
  "committedResult ids now mutation state dropped moved found plan =
     (let draft = writeResult ids now mutation state dropped moved plan;
          w = writeCells (cmSheetID mutation) now (plExpanded plan) (wsCells state) in
      draft\<lparr>mrConflicts := finalizeCellConflicts (fiConflict ids) now mutation draft (wrAfter w) found\<rparr>)"

definition committedOperation ::
  "int \<Rightarrow> CellMutation \<Rightarrow> workbook_state \<Rightarrow> 'o write_plan \<Rightarrow> MutationResult \<Rightarrow> operation" where
  "committedOperation now mutation state plan result =
     (let w = writeCells (cmSheetID mutation) now (plExpanded plan) (wsCells state) in
      \<lparr>opResult = result, opBefore = wrBefore w, opAfter = wrAfter w,
       opSubmitted = submittedCoordinates (plEffective plan), opActorID = cmActorID mutation,
       opClientID = cmClientID mutation,
       opOperationType = (if cmOperationType mutation = [] then ''cells.batch'' else cmOperationType mutation),
       opUndoOf = cmUndoOfOperationID mutation, opStructural = False\<rparr>)"

definition committedState ::
  "int \<Rightarrow> CellMutation \<Rightarrow> workbook_state \<Rightarrow> 'o write_plan \<Rightarrow> MutationResult \<Rightarrow> workbook_state" where
  "committedState now mutation state plan result =
     state\<lparr>wsVersion := wsVersion state + 1, wsUpdatedAt := now,
       wsCells := wrCells (writeCells (cmSheetID mutation) now (plExpanded plan) (wsCells state)),
       wsOperations := wsOperations state @ [committedOperation now mutation state plan result],
       wsIdempotent := AList.update (idempotency_key mutation) result (wsIdempotent state)\<rparr>"

definition commitWrite ::
  "fresh_ids \<Rightarrow> int \<Rightarrow> string \<Rightarrow> CellMutation \<Rightarrow> workbook_state \<Rightarrow> CellCoordinate list \<Rightarrow> int \<Rightarrow> CellConflict list \<Rightarrow>
   'o write_plan \<Rightarrow> 'o cell_store \<Rightarrow> MutationResult \<times> 'o cell_store" where
  "commitWrite ids now workbookID mutation state dropped moved found plan r =
     (let result = committedResult ids now mutation state dropped moved found plan in
      (result, r\<lparr>crWorkbooks := AList.update workbookID (committedState now mutation state plan result) (crWorkbooks r),
         crConflicts := fold (\<lambda>conflict. AList.update (cfID conflict) conflict) (mrConflicts result) (crConflicts r),
         crOthers := plOthers plan\<rparr>))"

definition applyLocked ::
  "'o engine \<Rightarrow> fresh_ids \<Rightarrow> int \<Rightarrow> string \<Rightarrow> workbook_state \<Rightarrow> CellMutation \<Rightarrow> 'o cell_store \<Rightarrow>
   MutationResult result \<times> 'o cell_store" where
  "applyLocked en ids now workbookID state submitted r =
     (case rebaseCellInputs (cmCells submitted)
             (memoryStructuralChangesSince (wsOperations state) (cmSheetID submitted) (cmBaseVersion submitted)) of
        (rebased, dropped, moved) \<Rightarrow>
          let mutation = submitted\<lparr>cmCells := rebased\<rparr> in
          if rebased = [] then
            (Inr (zeroResult\<lparr>mrOperationID := fiOperation ids, mrWorkbookID := wsID state,
               mrSheetID := cmSheetID mutation, mrBaseVersion := cmBaseVersion mutation,
               mrServerVersion := wsVersion state, mrDroppedCells := dropped, mrCreatedAt := now\<rparr>), r)
          else case cellLoop en mutation state rebased of
              Inl e \<Rightarrow> (Inl e, r)
            | Inr (conflicts, effective) \<Rightarrow>
                if cmExpected mutation \<noteq> None \<and> conflicts \<noteq> [] \<and>
                   prefix ''conflict.resolve.'' (cmOperationType mutation)
                then (Inl ErrVersionConflict, r)
                else if effective = [] \<and> formatMutation mutation then
                  let result = zeroResult\<lparr>mrWorkbookID := wsID state, mrSheetID := cmSheetID mutation,
                        mrBaseVersion := cmBaseVersion mutation, mrServerVersion := wsVersion state,
                        mrConflicts := conflicts, mrCreatedAt := now\<rparr> in
                  (Inr result, r\<lparr>crWorkbooks := AList.update workbookID
                     (state\<lparr>wsIdempotent := AList.update (idempotency_key mutation) result (wsIdempotent state)\<rparr>)
                     (crWorkbooks r)\<rparr>)
                else case planWrite en now mutation state effective r of
                    Inl e \<Rightarrow> (Inl e, r)
                  | Inr plan \<Rightarrow>
                      (case commitWrite ids now workbookID mutation state dropped moved conflicts plan r of
                         (result, r') \<Rightarrow> (Inr result, r')))"

definition ApplyCells ::
  "'o engine \<Rightarrow> fresh_ids \<Rightarrow> int \<Rightarrow> CellMutation \<Rightarrow> 'o cell_store \<Rightarrow> MutationResult result \<times> 'o cell_store" where
  "ApplyCells en ids now mutation r =
     (case checkMutation en mutation of
        Inl e \<Rightarrow> (Inl e, r)
      | Inr _ \<Rightarrow>
          (case sheetState r (cmSheetID mutation) of
             Inl e \<Rightarrow> (Inl e, r)
           | Inr (workbookID, state) \<Rightarrow>
               (case map_of (wsIdempotent state) (idempotency_key mutation) of
                  Some existing \<Rightarrow> (Inr (existing\<lparr>mrDuplicate := True\<rparr>), r)
                | None \<Rightarrow>
                    if cmBaseVersion mutation > wsVersion state then (Inl ErrVersionAhead, r)
                    else if cmRequireExactVersion mutation \<and> cmBaseVersion mutation \<noteq> wsVersion state
                    then (Inl ErrVersionConflict, r)
                    else applyLocked en ids now workbookID state mutation r)))"

section \<open>Undoing an operation\<close>

record UndoOperationInput =
  uoOperationID :: string
  uoActorID :: string
  uoClientID :: string
  uoIdempotencyKey :: string

definition undo_coordinates :: "operation \<Rightarrow> cellKey list" where
  "undo_coordinates target =
     (if opSubmitted target \<noteq> [] then map (\<lambda>c. (ccRow c, ccColumn c)) (opSubmitted target)
      else sort (map snd (filter (\<lambda>(sheetID, key). sheetID = mrSheetID (opResult target)) (map fst (opAfter target)))))"

definition undoMutation :: "UndoOperationInput \<Rightarrow> operation \<Rightarrow> CellMutation" where
  "undoMutation input target =
     (let sheetID = mrSheetID (opResult target) in
      \<lparr>cmSheetID = sheetID, cmActorID = uoActorID input, cmClientID = uoClientID input,
       cmBaseVersion = mrServerVersion (opResult target), cmIdempotencyKey = uoIdempotencyKey input,
       cmCells = map (\<lambda>key. inputFromCell (fst key) (snd key) (cell_at (opBefore target) (sheetID, key)))
         (undo_coordinates target),
       cmStylePatch = [], cmNotePatch = None, cmBorder = None,
       cmExpected = Some (map (\<lambda>key. (key, cell_at (opAfter target) (sheetID, key))) (undo_coordinates target)),
       cmOperationType = ''operation.undo'', cmUndoOfOperationID = uoOperationID input, cmRequireExactVersion = False\<rparr>)"

definition undo_target :: "UndoOperationInput \<Rightarrow> 'o cell_store \<Rightarrow> operation option" where
  "undo_target input r =
     List.find (\<lambda>item. mrOperationID (opResult item) = uoOperationID input \<and> opActorID item = uoActorID input)
       (concat (map (\<lambda>(_, state). wsOperations state) (crWorkbooks r)))"

definition UndoOperation ::
  "'o engine \<Rightarrow> fresh_ids \<Rightarrow> int \<Rightarrow> UndoOperationInput \<Rightarrow> 'o cell_store \<Rightarrow> MutationResult result \<times> 'o cell_store" where
  "UndoOperation en ids now input r =
     (if trim_space (uoOperationID input) = [] \<or> trim_space (uoIdempotencyKey input) = [] then (Inl ErrInvalid, r)
      else case undo_target input r of
          None \<Rightarrow> (Inl ErrNotFound, r)
        | Some target \<Rightarrow>
            if undo_coordinates target = [] then (Inl ErrInvalid, r)
            else ApplyCells en ids now (undoMutation input target) r)"

section \<open>Conflicts\<close>

definition set_current :: "'o cell_store \<Rightarrow> CellConflict \<Rightarrow> CellConflict" where
  "set_current r conflict =
     (case map_of (crWorkbooks r) (cfWorkbookID conflict) of
        None \<Rightarrow> conflict
      | Some state \<Rightarrow> conflict\<lparr>cfCurrentCell := conflictSnapshotFromCell
          (cell_at (wsCells state (cfSheetID conflict)) (cfRow conflict, cfColumn conflict))\<rparr>)"

definition ListCellConflicts :: "string \<Rightarrow> bool \<Rightarrow> 'o cell_store \<Rightarrow> CellConflict list result" where
  "ListCellConflicts workbookID includeResolved r =
     (case map_of (crWorkbooks r) workbookID of
        None \<Rightarrow> Inl ErrNotFound
      | Some state \<Rightarrow>
          Inr (sort_key (\<lambda>c. (cfStatus c \<noteq> ConflictStatusOpen, - cfCreatedAt c, cfID c))
            (map (set_current r)
              (filter (\<lambda>c. cfWorkbookID c = workbookID \<and> (includeResolved \<or> cfStatus c = ConflictStatusOpen))
                (map snd (crConflicts r))))))"

definition GetCellConflict :: "string \<Rightarrow> 'o cell_store \<Rightarrow> CellConflict result" where
  "GetCellConflict conflictID r =
     (case map_of (crConflicts r) conflictID of None \<Rightarrow> Inl ErrNotFound | Some stored \<Rightarrow> Inr (set_current r stored))"

record ResolveCellConflictInput =
  rvActorID :: string
  rvClientID :: string
  rvIdempotencyKey :: string
  rvExpectedRevision :: int
  rvResolution :: string

definition validateConflictResolution :: "ResolveCellConflictInput \<Rightarrow> unit result" where
  "validateConflictResolution input =
     (if trim_space (rvIdempotencyKey input) = [] then Inl ErrInvalid
      else if rvExpectedRevision input < 1 then Inl ErrInvalid
      else if rvResolution input \<noteq> ConflictKeepCurrent \<and> rvResolution input \<noteq> ConflictRestorePrevious then Inl ErrInvalid
      else Inr ())"

definition resolveMutation :: "ResolveCellConflictInput \<Rightarrow> CellConflict \<Rightarrow> workbook_state \<Rightarrow> CellMutation" where
  "resolveMutation input conflict state =
     (let key = (cfRow conflict, cfColumn conflict);
          current = cell_at (wsCells state (cfSheetID conflict)) key;
          target = (if rvResolution input = ConflictRestorePrevious then cfConflictingCell conflict
            else conflictSnapshotFromCell current) in
      \<lparr>cmSheetID = cfSheetID conflict, cmActorID = rvActorID input, cmClientID = rvClientID input,
       cmBaseVersion = wsVersion state, cmIdempotencyKey = rvIdempotencyKey input,
       cmCells = [inputFromConflictSnapshot (cfRow conflict) (cfColumn conflict) target],
       cmStylePatch = [], cmNotePatch = None, cmBorder = None, cmExpected = Some [(key, current)],
       cmOperationType = ''conflict.resolve.'' @ rvResolution input, cmUndoOfOperationID = [],
       cmRequireExactVersion = False\<rparr>)"

text \<open>The end of a resolution: the conflict is stored as resolved, if it is still open.\<close>

definition closeConflict ::
  "int \<Rightarrow> string \<Rightarrow> ResolveCellConflictInput \<Rightarrow> MutationResult \<Rightarrow> 'o cell_store \<Rightarrow>
   (CellConflict \<times> MutationResult) result \<times> 'o cell_store" where
  "closeConflict now conflictID input result r =
     (case map_of (crConflicts r) conflictID of
        None \<Rightarrow> (Inl ErrRevision, r)
      | Some stored \<Rightarrow>
          if cfStatus stored \<noteq> ConflictStatusOpen \<or> cfRevision stored \<noteq> rvExpectedRevision input
          then (Inl ErrRevision, r)
          else case map_of (crWorkbooks r) (cfWorkbookID stored) of
              None \<Rightarrow> (Inl Panic, r)
            | Some state \<Rightarrow>
                let closed = stored\<lparr>cfStatus := ConflictStatusResolved, cfResolution := rvResolution input,
                      cfRevision := cfRevision stored + 1, cfResolvedBy := rvActorID input,
                      cfResolutionOperationID := mrOperationID result,
                      cfResolutionServerVersion := mrServerVersion result, cfResolvedAt := Some now, cfUpdatedAt := now,
                      cfCurrentCell := conflictSnapshotFromCell
                        (cell_at (wsCells state (cfSheetID stored)) (cfRow stored, cfColumn stored))\<rparr> in
                (Inr (closed, result), r\<lparr>crConflicts := AList.update conflictID closed (crConflicts r)\<rparr>))"

definition ResolveCellConflict ::
  "'o engine \<Rightarrow> fresh_ids \<Rightarrow> int \<Rightarrow> string \<Rightarrow> ResolveCellConflictInput \<Rightarrow> 'o cell_store \<Rightarrow>
   (CellConflict \<times> MutationResult) result \<times> 'o cell_store" where
  "ResolveCellConflict en ids now conflictID input r =
     (case bind_result (validateConflictResolution input) (\<lambda>_. GetCellConflict conflictID r) of
        Inl e \<Rightarrow> (Inl e, r)
      | Inr conflict \<Rightarrow>
          if cfStatus conflict = ConflictStatusResolved then
            (if cfResolution conflict \<noteq> rvResolution input then Inl ErrRevision
             else Inr (conflict, zeroResult\<lparr>mrOperationID := cfResolutionOperationID conflict,
               mrWorkbookID := cfWorkbookID conflict, mrSheetID := cfSheetID conflict,
               mrServerVersion := cfResolutionServerVersion conflict, mrDuplicate := True\<rparr>), r)
          else if cfRevision conflict \<noteq> rvExpectedRevision input then (Inl ErrRevision, r)
          else case map_of (crWorkbooks r) (cfWorkbookID conflict) of
              None \<Rightarrow> (Inl ErrNotFound, r)
            | Some state \<Rightarrow>
                if rvResolution input = ConflictRestorePrevious \<and>
                   \<not> cellsEqual (cell_at (wsCells state (cfSheetID conflict)) (cfRow conflict, cfColumn conflict))
                       (cellFromConflictSnapshot (cfSheetID conflict) (cfRow conflict) (cfColumn conflict)
                         (cfAppliedCell conflict))
                then (Inl ErrVersionConflict, r)
                else case ApplyCells en ids now (resolveMutation input conflict state) r of
                    (Inl e, r') \<Rightarrow> (Inl e, r')
                  | (Inr result, r') \<Rightarrow>
                      if mrAppliedCells result \<noteq> 1 then (Inl ErrVersionConflict, r')
                      else closeConflict now conflictID input result r')"

section \<open>Reading\<close>

definition ReadRange :: "string \<Rightarrow> Range \<Rightarrow> 'o cell_store \<Rightarrow> Cell list result" where
  "ReadRange sheetID selected r =
     bind_result (sheetState r sheetID) (\<lambda>(_, state).
       Inr (sort_key (\<lambda>cell. (ceRow cell, ceColumn cell))
         (filter (\<lambda>cell. Contains selected (ceRow cell) (ceColumn cell)) (map snd (wsCells state sheetID)))))"

end
