(* ===== verification/CellWrites.thy ===== *)
theory CellWrites
  imports CellStore
begin

text \<open>
  What writing cells guarantees: an operation is recorded once and in order, what it recorded
  is what it changed, an error changes nothing, nobody writes over a lock, a conflict is
  reported exactly when somebody else changed the cell, and an undo never overwrites a later
  change.
\<close>

section \<open>The ways a write can end\<close>

lemma applyLocked_cases:
  assumes "applyLocked en ids now workbookID state submitted r = (res, r')"
  obtains (refused) e where "res = Inl e" "r' = r"
    | (gone) dropped moved result where "res = Inr result" "r' = r"
        "rebaseCellInputs (cmCells submitted) (memoryStructuralChangesSince (wsOperations state)
           (cmSheetID submitted) (cmBaseVersion submitted)) = ([], dropped, moved)"
    | (unchanged) result where "res = Inr result" "mrServerVersion result = wsVersion state" "\<not> mrDuplicate result"
        "r' = r\<lparr>crWorkbooks := AList.update workbookID
           (state\<lparr>wsIdempotent := AList.update (idempotency_key submitted) result (wsIdempotent state)\<rparr>)
           (crWorkbooks r)\<rparr>"
    | (written) rebased dropped moved conflicts effective plan result where "res = Inr result"
        "rebaseCellInputs (cmCells submitted) (memoryStructuralChangesSince (wsOperations state)
           (cmSheetID submitted) (cmBaseVersion submitted)) = (rebased, dropped, moved)"
        "cellLoop en (submitted\<lparr>cmCells := rebased\<rparr>) state rebased = Inr (conflicts, effective)"
        "planWrite en now (submitted\<lparr>cmCells := rebased\<rparr>) state effective r = Inr plan"
        "commitWrite ids now workbookID (submitted\<lparr>cmCells := rebased\<rparr>) state dropped moved conflicts plan r = (result, r')"
proof -
  obtain rebased dropped moved where rb: "rebaseCellInputs (cmCells submitted)
      (memoryStructuralChangesSince (wsOperations state) (cmSheetID submitted) (cmBaseVersion submitted)) =
      (rebased, dropped, moved)" by (rule prod_cases3)
  let ?m = "submitted\<lparr>cmCells := rebased\<rparr>"
  note eq = assms [unfolded applyLocked_def rb prod.case Let_def]
  show thesis
  proof (cases "rebased = []")
    case True
    with eq show thesis by (intro gone [of _ dropped moved]) (auto simp: rb)
  next
    case nonempty: False
    show thesis
    proof (cases "cellLoop en ?m state rebased")
      case (Inl e)
      with eq nonempty show thesis by (intro refused [of e]) auto
    next
      case (Inr both)
      then obtain conflicts effective where l: "cellLoop en ?m state rebased = Inr (conflicts, effective)"
        by (cases both) auto
      show thesis
      proof (cases "cmExpected ?m \<noteq> None \<and> conflicts \<noteq> [] \<and> prefix ''conflict.resolve.'' (cmOperationType ?m)")
        case True
        with eq nonempty l show thesis by (intro refused [of ErrVersionConflict]) auto
      next
        case noabort: False
        show thesis
        proof (cases "effective = [] \<and> formatMutation ?m")
          case True
          with eq nonempty l noabort show thesis
            by (intro unchanged) (auto simp: zeroResult_def idempotency_key_def)
        next
          case False
          show thesis
          proof (cases "planWrite en now ?m state effective r")
            case (Inl e)
            with eq nonempty l noabort False show thesis by (intro refused [of e]) auto
          next
            case (Inr plan)
            with eq nonempty l noabort False have "(case commitWrite ids now workbookID ?m state dropped moved conflicts plan r of
                (result, r') \<Rightarrow> (Inr result, r')) = (res, r')" by auto
            then obtain result where "commitWrite ids now workbookID ?m state dropped moved conflicts plan r = (result, r')"
              "res = Inr result" by (auto split: prod.splits)
            with rb l Inr show thesis by (intro written) auto
          qed
        qed
      qed
    qed
  qed
qed

lemma ApplyCells_cases:
  assumes "ApplyCells en ids now mutation r = (res, r')"
  obtains (refused) e where "res = Inl e" "r' = r"
    | (replayed) workbookID state existing where "sheetState r (cmSheetID mutation) = Inr (workbookID, state)"
        "map_of (wsIdempotent state) (idempotency_key mutation) = Some existing"
        "res = Inr (existing\<lparr>mrDuplicate := True\<rparr>)" "r' = r"
    | (applied) workbookID state where "checkMutation en mutation = Inr ()"
        "sheetState r (cmSheetID mutation) = Inr (workbookID, state)"
        "map_of (wsIdempotent state) (idempotency_key mutation) = None"
        "cmBaseVersion mutation \<le> wsVersion state"
        "applyLocked en ids now workbookID state mutation r = (res, r')"
proof (cases "checkMutation en mutation")
  case (Inl e)
  with assms show thesis by (intro refused [of e]) (simp_all add: ApplyCells_def)
next
  case checked: (Inr u)
  show thesis
  proof (cases "sheetState r (cmSheetID mutation)")
    case (Inl e)
    with assms checked show thesis by (intro refused [of e]) (simp_all add: ApplyCells_def)
  next
    case (Inr found)
    then obtain workbookID state where s: "sheetState r (cmSheetID mutation) = Inr (workbookID, state)"
      by (cases found) auto
    note eq = assms [unfolded ApplyCells_def checked s sum.case prod.case]
    show thesis
    proof (cases "map_of (wsIdempotent state) (idempotency_key mutation)")
      case (Some existing)
      with eq show thesis by (intro replayed [OF s Some]) auto
    next
      case None
      note eq = eq [unfolded None option.case]
      show thesis
      proof (cases "cmBaseVersion mutation > wsVersion state \<or>
          cmRequireExactVersion mutation \<and> cmBaseVersion mutation \<noteq> wsVersion state")
        case True
        show thesis
        proof (cases "cmBaseVersion mutation > wsVersion state")
          case True
          with eq show thesis by (intro refused [of ErrVersionAhead]) simp_all
        next
          case False
          with \<open>cmBaseVersion mutation > wsVersion state \<or> _\<close> eq show thesis
            by (intro refused [of ErrVersionConflict]) auto
        qed
      next
        case False
        with eq checked show thesis by (intro applied [OF _ s None]) auto
      qed
    qed
  qed
qed

section \<open>What a write leaves in the sheet and in the log\<close>

definition scoped_key :: "string \<Rightarrow> CellInput \<Rightarrow> scopedCellKey" where
  "scoped_key sheetID input = (target_sheet sheetID input, ciRow input, ciColumn input)"

text \<open>The last of the inputs for a cell, which is the one that counts.\<close>

definition final_input :: "string \<Rightarrow> CellInput list \<Rightarrow> scopedCellKey \<Rightarrow> CellInput option" where
  "final_input sheetID inputs key = List.find (\<lambda>input. scoped_key sheetID input = key) (rev inputs)"

definition cell_written :: "string \<Rightarrow> int \<Rightarrow> CellInput \<Rightarrow> Cell" where
  "cell_written sheetID now input = cellFromInput (target_sheet sheetID input) now input"

lemma final_input_snoc [simp]:
  "final_input sheetID (inputs @ [input]) key =
     (if scoped_key sheetID input = key then Some input else final_input sheetID inputs key)"
  by (simp add: final_input_def)

lemma writeCells_snoc:
  "writeCells sheetID now (inputs @ [input]) cells = writeCell sheetID now input (writeCells sheetID now inputs cells)"
  by (simp add: writeCells_def)

lemma writeCells_after:
  "map_of (wrAfter (writeCells sheetID now inputs cells)) key =
     map_option (cell_written sheetID now) (final_input sheetID inputs key)"
proof (induction inputs rule: rev_induct)
  case Nil
  show ?case by (simp add: writeCells_def final_input_def)
next
  case (snoc input inputs)
  then show ?case
    by (auto simp: writeCells_snoc writeCell_def Let_def update_conv' scoped_key_def cell_written_def)
qed

lemma writeCells_cells:
  "map_of (wrCells (writeCells sheetID now inputs cells) target) key =
     (case final_input sheetID inputs (target, key) of
        None \<Rightarrow> map_of (cells target) key
      | Some input \<Rightarrow>
          if isEmptyCell (cell_written sheetID now input) then None else Some (cell_written sheetID now input))"
proof (induction inputs rule: rev_induct)
  case Nil
  show ?case by (simp add: writeCells_def final_input_def)
next
  case (snoc input inputs)
  show ?case
  proof (cases "target_sheet sheetID input = target")
    case True
    with snoc show ?thesis
      by (simp add: writeCells_snoc writeCell_def Let_def update_conv' delete_conv' scoped_key_def cell_written_def)
  next
    case False
    with snoc show ?thesis by (simp add: writeCells_snoc writeCell_def Let_def scoped_key_def)
  qed
qed

lemma writeCells_before_dom:
  "fst ` set (wrBefore (writeCells sheetID now inputs cells)) = fst ` set (wrAfter (writeCells sheetID now inputs cells))"
  by (induction inputs rule: rev_induct) (simp_all add: writeCells_def writeCell_def Let_def dom_update)

lemma writeCells_before:
  assumes "distinct (map (scoped_key sheetID) inputs)" "final_input sheetID inputs (target, key) \<noteq> None"
  shows "map_of (wrBefore (writeCells sheetID now inputs cells)) (target, key) = Some (cell_at (cells target) key)"
  using assms
proof (induction inputs rule: rev_induct)
  case Nil
  then show ?case by (simp add: final_input_def)
next
  case (snoc input inputs)
  let ?w = "writeCells sheetID now inputs cells"
  show ?case
  proof (cases "scoped_key sheetID input = (target, key)")
    case True
    then have "final_input sheetID inputs (target, key) = None"
      using snoc.prems(1) by (force simp: final_input_def find_None_iff)
    then have "map_of (wrCells ?w target) key = map_of (cells target) key" by (simp add: writeCells_cells)
    with True show ?thesis
      by (simp add: writeCells_snoc writeCell_def Let_def update_conv' scoped_key_def cell_at_def)
  next
    case False
    then show ?thesis using snoc
      by (auto simp: writeCells_snoc writeCell_def Let_def update_conv' scoped_key_def)
  qed
qed

text \<open>Cells are stored under their own coordinates, once, and never empty.\<close>

definition cells_ok :: "string \<Rightarrow> sheet_cells \<Rightarrow> bool" where
  "cells_ok sheetID cells =
     (distinct (map fst cells) \<and>
      (\<forall>(key, cell) \<in> set cells. key = (ceRow cell, ceColumn cell) \<and> ceSheetID cell = sheetID \<and> \<not> isEmptyCell cell))"

lemma cells_ok_update:
  "cells_ok sheetID cells \<Longrightarrow> \<not> isEmptyCell cell \<Longrightarrow> ceSheetID cell = sheetID \<Longrightarrow>
   cells_ok sheetID (AList.update (ceRow cell, ceColumn cell) cell cells)"
  by (auto simp: cells_ok_def set_update_distinct distinct_update)

lemma cells_ok_delete: "cells_ok sheetID cells \<Longrightarrow> cells_ok sheetID (AList.delete key cells)"
  by (auto simp: cells_ok_def delete_filter distinct_map_filter)

lemma writeCells_cells_ok:
  assumes "\<forall>s. cells_ok s (cells s)"
  shows "cells_ok target (wrCells (writeCells sheetID now inputs cells) target)"
proof (induction inputs arbitrary: target rule: rev_induct)
  case Nil
  then show ?case using assms by (simp add: writeCells_def)
next
  case (snoc input inputs)
  let ?cell = "cellFromInput (target_sheet sheetID input) now input"
  have "(ciRow input, ciColumn input) = (ceRow ?cell, ceColumn ?cell)" "ceSheetID ?cell = target_sheet sheetID input"
    by (simp_all add: cellFromInput_def)
  with snoc show ?case
    by (simp add: writeCells_snoc writeCell_def Let_def cells_ok_delete cells_ok_update)
qed

section \<open>The invariant of the store\<close>

definition op_version :: "operation \<Rightarrow> int" where
  "op_version item = mrServerVersion (opResult item)"

definition history_ok :: "operation list \<Rightarrow> int \<Rightarrow> bool" where
  "history_ok operations version =
     (sorted_wrt (<) (map op_version operations) \<and> (\<forall>v \<in> op_version ` set operations. 1 \<le> v \<and> v \<le> version))"

definition answers_ok :: "(string \<times> MutationResult) list \<Rightarrow> int \<Rightarrow> bool" where
  "answers_ok answers version =
     (\<forall>result \<in> snd ` set answers. mrServerVersion result \<le> version \<and> \<not> mrDuplicate result)"

definition state_ok :: "workbook_state \<Rightarrow> bool" where
  "state_ok state =
     (0 \<le> wsVersion state \<and> (\<forall>s. cells_ok s (wsCells state s)) \<and>
      history_ok (wsOperations state) (wsVersion state) \<and> answers_ok (wsIdempotent state) (wsVersion state))"

definition workbooks_ok :: "'o cell_store \<Rightarrow> bool" where
  "workbooks_ok r =
     ((\<forall>state \<in> ran (map_of (crWorkbooks r)). state_ok state) \<and>
      ran (crSheetToWB r) \<subseteq> dom (map_of (crWorkbooks r)))"

lemma history_ok_append:
  "history_ok operations version \<Longrightarrow> 0 \<le> version \<Longrightarrow> op_version item = version + 1 \<Longrightarrow>
   history_ok (operations @ [item]) (version + 1)"
  by (fastforce simp: history_ok_def sorted_wrt_append)

lemma answers_ok_update:
  "answers_ok answers version \<Longrightarrow> version \<le> version' \<Longrightarrow> mrServerVersion result \<le> version' \<Longrightarrow> \<not> mrDuplicate result \<Longrightarrow>
   answers_ok (AList.update key result answers) version'"
proof (induction answers)
  case (Cons a answers)
  then show ?case by (cases a) (auto simp: answers_ok_def)
qed (simp add: answers_ok_def)

lemma workbooks_ok_update:
  assumes "workbooks_ok r" "state_ok state'" "crSheetToWB r' = crSheetToWB r"
    "crWorkbooks r' = AList.update workbookID state' (crWorkbooks r)"
  shows "workbooks_ok r'"
proof -
  have m: "map_of (crWorkbooks r') = (map_of (crWorkbooks r))(workbookID \<mapsto> state')"
    unfolding assms(4) by (rule update_conv')
  have "state_ok x" if x: "x \<in> ran (map_of (crWorkbooks r'))" for x
  proof -
    from x obtain i where i: "map_of (crWorkbooks r') i = Some x" by (auto simp: ran_def)
    show ?thesis
    proof (cases "i = workbookID")
      case False
      with i m have "x \<in> ran (map_of (crWorkbooks r))" by (simp add: ranI)
      with assms(1) show ?thesis by (simp add: workbooks_ok_def)
    qed (use i m assms(2) in simp)
  qed
  moreover have "ran (crSheetToWB r') \<subseteq> dom (map_of (crWorkbooks r'))"
    using assms(1) unfolding workbooks_ok_def assms(3) m by auto
  ultimately show ?thesis by (simp add: workbooks_ok_def)
qed

lemma sheetState_ok:
  assumes "workbooks_ok r" "sheetState r sheetID = Inr (workbookID, state)"
  shows "state_ok state" "map_of (crWorkbooks r) workbookID = Some state" "crSheetToWB r sheetID = Some workbookID"
proof -
  show m: "map_of (crWorkbooks r) workbookID = Some state" and "crSheetToWB r sheetID = Some workbookID"
    using assms(2) by (auto simp: sheetState_def split: option.splits)
  from m have "state \<in> ran (map_of (crWorkbooks r))" by (rule ranI)
  with assms(1) show "state_ok state" unfolding workbooks_ok_def by blast
qed

lemma committedResult_facts [simp]:
  "mrServerVersion (committedResult ids now mutation state dropped moved found plan) = wsVersion state + 1"
  "mrOperationID (committedResult ids now mutation state dropped moved found plan) = fiOperation ids"
  "mrDuplicate (committedResult ids now mutation state dropped moved found plan) = False"
  "mrAppliedCells (committedResult ids now mutation state dropped moved found plan) = int (length (plEffective plan))"
  "mrSheetID (committedResult ids now mutation state dropped moved found plan) = cmSheetID mutation"
  by (simp_all add: committedResult_def writeResult_def zeroResult_def Let_def)

lemma committedState_ok:
  assumes "state_ok state" "mrServerVersion result = wsVersion state + 1" "\<not> mrDuplicate result"
  shows "state_ok (committedState now mutation state plan result)"
proof -
  have "op_version (committedOperation now mutation state plan result) = wsVersion state + 1"
    using assms(2) by (simp add: op_version_def committedOperation_def Let_def)
  then show ?thesis
    using assms history_ok_append answers_ok_update writeCells_cells_ok
    by (auto simp: state_ok_def committedState_def)
qed

lemma ApplyCells_keeps:
  assumes "workbooks_ok r" "ApplyCells en ids now mutation r = (res, r')"
  shows "workbooks_ok r'"
  using assms(2)
proof (cases rule: ApplyCells_cases)
  case (applied workbookID state)
  note st = sheetState_ok [OF assms(1) applied(2)]
  from applied(5) show ?thesis
  proof (cases rule: applyLocked_cases)
    case (unchanged result)
    have "state_ok (state\<lparr>wsIdempotent := AList.update (idempotency_key mutation) result (wsIdempotent state)\<rparr>)"
      using st(1) unchanged(2,3) answers_ok_update by (auto simp: state_ok_def)
    with unchanged(4) show ?thesis by (intro workbooks_ok_update [OF assms(1)]) simp_all
  next
    case (written rebased dropped moved conflicts effective plan result)
    let ?m = "mutation\<lparr>cmCells := rebased\<rparr>"
    have "state_ok (committedState now ?m state plan (committedResult ids now ?m state dropped moved conflicts plan))"
      by (rule committedState_ok [OF st(1)]) simp_all
    with written(5) show ?thesis
      by (intro workbooks_ok_update [OF assms(1)]) (auto simp: commitWrite_def Let_def)
  qed (use assms(1) in simp_all)
qed (use assms(1) in simp_all)

section \<open>Recorded once, in order, and completely\<close>

definition same_cells :: "workbook_state \<Rightarrow> workbook_state \<Rightarrow> bool" where
  "same_cells before after =
     (wsVersion after = wsVersion before \<and> wsCells after = wsCells before \<and> wsOperations after = wsOperations before)"

text \<open>An operation appended to the log that accounts for every cell that changed.\<close>

definition logged :: "workbook_state \<Rightarrow> MutationResult \<Rightarrow> workbook_state \<Rightarrow> bool" where
  "logged before result after =
     (let item = last (wsOperations after) in
      wsOperations after = wsOperations before @ [item] \<and> opResult item = result \<and>
      wsVersion after = wsVersion before + 1 \<and> mrServerVersion result = wsVersion after \<and>
      fst ` set (opBefore item) = fst ` set (opAfter item) \<and>
      (\<forall>sheetID key. map_of (wsCells after sheetID) key =
        (case map_of (opAfter item) (sheetID, key) of
           None \<Rightarrow> map_of (wsCells before sheetID) key
         | Some cell \<Rightarrow> if isEmptyCell cell then None else Some cell)))"

lemma committedState_logged:
  assumes "mrServerVersion result = wsVersion state + 1"
  shows "logged state result (committedState now mutation state plan result)"
  using assms
  by (simp add: logged_def committedState_def committedOperation_def Let_def writeCells_before_dom
      writeCells_cells writeCells_after split: option.splits)

lemma sheetState_after:
  assumes "crSheetToWB r sheetID = Some workbookID" "crSheetToWB r' = crSheetToWB r"
    "crWorkbooks r' = AList.update workbookID state' (crWorkbooks r)"
  shows "sheetState r' sheetID = Inr (workbookID, state')"
  using assms by (simp add: sheetState_def update_conv')

lemma commitWrite_store:
  assumes "commitWrite ids now workbookID mutation state dropped moved conflicts plan r = (result, r')"
  shows "result = committedResult ids now mutation state dropped moved conflicts plan"
    "crSheetToWB r' = crSheetToWB r" "crProtections r' = crProtections r"
    "crWorkbooks r' = AList.update workbookID (committedState now mutation state plan result) (crWorkbooks r)"
  using assms by (auto simp: commitWrite_def Let_def)

lemma ApplyCells_outcome:
  assumes "workbooks_ok r" "ApplyCells en ids now mutation r = (Inr result, r')"
    and "sheetState r (cmSheetID mutation) = Inr (workbookID, before)"
  shows "\<exists>after. sheetState r' (cmSheetID mutation) = Inr (workbookID, after) \<and>
    (same_cells before after \<or> logged before result after) \<and>
    (\<forall>other. other \<noteq> workbookID \<longrightarrow> map_of (crWorkbooks r') other = map_of (crWorkbooks r) other)"
  using assms(2)
proof (cases rule: ApplyCells_cases)
  case (applied w state)
  with assms(3) have eq: "w = workbookID" "state = before" by auto
  note st = sheetState_ok [OF assms(1,3)]
  from applied(5) [unfolded eq] show ?thesis
  proof (cases rule: applyLocked_cases)
    case (unchanged res)
    let ?after = "before\<lparr>wsIdempotent := AList.update (idempotency_key mutation) res (wsIdempotent before)\<rparr>"
    have "sheetState r' (cmSheetID mutation) = Inr (workbookID, ?after)"
      by (rule sheetState_after [OF st(3)]) (simp_all add: unchanged(4))
    moreover have "same_cells before ?after" by (simp add: same_cells_def)
    ultimately show ?thesis using unchanged(4) by (auto simp: update_conv')
  next
    case (written rebased dropped moved conflicts effective plan res)
    note c = commitWrite_store [OF written(5)]
    have "sheetState r' (cmSheetID mutation) =
        Inr (workbookID, committedState now (mutation\<lparr>cmCells := rebased\<rparr>) before plan res)"
      by (rule sheetState_after [OF st(3) c(2,4)])
    moreover have "logged before res (committedState now (mutation\<lparr>cmCells := rebased\<rparr>) before plan res)"
      by (rule committedState_logged) (simp add: c(1))
    ultimately show ?thesis using c(4) written(1) by (auto simp: update_conv')
  qed (use assms(3) in \<open>auto simp: same_cells_def\<close>)
qed (use assms(3) in \<open>auto simp: same_cells_def\<close>)

lemma ApplyCells_recorded:
  assumes "workbooks_ok r" "ApplyCells en ids now mutation r = (Inr result, r')"
    and "sheetState r (cmSheetID mutation) = Inr (workbookID, before)"
    and "sheetState r' (cmSheetID mutation) = Inr (workbookID, after)" "wsVersion after \<noteq> wsVersion before"
  shows "logged before result after"
  using ApplyCells_outcome [OF assms(1-3)] assms(4,5) by (auto simp: same_cells_def)

text \<open>
  C6. The history of a workbook is complete and in order. Every write either leaves the
  cells, the log and the version alone, or moves the version forward by exactly one and
  appends one operation, stamped with the new version, whose record accounts for every
  change: a cell the record names holds what the record says, or is absent when that is
  empty, and every other cell of every sheet is as it was. Other workbooks are not touched.
\<close>

theorem write_is_logged:
  assumes "workbooks_ok r" "ApplyCells en ids now mutation r = (Inr result, r')"
    and "sheetState r (cmSheetID mutation) = Inr (workbookID, before)"
  shows "\<exists>after. sheetState r' (cmSheetID mutation) = Inr (workbookID, after) \<and>
    (same_cells before after \<or> logged before result after) \<and>
    (\<forall>other. other \<noteq> workbookID \<longrightarrow> map_of (crWorkbooks r') other = map_of (crWorkbooks r) other)"
  by (rule ApplyCells_outcome [OF assms])


text \<open>A logged write went through every step of \<^verbatim>\<open>ApplyCells\<close>.\<close>

lemma ApplyCells_logged:
  assumes "workbooks_ok r" "ApplyCells en ids now mutation r = (Inr result, r')"
    and "sheetState r (cmSheetID mutation) = Inr (workbookID, before)"
    and "sheetState r' (cmSheetID mutation) = Inr (workbookID, after)" "logged before result after"
  obtains rebased dropped moved conflicts effective plan where
    "rebaseCellInputs (cmCells mutation) (memoryStructuralChangesSince (wsOperations before)
       (cmSheetID mutation) (cmBaseVersion mutation)) = (rebased, dropped, moved)"
    "cellLoop en (mutation\<lparr>cmCells := rebased\<rparr>) before rebased = Inr (conflicts, effective)"
    "planWrite en now (mutation\<lparr>cmCells := rebased\<rparr>) before effective r = Inr plan"
    "result = committedResult ids now (mutation\<lparr>cmCells := rebased\<rparr>) before dropped moved conflicts plan"
    "after = committedState now (mutation\<lparr>cmCells := rebased\<rparr>) before plan result"
    "cmBaseVersion mutation \<le> wsVersion before"
proof -
  have grown: "wsVersion after = wsVersion before + 1" using assms(5) by (simp add: logged_def Let_def)
  from assms(2) show thesis
  proof (cases rule: ApplyCells_cases)
    case (applied w state)
    with assms(3) have eq: "w = workbookID" "state = before" by auto
    note st = sheetState_ok [OF assms(1,3)]
    from applied(5) [unfolded eq] show thesis
    proof (cases rule: applyLocked_cases)
      case (unchanged res)
      have "sheetState r' (cmSheetID mutation) =
          Inr (workbookID, before\<lparr>wsIdempotent := AList.update (idempotency_key mutation) res (wsIdempotent before)\<rparr>)"
        by (rule sheetState_after [OF st(3)]) (simp_all add: unchanged(4))
      with assms(4) grown show thesis by auto
    next
      case (written rebased dropped moved conflicts effective plan res)
      note c = commitWrite_store [OF written(5)]
      have "after = committedState now (mutation\<lparr>cmCells := rebased\<rparr>) before plan res"
        using sheetState_after [OF st(3) c(2,4)] assms(4) by simp
      with written c(1) applied(4) eq show thesis by (intro that) auto
    qed (use assms(3,4) grown in auto)
  qed (use assms(3,4) grown in auto)
qed

section \<open>Locks\<close>

lemma planWrite_effective:
  assumes "planWrite en now mutation state effective r = Inr plan"
  shows "fst (CheckProtectedRanges (sheetProtections (crProtections r) (cmSheetID mutation)) (cmActorID mutation)
      (wsOwnerID state) (plEffective plan)) = []"
  using assms unfolding planWrite_def Let_def
  by (auto simp: bind_result_eq_Inr split: if_splits)

lemma unblocked_write:
  assumes "fst (CheckProtectedRanges rules actor ownerID submitted) = []"
    and "\<forall>rule \<in> set rules. \<not> prWarningOnly rule" "input \<in> set submitted" "rule \<in> set rules"
  shows "\<not> stands_in_the_way actor ownerID rule (ciRow input) (ciColumn input)"
proof
  assume s: "stands_in_the_way actor ownerID rule (ciRow input) (ciColumn input)"
  obtain blocked warnings where c: "CheckProtectedRanges rules actor ownerID submitted = (blocked, warnings)"
    by (rule prod.exhaust)
  from violation_found [OF assms(3,4) s] obtain v w
    where v: "Some (v, w) \<in> firstViolation (prepare actor ownerID rules) ` set submitted" by blast
  from violation_names_rule [OF v] assms(2) have "\<not> w" by metis
  with v CheckProtectedRanges_sets(1) [OF c] have "v \<in> set blocked" by simp
  with c assms(1) show False by simp
qed

text \<open>
  C8. Nobody writes over a lock. On a sheet whose rules all forbid, rather than only warn, no
  cell that a recorded write submitted is guarded against its author: not the cells of the
  request, wherever they were rebased to, and not the ones that dissolving a merge added.
\<close>

theorem locked_cells_not_written:
  assumes "workbooks_ok r" "ApplyCells en ids now mutation r = (Inr result, r')"
    and "sheetState r (cmSheetID mutation) = Inr (workbookID, before)"
    and "sheetState r' (cmSheetID mutation) = Inr (workbookID, after)" "logged before result after"
    and "\<forall>rule \<in> set (sheetProtections (crProtections r) (cmSheetID mutation)). \<not> prWarningOnly rule"
    and "rule \<in> set (sheetProtections (crProtections r) (cmSheetID mutation))"
    and "cell \<in> set (opSubmitted (last (wsOperations after)))"
  shows "\<not> stands_in_the_way (cmActorID mutation) (wsOwnerID before) rule (ccRow cell) (ccColumn cell)"
proof -
  obtain rebased dropped moved conflicts effective plan where
    plan: "planWrite en now (mutation\<lparr>cmCells := rebased\<rparr>) before effective r = Inr plan"
    and after: "after = committedState now (mutation\<lparr>cmCells := rebased\<rparr>) before plan result"
    by (rule ApplyCells_logged [OF assms(1-5)])
  have "opSubmitted (last (wsOperations after)) = submittedCoordinates (plEffective plan)"
    unfolding after by (simp add: committedState_def committedOperation_def Let_def)
  with assms(8) obtain input where "input \<in> set (plEffective plan)" "ccRow cell = ciRow input" "ccColumn cell = ciColumn input"
    by (auto simp: submittedCoordinates_def)
  with unblocked_write [OF planWrite_effective [OF plan]] assms(6,7) show ?thesis by simp
qed

section \<open>Errors\<close>

lemma UndoOperation_ApplyCells:
  obtains (refused) e where "UndoOperation en ids now input r = (Inl e, r)"
    | (found) target where "undo_target input r = Some target"
      "UndoOperation en ids now input r = ApplyCells en ids now (undoMutation input target) r"
proof (cases "trim_space (uoOperationID input) = [] \<or> trim_space (uoIdempotencyKey input) = []")
  case True
  then show thesis by (intro refused [of ErrInvalid]) (simp add: UndoOperation_def)
next
  case False
  show thesis
  proof (cases "undo_target input r")
    case None
    with False show thesis by (intro refused [of ErrNotFound]) (simp add: UndoOperation_def)
  next
    case (Some target)
    show thesis
    proof (cases "undo_coordinates target = []")
      case True
      with False Some show thesis by (intro refused [of ErrInvalid]) (simp add: UndoOperation_def)
    next
      case nonempty: False
      with False Some show thesis by (intro found [of target]) (simp_all add: UndoOperation_def)
    qed
  qed
qed

lemma ApplyCells_error: "ApplyCells en ids now mutation r = (Inl e, r') \<Longrightarrow> r' = r"
proof -
  assume a: "ApplyCells en ids now mutation r = (Inl e, r')"
  then show ?thesis
  proof (cases rule: ApplyCells_cases)
    case (applied workbookID state)
    from applied(5) show ?thesis by (cases rule: applyLocked_cases) auto
  qed auto
qed

text \<open>
  C13. A write that is refused is refused whole: whenever applying or undoing ends in an error,
  be it a stale version, a locked cell, an invalid value or a formula that cannot be
  computed, the store is exactly what it was.
\<close>

theorem refused_write_changes_nothing:
  "(case ApplyCells en ids now mutation r of (Inl _, r') \<Rightarrow> r' = r | (Inr _, _) \<Rightarrow> True) \<and>
   (case UndoOperation en ids now undo r of (Inl _, r') \<Rightarrow> r' = r | (Inr _, _) \<Rightarrow> True)"
proof -
  have a: "case ApplyCells en ids now m r of (Inl _, r') \<Rightarrow> r' = r | (Inr _, _) \<Rightarrow> True" for m
    using ApplyCells_error by (auto split: prod.splits sum.splits)
  then show ?thesis by (cases rule: UndoOperation_ApplyCells [of en ids now undo r]) auto
qed

section \<open>Conflicts\<close>

text \<open>The operations after a version that somebody else made and that touched a cell.\<close>

definition changed_by_others ::
  "operation list \<Rightarrow> string \<Rightarrow> cellKey \<Rightarrow> int \<Rightarrow> string \<Rightarrow> string \<Rightarrow> operation list" where
  "changed_by_others operations sheetID key base actor client =
     filter (\<lambda>item. base < op_version item \<and>
       (client = [] \<or> opActorID item \<noteq> actor \<or> opClientID item \<noteq> client) \<and>
       (opStructural item \<or> (sheetID, key) \<in> fst ` set (opAfter item))) operations"

lemma map_of_dom: "map_of xs k \<noteq> None \<longleftrightarrow> k \<in> fst ` set xs"
  by (simp add: map_of_eq_None_iff)

lemma latestLoop_eq:
  "latestLoop sheetID key base actor client operations version =
     (let changes = changed_by_others operations sheetID key base actor client in
      if changes = [] then version else op_version (last changes))"
proof (induction operations arbitrary: version)
  case (Cons item operations)
  show ?case
    by (auto simp: Cons changed_by_others_def Let_def op_version_def map_of_dom [symmetric] foreign_op_def)
qed (simp add: changed_by_others_def)

lemma latestChange_pos:
  assumes "history_ok operations version"
  shows "latestChange operations sheetID key base actor client > 0 \<longleftrightarrow>
    changed_by_others operations sheetID key base actor client \<noteq> []"
proof -
  have "1 \<le> op_version (last changes)" if "changes = changed_by_others operations sheetID key base actor client"
    "changes \<noteq> []" for changes
  proof -
    have "last changes \<in> set operations"
      using last_in_set [OF that(2)] unfolding that(1) changed_by_others_def by simp
    with assms show ?thesis by (simp add: history_ok_def)
  qed
  then show ?thesis by (fastforce simp: latestChange_def latestLoop_eq Let_def)
qed

lemma changed_by_others_newer:
  "history_ok operations version \<Longrightarrow> changed_by_others operations sheetID key base actor client \<noteq> [] \<Longrightarrow> base < version"
  unfolding history_ok_def changed_by_others_def filter_empty_conv by force

lemma findConflict_unexpected:
  assumes "history_ok (wsOperations state) (wsVersion state)" "cmExpected mutation = None" "1 \<le> cmBaseVersion mutation"
    and "findConflict mutation state input current = Inr (conflict, skip)"
  shows "\<not> skip" "map (\<lambda>c. (cfRow c, cfColumn c)) (case conflict of None \<Rightarrow> [] | Some c \<Rightarrow> [c]) =
    filter (\<lambda>key. changed_by_others (wsOperations state) (cmSheetID mutation) key (cmBaseVersion mutation)
      (cmActorID mutation) (cmClientID mutation) \<noteq> []) [coordinate input]"
proof -
  let ?changed = "changed_by_others (wsOperations state) (cmSheetID mutation) (coordinate input) (cmBaseVersion mutation)
      (cmActorID mutation) (cmClientID mutation)"
  have l: "latestChange (wsOperations state) (cmSheetID mutation) (ciRow input, ciColumn input) (cmBaseVersion mutation)
      (cmActorID mutation) (cmClientID mutation) > 0 \<longleftrightarrow> ?changed \<noteq> []"
    using latestChange_pos [OF assms(1)] by (simp add: coordinate_def)
  have "\<not> skip \<and> map (\<lambda>c. (cfRow c, cfColumn c)) (case conflict of None \<Rightarrow> [] | Some c \<Rightarrow> [c]) =
      (if ?changed \<noteq> [] then [coordinate input] else [])"
  proof (cases "?changed = []")
    case True
    with assms(2,4) l show ?thesis by (auto simp: findConflict_def Let_def)
  next
    case False
    with changed_by_others_newer [OF assms(1)] l assms(3)
    have "cmBaseVersion mutation \<ge> 1 \<and> cmBaseVersion mutation < wsVersion state \<and>
      latestChange (wsOperations state) (cmSheetID mutation) (ciRow input, ciColumn input) (cmBaseVersion mutation)
        (cmActorID mutation) (cmClientID mutation) > 0" by blast
    with assms(2,4) False show ?thesis
      by (auto simp: findConflict_def Let_def coordinate_def split: prod.splits)
  qed
  then show "\<not> skip" "map (\<lambda>c. (cfRow c, cfColumn c)) (case conflict of None \<Rightarrow> [] | Some c \<Rightarrow> [c]) =
    filter (\<lambda>key. changed_by_others (wsOperations state) (cmSheetID mutation) key (cmBaseVersion mutation)
      (cmActorID mutation) (cmClientID mutation) \<noteq> []) [coordinate input]" by simp_all
qed

lemma cellLoop_Cons_Inr:
  assumes "cellLoop en mutation state (input # rest) = Inr (conflicts, effective)"
  obtains conflict skip prepared conflicts' effective' where "1 \<le> ciRow input" "1 \<le> ciColumn input"
    "findConflict mutation state input (cell_at (wsCells state (cmSheetID mutation)) (coordinate input)) = Inr (conflict, skip)"
    "(if skip then Inr None else prepareInput en mutation
       (cell_at (wsCells state (cmSheetID mutation)) (coordinate input)) input) = Inr prepared"
    "cellLoop en mutation state rest = Inr (conflicts', effective')"
    "conflicts = (case conflict of None \<Rightarrow> [] | Some c \<Rightarrow> [c]) @ conflicts'"
    "effective = (case prepared of None \<Rightarrow> [] | Some e \<Rightarrow> [e]) @ effective'"
proof -
  let ?current = "cell_at (wsCells state (cmSheetID mutation)) (coordinate input)"
  have pos: "1 \<le> ciRow input" "1 \<le> ciColumn input" using assms by (auto split: if_splits)
  with assms obtain conflict skip where f: "findConflict mutation state input ?current = Inr (conflict, skip)"
    by (auto simp: bind_result_eq_Inr coordinate_def Let_def split: if_splits)
  with assms pos obtain prepared where p: "(if skip then Inr None else prepareInput en mutation ?current input) = Inr prepared"
    by (auto simp: bind_result_eq_Inr coordinate_def Let_def split: if_splits)
  with assms pos f obtain conflicts' effective' where r: "cellLoop en mutation state rest = Inr (conflicts', effective')"
    by (auto simp: bind_result_eq_Inr coordinate_def Let_def split: if_splits)
  have "Inr (conflicts, effective) = (Inr (case conflict of None \<Rightarrow> conflicts' | Some c \<Rightarrow> c # conflicts',
      case prepared of None \<Rightarrow> effective' | Some e \<Rightarrow> e # effective') :: (CellConflict list \<times> CellInput list) result)"
    using assms pos f p r by (cases skip) (simp_all add: coordinate_def Let_def)
  then have "conflicts = (case conflict of None \<Rightarrow> [] | Some c \<Rightarrow> [c]) @ conflicts'"
    "effective = (case prepared of None \<Rightarrow> [] | Some e \<Rightarrow> [e]) @ effective'"
    by (simp_all split: option.splits)
  with pos f p r show thesis by (rule that)
qed

lemma cellLoop_conflicts:
  assumes "history_ok (wsOperations state) (wsVersion state)" "cmExpected mutation = None" "1 \<le> cmBaseVersion mutation"
    and "cellLoop en mutation state cells = Inr (conflicts, effective)"
  shows "map (\<lambda>c. (cfRow c, cfColumn c)) conflicts =
    filter (\<lambda>key. changed_by_others (wsOperations state) (cmSheetID mutation) key (cmBaseVersion mutation)
      (cmActorID mutation) (cmClientID mutation) \<noteq> []) (map coordinate cells)"
  using assms(4)
proof (induction cells arbitrary: conflicts effective)
  case (Cons input rest)
  from Cons.prems show ?case
  proof (rule cellLoop_Cons_Inr)
    fix conflict skip prepared conflicts' effective'
    assume f: "findConflict mutation state input (cell_at (wsCells state (cmSheetID mutation)) (coordinate input)) =
        Inr (conflict, skip)"
      and r: "cellLoop en mutation state rest = Inr (conflicts', effective')"
      and c: "conflicts = (case conflict of None \<Rightarrow> [] | Some c \<Rightarrow> [c]) @ conflicts'"
    show ?thesis
      unfolding c map_append Cons.IH [OF r] findConflict_unexpected(2) [OF assms(1-3) f] by simp
  qed
qed simp

lemma finalize_places:
  "map (\<lambda>c. (cfRow c, cfColumn c)) (finalizeCellConflicts newIDs now mutation result after conflicts) =
   map (\<lambda>c. (cfRow c, cfColumn c)) conflicts"
  by (rule nth_equalityI) (simp_all add: finalizeCellConflicts_def finalizeCellConflict_def Let_def)

text \<open>
  C9. A conflict is reported exactly when there is one. A write composed at an older version
  reports a conflict for those of its cells, at the place they were rebased to, that an
  operation of another client has changed since, in the order of the request: none is
  missed, and a client's own operations never count. (A structural operation counts as a
  change of every cell.)
\<close>

theorem conflicts_are_exact:
  assumes "workbooks_ok r" "ApplyCells en ids now mutation r = (Inr result, r')"
    and "sheetState r (cmSheetID mutation) = Inr (workbookID, before)"
    and "sheetState r' (cmSheetID mutation) = Inr (workbookID, after)" "logged before result after"
    and "cmExpected mutation = None" "1 \<le> cmBaseVersion mutation"
  shows "map (\<lambda>c. (cfRow c, cfColumn c)) (mrConflicts result) =
    filter (\<lambda>key. changed_by_others (wsOperations before) (cmSheetID mutation) key (cmBaseVersion mutation)
        (cmActorID mutation) (cmClientID mutation) \<noteq> [])
      (map coordinate (fst (rebaseCellInputs (cmCells mutation)
        (memoryStructuralChangesSince (wsOperations before) (cmSheetID mutation) (cmBaseVersion mutation)))))"
proof -
  obtain rebased dropped moved conflicts effective plan where
    rb: "rebaseCellInputs (cmCells mutation) (memoryStructuralChangesSince (wsOperations before)
       (cmSheetID mutation) (cmBaseVersion mutation)) = (rebased, dropped, moved)"
    and l: "cellLoop en (mutation\<lparr>cmCells := rebased\<rparr>) before rebased = Inr (conflicts, effective)"
    and "planWrite en now (mutation\<lparr>cmCells := rebased\<rparr>) before effective r = Inr plan"
    and res: "result = committedResult ids now (mutation\<lparr>cmCells := rebased\<rparr>) before dropped moved conflicts plan"
    and "after = committedState now (mutation\<lparr>cmCells := rebased\<rparr>) before plan result"
    and "cmBaseVersion mutation \<le> wsVersion before"
    by (rule ApplyCells_logged [OF assms(1-5)])
  have "history_ok (wsOperations before) (wsVersion before)"
    using sheetState_ok(1) [OF assms(1,3)] by (simp add: state_ok_def)
  from cellLoop_conflicts [OF this _ _ l] assms(6,7) show ?thesis
    unfolding rb res by (simp add: committedResult_def Let_def finalize_places)
qed

section \<open>Undo\<close>

text \<open>What is left of an operation: the cells that still hold what it wrote.\<close>

definition still_there :: "operation \<Rightarrow> workbook_state \<Rightarrow> cellKey \<Rightarrow> bool" where
  "still_there target state key =
     cellsEqual (cell_at (wsCells state (mrSheetID (opResult target))) key)
       (cell_at (opAfter target) (mrSheetID (opResult target), key))"

definition undo_input :: "operation \<Rightarrow> cellKey \<Rightarrow> CellInput" where
  "undo_input target key =
     inputFromCell (fst key) (snd key) (cell_at (opBefore target) (mrSheetID (opResult target), key))"

lemma map_of_map_key: "map_of (map (\<lambda>k. (k, f k)) keys) key = (if key \<in> set keys then Some (f key) else None)"
  by (induction keys) auto

lemma findConflict_undo:
  assumes "key \<in> set (undo_coordinates target)"
    and "findConflict (undoMutation input target) state (undo_input target key)
      (cell_at (wsCells state (mrSheetID (opResult target))) key) = Inr (conflict, skip)"
  shows "skip = (\<not> still_there target state key)"
    "map (\<lambda>c. (cfRow c, cfColumn c)) (case conflict of None \<Rightarrow> [] | Some c \<Rightarrow> [c]) =
      (if still_there target state key then [] else [key])"
proof -
  have "ciRow (undo_input target key) = fst key" "ciColumn (undo_input target key) = snd key"
    by (simp_all add: undo_input_def inputFromCell_def)
  moreover have "map_of (map (\<lambda>key. (key, cell_at (opAfter target) (mrSheetID (opResult target), key)))
      (undo_coordinates target)) key = Some (cell_at (opAfter target) (mrSheetID (opResult target), key))"
    using assms(1) by (simp add: map_of_map_key)
  ultimately show "skip = (\<not> still_there target state key)"
    "map (\<lambda>c. (cfRow c, cfColumn c)) (case conflict of None \<Rightarrow> [] | Some c \<Rightarrow> [c]) =
      (if still_there target state key then [] else [key])"
    using assms(2) by (auto simp: findConflict_def undoMutation_def Let_def still_there_def split: if_splits)
qed

lemma prepareInput_undo:
  "prepareInput en (undoMutation input target) current i =
     Inr (Some (i\<lparr>ciSheetID := mrSheetID (opResult target)\<rparr>))"
  by (simp add: prepareInput_def undoMutation_def Let_def formatMutation_def)

lemma cellLoop_undo:
  assumes "set keys \<subseteq> set (undo_coordinates target)"
    and "cellLoop en (undoMutation input target) state (map (undo_input target) keys) = Inr (conflicts, effective)"
  shows "effective = map (\<lambda>key. (undo_input target key)\<lparr>ciSheetID := mrSheetID (opResult target)\<rparr>)
      (filter (still_there target state) keys) \<and>
    map (\<lambda>c. (cfRow c, cfColumn c)) conflicts = filter (\<lambda>key. \<not> still_there target state key) keys"
  using assms
proof (induction keys arbitrary: conflicts effective)
  case (Cons key keys)
  let ?m = "undoMutation input target"
  have sheet: "cmSheetID ?m = mrSheetID (opResult target)" by (simp add: undoMutation_def Let_def)
  have coord: "coordinate (undo_input target key) = key"
    by (simp add: coordinate_def undo_input_def inputFromCell_def)
  from Cons.prems(2) have "cellLoop en ?m state (undo_input target key # map (undo_input target) keys) = Inr (conflicts, effective)"
    by (simp only: list.map)
  then show ?case
  proof (rule cellLoop_Cons_Inr)
    fix conflict skip prepared conflicts' effective'
    assume f: "findConflict ?m state (undo_input target key)
        (cell_at (wsCells state (cmSheetID ?m)) (coordinate (undo_input target key))) = Inr (conflict, skip)"
      and p: "(if skip then Inr None else prepareInput en ?m
        (cell_at (wsCells state (cmSheetID ?m)) (coordinate (undo_input target key))) (undo_input target key)) = Inr prepared"
      and r: "cellLoop en ?m state (map (undo_input target) keys) = Inr (conflicts', effective')"
      and c: "conflicts = (case conflict of None \<Rightarrow> [] | Some c \<Rightarrow> [c]) @ conflicts'"
      and e: "effective = (case prepared of None \<Rightarrow> [] | Some e \<Rightarrow> [e]) @ effective'"
    have k: "key \<in> set (undo_coordinates target)" "set keys \<subseteq> set (undo_coordinates target)" using Cons.prems(1) by auto
    have s: "skip = (\<not> still_there target state key)"
      "map (\<lambda>c. (cfRow c, cfColumn c)) (case conflict of None \<Rightarrow> [] | Some c \<Rightarrow> [c]) =
        (if still_there target state key then [] else [key])"
      using findConflict_undo [OF k(1)] f unfolding sheet coord by blast+
    have pr: "prepared = (if still_there target state key
        then Some ((undo_input target key)\<lparr>ciSheetID := mrSheetID (opResult target)\<rparr>) else None)"
      using p unfolding s(1) prepareInput_undo by (auto split: if_splits)
    show ?thesis using Cons.IH [OF k(2) r] s(2) unfolding c e pr by simp
  qed
qed simp

lemma dissolveLoop_places:
  "dissolveLoop en sheetID cells written rest effective = Inr (adjusted, extra) \<Longrightarrow>
   map coordinate adjusted = map coordinate effective"
proof (induction en sheetID cells written rest effective arbitrary: adjusted extra rule: dissolveLoop.induct)
  case (2 en sheetID cells written merged key rest effective)
  have upd: "map coordinate (effective[index := (effective ! index)\<lparr>ciStyle := style\<rparr>]) = map coordinate effective"
    for index style
    by (cases "index < length effective")
      (simp_all add: map_update coordinate_def list_update_same_conv list_update_beyond)
  show ?case
  proof (cases "written key")
    case (Some index)
    with 2 upd show ?thesis by (auto simp: bind_result_eq_Inr)
  next
    case None
    with 2 show ?thesis by (auto simp: bind_result_eq_Inr split: option.splits if_splits)
  qed
qed simp

lemma dissolveStep_places:
  assumes "dissolveStep en mutation state effective = Inr (effective', unmerged)"
  shows "prefix (map coordinate effective) (map coordinate effective')" "unmerged = [] \<Longrightarrow> effective' = effective"
proof -
  show "prefix (map coordinate effective) (map coordinate effective')"
    using assms dissolveLoop_places
    by (fastforce simp: dissolveStep_def dissolveMerges_def bind_result_eq_Inr Let_def split: if_splits)
  show "unmerged = [] \<Longrightarrow> effective' = effective"
    using assms by (auto simp: dissolveStep_def dissolveMerges_def bind_result_eq_Inr Let_def split: if_splits)
qed

lemma planWrite_dissolved:
  assumes "planWrite en now mutation state effective r = Inr plan"
  shows "dissolveStep en mutation state effective = Inr (plEffective plan, plUnmerged plan)"
  using assms unfolding planWrite_def Let_def by (auto simp: bind_result_eq_Inr split: if_splits)

lemma undo_rebased:
  "rebaseCellInputs cells [] = (cells, [], 0)"
  by (simp add: rebaseCellInputs_def)

lemma undo_cells: "cmCells (undoMutation input target) = map (undo_input target) (undo_coordinates target)"
  by (simp add: undoMutation_def undo_input_def Let_def)

lemma undo_logged:
  assumes "workbooks_ok r" "undo_target input r = Some target"
    and "UndoOperation en ids now input r = (Inr result, r')" "sheet = mrSheetID (opResult target)"
    and "sheetState r sheet = Inr (workbookID, before)" "sheetState r' sheet = Inr (workbookID, after)"
    and "logged before result after"
    and "memoryStructuralChangesSince (wsOperations before) sheet (mrServerVersion (opResult target)) = []"
  obtains dropped moved conflicts effective plan where
    "cellLoop en (undoMutation input target) before (map (undo_input target) (undo_coordinates target)) = Inr (conflicts, effective)"
    "planWrite en now (undoMutation input target) before effective r = Inr plan"
    "result = committedResult ids now (undoMutation input target) before dropped moved conflicts plan"
    "after = committedState now (undoMutation input target) before plan result"
proof -
  let ?m = "undoMutation input target"
  have s: "cmSheetID ?m = sheet" "cmBaseVersion ?m = mrServerVersion (opResult target)"
    by (simp_all add: undoMutation_def Let_def assms(4))
  have a: "ApplyCells en ids now ?m r = (Inr result, r')"
    by (rule UndoOperation_ApplyCells [of en ids now input r]) (use assms(2,3) in auto)
  obtain rebased dropped moved conflicts effective plan where
    rb: "rebaseCellInputs (cmCells ?m) (memoryStructuralChangesSince (wsOperations before)
       (cmSheetID ?m) (cmBaseVersion ?m)) = (rebased, dropped, moved)"
    and l: "cellLoop en (?m\<lparr>cmCells := rebased\<rparr>) before rebased = Inr (conflicts, effective)"
    and p: "planWrite en now (?m\<lparr>cmCells := rebased\<rparr>) before effective r = Inr plan"
    and res: "result = committedResult ids now (?m\<lparr>cmCells := rebased\<rparr>) before dropped moved conflicts plan"
    and af: "after = committedState now (?m\<lparr>cmCells := rebased\<rparr>) before plan result"
    and "cmBaseVersion ?m \<le> wsVersion before"
    by (rule ApplyCells_logged [OF assms(1) a assms(5,6) [folded s(1)] assms(7)])
  have "rebased = cmCells ?m" using rb unfolding s assms(8) undo_rebased by simp
  then have m: "?m\<lparr>cmCells := rebased\<rparr> = ?m" "rebased = map (undo_input target) (undo_coordinates target)"
    by (simp_all add: undo_cells)
  show thesis by (rule that [OF l [unfolded m(1), unfolded m(2)] p [unfolded m(1)] res [unfolded m(1)] af [unfolded m(1)]])
qed

text \<open>
  C10. Undoing never overwrites a later change. When no row or column has moved since, undoing
  an operation submits exactly those of its cells that still hold what the operation left
  there, and reports every other one as a conflict instead of writing it. (Cells that
  dissolving a merge adds come after them.)
\<close>

theorem undo_spares_later_changes:
  assumes "workbooks_ok r" "undo_target input r = Some target"
    and "UndoOperation en ids now input r = (Inr result, r')" "sheet = mrSheetID (opResult target)"
    and "sheetState r sheet = Inr (workbookID, before)" "sheetState r' sheet = Inr (workbookID, after)"
    and "logged before result after"
    and "memoryStructuralChangesSince (wsOperations before) sheet (mrServerVersion (opResult target)) = []"
  shows "map (\<lambda>c. (cfRow c, cfColumn c)) (mrConflicts result) =
      filter (\<lambda>key. \<not> still_there target before key) (undo_coordinates target) \<and>
    prefix (filter (still_there target before) (undo_coordinates target))
      (map (\<lambda>c. (ccRow c, ccColumn c)) (opSubmitted (last (wsOperations after))))"
proof -
  let ?m = "undoMutation input target"
  obtain dropped moved conflicts effective plan where
    l: "cellLoop en ?m before (map (undo_input target) (undo_coordinates target)) = Inr (conflicts, effective)"
    and p: "planWrite en now ?m before effective r = Inr plan"
    and res: "result = committedResult ids now ?m before dropped moved conflicts plan"
    and af: "after = committedState now ?m before plan result"
    by (rule undo_logged [OF assms])
  note loop = cellLoop_undo [OF subset_refl l]
  have "map coordinate effective = filter (still_there target before) (undo_coordinates target)"
    using loop by (simp add: comp_def coordinate_def undo_input_def inputFromCell_def)
  moreover have "map (\<lambda>c. (ccRow c, ccColumn c)) (opSubmitted (last (wsOperations after))) = map coordinate (plEffective plan)"
    unfolding af by (simp add: committedState_def committedOperation_def submittedCoordinates_def Let_def comp_def coordinate_def)
  ultimately show ?thesis
    using loop dissolveStep_places(1) [OF planWrite_dissolved [OF p]]
    unfolding res by (simp add: committedResult_def Let_def finalize_places)
qed

text \<open>
  What recalculation promises: it writes a submitted literal, a cell with a value and neither
  a formula nor a spilled array behind it, as it was submitted.
\<close>

definition literal :: "CellInput \<Rightarrow> bool" where
  "literal input = (ciFormula input = [] \<and> ciSpillSource input = [] \<and> trim_space (ciValue input) \<noteq> [])"

definition keeps_literals :: "'o engine \<Rightarrow> bool" where
  "keeps_literals en =
     (\<forall>others cells sheetID effective expanded recalculated errors.
        enRecalculate en others cells sheetID effective = Inr (expanded, recalculated, errors) \<longrightarrow>
        (\<forall>input \<in> set effective. literal input \<longrightarrow> ciSheetID input = sheetID \<longrightarrow>
           map_option (cell_written sheetID 0) (final_input sheetID expanded (sheetID, coordinate input)) =
             Some (cell_written sheetID 0 input)))"

lemma planWrite_expanded:
  assumes "planWrite en now mutation state effective r = Inr plan" "\<not> formatMutation mutation"
  obtains others recalculated errors where
    "enRecalculate en others (wsCells state) (cmSheetID mutation) (plEffective plan) = Inr (plExpanded plan, recalculated, errors)"
  using assms unfolding planWrite_def Let_def by (auto simp: bind_result_eq_Inr split: if_splits)

lemma cell_written_time: "cell_written sheetID now input = (cell_written sheetID 0 input)\<lparr>ceUpdatedAt := now\<rparr>"
  by (simp add: cell_written_def cellFromInput_def)

lemma kept_literal:
  assumes "keeps_literals en" "enRecalculate en others cells sheetID effective = Inr (expanded, recalculated, errors)"
    and "input \<in> set effective" "literal input" "ciSheetID input = sheetID"
  obtains j where "final_input sheetID expanded (sheetID, coordinate input) = Some j"
    "cell_written sheetID now j = cell_written sheetID now input"
proof -
  have "map_option (cell_written sheetID 0) (final_input sheetID expanded (sheetID, coordinate input)) =
      Some (cell_written sheetID 0 input)"
    using assms(1) [unfolded keeps_literals_def, rule_format, OF assms(2-5)] .
  then obtain j where j: "final_input sheetID expanded (sheetID, coordinate input) = Some j"
    "cell_written sheetID 0 j = cell_written sheetID 0 input" by (auto simp: map_option_eq_Some)
  then have "cell_written sheetID now j = cell_written sheetID now input"
    by (simp add: cell_written_time [of sheetID now])
  with j(1) show thesis by (rule that)
qed


section \<open>The invariant through every operation\<close>

lemma UndoOperation_keeps: "workbooks_ok r \<Longrightarrow> UndoOperation en ids now input r = (res, r') \<Longrightarrow> workbooks_ok r'"
  by (rule UndoOperation_ApplyCells [of en ids now input r]) (auto intro: ApplyCells_keeps)

lemma closeConflict_keeps:
  "workbooks_ok r \<Longrightarrow> closeConflict now conflictID input result r = (res, r') \<Longrightarrow> workbooks_ok r'"
  by (auto simp: closeConflict_def Let_def workbooks_ok_def split: option.splits if_splits)

lemma ResolveCellConflict_cases:
  assumes "ResolveCellConflict en ids now conflictID input r = (res, r')"
  obtains (same) "r' = r"
    | (applied) mutation e where "ApplyCells en ids now mutation r = (e, r')"
    | (closed) mutation result r1 where "ApplyCells en ids now mutation r = (Inr result, r1)"
        "closeConflict now conflictID input result r1 = (res, r')"
proof (cases "bind_result (validateConflictResolution input) (\<lambda>_. GetCellConflict conflictID r)")
  case (Inl e)
  with assms show thesis by (intro same) (simp add: ResolveCellConflict_def)
next
  case (Inr conflict)
  note eq = assms [unfolded ResolveCellConflict_def Inr sum.case]
  show thesis
  proof (cases "cfStatus conflict = ConflictStatusResolved \<or> cfRevision conflict \<noteq> rvExpectedRevision input \<or>
      map_of (crWorkbooks r) (cfWorkbookID conflict) = None")
    case True
    with eq show thesis by (intro same) (auto split: if_splits)
  next
    case False
    then obtain state where s: "map_of (crWorkbooks r) (cfWorkbookID conflict) = Some state" by auto
    obtain out r1 where a: "ApplyCells en ids now (resolveMutation input conflict state) r = (out, r1)"
      by (rule prod.exhaust)
    from False have f: "cfStatus conflict \<noteq> ConflictStatusResolved" "cfRevision conflict = rvExpectedRevision input" by auto
    note eq = eq [unfolded s option.case a prod.case]
    show thesis
    proof (cases out)
      case (Inl e)
      with eq f a show thesis by (cases "r' = r") (auto split: if_splits intro: same applied)
    next
      case (Inr result)
      show thesis
      proof (cases "r' = r \<or> r' = r1")
        case True
        with a show thesis by (auto intro: same applied)
      next
        case False
        with eq f Inr have "closeConflict now conflictID input result r1 = (res, r')" by (auto split: if_splits)
        with a Inr show thesis by (intro closed) auto
      qed
    qed
  qed
qed

text \<open>
  C12. The store stays sound. Writing, undoing and resolving conflicts keep every cell under
  its own coordinates, once and not empty, the versions of the log strictly increasing and
  none beyond the workbook's version, and every remembered answer an original one, no newer
  than the workbook; and every sheet keeps its workbook.
\<close>

theorem cell_store_invariant:
  assumes "workbooks_ok r"
  shows "workbooks_ok (snd (ApplyCells en ids now mutation r)) \<and>
    workbooks_ok (snd (UndoOperation en ids now undo r)) \<and>
    workbooks_ok (snd (ResolveCellConflict en ids now conflictID resolve r))"
proof (intro conjI)
  show "workbooks_ok (snd (ApplyCells en ids now mutation r))"
    using ApplyCells_keeps [OF assms] by (metis prod.collapse)
  show "workbooks_ok (snd (UndoOperation en ids now undo r))"
    using UndoOperation_keeps [OF assms] by (metis prod.collapse)
  obtain res r' where r: "ResolveCellConflict en ids now conflictID resolve r = (res, r')" by (rule prod.exhaust)
  then have "workbooks_ok r'"
    by (cases rule: ResolveCellConflict_cases) (use assms ApplyCells_keeps closeConflict_keeps in blast)+
  with r show "workbooks_ok (snd (ResolveCellConflict en ids now conflictID resolve r))" by simp
qed

section \<open>Examples\<close>

text \<open>
  An engine without styles, tables and validations: recalculation refuses a cell submitted
  twice and otherwise writes what was submitted. The style \<open>m\<close> stands for a merge of A1:B1.
\<close>

definition plain_engine :: "unit engine" where
  "plain_engine =
     \<lparr>enValidateStylePatch = (\<lambda>_. Inr ()), enValidateBorderCommand = (\<lambda>_. Inr ()), enValidateCellStyle = (\<lambda>_. Inr ()),
      enFormatStyle = (\<lambda>_ patch _ _ _. Inr patch), enStylesEqual = (\<lambda>a b. a = b),
      enCellMerge = (\<lambda>style _ _. Inr (if style = ''m''
        then Some \<lparr>mgStartRow = 1, mgStartColumn = 1, mgEndRow = 1, mgEndColumn = 2\<rparr> else None)),
      enDropMerge = (\<lambda>_. Inr []), enGrowTables = (\<lambda>others _ _ _ _ _. others),
      enRecalculate = (\<lambda>_ _ _ inputs. if distinct (map coordinate inputs) then Inr (inputs, [], []) else Inl ErrInvalid),
      enValidateCells = (\<lambda>_ _ _ _ _. Inr [])\<rparr>"

lemma find_distinct:
  "distinct (map f xs) \<Longrightarrow> x \<in> set xs \<Longrightarrow> List.find (\<lambda>y. f y = f x) xs = Some x"
  by (induction xs) (auto simp: image_iff)

lemma plain_keeps_literals: "keeps_literals plain_engine"
proof -
  have "map_option (cell_written sheetID 0) (final_input sheetID effective (sheetID, coordinate input)) =
      Some (cell_written sheetID 0 input)"
    if d: "distinct (map coordinate effective)" and i: "input \<in> set effective" and s: "ciSheetID input = sheetID"
    for sheetID effective input
  proof -
    have "inj_on coordinate (set effective)" using d by (simp add: distinct_map)
    then have "distinct (map (scoped_key sheetID) (rev effective))"
      using d by (auto simp: distinct_map inj_on_def scoped_key_def coordinate_def)
    from find_distinct [OF this] i have "final_input sheetID effective (scoped_key sheetID input) = Some input"
      by (simp add: final_input_def)
    moreover have "scoped_key sheetID input = (sheetID, coordinate input)"
      using s by (simp add: scoped_key_def target_sheet_def coordinate_def)
    ultimately show ?thesis by simp
  qed
  then show ?thesis unfolding keeps_literals_def plain_engine_def by (auto split: if_splits)
qed

definition demo_cell :: "int \<Rightarrow> int \<Rightarrow> string \<Rightarrow> string \<Rightarrow> Cell" where
  "demo_cell row column val note = zeroCell\<lparr>ceSheetID := ''s'', ceRow := row, ceColumn := column, ceValue := val, ceNote := note\<rparr>"

definition demo_store :: "sheet_cells \<Rightarrow> (string \<times> ProtectedRange) list \<Rightarrow> unit cell_store" where
  "demo_store cells rules =
     \<lparr>crSheetToWB = [''s'' \<mapsto> ''w'', ''t'' \<mapsto> ''w''],
      crWorkbooks = [(''w'', \<lparr>wsID = ''w'', wsOwnerID = ''olga'', wsVersion = 1, wsUpdatedAt = 0,
        wsCells = (\<lambda>s. if s = ''s'' then cells else []), wsOperations = [], wsIdempotent = []\<rparr>)],
      crProtections = rules, crConflicts = [], crOthers = ()\<rparr>"

definition demo_input :: "int \<Rightarrow> int \<Rightarrow> string \<Rightarrow> CellInput" where
  "demo_input row column val = \<lparr>ciSheetID = [], ciRow = row, ciColumn = column, ciValue = val, ciFormula = [],
     ciStyle = [], ciNote = [], ciSpillSource = []\<rparr>"

definition demo_write :: "string \<Rightarrow> string \<Rightarrow> CellInput list \<Rightarrow> CellMutation" where
  "demo_write actor key cells = \<lparr>cmSheetID = ''s'', cmActorID = actor, cmClientID = actor, cmBaseVersion = 1,
     cmIdempotencyKey = key, cmCells = cells, cmStylePatch = [], cmNotePatch = None, cmBorder = None,
     cmExpected = None, cmOperationType = [], cmUndoOfOperationID = [], cmRequireExactVersion = False\<rparr>"

definition demo_ids :: "string \<Rightarrow> fresh_ids" where
  "demo_ids name = \<lparr>fiOperation = name, fiConflict = (\<lambda>_. name @ ''-c'')\<rparr>"

abbreviation demo_apply :: "string \<Rightarrow> CellMutation \<Rightarrow> unit cell_store \<Rightarrow> MutationResult result \<times> unit cell_store" where
  "demo_apply name mutation r \<equiv> ApplyCells plain_engine (demo_ids name) 5 mutation r"

definition demo_undo :: "string \<Rightarrow> string \<Rightarrow> UndoOperationInput" where
  "demo_undo actor opID = \<lparr>uoOperationID = opID, uoActorID = actor, uoClientID = actor, uoIdempotencyKey = ''u''\<rparr>"

text \<open>Bob and Ann both start from version 1 and write A1; Bob is first.\<close>

definition demo0 :: "unit cell_store" where
  "demo0 = demo_store [((1, 1), demo_cell 1 1 ''1'' [])] []"
definition demo1 :: "unit cell_store" where
  "demo1 = snd (demo_apply ''o1'' (demo_write ''bob'' ''k'' [demo_input 1 1 ''5'']) demo0)"
definition demo2 :: "unit cell_store" where
  "demo2 = snd (demo_apply ''o2'' (demo_write ''ann'' ''k'' [demo_input 1 1 ''7'', demo_input 2 1 ''8'']) demo1)"

definition demo_state :: "unit cell_store \<Rightarrow> workbook_state" where
  "demo_state r = snd (projr (sheetState r ''s''))"

definition demo_value :: "unit cell_store \<Rightarrow> int \<Rightarrow> int \<Rightarrow> string" where
  "demo_value r row column = ceValue (cell_at (wsCells (demo_state r) ''s'') (row, column))"

lemma demo_store_ok: "cells_ok ''s'' cells \<Longrightarrow> workbooks_ok (demo_store cells rules)"
  by (auto simp: workbooks_ok_def demo_store_def ran_def state_ok_def history_ok_def answers_ok_def cells_ok_def)

lemma demo0_ok: "workbooks_ok demo0"
proof -
  have "\<not> isEmptyCell (demo_cell 1 1 ''1'' [])" by code_simp
  then have "cells_ok ''s'' [((1, 1), demo_cell 1 1 ''1'' [])]"
    by (simp add: cells_ok_def) (simp add: demo_cell_def)
  then show ?thesis unfolding demo0_def by (rule demo_store_ok)
qed

lemma demo1_ok: "workbooks_ok demo1"
  unfolding demo1_def by (rule ApplyCells_keeps [OF demo0_ok]) (rule prod.collapse [symmetric])

lemma demo2_ok: "workbooks_ok demo2"
  unfolding demo2_def by (rule ApplyCells_keeps [OF demo1_ok]) (rule prod.collapse [symmetric])

lemma demo_values: "demo_value demo1 1 1 = ''5''" "demo_value demo2 1 1 = ''7''" "demo_value demo2 2 1 = ''8''"
  by code_simp+


lemma demo_steps:
  "is_ok (fst (demo_apply ''o1'' (demo_write ''bob'' ''k'' [demo_input 1 1 ''5'']) demo0))"
  "is_ok (fst (demo_apply ''o2'' (demo_write ''ann'' ''k'' [demo_input 1 1 ''7'', demo_input 2 1 ''8'']) demo1))"
  "is_ok (sheetState demo0 ''s'')" "is_ok (sheetState demo1 ''s'')" "is_ok (sheetState demo2 ''s'')"
  "fst (projr (sheetState demo0 ''s'')) = ''w''" "fst (projr (sheetState demo1 ''s'')) = ''w''"
  "fst (projr (sheetState demo2 ''s'')) = ''w''"
  "wsVersion (demo_state demo0) = 1" "wsVersion (demo_state demo1) = 2" "wsVersion (demo_state demo2) = 3"
  by code_simp+

lemma is_ok_Inr: "is_ok x \<Longrightarrow> x = Inr (projr x)"
  by (cases x) simp_all

lemma demo_sheet: "is_ok (sheetState r ''s'') \<Longrightarrow> fst (projr (sheetState r ''s'')) = ''w'' \<Longrightarrow>
  sheetState r ''s'' = Inr (''w'', demo_state r)"
  unfolding demo_state_def by (metis is_ok_Inr prod.collapse)

lemmas demo_sheets = demo_sheet [OF demo_steps(3,6)] demo_sheet [OF demo_steps(4,7)] demo_sheet [OF demo_steps(5,8)]

lemma demo_result: "is_ok (fst (demo_apply name mutation r)) \<Longrightarrow>
  demo_apply name mutation r = (Inr (projr (fst (demo_apply name mutation r))), snd (demo_apply name mutation r))"
  by (metis is_ok_Inr prod.collapse)

definition ann_write :: CellMutation where
  "ann_write = demo_write ''ann'' ''k'' [demo_input 1 1 ''7'', demo_input 2 1 ''8'']"

definition ann_result :: MutationResult where
  "ann_result = projr (fst (demo_apply ''o2'' ann_write demo1))"

lemma ann_applied: "demo_apply ''o2'' ann_write demo1 = (Inr ann_result, demo2)"
  using demo_result [OF demo_steps(2)] unfolding ann_result_def ann_write_def demo2_def .

lemma ann_sheet: "cmSheetID ann_write = ''s''"
  by (simp add: ann_write_def demo_write_def)

lemma ann_logged: "logged (demo_state demo1) ann_result (demo_state demo2)"
  using ApplyCells_recorded [OF demo1_ok ann_applied] demo_sheets(2,3) demo_steps(10,11)
  by (simp add: ann_sheet)

theorem write_is_logged_witness:
  "\<exists>after. sheetState demo2 ''s'' = Inr (''w'', after) \<and>
    (same_cells (demo_state demo1) after \<or> logged (demo_state demo1) ann_result after)"
  using write_is_logged [OF demo1_ok ann_applied, unfolded ann_sheet, OF demo_sheets(2)] by blast


theorem conflicts_are_exact_witness:
  "map (\<lambda>c. (cfRow c, cfColumn c)) (mrConflicts ann_result) = [(1, 1)]"
proof -
  have e: "cmExpected ann_write = None" "1 \<le> cmBaseVersion ann_write"
    by (simp_all add: ann_write_def demo_write_def)
  have "filter (\<lambda>key. changed_by_others (wsOperations (demo_state demo1)) ''s'' key (cmBaseVersion ann_write)
        (cmActorID ann_write) (cmClientID ann_write) \<noteq> [])
      (map coordinate (fst (rebaseCellInputs (cmCells ann_write)
        (memoryStructuralChangesSince (wsOperations (demo_state demo1)) ''s'' (cmBaseVersion ann_write))))) = [(1, 1)]"
    by code_simp
  with conflicts_are_exact [OF demo1_ok ann_applied _ _ ann_logged e] demo_sheets(2,3) show ?thesis
    unfolding ann_sheet by simp
qed

theorem cell_store_invariant_witness:
  "workbooks_ok (snd (UndoOperation plain_engine (demo_ids ''o3'') 9 (demo_undo ''ann'' ''o2'') demo2))"
  using cell_store_invariant [OF demo2_ok] by blast

text \<open>Ann undoes her write: A1 goes back to Bob's value.\<close>

definition undone :: "unit cell_store" where
  "undone = snd (UndoOperation plain_engine (demo_ids ''o3'') 9 (demo_undo ''ann'' ''o2'') demo2)"

definition undone_result :: MutationResult where
  "undone_result = projr (fst (UndoOperation plain_engine (demo_ids ''o3'') 9 (demo_undo ''ann'' ''o2'') demo2))"

definition ann_op :: operation where
  "ann_op = last (wsOperations (demo_state demo2))"

lemma undone_facts:
  "is_ok (fst (UndoOperation plain_engine (demo_ids ''o3'') 9 (demo_undo ''ann'' ''o2'') demo2))"
  "is_ok (sheetState undone ''s'')" "fst (projr (sheetState undone ''s'')) = ''w''"
  "wsVersion (demo_state undone) = 4"
  "memoryStructuralChangesSince (wsOperations (demo_state demo2)) ''s'' (mrServerVersion (opResult ann_op)) = []"
  "mrSheetID (opResult ann_op) = ''s''" "mrUnmergedRanges undone_result = []"
  "undo_coordinates ann_op = [(1, 1), (2, 1)]" "still_there ann_op (demo_state demo2) (1, 1)"
  "literal (undo_input ann_op (1, 1))" "ceValue (cell_at (opBefore ann_op) (''s'', 1, 1)) = ''5''"
  by code_simp+

lemma undo_target_ann: "undo_target (demo_undo ''ann'' ''o2'') demo2 = Some ann_op"
  by code_simp

lemma undo_recorded:
  assumes "workbooks_ok r" "undo_target input r = Some target"
    and "UndoOperation en ids now input r = (Inr result, r')" "sheet = mrSheetID (opResult target)"
    and "sheetState r sheet = Inr (workbookID, before)" "sheetState r' sheet = Inr (workbookID, after)"
    and "wsVersion after \<noteq> wsVersion before"
  shows "logged before result after"
proof -
  have s: "cmSheetID (undoMutation input target) = sheet" by (simp add: undoMutation_def Let_def assms(4))
  have "ApplyCells en ids now (undoMutation input target) r = (Inr result, r')"
    by (rule UndoOperation_ApplyCells [of en ids now input r]) (use assms(2,3) in auto)
  from ApplyCells_recorded [OF assms(1) this assms(5,6) [folded s] assms(7)] show ?thesis .
qed

lemma undone_applied:
  "UndoOperation plain_engine (demo_ids ''o3'') 9 (demo_undo ''ann'' ''o2'') demo2 = (Inr undone_result, undone)"
  using undone_facts(1) unfolding undone_result_def undone_def by (metis is_ok_Inr prod.collapse)

lemmas undone_sheet = demo_sheet [OF undone_facts(2,3)]

lemma undone_logged: "logged (demo_state demo2) undone_result (demo_state undone)"
  by (rule undo_recorded [OF demo2_ok undo_target_ann undone_applied undone_facts(6) [symmetric] demo_sheets(3) undone_sheet])
    (simp add: undone_facts(4) demo_steps(11))

theorem undo_spares_later_changes_witness:
  "map (\<lambda>c. (cfRow c, cfColumn c)) (mrConflicts undone_result) =
     filter (\<lambda>key. \<not> still_there ann_op (demo_state demo2) key) [(1, 1), (2, 1)]"
  using undo_spares_later_changes [OF demo2_ok undo_target_ann undone_applied undone_facts(6) [symmetric]
    demo_sheets(3) undone_sheet undone_logged undone_facts(5)] unfolding undone_facts(8) by blast


text \<open>With B5 locked for everyone but its owner, Bob can still write A1.\<close>

definition locked0 :: "unit cell_store" where
  "locked0 = demo_store [] [(''p'', sample_rule ''p'' ''range'' ''B5:B5'' False)]"
definition bob_write :: CellMutation where
  "bob_write = demo_write ''bob'' ''k'' [demo_input 1 1 ''5'']"
definition locked1 :: "unit cell_store" where
  "locked1 = snd (demo_apply ''o1'' bob_write locked0)"

lemma locked_facts:
  "is_ok (fst (demo_apply ''o1'' bob_write locked0))" "is_ok (sheetState locked0 ''s'')" "is_ok (sheetState locked1 ''s'')"
  "fst (projr (sheetState locked0 ''s'')) = ''w''" "fst (projr (sheetState locked1 ''s'')) = ''w''"
  "wsVersion (demo_state locked0) = 1" "wsVersion (demo_state locked1) = 2"
  "sheetProtections (crProtections locked0) ''s'' = [sample_rule ''p'' ''range'' ''B5:B5'' False]"
  "opSubmitted (last (wsOperations (demo_state locked1))) = [\<lparr>ccSheetID = [], ccRow = 1, ccColumn = 1\<rparr>]"
  "fst (demo_apply ''o1'' (demo_write ''bob'' ''k'' [demo_input 1 1 ''5'', demo_input 5 2 ''5'']) locked0) = Inl ProtectionFailure"
  "cmSheetID bob_write = ''s''" "cmActorID bob_write = ''bob''" "wsOwnerID (demo_state locked0) = ''olga''"
  by code_simp+

theorem locked_cells_not_written_witness:
  "\<not> stands_in_the_way ''bob'' ''olga'' (sample_rule ''p'' ''range'' ''B5:B5'' False) 1 1"
proof -
  have ok: "workbooks_ok locked0" unfolding locked0_def by (rule demo_store_ok) (simp add: cells_ok_def)
  have a: "demo_apply ''o1'' bob_write locked0 = (Inr (projr (fst (demo_apply ''o1'' bob_write locked0))), locked1)"
    using demo_result [OF locked_facts(1)] unfolding locked1_def .
  note s = demo_sheet [OF locked_facts(2,4)] demo_sheet [OF locked_facts(3,5)]
  have l: "logged (demo_state locked0) (projr (fst (demo_apply ''o1'' bob_write locked0))) (demo_state locked1)"
    by (rule ApplyCells_recorded [OF ok a, unfolded locked_facts(11), OF s]) (simp add: locked_facts(6,7))
  have "\<not> prWarningOnly (sample_rule ''p'' ''range'' ''B5:B5'' False)" by (simp add: sample_rule_def)
  with locked_cells_not_written [OF ok a, unfolded locked_facts(11), OF s l] show ?thesis
    by (simp add: locked_facts(8,9,12,13))
qed

section \<open>Where the code falls short\<close>

text \<open>
  A structural change of another sheet is taken for a conflict: \<^verbatim>\<open>latestChange\<close> counts
  structural operations of the whole workbook, whichever sheet they changed.
\<close>

lemma other_sheet_counts_as_conflict:
  assumes "opStructural item" "foreign_op base actor client item"
  shows "latestChange [item] sheetID key base actor client = mrServerVersion (opResult item)"
  using assms by (simp add: latestChange_def)

text \<open>
  Keeping the current cell erases its note: the snapshot a conflict is resolved with has no
  note, and writing it writes an empty one. Restoring the previous cell is refused as soon as
  the cell has a note, even though nothing else has changed.
\<close>

definition noted :: "unit cell_store" where
  "noted = snd (demo_apply ''o4'' ((demo_write ''bob'' ''n'' [demo_input 1 1 []])\<lparr>cmNotePatch := Some ''why?'', cmBaseVersion := 3\<rparr>) demo2)"

definition demo_resolve :: "string \<Rightarrow> ResolveCellConflictInput" where
  "demo_resolve resolution = \<lparr>rvActorID = ''ann'', rvClientID = ''ann'', rvIdempotencyKey = ''r'', rvExpectedRevision = 1,
     rvResolution = resolution\<rparr>"

lemma keeping_current_erases_note:
  "ceNote (cell_at (wsCells (demo_state noted) ''s'') (1, 1)) = ''why?'' \<and>
   (let kept = ResolveCellConflict plain_engine (demo_ids ''o5'') 9 ''o2-c'' (demo_resolve ConflictKeepCurrent) noted in
    is_ok (fst kept) \<and> ceNote (cell_at (wsCells (demo_state (snd kept)) ''s'') (1, 1)) = []) \<and>
   fst (ResolveCellConflict plain_engine (demo_ids ''o5'') 9 ''o2-c'' (demo_resolve ConflictRestorePrevious) noted) =
     Inl ErrVersionConflict"
  by code_simp

text \<open>
  A resolution can be carried out and reported as failed: restoring the unmerged content of a
  cell that has been merged since dissolves the merge, so that the write applies two cells
  instead of one; the code takes this for a conflict and answers with an error, while the
  cell has been restored and the conflict stays open.
\<close>

definition merged :: "unit cell_store" where
  "merged = snd (demo_apply ''o2'' (demo_write ''ann'' ''k'' [(demo_input 1 1 ''7'')\<lparr>ciStyle := ''m''\<rparr>,
     (demo_input 1 2 ''8'')\<lparr>ciStyle := ''m''\<rparr>]) demo1)"

lemma resolution_applied_but_refused:
  "(let restored = ResolveCellConflict plain_engine (demo_ids ''o5'') 9 ''o2-c'' (demo_resolve ConflictRestorePrevious) merged in
    fst restored = Inl ErrVersionConflict \<and> demo_value merged 1 1 = ''7'' \<and> demo_value (snd restored) 1 1 = ''5'' \<and>
    map_option cfStatus (map_of (crConflicts (snd restored)) ''o2-c'') = Some ConflictStatusOpen)"
  by code_simp

text \<open>
  An operation cannot be undone once a row has been inserted above it: the cells to write are
  rebased to where they are now, the contents to compare them with are looked up where they
  were, and the undo is refused as invalid.
\<close>

definition inserted_above :: "unit cell_store \<Rightarrow> unit cell_store" where
  "inserted_above r =
     r\<lparr>crWorkbooks := [(''w'', (demo_state r)\<lparr>wsVersion := 4,
       wsCells := (\<lambda>s. map (\<lambda>((row, column), cell). ((row + 1, column), cell\<lparr>ceRow := row + 1\<rparr>)) (wsCells (demo_state r) s)),
       wsOperations := wsOperations (demo_state r) @
         [\<lparr>opResult = zeroResult\<lparr>mrOperationID := ''i'', mrSheetID := ''s'', mrServerVersion := 4, mrStructuralAxis := ''row'',
            mrStructuralAction := ''insert'', mrStructuralIndex := 1, mrStructuralCount := 1\<rparr>,
           opBefore = [], opAfter = [], opSubmitted = [], opActorID = ''bob'', opClientID = ''bob'',
           opOperationType = ''structure'', opUndoOf = [], opStructural = True\<rparr>]\<rparr>)]\<rparr>"

lemma undo_refused_after_insert:
  "demo_value (inserted_above demo2) 2 1 = ''7'' \<and>
   fst (UndoOperation plain_engine (demo_ids ''o3'') 9 (demo_undo ''ann'' ''o2'') (inserted_above demo2)) = Inl ErrInvalid"
  by code_simp

end
