(* ===== verification/Spill.thy ===== *)
theory Spill
  imports CellWrites
begin

text \<open>
  Merged cells and arrays that a formula spills: \<^verbatim>\<open>CellMerge\<close> and \<^verbatim>\<open>BuildMergeCells\<close> of
  \<^verbatim>\<open>internal/workbook/merge.go\<close>, and \<^verbatim>\<open>materializeSpill\<close> of \<^verbatim>\<open>recalculation.go\<close> with what it
  clears and reports. The cells of a sheet are an association list with distinct keys; what the
  source gives in the order of a Go map is used as a set there, and is given in the order of
  the list here. Decoding and encoding JSON are arguments.
\<close>

section \<open>Merged cells\<close>

text \<open>The merge a style holds, unchecked, and the style with the merge set or removed.\<close>

record merge_codec =
  mcRead :: "string \<Rightarrow> MergeMetadata option result"
  mcSet :: "string \<Rightarrow> MergeMetadata option \<Rightarrow> string result"

definition merge_range :: "MergeMetadata \<Rightarrow> Range" where
  "merge_range m =
     \<lparr>Start = \<lparr>Row = mgStartRow m, Column = mgStartColumn m\<rparr>, End = \<lparr>Row = mgEndRow m, Column = mgEndColumn m\<rparr>\<rparr>"

definition mergeMetadataFor :: "Range \<Rightarrow> MergeMetadata" where
  "mergeMetadataFor selected =
     \<lparr>mgStartRow = Row (Start selected), mgStartColumn = Column (Start selected),
      mgEndRow = Row (End selected), mgEndColumn = Column (End selected)\<rparr>"

definition sameMerge :: "MergeMetadata \<Rightarrow> Range \<Rightarrow> bool" where
  "sameMerge metadata selected = (metadata = mergeMetadataFor selected)"

definition CellMerge :: "merge_codec \<Rightarrow> Cell \<Rightarrow> MergeMetadata option result" where
  "CellMerge mc cell =
     (if trim_space (ceStyle cell) = [] then Inr None
      else bind_result (mcRead mc (ceStyle cell)) (\<lambda>stored.
        case stored of
          None \<Rightarrow> Inr None
        | Some m \<Rightarrow>
            if mgStartRow m < 1 \<or> mgStartColumn m < 1 \<or> mgEndRow m < mgStartRow m \<or> mgEndColumn m < mgStartColumn m \<or>
               \<not> Contains (merge_range m) (ceRow cell) (ceColumn cell)
            then Inl ErrInvalid else Inr (Some m)))"

definition setMergeMetadata :: "merge_codec \<Rightarrow> string \<Rightarrow> MergeMetadata \<Rightarrow> bool \<Rightarrow> string result" where
  "setMergeMetadata mc current metadata merge = mcSet mc current (if merge then Some metadata else None)"

text \<open>The last of the cells given for a coordinate, as the loop that fills the map leaves it.\<close>

definition cell_in :: "Cell list \<Rightarrow> cellKey \<Rightarrow> Cell" where
  "cell_in existing key = cell_at (rev (map (\<lambda>cell. ((ceRow cell, ceColumn cell), cell)) existing)) key"

definition mergeInput :: "merge_codec \<Rightarrow> Cell list \<Rightarrow> Range \<Rightarrow> bool \<Rightarrow> cellKey \<Rightarrow> CellInput result" where
  "mergeInput mc existing selected merge key =
     (let current = cell_in existing key in
      if ceSpillSource current \<noteq> [] then Inl ErrInvalid
      else bind_result (CellMerge mc current) (\<lambda>stored.
        if (case stored of None \<Rightarrow> False | Some m \<Rightarrow> \<not> sameMerge m selected) then Inl ErrInvalid
        else bind_result (setMergeMetadata mc (ceStyle current) (mergeMetadataFor selected) merge) (\<lambda>style.
          Inr \<lparr>ciSheetID = [], ciRow = fst key, ciColumn = snd key, ciValue = ceValue current, ciFormula = ceFormula current,
            ciStyle = style, ciNote = [], ciSpillSource = ceSpillSource current\<rparr>)))"

fun collect :: "('a \<Rightarrow> 'b result) \<Rightarrow> 'a list \<Rightarrow> 'b list result" where
  "collect f [] = Inr []"
| "collect f (x # xs) = bind_result (f x) (\<lambda>y. bind_result (collect f xs) (\<lambda>ys. Inr (y # ys)))"

definition BuildMergeCells :: "merge_codec \<Rightarrow> Cell list \<Rightarrow> Range \<Rightarrow> bool \<Rightarrow> CellInput list result" where
  "BuildMergeCells mc existing selected merge =
     (let rows = Row (End selected) - Row (Start selected) + 1;
          columns = Column (End selected) - Column (Start selected) + 1;
          most = int MaxPasteCells in
      if rows < 1 \<or> columns < 1 \<or> rows > most \<or> columns > most \<or> rows > most div columns then Inl ErrInvalid
      else if merge \<and> rows = 1 \<and> columns = 1 then Inl ErrInvalid
      else collect (mergeInput mc existing selected merge) (merge_cells (mergeMetadataFor selected)))"

section \<open>What a formula spilled\<close>

text \<open>The cell without its value, and nothing where that leaves nothing.\<close>

definition emptied :: "Cell \<Rightarrow> Cell" where
  "emptied cell = cell\<lparr>ceValue := [], ceFormula := [], ceSpillSource := []\<rparr>"

definition put_cell :: "cellKey \<Rightarrow> Cell \<Rightarrow> sheet_cells \<Rightarrow> sheet_cells" where
  "put_cell key cell cells = (if isEmptyCell cell then AList.delete key cells else AList.update key cell cells)"

definition spillIndex :: "sheet_cells \<Rightarrow> string \<Rightarrow> cellKey list" where
  "spillIndex cells source = (if source = [] then [] else map fst (filter (\<lambda>(key, cell). ceSpillSource cell = source) cells))"

text \<open>The cells that are still there are emptied; their keys are given.\<close>

fun clearSpilledKeys :: "cellKey list \<Rightarrow> sheet_cells \<Rightarrow> sheet_cells \<times> cellKey list" where
  "clearSpilledKeys [] cells = (cells, [])"
| "clearSpilledKeys (key # keys) cells =
     (case map_of cells key of
        None \<Rightarrow> clearSpilledKeys keys cells
      | Some cell \<Rightarrow>
          (case clearSpilledKeys keys (put_cell key (emptied cell) cells) of
             (cells', cleared) \<Rightarrow> (cells', key # cleared)))"

definition clearSpillCells :: "string \<Rightarrow> sheet_cells \<Rightarrow> sheet_cells \<times> cellKey list" where
  "clearSpillCells source cells =
     clearSpilledKeys (map fst (filter (\<lambda>(key, cell). ceSpillSource cell = source) cells)) cells"

section \<open>Placing an array\<close>

record 'v spill_codec = merge_codec +
  scEncode :: "'v \<Rightarrow> string result"
  scQuote :: "string \<Rightarrow> string"

abbreviation merges :: "'v spill_codec \<Rightarrow> merge_codec" where
  "merges \<equiv> merge_codec.truncate"

definition setFormulaError :: "'v spill_codec \<Rightarrow> cellKey \<Rightarrow> string \<Rightarrow> sheet_cells \<Rightarrow> sheet_cells" where
  "setFormulaError T anchor code cells =
     AList.update anchor ((cell_at cells anchor)\<lparr>ceValue := scQuote T code, ceSpillSource := []\<rparr>) cells"

definition spill_source :: "cellKey \<Rightarrow> string" where
  "spill_source anchor = Address (fst anchor) (snd anchor)"

text \<open>The places of an array, row by row, from its anchor.\<close>

definition block :: "cellKey \<Rightarrow> nat \<Rightarrow> nat \<Rightarrow> cellKey list" where
  "block anchor rows columns =
     concat (map (\<lambda>row. map (\<lambda>column. (fst anchor + int row, snd anchor + int column)) [0..<columns]) [0..<rows])"

definition changedSpillKeys :: "sheet_cells \<Rightarrow> sheet_cells \<Rightarrow> cellKey \<Rightarrow> cellKey list" where
  "changedSpillKeys earlier after anchor =
     (let keys = filter (\<lambda>key. key \<noteq> anchor) (map fst earlier) @
            map fst (filter (\<lambda>(key, cell). key \<noteq> anchor \<and> ceSpillSource cell = spill_source anchor) after) in
      filter (\<lambda>key. \<not> cellsEqual (cell_at earlier key) (cell_at after key)) (remdups keys))"

text \<open>The cells an array replaces: what its anchor spilled before, and its places.\<close>

definition spillBefore :: "cellKey \<Rightarrow> cellKey list \<Rightarrow> sheet_cells \<Rightarrow> sheet_cells" where
  "spillBefore anchor places cells =
     (let old = filter (\<lambda>(key, cell). ceSpillSource cell = spill_source anchor) cells in
      old @ map (\<lambda>key. (key, cell_at cells key)) (filter (\<lambda>key. key \<notin> fst ` set old) places))"

fun spillBlocked :: "'v spill_codec \<Rightarrow> cellKey \<Rightarrow> cellKey list \<Rightarrow> sheet_cells \<Rightarrow> string result" where
  "spillBlocked T anchor [] cells = Inr []"
| "spillBlocked T anchor (key # keys) cells =
     (let current = cell_at cells key in
      bind_result (CellMerge (merges T) current) (\<lambda>merged.
        if key = anchor then
          (if merged \<noteq> None then Inr ''array result cannot expand from a merged cell'' else spillBlocked T anchor keys cells)
        else if trim_space (ceValue current) \<noteq> [] \<or> ceFormula current \<noteq> [] \<or> ceSpillSource current \<noteq> [] \<or> merged \<noteq> None
        then Inr (''array result would overwrite '' @ spill_source key)
        else spillBlocked T anchor keys cells))"

definition spilled_cell :: "cellKey \<Rightarrow> cellKey \<Rightarrow> string \<Rightarrow> Cell \<Rightarrow> Cell" where
  "spilled_cell anchor key encoded current =
     (let cell = current\<lparr>ceRow := fst key, ceColumn := snd key, ceValue := encoded\<rparr> in
      if key = anchor then cell\<lparr>ceSpillSource := []\<rparr>
      else cell\<lparr>ceFormula := [], ceSpillSource := spill_source anchor\<rparr>)"

fun placeSpill :: "'v spill_codec \<Rightarrow> cellKey \<Rightarrow> (cellKey \<times> 'v) list \<Rightarrow> sheet_cells \<Rightarrow> sheet_cells result" where
  "placeSpill T anchor [] cells = Inr cells"
| "placeSpill T anchor ((key, value) # rest) cells =
     bind_result (scEncode T value) (\<lambda>encoded.
       placeSpill T anchor rest (AList.update key (spilled_cell anchor key encoded (cell_at cells key)) cells))"

definition exceeds :: string where
  "exceeds = ''array result exceeds '' @ itoa (int MaxPasteCells) @ '' cells''"

text \<open>The cells after, the keys that changed beside the anchor, and why the array is not shown, if it is not.\<close>

definition materializeSpill ::
  "'v spill_codec \<Rightarrow> cellKey \<Rightarrow> 'v list list \<Rightarrow> sheet_cells \<Rightarrow> (sheet_cells \<times> cellKey list \<times> string) result" where
  "materializeSpill T anchor matrix cells =
     (let rows = length matrix; columns = (case matrix of [] \<Rightarrow> 0 | row # _ \<Rightarrow> length row) in
      if rows = 0 then Inr (cells, [], ''array result is empty'')
      else if columns = 0 \<or> rows > MaxPasteCells \<or> columns > MaxPasteCells \<or> rows > MaxPasteCells div columns
      then Inr (cells, [], exceeds)
      else if list_ex (\<lambda>row. length row \<noteq> columns) matrix then Inr (cells, [], ''array result is not rectangular'')
      else if fst anchor + int rows - 1 > MaxRows \<or> snd anchor + int columns - 1 > MaxColumns
      then Inr (cells, [], ''array result exceeds the sheet boundary'')
      else
        let places = block anchor rows columns;
            earlier = spillBefore anchor places cells;
            cells = fst (clearSpillCells (spill_source anchor) cells) in
        bind_result (if rows * columns > 1 then spillBlocked T anchor places cells else Inr []) (\<lambda>message.
          if message \<noteq> [] then
            (let cells = setFormulaError T anchor ''#SPILL!'' cells in
             Inr (cells, changedSpillKeys earlier cells anchor, message))
          else bind_result (placeSpill T anchor (zip places (concat matrix)) cells) (\<lambda>cells.
            Inr (cells, changedSpillKeys earlier cells anchor, []))))"

section \<open>What is cleared\<close>

definition cleared_cell :: "Cell \<Rightarrow> Cell" where
  "cleared_cell cell = (if isEmptyCell (emptied cell) then zeroCell else emptied cell)"

lemma emptied_zero [simp]: "emptied zeroCell = zeroCell" "isEmptyCell zeroCell"
  by (simp_all add: emptied_def zeroCell_def isEmptyCell_def)

lemma emptied_twice [simp]: "emptied (emptied cell) = emptied cell"
  by (simp add: emptied_def)

lemma cleared_simps [simp]:
  "cleared_cell zeroCell = zeroCell" "cleared_cell (emptied cell) = cleared_cell cell" "cleared_cell (cleared_cell cell) = cleared_cell cell"
  by (simp_all add: cleared_cell_def)

lemma cleared_fields [simp]:
  "ceValue (cleared_cell cell) = []" "ceFormula (cleared_cell cell) = []" "ceSpillSource (cleared_cell cell) = []"
  "trim_space (ceStyle (cleared_cell cell)) = trim_space (ceStyle cell)" "ceNote (cleared_cell cell) = ceNote cell"
  by (auto simp: cleared_cell_def emptied_def isEmptyCell_def zeroCell_def)

lemma cell_at_put [simp]:
  "cell_at (put_cell key cell cells) k = (if k = key then (if isEmptyCell cell then zeroCell else cell) else cell_at cells k)"
  by (simp add: cell_at_def put_cell_def update_conv' delete_conv')

lemma cell_at_update [simp]: "cell_at (AList.update key cell cells) k = (if k = key then cell else cell_at cells k)"
  by (simp add: cell_at_def update_conv')

lemma put_cell_distinct [simp]: "distinct (map fst cells) \<Longrightarrow> distinct (map fst (put_cell key cell cells))"
  by (simp add: put_cell_def distinct_update distinct_delete)

lemma put_cell_keys: "fst ` set (put_cell key cell cells) \<subseteq> insert key (fst ` set cells)"
  by (auto simp: put_cell_def delete_filter dom_update)

lemma clearSpilledKeys_cells:
  "cell_at (fst (clearSpilledKeys keys cells)) k = (if k \<in> set keys then cleared_cell (cell_at cells k) else cell_at cells k)"
proof (induction keys cells rule: clearSpilledKeys.induct)
  case (2 key keys cells)
  show ?case
  proof (cases "map_of cells key")
    case None
    then have "cell_at cells key = zeroCell" by (simp add: cell_at_def)
    with None 2 show ?thesis by auto
  next
    case (Some cell)
    then have "cell_at cells key = cell" by (simp add: cell_at_def)
    with Some 2(2) [OF Some] show ?thesis
      by (auto simp: case_prod_beta) (auto simp: cleared_cell_def)
  qed
qed simp

lemma clearSpilledKeys_distinct: "distinct (map fst cells) \<Longrightarrow> distinct (map fst (fst (clearSpilledKeys keys cells)))"
  by (induction keys cells rule: clearSpilledKeys.induct) (auto simp: case_prod_beta split: option.split)

lemma clearSpilledKeys_keys: "fst ` set (fst (clearSpilledKeys keys cells)) \<subseteq> fst ` set cells"
proof (induction keys cells rule: clearSpilledKeys.induct)
  case (2 key keys cells)
  show ?case
  proof (cases "map_of cells key")
    case (Some cell)
    then have "key \<in> fst ` set cells" by (metis map_of_eq_None_iff option.distinct(1))
    with 2(2) [OF Some] Some put_cell_keys [of key "emptied cell" cells] show ?thesis
      by (auto simp: case_prod_beta)
  qed (use 2(1) in simp)
qed simp

lemma clearSpilledKeys_cleared: "snd (clearSpilledKeys keys cells) = filter (\<lambda>key. map_of cells key \<noteq> None) keys" if "distinct keys"
  using that
proof (induction keys cells rule: clearSpilledKeys.induct)
  case (2 key keys cells)
  show ?case
  proof (cases "map_of cells key")
    case (Some cell)
    have "filter (\<lambda>k. map_of (put_cell key (emptied cell) cells) k \<noteq> None) keys = filter (\<lambda>k. map_of cells k \<noteq> None) keys"
      using 2(3) by (intro filter_cong) (auto simp: put_cell_def update_conv' delete_conv')
    with 2(2) [OF Some] 2(3) Some show ?thesis by (auto simp: case_prod_beta)
  qed (use 2 in simp)
qed simp

text \<open>The cells of a sheet once what an address spilled is cleared.\<close>

definition after_clear :: "string \<Rightarrow> sheet_cells \<Rightarrow> cellKey \<Rightarrow> Cell" where
  "after_clear source cells key =
     (if ceSpillSource (cell_at cells key) = source then cleared_cell (cell_at cells key) else cell_at cells key)"

lemma from_source:
  "distinct (map fst cells) \<Longrightarrow> source \<noteq> [] \<Longrightarrow>
   key \<in> fst ` set (filter (\<lambda>(key, cell). ceSpillSource cell = source) cells) \<longleftrightarrow> ceSpillSource (cell_at cells key) = source"
proof -
  assume a: "distinct (map fst cells)" "source \<noteq> []"
  have "ceSpillSource (cell_at cells key) = source \<longleftrightarrow> (\<exists>cell. map_of cells key = Some cell \<and> ceSpillSource cell = source)"
    using a(2) by (auto simp: cell_at_def zeroCell_def split: option.split)
  then show ?thesis using a(1) by (force simp: image_iff)
qed

lemma clearSpillCells_cells:
  "distinct (map fst cells) \<Longrightarrow> source \<noteq> [] \<Longrightarrow> cell_at (fst (clearSpillCells source cells)) key = after_clear source cells key"
  using from_source [of cells source key]
  by (auto simp: clearSpillCells_def clearSpilledKeys_cells after_clear_def)

lemma clearSpillCells_distinct: "distinct (map fst cells) \<Longrightarrow> distinct (map fst (fst (clearSpillCells source cells)))"
  by (simp add: clearSpillCells_def clearSpilledKeys_distinct)

lemma clearSpillCells_keys: "fst ` set (fst (clearSpillCells source cells)) \<subseteq> fst ` set cells"
  by (simp add: clearSpillCells_def clearSpilledKeys_keys)

lemma clearSpillCells_cleared:
  assumes "distinct (map fst cells)" "source \<noteq> []"
  shows "set (snd (clearSpillCells source cells)) = {key. ceSpillSource (cell_at cells key) = source}"
proof -
  have d: "distinct (map fst (filter (\<lambda>(key, cell). ceSpillSource cell = source) cells))"
    using assms(1) by (rule distinct_map_filter)
  show ?thesis
    unfolding clearSpillCells_def clearSpilledKeys_cleared [OF d]
    using from_source [OF assms] by (force simp: map_of_eq_None_iff)
qed

section \<open>The places of an array\<close>

lemma set_block: "set (block anchor rows columns) = {(fst anchor + int i, snd anchor + int j) |i j. i < rows \<and> j < columns}"
  by (force simp: block_def)

lemma distinct_block: "distinct (block anchor rows columns)"
proof (induction rows)
  case (Suc rows)
  have "distinct (map (\<lambda>column. (fst anchor + int rows, snd anchor + int column)) [0..<columns])"
    by (simp add: distinct_map inj_on_def)
  with Suc show ?case by (auto simp: block_def)
qed (simp add: block_def)

lemma block_zip:
  assumes "\<forall>row \<in> set matrix. length row = columns" "i < length matrix" "j < columns"
  shows "((fst anchor + int i, snd anchor + int j), matrix ! i ! j) \<in> set (zip (block anchor (length matrix) columns) (concat matrix))"
  using assms
proof (induction matrix rule: rev_induct)
  case (snoc row matrix)
  have l: "length (block anchor (length matrix) columns) = length (concat matrix)"
    using snoc.prems(1) by (induction matrix) (simp_all add: block_def length_concat comp_def sum_list_triv)
  have z: "zip (block anchor (length (matrix @ [row])) columns) (concat (matrix @ [row])) =
      zip (block anchor (length matrix) columns) (concat matrix) @
      zip (map (\<lambda>column. (fst anchor + int (length matrix), snd anchor + int column)) [0..<columns]) row"
    using l by (simp add: block_def)
  show ?case
  proof (cases "i < length matrix")
    case True
    with snoc have "((fst anchor + int i, snd anchor + int j), matrix ! i ! j) \<in> set (zip (block anchor (length matrix) columns) (concat matrix))"
      by simp
    with True show ?thesis unfolding z by (simp add: nth_append)
  next
    case False
    with snoc.prems have "i = length matrix" "length row = columns" by simp_all
    with snoc.prems(3) have "((fst anchor + int i, snd anchor + int j), row ! j)
        \<in> set (zip (map (\<lambda>column. (fst anchor + int (length matrix), snd anchor + int column)) [0..<columns]) row)"
      by (auto simp: set_zip intro!: exI [of _ j])
    with \<open>i = length matrix\<close> show ?thesis unfolding z by simp
  qed
qed simp

lemma placeSpill_cells:
  "placeSpill T anchor pairs cells = Inr cells' \<Longrightarrow> distinct (map fst pairs) \<Longrightarrow>
   (case map_of pairs key of
      None \<Rightarrow> cell_at cells' key = cell_at cells key
    | Some value \<Rightarrow> \<exists>encoded. scEncode T value = Inr encoded \<and> cell_at cells' key = spilled_cell anchor key encoded (cell_at cells key))"
proof (induction T anchor pairs cells rule: placeSpill.induct)
  case (2 T anchor k v rest cells)
  obtain encoded where e: "scEncode T v = Inr encoded"
    "placeSpill T anchor rest (AList.update k (spilled_cell anchor k encoded (cell_at cells k)) cells) = Inr cells'"
    using "2.prems"(1) by (auto simp: bind_result_eq_Inr)
  have n: "map_of rest k = None" using "2.prems"(2) by (simp add: map_of_eq_None_iff)
  have ih: "case map_of rest key of
      None \<Rightarrow> cell_at cells' key = cell_at (AList.update k (spilled_cell anchor k encoded (cell_at cells k)) cells) key
    | Some v \<Rightarrow> \<exists>encoded'. scEncode T v = Inr encoded' \<and> cell_at cells' key =
        spilled_cell anchor key encoded' (cell_at (AList.update k (spilled_cell anchor k encoded (cell_at cells k)) cells) key)"
    using "2.IH" [OF e(2)] "2.prems"(2) by simp
  show ?case
  proof (cases "key = k")
    case True
    with ih n e(1) show ?thesis by simp
  next
    case False
    with ih show ?thesis by (simp only: map_of.simps fst_conv fun_upd_apply cell_at_update False if_False)
  qed
qed simp

lemma placeSpill_keys:
  "placeSpill T anchor pairs cells = Inr cells' \<Longrightarrow> fst ` set cells' = fst ` set pairs \<union> fst ` set cells"
proof (induction T anchor pairs cells rule: placeSpill.induct)
  case (2 T anchor k v rest cells)
  then obtain encoded where
    "fst ` set cells' = fst ` set rest \<union> fst ` set (AList.update k (spilled_cell anchor k encoded (cell_at cells k)) cells)"
    by (auto simp only: placeSpill.simps bind_result_eq_Inr)
  then show ?case by (simp add: dom_update)
qed simp

lemma placeSpill_distinct:
  "placeSpill T anchor pairs cells = Inr cells' \<Longrightarrow> distinct (map fst cells) \<Longrightarrow> distinct (map fst cells')"
proof (induction T anchor pairs cells rule: placeSpill.induct)
  case (2 T anchor k v rest cells)
  then show ?case by (auto simp only: placeSpill.simps bind_result_eq_Inr distinct_update)
qed simp

text \<open>A place that an array may not take.\<close>

definition occupied :: "'v spill_codec \<Rightarrow> Cell \<Rightarrow> bool" where
  "occupied T cell =
     (trim_space (ceValue cell) \<noteq> [] \<or> ceFormula cell \<noteq> [] \<or> ceSpillSource cell \<noteq> [] \<or> CellMerge (merges T) cell \<noteq> Inr None)"

definition anchor_merged :: "'v spill_codec \<Rightarrow> Cell \<Rightarrow> bool" where
  "anchor_merged T cell = (CellMerge (merges T) cell \<noteq> Inr None)"

lemma spillBlocked_free:
  "spillBlocked T anchor places cells = Inr message \<Longrightarrow>
   message = [] \<longleftrightarrow> (\<forall>key \<in> set places. if key = anchor then \<not> anchor_merged T (cell_at cells key) else \<not> occupied T (cell_at cells key))"
  by (induction T anchor places cells rule: spillBlocked.induct)
    (auto simp: Let_def bind_result_eq_Inr occupied_def anchor_merged_def split: if_splits)

text \<open>An array of a size that a sheet can show from the anchor.\<close>

definition array_fits :: "cellKey \<Rightarrow> 'v list list \<Rightarrow> bool" where
  "array_fits anchor matrix =
     (matrix \<noteq> [] \<and> (let columns = length (hd matrix) in
        columns \<noteq> 0 \<and> length matrix * columns \<le> MaxPasteCells \<and> (\<forall>row \<in> set matrix. length row = columns) \<and>
        fst anchor + int (length matrix) - 1 \<le> MaxRows \<and> snd anchor + int columns - 1 \<le> MaxColumns))"

definition shown_at :: "cellKey \<Rightarrow> 'v list list \<Rightarrow> cellKey list" where
  "shown_at anchor matrix = block anchor (length matrix) (length (hd matrix))"

lemma quotient_bound:
  assumes "0 < columns" "0 < rows"
  shows "rows > MaxPasteCells \<or> columns > MaxPasteCells \<or> rows > MaxPasteCells div columns \<longleftrightarrow> rows * columns > MaxPasteCells"
proof -
  have q: "rows > MaxPasteCells div columns \<longleftrightarrow> rows * columns > MaxPasteCells"
    using assms(1) by (simp add: div_less_iff_less_mult)
  moreover have "rows \<le> rows * columns" "columns \<le> rows * columns" using assms by simp_all
  ultimately show ?thesis by linarith
qed

lemma materializeSpill_cases:
  assumes "materializeSpill T anchor matrix cells = Inr (cells', changed, message)"
  obtains (large) "\<not> array_fits anchor matrix" "cells' = cells" "changed = []" "message \<noteq> []"
  | (blocked) cleared where "array_fits anchor matrix" "cleared = fst (clearSpillCells (spill_source anchor) cells)"
      "1 < length (shown_at anchor matrix)" "spillBlocked T anchor (shown_at anchor matrix) cleared = Inr message" "message \<noteq> []"
      "cells' = setFormulaError T anchor ''#SPILL!'' cleared"
      "changed = changedSpillKeys (spillBefore anchor (shown_at anchor matrix) cells) cells' anchor"
  | (placed) cleared where "array_fits anchor matrix" "cleared = fst (clearSpillCells (spill_source anchor) cells)"
      "1 < length (shown_at anchor matrix) \<Longrightarrow> spillBlocked T anchor (shown_at anchor matrix) cleared = Inr []" "message = []"
      "placeSpill T anchor (zip (shown_at anchor matrix) (concat matrix)) cleared = Inr cells'"
      "changed = changedSpillKeys (spillBefore anchor (shown_at anchor matrix) cells) cells' anchor"
proof (cases "array_fits anchor matrix")
  case False
  have "cells' = cells \<and> changed = [] \<and> message \<noteq> []"
  proof (cases matrix)
    case Nil
    with assms show ?thesis by (auto simp: materializeSpill_def)
  next
    case (Cons row rest)
    with False assms quotient_bound [of "length row" "length matrix"] show ?thesis
      by (auto simp: materializeSpill_def array_fits_def Let_def exceeds_def list_ex_iff split: if_splits)
  qed
  with False show thesis by (intro large) auto
next
  case True
  let ?columns = "length (hd matrix)" let ?places = "shown_at anchor matrix"
  let ?cleared = "fst (clearSpillCells (spill_source anchor) cells)"
  have m: "matrix \<noteq> []" "?columns \<noteq> 0" "length matrix * ?columns \<le> MaxPasteCells"
    "\<forall>row \<in> set matrix. length row = ?columns"
    "fst anchor + int (length matrix) - 1 \<le> MaxRows" "snd anchor + int ?columns - 1 \<le> MaxColumns"
    using True unfolding array_fits_def Let_def by blast+
  have l: "length ?places = length matrix * ?columns"
    by (simp add: shown_at_def block_def length_concat comp_def sum_list_triv)
  have c: "(case matrix of [] \<Rightarrow> 0 | row # _ \<Rightarrow> length row) = ?columns" using m(1) by (cases matrix) simp_all
  have f1: "length matrix = 0 \<longleftrightarrow> False" using m(1) by simp
  have f2: "?columns = 0 \<or> length matrix > MaxPasteCells \<or> ?columns > MaxPasteCells \<or> length matrix > MaxPasteCells div ?columns \<longleftrightarrow> False"
    using quotient_bound [of ?columns "length matrix"] m(1-3) by simp
  have f3: "list_ex (\<lambda>row. length row \<noteq> ?columns) matrix \<longleftrightarrow> False" unfolding list_ex_iff using m(4) by blast
  have f4: "fst anchor + int (length matrix) - 1 > MaxRows \<or> snd anchor + int ?columns - 1 > MaxColumns \<longleftrightarrow> False"
    using m(5,6) by auto
  note f = f1 f2 f3 f4
  have eq: "bind_result (if length ?places > 1 then spillBlocked T anchor ?places ?cleared else Inr []) (\<lambda>message.
          if message \<noteq> [] then
            Inr (setFormulaError T anchor ''#SPILL!'' ?cleared,
              changedSpillKeys (spillBefore anchor ?places cells) (setFormulaError T anchor ''#SPILL!'' ?cleared) anchor, message)
          else bind_result (placeSpill T anchor (zip ?places (concat matrix)) ?cleared) (\<lambda>cells'.
            Inr (cells', changedSpillKeys (spillBefore anchor ?places cells) cells' anchor, []))) = Inr (cells', changed, message)"
    using assms by (simp only: materializeSpill_def Let_def c f if_False shown_at_def [symmetric] l [symmetric])
  then obtain message' where s: "(if length ?places > 1 then spillBlocked T anchor ?places ?cleared else Inr []) = Inr message'"
    and r: "(if message' \<noteq> [] then
            Inr (setFormulaError T anchor ''#SPILL!'' ?cleared,
              changedSpillKeys (spillBefore anchor ?places cells) (setFormulaError T anchor ''#SPILL!'' ?cleared) anchor, message')
          else bind_result (placeSpill T anchor (zip ?places (concat matrix)) ?cleared) (\<lambda>cells'.
            Inr (cells', changedSpillKeys (spillBefore anchor ?places cells) cells' anchor, []))) = Inr (cells', changed, message)"
    by (auto simp only: bind_result_eq_Inr)
  show thesis
  proof (cases "message' = []")
    case True
    with \<open>array_fits anchor matrix\<close> s r show thesis by (intro placed [of ?cleared]) (auto simp: bind_result_eq_Inr)
  next
    case False
    with \<open>array_fits anchor matrix\<close> s r show thesis by (intro blocked [of ?cleared]) (auto split: if_splits)
  qed
qed

definition spilled_in :: "string \<Rightarrow> sheet_cells \<Rightarrow> sheet_cells" where
  "spilled_in source cells = filter (\<lambda>(key, cell). ceSpillSource cell = source) cells"

lemma changedSpillKeys_set:
  "set (changedSpillKeys before after anchor) =
     {key. key \<noteq> anchor \<and> (key \<in> fst ` set before \<or> key \<in> fst ` set (spilled_in (spill_source anchor) after)) \<and>
        \<not> cellsEqual (cell_at before key) (cell_at after key)}"
  unfolding changedSpillKeys_def Let_def spilled_in_def by (rule set_eqI) (force simp: image_iff)

lemma changedSpillKeys_exact:
  assumes "distinct (map fst cells)" "distinct (map fst cells')" "spill_source anchor \<noteq> []"
    and "\<And>key. key \<noteq> anchor \<Longrightarrow> key \<notin> set places \<Longrightarrow> ceSpillSource (cell_at cells key) \<noteq> spill_source anchor \<Longrightarrow> cell_at cells' key = cell_at cells key"
  shows "set (changedSpillKeys (spillBefore anchor places cells) cells' anchor) =
    {key. key \<noteq> anchor \<and> \<not> cellsEqual (cell_at cells key) (cell_at cells' key)}"
proof -
  let ?old = "filter (\<lambda>(key, cell). ceSpillSource cell = spill_source anchor) cells"
  let ?before = "spillBefore anchor places cells"
  have "fst ` set ?before = fst ` set ?old \<union> set (filter (\<lambda>key. key \<notin> fst ` set ?old) places)"
    by (simp only: spillBefore_def Let_def set_append image_Un set_map image_image fst_conv image_ident)
  then have k: "fst ` set ?before = fst ` set ?old \<union> set places" by fastforce
  have m: "map_of ?before key = Some (cell_at cells key)" if "key \<in> fst ` set ?before" for key
  proof (cases "key \<in> fst ` set ?old")
    case True
    then obtain cell where c: "(key, cell) \<in> set ?old" by auto
    then have "map_of cells key = Some cell" using assms(1) by auto
    moreover have "map_of ?old key = Some cell" using c assms(1) by (intro map_of_is_SomeI distinct_map_filter) 
    ultimately show ?thesis by (simp add: spillBefore_def Let_def map_add_def cell_at_def)
  next
    case False
    with that k have "key \<in> set places" by blast
    with False show ?thesis
      by (simp add: spillBefore_def Let_def map_add_def map_of_map_restrict map_of_eq_None_iff [THEN iffD2, OF False])
  qed
  have equal: "cellsEqual cell cell" for cell by (simp add: cellsEqual_def)
  show ?thesis
    unfolding changedSpillKeys_set
  proof (intro Collect_cong conj_cong refl iffI)
    fix key assume n: "key \<noteq> anchor" and c: "(key \<in> fst ` set ?before \<or> key \<in> fst ` set (spilled_in (spill_source anchor) cells')) \<and>
      \<not> cellsEqual (cell_at ?before key) (cell_at cells' key)"
    have "cell_at ?before key = cell_at cells key"
    proof (cases "key \<in> fst ` set ?before")
      case True
      from m [OF this] show ?thesis by (simp add: cell_at_def)
    next
      case False
      with k have o: "key \<notin> set places" "key \<notin> fst ` set ?old" by simp_all
      then have "ceSpillSource (cell_at cells key) \<noteq> spill_source anchor" using from_source [OF assms(1,3), of key] by simp
      from assms(4) [OF n o(1) this] this False c from_source [OF assms(2,3), of key] show ?thesis by (simp add: spilled_in_def)
    qed
    with c show "\<not> cellsEqual (cell_at cells key) (cell_at cells' key)" by simp
  next
    fix key assume n: "key \<noteq> anchor" and c: "\<not> cellsEqual (cell_at cells key) (cell_at cells' key)"
    have b: "key \<in> fst ` set ?before"
      using assms(4) [OF n] c equal [of "cell_at cells key"] k from_source [OF assms(1,3), of key] by auto
    from m [OF b] have "cell_at ?before key = cell_at cells key" by (simp add: cell_at_def)
    with b c show "(key \<in> fst ` set ?before \<or> key \<in> fst ` set (spilled_in (spill_source anchor) cells')) \<and>
      \<not> cellsEqual (cell_at ?before key) (cell_at cells' key)" by simp
  qed
qed

definition at_place :: "cellKey \<Rightarrow> nat \<Rightarrow> nat \<Rightarrow> cellKey" where
  "at_place anchor i j = (fst anchor + int i, snd anchor + int j)"

lemma shown_at_places:
  "array_fits anchor matrix \<Longrightarrow> set (shown_at anchor matrix) = {at_place anchor i j |i j. i < length matrix \<and> j < length (hd matrix)}"
  by (simp add: shown_at_def set_block at_place_def)

lemma fits_row: "array_fits anchor matrix \<Longrightarrow> row \<in> set matrix \<Longrightarrow> length row = length (hd matrix)"
  unfolding array_fits_def Let_def by blast

lemma shown_length: "array_fits anchor matrix \<Longrightarrow> length (shown_at anchor matrix) = length (concat matrix)"
proof -
  assume f: "array_fits anchor matrix"
  have "map length matrix = map (\<lambda>row. length (hd matrix)) matrix" using fits_row [OF f] by (intro map_cong) simp_all
  then have "length (concat matrix) = sum_list (map (\<lambda>row. length (hd matrix)) matrix)" by (simp only: length_concat)
  also have "\<dots> = length matrix * length (hd matrix)" by (simp add: sum_list_triv)
  finally have "length (concat matrix) = length matrix * length (hd matrix)" .
  then show ?thesis by (simp add: shown_at_def block_def length_concat comp_def sum_list_triv)
qed

lemma spill_shown:
  assumes "array_fits anchor matrix" "placeSpill T anchor (zip (shown_at anchor matrix) (concat matrix)) cells = Inr cells'"
  shows "i < length matrix \<Longrightarrow> j < length (matrix ! i) \<Longrightarrow>
      \<exists>encoded. scEncode T (matrix ! i ! j) = Inr encoded \<and>
        cell_at cells' (at_place anchor i j) = spilled_cell anchor (at_place anchor i j) encoded (cell_at cells (at_place anchor i j))"
    and "key \<notin> set (shown_at anchor matrix) \<Longrightarrow> cell_at cells' key = cell_at cells key"
proof -
  let ?pairs = "zip (shown_at anchor matrix) (concat matrix)"
  have k: "map fst ?pairs = shown_at anchor matrix" using shown_length [OF assms(1)] by simp
  have d: "distinct (map fst ?pairs)" unfolding k by (simp only: shown_at_def distinct_block)
  note p = placeSpill_cells [OF assms(2) d]
  show "\<exists>encoded. scEncode T (matrix ! i ! j) = Inr encoded \<and>
        cell_at cells' (at_place anchor i j) = spilled_cell anchor (at_place anchor i j) encoded (cell_at cells (at_place anchor i j))"
    if "i < length matrix" "j < length (matrix ! i)"
  proof -
    have "length (matrix ! i) = length (hd matrix)" using fits_row [OF assms(1)] that(1) by simp
    then have "(at_place anchor i j, matrix ! i ! j) \<in> set ?pairs"
      using block_zip [of matrix "length (hd matrix)" i j anchor] fits_row [OF assms(1)] that
      by (simp add: shown_at_def at_place_def)
    then have "map_of ?pairs (at_place anchor i j) = Some (matrix ! i ! j)" by (rule map_of_is_SomeI [OF d])
    with p [of "at_place anchor i j"] show ?thesis by simp
  qed
  show "cell_at cells' key = cell_at cells key" if "key \<notin> set (shown_at anchor matrix)"
  proof -
    have "map_of ?pairs key = None" using that by (simp only: map_of_eq_None_iff set_map [symmetric] k not_False_eq_True)
    with p [of key] show ?thesis by simp
  qed
qed

lemma materializeSpill_distinct:
  assumes "materializeSpill T anchor matrix cells = Inr (cells', changed, message)" "distinct (map fst cells)"
  shows "distinct (map fst cells')"
  using assms(1)
proof (cases rule: materializeSpill_cases)
  case (blocked cleared)
  then show ?thesis using clearSpillCells_distinct [OF assms(2)] by (simp add: setFormulaError_def distinct_update)
next
  case (placed cleared)
  then show ?thesis using clearSpillCells_distinct [OF assms(2)] placeSpill_distinct by blast
qed (use assms(2) in simp)

section \<open>Where an array is shown, and what it leaves alone\<close>

lemma spill_source_Nil [simp]: "1 \<le> fst anchor \<Longrightarrow> 1 \<le> snd anchor \<Longrightarrow> spill_source anchor \<noteq> []"
  by (simp add: spill_source_def Address_not_Nil)

text \<open>The place is free for the array of an anchor: nothing is there but what the anchor itself spilled.\<close>

definition free_place :: "'v spill_codec \<Rightarrow> cellKey \<Rightarrow> sheet_cells \<Rightarrow> cellKey \<Rightarrow> bool" where
  "free_place T anchor cells key =
     (let cell = after_clear (spill_source anchor) cells key in
      if key = anchor then \<not> anchor_merged T cell else \<not> occupied T cell)"

lemma spill_outcome:
  assumes "materializeSpill T anchor matrix cells = Inr (cells', changed, message)"
    and "distinct (map fst cells)" "1 \<le> fst anchor" "1 \<le> snd anchor"
  shows "(message = [] \<longleftrightarrow> array_fits anchor matrix \<and>
        (1 < length (shown_at anchor matrix) \<longrightarrow> (\<forall>key \<in> set (shown_at anchor matrix). free_place T anchor cells key))) \<and>
    (\<forall>key. key \<noteq> anchor \<longrightarrow> message = [] \<longrightarrow> key \<notin> set (shown_at anchor matrix) \<longrightarrow>
        cell_at cells' key = after_clear (spill_source anchor) cells key) \<and>
    (\<forall>key. key \<noteq> anchor \<longrightarrow> message \<noteq> [] \<longrightarrow>
        cell_at cells' key = (if array_fits anchor matrix then after_clear (spill_source anchor) cells key else cell_at cells key))"
  using assms(1)
proof (cases rule: materializeSpill_cases)
  case (blocked cleared)
  have c: "cell_at cleared key = after_clear (spill_source anchor) cells key" for key
    unfolding blocked(2) by (rule clearSpillCells_cells [OF assms(2) spill_source_Nil [OF assms(3,4)]])
  have "\<not> (\<forall>key \<in> set (shown_at anchor matrix). free_place T anchor cells key)"
    using spillBlocked_free [OF blocked(4)] blocked(5) unfolding free_place_def Let_def c by blast
  with blocked(1,3,5) show ?thesis by (simp add: blocked(6) setFormulaError_def c)
next
  case (placed cleared)
  have c: "cell_at cleared key = after_clear (spill_source anchor) cells key" for key
    unfolding placed(2) by (rule clearSpillCells_cells [OF assms(2) spill_source_Nil [OF assms(3,4)]])
  have free: "\<forall>key \<in> set (shown_at anchor matrix). free_place T anchor cells key" if "1 < length (shown_at anchor matrix)"
    using spillBlocked_free [OF placed(3) [OF that]] unfolding free_place_def Let_def c by blast
  show ?thesis using free placed(1,4) spill_shown(2) [OF placed(1,5)] by (simp add: c)
qed auto


section \<open>What an array shows\<close>

text \<open>
  C18. An array that is shown is shown completely: every place of the array holds the value of its row and column, with the style and the note it had;
  beside the anchor it names the formula it comes from, and the anchor keeps its formula. What the formula showed
  before outside the array is cleared, the other cells are as they were, and the changed cells reported are exactly those whose content changed.
\<close>

theorem spill_effect:
  assumes "materializeSpill T anchor matrix cells = Inr (cells', changed, [])"
    and "distinct (map fst cells)" "1 \<le> fst anchor" "1 \<le> snd anchor" "ceSpillSource (cell_at cells anchor) = []"
  shows "(\<forall>i < length matrix. \<forall>j < length (matrix ! i).
      let key = at_place anchor i j; was = cell_at cells key; cell = cell_at cells' key in
      scEncode T (matrix ! i ! j) = Inr (ceValue cell) \<and>
      ceFormula cell = (if key = anchor then ceFormula was else []) \<and>
      ceSpillSource cell = (if key = anchor then [] else spill_source anchor) \<and>
      trim_space (ceStyle cell) = trim_space (ceStyle was) \<and> ceNote cell = ceNote was) \<and>
    (\<forall>key. key \<notin> set (shown_at anchor matrix) \<longrightarrow> cell_at cells' key = after_clear (spill_source anchor) cells key) \<and>
    set changed = {key. key \<noteq> anchor \<and> \<not> cellsEqual (cell_at cells key) (cell_at cells' key)}"
  using assms(1)
proof (cases rule: materializeSpill_cases)
  case (placed cleared)
  note source = spill_source_Nil [OF assms(3,4)]
  have c: "cell_at cleared key = after_clear (spill_source anchor) cells key" for key
    unfolding placed(2) by (rule clearSpillCells_cells [OF assms(2) source])
  note shown = spill_shown [OF placed(1,5)]
  have d: "distinct (map fst cells')" by (rule materializeSpill_distinct [OF assms(1,2)])
  have "let key = at_place anchor i j; was = cell_at cells key; cell = cell_at cells' key in
      scEncode T (matrix ! i ! j) = Inr (ceValue cell) \<and>
      ceFormula cell = (if key = anchor then ceFormula was else []) \<and>
      ceSpillSource cell = (if key = anchor then [] else spill_source anchor) \<and>
      trim_space (ceStyle cell) = trim_space (ceStyle was) \<and> ceNote cell = ceNote was"
    if "i < length matrix" "j < length (matrix ! i)" for i j
    using shown(1) [OF that] assms(5) source by (auto simp: Let_def spilled_cell_def c after_clear_def)
  moreover have "set changed = {key. key \<noteq> anchor \<and> \<not> cellsEqual (cell_at cells key) (cell_at cells' key)}"
    unfolding placed(6)
    by (rule changedSpillKeys_exact [OF assms(2) d source]) (simp add: shown(2) c after_clear_def)
  ultimately show ?thesis using shown(2) c by simp
qed simp_all

section \<open>Arrays on a small sheet\<close>

definition digits_codec :: "int spill_codec" where
  "digits_codec =
     \<lparr>mcRead = (\<lambda>style. if style = ''m'' then Inr (Some \<lparr>mgStartRow = 4, mgStartColumn = 1, mgEndRow = 4, mgEndColumn = 2\<rparr>) else Inr None),
      mcSet = (\<lambda>style m. Inr (if m = None then [] else ''m'')),
      scEncode = (\<lambda>v. Inr (itoa v)), scQuote = (\<lambda>s. CHR 0x22 # s @ [CHR 0x22])\<rparr>"

definition spill_sheet :: sheet_cells where
  "spill_sheet =
     [((1, 1), zeroCell\<lparr>ceRow := 1, ceColumn := 1, ceFormula := ''=B9:C9''\<rparr>),
      ((2, 1), zeroCell\<lparr>ceRow := 2, ceColumn := 1, ceValue := ''7'', ceStyle := ''b'', ceSpillSource := ''A1''\<rparr>),
      ((1, 3), zeroCell\<lparr>ceRow := 1, ceColumn := 3, ceValue := ''5''\<rparr>)]"


theorem spill_effect_witness:
  "\<exists>cells'. materializeSpill digits_codec (1, 1) [[1, 2]] spill_sheet = Inr (cells', [(2, 1), (1, 2)], []) \<and>
    ceValue (cell_at cells' (1, 2)) = ''2'' \<and> ceSpillSource (cell_at cells' (1, 2)) = ''A1'' \<and>
    ceFormula (cell_at cells' (1, 1)) = ''=B9:C9'' \<and>
    cell_at cells' (2, 1) = after_clear ''A1'' spill_sheet (2, 1)"
proof -
  let ?run = "materializeSpill digits_codec (1, 1) [[1, 2]] spill_sheet"
  have "(case ?run of Inl _ \<Rightarrow> False | Inr (_, changed, message) \<Rightarrow> changed = [(2, 1), (1, 2)] \<and> message = [])" by code_simp
  then obtain cells' where r: "?run = Inr (cells', [(2, 1), (1, 2)], [])"
    by (auto split: sum.splits prod.splits)
  have d: "distinct (map fst spill_sheet)" by code_simp
  have f: "ceSpillSource (cell_at spill_sheet (1, 1)) = []" "ceFormula (cell_at spill_sheet (1, 1)) = ''=B9:C9''"
    "spill_source (1, 1) = ''A1''" "(2, 1) \<notin> set (shown_at (1, 1) [[1, 2 :: int]])" by code_simp+
  note e = spill_effect [OF r d _ _ f(1), unfolded f(3)]
  have "scEncode digits_codec ([[1, 2]] ! 0 ! 1) = Inr ''2''" by code_simp
  with e [THEN conjunct1, rule_format, of 0 1] e [THEN conjunct1, rule_format, of 0 0]
    e [THEN conjunct2, THEN conjunct1, rule_format, OF _ _ f(4)] f(2) r
  show ?thesis by (simp add: at_place_def Let_def)
qed

section \<open>Merging and unmerging\<close>

lemma collect_list: "collect f xs = Inr ys \<Longrightarrow> list_all2 (\<lambda>x y. f x = Inr y) xs ys"
  by (induction f xs arbitrary: ys rule: collect.induct) (auto simp: bind_result_eq_Inr)

lemma set_merge_cells:
  "set (merge_cells m) = {mgStartRow m .. mgEndRow m} \<times> {mgStartColumn m .. mgEndColumn m}"
  by (force simp: merge_cells_def)



end
