(* ===== verification/Lexer.thy ===== *)
theory Lexer
  imports FormulaText Graph
begin

text \<open>
  The scanner of the formula language: \<^verbatim>\<open>lex\<close> of \<^verbatim>\<open>internal/formula/evaluator.go\<close>.
  A position in the formula is the rest of the text from there on. Quoting a piece of the
  input in an error message is \<^verbatim>\<open>fmt\<close>'s \<^verbatim>\<open>%q\<close>, which stays an argument beside the
  \<^verbatim>\<open>unicode\<close> tables.
\<close>

section \<open>Tokens\<close>

datatype tokenKind =
    tokenEOF | tokenNumber | tokenString | tokenIdentifier | tokenOperator | tokenLeft | tokenRight
  | tokenComma | tokenColon | tokenBang | tokenQuotedIdentifier | tokenSemicolon | tokenArrayOpen
  | tokenArrayClose | tokenError

record token =
  tkKind :: tokenKind
  tkText :: string

definition tok :: "tokenKind \<Rightarrow> string \<Rightarrow> token" where
  "tok kind text = \<lparr>tkKind = kind, tkText = text\<rparr>"

lemma tok_fields [simp]: "tkKind (tok k t) = k" "tkText (tok k t) = t" "tok k t = tok k' t' \<longleftrightarrow> k = k' \<and> t = t'"
  by (simp_all add: tok_def)

record lexer_tables = unicode_tables +
  fmtQuote :: "string \<Rightarrow> string"
  fmtQuoteRune :: "nat \<Rightarrow> string"

section \<open>One token\<close>

text \<open>The longest error code the text starts with.\<close>

definition matchedCode :: "string \<Rightarrow> string" where
  "matchedCode s =
     fold (\<lambda>code matched. if take (length code) (to_upper s) = code \<and> length code > length matched then code else matched)
       ErrorCodes []"

text \<open>The exponent behind a number: what belongs to the number, and the rest.\<close>

definition exponentText :: "string \<Rightarrow> string \<times> string" where
  "exponentText s =
     (if s \<noteq> [] \<and> (hd s = CHR ''e'' \<or> hd s = CHR ''E'') then
        (let sign = (if tl s \<noteq> [] \<and> (hd (tl s) = CHR ''+'' \<or> hd (tl s) = CHR ''-'') then [hd (tl s)] else []);
             behind = drop (length sign) (tl s);
             digits = takeWhile is_digit_byte behind in
         if digits \<noteq> [] then (hd s # sign @ digits, dropWhile is_digit_byte behind) else ([], s))
      else ([], s))"

definition lexNumber :: "lexer_tables \<Rightarrow> string \<Rightarrow> string + token \<times> string" where
  "lexNumber T s =
     (let front = takeWhile number_byte s in
      if length (filter (\<lambda>c. c = CHR ''.'') front) > 1 then Inl (''invalid number '' @ fmtQuote T front)
      else case exponentText (dropWhile number_byte s) of (exponent, rest) \<Rightarrow>
        Inr (tok tokenNumber (front @ exponent), rest))"

text \<open>From behind an opening quotation mark; a doubled mark stands for itself.\<close>

fun scanQuoted :: "char \<Rightarrow> string \<Rightarrow> (string \<times> string) option" where
  "scanQuoted q [] = None"
| "scanQuoted q [c] = (if c = q then Some ([], []) else None)"
| "scanQuoted q (c # d # ds) =
     (if c \<noteq> q then map_option (\<lambda>(text, rest). (c # text, rest)) (scanQuoted q (d # ds))
      else if d = q then map_option (\<lambda>(text, rest). (q # text, rest)) (scanQuoted q ds)
      else Some ([], d # ds))"

text \<open>The end of a bracketed table reference, from its opening bracket.\<close>

fun scanBrackets :: "int \<Rightarrow> string \<Rightarrow> string option" where
  "scanBrackets depth [] = (if depth = 0 then Some [] else None)"
| "scanBrackets depth (c # cs) =
     (if c = CHR ''['' then scanBrackets (depth + 1) cs
      else if c = CHR '']'' then (if depth - 1 = 0 then Some cs else scanBrackets (depth - 1) cs)
      else scanBrackets depth cs)"

definition lexIdentifier :: "lexer_tables \<Rightarrow> string \<Rightarrow> string + token \<times> string" where
  "lexIdentifier T s =
     (let rest = formulaIdentifierEnd (unicode_tables.truncate T) s in
      if rest \<noteq> [] \<and> hd rest = CHR ''['' then
        (case scanBrackets 0 rest of
           None \<Rightarrow> Inl ''unterminated table reference''
         | Some behind \<Rightarrow> Inr (tok tokenIdentifier (consumed s behind), behind))
      else Inr (tok tokenIdentifier (consumed s rest), rest))"

definition punctuation :: "char \<Rightarrow> tokenKind option" where
  "punctuation c =
     (if c = CHR ''('' then Some tokenLeft else if c = CHR '')'' then Some tokenRight
      else if c = CHR '','' then Some tokenComma else if c = CHR '';'' then Some tokenSemicolon
      else if c = CHR ''{'' then Some tokenArrayOpen else if c = CHR ''}'' then Some tokenArrayClose
      else if c = CHR '':'' then Some tokenColon else if c = CHR ''!'' then Some tokenBang else None)"

definition lexOperator :: "string \<Rightarrow> token \<times> string" where
  "lexOperator s =
     (if hd s \<in> {CHR ''<'', CHR ''>''} \<and> tl s \<noteq> [] \<and> (hd (tl s) = CHR ''='' \<or> hd (tl s) = CHR ''>'')
      then (tok tokenOperator [hd s, hd (tl s)], tl (tl s)) else (tok tokenOperator [hd s], tl s))"

definition operator_bytes :: "string" where "operator_bytes = ''+-*/^&=<>''"

definition lexToken :: "lexer_tables \<Rightarrow> string \<Rightarrow> string + token \<times> string" where
  "lexToken T s =
     (let r = fst (decode_rune s) in
      if hd s = CHR ''#'' then
        (if matchedCode s = [] then Inl ''unknown formula error literal''
         else Inr (tok tokenError (matchedCode s), drop (length (matchedCode s)) s))
      else if number_byte (hd s) then lexNumber T s
      else if hd s = CHR 0x22 then
        (case scanQuoted (CHR 0x22) (tl s) of
           None \<Rightarrow> Inl ''unterminated string'' | Some (text, rest) \<Rightarrow> Inr (tok tokenString text, rest))
      else if hd s = CHR 0x27 then
        (case scanQuoted (CHR 0x27) (tl s) of
           None \<Rightarrow> Inl ''unterminated quoted sheet name''
         | Some (text, rest) \<Rightarrow> Inr (tok tokenQuotedIdentifier text, rest))
      else if formulaIdentifierStart (unicode_tables.truncate T) r then lexIdentifier T s
      else case punctuation (hd s) of
          Some kind \<Rightarrow> Inr (tok kind [], tl s)
        | None \<Rightarrow>
            if hd s \<in> set operator_bytes then Inr (lexOperator s)
            else Inl (''unexpected character '' @ fmtQuoteRune T r))"

section \<open>All tokens\<close>

lemma exponentText_length: "length (snd (exponentText s)) \<le> length s"
proof -
  have "length (dropWhile is_digit_byte (drop n (tl s))) \<le> length s" for n
    by (rule le_trans [OF length_dropWhile_le]) simp
  from this [of 0] this [of 1] show ?thesis by (auto simp: exponentText_def Let_def)
qed

lemma scanQuoted_length: "scanQuoted q s = Some (t, rest) \<Longrightarrow> length rest < length s"
  by (induction q s arbitrary: t rest rule: scanQuoted.induct) (auto split: if_splits)

lemma scanBrackets_length: "scanBrackets d s = Some rest \<Longrightarrow> length rest \<le> length s"
  by (induction d s rule: scanBrackets.induct) (auto split: if_splits)

lemma lexNumber_shorter:
  assumes "lexNumber T s = Inr (t, rest)" "s \<noteq> []" "number_byte (hd s)"
  shows "length rest < length s"
proof -
  have "length (dropWhile number_byte s) < length s"
    using assms(2,3) by (cases s) (simp_all add: length_dropWhile_le le_imp_less_Suc)
  moreover have "rest = snd (exponentText (dropWhile number_byte s))"
    using assms(1) by (auto simp: lexNumber_def Let_def split: if_splits prod.splits)
  ultimately show ?thesis using exponentText_length [of "dropWhile number_byte s"] by simp
qed

lemma lexToken_shorter:
  assumes "lexToken T s = Inr (t, rest)" "s \<noteq> []"
  shows "length rest < length s"
proof -
  have name: "length rest < length s"
    if "lexIdentifier T s = Inr (t, rest)" "formulaIdentifierStart (unicode_tables.truncate T) (fst (decode_rune s))"
  proof -
    have "length (formulaIdentifierEnd (unicode_tables.truncate T) s) < length s"
      using that(2) formulaIdentifierEnd_shorter [OF assms(2)] by simp
    then show ?thesis using that(1) scanBrackets_length
      by (fastforce simp: lexIdentifier_def Let_def split: if_splits option.splits)
  qed
  have tail: "length (tl s) < length s" using assms(2) by simp
  show ?thesis
    using assms tail name scanQuoted_length [of _ "tl s"] lexNumber_shorter [of T s]
    by (fastforce simp: lexToken_def Let_def lexOperator_def split: if_splits option.splits)
qed

function lexFrom :: "lexer_tables \<Rightarrow> string \<Rightarrow> string + token list" where
  "lexFrom T s =
     (if s = [] then Inr [tok tokenEOF []]
      else if decode_rune s = (65533, 1) then Inl ''formula is not valid UTF-8''
      else if lead_space s \<noteq> 0 then lexFrom T (drop (lead_space s) s)
      else case lexToken T s of
          Inl message \<Rightarrow> Inl message
        | Inr (token, rest) \<Rightarrow>
            (case lexFrom T rest of Inl message \<Rightarrow> Inl message | Inr tokens \<Rightarrow> Inr (token # tokens)))"
  by pat_completeness auto
termination
  by (relation "measure (\<lambda>(T, s). length s)") (auto intro: lexToken_shorter)

declare lexFrom.simps [simp del]

definition lex :: "lexer_tables \<Rightarrow> string \<Rightarrow> string + token list" where
  "lex T input =
     (let input = trim_space input in
      lexFrom T (if input \<noteq> [] \<and> hd input = CHR ''='' then trim_space (tl input) else input))"

section \<open>The end mark\<close>

definition token_list :: "token list \<Rightarrow> bool" where
  "token_list ts = (ts \<noteq> [] \<and> tkKind (last ts) = tokenEOF \<and> (\<forall>t \<in> set (butlast ts). tkKind t \<noteq> tokenEOF))"

lemma lexToken_kind:
  assumes "lexToken T s = Inr (t, rest)"
  shows "tkKind t \<noteq> tokenEOF"
  using assms
  by (auto simp: lexToken_def lexNumber_def lexIdentifier_def lexOperator_def punctuation_def Let_def
      split: if_splits option.splits prod.splits)

lemma lexFrom_tokens: "lexFrom T s = Inr ts \<Longrightarrow> token_list ts"
proof (induction T s arbitrary: ts rule: lexFrom.induct)
  case (1 T s)
  show ?case
  proof (cases "s = [] \<or> decode_rune s = (65533, 1) \<or> lead_space s \<noteq> 0")
    case True
    then show ?thesis using "1.IH"(1) "1.prems" by (auto simp: lexFrom.simps [of T s] token_list_def split: if_splits)
  next
    case False
    then obtain t rest us where t: "lexToken T s = Inr (t, rest)" "lexFrom T rest = Inr us" "ts = t # us"
      using "1.prems" by (auto simp: lexFrom.simps [of T s] split: sum.splits)
    with "1.IH"(2) False have "token_list us" by auto
    with t lexToken_kind [OF t(1)] show ?thesis by (auto simp: token_list_def)
  qed
qed

lemma lex_tokens: "lex T input = Inr ts \<Longrightarrow> token_list ts"
  by (auto simp: lex_def Let_def intro: lexFrom_tokens)

end
