(* ===== verification/FormulaTree.thy ===== *)
theory FormulaTree
  imports Lexer
begin

text \<open>
  What a formula is parsed into and what the parser knows: the values and the nodes of
  \<^verbatim>\<open>internal/formula\<close> (\<^verbatim>\<open>evaluator.go\<close>, \<^verbatim>\<open>binding.go\<close>,
  \<^verbatim>\<open>functions_reference.go\<close>), the \<^verbatim>\<open>Scope\<close> of \<^verbatim>\<open>scope.go\<close>, the
  parser's state, and the parts of the parser that turn a reference, a name, a table or a
  reference function into nodes and dependencies.

  Numbers are Go's \<^verbatim>\<open>float64\<close>; their arithmetic, \<^verbatim>\<open>strconv\<close> and
  \<^verbatim>\<open>fmt\<close> are the record \<open>formula_library\<close>. A binding frame, which the code points to,
  is a number drawn from a counter of the parser.
\<close>

section \<open>Values and nodes\<close>

datatype 'f val =
    VNil
  | VNumber 'f
  | VText string
  | VBool bool
  | omittedValue
  | arrayValue int int "'f val list"
  | functionValue string
  | lambdaValue nat "string list" "'f node"
  | VError formula_error
and 'f node =
    literalNode "'f val"
  | errorNode formula_error
  | referenceNode string
  | rangeNode int int "string list"
  | unaryNode string "'f node"
  | binaryNode string "'f node" "'f node"
  | functionNode string "'f node list"
  | arrayLiteralNode int int "'f node list"
  | dynamicReferenceNode string "'f node list" string Position
  | importedNode int int "'f val list"
  | bindingNode nat nat
  | letNode nat "'f node list" "'f node"
  | lambdaNode nat "string list" "'f node"
  | lambdaCallNode "'f node" "'f node list"

record 'f formula_library = lexer_tables +
  flParseFloat :: "string \<Rightarrow> string + 'f"
  flOfInt :: "int \<Rightarrow> 'f"
  flToInt :: "'f \<Rightarrow> int"
  flFormat :: "'f \<Rightarrow> string"
  flSprint :: "'f val \<Rightarrow> string"

definition omitted :: "'f val \<Rightarrow> bool" where
  "omitted v = (v = omittedValue)"

definition display :: "'f formula_library \<Rightarrow> 'f val \<Rightarrow> string" where
  "display L v =
     (case v of VNil \<Rightarrow> [] | omittedValue \<Rightarrow> [] | VNumber x \<Rightarrow> flFormat L x | VError e \<Rightarrow> ferCode e
      | VText s \<Rightarrow> s | VBool b \<Rightarrow> (if b then ''true'' else ''false'') | _ \<Rightarrow> flSprint L v)"

text \<open>The pattern \<^verbatim>\<open>decimalText\<close>: a sign, digits with a point somewhere, an exponent.\<close>

definition fractionRest :: "string \<Rightarrow> string option" where
  "fractionRest s =
     (let rest = dropWhile is_digit_byte s in
      if takeWhile is_digit_byte s \<noteq> []
      then Some (if rest \<noteq> [] \<and> hd rest = CHR ''.'' then dropWhile is_digit_byte (tl rest) else rest)
      else if rest \<noteq> [] \<and> hd rest = CHR ''.'' \<and> takeWhile is_digit_byte (tl rest) \<noteq> []
      then Some (dropWhile is_digit_byte (tl rest)) else None)"

definition decimalText :: "string \<Rightarrow> bool" where
  "decimalText s =
     (case fractionRest (if s \<noteq> [] \<and> (hd s = CHR ''+'' \<or> hd s = CHR ''-'') then tl s else s) of
        None \<Rightarrow> False
      | Some rest \<Rightarrow> rest = [] \<or> fst (exponentText rest) \<noteq> [] \<and> snd (exponentText rest) = [])"

definition DecimalNumber :: "'f formula_library \<Rightarrow> string \<Rightarrow> 'f option" where
  "DecimalNumber L s =
     (if \<not> decimalText s then None else case flParseFloat L s of Inl _ \<Rightarrow> None | Inr x \<Rightarrow> Some x)"

definition numberFromText :: "'f formula_library \<Rightarrow> string \<Rightarrow> 'f option" where
  "numberFromText L s = DecimalNumber L (trim_space s)"

definition toNumber :: "'f formula_library \<Rightarrow> 'f val \<Rightarrow> 'f option" where
  "toNumber L v =
     (case v of VNumber x \<Rightarrow> Some x | VNil \<Rightarrow> Some (flOfInt L 0) | VBool b \<Rightarrow> Some (flOfInt L (if b then 1 else 0))
      | VText s \<Rightarrow> numberFromText L s | _ \<Rightarrow> None)"

section \<open>The scope\<close>

record range_name =
  rnSheetID :: string
  rnRange :: string

record formula_table =
  ftSheetID :: string
  ftRange :: string
  ftHeaderRow :: bool
  ftTotalsRow :: bool
  ftColumns :: "string list"

record named_function =
  nfParameters :: "string list"
  nfBody :: string

text \<open>A block fetched from another workbook, or from an address.\<close>

record 'f fetched =
  fetText :: string
  fetRows :: int
  fetColumns :: int
  fetValues :: "'f val list"
  fetErr :: "formula_error option"

record 'f Scope =
  spCurrentSheet :: string
  spSheets :: "(string \<times> string) list option"
  spNamedRanges :: "(string \<times> range_name) list"
  spExtent :: "(string \<times> SheetExtent) list"
  spAnchor :: string
  spImports :: "(string \<times> 'f fetched) list"
  spExternal :: "(string \<times> 'f fetched) list"
  spNamedFunctions :: "(string \<times> named_function) list"
  spTables :: "(string \<times> formula_table) list"

definition normalizeSheetName :: "string \<Rightarrow> string" where
  "normalizeSheetName s = to_upper (trim_space s)"

definition sheetFor :: "'f Scope \<Rightarrow> string \<Rightarrow> go_failure + string" where
  "sheetFor sc qualifier =
     (if qualifier = [] then Inr (spCurrentSheet sc)
      else case spSheets sc of
          None \<Rightarrow> Inr (normalizeSheetName qualifier)
        | Some sheets \<Rightarrow>
            (case map_of sheets (normalizeSheetName qualifier) of
               None \<Rightarrow> Inl (Typed (formulaError ''#REF!'' (''unknown sheet '' @ qualifier)))
             | Some sheetID \<Rightarrow> Inr sheetID))"

definition resolveCell :: "'f Scope \<Rightarrow> string \<Rightarrow> string \<Rightarrow> go_failure + string" where
  "resolveCell sc qualifier address =
     (case sheetFor sc qualifier of Inl e \<Rightarrow> Inl e | Inr sheetID \<Rightarrow> Inr (CellKey sheetID address))"

definition extentOf :: "'f Scope \<Rightarrow> string \<Rightarrow> SheetExtent" where
  "extentOf sc sheetID =
     (let extent = (case map_of (spExtent sc) (to_upper (trim_space sheetID)) of
                      None \<Rightarrow> \<lparr>seRows = 0, seColumns = 0\<rparr> | Some e \<Rightarrow> e) in
      \<lparr>seRows = (if seRows extent < 1 then 1 else seRows extent),
       seColumns = (if seColumns extent < 1 then 1 else seColumns extent)\<rparr>)"

definition extentFor :: "'f Scope \<Rightarrow> string \<Rightarrow> SheetExtent" where
  "extentFor sc qualifier =
     (case sheetFor sc qualifier of Inl _ \<Rightarrow> \<lparr>seRows = 1, seColumns = 1\<rparr> | Inr sheetID \<Rightarrow> extentOf sc sheetID)"

definition resolveNamedRange :: "'f Scope \<Rightarrow> string \<Rightarrow> go_failure + range_name" where
  "resolveNamedRange sc name =
     (case map_of (spNamedRanges sc) (normalizeSheetName name) of
        None \<Rightarrow> Inl (Typed (formulaError ''#NAME?'' (''unknown name '' @ name)))
      | Some target \<Rightarrow>
          if rnSheetID target = [] \<or> rnRange target = []
          then Inl (Typed (formulaError ''#REF!'' (''named range '' @ name @ '' has an invalid target'')))
          else Inr target)"

section \<open>Function names\<close>

definition functionAliases :: "(string \<times> string) list" where
  "functionAliases =
     [(''STDEV.S'', ''STDEV''), (''STDEV.P'', ''STDEVP''), (''VAR.S'', ''VAR''), (''VAR.P'', ''VARP''),
      (''MODE.SNGL'', ''MODE''), (''RANK.EQ'', ''RANK''), (''PERCENTILE.INC'', ''PERCENTILE''),
      (''QUARTILE.INC'', ''QUARTILE''), (''FORECAST.LINEAR'', ''FORECAST''), (''COVARIANCE.P'', ''COVAR'')]"

definition xlsxFunctionPrefixes :: "string list" where
  "xlsxFunctionPrefixes = [''_XLFN._XLWS.'', ''_XLFN.'', ''_XLWS.'']"

definition canonicalFunctionName :: "string \<Rightarrow> string" where
  "canonicalFunctionName name =
     (let upper = to_upper (trim_space name);
          upper = (case find (\<lambda>prefix. take (length prefix) upper = prefix) xlsxFunctionPrefixes of
                     None \<Rightarrow> upper | Some prefix \<Rightarrow> drop (length prefix) upper) in
      case map_of functionAliases upper of Some canonical \<Rightarrow> canonical | None \<Rightarrow> upper)"

text \<open>The names of the catalogue of functions.\<close>

definition callableNames :: "string list" where
  "callableNames = [
    ''SUM'', ''AVERAGE'', ''MIN'', ''MAX'', ''MEDIAN'', ''PRODUCT'', ''ROUND'', ''ROUNDUP'', ''ROUNDDOWN'',
    ''ABS'', ''INT'', ''MOD'', ''POWER'', ''SQRT'', ''COUNT'', ''COUNTA'', ''COUNTBLANK'', ''SUMIF'',
    ''SUMIFS'', ''COUNTIF'', ''COUNTIFS'', ''IF'', ''IFERROR'', ''AND'', ''OR'', ''NOT'', ''CONCAT'',
    ''CONCATENATE'', ''TEXTJOIN'', ''LEFT'', ''RIGHT'', ''MID'', ''LEN'', ''TRIM'', ''UPPER'', ''LOWER'',
    ''PROPER'', ''SUBSTITUTE'', ''FIND'', ''SEARCH'', ''REPT'', ''VALUE'', ''NUMBERVALUE'', ''HYPERLINK'',
    ''DATE'', ''TODAY'', ''NOW'', ''YEAR'', ''MONTH'', ''DAY'', ''WEEKDAY'', ''VLOOKUP'', ''HLOOKUP'',
    ''INDEX'', ''MATCH'', ''FILTER'', ''GROUPBY'', ''PIVOTBY'', ''SORT'', ''CEILING'', ''FLOOR'', ''MROUND'',
    ''TRUNC'', ''SIGN'', ''EXP'', ''LN'', ''LOG'', ''LOG10'', ''PI'', ''QUOTIENT'', ''GCD'', ''LCM'',
    ''SUMSQ'', ''FACT'', ''COMBIN'', ''PERMUT'', ''EVEN'', ''ODD'', ''RADIANS'', ''DEGREES'', ''SIN'',
    ''COS'', ''TAN'', ''ASIN'', ''ACOS'', ''ATAN'', ''ATAN2'', ''SINH'', ''COSH'', ''TANH'', ''RAND'',
    ''RANDBETWEEN'', ''SUMPRODUCT'', ''SUBTOTAL'', ''AGGREGATE'', ''AVERAGEIF'', ''AVERAGEIFS'', ''MAXIFS'',
    ''MINIFS'', ''COUNTUNIQUE'', ''AVERAGEA'', ''STDEV'', ''STDEVP'', ''VAR'', ''VARP'', ''STDEVA'',
    ''STDEVPA'', ''VARA'', ''VARPA'', ''LARGE'', ''SMALL'', ''RANK'', ''PERCENTILE'', ''QUARTILE'',
    ''STDEV.S'', ''STDEV.P'', ''VAR.S'', ''VAR.P'', ''MODE.SNGL'', ''RANK.EQ'', ''PERCENTILE.INC'',
    ''QUARTILE.INC'', ''FORECAST.LINEAR'', ''COVARIANCE.P'', ''PERCENTILE.EXC'', ''QUARTILE.EXC'',
    ''RANK.AVG'', ''MAXA'', ''MINA'', ''DSUM'', ''DAVERAGE'', ''DCOUNT'', ''DCOUNTA'', ''DMAX'', ''DMIN'',
    ''DPRODUCT'', ''DSTDEV'', ''DSTDEVP'', ''DVAR'', ''DVARP'', ''DGET'', ''BIN2DEC'', ''BIN2OCT'',
    ''BIN2HEX'', ''OCT2DEC'', ''OCT2BIN'', ''OCT2HEX'', ''HEX2DEC'', ''HEX2BIN'', ''HEX2OCT'', ''DEC2BIN'',
    ''DEC2OCT'', ''DEC2HEX'', ''BITAND'', ''BITOR'', ''BITXOR'', ''BITLSHIFT'', ''BITRSHIFT'', ''DELTA'',
    ''GESTEP'', ''ERF'', ''ERFC'', ''SEC'', ''CSC'', ''COT'', ''SECH'', ''CSCH'', ''COTH'', ''ACOT'',
    ''ACOTH'', ''ACOSH'', ''ASINH'', ''ATANH'', ''GAMMALN'', ''SQRTPI'', ''CEILING.MATH'', ''FLOOR.MATH'',
    ''CEILING.PRECISE'', ''FLOOR.PRECISE'', ''ISO.CEILING'', ''COMBINA'', ''FACTDOUBLE'', ''MULTINOMIAL'',
    ''SUMX2MY2'', ''SUMX2PY2'', ''SUMXMY2'', ''SERIESSUM'', ''BASE'', ''DECIMAL'', ''MUNIT'', ''RANDARRAY'',
    ''NORMSDIST'', ''NORMSINV'', ''NORMDIST'', ''NORMINV'', ''GAUSS'', ''LOGNORMDIST'', ''LOGINV'',
    ''CONFIDENCE'', ''STANDARDIZE'', ''FISHER'', ''FISHERINV'', ''EXPONDIST'', ''POISSON'', ''BINOMDIST'',
    ''NEGBINOMDIST'', ''HYPGEOMDIST'', ''CRITBINOM'', ''WEIBULL'', ''AVEDEV'', ''DEVSQ'', ''SKEW'', ''KURT'',
    ''MODE.MULT'', ''PERCENTRANK'', ''TRIMMEAN'', ''PROB'', ''STEYX'', ''ZTEST'', ''CHIDIST'', ''CHIINV'',
    ''CHITEST'', ''TDIST'', ''TINV'', ''TTEST'', ''FDIST'', ''FINV'', ''FTEST'', ''BETADIST'', ''BETAINV'',
    ''DISC'', ''INTRATE'', ''RECEIVED'', ''PRICEDISC'', ''YIELDDISC'', ''PRICEMAT'', ''YIELDMAT'',
    ''TBILLPRICE'', ''TBILLYIELD'', ''TBILLEQ'', ''DOLLARDE'', ''DOLLARFR'', ''FVSCHEDULE'', ''ISPMT'',
    ''COUPPCD'', ''COUPNCD'', ''COUPNUM'', ''COUPDAYS'', ''COUPDAYBS'', ''COUPDAYSNC'', ''PRICE'', ''YIELD'',
    ''DURATION'', ''MDURATION'', ''ACCRINTM'', ''LENB'', ''LEFTB'', ''RIGHTB'', ''MIDB'', ''FINDB'',
    ''SEARCHB'', ''REPLACEB'', ''ASC'', ''JIS'', ''DBCS'', ''ROMAN'', ''ARABIC'', ''NETWORKDAYS.INTL'',
    ''WORKDAY.INTL'', ''EPOCHTODATE'', ''COMPLEX'', ''IMREAL'', ''IMAGINARY'', ''IMABS'', ''IMARGUMENT'',
    ''IMCONJUGATE'', ''IMSUM'', ''IMSUB'', ''IMPRODUCT'', ''IMDIV'', ''IMPOWER'', ''IMSQRT'', ''IMEXP'',
    ''IMLN'', ''IMLOG10'', ''IMLOG2'', ''MODE'', ''GEOMEAN'', ''HARMEAN'', ''CORREL'', ''RSQ'', ''PEARSON'',
    ''COVAR'', ''SLOPE'', ''INTERCEPT'', ''FORECAST'', ''TREND'', ''PMT'', ''IPMT'', ''PPMT'', ''FV'', ''PV'',
    ''NPER'', ''RATE'', ''NPV'', ''IRR'', ''MIRR'', ''XNPV'', ''XIRR'', ''CUMIPMT'', ''CUMPRINC'', ''SLN'',
    ''SYD'', ''DDB'', ''DB'', ''EFFECT'', ''NOMINAL'', ''RRI'', ''PDURATION'', ''IFS'', ''SWITCH'', ''XOR'',
    ''IFNA'', ''ISERROR'', ''ISERR'', ''ISNA'', ''ISBLANK'', ''ISBIZNO'', ''ISCORPNO'', ''ISNUMBER'',
    ''ERROR.TYPE'', ''ISTEXT'', ''ISNONTEXT'', ''ISLOGICAL'', ''ISEVEN'', ''ISODD'', ''ISEMAIL'', ''ISURL'',
    ''ISDATE'', ''NA'', ''N'', ''TYPE'', ''TEXT'', ''TO_TEXT'', ''REPLACE'', ''EXACT'', ''SPLIT'',
    ''TEXTSPLIT'', ''TEXTBEFORE'', ''TEXTAFTER'', ''JOIN'', ''CHAR'', ''CODE'', ''UNICHAR'', ''UNICODE'',
    ''T'', ''CLEAN'', ''DOLLAR'', ''FIXED'', ''REGEXMATCH'', ''REGEXEXTRACT'', ''REGEXREPLACE'', ''EDATE'',
    ''EOMONTH'', ''DAYS'', ''DAYS360'', ''DATEDIF'', ''YEARFRAC'', ''NETWORKDAYS'', ''WORKDAY'', ''WEEKNUM'',
    ''ISOWEEKNUM'', ''TIME'', ''HOUR'', ''MINUTE'', ''SECOND'', ''DATEVALUE'', ''TIMEVALUE'', ''XLOOKUP'',
    ''XMATCH'', ''LOOKUP'', ''OFFSET'', ''INDIRECT'', ''IMPORTRANGE'', ''ROW'', ''COLUMN'', ''ROWS'',
    ''COLUMNS'', ''ADDRESS'', ''CHOOSE'', ''UNIQUE'', ''SEQUENCE'', ''VSTACK'', ''HSTACK'', ''TAKE'',
    ''DROP'', ''CHOOSEROWS'', ''CHOOSECOLS'', ''SORTBY'', ''LET'', ''LAMBDA'', ''MAP'', ''BYROW'', ''BYCOL'',
    ''REDUCE'', ''SCAN'', ''ISOMITTED'', ''TRANSPOSE'', ''FLATTEN'', ''TOCOL'', ''TOROW'', ''WRAPROWS'',
    ''WRAPCOLS'', ''EXPAND'', ''ARRAY_CONSTRAIN'', ''ARRAYFORMULA'', ''QUERY'', ''HANGULNUM'', ''HANGULWON'',
    ''FORMATBIZNO'', ''MASKRRN'', ''KOREANHOLIDAYS'', ''KOREANHOLIDAYNAME'', ''WEBSERVICE'', ''IMPORTDATA'',
    ''SPARKLINE'']"

definition isCallableName :: "'f Scope \<Rightarrow> string \<Rightarrow> bool" where
  "isCallableName sc name =
     (let upper = to_upper (trim_space name) in
      upper \<in> set callableNames \<or> map_of (spNamedFunctions sc) upper \<noteq> None)"

section \<open>The state of the parser\<close>

record parser_state =
  psTokens :: "token list"
  psPosition :: nat
  psDependencies :: "string list"
  psBindings :: "(string \<times> nat \<times> nat) list"
  psDepth :: nat
  psFrames :: nat

text \<open>
  A run of the parser ends in a result, in an error, in an index out of range, or for want of
  fuel. The dependencies stay in the state, which an error keeps.
\<close>

datatype 'a run = Ran 'a parser_state | Stopped go_failure parser_state | Crashed | Exhausted

type_synonym 'a parser = "parser_state \<Rightarrow> 'a run"

definition returnP :: "'a \<Rightarrow> 'a parser" where
  "returnP x s = Ran x s"

definition bindP :: "'a parser \<Rightarrow> ('a \<Rightarrow> 'b parser) \<Rightarrow> 'b parser" where
  "bindP m f s = (case m s of Ran x s' \<Rightarrow> f x s' | Stopped e s' \<Rightarrow> Stopped e s' | Crashed \<Rightarrow> Crashed | Exhausted \<Rightarrow> Exhausted)"

definition failP :: "go_failure \<Rightarrow> 'a parser" where
  "failP e s = Stopped e s"

definition typedP :: "string \<Rightarrow> string \<Rightarrow> 'a parser" where
  "typedP code message = failP (Typed (formulaError code message))"

definition errorfP :: "string \<Rightarrow> 'a parser" where
  "errorfP message = failP (Untyped message)"

definition liftP :: "go_failure + 'a \<Rightarrow> 'a parser" where
  "liftP r = (case r of Inl e \<Rightarrow> failP e | Inr x \<Rightarrow> returnP x)"

definition crashedP :: "'a parser" where
  "crashedP s = Crashed"

definition exhaustedP :: "'a parser" where
  "exhaustedP s = Exhausted"

text \<open>\<^verbatim>\<open>p.tokens[p.position+n]\<close>; \<open>currentP\<close> is \<^verbatim>\<open>p.current()\<close>.\<close>

definition tokenP :: "nat \<Rightarrow> token parser" where
  "tokenP n s = (if psPosition s + n < length (psTokens s) then Ran (psTokens s ! (psPosition s + n)) s else Crashed)"

definition currentP :: "token parser" where
  "currentP = tokenP 0"

definition advanceP :: "unit parser" where
  "advanceP s = Ran () (s\<lparr>psPosition := psPosition s + 1\<rparr>)"

definition retreatP :: "unit parser" where
  "retreatP s = Ran () (s\<lparr>psPosition := psPosition s - 1\<rparr>)"

definition dependP :: "string list \<Rightarrow> unit parser" where
  "dependP keys s = Ran () (s\<lparr>psDependencies := psDependencies s @ keys\<rparr>)"

definition expectP :: "tokenKind \<Rightarrow> string \<Rightarrow> unit parser" where
  "expectP kind message = bindP currentP (\<lambda>t. if tkKind t \<noteq> kind then errorfP message else advanceP)"

section \<open>References\<close>

fun columnFold :: "int \<Rightarrow> string \<Rightarrow> int option" where
  "columnFold column [] = Some column"
| "columnFold column (c # cs) =
     (if is_upper_byte c then columnFold (column * 26 + (of_char c - 65 + 1)) cs else None)"

definition columnOnlyReference :: "string \<Rightarrow> int option" where
  "columnOnlyReference s =
     (if s = [] \<or> length s > 3 then None
      else case columnFold 0 s of
          None \<Rightarrow> None | Some column \<Rightarrow> if column \<ge> 1 \<and> column \<le> MaxColumns then Some column else None)"

text \<open>The cells of a rectangle, row by row.\<close>

definition rectangle :: "string \<Rightarrow> int \<Rightarrow> int \<Rightarrow> int \<Rightarrow> int \<Rightarrow> string list" where
  "rectangle sheetID firstRow firstColumn lastRow lastColumn =
     concat (map (\<lambda>row. map (\<lambda>column. CellKey sheetID (Address row column)) [firstColumn..lastColumn]) [firstRow..lastRow])"

definition cellCount :: "int \<Rightarrow> int \<Rightarrow> int \<Rightarrow> int \<Rightarrow> int" where
  "cellCount firstRow firstColumn lastRow lastColumn =
     wrap64 (wrap64 (lastRow - firstRow + 1) * wrap64 (lastColumn - firstColumn + 1))"

definition buildRangeAt :: "string \<Rightarrow> int \<Rightarrow> int \<Rightarrow> int \<Rightarrow> int \<Rightarrow> 'f node parser" where
  "buildRangeAt sheetID firstRow firstColumn lastRow lastColumn =
     (let count = cellCount firstRow firstColumn lastRow lastColumn in
      if count > 100000 then typedP ''#VALUE!'' ''range is too large''
      else if count < 0 then crashedP
      else let addresses = rectangle sheetID firstRow firstColumn lastRow lastColumn in
        bindP (dependP addresses) (\<lambda>_.
          if count = 1 then (case addresses of [] \<Rightarrow> crashedP | address # _ \<Rightarrow> returnP (referenceNode address))
          else returnP (rangeNode (wrap64 (lastRow - firstRow + 1)) (wrap64 (lastColumn - firstColumn + 1)) addresses)))"

definition buildRange :: "'f Scope \<Rightarrow> string \<Rightarrow> int \<Rightarrow> int \<Rightarrow> int \<Rightarrow> int \<Rightarrow> 'f node parser" where
  "buildRange sc qualifier firstRow firstColumn lastRow lastColumn =
     bindP (liftP (sheetFor sc qualifier)) (\<lambda>sheetID. buildRangeAt sheetID firstRow firstColumn lastRow lastColumn)"

definition namedRange :: "'f Scope \<Rightarrow> string \<Rightarrow> 'f node parser" where
  "namedRange sc name =
     bindP (liftP (resolveNamedRange sc name)) (\<lambda>target.
       case Parse (rnRange target) of
         Inl _ \<Rightarrow> typedP ''#REF!'' (''named range '' @ name @ '' has an invalid target'')
       | Inr selected \<Rightarrow>
           let first = Start selected; last = End selected;
               addresses = rectangle (rnSheetID target) (Row first) (Column first) (Row last) (Column last) in
           if cellCount (Row first) (Column first) (Row last) (Column last) > 100000
           then typedP ''#VALUE!'' ''range is too large''
           else bindP (dependP addresses) (\<lambda>_.
             if length addresses = 1 then returnP (referenceNode (hd addresses))
             else returnP (rangeNode (Row last - Row first + 1) (Column last - Column first + 1) addresses)))"

text \<open>The text of the error that reading a range ends in.\<close>

definition rangeErrorText :: "string \<Rightarrow> string" where
  "rangeErrorText text =
     (case split_on (CHR '':'') (to_upper (trim_space text)) of
        [p, q] \<Rightarrow> if is_ok (parsePosition p) \<and> is_ok (parsePosition q)
                  then ''invalid A1 range: range must be top-left to bottom-right'' else ''invalid A1 range''
      | _ \<Rightarrow> ''invalid A1 range'')"

definition parseRangeP :: "string \<Rightarrow> Range parser" where
  "parseRangeP text = (case Parse text of Inl _ \<Rightarrow> errorfP (rangeErrorText text) | Inr r \<Rightarrow> returnP r)"

text \<open>
  The cells named by two halves of a range of which at least one names a column only: the
  rows then run to the end of the sheet's content.
\<close>

definition unboundedRange ::
  "'f Scope \<Rightarrow> string \<Rightarrow> string \<Rightarrow> int option \<Rightarrow> string \<Rightarrow> int option \<Rightarrow> 'f node parser" where
  "unboundedRange sc qualifier start startColumn endAddress endColumn =
     bindP (case startColumn of
              Some column \<Rightarrow> returnP (column, 1)
            | None \<Rightarrow> bindP (parseRangeP start) (\<lambda>r. returnP (Column (Start r), Row (Start r)))) (\<lambda>(firstColumn, firstRow).
     bindP (case endColumn of
              Some column \<Rightarrow> returnP (column, seRows (extentFor sc qualifier))
            | None \<Rightarrow> bindP (parseRangeP endAddress) (\<lambda>r. returnP (Column (End r), Row (End r)))) (\<lambda>(lastColumn, lastRow).
       let lastRow = (if lastRow < firstRow then firstRow else lastRow) in
       if lastColumn < firstColumn then buildRange sc qualifier firstRow lastColumn lastRow firstColumn
       else buildRange sc qualifier firstRow firstColumn lastRow lastColumn))"

definition cellReference :: "'f formula_library \<Rightarrow> 'f Scope \<Rightarrow> string \<Rightarrow> string \<Rightarrow> 'f node parser" where
  "cellReference L sc qualifier startText =
     (let start = normalizeCellAddress startText; startColumn = columnOnlyReference start in
      if startColumn = None \<and> \<not> isReference start then errorfP (fmtQuote L startText @ '' is not a cell reference'')
      else bindP currentP (\<lambda>t.
        if tkKind t \<noteq> tokenColon then
          (if startColumn \<noteq> None then errorfP (fmtQuote L startText @ '' is not a cell reference'')
           else bindP (liftP (resolveCell sc qualifier start)) (\<lambda>key.
             bindP (dependP [key]) (\<lambda>_. returnP (referenceNode key))))
        else bindP advanceP (\<lambda>_. bindP currentP (\<lambda>end.
          if tkKind end \<noteq> tokenIdentifier then errorfP ''range end must be a cell reference''
          else bindP advanceP (\<lambda>_.
            let endAddress = normalizeCellAddress (tkText end); endColumn = columnOnlyReference endAddress in
            if endColumn = None \<and> \<not> isReference endAddress
            then errorfP (fmtQuote L (tkText end) @ '' is not a cell reference'')
            else if startColumn = None \<and> endColumn = None then
              bindP (parseRangeP (start @ '':'' @ endAddress)) (\<lambda>r.
                buildRange sc qualifier (Row (Start r)) (Column (Start r)) (Row (End r)) (Column (End r)))
            else unboundedRange sc qualifier start startColumn endAddress endColumn)))))"

definition rowNumber :: "string \<Rightarrow> int option" where
  "rowNumber text = (case atoi text of None \<Rightarrow> None | Some row \<Rightarrow> if row < 1 \<or> row > MaxRows then None else Some row)"

definition rowBand :: "'f formula_library \<Rightarrow> 'f Scope \<Rightarrow> string \<Rightarrow> int \<Rightarrow> 'f node parser" where
  "rowBand L sc qualifier firstRow =
     bindP advanceP (\<lambda>_. bindP currentP (\<lambda>end.
       if tkKind end \<noteq> tokenNumber then errorfP ''row range end must be a row number''
       else bindP advanceP (\<lambda>_.
         case rowNumber (tkText end) of
           None \<Rightarrow> errorfP (fmtQuote L (tkText end) @ '' is not a row number'')
         | Some lastRow \<Rightarrow>
             if lastRow < firstRow then buildRange sc qualifier lastRow 1 firstRow (seColumns (extentFor sc qualifier))
             else buildRange sc qualifier firstRow 1 lastRow (seColumns (extentFor sc qualifier)))))"

section \<open>Tables\<close>

definition tableSpecifier :: "string \<Rightarrow> string option" where
  "tableSpecifier text =
     map_of
       [(''#'' @ [CHR 0xEC, CHR 0xA0, CHR 0x84, CHR 0xEC, CHR 0xB2, CHR 0xB4], ''all''), (''#ALL'', ''all''),
        (''#'' @ [CHR 0xEB, CHR 0xA8, CHR 0xB8, CHR 0xEB, CHR 0xA6, CHR 0xAC, CHR 0xEA, CHR 0xB8, CHR 0x80], ''headers''), (''#HEADERS'', ''headers''),
        (''#'' @ [CHR 0xEC, CHR 0x9E, CHR 0x90, CHR 0xEB, CHR 0xA3, CHR 0x8C], ''data''),
        (''#'' @ [CHR 0xEB, CHR 0x8D, CHR 0xB0, CHR 0xEC, CHR 0x9D, CHR 0xB4, CHR 0xED, CHR 0x84, CHR 0xB0], ''data''), (''#DATA'', ''data''),
        (''#'' @ [CHR 0xED, CHR 0x95, CHR 0xA9, CHR 0xEA, CHR 0xB3, CHR 0x84], ''totals''), (''#TOTALS'', ''totals'')]
       (to_upper (trim_space text))"

lemma trim_space_length: "length (trim_space s) \<le> length s"
proof -
  have "length (strip f t) \<le> length t" for f t using strip_suffix [of f t] by auto
  from this [of trail_space "rev (strip lead_space s)"] this [of lead_space s] show ?thesis
    by (simp add: trim_space_def)
qed

function unwrapBrackets :: "string \<Rightarrow> string" where
  "unwrapBrackets inner =
     (if length inner \<ge> 2 \<and> hd inner = CHR ''['' \<and> last inner = CHR '']''
      then unwrapBrackets (trim_space (butlast (tl inner))) else inner)"
  by pat_completeness auto

termination
proof (relation "measure length")
  fix inner :: string
  assume "length inner \<ge> 2 \<and> hd inner = CHR ''['' \<and> last inner = CHR '']''"
  then show "(trim_space (butlast (tl inner)), inner) \<in> measure length"
    using trim_space_length [of "butlast (tl inner)"] by auto
qed simp

declare unwrapBrackets.simps [simp del]

definition splitTableReference :: "string \<Rightarrow> (string \<times> string) option" where
  "splitTableReference text =
     (let front = takeWhile (\<lambda>c. c \<noteq> CHR ''['') text; behind = dropWhile (\<lambda>c. c \<noteq> CHR ''['') text in
      if front = [] \<or> behind = [] \<or> last text \<noteq> CHR '']'' then None
      else Some (trim_space front, unwrapBrackets (trim_space (butlast (tl behind)))))"

fun tableColumnIndex :: "string list \<Rightarrow> string \<Rightarrow> int option" where
  "tableColumnIndex [] name = None"
| "tableColumnIndex (column # columns) name =
     (if normalizeSheetName column = normalizeSheetName name then Some 0
      else map_option (\<lambda>i. i + 1) (tableColumnIndex columns name))"

text \<open>The first row, first column, last row and last column a specifier names in a table.\<close>

definition tablePart :: "string \<Rightarrow> formula_table \<Rightarrow> Range \<Rightarrow> string \<Rightarrow> string + int \<times> int \<times> int \<times> int" where
  "tablePart name table selected specifier =
     (let firstRow = Row (Start selected); lastRow = Row (End selected);
          firstColumn = Column (Start selected); lastColumn = Column (End selected);
          dataFirstRow = (if ftHeaderRow table then firstRow + 1 else firstRow);
          dataLastRow = (if ftTotalsRow table then lastRow - 1 else lastRow) in
      if specifier = [] then Inr (dataFirstRow, firstColumn, dataLastRow, lastColumn)
      else case tableSpecifier specifier of
          Some kind \<Rightarrow>
            if kind = ''all'' then Inr (firstRow, firstColumn, lastRow, lastColumn)
            else if kind = ''headers'' then
              (if \<not> ftHeaderRow table then Inl (''table '' @ name @ '' has no header row'')
               else Inr (firstRow, firstColumn, firstRow, lastColumn))
            else if kind = ''totals'' then
              (if \<not> ftTotalsRow table then Inl (''table '' @ name @ '' has no totals row'')
               else Inr (lastRow, firstColumn, lastRow, lastColumn))
            else Inr (dataFirstRow, firstColumn, dataLastRow, lastColumn)
        | None \<Rightarrow>
            (case tableColumnIndex (ftColumns table) specifier of
               None \<Rightarrow> Inl (''table '' @ name @ '' has no column called '' @ specifier)
             | Some index \<Rightarrow> Inr (dataFirstRow, firstColumn + index, dataLastRow, firstColumn + index)))"

definition tableReference :: "'f Scope \<Rightarrow> string \<Rightarrow> 'f node parser option" where
  "tableReference sc text =
     (let (name, specifier) = (case splitTableReference text of None \<Rightarrow> (text, []) | Some parts \<Rightarrow> parts) in
      case map_of (spTables sc) (normalizeSheetName name) of
        None \<Rightarrow> None
      | Some table \<Rightarrow> Some
          (case Parse (ftRange table) of
             Inl _ \<Rightarrow> typedP ''#REF!'' (''table '' @ name @ '' has an invalid range'')
           | Inr selected \<Rightarrow>
               (case tablePart name table selected specifier of
                  Inl message \<Rightarrow> typedP ''#REF!'' message
                | Inr (firstRow, firstColumn, lastRow, lastColumn) \<Rightarrow>
                    if firstRow > lastRow then typedP ''#REF!'' (''table '' @ name @ '' has no rows there'')
                    else bindP
                      (dependP (if ftHeaderRow table
                                then rectangle (ftSheetID table) (Row (Start selected)) (Column (Start selected))
                                       (Row (Start selected)) (Column (End selected)) else []))
                      (\<lambda>_. buildRangeAt (ftSheetID table) firstRow firstColumn lastRow lastColumn))))"

section \<open>Functions that talk about cells\<close>

definition nodeReference :: "'f node \<Rightarrow> (string \<times> Position \<times> int \<times> int) option" where
  "nodeReference n =
     (let found = (\<lambda>address rows columns.
        case SplitCellKey address of (sheetID, cell, valid) \<Rightarrow>
          if \<not> valid then None
          else case Parse cell of Inl _ \<Rightarrow> None | Inr selected \<Rightarrow> Some (sheetID, Start selected, rows, columns)) in
      case n of
        referenceNode address \<Rightarrow> found address 1 1
      | rangeNode rows columns (address # _) \<Rightarrow> found address rows columns
      | _ \<Rightarrow> None)"

definition anchorAddress :: "'f Scope \<Rightarrow> string" where
  "anchorAddress sc = (case SplitCellKey (spAnchor sc) of (_, address, valid) \<Rightarrow> if valid then address else [])"

text \<open>The sentinel for an argument \<^verbatim>\<open>OFFSET\<close> was not given is the least 64-bit integer.\<close>

definition offsetSkipped :: int where "offsetSkipped = - (2 ^ 63)"

definition skippedAsZero :: "int \<Rightarrow> int" where
  "skippedAsZero n = (if n = offsetSkipped then 0 else n)"

fun constantIntegers :: "'f formula_library \<Rightarrow> 'f node list \<Rightarrow> int list option" where
  "constantIntegers L [] = Some []"
| "constantIntegers L (n # ns) =
     (case n of
        literalNode v \<Rightarrow>
          if omitted v then map_option (\<lambda>is. offsetSkipped # is) (constantIntegers L ns)
          else (case toNumber L v of
                  None \<Rightarrow> None
                | Some x \<Rightarrow> map_option (\<lambda>is. flToInt L x # is) (constantIntegers L ns))
      | _ \<Rightarrow> None)"

text \<open>Where \<^verbatim>\<open>OFFSET\<close> moves a reference: the corners of the result.\<close>

definition offsetCorners :: "Position \<Rightarrow> int \<Rightarrow> int \<Rightarrow> int list \<Rightarrow> (int \<times> int \<times> int \<times> int) option" where
  "offsetCorners first rows columns offsets =
     (let height = (if length offsets \<ge> 3 \<and> offsets ! 2 \<noteq> offsetSkipped then offsets ! 2 else rows);
          width = (if length offsets = 4 \<and> offsets ! 3 \<noteq> offsetSkipped then offsets ! 3 else columns);
          startRow = wrap64 (Row first + skippedAsZero (offsets ! 0));
          startColumn = wrap64 (Column first + skippedAsZero (offsets ! 1)) in
      if startRow < 1 \<or> startColumn < 1 \<or> height < 1 \<or> width < 1 then None
      else Some (startRow, startColumn, wrap64 (startRow + height - 1), wrap64 (startColumn + width - 1)))"

definition lastBang :: "string \<Rightarrow> (string \<times> string) option" where
  "lastBang s =
     (if CHR ''!'' \<notin> set s then None
      else let behind = rev (takeWhile (\<lambda>c. c \<noteq> CHR ''!'') (rev s)) in
        Some (take (length s - length behind - 1) s, behind))"

definition trimQuotes :: "string \<Rightarrow> string" where
  "trimQuotes s = rev (dropWhile (\<lambda>c. c = CHR 0x27) (rev (dropWhile (\<lambda>c. c = CHR 0x27) s)))"

definition textReference :: "'f Scope \<Rightarrow> string \<Rightarrow> 'f node parser" where
  "textReference sc input =
     (let text = trim_space input;
          (qualifier, text) = (case lastBang text of
             None \<Rightarrow> ([], text) | Some (front, behind) \<Rightarrow> (trimQuotes (trim_space front), trim_space behind)) in
      bindP (liftP (sheetFor sc qualifier)) (\<lambda>sheetID.
        case Parse (filter (\<lambda>c. c \<noteq> CHR ''$'') text) of
          Inl _ \<Rightarrow> typedP ''#REF!'' (''INDIRECT received '' @ text @ '', which is not a reference'')
        | Inr selected \<Rightarrow>
            if Start selected = End selected then
              (let key = CellKey sheetID (Address (Row (Start selected)) (Column (Start selected))) in
               bindP (dependP [key]) (\<lambda>_. returnP (referenceNode key)))
            else buildRangeAt sheetID (Row (Start selected)) (Column (Start selected)) (Row (End selected)) (Column (End selected))))"

definition ImportKey :: "string \<Rightarrow> string \<Rightarrow> string" where
  "ImportKey source area =
     to_upper (trim_space source) @ [CHR 0x00] @ to_upper (filter (\<lambda>c. c \<noteq> CHR ''$'') (trim_space area))"

definition ExternalKey :: "string \<Rightarrow> string \<Rightarrow> string" where
  "ExternalKey name url = to_upper (trim_space name) @ [CHR 0x00] @ trim_space url"

definition argError :: "string \<Rightarrow> formula_error" where
  "argError name = formulaError ''#VALUE!'' (name @ '' received an invalid number of arguments'')"

definition importLiteralMessage :: string where
  "importLiteralMessage =
     ''IMPORTRANGE'' @ [CHR 0xEB, CHR 0x8A, CHR 0x94] @ '' '' @ [CHR 0xEC, CHR 0x9B, CHR 0x8C, CHR 0xED, CHR
     0x81, CHR 0xAC, CHR 0xEB, CHR 0xB6, CHR 0x81] @ '' '' @ [CHR 0xEC, CHR 0xA3, CHR 0xBC, CHR 0xEC, CHR
     0x86, CHR 0x8C, CHR 0xEC, CHR 0x99, CHR 0x80] @ '' '' @ [CHR 0xEB, CHR 0xB2, CHR 0x94, CHR 0xEC, CHR
     0x9C, CHR 0x84, CHR 0xEB, CHR 0xA5, CHR 0xBC] @ '' '' @ [CHR 0xED, CHR 0x81, CHR 0xB0, CHR 0xEB, CHR
     0x94, CHR 0xB0, CHR 0xEC, CHR 0x98, CHR 0xB4, CHR 0xED, CHR 0x91, CHR 0x9C] @ '' '' @ [CHR 0xEC, CHR
     0x95, CHR 0x88, CHR 0xEC, CHR 0x97, CHR 0x90] @ '' '' @ [CHR 0xEC, CHR 0xA7, CHR 0x81, CHR 0xEC, CHR
     0xA0, CHR 0x91] @ '' '' @ [CHR 0xEC, CHR 0xA0, CHR 0x81, CHR 0xEC, CHR 0x96, CHR 0xB4, CHR 0xEC, CHR
     0x95, CHR 0xBC] @ '' '' @ [CHR 0xED, CHR 0x95, CHR 0xA9, CHR 0xEB, CHR 0x8B, CHR 0x88, CHR 0xEB, CHR
     0x8B, CHR 0xA4]"

definition importMissingMessage :: string where
  "importMissingMessage =
     [CHR 0xEA, CHR 0xB0, CHR 0x80, CHR 0xEC, CHR 0xA0, CHR 0xB8, CHR 0xEC, CHR 0x98, CHR 0xAC] @ '' '' @ [CHR
     0xEC, CHR 0x88, CHR 0x98] @ '' '' @ [CHR 0xEC, CHR 0x97, CHR 0x86, CHR 0xEB, CHR 0x8A, CHR 0x94] @
     '' '' @ [CHR 0xEC, CHR 0x9B, CHR 0x90, CHR 0xEB, CHR 0xB3, CHR 0xB8, CHR 0xEC, CHR 0x9E, CHR 0x85,
     CHR 0xEB, CHR 0x8B, CHR 0x88, CHR 0xEB, CHR 0x8B, CHR 0xA4] @ ''. '' @ [CHR 0xEC, CHR 0x9B, CHR
     0x8C, CHR 0xED, CHR 0x81, CHR 0xAC, CHR 0xEB, CHR 0xB6, CHR 0x81] @ '' '' @ [CHR 0xEC, CHR 0xA3, CHR
     0xBC, CHR 0xEC, CHR 0x86, CHR 0x8C, CHR 0xEC, CHR 0x99, CHR 0x80] @ '' '' @ [CHR 0xEB, CHR 0xB2, CHR
     0x94, CHR 0xEC, CHR 0x9C, CHR 0x84, CHR 0xEB, CHR 0xA5, CHR 0xBC] @ '' '' @ [CHR 0xED, CHR 0x99, CHR
     0x95, CHR 0xEC, CHR 0x9D, CHR 0xB8, CHR 0xED, CHR 0x95, CHR 0xB4] @ '' '' @ [CHR 0xEC, CHR 0xA3, CHR
     0xBC, CHR 0xEC, CHR 0x84, CHR 0xB8, CHR 0xEC, CHR 0x9A, CHR 0x94]"

definition externalLiteralMessage :: string where
  "externalLiteralMessage =
     [CHR 0xEB, CHR 0x8A, CHR 0x94] @ '' '' @ [CHR 0xEC, CHR 0xA3, CHR 0xBC, CHR 0xEC, CHR 0x86, CHR 0x8C, CHR
     0xEB, CHR 0xA5, CHR 0xBC] @ '' '' @ [CHR 0xED, CHR 0x81, CHR 0xB0, CHR 0xEB, CHR 0x94, CHR 0xB0, CHR
     0xEC, CHR 0x98, CHR 0xB4, CHR 0xED, CHR 0x91, CHR 0x9C] @ '' '' @ [CHR 0xEC, CHR 0x95, CHR 0x88, CHR
     0xEC, CHR 0x97, CHR 0x90] @ '' '' @ [CHR 0xEC, CHR 0xA7, CHR 0x81, CHR 0xEC, CHR 0xA0, CHR 0x91] @
     '' '' @ [CHR 0xEC, CHR 0xA0, CHR 0x81, CHR 0xEC, CHR 0x96, CHR 0xB4, CHR 0xEC, CHR 0x95, CHR 0xBC] @
     '' '' @ [CHR 0xED, CHR 0x95, CHR 0xA9, CHR 0xEB, CHR 0x8B, CHR 0x88, CHR 0xEB, CHR 0x8B, CHR 0xA4]"

definition externalMissingMessage :: string where
  "externalMissingMessage =
     [CHR 0xEC, CHR 0x99, CHR 0xB8, CHR 0xEB, CHR 0xB6, CHR 0x80] @ '' '' @ [CHR 0xED, CHR 0x98, CHR 0xB8, CHR
     0xEC, CHR 0xB6, CHR 0x9C, CHR 0xEC, CHR 0x9D, CHR 0xB4] @ '' '' @ [CHR 0xEA, CHR 0xBA, CHR 0xBC, CHR
     0xEC, CHR 0xA0, CHR 0xB8] @ '' '' @ [CHR 0xEC, CHR 0x9E, CHR 0x88, CHR 0xEA, CHR 0xB1, CHR 0xB0, CHR
     0xEB, CHR 0x82, CHR 0x98] @ '' '' @ [CHR 0xEC, CHR 0x9D, CHR 0xB4] @ '' '' @ [CHR 0xEC, CHR 0xA3,
     CHR 0xBC, CHR 0xEC, CHR 0x86, CHR 0x8C, CHR 0xEB, CHR 0x8A, CHR 0x94] @ '' '' @ [CHR 0xED, CHR 0x97,
     CHR 0x88, CHR 0xEC, CHR 0x9A, CHR 0xA9, CHR 0xEB, CHR 0x90, CHR 0x98, CHR 0xEC, CHR 0xA7, CHR 0x80]
     @ '' '' @ [CHR 0xEC, CHR 0x95, CHR 0x8A, CHR 0xEC, CHR 0x95, CHR 0x98, CHR 0xEC, CHR 0x8A, CHR 0xB5,
     CHR 0xEB, CHR 0x8B, CHR 0x88, CHR 0xEB, CHR 0x8B, CHR 0xA4] @ ''. '' @ [CHR 0xEA, CHR 0xB4, CHR
     0x80, CHR 0xEB, CHR 0xA6, CHR 0xAC, CHR 0xEC, CHR 0x9E, CHR 0x90] @ '' '' @ [CHR 0xEC, CHR 0x84, CHR
     0xA4, CHR 0xEC, CHR 0xA0, CHR 0x95, CHR 0xEC, CHR 0x9D, CHR 0x84] @ '' '' @ [CHR 0xED, CHR 0x99, CHR
     0x95, CHR 0xEC, CHR 0x9D, CHR 0xB8, CHR 0xED, CHR 0x95, CHR 0xB4] @ '' '' @ [CHR 0xEC, CHR 0xA3, CHR
     0xBC, CHR 0xEC, CHR 0x84, CHR 0xB8, CHR 0xEC, CHR 0x9A, CHR 0x94]"

text \<open>The only value of a fetched block of one cell; the code indexes it.\<close>

definition onlyValue :: "'f fetched \<Rightarrow> 'f node parser" where
  "onlyValue result = (case fetValues result of [] \<Rightarrow> crashedP | v # _ \<Rightarrow> returnP (literalNode v))"

definition evaluateImportRange :: "'f formula_library \<Rightarrow> 'f Scope \<Rightarrow> 'f node list \<Rightarrow> 'f node parser" where
  "evaluateImportRange L sc arguments =
     (case arguments of
        [literalNode source, literalNode area] \<Rightarrow>
          (case map_of (spImports sc) (ImportKey (display L source) (display L area)) of
             None \<Rightarrow> typedP ''#REF!'' importMissingMessage
           | Some imported \<Rightarrow>
               (case fetErr imported of
                  Some e \<Rightarrow> failP (Typed e)
                | None \<Rightarrow>
                    if fetRows imported = 1 \<and> fetColumns imported = 1 then onlyValue imported
                    else returnP (importedNode (fetRows imported) (fetColumns imported) (fetValues imported))))
      | _ \<Rightarrow> if length arguments \<noteq> 2 then failP (Typed (argError ''IMPORTRANGE''))
             else typedP ''#VALUE!'' importLiteralMessage)"

definition evaluateExternal :: "'f formula_library \<Rightarrow> 'f Scope \<Rightarrow> string \<Rightarrow> 'f node list \<Rightarrow> 'f node parser" where
  "evaluateExternal L sc name arguments =
     (case arguments of
        [literalNode address] \<Rightarrow>
          (case map_of (spExternal sc) (ExternalKey name (display L address)) of
             None \<Rightarrow> typedP ''#N/A'' externalMissingMessage
           | Some result \<Rightarrow>
               (case fetErr result of
                  Some e \<Rightarrow> typedP (ferCode e) (ferMessage e)
                | None \<Rightarrow>
                    if name = ''WEBSERVICE'' then returnP (literalNode (VText (fetText result)))
                    else if fetRows result = 0 \<or> fetColumns result = 0 then returnP (literalNode (VText []))
                    else if fetRows result = 1 \<and> fetColumns result = 1 then onlyValue result
                    else returnP (literalNode (arrayValue (fetRows result) (fetColumns result) (fetValues result)))))
      | _ \<Rightarrow> if length arguments \<noteq> 1 then failP (Typed (argError name))
             else typedP ''#VALUE!'' (name @ externalLiteralMessage))"

definition rowColumnFunction :: "'f formula_library \<Rightarrow> 'f Scope \<Rightarrow> string \<Rightarrow> 'f node list \<Rightarrow> 'f node parser" where
  "rowColumnFunction L sc name arguments =
     (let answer = (\<lambda>p. returnP (literalNode (VNumber (flOfInt L (if name = ''ROW'' then Row p else Column p))))) in
      case arguments of
        [] \<Rightarrow> (case Parse (anchorAddress sc) of
                 Inl _ \<Rightarrow> typedP ''#N/A'' (name @ ''() needs to be used inside a cell'')
               | Inr selected \<Rightarrow> answer (Start selected))
      | [n] \<Rightarrow> (case nodeReference n of
                  None \<Rightarrow> typedP ''#VALUE!'' (name @ '' requires a cell reference'')
                | Some (_, first, _, _) \<Rightarrow> answer first)
      | _ \<Rightarrow> failP (Typed (argError name)))"

definition offsetFunction :: "'f formula_library \<Rightarrow> 'f node list \<Rightarrow> 'f node parser" where
  "offsetFunction L arguments =
     (if length arguments < 3 \<or> length arguments > 5 then failP (Typed (argError ''OFFSET''))
      else case nodeReference (hd arguments) of
          None \<Rightarrow> typedP ''#VALUE!'' ''OFFSET requires a cell reference''
        | Some (sheetID, first, rows, columns) \<Rightarrow>
            (case constantIntegers L (tl arguments) of
               None \<Rightarrow> returnP (dynamicReferenceNode ''OFFSET'' arguments sheetID first)
             | Some offsets \<Rightarrow>
                 (case offsetCorners first rows columns offsets of
                    None \<Rightarrow> typedP ''#REF!'' ''OFFSET moved outside the sheet''
                  | Some (firstRow, firstColumn, lastRow, lastColumn) \<Rightarrow>
                      buildRangeAt sheetID firstRow firstColumn lastRow lastColumn)))"

definition indirectFunction :: "'f formula_library \<Rightarrow> 'f Scope \<Rightarrow> 'f node list \<Rightarrow> 'f node parser" where
  "indirectFunction L sc arguments =
     (if length arguments < 1 \<or> length arguments > 2 then failP (Typed (argError ''INDIRECT''))
      else case hd arguments of
          literalNode v \<Rightarrow> textReference sc (display L v)
        | _ \<Rightarrow> returnP (dynamicReferenceNode ''INDIRECT'' arguments (spCurrentSheet sc) \<lparr>Row = 0, Column = 0\<rparr>))"

definition referenceFunction :: "'f formula_library \<Rightarrow> 'f Scope \<Rightarrow> string \<Rightarrow> 'f node list \<Rightarrow> 'f node parser option" where
  "referenceFunction L sc name arguments =
     (if name = ''ROW'' \<or> name = ''COLUMN'' then Some (rowColumnFunction L sc name arguments)
      else if name = ''OFFSET'' then Some (offsetFunction L arguments)
      else if name = ''IMPORTRANGE'' then Some (evaluateImportRange L sc arguments)
      else if name = ''WEBSERVICE'' \<or> name = ''IMPORTDATA'' then Some (evaluateExternal L sc name arguments)
      else if name = ''INDIRECT'' then Some (indirectFunction L sc arguments)
      else None)"

end
