(* ===== verification/FormulaParser.thy ===== *)
theory FormulaParser
  imports FormulaTree
begin

text \<open>
  The parser of formulas: the methods of \<^verbatim>\<open>parser\<close> in
  \<^verbatim>\<open>internal/formula/evaluator.go\<close>, \<^verbatim>\<open>binding.go\<close> and
  \<^verbatim>\<open>named_function.go\<close>. Everything recursive goes through \<^verbatim>\<open>expression\<close>, so
  the other methods take it as the argument \<open>expr\<close>, and only the loops and \<open>expression\<close> itself
  carry fuel. \<open>parse\<close> starts with more fuel than a formula can use: every call consumes a
  token or enters the body of a named function, which is bounded in depth.
\<close>

definition MaxNamedFunctionDepth :: nat where "MaxNamedFunctionDepth = 16"

definition failureText :: "go_failure \<Rightarrow> string" where
  "failureText f = (case f of Typed e \<Rightarrow> ferCode e @ '': '' @ ferMessage e | Untyped message \<Rightarrow> message)"

definition upperName :: "string \<Rightarrow> string" where
  "upperName text = to_upper (filter (\<lambda>c. c \<noteq> CHR ''$'') text)"

section \<open>Operators\<close>

definition operatorPrecedence :: "string \<Rightarrow> int" where
  "operatorPrecedence operator =
     (if operator \<in> {''='', ''<>'', ''<'', ''>'', ''<='', ''>=''} then 1
      else if operator = ''&'' then 2
      else if operator \<in> {''+'', ''-''} then 3
      else if operator \<in> {''*'', ''/''} then 4
      else if operator = ''^'' then 5 else -1)"

fun expressionLoop :: "(int \<Rightarrow> 'f node parser) \<Rightarrow> nat \<Rightarrow> int \<Rightarrow> 'f node \<Rightarrow> 'f node parser" where
  "expressionLoop expr 0 minimum left = exhaustedP"
| "expressionLoop expr (Suc fuel) minimum left =
     bindP currentP (\<lambda>t.
       if tkKind t \<noteq> tokenOperator then returnP left
       else
         let operator = tkText t; precedence = operatorPrecedence operator in
         if precedence < minimum then returnP left
         else bindP advanceP (\<lambda>_.
           bindP (expr (if operator = ''^'' then precedence else precedence + 1)) (\<lambda>right.
             expressionLoop expr fuel minimum (binaryNode operator left right))))"

fun prefix :: "'f node parser \<Rightarrow> nat \<Rightarrow> 'f node parser" where
  "prefix prim 0 = exhaustedP"
| "prefix prim (Suc fuel) =
     bindP currentP (\<lambda>t.
       if tkKind t = tokenOperator \<and> (tkText t = ''+'' \<or> tkText t = ''-'')
       then bindP advanceP (\<lambda>_. bindP (prefix prim fuel) (\<lambda>v. returnP (unaryNode (tkText t) v)))
       else prim)"

section \<open>Argument lists and array literals\<close>

definition isSeparator :: "tokenKind \<Rightarrow> bool" where
  "isSeparator kind = (kind = tokenComma \<or> kind = tokenSemicolon)"

text \<open>The arguments of a function; an empty slot is an omitted argument.\<close>

fun argumentsLoop :: "(int \<Rightarrow> 'f node parser) \<Rightarrow> nat \<Rightarrow> 'f node list \<Rightarrow> 'f node list parser" where
  "argumentsLoop expr 0 arguments = exhaustedP"
| "argumentsLoop expr (Suc fuel) arguments =
     bindP currentP (\<lambda>t.
       if isSeparator (tkKind t) \<or> tkKind t = tokenRight then
         (if tkKind t = tokenRight then returnP (arguments @ [literalNode omittedValue])
          else bindP advanceP (\<lambda>_. argumentsLoop expr fuel (arguments @ [literalNode omittedValue])))
       else bindP (expr 0) (\<lambda>argument. bindP currentP (\<lambda>t.
         if isSeparator (tkKind t)
         then bindP advanceP (\<lambda>_. argumentsLoop expr fuel (arguments @ [argument]))
         else returnP (arguments @ [argument]))))"

text \<open>The arguments of a \<^verbatim>\<open>LAMBDA\<close> or a named function, all of them given.\<close>

fun plainArguments :: "(int \<Rightarrow> 'f node parser) \<Rightarrow> nat \<Rightarrow> 'f node list \<Rightarrow> 'f node list parser" where
  "plainArguments expr 0 arguments = exhaustedP"
| "plainArguments expr (Suc fuel) arguments =
     bindP (expr 0) (\<lambda>argument. bindP currentP (\<lambda>t.
       if isSeparator (tkKind t)
       then bindP advanceP (\<lambda>_. plainArguments expr fuel (arguments @ [argument]))
       else returnP (arguments @ [argument])))"

definition optionalArguments :: "(nat \<Rightarrow> 'f node list \<Rightarrow> 'f node list parser) \<Rightarrow> nat \<Rightarrow> 'f node list parser" where
  "optionalArguments loop fuel =
     bindP currentP (\<lambda>t.
     bindP (if tkKind t \<noteq> tokenRight then loop fuel [] else returnP []) (\<lambda>arguments.
     bindP (expectP tokenRight ''missing closing parenthesis'') (\<lambda>_. returnP arguments)))"

text \<open>The rows of an array literal, from behind the brace to behind the closing one.\<close>

fun arrayRows :: "(int \<Rightarrow> 'f node parser) \<Rightarrow> nat \<Rightarrow> 'f node list list \<Rightarrow> 'f node list \<Rightarrow> 'f node list list parser" where
  "arrayRows expr 0 rows current = exhaustedP"
| "arrayRows expr (Suc fuel) rows current =
     bindP currentP (\<lambda>t.
       if tkKind t = tokenArrayClose then bindP advanceP (\<lambda>_. returnP rows)
       else bindP (expr 0) (\<lambda>v. bindP currentP (\<lambda>t.
         if tkKind t = tokenComma then bindP advanceP (\<lambda>_. arrayRows expr fuel rows (current @ [v]))
         else if tkKind t = tokenSemicolon then bindP advanceP (\<lambda>_. arrayRows expr fuel (rows @ [current @ [v]]) [])
         else if tkKind t = tokenArrayClose then bindP advanceP (\<lambda>_. returnP (rows @ [current @ [v]]))
         else errorfP ''array literal expects , between values and ; between rows'')))"

definition arrayLiteral :: "(int \<Rightarrow> 'f node parser) \<Rightarrow> nat \<Rightarrow> 'f node parser" where
  "arrayLiteral expr fuel =
     bindP (arrayRows expr fuel [] []) (\<lambda>rows.
       if rows = [] \<or> hd rows = [] then typedP ''#VALUE!'' ''array literal is empty''
       else let columns = length (hd rows) in
         if \<exists>row \<in> set rows. length row \<noteq> columns
         then typedP ''#VALUE!'' ''every row of an array literal needs the same number of values''
         else if sum_list (map length rows) > 100000 then typedP ''#VALUE!'' ''range is too large''
         else returnP (arrayLiteralNode (int (length rows)) (int columns) (concat rows)))"

section \<open>Names of \<^verbatim>\<open>LET\<close> and \<^verbatim>\<open>LAMBDA\<close>\<close>

definition bindingName :: "string \<Rightarrow> string parser" where
  "bindingName owner =
     bindP currentP (\<lambda>t.
       if tkKind t \<noteq> tokenIdentifier then errorfP (owner @ '' expects a name'')
       else if isReference (upperName (tkText t))
       then typedP ''#VALUE!'' (owner @ '' cannot use '' @ tkText t @ '' as a name because it is a cell reference'')
       else bindP advanceP (\<lambda>_. returnP (upperName (tkText t))))"

definition lookupBinding :: "(string \<times> nat \<times> nat) list \<Rightarrow> string \<Rightarrow> 'f node option" where
  "lookupBinding bindings name =
     (case find (\<lambda>(bound, _). bound = name) (rev bindings) of
        None \<Rightarrow> None | Some (_, owner, index) \<Rightarrow> Some (bindingNode owner index))"

definition startsBindingName :: "bool parser" where
  "startsBindingName =
     bindP currentP (\<lambda>t.
       if tkKind t \<noteq> tokenIdentifier then returnP False
       else bindP (tokenP 1) (\<lambda>next.
         returnP (isSeparator (tkKind next) \<and> \<not> isReference (upperName (tkText t)))))"

definition newFrame :: "nat parser" where
  "newFrame s = Ran (psFrames s) (s\<lparr>psFrames := psFrames s + 1\<rparr>)"

definition bindNameP :: "string \<Rightarrow> nat \<Rightarrow> nat \<Rightarrow> unit parser" where
  "bindNameP name owner index s = Ran () (s\<lparr>psBindings := psBindings s @ [(name, owner, index)]\<rparr>)"

text \<open>The bindings made inside are gone afterwards.\<close>

definition scopedP :: "'a parser \<Rightarrow> 'a parser" where
  "scopedP m s =
     (case m s of
        Ran x s' \<Rightarrow> Ran x (s'\<lparr>psBindings := take (length (psBindings s)) (psBindings s')\<rparr>)
      | r \<Rightarrow> r)"

text \<open>One name of a \<^verbatim>\<open>LET\<close> with its value, and whether another name follows.\<close>

definition letBinding :: "(int \<Rightarrow> 'f node parser) \<Rightarrow> nat \<Rightarrow> nat \<Rightarrow> ('f node \<times> bool) parser" where
  "letBinding expr frame index =
     bindP (bindingName ''LET'') (\<lambda>name. bindP currentP (\<lambda>t.
       if \<not> isSeparator (tkKind t) then errorfP (''LET needs a value for '' @ name)
       else bindP advanceP (\<lambda>_. bindP (expr 0) (\<lambda>v.
         bindP (bindNameP name frame index) (\<lambda>_. bindP currentP (\<lambda>t.
           if \<not> isSeparator (tkKind t) then errorfP ''LET needs a calculation after the last name''
           else bindP advanceP (\<lambda>_. bindP startsBindingName (\<lambda>follows. returnP (v, follows)))))))))"

fun letLoop :: "(int \<Rightarrow> 'f node parser) \<Rightarrow> nat \<Rightarrow> nat \<Rightarrow> 'f node list \<Rightarrow> 'f node parser" where
  "letLoop expr 0 frame nodes = exhaustedP"
| "letLoop expr (Suc fuel) frame nodes =
     bindP (letBinding expr frame (length nodes)) (\<lambda>(v, follows).
       if follows then letLoop expr fuel frame (nodes @ [v])
       else bindP (expr 0) (\<lambda>calculation.
         bindP (expectP tokenRight ''missing closing parenthesis'') (\<lambda>_.
           returnP (letNode frame (nodes @ [v]) calculation))))"

definition parseLet :: "(int \<Rightarrow> 'f node parser) \<Rightarrow> nat \<Rightarrow> 'f node parser" where
  "parseLet expr fuel = scopedP (bindP newFrame (\<lambda>frame. letLoop expr fuel frame []))"

fun parametersLoop :: "nat \<Rightarrow> nat \<Rightarrow> string list \<Rightarrow> string list parser" where
  "parametersLoop 0 frame parameters = exhaustedP"
| "parametersLoop (Suc fuel) frame parameters =
     bindP startsBindingName (\<lambda>more.
       if \<not> more then returnP parameters
       else bindP (bindingName ''LAMBDA'') (\<lambda>name.
         bindP (bindNameP name frame (length parameters)) (\<lambda>_.
         bindP advanceP (\<lambda>_. parametersLoop fuel frame (parameters @ [name])))))"

definition parseLambda :: "(int \<Rightarrow> 'f node parser) \<Rightarrow> nat \<Rightarrow> 'f node parser" where
  "parseLambda expr fuel =
     scopedP (bindP newFrame (\<lambda>frame.
       bindP (parametersLoop fuel frame []) (\<lambda>parameters. bindP (expr 0) (\<lambda>body.
         bindP (expectP tokenRight ''missing closing parenthesis'') (\<lambda>_.
           returnP (lambdaNode frame parameters body))))))"

definition callable :: "(int \<Rightarrow> 'f node parser) \<Rightarrow> nat \<Rightarrow> 'f node \<Rightarrow> 'f node parser" where
  "callable expr fuel target =
     bindP currentP (\<lambda>t.
       if tkKind t \<noteq> tokenLeft then returnP target
       else bindP advanceP (\<lambda>_. bindP (optionalArguments (plainArguments expr) fuel) (\<lambda>arguments.
         returnP (lambdaCallNode target arguments))))"

section \<open>Named functions\<close>

definition namedBodyText :: "named_function \<Rightarrow> string" where
  "namedBodyText definition =
     (let text = trim_space (nfBody definition) in
      if text \<noteq> [] \<and> hd text = CHR ''='' then tl text else text)"

text \<open>
  The body is parsed by a parser of its own, over its own tokens, with the parameters bound,
  one level deeper; its dependencies go into the same set.
\<close>

definition parseNamedFunctionBody ::
  "'f formula_library \<Rightarrow> (int \<Rightarrow> 'f node parser) \<Rightarrow> string \<Rightarrow> named_function \<Rightarrow> 'f node parser" where
  "parseNamedFunctionBody L expr name definition s =
     (let text = namedBodyText definition in
      if text = [] then typedP ''#VALUE!'' (''named function '' @ name @ '' has no formula'') s
      else case lex (lexer_tables.truncate L) text of
          Inl message \<Rightarrow> typedP ''#VALUE!'' (''named function '' @ name @ '' is not a formula: '' @ message) s
        | Inr tokens \<Rightarrow>
            let frame = psFrames s;
                inner = s\<lparr>psTokens := tokens, psPosition := 0, psDepth := psDepth s + 1, psFrames := frame + 1,
                  psBindings := map (\<lambda>(index, parameter). (normalizeSheetName parameter, frame, index))
                    (zip [0..<length (nfParameters definition)] (nfParameters definition))\<rparr>;
                outer = (\<lambda>s'. s\<lparr>psDependencies := psDependencies s', psFrames := psFrames s'\<rparr>) in
            (case expr 0 inner of
               Ran parsed s' \<Rightarrow>
                 (case currentP s' of
                    Ran t _ \<Rightarrow>
                      if tkKind t \<noteq> tokenEOF
                      then typedP ''#VALUE!'' (''named function '' @ name @ '' has leftover text after its formula'') (outer s')
                      else Ran (lambdaNode frame (nfParameters definition) parsed) (outer s')
                  | _ \<Rightarrow> Crashed)
             | Stopped (Typed e) s' \<Rightarrow> Stopped (Typed e) (outer s')
             | Stopped (Untyped message) s' \<Rightarrow>
                 typedP ''#VALUE!'' (''named function '' @ name @ '' is not a formula: '' @ message) (outer s')
             | Crashed \<Rightarrow> Crashed
             | Exhausted \<Rightarrow> Exhausted))"

definition namedFunctionCall ::
  "'f formula_library \<Rightarrow> (int \<Rightarrow> 'f node parser) \<Rightarrow> nat \<Rightarrow> string \<Rightarrow> named_function \<Rightarrow> 'f node parser" where
  "namedFunctionCall L expr fuel name definition s =
     (if psDepth s \<ge> MaxNamedFunctionDepth
      then typedP ''#VALUE!'' (''named function '' @ name @ '' calls itself too deeply'') s
      else bindP (optionalArguments (plainArguments expr) fuel) (\<lambda>arguments.
        if length arguments \<noteq> length (nfParameters definition)
        then typedP ''#N/A'' (name @ '' takes '' @ itoa (int (length (nfParameters definition))) @ '' argument(s), not '' @
               itoa (int (length arguments)))
        else bindP (parseNamedFunctionBody L expr name definition) (\<lambda>body.
          returnP (lambdaCallNode body arguments))) s)"

section \<open>Primaries\<close>

text \<open>A call, from behind its opening parenthesis.\<close>

definition functionCall ::
  "'f formula_library \<Rightarrow> 'f Scope \<Rightarrow> (int \<Rightarrow> 'f node parser) \<Rightarrow> nat \<Rightarrow> string \<Rightarrow> 'f node parser" where
  "functionCall L sc expr fuel name s =
     (if name = ''LET'' then parseLet expr fuel s
      else if name = ''LAMBDA'' then bindP (parseLambda expr fuel) (callable expr fuel) s
      else case lookupBinding (psBindings s) name of
          Some bound \<Rightarrow> bindP retreatP (\<lambda>_. callable expr fuel bound) s
        | None \<Rightarrow>
            (case map_of (spNamedFunctions sc) (normalizeSheetName name) of
               Some definition \<Rightarrow> namedFunctionCall L expr fuel name definition s
             | None \<Rightarrow>
                 bindP (optionalArguments (argumentsLoop expr) fuel) (\<lambda>arguments.
                   case referenceFunction L sc name arguments of
                     Some resolved \<Rightarrow> resolved
                   | None \<Rightarrow>
                       if name = ''TRUE'' \<or> name = ''FALSE'' then returnP (literalNode (VBool (name = ''TRUE'')))
                       else returnP (functionNode name arguments)) s))"

definition bareName :: "'f formula_library \<Rightarrow> 'f Scope \<Rightarrow> string \<Rightarrow> 'f node parser" where
  "bareName L sc text s =
     (let name = upperName text in
      if name = ''TRUE'' then returnP (literalNode (VBool True)) s
      else if name = ''FALSE'' then returnP (literalNode (VBool False)) s
      else bindP currentP (\<lambda>t.
        if columnOnlyReference name \<noteq> None \<and> tkKind t = tokenColon then cellReference L sc [] text
        else case lookupBinding (psBindings s) name of
            Some bound \<Rightarrow> returnP bound
          | None \<Rightarrow>
              if isReference name then cellReference L sc [] text
              else (case tableReference sc text of
                      Some table \<Rightarrow> table
                    | None \<Rightarrow>
                        if map_of (spNamedRanges sc) (normalizeSheetName name) = None \<and> isCallableName sc name
                        then returnP (literalNode (functionValue (canonicalFunctionName name)))
                        else namedRange sc text)) s)"

text \<open>Behind an exclamation mark: the reference a sheet name qualifies.\<close>

definition qualifiedReference :: "'f formula_library \<Rightarrow> 'f Scope \<Rightarrow> string \<Rightarrow> 'f node parser" where
  "qualifiedReference L sc qualifier =
     bindP currentP (\<lambda>start.
     bindP (if tkKind start = tokenNumber then bindP (tokenP 1) (\<lambda>t. returnP (tkKind t = tokenColon)) else returnP False) (\<lambda>band.
       if band then
         (case rowNumber (tkText start) of
            None \<Rightarrow> errorfP (fmtQuote L (tkText start) @ '' is not a row number'')
          | Some row \<Rightarrow> bindP advanceP (\<lambda>_. rowBand L sc qualifier row))
       else if tkKind start \<noteq> tokenIdentifier
       then errorfP ''sheet qualifier must be followed by a cell reference''
       else bindP advanceP (\<lambda>_. cellReference L sc qualifier (tkText start))))"

definition identifierPrimary ::
  "'f formula_library \<Rightarrow> 'f Scope \<Rightarrow> (int \<Rightarrow> 'f node parser) \<Rightarrow> nat \<Rightarrow> token \<Rightarrow> 'f node parser" where
  "identifierPrimary L sc expr fuel current =
     bindP currentP (\<lambda>t.
       if tkKind current = tokenQuotedIdentifier \<and> tkKind t \<noteq> tokenBang
       then errorfP (''quoted name '' @ fmtQuote L (tkText current) @ '' must qualify a cell reference'')
       else if tkKind t = tokenBang then bindP advanceP (\<lambda>_. qualifiedReference L sc (tkText current))
       else if tkKind t = tokenLeft
       then bindP advanceP (\<lambda>_. functionCall L sc expr fuel (canonicalFunctionName (upperName (tkText current))))
       else bareName L sc (tkText current))"

definition numberPrimary :: "'f formula_library \<Rightarrow> 'f Scope \<Rightarrow> token \<Rightarrow> 'f node parser" where
  "numberPrimary L sc current =
     bindP currentP (\<lambda>t.
     bindP (if tkKind t = tokenColon then bindP (tokenP 1) (\<lambda>next. returnP (tkKind next = tokenNumber)) else returnP False) (\<lambda>band.
       case (if band then rowNumber (tkText current) else None) of
         Some row \<Rightarrow> rowBand L sc [] row
       | None \<Rightarrow>
           (case flParseFloat L (tkText current) of
              Inl message \<Rightarrow> errorfP message | Inr x \<Rightarrow> returnP (literalNode (VNumber x)))))"

definition primary :: "'f formula_library \<Rightarrow> 'f Scope \<Rightarrow> (int \<Rightarrow> 'f node parser) \<Rightarrow> nat \<Rightarrow> 'f node parser" where
  "primary L sc expr fuel =
     bindP currentP (\<lambda>current. bindP advanceP (\<lambda>_.
       case tkKind current of
         tokenNumber \<Rightarrow> numberPrimary L sc current
       | tokenString \<Rightarrow> returnP (literalNode (VText (tkText current)))
       | tokenError \<Rightarrow> returnP (errorNode (formulaError (tkText current) (''formula contains '' @ tkText current)))
       | tokenLeft \<Rightarrow>
           bindP (expr 0) (\<lambda>v. bindP (expectP tokenRight ''missing closing parenthesis'') (\<lambda>_. returnP v))
       | tokenArrayOpen \<Rightarrow> arrayLiteral expr fuel
       | tokenIdentifier \<Rightarrow> identifierPrimary L sc expr fuel current
       | tokenQuotedIdentifier \<Rightarrow> identifierPrimary L sc expr fuel current
       | _ \<Rightarrow> errorfP (''unexpected token '' @ fmtQuote L (tkText current))))"

section \<open>Formulas\<close>

fun expression :: "'f formula_library \<Rightarrow> 'f Scope \<Rightarrow> nat \<Rightarrow> int \<Rightarrow> 'f node parser" where
  "expression L sc 0 minimum = exhaustedP"
| "expression L sc (Suc fuel) minimum =
     bindP (prefix (primary L sc (expression L sc fuel) (Suc fuel)) (Suc fuel))
       (expressionLoop (expression L sc fuel) (Suc fuel) minimum)"

text \<open>Enough for every token of the formula and, at each depth, of the longest body.\<close>

definition bodyFuel :: "'f Scope \<Rightarrow> nat" where
  "bodyFuel sc = fold max (map (\<lambda>(_, definition). length (nfBody definition) + 3) (spNamedFunctions sc)) 0"

definition parserFuel :: "'f Scope \<Rightarrow> token list \<Rightarrow> nat" where
  "parserFuel sc tokens = length tokens + MaxNamedFunctionDepth * bodyFuel sc"

definition newParser :: "token list \<Rightarrow> parser_state" where
  "newParser tokens =
     \<lparr>psTokens = tokens, psPosition = 0, psDependencies = [], psBindings = [], psDepth = 0, psFrames = 0\<rparr>"

definition parse :: "'f formula_library \<Rightarrow> 'f Scope \<Rightarrow> 'f node parser" where
  "parse L sc s =
     bindP (expression L sc (parserFuel sc (psTokens s)) 0) (\<lambda>result. bindP currentP (\<lambda>t.
       if tkKind t \<noteq> tokenEOF then errorfP (''unexpected token '' @ fmtQuote L (tkText t)) else returnP result)) s"

text \<open>
  \<^verbatim>\<open>newParser\<close> and \<^verbatim>\<open>parse\<close> for the graph: the scope with the extent, the sheet and
  the cell of the formula.
\<close>

definition scopeFor :: "'f Scope \<Rightarrow> (string \<times> SheetExtent) list \<Rightarrow> string \<Rightarrow> string \<Rightarrow> 'f Scope" where
  "scopeFor sc extent currentSheet anchor =
     sc\<lparr>spExtent := extent,
        spCurrentSheet := (if currentSheet \<noteq> [] then to_upper (trim_space currentSheet) else spCurrentSheet sc),
        spAnchor := anchor\<rparr>"

definition parseFormula ::
  "'f formula_library \<Rightarrow> 'f Scope \<Rightarrow> (string \<times> SheetExtent) list \<Rightarrow> string \<Rightarrow> string \<Rightarrow> string \<Rightarrow> 'f node parsed" where
  "parseFormula L sc extent input currentSheet anchor =
     (case lex (lexer_tables.truncate L) input of
        Inl message \<Rightarrow> LexError message
      | Inr tokens \<Rightarrow>
          (case parse L (scopeFor sc extent currentSheet anchor) (newParser tokens) of
             Ran root s \<Rightarrow> Parsed (psDependencies s) root
           | Stopped failure s \<Rightarrow> ParseError (psDependencies s) failure
           | Crashed \<Rightarrow> ParseError [] (Untyped ''index out of range'')
           | Exhausted \<Rightarrow> ParseError [] (Untyped ''out of fuel'')))"

end
