(* ===== verification/ParserFacts.thy ===== *)
theory ParserFacts
  imports FormulaParser
begin

text \<open>
  Why the parser is right: a run never leaves its tokens, never ends out of fuel, and ends with
  the cells its tree reads among its dependencies. A run is described by what holds at its
  end, \<open>ends\<close>, with one rule per construct of the parser; the contract of \<open>expression\<close> is the
  locale \<open>expression_parser\<close>, in which the other methods are proved once.
\<close>

section \<open>What a tree reads\<close>

text \<open>The cells a tree reads, in it or in the functions it makes.\<close>

primrec reads_value :: "'f val \<Rightarrow> string set" and reads :: "'f node \<Rightarrow> string set" where
  "reads_value VNil = {}"
| "reads_value (VNumber x) = {}"
| "reads_value (VText t) = {}"
| "reads_value (VBool b) = {}"
| "reads_value omittedValue = {}"
| "reads_value (arrayValue rows columns vs) = \<Union> (set (map reads_value vs))"
| "reads_value (functionValue name) = {}"
| "reads_value (lambdaValue frame parameters body) = reads body"
| "reads_value (VError e) = {}"
| "reads (literalNode v) = reads_value v"
| "reads (errorNode e) = {}"
| "reads (referenceNode address) = {address}"
| "reads (rangeNode rows columns addresses) = set addresses"
| "reads (unaryNode operator n) = reads n"
| "reads (binaryNode operator left right) = reads left \<union> reads right"
| "reads (functionNode name arguments) = \<Union> (set (map reads arguments))"
| "reads (arrayLiteralNode rows columns ns) = \<Union> (set (map reads ns))"
| "reads (dynamicReferenceNode kind arguments sheetID base) = \<Union> (set (map reads arguments))"
| "reads (importedNode rows columns vs) = \<Union> (set (map reads_value vs))"
| "reads (bindingNode owner index) = {}"
| "reads (letNode frame ns calculation) = \<Union> (set (map reads ns)) \<union> reads calculation"
| "reads (lambdaNode frame parameters body) = reads body"
| "reads (lambdaCallNode target arguments) = reads target \<union> \<Union> (set (map reads arguments))"

definition covered :: "'f node \<Rightarrow> parser_state \<Rightarrow> bool" where
  "covered n s = (reads n \<subseteq> set (psDependencies s))"

section \<open>Runs\<close>

text \<open>
  \<open>OFFSET\<close> is the one function whose arguments can drive the parser out of an index; \<open>crash\<close> says
  whether such formulas are admitted.
\<close>

definition names_offset :: "token \<Rightarrow> bool" where
  "names_offset t = (tkKind t = tokenIdentifier \<and> canonicalFunctionName (upperName (tkText t)) = ''OFFSET'')"

definition admitted :: "bool \<Rightarrow> token list \<Rightarrow> bool" where
  "admitted crash tokens = (token_list tokens \<and> (crash \<or> (\<forall>t \<in> set tokens. \<not> names_offset t)))"

definition valid :: "bool \<Rightarrow> parser_state \<Rightarrow> bool" where
  "valid crash s = (admitted crash (psTokens s) \<and> psPosition s < length (psTokens s))"

definition ends :: "bool \<Rightarrow> 'a parser \<Rightarrow> parser_state \<Rightarrow> ('a \<Rightarrow> parser_state \<Rightarrow> bool) \<Rightarrow> bool" where
  "ends crash m s Q =
     (case m s of Ran x s' \<Rightarrow> Q x s' | Stopped e s' \<Rightarrow> set (psDependencies s) \<subseteq> set (psDependencies s')
      | Crashed \<Rightarrow> crash | Exhausted \<Rightarrow> False)"

text \<open>From one state to a later one of the same parser.\<close>

definition step :: "parser_state \<Rightarrow> parser_state \<Rightarrow> bool" where
  "step s s' =
     (psTokens s' = psTokens s \<and> psDepth s' = psDepth s \<and> psPosition s \<le> psPosition s' \<and>
      psPosition s' < length (psTokens s') \<and> set (psDependencies s) \<subseteq> set (psDependencies s'))"

definition current :: "parser_state \<Rightarrow> token" where
  "current s = psTokens s ! psPosition s"

definition advanced :: "parser_state \<Rightarrow> parser_state" where
  "advanced s = s\<lparr>psPosition := psPosition s + 1\<rparr>"

definition depended :: "string list \<Rightarrow> parser_state \<Rightarrow> parser_state" where
  "depended keys s = s\<lparr>psDependencies := psDependencies s @ keys\<rparr>"

lemma ends_mono: "ends crash m s Q \<Longrightarrow> (\<And>x s'. Q x s' \<Longrightarrow> R x s') \<Longrightarrow> ends crash m s R"
  by (auto simp: ends_def split: run.splits)

lemma ends_bind:
  assumes "ends crash m s P"
    and "\<And>x s'. P x s' \<Longrightarrow> set (psDependencies s) \<subseteq> set (psDependencies s') \<and> ends crash (f x) s' Q"
  shows "ends crash (bindP m f) s Q"
  using assms by (fastforce simp: ends_def bindP_def split: run.splits)

lemma ends_return: "Q x s \<Longrightarrow> ends crash (returnP x) s Q"
  by (simp add: ends_def returnP_def)

lemma ends_fail [simp]: "ends crash (failP e) s Q" "ends crash (typedP code message) s Q" "ends crash (errorfP message) s Q"
  by (simp_all add: ends_def failP_def typedP_def errorfP_def)

lemma ends_lift: "(\<And>x. r = Inr x \<Longrightarrow> Q x s) \<Longrightarrow> ends crash (liftP r) s Q"
  by (auto simp: liftP_def ends_def failP_def returnP_def split: sum.splits)

lemma bind_current: "valid crash s \<Longrightarrow> bindP currentP f s = f (current s) s"
  by (simp add: bindP_def currentP_def tokenP_def current_def valid_def)

lemma bind_advance: "bindP advanceP f s = f () (advanced s)"
  by (simp add: bindP_def advanceP_def advanced_def)

lemma bind_depend: "bindP (dependP keys) f s = f () (depended keys s)"
  by (simp add: bindP_def dependP_def depended_def)

lemma bind_return: "bindP (returnP x) f s = f x s"
  by (simp add: bindP_def returnP_def)

lemma ends_current: "valid crash s \<Longrightarrow> ends crash (f (current s)) s Q \<Longrightarrow> ends crash (bindP currentP f) s Q"
  by (simp add: ends_def bind_current)

lemma ends_advance: "ends crash (f ()) (advanced s) Q \<Longrightarrow> ends crash (bindP advanceP f) s Q"
  by (simp add: ends_def bind_advance advanced_def split: run.splits)

lemma ends_depend: "ends crash (f ()) (depended keys s) Q \<Longrightarrow> ends crash (bindP (dependP keys) f) s Q"
  by (auto simp: ends_def bind_depend depended_def split: run.splits)

lemma ends_bind_return: "ends crash (f x) s Q \<Longrightarrow> ends crash (bindP (returnP x) f) s Q"
  by (simp add: ends_def bind_return)

lemma ends_bind_lift: "(\<And>x. r = Inr x \<Longrightarrow> ends crash (f x) s Q) \<Longrightarrow> ends crash (bindP (liftP r) f) s Q"
  by (cases r) (auto simp: ends_def bindP_def liftP_def failP_def returnP_def)

lemma valid_advanced: "valid crash s \<Longrightarrow> tkKind (current s) \<noteq> tokenEOF \<Longrightarrow> valid crash (advanced s)"
proof -
  assume v: "valid crash s" and k: "tkKind (current s) \<noteq> tokenEOF"
  have "psPosition s \<noteq> length (psTokens s) - 1"
    using v k by (auto simp: valid_def admitted_def token_list_def current_def last_conv_nth)
  with v show ?thesis by (auto simp: valid_def advanced_def)
qed

lemma step_refl: "valid crash s \<Longrightarrow> step s s"
  by (simp add: step_def valid_def)

lemma step_trans: "step s s' \<Longrightarrow> step s' s'' \<Longrightarrow> step s s''"
  by (auto simp: step_def)

lemma step_valid: "step s s' \<Longrightarrow> valid crash s \<Longrightarrow> valid crash s'"
  by (auto simp: step_def valid_def)

lemma step_advanced: "valid crash s \<Longrightarrow> tkKind (current s) \<noteq> tokenEOF \<Longrightarrow> step s (advanced s)"
  using valid_advanced [of crash s] by (simp add: step_def valid_def advanced_def)

lemma step_depended: "valid crash s \<Longrightarrow> step s (depended keys s)"
  by (auto simp: step_def valid_def depended_def)

lemma step_dependencies: "step s s' \<Longrightarrow> set (psDependencies s) \<subseteq> set (psDependencies s')"
  by (simp add: step_def)

lemma step_position: "step s s' \<Longrightarrow> psPosition s \<le> psPosition s'"
  by (simp add: step_def)

lemma step_covered: "step s s' \<Longrightarrow> covered n s \<Longrightarrow> covered n s'"
  by (auto simp: step_def covered_def)

lemma advanced_position [simp]: "psPosition (advanced s) = psPosition s + 1"
  by (simp add: advanced_def)

lemma depended_position [simp]: "psPosition (depended keys s) = psPosition s"
  by (simp add: depended_def)

text \<open>
  A parser goes on by at least \<open>k\<close> tokens; a parser of a node, so that what its node reads is among
  the dependencies.
\<close>

definition goes :: "bool \<Rightarrow> nat \<Rightarrow> ('a \<Rightarrow> parser_state \<Rightarrow> bool) \<Rightarrow> 'a parser \<Rightarrow> parser_state \<Rightarrow> bool" where
  "goes crash k R m s = ends crash m s (\<lambda>x s'. step s s' \<and> psPosition s + k \<le> psPosition s' \<and> R x s')"

abbreviation parses :: "bool \<Rightarrow> nat \<Rightarrow> 'f node parser \<Rightarrow> parser_state \<Rightarrow> bool" where
  "parses crash k m s \<equiv> goes crash k covered m s"

lemma goes_fail [simp]: "goes crash k R (failP e) s" "goes crash k R (typedP code message) s" "goes crash k R (errorfP message) s"
  by (simp_all add: goes_def)

lemma goes_return: "valid crash s \<Longrightarrow> R n s \<Longrightarrow> goes crash 0 R (returnP n) s"
  by (simp add: goes_def ends_return step_refl)

lemma goes_from:
  assumes "step s s'" "goes crash k R m s'" "psPosition s + j \<le> psPosition s' + k"
  shows "ends crash m s' (\<lambda>n s''. step s s'' \<and> psPosition s + j \<le> psPosition s'' \<and> R n s'')"
  using assms(2) unfolding goes_def
  by (rule ends_mono) (use assms in \<open>auto intro: step_trans\<close>)

lemma goes_advance:
  assumes "valid crash s" "tkKind (current s) \<noteq> tokenEOF" "goes crash k R (f ()) (advanced s)" "j \<le> k + 1"
  shows "goes crash j R (bindP advanceP f) s"
  unfolding goes_def
  by (rule ends_advance, rule goes_from [OF step_advanced [OF assms(1,2)] assms(3)]) (use assms(4) in simp)

lemma goes_current: "valid crash s \<Longrightarrow> goes crash k R (f (current s)) s \<Longrightarrow> goes crash k R (bindP currentP f) s"
  unfolding goes_def by (rule ends_current)

lemma goes_depend:
  assumes "valid crash s" "goes crash k R (f ()) (depended keys s)"
  shows "goes crash k R (bindP (dependP keys) f) s"
  unfolding goes_def
  by (rule ends_depend, rule goes_from [OF step_depended [OF assms(1)] assms(2)]) simp

lemma goes_lift: "(\<And>x. r = Inr x \<Longrightarrow> goes crash k R (f x) s) \<Longrightarrow> goes crash k R (bindP (liftP r) f) s"
  unfolding goes_def by (rule ends_bind_lift)

lemma goes_zero: "goes crash k R m s \<Longrightarrow> goes crash 0 R m s"
  unfolding goes_def by (erule ends_mono) auto

lemma valid_depended: "valid crash s \<Longrightarrow> valid crash (depended keys s)"
  using step_depended step_valid by blast

lemma covered_depended: "reads n \<subseteq> set keys \<Longrightarrow> covered n (depended keys s)"
  by (auto simp: covered_def depended_def)

lemma goes_bind:
  assumes "goes crash j R m s"
    and "\<And>x s'. step s s' \<Longrightarrow> psPosition s + j \<le> psPosition s' \<Longrightarrow> R x s' \<Longrightarrow> goes crash k S (f x) s'"
    and "i \<le> j + k"
  shows "goes crash i S (bindP m f) s"
  unfolding goes_def
proof (rule ends_bind [OF assms(1) [unfolded goes_def]])
  fix x s' assume a: "step s s' \<and> psPosition s + j \<le> psPosition s' \<and> R x s'"
  with assms(2) [of s' x] have "goes crash k S (f x) s'" by blast
  then have "ends crash (f x) s' (\<lambda>y s''. step s s'' \<and> psPosition s + i \<le> psPosition s'' \<and> S y s'')"
    by (rule goes_from [rotated]) (use a assms(3) in auto)
  with a show "set (psDependencies s) \<subseteq> set (psDependencies s') \<and>
      ends crash (f x) s' (\<lambda>y s''. step s s'' \<and> psPosition s + i \<le> psPosition s'' \<and> S y s'')"
    using step_dependencies by blast
qed

section \<open>References\<close>

text \<open>What a fetched block holds: plain values, and one of them where it says it has one cell.\<close>

definition fetched_ok :: "'f fetched \<Rightarrow> bool" where
  "fetched_ok result =
     ((\<forall>v \<in> set (fetValues result). reads_value v = {}) \<and>
      (fetRows result = 1 \<and> fetColumns result = 1 \<and> fetErr result = None \<longrightarrow> fetValues result \<noteq> []))"

definition scope_ok :: "'f Scope \<Rightarrow> bool" where
  "scope_ok sc =
     ((\<forall>(key, result) \<in> set (spImports sc). fetched_ok result) \<and> (\<forall>(key, result) \<in> set (spExternal sc). fetched_ok result) \<and>
      (\<forall>(sheet, extent) \<in> set (spExtent sc). seRows extent \<le> MaxRows \<and> seColumns extent \<le> MaxColumns))"

lemma scope_okD:
  assumes "scope_ok sc"
  shows "map_of (spImports sc) key = Some result \<Longrightarrow> fetched_ok result"
    and "map_of (spExternal sc) key = Some result \<Longrightarrow> fetched_ok result"
  using assms by (auto simp: scope_ok_def dest!: map_of_SomeD)

lemma extentFor_used:
  "1 \<le> seRows (extentFor sc qualifier)" "1 \<le> seColumns (extentFor sc qualifier)"
  "scope_ok sc \<Longrightarrow> seRows (extentFor sc qualifier) \<le> MaxRows" "scope_ok sc \<Longrightarrow> seColumns (extentFor sc qualifier) \<le> MaxColumns"
proof -
  have "seRows (extentOf sc sheet) \<le> MaxRows \<and> seColumns (extentOf sc sheet) \<le> MaxColumns" if "scope_ok sc" for sheet
    using that by (fastforce simp: scope_ok_def extentOf_def Let_def MaxRows_def MaxColumns_def dest: map_of_SomeD split: option.splits)
  then show "scope_ok sc \<Longrightarrow> seRows (extentFor sc qualifier) \<le> MaxRows" "scope_ok sc \<Longrightarrow> seColumns (extentFor sc qualifier) \<le> MaxColumns"
    by (auto simp: extentFor_def MaxRows_def MaxColumns_def split: sum.splits)
qed (auto simp: extentFor_def extentOf_def Let_def split: sum.splits)

text \<open>Corners in order, not further apart than the sheet is large.\<close>

definition corners :: "int \<Rightarrow> int \<Rightarrow> int \<Rightarrow> int \<Rightarrow> bool" where
  "corners firstRow firstColumn lastRow lastColumn =
     (firstRow \<le> lastRow \<and> firstColumn \<le> lastColumn \<and> lastRow - firstRow < MaxRows \<and> lastColumn - firstColumn < MaxRows)"

lemma cellCount_corners:
  assumes "corners firstRow firstColumn lastRow lastColumn"
  shows "cellCount firstRow firstColumn lastRow lastColumn = (lastRow - firstRow + 1) * (lastColumn - firstColumn + 1)"
    and "0 < cellCount firstRow firstColumn lastRow lastColumn"
proof -
  let ?r = "lastRow - firstRow + 1" and ?c = "lastColumn - firstColumn + 1"
  have b: "1 \<le> ?r" "?r \<le> 1048576" "1 \<le> ?c" "?c \<le> 1048576" using assms by (simp_all add: corners_def MaxRows_def)
  have "?r * ?c \<le> 1048576 * 1048576" using b by (intro mult_mono) simp_all
  moreover have "0 < ?r * ?c" using b by (simp add: zero_less_mult_iff)
  ultimately have "wrap64 (?r * ?c) = ?r * ?c" by (simp add: wrap64_id)
  moreover have "wrap64 ?r = ?r" "wrap64 ?c = ?c" using b by (simp_all add: wrap64_id)
  ultimately show "cellCount firstRow firstColumn lastRow lastColumn = ?r * ?c" unfolding cellCount_def by (simp only:)
  with \<open>0 < ?r * ?c\<close> show "0 < cellCount firstRow firstColumn lastRow lastColumn" by simp
qed

lemma parses_buildRangeAt:
  assumes "valid crash s" "crash \<or> corners firstRow firstColumn lastRow lastColumn"
  shows "parses crash 0 (buildRangeAt sheetID firstRow firstColumn lastRow lastColumn) s"
proof -
  let ?keys = "rectangle sheetID firstRow firstColumn lastRow lastColumn"
  have ends_crash: "parses True 0 crashedP s'" for s' by (simp add: goes_def ends_def crashedP_def)
  have "crash \<or> ?keys \<noteq> []" "crash \<or> \<not> cellCount firstRow firstColumn lastRow lastColumn < 0"
    using assms(2) cellCount_corners(2) [of firstRow firstColumn lastRow lastColumn] by (auto simp: rectangle_def corners_def)
  then show ?thesis
    using assms(1) ends_crash
    by (auto simp: buildRangeAt_def Let_def intro!: goes_depend goes_return valid_depended covered_depended
        split: list.splits)
qed

lemma parses_buildRange:
  assumes "valid crash s" "crash \<or> corners firstRow firstColumn lastRow lastColumn"
  shows "parses crash 0 (buildRange sc qualifier firstRow firstColumn lastRow lastColumn) s"
  unfolding buildRange_def by (intro goes_lift parses_buildRangeAt assms)

lemma Parse_sheet:
  assumes "Parse a1 = Inr r"
  shows "1 \<le> Row (Start r)" "Row (Start r) \<le> Row (End r)" "Row (End r) \<le> MaxRows"
    "1 \<le> Column (Start r)" "Column (Start r) \<le> Column (End r)" "Column (End r) \<le> MaxColumns"
    "Row (Start r) \<le> MaxRows" "Column (Start r) \<le> MaxColumns" "1 \<le> Row (End r)" "1 \<le> Column (End r)"
  using Parse_well_formed [of a1 r] assms by (simp_all add: well_formed_range_def in_sheet_def)

lemma Parse_corners: "Parse a1 = Inr r \<Longrightarrow> corners (Row (Start r)) (Column (Start r)) (Row (End r)) (Column (End r))"
  using Parse_sheet [of a1 r] by (simp add: corners_def MaxRows_def MaxColumns_def)

lemma Parse_ordered: "Parse a1 = Inr r \<Longrightarrow> Row (Start r) \<le> Row (End r) \<and> Column (Start r) \<le> Column (End r)"
  using Parse_well_formed [of a1 r] by (simp add: well_formed_range_def)

lemma goes_if:
  "(b \<Longrightarrow> goes crash k R m s) \<Longrightarrow> (\<not> b \<Longrightarrow> goes crash k R m' s) \<Longrightarrow> goes crash k R (if b then m else m') s"
  by simp

lemma goes_option:
  "(r = None \<Longrightarrow> goes crash k R m s) \<Longrightarrow> (\<And>x. r = Some x \<Longrightarrow> goes crash k R (f x) s) \<Longrightarrow>
   goes crash k R (case r of None \<Rightarrow> m | Some x \<Rightarrow> f x) s"
  by (cases r) simp_all

lemma goes_sum:
  "(\<And>e. r = Inl e \<Longrightarrow> goes crash k R (g e) s) \<Longrightarrow> (\<And>x. r = Inr x \<Longrightarrow> goes crash k R (f x) s) \<Longrightarrow>
   goes crash k R (case r of Inl e \<Rightarrow> g e | Inr x \<Rightarrow> f x) s"
  by (cases r) simp_all

lemma only_key: "length keys = Suc 0 \<Longrightarrow> hd keys \<in> set keys"
  by (cases keys) auto

lemma parses_namedRange: "valid crash s \<Longrightarrow> parses crash 0 (namedRange sc name) s"
  unfolding namedRange_def Let_def
  by (intro goes_lift goes_sum goes_if goes_depend goes_return valid_depended covered_depended)
    (simp_all add: only_key)

lemma goes_parseRangeP:
  "(\<And>r. Parse a1 = Inr r \<Longrightarrow> goes crash k R (f r) s) \<Longrightarrow> goes crash k R (bindP (parseRangeP a1) f) s"
  by (cases "Parse a1") (auto simp: parseRangeP_def goes_def ends_def bindP_def errorfP_def failP_def returnP_def)

lemma goes_bind_return: "goes crash k R (f x) s \<Longrightarrow> goes crash k R (bindP (returnP x) f) s"
  by (simp add: goes_def ends_bind_return)

lemma bindP_assoc: "bindP (bindP m f) g = bindP m (\<lambda>x. bindP (f x) g)"
  by (rule ext) (simp add: bindP_def split: run.splits)

lemma columnOnlyReference_sheet: "columnOnlyReference t = Some column \<Longrightarrow> 1 \<le> column \<and> column \<le> MaxColumns"
  by (auto simp: columnOnlyReference_def split: if_splits option.splits)

lemma parses_unboundedRange:
  assumes "valid crash s" "scope_ok sc" "startColumn = columnOnlyReference text'" "endColumn = columnOnlyReference text''"
  shows "parses crash 0 (unboundedRange sc qualifier start startColumn endAddress endColumn) s"
proof -
  have sheet: "parses crash 0 (if lastColumn < firstColumn then buildRange sc qualifier firstRow lastColumn
        (if lastRow < firstRow then firstRow else lastRow) firstColumn
      else buildRange sc qualifier firstRow firstColumn (if lastRow < firstRow then firstRow else lastRow) lastColumn) s"
    if "1 \<le> firstColumn" "firstColumn \<le> MaxColumns" "1 \<le> firstRow" "firstRow \<le> MaxRows"
      "1 \<le> lastColumn" "lastColumn \<le> MaxColumns" "lastRow \<le> MaxRows" for firstColumn firstRow lastColumn lastRow
    using that assms(1) by (auto simp: corners_def MaxColumns_def MaxRows_def intro!: parses_buildRange)
  have limits: "1 \<le> MaxRows" by (simp add: MaxRows_def)
  show ?thesis
    unfolding unboundedRange_def Let_def
    using extentFor_used(3) [OF assms(2), of qualifier] columnOnlyReference_sheet [of text'] columnOnlyReference_sheet [of text''] limits
    by (cases startColumn; cases endColumn)
      (auto simp: bindP_assoc assms(3,4) intro!: goes_bind_return goes_parseRangeP sheet
        dest: Parse_sheet)
qed

text \<open>Going on by one token that is not the end mark.\<close>

lemma goes_next:
  assumes "valid crash s" "tkKind (current s) \<noteq> tokenEOF" "valid crash (advanced s) \<Longrightarrow> goes crash 0 R (f ()) (advanced s)"
  shows "goes crash 0 R (bindP advanceP f) s"
  by (rule goes_advance [where k = 0 and f = f]) (use assms valid_advanced in simp_all)

lemma parses_cellReference:
  assumes v: "valid crash s" and sc: "scope_ok sc"
  shows "parses crash 0 (cellReference L sc qualifier startText) s"
proof -
  have bounded: "parses crash 0 (bindP (parseRangeP a1) (\<lambda>r.
      buildRange sc qualifier (Row (Start r)) (Column (Start r)) (Row (End r)) (Column (End r)))) s'"
    if "valid crash s'" for a1 s'
    using that Parse_corners by (blast intro: goes_parseRangeP parses_buildRange)
  show ?thesis
    unfolding cellReference_def Let_def
    by (intro goes_if goes_current [OF v] goes_next [OF v] goes_lift goes_depend [OF v] goes_return
        goes_fail goes_current goes_next bounded parses_unboundedRange valid_depended [OF v] sc)
      (simp_all add: covered_def depended_def)
qed

lemma rowNumber_sheet: "rowNumber t = Some row \<Longrightarrow> 1 \<le> row \<and> row \<le> MaxRows"
  by (auto simp: rowNumber_def split: option.splits if_splits)

lemma parses_rowBand:
  assumes v: "valid crash s" "tkKind (current s) \<noteq> tokenEOF" and sc: "scope_ok sc" "rowNumber t = Some firstRow"
  shows "parses crash 1 (rowBand L sc qualifier firstRow) s"
  unfolding rowBand_def
  by (rule goes_advance [OF v, of 0],
      intro goes_current goes_if goes_fail goes_next goes_option parses_buildRange valid_advanced v)
    (use extentFor_used [of sc qualifier] sc(1) rowNumber_sheet [OF sc(2)] in
      \<open>auto simp: corners_def MaxRows_def MaxColumns_def dest: rowNumber_sheet\<close>)

section \<open>Tables and reference functions\<close>

lemma tablePart_corners:
  assumes "tablePart name table selected specifier = Inr (firstRow, firstColumn, lastRow, lastColumn)"
    and "Parse a1 = Inr selected" "firstRow \<le> lastRow"
  shows "corners firstRow firstColumn lastRow lastColumn"
  using assms(1,3) Parse_sheet [OF assms(2)]
  by (auto simp: tablePart_def Let_def corners_def MaxRows_def MaxColumns_def split: if_splits option.splits)

lemma parses_tableReference:
  assumes v: "valid crash s" and t: "tableReference sc text' = Some m"
  shows "parses crash 0 m s"
proof -
  have range: "parses crash 0 (bindP (dependP keys) (\<lambda>_. buildRangeAt sheetID firstRow firstColumn lastRow lastColumn)) s"
    if "corners firstRow firstColumn lastRow lastColumn" for keys sheetID firstRow firstColumn lastRow lastColumn
    using that v by (intro goes_depend parses_buildRangeAt valid_depended) simp_all
  show ?thesis
    using t
    by (auto simp: tableReference_def Let_def not_less split: prod.splits option.splits sum.splits if_splits
        intro!: range dest: tablePart_corners)
qed

lemma parses_onlyValue:
  assumes "valid crash s" "fetched_ok result" "fetRows result = 1" "fetColumns result = 1" "fetErr result = None"
  shows "parses crash 0 (onlyValue result) s"
  using assms by (auto simp: onlyValue_def fetched_ok_def covered_def intro!: goes_return split: list.splits)

lemma parses_evaluateImportRange:
  assumes "valid crash s" "scope_ok sc"
  shows "parses crash 0 (evaluateImportRange L sc arguments) s"
  using assms scope_okD(1) [OF assms(2)]
  by (auto simp: evaluateImportRange_def covered_def fetched_ok_def intro!: parses_onlyValue goes_return
      split: list.splits node.splits option.splits)

lemma parses_evaluateExternal:
  assumes "valid crash s" "scope_ok sc"
  shows "parses crash 0 (evaluateExternal L sc name arguments) s"
  using assms scope_okD(2) [OF assms(2)]
  by (auto simp: evaluateExternal_def covered_def fetched_ok_def intro!: parses_onlyValue goes_return
      split: list.splits node.splits option.splits)

definition all_covered :: "'f node list \<Rightarrow> parser_state \<Rightarrow> bool" where
  "all_covered ns s = (\<forall>n \<in> set ns. covered n s)"

lemma covered_all:
  "all_covered arguments s \<Longrightarrow> covered (dynamicReferenceNode kind arguments sheetID base) s"
  "all_covered arguments s \<Longrightarrow> covered (functionNode name arguments) s"
  "all_covered arguments s \<Longrightarrow> covered (arrayLiteralNode rows columns arguments) s"
  "all_covered arguments s \<Longrightarrow> covered n s \<Longrightarrow> covered (letNode frame arguments n) s"
  "all_covered arguments s \<Longrightarrow> covered n s \<Longrightarrow> covered (lambdaCallNode n arguments) s"
  by (auto simp: all_covered_def covered_def)

lemma parses_textReference: "valid crash s \<Longrightarrow> parses crash 0 (textReference sc input) s"
  unfolding textReference_def Let_def
  by (auto intro!: goes_lift goes_sum goes_depend goes_return valid_depended covered_depended parses_buildRangeAt
      dest: Parse_corners split: prod.splits)

lemma parses_offsetFunction:
  assumes "valid True s" "all_covered arguments s"
  shows "parses True 0 (offsetFunction L arguments) s"
  using assms
  by (auto simp: offsetFunction_def intro!: goes_return parses_buildRangeAt covered_all split: option.splits prod.splits)

lemma parses_referenceFunction:
  assumes v: "valid crash s" and sc: "scope_ok sc" and a: "all_covered arguments s"
    and n: "name = ''OFFSET'' \<longrightarrow> crash" and r: "referenceFunction L sc name arguments = Some m"
  shows "parses crash 0 m s"
proof -
  have row: "parses crash 0 (rowColumnFunction L sc name arguments) s"
    using v by (auto simp: rowColumnFunction_def Let_def covered_def intro!: goes_return
        split: list.splits option.splits sum.splits prod.splits)
  have offset: "crash \<Longrightarrow> parses crash 0 (offsetFunction L arguments) s"
    using parses_offsetFunction [of s arguments L] v a by (cases crash) simp_all
  have indirect: "parses crash 0 (indirectFunction L sc arguments) s"
    using v a parses_textReference [OF v]
    by (auto simp: indirectFunction_def intro!: goes_return covered_all split: node.splits)
  show ?thesis
    using r n row indirect offset parses_evaluateImportRange [OF v sc, of L arguments]
      parses_evaluateExternal [OF v sc, of L name arguments]
    unfolding referenceFunction_def by (metis option.discI option.inject)
qed

end
