(* ===== verification/ParserRuns.thy ===== *)
theory ParserRuns
  imports ParserFacts
begin

text \<open>
  The contract of \<open>expression\<close> and the methods proved against it; the parser as a whole meets the
  contract with the fuel it starts with.
\<close>

section \<open>Budgets\<close>

lemma lexFrom_length: "lexFrom T s = Inr ts \<Longrightarrow> length ts \<le> length s + 1"
proof (induction T s arbitrary: ts rule: lexFrom.induct)
  case (1 T s)
  show ?case
  proof (cases "s = [] \<or> decode_rune s = (65533, 1)")
    case True
    then show ?thesis using "1.prems" by (auto simp: lexFrom.simps [of T s] split: if_splits)
  next
    case False
    show ?thesis
    proof (cases "lead_space s = 0")
      case True
      then obtain t rest us where t: "lexToken T s = Inr (t, rest)" "lexFrom T rest = Inr us" "ts = t # us"
        using "1.prems" False by (auto simp: lexFrom.simps [of T s] split: sum.splits)
      have "length us \<le> length rest + 1" using "1.IH"(2) False True t by blast
      moreover have "length rest < length s" using lexToken_shorter [OF t(1)] False by simp
      ultimately show ?thesis using t(3) by simp
    next
      case space: False
      then have "lexFrom T (drop (lead_space s) s) = Inr ts"
        using "1.prems" False by (simp add: lexFrom.simps [of T s])
      with "1.IH"(1) False space show ?thesis by fastforce
    qed
  qed
qed

lemma lex_length: "lex T s = Inr ts \<Longrightarrow> length ts \<le> length s + 1"
proof -
  assume l: "lex T s = Inr ts"
  have "length (trim_space (tl (trim_space s))) \<le> length s"
    using trim_space_length [of "tl (trim_space s)"] trim_space_length [of s] by simp
  with l trim_space_length [of s] show ?thesis
    by (auto simp: lex_def Let_def dest!: lexFrom_length split: if_splits)
qed

lemma namedBodyText_length: "length (namedBodyText d) \<le> length (nfBody d)"
  using trim_space_length [of "nfBody d"] by (auto simp: namedBodyText_def Let_def)

lemma fold_max_start: "k \<le> fold max ns (k :: nat)"
  by (induction ns arbitrary: k) (auto intro: le_trans [OF max.cobounded2])

lemma fold_max: "n \<in> set ns \<Longrightarrow> n \<le> fold max ns (k :: nat)"
proof (induction ns arbitrary: k)
  case (Cons m ns)
  then show ?case by (auto intro: le_trans [OF max.cobounded1 fold_max_start])
qed simp

lemma body_tokens:
  assumes "map_of (spNamedFunctions sc) name = Some d" "lex T (namedBodyText d) = Inr tokens"
  shows "length tokens < bodyFuel sc"
proof -
  have "length (nfBody d) + 3 \<le> bodyFuel sc"
    unfolding bodyFuel_def by (rule fold_max) (use map_of_SomeD [OF assms(1)] in force)
  moreover have "length tokens \<le> length (nfBody d) + 1"
    using lex_length [OF assms(2)] namedBodyText_length [of d] by simp
  ultimately show ?thesis by simp
qed

definition left_over :: "parser_state \<Rightarrow> nat" where
  "left_over s = length (psTokens s) - psPosition s"

definition budget :: "'f Scope \<Rightarrow> parser_state \<Rightarrow> nat" where
  "budget sc s = left_over s + (MaxNamedFunctionDepth - psDepth s) * bodyFuel sc"

lemma step_left: "step s s' \<Longrightarrow> psPosition s + k \<le> psPosition s' \<Longrightarrow> left_over s' + k \<le> left_over s"
  by (auto simp: step_def left_over_def)

lemma step_budget: "step s s' \<Longrightarrow> psPosition s + k \<le> psPosition s' \<Longrightarrow> budget sc s' + k \<le> budget sc s"
  using step_left [of s s' k] by (auto simp: budget_def step_def)

lemma left_over_budget: "left_over s \<le> budget sc s"
  by (simp add: budget_def)

lemma valid_left: "valid crash s \<Longrightarrow> 1 \<le> left_over s"
  by (auto simp: valid_def left_over_def)

lemma advanced_left: "valid crash s \<Longrightarrow> left_over s = left_over (advanced s) + 1"
  by (auto simp: valid_def left_over_def advanced_def)

lemma advanced_budget: "valid crash s \<Longrightarrow> budget sc s = budget sc (advanced s) + 1"
  using advanced_left [of crash s] by (simp add: budget_def advanced_def)

section \<open>The contract\<close>

locale expression_parser =
  fixes L :: "'f formula_library" and sc :: "'f Scope" and crash :: bool and bound :: nat
    and expr :: "int \<Rightarrow> 'f node parser"
  assumes scope: "scope_ok sc"
    and bodies: "\<And>name d tokens. map_of (spNamedFunctions sc) name = Some d \<Longrightarrow>
      lex (lexer_tables.truncate L) (namedBodyText d) = Inr tokens \<Longrightarrow> admitted crash tokens"
    and parses_expr: "\<And>minimum s. valid crash s \<Longrightarrow> budget sc s < bound \<Longrightarrow> parses crash 1 (expr minimum) s"
begin

lemma expression_binding:
  assumes "valid crash s" "budget sc s < bound"
    and "\<And>n s'. valid crash s' \<Longrightarrow> step s s' \<Longrightarrow> psPosition s + 1 \<le> psPosition s' \<Longrightarrow> covered n s' \<Longrightarrow>
      left_over s' + 1 \<le> left_over s \<Longrightarrow> budget sc s' < bound \<Longrightarrow> goes crash k R (f n) s'"
    and "i \<le> k + 1"
  shows "goes crash i R (bindP (expr minimum) f) s"
proof (rule goes_bind [OF parses_expr [OF assms(1,2)]])
  fix n :: "'f node" and s' assume a: "step s s'" "psPosition s + 1 \<le> psPosition s'" "covered n s'"
  then show "goes crash k R (f n) s'"
    using assms(2,3) step_valid [OF a(1) assms(1)] step_left [OF a(1,2)] step_budget [OF a(1,2), of sc] by simp
qed (use assms(4) in simp)

lemma parses_expressionLoop:
  "valid crash s \<Longrightarrow> budget sc s < bound \<Longrightarrow> left_over s \<le> fuel \<Longrightarrow> covered n s \<Longrightarrow>
   parses crash 0 (expressionLoop expr fuel minimum n) s"
proof (induction fuel arbitrary: s n)
  case 0
  then show ?case using valid_left [of crash s] by simp
next
  case (Suc fuel)
  have again: "parses crash 0 (bindP (expr m) (\<lambda>right. expressionLoop expr fuel minimum (binaryNode operator n right))) (advanced s)"
    if "tkKind (current s) = tokenOperator" for m operator
  proof (rule expression_binding)
    show v: "valid crash (advanced s)" using that valid_advanced [OF Suc.prems(1)] by simp
    show "budget sc (advanced s) < bound" using advanced_budget [OF Suc.prems(1), of sc] Suc.prems(2) by simp
    fix right :: "'f node" and s' assume s': "valid crash s'" "step (advanced s) s'" "covered right s'"
      "left_over s' + 1 \<le> left_over (advanced s)" "budget sc s' < bound"
    have "covered n s'" using Suc.prems(4) s'(2) by (auto simp: covered_def step_def advanced_def)
    with s'(3) have "covered (binaryNode operator n right) s'" by (simp add: covered_def)
    with s' show "parses crash 0 (expressionLoop expr fuel minimum (binaryNode operator n right)) s'"
      using Suc.IH Suc.prems(3) advanced_left [OF Suc.prems(1)] by simp
  qed simp
  show ?case
    unfolding expressionLoop.simps Let_def
    by (intro goes_current goes_if goes_return goes_next again Suc.prems) simp_all
qed

lemma parses_prefix:
  assumes "\<And>s'. step s s' \<Longrightarrow> valid crash s' \<Longrightarrow> parses crash 1 prim s'"
  shows "valid crash s \<Longrightarrow> left_over s \<le> fuel \<Longrightarrow> parses crash 1 (prefix prim fuel) s"
  using assms
proof (induction fuel arbitrary: s)
  case 0
  then show ?case using valid_left [of crash s] by simp
next
  case (Suc fuel)
  show ?case
    unfolding prefix.simps
  proof (intro goes_current goes_if Suc.prems(1))
    assume k: "tkKind (current s) = tokenOperator \<and> (tkText (current s) = ''+'' \<or> tkText (current s) = ''-'')"
    then have n: "tkKind (current s) \<noteq> tokenEOF" by auto
    note v = valid_advanced [OF Suc.prems(1) n] and st = step_advanced [OF Suc.prems(1) n]
    have p: "parses crash 1 (prefix prim fuel) (advanced s)"
      using Suc.IH [OF v] Suc.prems(2,3) advanced_left [OF Suc.prems(1)] step_trans [OF st] by simp
    show "parses crash 1 (bindP advanceP (\<lambda>_. bindP (prefix prim fuel) (\<lambda>v. returnP (unaryNode (tkText (current s)) v)))) s"
    proof (rule goes_advance [OF Suc.prems(1) n, where k = 1])
      show "parses crash 1 (bindP (prefix prim fuel) (\<lambda>v. returnP (unaryNode (tkText (current s)) v))) (advanced s)"
      proof (rule goes_bind [OF p, where k = 0])
        fix x s' assume "step (advanced s) s'" "covered x s'"
        then show "parses crash 0 (returnP (unaryNode (tkText (current s)) x)) s'"
          using step_valid v by (auto intro!: goes_return simp: covered_def)
      qed simp
    qed simp
  next
    show "parses crash 1 prim s" using Suc.prems(3) [OF step_refl [OF Suc.prems(1)] Suc.prems(1)] .
  qed
qed

section \<open>Argument lists\<close>

lemma step_all_covered: "step s s' \<Longrightarrow> all_covered ns s \<Longrightarrow> all_covered ns s'"
  using step_covered unfolding all_covered_def by blast

lemma all_covered_append [simp]: "all_covered (ns @ ms) s \<longleftrightarrow> all_covered ns s \<and> all_covered ms s"
  by (auto simp: all_covered_def)

lemma all_covered_simps [simp]:
  "all_covered [] s" "all_covered (n # ns) s \<longleftrightarrow> covered n s \<and> all_covered ns s" "covered (literalNode omittedValue) s"
  by (auto simp: all_covered_def covered_def)

lemma loop_next:
  assumes "valid crash s" "budget sc s < bound" "left_over s \<le> Suc fuel" "tkKind (current s) \<noteq> tokenEOF"
  shows "valid crash (advanced s)" "budget sc (advanced s) < bound" "left_over (advanced s) \<le> fuel"
    "step s (advanced s)"
  using valid_advanced [OF assms(1,4)] step_advanced [OF assms(1,4)]
    advanced_budget [OF assms(1), of sc] advanced_left [OF assms(1)] assms(2,3) by simp_all

lemma separator_kind: "isSeparator k \<Longrightarrow> k \<noteq> tokenEOF"
  by (auto simp: isSeparator_def)

lemma goes_argumentsLoop:
  "valid crash s \<Longrightarrow> budget sc s < bound \<Longrightarrow> left_over s \<le> fuel \<Longrightarrow> all_covered ns s \<Longrightarrow>
   goes crash 0 all_covered (argumentsLoop expr fuel ns) s"
proof (induction fuel arbitrary: s ns)
  case 0
  then show ?case using valid_left [of crash s] by simp
next
  case (Suc fuel)
  have again: "goes crash 0 all_covered (bindP advanceP (\<lambda>_. argumentsLoop expr fuel ms)) s'"
    if s': "valid crash s'" "budget sc s' < bound" "left_over s' \<le> Suc fuel" "all_covered ms s'"
      "isSeparator (tkKind (current s'))" for s' ms
  proof (rule goes_next)
    note nx = loop_next [OF s'(1-3) separator_kind [OF s'(5)]]
    show "goes crash 0 all_covered (argumentsLoop expr fuel ms) (advanced s')"
      using Suc.IH [OF nx(1-3)] step_all_covered [OF nx(4) s'(4)] by simp
  qed (use s' separator_kind in simp_all)
  have one: "goes crash 0 all_covered (bindP (expr 0) (\<lambda>argument. bindP currentP (\<lambda>t.
         if isSeparator (tkKind t) then bindP advanceP (\<lambda>_. argumentsLoop expr fuel (ns @ [argument]))
         else returnP (ns @ [argument])))) s"
  proof (rule expression_binding [OF Suc.prems(1,2)])
    fix n :: "'f node" and s' assume s': "valid crash s'" "step s s'" "covered n s'"
      "left_over s' + 1 \<le> left_over s" "budget sc s' < bound"
    then show "goes crash 0 all_covered (bindP currentP (\<lambda>t.
         if isSeparator (tkKind t) then bindP advanceP (\<lambda>_. argumentsLoop expr fuel (ns @ [n]))
         else returnP (ns @ [n]))) s'"
      using Suc.prems(3,4) step_all_covered by (auto intro!: goes_current again goes_return)
  qed simp
  show ?case
    unfolding argumentsLoop.simps
    by (intro goes_current goes_if goes_return again one Suc.prems) (use Suc.prems(4) in auto)
qed

lemma goes_plainArguments:
  "valid crash s \<Longrightarrow> budget sc s < bound \<Longrightarrow> left_over s \<le> fuel \<Longrightarrow> all_covered ns s \<Longrightarrow>
   goes crash 0 all_covered (plainArguments expr fuel ns) s"
proof (induction fuel arbitrary: s ns)
  case 0
  then show ?case using valid_left [of crash s] by simp
next
  case (Suc fuel)
  show ?case
    unfolding plainArguments.simps
  proof (rule expression_binding [OF Suc.prems(1,2)])
    fix n :: "'f node" and s' assume s': "valid crash s'" "step s s'" "covered n s'"
      "left_over s' + 1 \<le> left_over s" "budget sc s' < bound"
    have "goes crash 0 all_covered (bindP advanceP (\<lambda>_. plainArguments expr fuel (ns @ [n]))) s'"
      if k: "isSeparator (tkKind (current s'))"
    proof (rule goes_next)
      have "left_over s' \<le> Suc fuel" using s'(4) Suc.prems(3) by simp
      note nx = loop_next [OF s'(1,5) this separator_kind [OF k]]
      have "all_covered (ns @ [n]) (advanced s')"
        using step_all_covered [OF s'(2) Suc.prems(4)] s'(3) by (intro step_all_covered [OF nx(4)]) simp
      with Suc.IH [OF nx(1-3)] show "goes crash 0 all_covered (plainArguments expr fuel (ns @ [n])) (advanced s')" by blast
    qed (use s' separator_kind k in simp_all)
    then show "goes crash 0 all_covered (bindP currentP (\<lambda>t.
         if isSeparator (tkKind t) then bindP advanceP (\<lambda>_. plainArguments expr fuel (ns @ [n]))
         else returnP (ns @ [n]))) s'"
      using s' Suc.prems(4) step_all_covered by (auto intro!: goes_current goes_return)
  qed simp
qed

lemma advanceP_advanced: "advanceP s = Ran () (advanced s)"
  by (simp add: advanceP_def advanced_def)

lemma goes_expectP:
  "valid crash s \<Longrightarrow> kind \<noteq> tokenEOF \<Longrightarrow> goes crash 1 (\<lambda>_ _. True) (expectP kind message) s"
proof -
  assume v: "valid crash s" and k: "kind \<noteq> tokenEOF"
  have "goes crash 1 (\<lambda>_ _. True) advanceP s" if "tkKind (current s) = kind"
    using step_advanced [OF v] k that by (simp add: goes_def ends_def advanceP_advanced)
  with v show ?thesis by (auto simp: expectP_def intro!: goes_current)
qed

lemma goes_optionalArguments:
  assumes v: "valid crash s"
    and loop: "goes crash 0 all_covered (loop fuel []) s"
  shows "goes crash 1 all_covered (optionalArguments loop fuel) s"
proof -
  have close: "goes crash 1 all_covered (bindP (expectP tokenRight message) (\<lambda>_. returnP ns)) s'"
    if "step s s'" "all_covered ns s'" for s' ns message
    by (rule goes_bind [OF goes_expectP, where k = 0])
      (use that step_valid [OF that(1) v] step_valid step_all_covered in \<open>auto intro!: goes_return\<close>)
  have "goes crash 0 all_covered (if tkKind (current s) \<noteq> tokenRight then loop fuel [] else returnP []) s"
    using loop v by (auto intro!: goes_return)
  then show ?thesis
    unfolding optionalArguments_def
    by (intro goes_current v) (rule goes_bind [where R = all_covered and j = 0 and k = 1], assumption, rule close, simp_all)
qed

lemma goes_givenArguments:
  assumes "valid crash s" "budget sc s < bound" "left_over s \<le> fuel"
  shows "goes crash 1 all_covered (optionalArguments (plainArguments expr) fuel) s"
    "goes crash 1 all_covered (optionalArguments (argumentsLoop expr) fuel) s"
  by (rule goes_optionalArguments, rule assms, rule goes_plainArguments; use assms in simp)
    (rule goes_optionalArguments, rule assms, rule goes_argumentsLoop; use assms in simp)

section \<open>Array literals\<close>

definition rows_covered :: "'f node list list \<Rightarrow> parser_state \<Rightarrow> bool" where
  "rows_covered rows s = (\<forall>row \<in> set rows. all_covered row s)"

lemma step_rows_covered: "step s s' \<Longrightarrow> rows_covered rows s \<Longrightarrow> rows_covered rows s'"
  using step_all_covered unfolding rows_covered_def by blast

lemma rows_covered_append [simp]:
  "rows_covered (rows @ [row]) s \<longleftrightarrow> rows_covered rows s \<and> all_covered row s" "rows_covered [] s"
  by (auto simp: rows_covered_def)

lemma goes_arrayRows:
  "valid crash s \<Longrightarrow> budget sc s < bound \<Longrightarrow> left_over s \<le> fuel \<Longrightarrow> rows_covered rows s \<Longrightarrow> all_covered row s \<Longrightarrow>
   goes crash 0 rows_covered (arrayRows expr fuel rows row) s"
proof (induction fuel arbitrary: s rows row)
  case 0
  then show ?case using valid_left [of crash s] by simp
next
  case (Suc fuel)
  have close: "goes crash 0 rows_covered (bindP advanceP (\<lambda>_. returnP rows')) s'"
    if "valid crash s'" "tkKind (current s') = tokenArrayClose" "rows_covered rows' s'" for rows' s'
  proof (rule goes_next)
    have "step s' (advanced s')" using step_advanced [OF that(1)] that(2) by simp
    then show "valid crash (advanced s') \<Longrightarrow> goes crash 0 rows_covered (returnP rows') (advanced s')"
      using step_rows_covered that(3) by (auto intro!: goes_return)
  qed (use that in simp_all)
  have again: "goes crash 0 rows_covered (bindP advanceP (\<lambda>_. arrayRows expr fuel rows' row')) s'"
    if s': "valid crash s'" "budget sc s' < bound" "left_over s' \<le> Suc fuel" "tkKind (current s') \<noteq> tokenEOF"
      "rows_covered rows' s'" "all_covered row' s'" for rows' row' s'
  proof (rule goes_next)
    note nx = loop_next [OF s'(1-4)]
    show "goes crash 0 rows_covered (arrayRows expr fuel rows' row') (advanced s')"
      by (rule Suc.IH [OF nx(1-3) step_rows_covered [OF nx(4) s'(5)] step_all_covered [OF nx(4) s'(6)]])
  qed (use s' in simp_all)
  have one: "goes crash 0 rows_covered (bindP (expr 0) (\<lambda>v. bindP currentP (\<lambda>t.
         if tkKind t = tokenComma then bindP advanceP (\<lambda>_. arrayRows expr fuel rows (row @ [v]))
         else if tkKind t = tokenSemicolon then bindP advanceP (\<lambda>_. arrayRows expr fuel (rows @ [row @ [v]]) [])
         else if tkKind t = tokenArrayClose then bindP advanceP (\<lambda>_. returnP (rows @ [row @ [v]]))
         else errorfP message))) s" for message
  proof (rule expression_binding [OF Suc.prems(1,2)])
    fix n :: "'f node" and s' assume s': "valid crash s'" "step s s'" "covered n s'"
      "left_over s' + 1 \<le> left_over s" "budget sc s' < bound"
    have c: "rows_covered rows s'" "all_covered row s'"
      using step_rows_covered [OF s'(2)] step_all_covered [OF s'(2)] Suc.prems(4,5) by blast+
    show "goes crash 0 rows_covered (bindP currentP (\<lambda>t.
         if tkKind t = tokenComma then bindP advanceP (\<lambda>_. arrayRows expr fuel rows (row @ [n]))
         else if tkKind t = tokenSemicolon then bindP advanceP (\<lambda>_. arrayRows expr fuel (rows @ [row @ [n]]) [])
         else if tkKind t = tokenArrayClose then bindP advanceP (\<lambda>_. returnP (rows @ [row @ [n]]))
         else errorfP message)) s'"
      by (intro goes_current goes_if again close goes_fail s') (use s' c Suc.prems(3) in simp_all)
  qed simp
  show ?case
    unfolding arrayRows.simps
    by (intro goes_current goes_if close one Suc.prems)
qed

lemma parses_arrayLiteral:
  assumes "valid crash s" "budget sc s < bound" "left_over s \<le> fuel"
  shows "parses crash 0 (arrayLiteral expr fuel) s"
  unfolding arrayLiteral_def
proof (rule goes_bind [where R = rows_covered and j = 0 and k = 0])
  show "goes crash 0 rows_covered (arrayRows expr fuel [] []) s"
    by (rule goes_arrayRows) (use assms in simp_all)
  fix rows :: "'f node list list" and s' assume s': "step s s'" "rows_covered rows s'"
  have "all_covered (concat rows) s'" using s'(2) by (auto simp: rows_covered_def all_covered_def)
  then show "parses crash 0 (if rows = [] \<or> hd rows = [] then typedP ''#VALUE!'' ''array literal is empty''
       else let columns = length (hd rows) in
         if \<exists>row \<in> set rows. length row \<noteq> columns
         then typedP ''#VALUE!'' ''every row of an array literal needs the same number of values''
         else if sum_list (map length rows) > 100000 then typedP ''#VALUE!'' ''range is too large''
         else returnP (arrayLiteralNode (int (length rows)) (int columns) (concat rows))) s'"
    unfolding Let_def using step_valid [OF s'(1) assms(1)]
    by (intro goes_if goes_fail goes_return covered_all)
qed simp

section \<open>Bindings\<close>

lemma goes_newFrame: "valid crash s \<Longrightarrow> goes crash 0 (\<lambda>_ _. True) newFrame s"
  by (simp add: goes_def ends_def newFrame_def step_def valid_def)

lemma goes_bindNameP: "valid crash s \<Longrightarrow> goes crash 0 (\<lambda>_ _. True) (bindNameP name owner index) s"
  by (simp add: goes_def ends_def bindNameP_def step_def valid_def)

lemma goes_scopedP:
  assumes "parses crash k m s"
  shows "parses crash k (scopedP m) s"
  using assms by (auto simp: goes_def ends_def scopedP_def step_def covered_def split: run.splits)

lemma goes_bindingName: "valid crash s \<Longrightarrow> goes crash 1 (\<lambda>_ _. True) (bindingName owner) s"
  unfolding bindingName_def
  by (intro goes_current goes_if goes_fail goes_advance [where k = 0] goes_return) (auto intro: valid_advanced)

lemma bind_token1: "psPosition s + 1 < length (psTokens s) \<Longrightarrow> bindP (tokenP 1) f s = f (psTokens s ! (psPosition s + 1)) s"
  by (simp add: bindP_def tokenP_def)

lemma next_inside: "valid crash s \<Longrightarrow> tkKind (current s) \<noteq> tokenEOF \<Longrightarrow> psPosition s + 1 < length (psTokens s)"
  using valid_advanced [of crash s] by (simp add: valid_def advanced_def)

definition starts_name :: "parser_state \<Rightarrow> bool" where
  "starts_name s =
     (tkKind (current s) = tokenIdentifier \<and> isSeparator (tkKind (psTokens s ! (psPosition s + 1))) \<and>
      \<not> isReference (upperName (tkText (current s))))"

lemma startsBindingName_run: "valid crash s \<Longrightarrow> startsBindingName s = Ran (starts_name s) s"
  using next_inside [of s]
  by (auto simp: startsBindingName_def bind_current bind_token1 [simplified] returnP_def starts_name_def)

lemma goes_starts: "valid crash s \<Longrightarrow> goes crash k R (f (starts_name s)) s \<Longrightarrow> goes crash k R (bindP startsBindingName f) s"
  by (simp add: goes_def ends_def bindP_def startsBindingName_run)

lemma bindingName_run:
  assumes "valid crash s" "starts_name s"
  shows "bindingName owner s = Ran (upperName (tkText (current s))) (advanced s)"
  using assms by (simp add: bindingName_def bind_current starts_name_def bind_advance returnP_def)

text \<open>A parameter that starts here is two tokens: the name and the separator behind it.\<close>

lemma starts_name_next:
  assumes "valid crash s" "starts_name s"
  shows "valid crash (advanced s)" "isSeparator (tkKind (current (advanced s)))" "valid crash (advanced (advanced s))"
proof -
  show v: "valid crash (advanced s)" using valid_advanced [OF assms(1)] assms(2) by (simp add: starts_name_def)
  show k: "isSeparator (tkKind (current (advanced s)))"
    using assms(2) by (simp add: starts_name_def current_def advanced_def)
  show "valid crash (advanced (advanced s))" using valid_advanced [OF v] separator_kind [OF k] by simp
qed

lemma named_step:
  assumes "valid crash s"
  shows "valid crash (s\<lparr>psBindings := bs\<rparr>)" "step s (s\<lparr>psBindings := bs\<rparr>)"
    "budget sc (s\<lparr>psBindings := bs\<rparr>) = budget sc s" "left_over (s\<lparr>psBindings := bs\<rparr>) = left_over s"
    "current (s\<lparr>psBindings := bs\<rparr>) = current s"
  using assms by (simp_all add: valid_def step_def budget_def left_over_def current_def)

lemma goes_bindName:
  assumes "valid crash s" "goes crash k R (f ()) (s\<lparr>psBindings := psBindings s @ [(name, owner, index)]\<rparr>)"
  shows "goes crash k R (bindP (bindNameP name owner index) f) s"
  using goes_from [OF named_step(2) [OF assms(1)] assms(2), where j = k]
  by (simp add: goes_def ends_def bindP_def bindNameP_def split: run.splits)

lemma goes_bindingName_starts:
  assumes "valid crash s" "starts_name s" "goes crash k R (f (upperName (tkText (current s)))) (advanced s)"
  shows "goes crash k R (bindP (bindingName owner) f) s"
proof -
  have "step s (advanced s)" by (rule step_advanced [OF assms(1)]) (use assms(2) in \<open>simp add: starts_name_def\<close>)
  from goes_from [OF this assms(3), where j = k] show ?thesis
    by (auto simp: goes_def ends_def bindP_def bindingName_run [OF assms(1,2)] advanced_def split: run.splits)
qed

lemma goes_parametersLoop:
  "valid crash s \<Longrightarrow> left_over s \<le> fuel \<Longrightarrow> goes crash 0 (\<lambda>_ _. True) (parametersLoop fuel frame ps) s"
proof (induction fuel arbitrary: s ps)
  case 0
  then show ?case using valid_left [of crash s] by simp
next
  case (Suc fuel)
  have again: "goes crash 0 (\<lambda>_ _. True) (bindP (bindingName ''LAMBDA'') (\<lambda>name.
         bindP (bindNameP name frame (length ps)) (\<lambda>_.
         bindP advanceP (\<lambda>_. parametersLoop fuel frame (ps @ [name]))))) s" if st: "starts_name s"
  proof (rule goes_bindingName_starts [OF Suc.prems(1) st])
    let ?name = "upperName (tkText (current s))"
    note v = starts_name_next [OF Suc.prems(1) st]
    let ?s = "(advanced s)\<lparr>psBindings := psBindings (advanced s) @ [(?name, frame, length ps)]\<rparr>"
    have b: "valid crash ?s" "left_over ?s = left_over (advanced s)" "tkKind (current ?s) \<noteq> tokenEOF"
      using named_step [OF v(1)] separator_kind [OF v(2)] by simp_all
    have "left_over (advanced ?s) \<le> fuel"
      using advanced_left [OF b(1)] b(2) advanced_left [OF Suc.prems(1)] Suc.prems(2) by simp
    then show "goes crash 0 (\<lambda>_ _. True) (bindP (bindNameP ?name frame (length ps)) (\<lambda>_.
         bindP advanceP (\<lambda>_. parametersLoop fuel frame (ps @ [?name])))) (advanced s)"
      by (intro goes_bindName v(1) goes_next b) (use Suc.IH in blast)
  qed
  show ?case
    unfolding parametersLoop.simps
    by (intro goes_starts goes_if goes_return Suc.prems again) simp_all
qed

lemma goes_step: "step s s' \<Longrightarrow> goes crash k R m s' \<Longrightarrow> psPosition s + j \<le> psPosition s' + k \<Longrightarrow>
    goes crash 0 (\<lambda>x s''. R x s'' \<and> psPosition s + j \<le> psPosition s'') m s'"
  unfolding goes_def by (erule ends_mono) auto

lemma goes_closing:
  assumes "valid crash s" "\<And>s'. step s s' \<Longrightarrow> valid crash s' \<Longrightarrow> R n s'"
  shows "goes crash 0 R (bindP (expectP tokenRight message) (\<lambda>_. returnP n)) s"
  by (rule goes_bind [OF goes_expectP [OF assms(1)], where k = 0])
    (use assms step_valid [OF _ assms(1)] in \<open>auto intro!: goes_return\<close>)

lemma goes_letBinding:
  assumes "valid crash s" "budget sc s < bound"
  shows "goes crash 2 (\<lambda>x s'. covered (fst x) s') (letBinding expr frame index) s"
proof -
  let ?R = "\<lambda>x :: 'f node \<times> bool. covered (fst x)"
  have last: "goes crash 0 ?R (bindP (bindNameP name frame index) (\<lambda>_. bindP currentP (\<lambda>t.
           if \<not> isSeparator (tkKind t) then errorfP message
           else bindP advanceP (\<lambda>_. bindP startsBindingName (\<lambda>follows. returnP (n, follows)))))) s'"
    if s': "valid crash s'" "covered n s'" for s' name n message
  proof (intro goes_bindName goes_current goes_if goes_fail goes_next goes_starts goes_return s' named_step)
    assume k: "\<not> \<not> isSeparator (tkKind (current (s'\<lparr>psBindings := psBindings s' @ [(name, frame, index)]\<rparr>)))"
    then show "tkKind (current (s'\<lparr>psBindings := psBindings s' @ [(name, frame, index)]\<rparr>)) \<noteq> tokenEOF"
      using separator_kind by blast
  qed (use s'(2) in \<open>simp_all add: covered_def advanced_def\<close>)
  show ?thesis
    unfolding letBinding_def
  proof (rule goes_bind [OF goes_bindingName [OF assms(1)], where k = 1])
    fix name s' assume s': "step s s'" "psPosition s + 1 \<le> psPosition s'"
    have v: "valid crash s'" "budget sc s' < bound" "left_over s' \<le> Suc (left_over s')"
      using step_valid [OF s'(1) assms(1)] step_budget [OF s', of sc] assms(2) by simp_all
    show "goes crash 1 ?R (bindP currentP (\<lambda>t.
       if \<not> isSeparator (tkKind t) then errorfP (''LET needs a value for '' @ name)
       else bindP advanceP (\<lambda>_. bindP (expr 0) (\<lambda>v.
         bindP (bindNameP name frame index) (\<lambda>_. bindP currentP (\<lambda>t.
           if \<not> isSeparator (tkKind t) then errorfP ''LET needs a calculation after the last name''
           else bindP advanceP (\<lambda>_. bindP startsBindingName (\<lambda>follows. returnP (v, follows))))))))) s'"
    proof (intro goes_current goes_if goes_fail v)
      assume k: "\<not> \<not> isSeparator (tkKind (current s'))"
      note nx = loop_next [OF v separator_kind [OF k [simplified]]]
      show "goes crash 1 ?R (bindP advanceP (\<lambda>_. bindP (expr 0) (\<lambda>v.
         bindP (bindNameP name frame index) (\<lambda>_. bindP currentP (\<lambda>t.
           if \<not> isSeparator (tkKind t) then errorfP ''LET needs a calculation after the last name''
           else bindP advanceP (\<lambda>_. bindP startsBindingName (\<lambda>follows. returnP (v, follows)))))))) s'"
        by (rule goes_advance [where k = 0], rule v, use k separator_kind in blast,
            rule expression_binding [OF nx(1,2), where k = 0], rule last) simp_all
    qed
  qed simp
qed

lemma parses_letLoop:
  "valid crash s \<Longrightarrow> budget sc s < bound \<Longrightarrow> left_over s \<le> fuel \<Longrightarrow> all_covered ns s \<Longrightarrow>
   parses crash 0 (letLoop expr fuel frame ns) s"
proof (induction fuel arbitrary: s ns)
  case 0
  then show ?case using valid_left [of crash s] by simp
next
  case (Suc fuel)
  show ?case
    unfolding letLoop.simps
  proof (rule goes_bind [OF goes_letBinding [OF Suc.prems(1,2)], where k = 0])
    fix x :: "'f node \<times> bool" and s'
    assume s': "step s s'" "psPosition s + 2 \<le> psPosition s'" "covered (fst x) s'"
    obtain n follows where x: "x = (n, follows)" by fastforce
    have v: "valid crash s'" "budget sc s' < bound" "left_over s' \<le> fuel" "all_covered (ns @ [n]) s'"
      using step_valid [OF s'(1) Suc.prems(1)] step_budget [OF s'(1,2), of sc] step_left [OF s'(1,2)] Suc.prems(2,3)
        step_all_covered [OF s'(1) Suc.prems(4)] s'(3) x by simp_all
    have "parses crash 0 (bindP (expr 0) (\<lambda>calculation. bindP (expectP tokenRight message) (\<lambda>_.
           returnP (letNode frame (ns @ [n]) calculation)))) s'" for message
      by (rule expression_binding [OF v(1,2), where k = 0], rule goes_closing)
        (use v(4) step_all_covered step_covered in \<open>blast intro: covered_all\<close>)+
    then show "parses crash 0 (case x of (v, follows) \<Rightarrow>
       if follows then letLoop expr fuel frame (ns @ [v])
       else bindP (expr 0) (\<lambda>calculation.
         bindP (expectP tokenRight ''missing closing parenthesis'') (\<lambda>_.
           returnP (letNode frame (ns @ [v]) calculation)))) s'"
      using Suc.IH [OF v] by (simp add: x)
  qed simp
qed

lemma parses_parseLet:
  assumes "valid crash s" "budget sc s < bound" "left_over s \<le> fuel"
  shows "parses crash 0 (parseLet expr fuel) s"
  unfolding parseLet_def
proof (rule goes_scopedP, rule goes_bind [OF goes_newFrame [OF assms(1)], where k = 0])
  fix frame s' assume s': "step s s'" "psPosition s + 0 \<le> psPosition s'"
  then show "parses crash 0 (letLoop expr fuel frame []) s'"
    using step_valid [OF s'(1) assms(1)] step_budget [OF s', of sc] step_left [OF s'] assms(2,3)
    by (intro parses_letLoop) simp_all
qed simp

lemma parses_parseLambda:
  assumes "valid crash s" "budget sc s < bound" "left_over s \<le> fuel"
  shows "parses crash 0 (parseLambda expr fuel) s"
  unfolding parseLambda_def
proof (rule goes_scopedP, rule goes_bind [OF goes_newFrame [OF assms(1)], where k = 0])
  fix frame s' assume s': "step s s'" "psPosition s + 0 \<le> psPosition s'"
  have v: "valid crash s'" "budget sc s' < bound" "left_over s' \<le> fuel"
    using step_valid [OF s'(1) assms(1)] step_budget [OF s', of sc] step_left [OF s'] assms(2,3) by simp_all
  show "parses crash 0 (bindP (parametersLoop fuel frame []) (\<lambda>parameters. bindP (expr 0) (\<lambda>body.
         bindP (expectP tokenRight ''missing closing parenthesis'') (\<lambda>_.
           returnP (lambdaNode frame parameters body))))) s'"
  proof (rule goes_bind [OF goes_parametersLoop [OF v(1,3)], where k = 0])
    fix ps s'' assume s'': "step s' s''" "psPosition s' + 0 \<le> psPosition s''"
    have w: "valid crash s''" "budget sc s'' < bound"
      using step_valid [OF s''(1) v(1)] step_budget [OF s'', of sc] v(2) by simp_all
    have c: "covered (lambdaNode frame ps n) s3 \<longleftrightarrow> covered n s3" for n :: "'f node" and s3
      by (simp add: covered_def)
    show "parses crash 0 (bindP (expr 0) (\<lambda>body.
         bindP (expectP tokenRight ''missing closing parenthesis'') (\<lambda>_.
           returnP (lambdaNode frame ps body)))) s''"
      by (rule expression_binding [OF w, where k = 0], rule goes_closing) (use step_covered c in blast)+
  qed simp
qed simp

lemma parses_callable:
  assumes "valid crash s" "budget sc s < bound" "left_over s \<le> fuel" "covered n s"
  shows "parses crash 0 (callable expr fuel n) s"
proof -
  have call: "parses crash 0 (bindP (optionalArguments (plainArguments expr) fuel) (\<lambda>arguments.
         returnP (lambdaCallNode n arguments))) (advanced s)" if k: "tkKind (current s) = tokenLeft"
  proof -
    have "tkKind (current s) \<noteq> tokenEOF" using k by simp
    note nx = valid_advanced [OF assms(1) this] step_advanced [OF assms(1) this]
    have b: "budget sc (advanced s) < bound" "left_over (advanced s) \<le> fuel"
      using advanced_budget [OF assms(1), of sc] advanced_left [OF assms(1)] assms(2,3) by simp_all
    show ?thesis
    proof (rule goes_bind [OF goes_givenArguments(1) [OF nx(1) b], where k = 0])
      fix ns :: "'f node list" and s' assume s': "step (advanced s) s'" "all_covered ns s'"
      then show "parses crash 0 (returnP (lambdaCallNode n ns)) s'"
        using step_valid [OF s'(1) nx(1)] step_covered [OF s'(1) step_covered [OF nx(2) assms(4)]]
        by (intro goes_return covered_all)
    qed simp_all
  qed
  show ?thesis
    unfolding callable_def
    by (intro goes_current goes_if goes_return goes_next call assms) simp_all
qed

section \<open>Named functions\<close>

lemma parses_parseNamedFunctionBody:
  assumes v: "valid crash s" and b: "budget sc s \<le> bound" and d: "psDepth s < MaxNamedFunctionDepth"
    and named: "map_of (spNamedFunctions sc) key = Some definition"
  shows "parses crash 0 (parseNamedFunctionBody L expr name definition) s"
proof (cases "lex (lexer_tables.truncate L) (namedBodyText definition)")
  case (Inl message)
  then show ?thesis by (auto simp: parseNamedFunctionBody_def Let_def goes_def ends_def typedP_def failP_def)
next
  case (Inr tokens)
  let ?inner = "s\<lparr>psTokens := tokens, psPosition := 0, psDepth := psDepth s + 1, psFrames := psFrames s + 1,
    psBindings := map (\<lambda>(index, parameter). (normalizeSheetName parameter, psFrames s, index))
      (zip [0..<length (nfParameters definition)] (nfParameters definition))\<rparr>"
  have vi: "valid crash ?inner"
    using bodies [OF named Inr] by (auto simp: valid_def admitted_def token_list_def)
  have "length tokens + (MaxNamedFunctionDepth - Suc (psDepth s)) * bodyFuel sc <
      (MaxNamedFunctionDepth - psDepth s) * bodyFuel sc"
    using body_tokens [OF named Inr] d by (cases "MaxNamedFunctionDepth - psDepth s") (simp_all add: Suc_diff_Suc [symmetric])
  then have "budget sc ?inner < bound" using b by (simp add: budget_def left_over_def)
  note run = parses_expr [OF vi this, of 0]
  show ?thesis
  proof (cases "namedBodyText definition = []")
    case False
    show ?thesis
    proof (cases "expr 0 ?inner")
      case (Ran n s')
      then have s': "step ?inner s'" "covered n s'" using run by (simp_all add: goes_def ends_def)
      have "currentP s' = Ran (current s') s'"
        using step_valid [OF s'(1) vi] by (simp add: currentP_def tokenP_def current_def valid_def)
      then show ?thesis
        using False Inr Ran s' v
        by (auto simp: parseNamedFunctionBody_def Let_def goes_def ends_def step_def covered_def valid_def
            typedP_def failP_def)
    next
      case (Stopped e s')
      then have "set (psDependencies s) \<subseteq> set (psDependencies s')" using run by (simp add: goes_def ends_def)
      then show ?thesis
        using False Inr Stopped
        by (cases e) (simp_all add: parseNamedFunctionBody_def Let_def goes_def ends_def typedP_def failP_def)
    qed (use run False Inr in \<open>simp_all add: parseNamedFunctionBody_def Let_def goes_def ends_def\<close>)
  qed (simp add: parseNamedFunctionBody_def goes_def ends_def typedP_def failP_def)
qed

lemma parses_namedFunctionCall:
  assumes v: "valid crash s" and b: "budget sc s < bound" "left_over s \<le> fuel"
    and named: "map_of (spNamedFunctions sc) key = Some definition"
  shows "parses crash 0 (namedFunctionCall L expr fuel name definition) s"
proof (cases "psDepth s \<ge> MaxNamedFunctionDepth")
  case True
  then show ?thesis by (simp add: namedFunctionCall_def goes_def ends_def typedP_def failP_def)
next
  case False
  have "parses crash 0 (bindP (optionalArguments (plainArguments expr) fuel) (\<lambda>arguments.
        if length arguments \<noteq> length (nfParameters definition) then typedP ''#N/A'' (message arguments)
        else bindP (parseNamedFunctionBody L expr name definition) (\<lambda>body.
          returnP (lambdaCallNode body arguments)))) s" for message
  proof (rule goes_bind [OF goes_givenArguments(1) [OF v b], where k = 0])
    fix ns :: "'f node list" and s'
    assume s': "step s s'" "psPosition s + 1 \<le> psPosition s'" "all_covered ns s'"
    have w: "valid crash s'" "budget sc s' \<le> bound" "psDepth s' < MaxNamedFunctionDepth"
      using step_valid [OF s'(1) v] step_budget [OF s'(1,2), of sc] b(1) s'(1) False by (auto simp: step_def)
    have "parses crash 0 (bindP (parseNamedFunctionBody L expr name definition) (\<lambda>body.
          returnP (lambdaCallNode body ns))) s'"
    proof (rule goes_bind [OF parses_parseNamedFunctionBody [OF w named], where k = 0])
      fix n :: "'f node" and s'' assume s'': "step s' s''" "covered n s''"
      then show "parses crash 0 (returnP (lambdaCallNode n ns)) s''"
        using step_valid [OF s''(1) w(1)] step_all_covered [OF s''(1) s'(3)] by (intro goes_return covered_all)
    qed simp
    then show "parses crash 0 (if length ns \<noteq> length (nfParameters definition) then typedP ''#N/A'' (message ns)
        else bindP (parseNamedFunctionBody L expr name definition) (\<lambda>body.
          returnP (lambdaCallNode body ns))) s'" by simp
  qed simp_all
  with False show ?thesis by (simp add: namedFunctionCall_def goes_def ends_def)
qed

section \<open>Primaries\<close>

lemma covered_binding: "lookupBinding bs name = Some n \<Longrightarrow> covered n s"
  by (auto simp: lookupBinding_def covered_def split: option.splits prod.splits)

text \<open>A call is entered behind its parenthesis, which a call of a bound name goes back to.\<close>

lemma parses_functionCall:
  assumes v: "valid crash s" "tkKind (current s) = tokenLeft" and b: "budget sc s < bound" "left_over s \<le> fuel"
    and o: "name = ''OFFSET'' \<longrightarrow> crash"
  shows "parses crash 0 (functionCall L sc expr fuel name) (advanced s)"
proof -
  have "tkKind (current s) \<noteq> tokenEOF" using v(2) by simp
  note w = valid_advanced [OF v(1) this] step_advanced [OF v(1) this]
  have c: "budget sc (advanced s) < bound" "left_over (advanced s) \<le> fuel"
    using advanced_budget [OF v(1), of sc] advanced_left [OF v(1)] b by simp_all
  have lambda: "parses crash 0 (bindP (parseLambda expr fuel) (callable expr fuel)) (advanced s)"
  proof (rule goes_bind [OF parses_parseLambda [OF w(1) c], where k = 0])
    fix n :: "'f node" and s' assume s': "step (advanced s) s'" "psPosition (advanced s) + 0 \<le> psPosition s'" "covered n s'"
    then show "parses crash 0 (callable expr fuel n) s'"
      using step_valid [OF s'(1) w(1)] step_budget [OF s'(1,2), of sc] step_left [OF s'(1,2)] c
      by (intro parses_callable) simp_all
  qed simp
  have bound_name: "parses crash 0 (bindP retreatP (\<lambda>_. callable expr fuel n)) (advanced s)"
    if n: "covered n s" for n :: "'f node"
  proof -
    have "bindP retreatP (\<lambda>_. callable expr fuel n) (advanced s) = callable expr fuel n s"
      by (simp add: bindP_def retreatP_def advanced_def)
    also have "\<dots> = bindP advanceP (\<lambda>_. bindP (optionalArguments (plainArguments expr) fuel)
        (\<lambda>arguments. returnP (lambdaCallNode n arguments))) s"
      using v by (simp add: callable_def bind_current)
    also have "\<dots> = bindP (optionalArguments (plainArguments expr) fuel)
        (\<lambda>arguments. returnP (lambdaCallNode n arguments)) (advanced s)"
      by (simp add: bind_advance)
    finally have run: "bindP retreatP (\<lambda>_. callable expr fuel n) (advanced s) =
      bindP (optionalArguments (plainArguments expr) fuel) (\<lambda>arguments. returnP (lambdaCallNode n arguments)) (advanced s)" .
    have "parses crash 0 (bindP (optionalArguments (plainArguments expr) fuel)
        (\<lambda>arguments. returnP (lambdaCallNode n arguments))) (advanced s)"
    proof (rule goes_bind [OF goes_givenArguments(1) [OF w(1) c], where k = 0])
      fix ns :: "'f node list" and s' assume s': "step (advanced s) s'" "all_covered ns s'"
      then show "parses crash 0 (returnP (lambdaCallNode n ns)) s'"
        using step_valid [OF s'(1) w(1)] step_covered [OF s'(1) step_covered [OF w(2) n]]
        by (intro goes_return covered_all)
    qed simp
    then show ?thesis unfolding goes_def ends_def run .
  qed
  have plain: "parses crash 0 (bindP (optionalArguments (argumentsLoop expr) fuel) (\<lambda>arguments.
      case referenceFunction L sc name arguments of
        Some resolved \<Rightarrow> resolved
      | None \<Rightarrow>
          if name = ''TRUE'' \<or> name = ''FALSE'' then returnP (literalNode (VBool (name = ''TRUE'')))
          else returnP (functionNode name arguments))) (advanced s)"
  proof (rule goes_bind [OF goes_givenArguments(2) [OF w(1) c], where k = 0])
    fix ns :: "'f node list" and s' assume s': "step (advanced s) s'" "all_covered ns s'"
    have u: "valid crash s'" by (rule step_valid [OF s'(1) w(1)])
    have "covered (literalNode (VBool x)) s'" for x by (simp add: covered_def)
    then show "parses crash 0 (case referenceFunction L sc name ns of
        Some resolved \<Rightarrow> resolved
      | None \<Rightarrow>
          if name = ''TRUE'' \<or> name = ''FALSE'' then returnP (literalNode (VBool (name = ''TRUE'')))
          else returnP (functionNode name ns)) s'"
      using parses_referenceFunction [OF u scope s'(2) o] u s'(2)
      by (intro goes_option goes_if goes_return covered_all) auto
  qed simp
  show ?thesis
  proof (cases "name = ''LET'' \<or> name = ''LAMBDA''")
    case True
    then show ?thesis
      using parses_parseLet [OF w(1) c] lambda by (auto simp: functionCall_def goes_def ends_def)
  next
    case False
    show ?thesis
    proof (cases "lookupBinding (psBindings (advanced s)) name :: 'f node option")
      case (Some n)
      with False bound_name [OF covered_binding [OF Some]] show ?thesis
        by (simp add: functionCall_def goes_def ends_def)
    next
      case None
      with False plain parses_namedFunctionCall [OF w(1) c] show ?thesis
        by (cases "map_of (spNamedFunctions sc) (normalizeSheetName name)")
          (simp_all add: functionCall_def goes_def ends_def)
    qed
  qed
qed

lemma parses_bareName:
  assumes v: "valid crash s"
  shows "parses crash 0 (bareName L sc text') s"
proof -
  let ?name = "upperName text'"
  have lit: "covered (literalNode (VBool b)) s'" "covered (literalNode (functionValue f)) s'" for b f s'
    by (simp_all add: covered_def)
  have "parses crash 0 (bindP currentP (\<lambda>t.
        if columnOnlyReference ?name \<noteq> None \<and> tkKind t = tokenColon then cellReference L sc [] text'
        else case lookupBinding (psBindings s) ?name of
            Some bound \<Rightarrow> returnP bound
          | None \<Rightarrow>
              if isReference ?name then cellReference L sc [] text'
              else (case tableReference sc text' of
                      Some table \<Rightarrow> table
                    | None \<Rightarrow>
                        if map_of (spNamedRanges sc) (normalizeSheetName ?name) = None \<and> isCallableName sc ?name
                        then returnP (literalNode (functionValue (canonicalFunctionName ?name)))
                        else namedRange sc text'))) s"
    by (intro goes_current goes_if goes_option goes_return parses_cellReference parses_namedRange v scope lit)
      (use parses_tableReference [OF v] covered_binding in auto)
  moreover have "parses crash 0 (returnP (literalNode (VBool b))) s" for b
    using v lit(1) by (rule goes_return)
  ultimately show ?thesis by (auto simp: bareName_def Let_def goes_def ends_def)
qed

lemma bind_ahead: "valid crash s \<Longrightarrow> tkKind (current s) \<noteq> tokenEOF \<Longrightarrow> bindP (tokenP 1) f s = f (current (advanced s)) s"
  using bind_token1 [of s f] next_inside [of s] by (simp add: current_def advanced_def)

text \<open>Looking at the token behind the current one, to tell a band of rows.\<close>

lemma goes_band:
  assumes "valid crash s" "b \<longrightarrow> tkKind (current s) \<noteq> tokenEOF"
  shows "goes crash 0 (\<lambda>x s'. s' = s \<and> (x \<longrightarrow> b \<and> tkKind (current (advanced s)) = kind))
      (if b then bindP (tokenP 1) (\<lambda>t. returnP (tkKind t = kind)) else returnP False) s"
proof (cases b)
  case True
  with assms(2) have "bindP (tokenP 1) (\<lambda>t. returnP (tkKind t = kind)) s = Ran (tkKind (current (advanced s)) = kind) s"
    by (subst bind_ahead [OF assms(1)]) (simp_all add: returnP_def)
  with True show ?thesis using step_refl [OF assms(1)] by (simp add: goes_def ends_def)
qed (use step_refl [OF assms(1)] in \<open>simp add: goes_def ends_def returnP_def\<close>)

lemma parses_qualifiedReference:
  assumes v: "valid crash s"
  shows "parses crash 0 (qualifiedReference L sc qualifier) s"
  unfolding qualifiedReference_def
proof (intro goes_current v, rule goes_bind [OF goes_band [OF v], where k = 0])
  fix band s' assume "s' = s \<and> (band \<longrightarrow> tkKind (current s) = tokenNumber \<and> tkKind (current (advanced s)) = tokenColon)"
  then have s': "s' = s" and band: "band \<Longrightarrow> tkKind (current s) = tokenNumber \<and> tkKind (current (advanced s)) = tokenColon" by auto
  show "parses crash 0 (if band then
         (case rowNumber (tkText (current s)) of
            None \<Rightarrow> errorfP (fmtQuote L (tkText (current s)) @ '' is not a row number'')
          | Some row \<Rightarrow> bindP advanceP (\<lambda>_. rowBand L sc qualifier row))
       else if tkKind (current s) \<noteq> tokenIdentifier
       then errorfP ''sheet qualifier must be followed by a cell reference''
       else bindP advanceP (\<lambda>_. cellReference L sc qualifier (tkText (current s)))) s'"
    unfolding s' by (intro goes_if goes_option goes_fail goes_next v parses_cellReference goes_zero [OF parses_rowBand] scope)
      (use band in auto)
qed simp_all

lemma parses_numberPrimary:
  assumes v: "valid crash s"
  shows "parses crash 0 (numberPrimary L sc t) s"
  unfolding numberPrimary_def
proof (intro goes_current v, rule goes_bind [OF goes_band [OF v], where k = 0])
  fix band s' assume "s' = s \<and> (band \<longrightarrow> tkKind (current s) = tokenColon \<and> tkKind (current (advanced s)) = tokenNumber)"
  then have s': "s' = s" and band: "band \<Longrightarrow> tkKind (current s) = tokenColon" by auto
  show "parses crash 0 (case (if band then rowNumber (tkText t) else None) of
         Some row \<Rightarrow> rowBand L sc [] row
       | None \<Rightarrow> (case flParseFloat L (tkText t) of Inl message \<Rightarrow> errorfP message | Inr x \<Rightarrow> returnP (literalNode (VNumber x)))) s'"
    unfolding s' by (intro goes_option goes_sum goes_fail goes_return v goes_zero [OF parses_rowBand] scope)
      (use band in \<open>auto simp: covered_def split: if_splits\<close>)
qed simp_all

lemma parses_identifierPrimary:
  assumes v: "valid crash s" and b: "budget sc s < bound" "left_over s \<le> fuel"
    and t: "t \<in> set (psTokens s)" "tkKind t = tokenIdentifier \<or> tkKind t = tokenQuotedIdentifier"
  shows "parses crash 0 (identifierPrimary L sc expr fuel t) s"
proof -
  have o: "canonicalFunctionName (upperName (tkText t)) = ''OFFSET'' \<longrightarrow> crash" if "tkKind t = tokenIdentifier"
    using v t(1) that by (auto simp: valid_def admitted_def names_offset_def)
  have call: "parses crash 0 (bindP advanceP (\<lambda>_. functionCall L sc expr fuel (canonicalFunctionName (upperName (tkText t))))) s"
    if k: "tkKind t = tokenIdentifier" "tkKind (current s) = tokenLeft"
    by (rule goes_next [OF v]) (use k parses_functionCall [OF v k(2) b o [OF k(1)]] in simp_all)
  show ?thesis
    unfolding identifierPrimary_def
    by (intro goes_current goes_if goes_fail goes_next v parses_qualifiedReference call parses_bareName) (use t(2) in auto)
qed

lemma parses_primary:
  assumes v: "valid crash s" and b: "budget sc s \<le> bound" "left_over s \<le> fuel"
  shows "parses crash 1 (primary L sc expr fuel) s"
proof (cases "tkKind (current s) = tokenEOF")
  case True
  then have "primary L sc expr fuel s = Stopped (Untyped (''unexpected token '' @ fmtQuote L (tkText (current s)))) (advanced s)"
    by (simp add: primary_def bind_current [OF v] bind_advance errorfP_def failP_def)
  then show ?thesis by (simp add: goes_def ends_def advanced_def)
next
  case False
  note w = valid_advanced [OF v False]
  have c: "budget sc (advanced s) < bound" "left_over (advanced s) \<le> fuel"
    using advanced_budget [OF v, of sc] advanced_left [OF v] b by simp_all
  have t: "current s \<in> set (psTokens (advanced s))"
    using v by (simp add: valid_def current_def advanced_def)
  have plain: "parses crash 0 (returnP (literalNode (VText x))) (advanced s)"
    "parses crash 0 (returnP (errorNode e)) (advanced s)" for x e
    by (rule goes_return [OF w]; simp add: covered_def)+
  have paren: "parses crash 0 (bindP (expr 0) (\<lambda>v. bindP (expectP tokenRight message) (\<lambda>_. returnP v))) (advanced s)" for message
    by (rule expression_binding [OF w c(1), where k = 0], rule goes_closing) (use step_covered in blast)+
  have "parses crash 0 (case tkKind (current s) of
         tokenNumber \<Rightarrow> numberPrimary L sc (current s)
       | tokenString \<Rightarrow> returnP (literalNode (VText (tkText (current s))))
       | tokenError \<Rightarrow> returnP (errorNode (formulaError (tkText (current s)) (''formula contains '' @ tkText (current s))))
       | tokenLeft \<Rightarrow> bindP (expr 0) (\<lambda>v. bindP (expectP tokenRight ''missing closing parenthesis'') (\<lambda>_. returnP v))
       | tokenArrayOpen \<Rightarrow> arrayLiteral expr fuel
       | tokenIdentifier \<Rightarrow> identifierPrimary L sc expr fuel (current s)
       | tokenQuotedIdentifier \<Rightarrow> identifierPrimary L sc expr fuel (current s)
       | _ \<Rightarrow> errorfP (''unexpected token '' @ fmtQuote L (tkText (current s)))) (advanced s)"
    using plain paren parses_numberPrimary [OF w] parses_arrayLiteral [OF w c] parses_identifierPrimary [OF w c t]
    by (cases "tkKind (current s)") simp_all
  then show ?thesis
    unfolding primary_def
    by (intro goes_current v) (rule goes_advance [OF v False, where k = 0], simp_all)
qed

text \<open>The step from one level of the parser to the next: the same contract with one more unit.\<close>

lemma parses_level:
  assumes v: "valid crash s" and b: "budget sc s \<le> bound"
  shows "parses crash 1 (bindP (prefix (primary L sc expr bound) bound) (expressionLoop expr bound minimum)) s"
proof (rule goes_bind [where R = covered and j = 1 and k = 0])
  show "parses crash 1 (prefix (primary L sc expr bound) bound) s"
  proof (rule parses_prefix [OF _ v])
    fix s' assume s': "step s s'" "valid crash s'"
    have "budget sc s' \<le> bound" using step_budget [of s s' 0 sc] s'(1) step_position [OF s'(1)] b by simp
    then show "parses crash 1 (primary L sc expr bound) s'"
      using parses_primary [OF s'(2)] left_over_budget [of s' sc] by simp
  qed (use left_over_budget [of s sc] b in simp)
next
  fix n :: "'f node" and s' assume s': "step s s'" "psPosition s + 1 \<le> psPosition s'" "covered n s'"
  have "budget sc s' < bound" using step_budget [OF s'(1,2), of sc] b by simp
  then show "parses crash 0 (expressionLoop expr bound minimum n) s'"
    using parses_expressionLoop [OF step_valid [OF s'(1) v]] left_over_budget [of s' sc] s'(3) by simp
qed simp

end

section \<open>The whole parser\<close>

definition admitted_scope :: "'f formula_library \<Rightarrow> bool \<Rightarrow> 'f Scope \<Rightarrow> bool" where
  "admitted_scope L crash sc =
     (scope_ok sc \<and> (\<forall>(name, d) \<in> set (spNamedFunctions sc). \<forall>tokens.
        lex (lexer_tables.truncate L) (namedBodyText d) = Inr tokens \<longrightarrow> admitted crash tokens))"

text \<open>A scope whose bodies are not admitted stands for the scope without any names.\<close>

definition usable_scope :: "'f formula_library \<Rightarrow> bool \<Rightarrow> 'f Scope \<Rightarrow> 'f Scope" where
  "usable_scope L crash sc =
     (if admitted_scope L crash sc then sc else sc\<lparr>spExtent := [], spImports := [], spExternal := [], spNamedFunctions := []\<rparr>)"

lemma usable_scope_admitted: "admitted_scope L crash (usable_scope L crash sc)"
  by (simp add: usable_scope_def admitted_scope_def scope_ok_def)

lemma expression_contract: "expression_parser L (usable_scope L crash sc) crash (Suc fuel) (expression L (usable_scope L crash sc) fuel)"
proof (induction fuel)
  case 0
  show ?case
  proof
    show "parses crash 1 (expression L (usable_scope L crash sc) 0 minimum) s"
      if "valid crash s" "budget (usable_scope L crash sc) s < Suc 0" for minimum s
      using valid_left [OF that(1)] left_over_budget [of s "usable_scope L crash sc"] that(2) by simp
  qed (use usable_scope_admitted [of L crash sc] in \<open>auto simp: admitted_scope_def dest!: map_of_SomeD\<close>)
next
  case (Suc fuel)
  show ?case
  proof
    show "parses crash 1 (expression L (usable_scope L crash sc) (Suc fuel) minimum) s"
      if "valid crash s" "budget (usable_scope L crash sc) s < Suc (Suc fuel)" for minimum s
      using expression_parser.parses_level [OF Suc, of s minimum] that by simp
  qed (use usable_scope_admitted [of L crash sc] in \<open>auto simp: admitted_scope_def dest!: map_of_SomeD\<close>)
qed

interpretation formulas: expression_parser L "usable_scope L crash sc" crash "Suc fuel" "expression L (usable_scope L crash sc) fuel"
  for L crash sc fuel
  by (rule expression_contract)

text \<open>A whole formula: its parser ends, without a crash where none is admitted.\<close>

lemma parse_ends:
  assumes a: "admitted_scope L crash sc" and l: "lex (lexer_tables.truncate L) input = Inr tokens" and c: "admitted crash tokens"
  shows "parses crash 1 (parse L sc) (newParser tokens)"
proof -
  have sc: "usable_scope L crash sc = sc" using a by (simp add: usable_scope_def)
  have v: "valid crash (newParser tokens)"
    using c by (auto simp: valid_def newParser_def admitted_def token_list_def)
  have "budget sc (newParser tokens) < Suc (parserFuel sc tokens)"
    by (simp add: budget_def newParser_def left_over_def parserFuel_def)
  then have e: "parses crash 1 (expression L sc (parserFuel sc tokens) 0) (newParser tokens)"
    using formulas.parses_expr [of crash "newParser tokens" L sc "parserFuel sc tokens" 0, unfolded sc] v by simp
  have "parses crash 1 (bindP (expression L sc (parserFuel sc tokens) 0) (\<lambda>result. bindP currentP (\<lambda>t.
       if tkKind t \<noteq> tokenEOF then errorfP (''unexpected token '' @ fmtQuote L (tkText t)) else returnP result))) (newParser tokens)"
  proof (rule goes_bind [OF e, where k = 0])
    fix n s' assume s': "step (newParser tokens) s'" "covered n s'"
    show "parses crash 0 (bindP currentP (\<lambda>t. if tkKind t \<noteq> tokenEOF then errorfP (''unexpected token '' @ fmtQuote L (tkText t))
        else returnP n)) s'"
      using step_valid [OF s'(1) v] s'(2) by (intro goes_current goes_if goes_fail goes_return) simp_all
  qed simp
  then show ?thesis by (simp add: parse_def goes_def ends_def newParser_def)
qed

end
