(* ===== verification/Operators.thy ===== *)
theory Operators
  imports ParserRuns
begin

text \<open>
  What operators mean: an expression printed with the parentheses its precedences need is
  parsed back into its tree. \<open>printed\<close> is the grammar of operators written out as a printer;
  the proof follows the precedence climbing of \<open>expression\<close>.
\<close>

section \<open>Expressions and their tokens\<close>

datatype infix_expression =
    Atom token
  | Sign string infix_expression
  | Operation string infix_expression infix_expression

text \<open>The precedence an operand before or behind an operator needs: only \<^verbatim>\<open>^\<close> goes to the right.\<close>

definition left_level :: "string \<Rightarrow> int" where
  "left_level operator = (if operator = ''^'' then operatorPrecedence operator + 1 else operatorPrecedence operator)"

definition right_level :: "string \<Rightarrow> int" where
  "right_level operator = (if operator = ''^'' then operatorPrecedence operator else operatorPrecedence operator + 1)"

fun printed :: "int \<Rightarrow> infix_expression \<Rightarrow> token list" where
  "printed m (Atom t) = [t]"
| "printed m (Sign operator e) = tok tokenOperator operator # printed 6 e"
| "printed m (Operation operator l r) =
     (let operation_tokens = printed (left_level operator) l @ tok tokenOperator operator # printed (right_level operator) r in
      if operatorPrecedence operator < m then tok tokenLeft [] # operation_tokens @ [tok tokenRight []] else operation_tokens)"

text \<open>The node a token stands for by itself, with the cells it reads.\<close>

definition atom_node :: "'f formula_library \<Rightarrow> 'f Scope \<Rightarrow> token \<Rightarrow> ('f node \<times> string list) option" where
  "atom_node L sc t =
     (case tkKind t of
        tokenNumber \<Rightarrow> (case flParseFloat L (tkText t) of Inl _ \<Rightarrow> None | Inr x \<Rightarrow> Some (literalNode (VNumber x), []))
      | tokenString \<Rightarrow> Some (literalNode (VText (tkText t)), [])
      | tokenError \<Rightarrow> Some (errorNode (formulaError (tkText t) (''formula contains '' @ tkText t)), [])
      | tokenIdentifier \<Rightarrow>
          (if upperName (tkText t) = ''TRUE'' then Some (literalNode (VBool True), [])
           else if upperName (tkText t) = ''FALSE'' then Some (literalNode (VBool False), [])
           else if isReference (upperName (tkText t)) \<and> isReference (normalizeCellAddress (tkText t)) \<and>
             columnOnlyReference (normalizeCellAddress (tkText t)) = None
           then (case resolveCell sc [] (normalizeCellAddress (tkText t)) of
                   Inl _ \<Rightarrow> None | Inr key \<Rightarrow> Some (referenceNode key, [key]))
           else None)
      | _ \<Rightarrow> None)"

fun tree_of :: "'f formula_library \<Rightarrow> 'f Scope \<Rightarrow> infix_expression \<Rightarrow> ('f node \<times> string list) option" where
  "tree_of L sc (Atom t) = atom_node L sc t"
| "tree_of L sc (Sign operator e) =
     (if operator = ''+'' \<or> operator = ''-''
      then map_option (\<lambda>(n, keys). (unaryNode operator n, keys)) (tree_of L sc e) else None)"
| "tree_of L sc (Operation operator l r) =
     (if operatorPrecedence operator < 0 then None
      else case (tree_of L sc l, tree_of L sc r) of
          (Some (n, keys), Some (m, more_keys)) \<Rightarrow> Some (binaryNode operator n m, keys @ more_keys)
        | _ \<Rightarrow> None)"

section \<open>Where the parser stands\<close>

definition stands_at :: "parser_state \<Rightarrow> token list \<Rightarrow> bool" where
  "stands_at s ts = (drop (psPosition s) (psTokens s) = ts \<and> psBindings s = [])"

definition moved_on :: "nat \<Rightarrow> string list \<Rightarrow> parser_state \<Rightarrow> parser_state" where
  "moved_on k keys s = s\<lparr>psPosition := psPosition s + k, psDependencies := psDependencies s @ keys\<rparr>"

lemma moved_moved [simp]: "moved_on k keys (moved_on j keys' s) = moved_on (j + k) (keys' @ keys) s"
  by (simp add: moved_on_def)

lemma moved_none [simp]: "moved_on 0 [] s = s"
  by (simp add: moved_on_def)

lemma at_moved:
  assumes "stands_at s (us @ ts)"
  shows "stands_at (moved_on (length us) keys s) ts"
proof -
  have "drop (psPosition s + length us) (psTokens s) = drop (length us) (drop (psPosition s) (psTokens s))"
    by (simp add: add.commute)
  with assms show ?thesis by (simp add: stands_at_def moved_on_def del: drop_drop)
qed

lemma at_next: "stands_at s (t # ts) \<Longrightarrow> stands_at (moved_on (Suc 0) keys s) ts"
  using at_moved [of s "[t]" ts keys] by simp

lemma at_current:
  assumes "stands_at s (t # ts)"
  shows "bindP currentP f s = f t s"
proof -
  have d: "drop (psPosition s) (psTokens s) = t # ts" using assms by (simp add: stands_at_def)
  then have "psPosition s < length (psTokens s)" by (metis drop_all list.distinct(1) not_le)
  moreover from this d have "psTokens s ! psPosition s = t" by (metis Cons_nth_drop_Suc list.inject)
  ultimately show ?thesis by (simp add: bindP_def currentP_def tokenP_def)
qed

lemma at_advance: "bindP advanceP f s = f () (moved_on (Suc 0) [] s)"
  by (simp add: bindP_def advanceP_def moved_on_def)

lemma at_depend: "bindP (dependP keys) f s = f () (moved_on 0 keys s)"
  by (simp add: bindP_def dependP_def moved_on_def)

lemma bind_ran: "m s = Ran x s' \<Longrightarrow> bindP m f s = f x s'"
  by (simp add: bindP_def)

text \<open>What may stand behind an operand: no colon, parenthesis or exclamation mark.\<close>

definition plain_next :: "token list \<Rightarrow> bool" where
  "plain_next ts = (ts \<noteq> [] \<and> tkKind (hd ts) \<notin> {tokenColon, tokenLeft, tokenBang})"

lemma cellReference_plain:
  assumes s: "stands_at s (u # ts)" "tkKind u \<noteq> tokenColon"
    and r: "isReference (normalizeCellAddress name)" "columnOnlyReference (normalizeCellAddress name) = None"
    and k: "resolveCell sc [] (normalizeCellAddress name) = Inr key"
  shows "cellReference L sc [] name s = Ran (referenceNode key) (moved_on 0 [key] s)"
  using s(2) r k by (simp add: cellReference_def Let_def at_current [OF s(1)] liftP_def bind_return at_depend returnP_def)

lemma primary_atom:
  assumes s: "stands_at s (t # ts)" and p: "plain_next ts" and n: "atom_node L sc t = Some (n, keys)"
  shows "primary L sc expr fuel s = Ran n (moved_on (Suc 0) keys s)"
proof -
  obtain u us where ts: "ts = u # us" using p by (cases ts) (simp_all add: plain_next_def)
  note here = at_current [OF s] and ahead = at_next [OF s [unfolded ts], of "[]"]
  note there = at_current [OF ahead]
  have u: "tkKind u \<notin> {tokenColon, tokenLeft, tokenBang}" using p ts by (simp add: plain_next_def)
  have b: "psBindings (moved_on (Suc 0) [] s) = []" using ahead by (simp add: stands_at_def)
  have l: "lookupBinding [] x = (None :: 'a node option)" for x by (simp add: lookupBinding_def)
  show ?thesis
  proof (cases "tkKind t = tokenIdentifier")
    case True
    have "bareName L sc (tkText t) (moved_on (Suc 0) [] s) = Ran n (moved_on (Suc 0) keys s)"
    proof (cases "upperName (tkText t) = ''TRUE'' \<or> upperName (tkText t) = ''FALSE''")
      case True
      with n \<open>tkKind t = tokenIdentifier\<close> show ?thesis by (auto simp: atom_node_def bareName_def returnP_def)
    next
      case False
      with n \<open>tkKind t = tokenIdentifier\<close> obtain key where k: "isReference (upperName (tkText t))"
        "isReference (normalizeCellAddress (tkText t))" "columnOnlyReference (normalizeCellAddress (tkText t)) = None"
        "resolveCell sc [] (normalizeCellAddress (tkText t)) = Inr key" "n = referenceNode key" "keys = [key]"
        by (auto simp: atom_node_def split: if_splits sum.splits)
      with False u show ?thesis
        by (simp add: bareName_def Let_def there b l cellReference_plain [OF ahead _ k(2-4)])
    qed
    with True u show ?thesis
      by (simp add: primary_def here at_advance identifierPrimary_def there)
  next
    case False
    with n u show ?thesis
      by (auto simp: primary_def here at_advance atom_node_def numberPrimary_def there bind_return returnP_def
          split: tokenKind.splits sum.splits)
  qed
qed

section \<open>Reading back what was printed\<close>

text \<open>
  What follows an expression read from the level \<open>m\<close> on must not be taken for its continuation:
  where its last operation stands without parentheses, an operator behind it has to bind less.
\<close>

definition ends_here :: "token list \<Rightarrow> int \<Rightarrow> bool" where
  "ends_here ts m = (tkKind (hd ts) = tokenOperator \<longrightarrow> operatorPrecedence (tkText (hd ts)) < m)"

definition fits :: "int \<Rightarrow> int \<Rightarrow> infix_expression \<Rightarrow> token list \<Rightarrow> bool" where
  "fits c m e ts =
     (plain_next ts \<and>
      (case e of
         Operation operator l r \<Rightarrow> c \<le> operatorPrecedence operator \<longrightarrow> m \<le> operatorPrecedence operator \<and> ends_here ts (right_level operator)
       | _ \<Rightarrow> True))"

definition enclosed :: "int \<Rightarrow> infix_expression \<Rightarrow> bool" where
  "enclosed c e = (case e of Operation operator l r \<Rightarrow> operatorPrecedence operator < c | _ \<Rightarrow> True)"

lemma precedence_less: "operatorPrecedence operator < 6"
  by (simp add: operatorPrecedence_def)

lemma printed_not_empty: "printed c e \<noteq> []"
  by (cases e) (simp_all add: Let_def)

lemma expressionLoop_stops:
  assumes "stands_at s ts" "ts \<noteq> []" "ends_here ts m" "0 < k"
  shows "expressionLoop expr k m n s = Ran n s"
proof (cases k)
  case (Suc j)
  moreover obtain t us where "ts = t # us" using assms(2) by (cases ts) simp_all
  ultimately show ?thesis using assms by (auto simp: at_current ends_here_def returnP_def Let_def)
qed (use assms in simp)

text \<open>An operand read by \<open>prefix\<close>, and an expression read up to where its loop goes on.\<close>

definition reads_operand :: "'f formula_library \<Rightarrow> 'f Scope \<Rightarrow> infix_expression \<Rightarrow> bool" where
  "reads_operand L sc e =
     (\<forall>n keys c ts s f k. tree_of L sc e = Some (n, keys) \<longrightarrow> stands_at s (printed c e @ ts) \<longrightarrow> enclosed c e \<longrightarrow> plain_next ts \<longrightarrow>
        length (printed c e @ ts) \<le> Suc f \<longrightarrow> length (printed c e) \<le> k \<longrightarrow>
        prefix (primary L sc (expression L sc f) (Suc f)) k s = Ran n (moved_on (length (printed c e)) keys s))"

definition reads_expression :: "'f formula_library \<Rightarrow> 'f Scope \<Rightarrow> infix_expression \<Rightarrow> bool" where
  "reads_expression L sc e =
     (\<forall>n keys c m ts s f. tree_of L sc e = Some (n, keys) \<longrightarrow> stands_at s (printed c e @ ts) \<longrightarrow> fits c m e ts \<longrightarrow>
        length (printed c e @ ts) \<le> Suc f \<longrightarrow>
        (\<exists>k \<ge> length ts. expression L sc (Suc f) m s =
           expressionLoop (expression L sc f) k m n (moved_on (length (printed c e)) keys s)))"

lemma reads_operandD:
  assumes "reads_operand L sc e" "tree_of L sc e = Some (n, keys)" "stands_at s (printed c e @ ts)" "enclosed c e" "plain_next ts"
    and "length (printed c e @ ts) \<le> Suc f" "length (printed c e) \<le> k"
  shows "prefix (primary L sc (expression L sc f) (Suc f)) k s = Ran n (moved_on (length (printed c e)) keys s)"
  using assms unfolding reads_operand_def by blast

lemma reads_expressionD:
  assumes "reads_expression L sc e" "tree_of L sc e = Some (n, keys)" "stands_at s (printed c e @ ts)" "fits c m e ts"
    and "length (printed c e @ ts) \<le> Suc f"
  obtains k where "length ts \<le> k"
    "expression L sc (Suc f) m s = expressionLoop (expression L sc f) k m n (moved_on (length (printed c e)) keys s)"
  using assms unfolding reads_expression_def by blast

text \<open>Where nothing that follows can go on, the expression ends.\<close>

lemma reads_whole:
  assumes e: "reads_expression L sc e" "tree_of L sc e = Some (n, keys)" "stands_at s (printed c e @ ts)" "fits c m e ts"
    and f: "length (printed c e @ ts) \<le> f" and l: "ends_here ts m"
  shows "expression L sc f m s = Ran n (moved_on (length (printed c e)) keys s)"
proof -
  have ts: "ts \<noteq> []" using e(4) by (simp add: fits_def plain_next_def)
  obtain f' where f': "f = Suc f'" using f ts by (cases f) simp_all
  obtain k where k: "length ts \<le> k" "expression L sc (Suc f') m s =
      expressionLoop (expression L sc f') k m n (moved_on (length (printed c e)) keys s)"
    using reads_expressionD [OF e] f f' by blast
  have "0 < k" using k(1) ts by (cases ts) simp_all
  with expressionLoop_stops [OF at_moved [OF e(3)] ts l] k(2) f' show ?thesis by (simp only:)
qed

lemma operand_atom: "reads_operand L sc (Atom t)"
  unfolding reads_operand_def
proof (intro allI impI)
  fix n :: "'a node" and keys c ts s f k
  assume a: "tree_of L sc (Atom t) = Some (n, keys)" "stands_at s (printed c (Atom t) @ ts)" "plain_next ts" "length (printed c (Atom t)) \<le> k"
  then obtain j where j: "k = Suc j" by (cases k) simp_all
  have "tkKind t \<noteq> tokenOperator" using a(1) by (auto simp: atom_node_def)
  with a primary_atom [of s t ts L sc n keys] show "prefix (primary L sc (expression L sc f) (Suc f)) k s = Ran n (moved_on (length (printed c (Atom t))) keys s)"
    by (simp add: j at_current)
qed

lemma operand_sign:
  assumes "reads_operand L sc e"
  shows "reads_operand L sc (Sign operator e)"
  unfolding reads_operand_def
proof (intro allI impI)
  fix n :: "'a node" and keys c ts s f k
  assume a: "tree_of L sc (Sign operator e) = Some (n, keys)" "stands_at s (printed c (Sign operator e) @ ts)" "plain_next ts"
    "length (printed c (Sign operator e) @ ts) \<le> Suc f" "length (printed c (Sign operator e)) \<le> k"
  then obtain j where j: "k = Suc j" by (cases k) simp_all
  obtain m where m: "tree_of L sc e = Some (m, keys)" "n = unaryNode operator m" "operator = ''+'' \<or> operator = ''-''"
    using a(1) by (auto split: if_splits)
  have "enclosed 6 e" using precedence_less by (simp add: enclosed_def split: infix_expression.split)
  moreover have "length (printed 6 e @ ts) \<le> f" using a(4) by simp
  then have "length (printed 6 e @ ts) \<le> Suc f" by (rule le_SucI)
  ultimately have "prefix (primary L sc (expression L sc f) (Suc f)) j (moved_on (Suc 0) [] s) = Ran m (moved_on (length (printed 6 e)) keys (moved_on (Suc 0) [] s))"
    using at_next [of s "tok tokenOperator operator" "printed 6 e @ ts" "[]"] a(2,3,5) j by (intro reads_operandD [OF assms m(1)]) simp_all
  with m(2,3) a(2) show "prefix (primary L sc (expression L sc f) (Suc f)) k s = Ran n (moved_on (length (printed c (Sign operator e))) keys s)"
    by (auto simp: j at_current at_advance bind_ran returnP_def)
qed

text \<open>An expression that stands as an operand is read by \<open>prefix\<close>.\<close>

lemma expression_operand:
  assumes "reads_operand L sc e" "tree_of L sc e = Some (n, keys)" "stands_at s (printed c e @ ts)" "enclosed c e" "plain_next ts"
    and "length (printed c e @ ts) \<le> Suc f"
  shows "\<exists>k \<ge> length ts. expression L sc (Suc f) m s =
    expressionLoop (expression L sc f) k m n (moved_on (length (printed c e)) keys s)"
proof -
  have "prefix (primary L sc (expression L sc f) (Suc f)) (Suc f) s = Ran n (moved_on (length (printed c e)) keys s)"
    using assms by (intro reads_operandD [OF assms(1,2)]) simp_all
  then show ?thesis using assms(6) by (intro exI [of _ "Suc f"]) (simp add: bind_ran del: prefix.simps)
qed

lemma operators:
  "operatorPrecedence operator = 5 \<longleftrightarrow> operator = ''^''" "operatorPrecedence operator \<le> left_level operator"
  "operatorPrecedence operator \<le> right_level operator"
  by (auto simp: operatorPrecedence_def left_level_def right_level_def)

lemma fits_left:
  assumes "m \<le> operatorPrecedence operator"
  shows "fits (left_level operator) m l (tok tokenOperator operator # ts)"
proof -
  have "operatorPrecedence operator < right_level inner" if "left_level operator \<le> operatorPrecedence inner" for inner
    using that precedence_less [of operator] precedence_less [of inner] operators(1) [of operator] operators(1) [of inner]
    by (auto simp: left_level_def right_level_def split: if_splits)
  with assms operators(2) [of operator] show ?thesis
    by (auto simp: fits_def plain_next_def ends_here_def split: infix_expression.split)
qed

lemma fits_right:
  assumes "plain_next ts" "ends_here ts (right_level operator)"
  shows "fits (right_level operator) (right_level operator) r ts"
proof -
  have "ends_here ts (right_level inner)" if "right_level operator \<le> operatorPrecedence inner" for inner
    using assms(2) that operators(3) [of inner] by (auto simp: ends_here_def)
  with assms(1) show ?thesis by (auto simp: fits_def split: infix_expression.split)
qed

definition operation_tokens :: "string \<Rightarrow> infix_expression \<Rightarrow> infix_expression \<Rightarrow> token list" where
  "operation_tokens operator l r = printed (left_level operator) l @ tok tokenOperator operator # printed (right_level operator) r"

lemma operation_body:
  assumes l: "reads_expression L sc l" "tree_of L sc l = Some (n, keys)"
    and r: "reads_expression L sc r" "tree_of L sc r = Some (n', keys')"
    and s: "stands_at s (operation_tokens operator l r @ ts)" and m: "m \<le> operatorPrecedence operator"
    and ts: "plain_next ts" "ends_here ts (right_level operator)" and f: "length (operation_tokens operator l r @ ts) \<le> Suc f"
  shows "\<exists>k \<ge> length ts. expression L sc (Suc f) m s =
    expressionLoop (expression L sc f) k m (binaryNode operator n n') (moved_on (length (operation_tokens operator l r)) (keys @ keys') s)"
proof -
  let ?l = "printed (left_level operator) l" and ?r = "printed (right_level operator) r" and ?o = "tok tokenOperator operator"
  obtain k where k: "length (?o # ?r @ ts) \<le> k" and e: "expression L sc (Suc f) m s =
      expressionLoop (expression L sc f) k m n (moved_on (length ?l) keys s)"
    by (rule reads_expressionD [OF l, of s "left_level operator" "?o # ?r @ ts" m f])
      (use s f fits_left [OF m, of l "?r @ ts"] in \<open>simp_all add: operation_tokens_def\<close>)
  obtain j where j: "k = Suc j" "length ts \<le> j" using k by (cases k) simp_all
  have o: "stands_at (moved_on (length ?l) keys s) (?o # ?r @ ts)" using at_moved [of s ?l "?o # ?r @ ts" keys] s by (simp add: operation_tokens_def)
  have a: "stands_at (moved_on (Suc (length ?l)) keys s) (?r @ ts)" using at_next [OF o, of "[]"] by simp
  have "expression L sc f (right_level operator) (moved_on (Suc (length ?l)) keys s) =
      Ran n' (moved_on (length ?r) keys' (moved_on (Suc (length ?l)) keys s))"
    by (rule reads_whole [OF r a fits_right [OF ts]])
      (use f ts(2) printed_not_empty [of "left_level operator" l] in \<open>auto simp: operation_tokens_def Suc_le_eq\<close>)
  then have "expression L sc f (if operator = ''^'' then operatorPrecedence operator else operatorPrecedence operator + 1)
      (moved_on (Suc (length ?l)) keys s) = Ran n' (moved_on (length (operation_tokens operator l r)) (keys @ keys') s)"
    by (simp add: right_level_def operation_tokens_def)
  then have "expressionLoop (expression L sc f) k m n (moved_on (length ?l) keys s) =
      expressionLoop (expression L sc f) j m (binaryNode operator n n') (moved_on (length (operation_tokens operator l r)) (keys @ keys') s)"
    using m by (simp add: j(1) at_current [OF o] at_advance Let_def bind_ran)
  with e j(2) show ?thesis by auto
qed

lemma operand_operation:
  assumes l: "reads_expression L sc l" and r: "reads_expression L sc r"
  shows "reads_operand L sc (Operation operator l r)"
  unfolding reads_operand_def
proof (intro allI impI)
  fix n :: "'a node" and keys c ts s f k
  let ?e = "Operation operator l r" and ?b = "operation_tokens operator l r"
  assume t: "tree_of L sc ?e = Some (n, keys)" and s: "stands_at s (printed c ?e @ ts)" and c: "enclosed c ?e"
    and f: "length (printed c ?e @ ts) \<le> Suc f" and k: "length (printed c ?e) \<le> k"
  obtain n1 keys1 n2 keys2 where n: "tree_of L sc l = Some (n1, keys1)" "tree_of L sc r = Some (n2, keys2)"
    "n = binaryNode operator n1 n2" "keys = keys1 @ keys2" "0 \<le> operatorPrecedence operator"
    using t by (auto split: option.splits if_splits)
  have p: "printed c ?e = tok tokenLeft [] # ?b @ [tok tokenRight []]"
    using c by (simp add: enclosed_def operation_tokens_def Let_def)
  obtain j where j: "k = Suc j" using k p by (cases k) simp_all
  obtain f' where f': "f = Suc f'" using f p by (cases f) simp_all
  have a: "stands_at (moved_on (Suc 0) [] s) (?b @ tok tokenRight [] # ts)"
    using at_next [of s "tok tokenLeft []" "?b @ tok tokenRight [] # ts" "[]"] s p by simp
  have b: "plain_next (tok tokenRight [] # ts)" "ends_here (tok tokenRight [] # ts) x" for x
    by (simp_all add: plain_next_def ends_here_def)
  obtain i where i: "length (tok tokenRight [] # ts) \<le> i" "expression L sc (Suc f') 0 (moved_on (Suc 0) [] s) =
      expressionLoop (expression L sc f') i 0 n (moved_on (length ?b) keys (moved_on (Suc 0) [] s))"
    using operation_body [OF l n(1) r n(2) a n(5) b] f p f' n(3,4) by auto
  have z: "stands_at (moved_on (length ?b + Suc 0) keys s) (tok tokenRight [] # ts)"
    using at_moved [OF a, of keys] by (simp add: add.commute)
  have "expression L sc f 0 (moved_on (Suc 0) [] s) = Ran n (moved_on (Suc (length ?b)) keys s)"
    unfolding f' i(2) by (rule expressionLoop_stops [THEN trans]) (use z i(1) b in auto)
  with s p z show "prefix (primary L sc (expression L sc f) (Suc f)) k s = Ran n (moved_on (length (printed c ?e)) keys s)"
    by (simp add: j at_current primary_def at_advance bind_ran expectP_def bindP_assoc returnP_def)
qed

lemma expression_operation:
  assumes l: "reads_expression L sc l" and r: "reads_expression L sc r"
  shows "reads_expression L sc (Operation operator l r)"
  unfolding reads_expression_def
proof (intro allI impI)
  fix n :: "'a node" and keys c m ts s f
  let ?e = "Operation operator l r"
  assume a: "tree_of L sc ?e = Some (n, keys)" "stands_at s (printed c ?e @ ts)" "fits c m ?e ts" "length (printed c ?e @ ts) \<le> Suc f"
  have ts: "plain_next ts" using a(3) by (simp add: fits_def)
  show "\<exists>k \<ge> length ts. expression L sc (Suc f) m s =
    expressionLoop (expression L sc f) k m n (moved_on (length (printed c ?e)) keys s)"
  proof (cases "operatorPrecedence operator < c")
    case True
    then have "enclosed c ?e" by (simp add: enclosed_def)
    from expression_operand [OF operand_operation [OF l r] a(1,2) this ts a(4)] show ?thesis .
  next
    case False
    then have p: "printed c ?e = operation_tokens operator l r" by (simp add: operation_tokens_def)
    obtain n1 keys1 n2 keys2 where n: "tree_of L sc l = Some (n1, keys1)" "tree_of L sc r = Some (n2, keys2)"
      "n = binaryNode operator n1 n2" "keys = keys1 @ keys2"
      using a(1) by (auto split: option.splits if_splits)
    have "m \<le> operatorPrecedence operator" "ends_here ts (right_level operator)" using a(3) False by (simp_all add: fits_def)
    from operation_body [OF l n(1) r n(2) a(2) [unfolded p] this(1) ts this(2) a(4) [unfolded p]] show ?thesis unfolding p n(3,4) .
  qed
qed

lemma reads_printed: "reads_operand L sc e \<and> reads_expression L sc e"
proof (induction e)
  case (Atom t)
  have "reads_expression L sc (Atom t)"
    unfolding reads_expression_def
    using expression_operand [OF operand_atom] by (fastforce simp: fits_def enclosed_def)
  with operand_atom show ?case by blast
next
  case (Sign operator e)
  then have o: "reads_operand L sc (Sign operator e)" by (simp add: operand_sign)
  have "reads_expression L sc (Sign operator e)"
    unfolding reads_expression_def
  proof (intro allI impI)
    show "\<exists>k \<ge> length ts. expression L sc (Suc f) m s =
        expressionLoop (expression L sc f) k m n (moved_on (length (printed c (Sign operator e))) keys s)"
      if "tree_of L sc (Sign operator e) = Some (n, keys)" "stands_at s (printed c (Sign operator e) @ ts)"
        "fits c m (Sign operator e) ts" "length (printed c (Sign operator e) @ ts) \<le> Suc f" for n keys c m ts s f
      using expression_operand [OF o that(1,2) _ _ that(4)] that(3) by (simp add: fits_def enclosed_def)
  qed
  with o show ?case by blast
next
  case (Operation operator l r)
  then show ?case by (simp add: operand_operation expression_operation)
qed

lemma parserFuel_tokens: "psTokens (newParser ts) = ts"
  by (simp add: newParser_def)

section \<open>The properties of the parser\<close>


text \<open>Whole numbers for the library, in the examples.\<close>

definition whole_numbers :: "int formula_library" where
  "whole_numbers =
     \<lparr>uniLetter = (\<lambda>_. False), uniDigit = (\<lambda>_. False), fmtQuote = id, fmtQuoteRune = (\<lambda>_. []),
      flParseFloat = (\<lambda>t. case atoi t of None \<Rightarrow> Inl ''invalid syntax'' | Some k \<Rightarrow> Inr k), flOfInt = id, flToInt = id,
      flFormat = itoa, flSprint = (\<lambda>_. [])\<rparr>"

definition plain_scope :: "'f Scope" where
  "plain_scope =
     \<lparr>spCurrentSheet = [], spSheets = None, spNamedRanges = [], spExtent = [], spAnchor = ''Z9'', spImports = [],
      spExternal = [], spNamedFunctions = [], spTables = []\<rparr>"

definition sample_expression :: infix_expression where
  "sample_expression =
     Operation ''-'' (Operation ''-'' (Atom (tok tokenNumber ''7'')) (Atom (tok tokenIdentifier ''a1'')))
       (Operation ''*'' (Operation ''+'' (Atom (tok tokenNumber ''2'')) (Atom (tok tokenIdentifier ''$B$2'')))
         (Operation ''^'' (Sign ''-'' (Atom (tok tokenIdentifier ''A1''))) (Operation ''^'' (Atom (tok tokenNumber ''2'')) (Atom (tok tokenNumber ''3'')))))"

definition sample_tree :: "int node" where
  "sample_tree =
     binaryNode ''-'' (binaryNode ''-'' (literalNode (VNumber 7)) (referenceNode ''A1''))
       (binaryNode ''*'' (binaryNode ''+'' (literalNode (VNumber 2)) (referenceNode ''B2''))
         (binaryNode ''^'' (unaryNode ''-'' (referenceNode ''A1'')) (binaryNode ''^'' (literalNode (VNumber 2)) (literalNode (VNumber 3)))))"


text \<open>
  C25. Parsing a formula ends, and stays inside the formula. Whatever tokens the scanner produces and
  whatever named functions call each other in the scope, the parser comes to an end: with a tree, with
  an error, or, where the formula or a named function contains \<^verbatim>\<open>OFFSET\<close>, with an
  index out of range; without \<^verbatim>\<open>OFFSET\<close> it never reads a token that is not there.
\<close>

theorem parsing_ends_inside:
  assumes "scope_ok sc" "lex (lexer_tables.truncate L) input = Inr tokens"
  shows "parse L sc (newParser tokens) \<noteq> Exhausted \<and>
    (admitted_scope L False sc \<and> admitted False tokens \<longrightarrow> parse L sc (newParser tokens) \<noteq> Crashed)"
proof -
  have "admitted True tokens" using lex_tokens [OF assms(2)] by (simp add: admitted_def)
  moreover have "admitted_scope L True sc"
    using assms(1) by (auto simp: admitted_scope_def admitted_def dest: lex_tokens)
  ultimately have "parses True 1 (parse L sc) (newParser tokens)"
    using parse_ends [OF _ assms(2)] by blast
  then show ?thesis
    using parse_ends [OF _ assms(2), of False sc] by (auto simp: goes_def ends_def split: run.splits)
qed

definition sample_formula :: string where
  "sample_formula = ''=IF(A1>2,SUM(B1:C2,1),-A1)''"

definition sample_tokens :: "token list" where
  "sample_tokens = (case lex (lexer_tables.truncate whole_numbers) sample_formula of Inl _ \<Rightarrow> [] | Inr tokens \<Rightarrow> tokens)"

lemma sample_lexed: "lex (lexer_tables.truncate whole_numbers) sample_formula = Inr sample_tokens"
  by code_simp

lemma plain_scope_ok: "scope_ok plain_scope" "admitted_scope L crash plain_scope"
  by (simp_all add: scope_ok_def plain_scope_def admitted_scope_def)

theorem parsing_ends_inside_witness:
  "parse whole_numbers plain_scope (newParser sample_tokens) \<noteq> Exhausted \<and>
   parse whole_numbers plain_scope (newParser sample_tokens) \<noteq> Crashed"
proof -
  have "\<forall>t \<in> set sample_tokens. \<not> names_offset t" by code_simp
  then have "admitted False sample_tokens" using lex_tokens [OF sample_lexed] by (simp add: admitted_def)
  with parsing_ends_inside [OF plain_scope_ok(1) sample_lexed] plain_scope_ok(2) show ?thesis by blast
qed

lemma parse_covers:
  assumes "scope_ok sc" "lex (lexer_tables.truncate L) input = Inr tokens"
    and "parse L sc (newParser tokens) = Ran root s"
  shows "reads root \<subseteq> set (psDependencies s)"
proof -
  have "admitted True tokens" using lex_tokens [OF assms(2)] by (simp add: admitted_def)
  moreover have "admitted_scope L True sc"
    using assms(1) by (auto simp: admitted_scope_def admitted_def dest: lex_tokens)
  ultimately have "parses True 1 (parse L sc) (newParser tokens)"
    using parse_ends [OF _ assms(2)] by blast
  then show ?thesis using assms(3) by (simp add: goes_def ends_def covered_def)
qed

text \<open>
  C26. No formula reads a cell that the graph does not know of. Every cell that the tree of a formula
  names, in references, ranges, tables, arguments and the bodies of the functions it makes, is
  among the dependencies the parser hands to the dependency graph; what is read besides is
  the place that \<^verbatim>\<open>OFFSET\<close> or \<^verbatim>\<open>INDIRECT\<close> computes at evaluation.
\<close>

theorem dependencies_cover_tree:
  assumes "scope_ok sc" "lex (lexer_tables.truncate L) input = Inr tokens"
    and "parse L sc (newParser tokens) = Ran root s"
  shows "reads root \<subseteq> set (psDependencies s)"
  by (rule parse_covers [OF assms])

theorem dependencies_cover_tree_witness:
  "\<exists>root s. parse whole_numbers plain_scope (newParser sample_tokens) = Ran root s \<and>
    reads root \<subseteq> set (psDependencies s) \<and> psDependencies s = [''A1'', ''B1'', ''C1'', ''B2'', ''C2'', ''A1'']"
proof -
  have "(case parse whole_numbers plain_scope (newParser sample_tokens) of
     Ran root s \<Rightarrow> psDependencies s = [''A1'', ''B1'', ''C1'', ''B2'', ''C2'', ''A1''] | _ \<Rightarrow> False)" by code_simp
  then obtain root s where r: "parse whole_numbers plain_scope (newParser sample_tokens) = Ran root s"
    "psDependencies s = [''A1'', ''B1'', ''C1'', ''B2'', ''C2'', ''A1'']" by (auto split: run.splits)
  with dependencies_cover_tree [OF plain_scope_ok(1) sample_lexed r(1)] show ?thesis by blast
qed

end
