(* ===== verification/FormulaRequests.thy ===== *)
theory FormulaRequests
  imports Operators "HOL-Library.Sublist"
begin

text \<open>
  What the workbook layer reads off the text of a formula before it is calculated: the blocks of
  other workbooks (\<^verbatim>\<open>importrange.go\<close>) and the addresses (\<^verbatim>\<open>external.go\<close>) to
  fetch, and whether it is volatile (\<^verbatim>\<open>functions_reference.go\<close>). The size of the
  ranges a formula may name, and where its limits fail, stand here too.
\<close>

section \<open>Ranges\<close>

lemma nth_blocks:
  assumes "\<forall>x \<in> set xs. length (f x) = n" "i < length xs" "j < n"
  shows "concat (map f xs) ! (i * n + j) = f (xs ! i) ! j"
  using assms
proof (induction xs arbitrary: i)
  case (Cons x xs)
  then show ?case by (cases i) (simp_all add: nth_append algebra_simps)
qed simp

lemma length_blocks: "\<forall>x \<in> set xs. length (f x) = n \<Longrightarrow> length (concat (map f xs)) = length xs * n"
  by (induction xs) simp_all

lemma rectangle_cells:
  assumes "corners firstRow firstColumn lastRow lastColumn"
  defines "rows \<equiv> nat (lastRow - firstRow + 1)" and "columns \<equiv> nat (lastColumn - firstColumn + 1)"
  shows "length (rectangle sheetID firstRow firstColumn lastRow lastColumn) = rows * columns"
    and "i < rows \<Longrightarrow> j < columns \<Longrightarrow> rectangle sheetID firstRow firstColumn lastRow lastColumn ! (i * columns + j) =
      CellKey sheetID (Address (firstRow + int i) (firstColumn + int j))"
proof -
  let ?f = "\<lambda>row. map (\<lambda>column. CellKey sheetID (Address row column)) [firstColumn..lastColumn]"
  have l: "length [firstRow..lastRow] = rows" "length [firstColumn..lastColumn] = columns"
    using assms(1) by (simp_all add: rows_def columns_def)
  show "length (rectangle sheetID firstRow firstColumn lastRow lastColumn) = rows * columns"
    unfolding rectangle_def by (subst length_blocks [where n = columns]) (use l in auto)
  assume "i < rows" "j < columns"
  then have "rectangle sheetID firstRow firstColumn lastRow lastColumn ! (i * columns + j) = ?f ([firstRow..lastRow] ! i) ! j"
    unfolding rectangle_def using l by (intro nth_blocks) simp_all
  moreover have "[firstRow..lastRow] ! i = firstRow + int i" "[firstColumn..lastColumn] ! j = firstColumn + int j"
    using \<open>i < rows\<close> \<open>j < columns\<close> by (simp_all add: rows_def columns_def nth_upto)
  ultimately show "rectangle sheetID firstRow firstColumn lastRow lastColumn ! (i * columns + j) =
      CellKey sheetID (Address (firstRow + int i) (firstColumn + int j))"
    using l(2) \<open>j < columns\<close> by simp
qed

text \<open>
  C27. A range names exactly its cells, at most a hundred thousand of them. A range between two corners
  of the sheet is refused when it has more cells than that; otherwise all of them become
  dependencies, and the node keeps them row by row, so that the cell in row \<open>i\<close> and column \<open>j\<close> of the
  range stands at place \<open>i * columns + j\<close>; a range of one cell is a reference to it.
\<close>

theorem range_within_limit:
  assumes c: "corners firstRow firstColumn lastRow lastColumn"
    and d: "rows = lastRow - firstRow + 1" "columns = lastColumn - firstColumn + 1"
    "cells = rectangle sheetID firstRow firstColumn lastRow lastColumn"
  shows "buildRangeAt sheetID firstRow firstColumn lastRow lastColumn s =
      (if rows * columns > 100000 then Stopped (Typed (formulaError ''#VALUE!'' ''range is too large'')) s
       else Ran (if rows * columns = 1 then referenceNode (CellKey sheetID (Address firstRow firstColumn)) else rangeNode rows columns cells)
         (s\<lparr>psDependencies := psDependencies s @ cells\<rparr>)) \<and>
    int (length cells) = rows * columns \<and>
    (\<forall>i j. int i < rows \<and> int j < columns \<longrightarrow>
      cells ! (i * nat columns + j) = CellKey sheetID (Address (firstRow + int i) (firstColumn + int j)))"
proof -
  have b: "1 \<le> rows" "rows \<le> 1048576" "1 \<le> columns" "columns \<le> 1048576"
    using c by (simp_all add: corners_def MaxRows_def d)
  note cells = rectangle_cells [OF c, where sheetID = sheetID, folded d]
  have n: "int (length cells) = rows * columns" using cells(1) b by simp
  have at: "cells ! (i * nat columns + j) = CellKey sheetID (Address (firstRow + int i) (firstColumn + int j))"
    if "int i < rows" "int j < columns" for i j
    using cells(2) [of i j] that by simp
  have "cells \<noteq> []" using n b by auto
  moreover have "cells ! 0 = CellKey sheetID (Address firstRow firstColumn)" using at [of 0 0] b by simp
  ultimately obtain rest where single: "cells = CellKey sheetID (Address firstRow firstColumn) # rest" by (cases cells) simp_all
  have w: "wrap64 rows = rows" "wrap64 columns = columns" using b by (simp_all add: wrap64_id)
  have "buildRangeAt sheetID firstRow firstColumn lastRow lastColumn s =
      (if rows * columns > 100000 then Stopped (Typed (formulaError ''#VALUE!'' ''range is too large'')) s
       else Ran (if rows * columns = 1 then referenceNode (CellKey sheetID (Address firstRow firstColumn)) else rangeNode rows columns cells)
         (s\<lparr>psDependencies := psDependencies s @ cells\<rparr>))"
    unfolding buildRangeAt_def Let_def d(3) [symmetric] d(1,2) [symmetric] w
    using cellCount_corners [OF c, folded d(1,2)] single
    by (simp add: typedP_def failP_def bindP_def dependP_def returnP_def)
  with n at show ?thesis by blast
qed

theorem range_within_limit_witness:
  "buildRangeAt ''S'' 2 1 3 2 (newParser []) = (Ran (rangeNode 2 2 [''S!A2'', ''S!B2'', ''S!A3'', ''S!B3''])
     (newParser []\<lparr>psDependencies := [''S!A2'', ''S!B2'', ''S!A3'', ''S!B3'']\<rparr>) :: int node run) \<and>
   buildRangeAt ''S'' 1 1 1000 101 (newParser []) =
     (Stopped (Typed (formulaError ''#VALUE!'' ''range is too large'')) (newParser []) :: int node run)"
proof
  have c: "corners 2 1 3 2" "corners 1 1 1000 101" by (simp_all add: corners_def MaxRows_def)
  have r: "rectangle ''S'' 2 1 3 2 = [''S!A2'', ''S!B2'', ''S!A3'', ''S!B3'']" by code_simp
  have n: "psDependencies (newParser []) = []" by (simp add: newParser_def)
  show "buildRangeAt ''S'' 2 1 3 2 (newParser []) = (Ran (rangeNode 2 2 [''S!A2'', ''S!B2'', ''S!A3'', ''S!B3''])
     (newParser []\<lparr>psDependencies := [''S!A2'', ''S!B2'', ''S!A3'', ''S!B3'']\<rparr>) :: int node run)"
    by (rule trans [OF conjunct1 [OF range_within_limit [OF c(1) refl refl refl]]]) (simp add: r n)
  show "buildRangeAt ''S'' 1 1 1000 101 (newParser []) =
     (Stopped (Typed (formulaError ''#VALUE!'' ''range is too large'')) (newParser []) :: int node run)"
    by (rule trans [OF conjunct1 [OF range_within_limit [OF c(2) refl refl refl]]]) simp
qed

section \<open>Requests\<close>

fun importCalls :: "token list \<Rightarrow> (string \<times> string) list" where
  "importCalls (a # b # c # d # e # f # ts) =
     (if tkKind a = tokenIdentifier \<and> to_upper (tkText a) = ''IMPORTRANGE'' \<and> tkKind b = tokenLeft \<and> tkKind c = tokenString \<and>
         tkKind d = tokenComma \<and> tkKind e = tokenString \<and> tkKind f = tokenRight
      then (tkText c, tkText e) # importCalls (b # c # d # e # f # ts)
      else importCalls (b # c # d # e # f # ts))"
| "importCalls ts = []"

definition ImportRequests :: "lexer_tables \<Rightarrow> string \<Rightarrow> (string \<times> string) list" where
  "ImportRequests T input =
     (if \<not> sublist ''IMPORTRANGE'' (to_upper input) then []
      else case lex T input of Inl _ \<Rightarrow> [] | Inr tokens \<Rightarrow> importCalls tokens)"

fun externalCalls :: "token list \<Rightarrow> (string \<times> string) list" where
  "externalCalls (a # b # c # d # ts) =
     (if tkKind a = tokenIdentifier \<and> to_upper (tkText a) \<in> {''WEBSERVICE'', ''IMPORTDATA''} \<and>
         tkKind b = tokenLeft \<and> tkKind c = tokenString \<and> tkKind d = tokenRight
      then (to_upper (tkText a), tkText c) # externalCalls (b # c # d # ts)
      else externalCalls (b # c # d # ts))"
| "externalCalls ts = []"

definition ExternalRequests :: "lexer_tables \<Rightarrow> string \<Rightarrow> (string \<times> string) list" where
  "ExternalRequests T input =
     (if \<not> sublist ''WEBSERVICE'' (to_upper input) \<and> \<not> sublist ''IMPORTDATA'' (to_upper input) then []
      else case lex T input of Inl _ \<Rightarrow> [] | Inr tokens \<Rightarrow> externalCalls tokens)"

text \<open>White space and case do not hide a volatile function; a byte that starts no white space is kept.\<close>

function without_spaces :: "string \<Rightarrow> string" where
  "without_spaces s =
     (if s = [] then [] else if lead_space s \<noteq> 0 then without_spaces (drop (lead_space s) s)
      else hd s # without_spaces (tl s))"
  by pat_completeness auto
termination
  by (relation "measure length") (auto simp: not_less_eq_eq)

declare without_spaces.simps [simp del]

definition volatileFunctions :: "string list" where
  "volatileFunctions =
     [''INDIRECT('', ''OFFSET('', ''RAND('', ''RANDBETWEEN('', ''RANDARRAY('', ''TODAY('', ''NOW('', ''IMPORTRANGE('']"

definition IsVolatile :: "string \<Rightarrow> bool" where
  "IsVolatile input = (\<exists>name \<in> set volatileFunctions. sublist name (to_upper (without_spaces input)))"

definition quoted :: "string \<Rightarrow> string" where
  "quoted s = [CHR 0x22] @ s @ [CHR 0x22]"

text \<open>The parser separates arguments by a semicolon as well; such a call is never fetched.\<close>

lemma semicolon_not_fetched:
  "let formula = (\<lambda>separator. ''=IMPORTRANGE('' @ quoted ''book'' @ separator @ quoted ''A1'' @ '')'');
       sc = plain_scope\<lparr>spImports := [(ImportKey ''book'' ''A1'', \<lparr>fetText = [], fetRows = 1, fetColumns = 1, fetValues = [VNumber 5], fetErr = None\<rparr>)]\<rparr> in
   (\<forall>separator \<in> {'','', '';''}. parseFormula whole_numbers sc [] (formula separator) [] ''A1'' = Parsed [] (literalNode (VNumber 5))) \<and>
   ImportRequests (lexer_tables.truncate whole_numbers) (formula '','') = [(''book'', ''A1'')] \<and>
   ImportRequests (lexer_tables.truncate whole_numbers) (formula '';'') = []"
  by code_simp

text \<open>The last row of an array literal is lost to a comma behind it.\<close>

lemma trailing_comma_drops_row:
  "parseFormula whole_numbers plain_scope [] ''={1;2,}'' [] ''A1'' = Parsed [] (arrayLiteralNode 1 1 [literalNode (VNumber 1)])"
  by code_simp

text \<open>The product of the sides of a range wraps around: one that is far too large is accepted, or stops the process.\<close>

lemma oversized_range_accepted:
  "offsetCorners \<lparr>Row = 1, Column = 1\<rparr> 1 1 [0, 0, 2 ^ 32, 2 ^ 32] = Some (1, 1, 2 ^ 32, 2 ^ 32)"
  "cellCount 1 1 (2 ^ 32) (2 ^ 32) = 0"
  by code_simp+

lemma oversized_range_panics:
  "(case lex (lexer_tables.truncate whole_numbers) ''=OFFSET(A1,0,0,4611686018427387904,2)'' of Inl _ \<Rightarrow> False
    | Inr tokens \<Rightarrow> (case parse whole_numbers plain_scope (newParser tokens) of Crashed \<Rightarrow> True | _ \<Rightarrow> False))"
  by code_simp

text \<open>
  A formula that calls a named function is not volatile even where the body of the function is: its
  result depends on cells that are not among its dependencies.
\<close>

lemma named_function_hides_volatile:
  "let sc = plain_scope\<lparr>spNamedFunctions := [(''PEEK'', \<lparr>nfParameters = [''WHERE''], nfBody = ''=INDIRECT(WHERE)''\<rparr>)]\<rparr>;
       formula = ''=PEEK('' @ quoted ''B7'' @ '')'' in
   (case parseFormula whole_numbers sc [] formula [] ''A1'' of Parsed dependencies root \<Rightarrow> dependencies = [] | _ \<Rightarrow> False) \<and> \<not> IsVolatile formula"
  by code_simp

end
