(* ===== verification/FormulaValues.thy ===== *)
theory FormulaValues
  imports FormulaRequests
begin

text \<open>
  Values at evaluation: \<^verbatim>\<open>evaluator.go\<close> and \<^verbatim>\<open>functions.go\<close> from truth and
  comparison to the operators on scalars and arrays, and what may leave the evaluator
  (\<^verbatim>\<open>storableResult\<close>, \<^verbatim>\<open>publicValue\<close>).

  Floating-point arithmetic, dates and the functions of the library are the record
  \<open>evaluation_library\<close>; its functions are those of one recalculation, with its clock and its random
  numbers. A value that leaves the evaluator as rows of values stays an \<open>arrayValue\<close> here.
\<close>

section \<open>Answers\<close>

text \<open>
  What an evaluation ends in: a value, an error, an index out of range, or a recursion deeper than
  the stack.
\<close>

datatype 'a answer = Gives 'a | Fails go_failure | Panics | Overflows

definition chain :: "'a answer \<Rightarrow> ('a \<Rightarrow> 'b answer) \<Rightarrow> 'b answer" where
  "chain m f = (case m of Gives x \<Rightarrow> f x | Fails e \<Rightarrow> Fails e | Panics \<Rightarrow> Panics | Overflows \<Rightarrow> Overflows)"

lemma chain_simps [simp]:
  "chain (Gives x) f = f x" "chain (Fails e) f = Fails e" "chain Panics f = Panics" "chain Overflows f = Overflows"
  by (simp_all add: chain_def)

fun chain_map :: "('a \<Rightarrow> 'b answer) \<Rightarrow> 'a list \<Rightarrow> 'b list answer" where
  "chain_map f [] = Gives []"
| "chain_map f (x # xs) = chain (f x) (\<lambda>y. chain (chain_map f xs) (\<lambda>ys. Gives (y # ys)))"

definition raise :: "string \<Rightarrow> string \<Rightarrow> 'a answer" where
  "raise code message = Fails (Typed (formulaError code message))"

definition wrong_arguments :: "string \<Rightarrow> 'a answer" where
  "wrong_arguments name = Fails (Typed (argError name))"

definition answer_of :: "go_failure + 'a \<Rightarrow> 'a answer" where
  "answer_of r = (case r of Inl e \<Rightarrow> Fails e | Inr x \<Rightarrow> Gives x)"

section \<open>The library\<close>

text \<open>
  \<open>evArrays\<close> are the functions that see their arguments with their shape, \<open>evScalars\<close> those that see them
  flattened; each says with \<open>None\<close> that it does not know the function. \<open>evGroups\<close> are
  \<^verbatim>\<open>GROUPBY\<close> and \<^verbatim>\<open>PIVOTBY\<close>, which call a function they are given.
\<close>

record 'f evaluation_library = "'f formula_library" +
  evNegate :: "'f \<Rightarrow> 'f"
  evArithmetic :: "string \<Rightarrow> 'f \<Rightarrow> 'f \<Rightarrow> 'f"
  evIsZero :: "'f \<Rightarrow> bool"
  evLess :: "'f \<Rightarrow> 'f \<Rightarrow> bool"
  evSignificant :: "'f \<Rightarrow> 'f"
  evFinite :: "'f \<Rightarrow> bool"
  evDecimalRound :: "'f \<Rightarrow> 'f \<Rightarrow> 'f"
  evDateArithmetic :: "string \<Rightarrow> 'f val \<Rightarrow> 'f val \<Rightarrow> (go_failure + 'f val) option"
  evExtremeDate :: "'f val list \<Rightarrow> bool \<Rightarrow> 'f val option"
  evDate :: "int \<Rightarrow> int \<Rightarrow> int \<Rightarrow> string"
  evArrays :: "string \<Rightarrow> 'f val list \<Rightarrow> (go_failure + 'f val) option"
  evScalars :: "string \<Rightarrow> 'f val list \<Rightarrow> (go_failure + 'f val) option"
  evGroups :: "string \<Rightarrow> 'f val list \<Rightarrow> ('f val \<Rightarrow> 'f val list \<Rightarrow> 'f val answer) \<Rightarrow> 'f val answer"

abbreviation lib :: "'f evaluation_library \<Rightarrow> 'f formula_library" where
  "lib E \<equiv> formula_library.truncate E"

section \<open>Scalars\<close>

definition truthy :: "'f evaluation_library \<Rightarrow> 'f val \<Rightarrow> bool" where
  "truthy E v =
     (case v of VNil \<Rightarrow> False | VBool b \<Rightarrow> b
      | _ \<Rightarrow> (case toNumber (lib E) v of Some x \<Rightarrow> \<not> evIsZero E x | None \<Rightarrow> display (lib E) v \<noteq> []))"

text \<open>Texts compare by their bytes in lower case, numbers by their fifteen significant digits.\<close>

definition compare :: "'f evaluation_library \<Rightarrow> 'f val \<Rightarrow> 'f val \<Rightarrow> int" where
  "compare E a b =
     (case (toNumber (lib E) a, toNumber (lib E) b) of
        (Some x, Some y) \<Rightarrow>
          (let left = evSignificant E x; right = evSignificant E y in
           if evLess E left right then -1 else if evLess E right left then 1 else 0)
      | _ \<Rightarrow>
          (let left = to_lower (display (lib E) a); right = to_lower (display (lib E) b) in
           if left < right then -1 else if right < left then 1 else 0))"

definition evaluateScalarUnary :: "'f evaluation_library \<Rightarrow> string \<Rightarrow> 'f val \<Rightarrow> 'f val answer" where
  "evaluateScalarUnary E operator v =
     (case toNumber (lib E) v of
        None \<Rightarrow> raise ''#VALUE!'' ''unary operator requires a number''
      | Some x \<Rightarrow> Gives (VNumber (if operator = ''-'' then evNegate E x else x)))"

definition evaluateScalarBinary :: "'f evaluation_library \<Rightarrow> string \<Rightarrow> 'f val \<Rightarrow> 'f val \<Rightarrow> 'f val answer" where
  "evaluateScalarBinary E operator left right =
     (let comparison = compare E left right in
      if operator = ''&'' then Gives (VText (display (lib E) left @ display (lib E) right))
      else if operator = ''='' then Gives (VBool (comparison = 0))
      else if operator = ''<>'' then Gives (VBool (comparison \<noteq> 0))
      else if operator = ''<'' then Gives (VBool (comparison < 0))
      else if operator = ''>'' then Gives (VBool (comparison > 0))
      else if operator = ''<='' then Gives (VBool (comparison \<le> 0))
      else if operator = ''>='' then Gives (VBool (comparison \<ge> 0))
      else case (if operator = ''+'' \<or> operator = ''-'' then evDateArithmetic E operator left right else None) of
          Some r \<Rightarrow> answer_of r
        | None \<Rightarrow>
            (case (toNumber (lib E) left, toNumber (lib E) right) of
               (Some a, Some b) \<Rightarrow>
                 if operator = ''/'' \<and> evIsZero E b then raise ''#DIV/0!'' ''division by zero''
                 else if operator \<in> {''+'', ''-'', ''*'', ''/'', ''^''} then Gives (VNumber (evArithmetic E operator a b))
                 else raise ''#ERROR!'' ''unknown operator''
             | _ \<Rightarrow> raise ''#VALUE!'' ''arithmetic requires numbers''))"

section \<open>Arrays\<close>

definition isArrayOperand :: "'f val \<Rightarrow> bool" where
  "isArrayOperand v = (case v of arrayValue _ _ _ \<Rightarrow> True | _ \<Rightarrow> False)"

definition toArray :: "'f val \<Rightarrow> int \<times> int \<times> 'f val list" where
  "toArray v = (case v of arrayValue rows columns vs \<Rightarrow> (rows, columns, vs) | _ \<Rightarrow> (1, 1, [v]))"

definition sameShape :: "int \<times> int \<times> 'f val list \<Rightarrow> int \<times> int \<times> 'f val list \<Rightarrow> bool" where
  "sameShape a b = (fst a = fst b \<and> fst (snd a) = fst (snd b))"

text \<open>An element by its index, and by its row and column.\<close>

definition element :: "'f val list \<Rightarrow> int \<Rightarrow> 'f val answer" where
  "element vs i = (if 0 \<le> i \<and> i < int (length vs) then Gives (vs ! nat i) else Panics)"

definition array_at :: "int \<times> int \<times> 'f val list \<Rightarrow> int \<Rightarrow> int \<Rightarrow> 'f val answer" where
  "array_at a row column = (case a of (rows, columns, vs) \<Rightarrow> element vs (row * columns + column))"

definition scalarValue :: "'f val \<Rightarrow> 'f val answer" where
  "scalarValue v =
     (case toArray v of (rows, columns, vs) \<Rightarrow>
        if rows \<noteq> 1 \<or> columns \<noteq> 1 then raise ''#VALUE!'' ''a scalar value is required'' else element vs 0)"

definition flatten :: "'f val \<Rightarrow> 'f val list" where
  "flatten v = (case v of omittedValue \<Rightarrow> [] | arrayValue _ _ vs \<Rightarrow> vs | _ \<Rightarrow> [v])"

definition evaluateUnary :: "'f evaluation_library \<Rightarrow> string \<Rightarrow> 'f val \<Rightarrow> 'f val answer" where
  "evaluateUnary E operator v =
     (case v of
        arrayValue rows columns vs \<Rightarrow>
          chain (chain_map (evaluateScalarUnary E operator) vs) (\<lambda>ws. Gives (arrayValue rows columns ws))
      | _ \<Rightarrow> evaluateScalarUnary E operator v)"

text \<open>The places of an array, row by row.\<close>

definition places :: "int \<Rightarrow> int \<Rightarrow> (int \<times> int) list" where
  "places rows columns = concat (map (\<lambda>row. map (\<lambda>column. (row, column)) [0..columns - 1]) [0..rows - 1])"

definition single_cell :: "int \<times> int \<times> 'f val list \<Rightarrow> bool" where
  "single_cell a = (fst a = 1 \<and> fst (snd a) = 1)"

definition evaluateBinary :: "'f evaluation_library \<Rightarrow> string \<Rightarrow> 'f val \<Rightarrow> 'f val \<Rightarrow> 'f val answer" where
  "evaluateBinary E operator left right =
     (if \<not> isArrayOperand left \<and> \<not> isArrayOperand right then evaluateScalarBinary E operator left right
      else
        let a = toArray left; b = toArray right in
        if \<not> single_cell a \<and> \<not> single_cell b \<and> \<not> sameShape a b
        then raise ''#VALUE!'' ''array operands must have the same shape''
        else
          let (rows, columns) = (if single_cell a then (fst b, fst (snd b)) else (fst a, fst (snd a))) in
          if rows * columns < 0 then Panics
          else chain (chain_map (\<lambda>(row, column).
              chain (if single_cell a then array_at a 0 0 else array_at a row column) (\<lambda>l.
              chain (if single_cell b then array_at b 0 0 else array_at b row column) (\<lambda>r.
                evaluateScalarBinary E operator l r))) (places rows columns))
            (\<lambda>vs. Gives (arrayValue rows columns vs)))"

section \<open>Results\<close>

text \<open>
  A value as it leaves the evaluator: no omitted argument, numbers of fifteen digits. An array leaves as the
  list of its rows, which an evaluation that reads it takes for the same array again; without rows
  it has no columns either.
\<close>

definition answer_at :: "'a answer list \<Rightarrow> int \<Rightarrow> 'a answer" where
  "answer_at answers i = (if 0 \<le> i \<and> i < int (length answers) then answers ! nat i else Panics)"

fun publicValue :: "'f evaluation_library \<Rightarrow> 'f val \<Rightarrow> 'f val answer" where
  "publicValue E omittedValue = Gives VNil"
| "publicValue E (arrayValue rows columns vs) =
     (let answers = map (publicValue E) vs in
      if rows < 0 \<or> 0 < rows \<and> columns < 0 then Panics
      else chain (chain_map (\<lambda>(row, column). answer_at answers (row * columns + column)) (places rows columns)) (\<lambda>ws.
        Gives (arrayValue rows (if rows = 0 then 0 else columns) ws)))"
| "publicValue E (VNumber x) = Gives (VNumber (evSignificant E x))"
| "publicValue E v = Gives v"

fun finiteValue :: "'f evaluation_library \<Rightarrow> 'f val \<Rightarrow> bool" where
  "finiteValue E (VNumber x) = evFinite E x"
| "finiteValue E (arrayValue rows columns vs) = list_all (finiteValue E) vs"
| "finiteValue E v = True"

definition storableResult :: "'f evaluation_library \<Rightarrow> 'f val answer \<Rightarrow> 'f val answer" where
  "storableResult E result =
     chain result (\<lambda>v.
       case v of
         lambdaValue _ _ _ \<Rightarrow> raise ''#VALUE!'' ''a LAMBDA has to be called or passed to MAP, BYROW, BYCOL, REDUCE or SCAN''
       | functionValue name \<Rightarrow> raise ''#NAME?'' (''unknown name '' @ name)
       | VError e \<Rightarrow> Fails (Typed e)
       | _ \<Rightarrow> if finiteValue E v then Gives v
              else raise ''#NUM!'' ''the result is outside the range a number can hold'')"

end
