(* ===== verification/FormulaEval.thy ===== *)
theory FormulaEval
  imports FormulaValues
begin

text \<open>
  The evaluation of a parsed formula: the \<^verbatim>\<open>eval\<close> methods of the nodes
  (\<^verbatim>\<open>evaluator.go\<close>, \<^verbatim>\<open>binding.go\<close>, \<^verbatim>\<open>functions_reference.go\<close>).

  Each method is a definition over \<open>ev\<close>, the evaluation of the nodes inside; \<open>eval\<close> ties the knot
  with the depth of the stack that is left. The values of a \<^verbatim>\<open>LET\<close> or \<^verbatim>\<open>LAMBDA\<close>
  stand on its frame, which the code restores when it returns: the frames are an environment
  that is passed down, and a function called finds the values of the frames as they are then, not
  as they were when it was written.
\<close>

type_synonym 'f frames = "nat \<Rightarrow> 'f val list"
type_synonym 'f evaluator = "'f frames \<Rightarrow> 'f node \<Rightarrow> 'f val answer"
type_synonym 'f cells = "string \<Rightarrow> 'f val option"

section \<open>Reading cells\<close>

definition cell_value :: "'f cells \<Rightarrow> string \<Rightarrow> 'f val" where
  "cell_value cells address = (case cells address of None \<Rightarrow> VNil | Some v \<Rightarrow> v)"

definition read_cell :: "'f cells \<Rightarrow> string \<Rightarrow> 'f val answer" where
  "read_cell cells address = (case cell_value cells address of VError e \<Rightarrow> Fails (Typed e) | v \<Rightarrow> Gives v)"

definition range_too_large :: formula_error where
  "range_too_large = formulaError ''#VALUE!'' ''range is too large''"

definition evalRange :: "'f cells \<Rightarrow> int \<Rightarrow> int \<Rightarrow> string list \<Rightarrow> 'f val answer" where
  "evalRange cells rows columns addresses =
     (if wrap64 (rows * columns) > 100000 then Fails (Typed range_too_large)
      else if wrap64 (rows * columns) < 0 then Panics
      else chain (chain_map (read_cell cells) addresses) (\<lambda>vs. Gives (arrayValue rows columns vs)))"

text \<open>\<^verbatim>\<open>INDIRECT\<close> and \<^verbatim>\<open>OFFSET\<close> of computed places.\<close>

definition readRectangle :: "'f cells \<Rightarrow> string \<Rightarrow> int \<Rightarrow> int \<Rightarrow> int \<Rightarrow> int \<Rightarrow> 'f val answer" where
  "readRectangle cells sheetID firstRow firstColumn lastRow lastColumn =
     (let count = cellCount firstRow firstColumn lastRow lastColumn in
      if count > 100000 then Fails (Typed range_too_large)
      else if count < 0 then Panics
      else chain (chain_map (read_cell cells) (rectangle sheetID firstRow firstColumn lastRow lastColumn)) (\<lambda>vs.
        if count = 1 then element vs 0
        else Gives (arrayValue (wrap64 (lastRow - firstRow + 1)) (wrap64 (lastColumn - firstColumn + 1)) vs)))"

definition readReference :: "'f cells \<Rightarrow> string \<Rightarrow> string \<Rightarrow> 'f val answer" where
  "readReference cells sheetID text =
     (let text = trim_space text;
          (sheetID, text) = (case lastBang text of
             None \<Rightarrow> (sheetID, text)
           | Some (front, behind) \<Rightarrow> (to_upper (trimQuotes (trim_space front)), trim_space behind)) in
      case Parse (filter (\<lambda>c. c \<noteq> CHR ''$'') text) of
        Inl _ \<Rightarrow> raise ''#REF!'' (''INDIRECT received '' @ text @ '', which is not a reference'')
      | Inr selected \<Rightarrow>
          readRectangle cells sheetID (Row (Start selected)) (Column (Start selected)) (Row (End selected)) (Column (End selected)))"

definition offsetArgument :: "'f evaluation_library \<Rightarrow> 'f val \<Rightarrow> int answer" where
  "offsetArgument E v =
     (if omitted v then Gives offsetSkipped
      else case toNumber (lib E) v of
          None \<Rightarrow> raise ''#VALUE!'' ''OFFSET requires whole numbers'' | Some x \<Rightarrow> Gives (flToInt E x))"

definition evalDynamic ::
  "'f evaluation_library \<Rightarrow> 'f cells \<Rightarrow> 'f evaluator \<Rightarrow> 'f frames \<Rightarrow> string \<Rightarrow> 'f node list \<Rightarrow> string \<Rightarrow> Position \<Rightarrow> 'f val answer" where
  "evalDynamic E cells ev env kind arguments sheetID base =
     (if kind = ''INDIRECT'' then
        (case arguments of
           [] \<Rightarrow> Panics
         | argument # _ \<Rightarrow> chain (ev env argument) (\<lambda>v. readReference cells sheetID (display (lib E) v)))
      else
        chain (chain_map (\<lambda>argument. chain (ev env argument) (offsetArgument E)) (tl arguments)) (\<lambda>offsets.
          if length offsets < 2 then Panics
          else case offsetCorners base 1 1 offsets of
              None \<Rightarrow> raise ''#REF!'' ''OFFSET moved outside the sheet''
            | Some (firstRow, firstColumn, lastRow, lastColumn) \<Rightarrow>
                readRectangle cells sheetID firstRow firstColumn lastRow lastColumn))"

section \<open>Calling a function value\<close>

definition callValue :: "'f evaluator \<Rightarrow> 'f frames \<Rightarrow> 'f val \<Rightarrow> 'f val list \<Rightarrow> 'f val answer" where
  "callValue ev env function arguments =
     (case function of
        functionValue name \<Rightarrow> ev env (functionNode name (map literalNode arguments))
      | lambdaValue frame parameters content \<Rightarrow>
          if length arguments > length parameters
          then raise ''#VALUE!'' ''LAMBDA received more arguments than it names''
          else ev (env(frame := arguments @ replicate (length parameters - length arguments) omittedValue)) content
      | _ \<Rightarrow> Panics)"

definition callable_value :: "'f val \<Rightarrow> bool" where
  "callable_value v = (case v of functionValue _ \<Rightarrow> True | lambdaValue _ _ _ \<Rightarrow> True | _ \<Rightarrow> False)"

definition lambdaHelpers :: "string list" where
  "lambdaHelpers = [''MAP'', ''BYROW'', ''BYCOL'', ''REDUCE'', ''SCAN'', ''ISOMITTED'', ''GROUPBY'', ''PIVOTBY'']"

definition oneOrArray :: "int \<Rightarrow> int \<Rightarrow> 'f val list \<Rightarrow> 'f val" where
  "oneOrArray rows columns vs = (if rows = 1 \<and> columns = 1 \<and> length vs = 1 then hd vs else arrayValue rows columns vs)"

definition mapHelper :: "('f val list \<Rightarrow> 'f val answer) \<Rightarrow> (int \<times> int \<times> 'f val list) list \<Rightarrow> 'f val answer" where
  "mapHelper call arrays =
     (case arrays of
        [] \<Rightarrow> Panics
      | (rows, columns, vs) # more_arrays \<Rightarrow>
          if \<not> list_all (sameShape (rows, columns, vs)) more_arrays
          then raise ''#VALUE!'' ''MAP needs arrays of the same shape''
          else chain (chain_map (\<lambda>i. chain (chain_map (\<lambda>(_, _, ws). element ws (int i)) arrays) call) [0..<length vs]) (\<lambda>ws.
            Gives (oneOrArray rows columns ws)))"

definition bySlices :: "('f val list \<Rightarrow> 'f val answer) \<Rightarrow> bool \<Rightarrow> int \<times> int \<times> 'f val list \<Rightarrow> 'f val answer" where
  "bySlices call by_row array =
     (case array of (rows, columns, vs) \<Rightarrow>
        let count = (if by_row then rows else columns); len = (if by_row then columns else rows) in
        if count < 0 then Panics
        else chain (chain_map (\<lambda>i.
          if len < 0 then Panics
          else chain (chain_map (\<lambda>j. if by_row then array_at array i j else array_at array j i) [0..len - 1]) (\<lambda>slice.
            call [if by_row then arrayValue 1 len slice else arrayValue len 1 slice])) [0..count - 1]) (\<lambda>ws.
          Gives (if by_row then oneOrArray count 1 ws else oneOrArray 1 count ws)))"

text \<open>\<^verbatim>\<open>REDUCE\<close> and \<^verbatim>\<open>SCAN\<close>: every value carried on the way.\<close>

fun carryLoop :: "('f val list \<Rightarrow> 'f val answer) \<Rightarrow> 'f val \<Rightarrow> 'f val list \<Rightarrow> 'f val list answer" where
  "carryLoop call carried [] = Gives []"
| "carryLoop call carried (v # vs) =
     chain (call [carried, v]) (\<lambda>next. chain (carryLoop call next vs) (\<lambda>rest. Gives (next # rest)))"

text \<open>The function is the last value; the others are what it is applied to.\<close>

definition applyHelper :: "('f val \<Rightarrow> 'f val list \<Rightarrow> 'f val answer) \<Rightarrow> string \<Rightarrow> 'f val list \<Rightarrow> 'f val answer" where
  "applyHelper call name vs =
     (if \<not> callable_value (last vs) then raise ''#VALUE!'' (name @ '' needs a LAMBDA as its last argument'')
      else if name = ''MAP'' then mapHelper (call (last vs)) (map toArray (butlast vs))
      else if name = ''BYROW'' \<or> name = ''BYCOL'' then
        (if length vs \<noteq> 2 then wrong_arguments name else bySlices (call (last vs)) (name = ''BYROW'') (toArray (hd vs)))
      else if length vs \<noteq> 3 then wrong_arguments name
      else (case toArray (vs ! 1) of (rows, columns, ws) \<Rightarrow>
        chain (carryLoop (call (last vs)) (hd vs) ws) (\<lambda>steps.
          Gives (if name = ''REDUCE'' then (if steps = [] then hd vs else last steps) else oneOrArray rows columns steps))))"

definition evaluateLambdaHelper ::
  "'f evaluation_library \<Rightarrow> 'f evaluator \<Rightarrow> 'f frames \<Rightarrow> string \<Rightarrow> 'f node list \<Rightarrow> 'f val answer" where
  "evaluateLambdaHelper E ev env name arguments =
     (if name = ''ISOMITTED'' then
        (case arguments of [argument] \<Rightarrow> chain (ev env argument) (\<lambda>v. Gives (VBool (omitted v))) | _ \<Rightarrow> wrong_arguments name)
      else if length arguments < 2 then wrong_arguments name
      else chain (chain_map (ev env) arguments) (\<lambda>vs.
        if name = ''GROUPBY'' \<or> name = ''PIVOTBY'' then evGroups E name vs (callValue ev env)
        else applyHelper (callValue ev env) name vs))"

section \<open>Functions that choose what to evaluate\<close>

definition evalIF :: "'f evaluation_library \<Rightarrow> 'f evaluator \<Rightarrow> 'f frames \<Rightarrow> 'f node list \<Rightarrow> 'f val answer" where
  "evalIF E ev env arguments =
     (if length arguments < 2 \<or> length arguments > 3 then wrong_arguments ''IF''
      else chain (ev env (arguments ! 0)) (\<lambda>condition.
        if truthy E condition then ev env (arguments ! 1)
        else if length arguments = 3 then ev env (arguments ! 2)
        else Gives (VBool False)))"

definition evalIFERROR :: "'f evaluator \<Rightarrow> 'f frames \<Rightarrow> 'f node list \<Rightarrow> 'f val answer" where
  "evalIFERROR ev env arguments =
     (case arguments of
        [v, fallback] \<Rightarrow> (case ev env v of Fails _ \<Rightarrow> ev env fallback | r \<Rightarrow> r)
      | _ \<Rightarrow> wrong_arguments ''IFERROR'')"

text \<open>\<^verbatim>\<open>AND\<close> and \<^verbatim>\<open>OR\<close> stop at the first value that decides.\<close>

fun logicalLoop :: "'f evaluation_library \<Rightarrow> 'f evaluator \<Rightarrow> 'f frames \<Rightarrow> bool \<Rightarrow> 'f node list \<Rightarrow> 'f val answer" where
  "logicalLoop E ev env expected [] = Gives (VBool expected)"
| "logicalLoop E ev env expected (argument # arguments) =
     chain (ev env argument) (\<lambda>v.
       if list_ex (\<lambda>item. truthy E item \<noteq> expected) (flatten v) then Gives (VBool (\<not> expected))
       else logicalLoop E ev env expected arguments)"

fun ifsLoop :: "'f evaluation_library \<Rightarrow> 'f evaluator \<Rightarrow> 'f frames \<Rightarrow> 'f node list \<Rightarrow> 'f val answer" where
  "ifsLoop E ev env (condition # v # arguments) =
     chain (ev env condition) (\<lambda>c. if truthy E c then ev env v else ifsLoop E ev env arguments)"
| "ifsLoop E ev env arguments = raise ''#N/A'' ''IFS found no true condition''"

fun switchLoop :: "'f evaluation_library \<Rightarrow> 'f evaluator \<Rightarrow> 'f frames \<Rightarrow> 'f val \<Rightarrow> 'f node list \<Rightarrow> 'f val answer" where
  "switchLoop E ev env subject (candidate # v # arguments) =
     chain (ev env candidate) (\<lambda>c. if compare E subject c = 0 then ev env v else switchLoop E ev env subject arguments)"
| "switchLoop E ev env subject [otherwise] = ev env otherwise"
| "switchLoop E ev env subject [] = raise ''#N/A'' ''SWITCH found no matching case''"

text \<open>What \<^verbatim>\<open>ISERROR\<close>, \<^verbatim>\<open>ISERR\<close> and \<^verbatim>\<open>ISNA\<close> say of an error code.\<close>

definition codeAnswer :: "string \<Rightarrow> string \<Rightarrow> bool" where
  "codeAnswer name code = (if name = ''ISNA'' then code = ''#N/A'' else if name = ''ISERR'' then code \<noteq> ''#N/A'' else True)"

definition errorAnswer :: "string \<Rightarrow> 'f val \<Rightarrow> bool" where
  "errorAnswer name v =
     (let code = (case v of VError e \<Rightarrow> ferCode e | VText t \<Rightarrow> if isFormulaErrorCode t then t else [] | _ \<Rightarrow> []) in
      code \<noteq> [] \<and> codeAnswer name code)"

text \<open>A stored code counts as an error for \<^verbatim>\<open>ISERR\<close> whatever it is, unlike in a range.\<close>

definition evalErrorTest ::
  "'f cells \<Rightarrow> 'f evaluator \<Rightarrow> 'f frames \<Rightarrow> string \<Rightarrow> 'f node list \<Rightarrow> 'f val answer" where
  "evalErrorTest cells ev env name arguments =
     (case arguments of
        [argument] \<Rightarrow>
          if name = ''ISFORMULA'' then raise ''#N/A'' ''ISFORMULA is not supported''
          else (case argument of
              rangeNode rows columns addresses \<Rightarrow>
                Gives (arrayValue rows columns (map (\<lambda>address. VBool (errorAnswer name (cell_value cells address))) addresses))
            | _ \<Rightarrow>
                (case ev env argument of
                   Gives v \<Rightarrow>
                     Gives (VBool (case v of VText code \<Rightarrow> isFormulaErrorCode code \<and> (name \<noteq> ''ISNA'' \<or> code = ''#N/A'') | _ \<Rightarrow> False))
                 | Fails (Typed e) \<Rightarrow> Gives (VBool (codeAnswer name (ferCode e)))
                 | Fails (Untyped _) \<Rightarrow> Gives (VBool True)
                 | Panics \<Rightarrow> Panics | Overflows \<Rightarrow> Overflows))
      | _ \<Rightarrow> wrong_arguments name)"

definition evaluateLazy ::
  "'f evaluation_library \<Rightarrow> 'f cells \<Rightarrow> 'f evaluator \<Rightarrow> 'f frames \<Rightarrow> string \<Rightarrow> 'f node list \<Rightarrow> 'f val answer option" where
  "evaluateLazy E cells ev env name arguments =
     (if name = ''IFS'' then Some
        (if length arguments < 2 \<or> odd (length arguments) then wrong_arguments name else ifsLoop E ev env arguments)
      else if name = ''SWITCH'' then Some
        (if length arguments < 3 then wrong_arguments name
         else chain (ev env (hd arguments)) (\<lambda>subject. switchLoop E ev env subject (tl arguments)))
      else if name = ''IFNA'' then Some
        (case arguments of
           [v, fallback] \<Rightarrow>
             (case ev env v of Fails (Typed e) \<Rightarrow> if ferCode e = ''#N/A'' then ev env fallback else Fails (Typed e) | r \<Rightarrow> r)
         | _ \<Rightarrow> wrong_arguments name)
      else if name \<in> {''ISERROR'', ''ISERR'', ''ISNA'', ''ISFORMULA''} then Some (evalErrorTest cells ev env name arguments)
      else None)"

section \<open>Functions of evaluated arguments\<close>

definition elementwiseFunctions :: "string list" where
  "elementwiseFunctions =
     [''ABS'', ''INT'', ''SIGN'', ''SQRT'', ''TRUNC'', ''ROUND'', ''ROUNDUP'', ''ROUNDDOWN'', ''EXP'', ''LN'', ''LOG10'',
      ''LEN'', ''UPPER'', ''LOWER'', ''PROPER'', ''TRIM'', ''VALUE'', ''N'', ''T'', ''TEXT'',
      ''ISNUMBER'', ''ISTEXT'', ''ISNONTEXT'', ''ISBLANK'', ''ISLOGICAL'', ''ISEVEN'', ''ISODD'', ''TYPE'',
      ''LEFT'', ''RIGHT'', ''MID'', ''REPLACE'', ''REPT'', ''SUBSTITUTE'', ''FIND'', ''SEARCH'', ''EXACT'', ''MOD'', ''POWER'']"

definition answersAboutErrors :: "string list" where
  "answersAboutErrors = [''ISBLANK'', ''ISNUMBER'', ''ISTEXT'', ''ISNONTEXT'', ''ISLOGICAL'', ''TYPE'', ''ERROR.TYPE'']"

definition toleratesErrors :: "string \<Rightarrow> bool" where
  "toleratesErrors name =
     (name \<in> {''COUNT'', ''COUNTA'', ''COUNTBLANK'', ''COUNTIF'', ''COUNTIFS'', ''AGGREGATE'',
        ''ISBLANK'', ''ISNUMBER'', ''ISTEXT'', ''ISNONTEXT'', ''ISLOGICAL'', ''TYPE'', ''ERROR.TYPE''} \<or>
      name \<in> set elementwiseFunctions)"

definition errorTolerantValue :: "'f cells \<Rightarrow> 'f evaluator \<Rightarrow> 'f frames \<Rightarrow> 'f node \<Rightarrow> 'f val answer" where
  "errorTolerantValue cells ev env argument =
     (case argument of
        rangeNode rows columns addresses \<Rightarrow>
          Gives (if wrap64 (rows * columns) > 100000 then VError range_too_large
                 else arrayValue rows columns (map (cell_value cells) addresses))
      | _ \<Rightarrow> (case ev env argument of Fails failure \<Rightarrow> Gives (VError (failure_error failure)) | r \<Rightarrow> r))"

text \<open>The first error among the values a function of single values gets at one place, and those values.\<close>

fun carriedError :: "int \<Rightarrow> 'f val list \<Rightarrow> formula_error option answer" where
  "carriedError i [] = Gives None"
| "carriedError i (v # vs) =
     (case v of
        VError e \<Rightarrow> Gives (Some e)
      | arrayValue _ _ ws \<Rightarrow>
          chain (element ws i) (\<lambda>w. case w of VError e \<Rightarrow> Gives (Some e) | _ \<Rightarrow> carriedError i vs)
      | _ \<Rightarrow> carriedError i vs)"

definition piece :: "int \<Rightarrow> 'f val \<Rightarrow> 'f val answer" where
  "piece i v = (case v of arrayValue _ _ ws \<Rightarrow> element ws i | _ \<Rightarrow> Gives v)"

definition broadcastAt ::
  "'f evaluator \<Rightarrow> 'f frames \<Rightarrow> string \<Rightarrow> 'f val list \<Rightarrow> int \<Rightarrow> 'f val answer" where
  "broadcastAt ev env name evaluated i =
     chain (if name \<in> set answersAboutErrors then Gives None else carriedError i evaluated) (\<lambda>carried.
       case carried of
         Some e \<Rightarrow> Gives (VError e)
       | None \<Rightarrow>
           chain (chain_map (piece i) evaluated) (\<lambda>pieces.
             case ev env (functionNode name (map literalNode pieces)) of
               Fails (Typed e) \<Rightarrow> Gives (VError e) | r \<Rightarrow> r))"

definition broadcastElementwise ::
  "'f evaluator \<Rightarrow> 'f frames \<Rightarrow> string \<Rightarrow> 'f val list \<Rightarrow> 'f val answer option" where
  "broadcastElementwise ev env name evaluated =
     (if name \<notin> set elementwiseFunctions then None
      else case filter isArrayOperand evaluated of
          [] \<Rightarrow>
            (if name \<in> set answersAboutErrors then None
             else case find (\<lambda>v. case v of VError _ \<Rightarrow> True | _ \<Rightarrow> False) evaluated of
                 Some (VError e) \<Rightarrow> Some (Fails (Typed e)) | _ \<Rightarrow> None)
        | array # arrays \<Rightarrow>
            if \<not> list_all (\<lambda>a. sameShape (toArray array) (toArray a)) arrays
            then Some (raise ''#VALUE!'' (name @ '' needs arrays of the same shape''))
            else
              (case toArray array of (rows, columns, _) \<Rightarrow> Some
                (if rows * columns < 0 then Panics
                 else chain (chain_map (broadcastAt ev env name evaluated) [0..rows * columns - 1]) (\<lambda>vs.
                   Gives (if length vs = 1 then hd vs else arrayValue rows columns vs)))))"

definition evalNOT :: "'f evaluation_library \<Rightarrow> 'f val list \<Rightarrow> 'f val answer" where
  "evalNOT E evaluated =
     (case evaluated of
        [v] \<Rightarrow> Gives (case v of
            arrayValue rows columns vs \<Rightarrow> arrayValue rows columns (map (\<lambda>item. VBool (\<not> truthy E item)) vs)
          | _ \<Rightarrow> VBool (\<not> truthy E v))
      | _ \<Rightarrow> wrong_arguments ''NOT'')"

definition numericValues :: "'f evaluation_library \<Rightarrow> 'f val list \<Rightarrow> 'f list" where
  "numericValues E vs = List.map_filter (\<lambda>v. case v of VNil \<Rightarrow> None | _ \<Rightarrow> toNumber (lib E) v) vs"

definition evalAggregate :: "'f evaluation_library \<Rightarrow> string \<Rightarrow> 'f val list \<Rightarrow> 'f val" where
  "evalAggregate E name vs =
     (let numbers = numericValues E vs; zero = flOfInt E 0 in
      case numbers of
        [] \<Rightarrow>
          (case (if name = ''MIN'' \<or> name = ''MAX'' then evExtremeDate E vs (name = ''MIN'') else None) of
             Some moment \<Rightarrow> moment | None \<Rightarrow> VNumber zero)
      | first # others \<Rightarrow> VNumber
          (if name = ''SUM'' then fold (\<lambda>n total. evArithmetic E ''+'' total n) numbers zero
           else if name = ''AVERAGE'' then
             evArithmetic E ''/'' (fold (\<lambda>n total. evArithmetic E ''+'' total n) numbers zero) (flOfInt E (int (length numbers)))
           else if name = ''MIN'' then fold (\<lambda>n best. if evLess E n best then n else best) others first
           else fold (\<lambda>n best. if evLess E best n then n else best) others first))"

definition evalROUND :: "'f evaluation_library \<Rightarrow> 'f val list \<Rightarrow> 'f val answer" where
  "evalROUND E vs =
     (if length vs < 1 \<or> length vs > 2 then wrong_arguments ''ROUND''
      else case toNumber (lib E) (vs ! 0) of
          None \<Rightarrow> raise ''#VALUE!'' ''ROUND requires a number''
        | Some x \<Rightarrow>
            let digits = (if length vs = 2 \<and> \<not> omitted (vs ! 1)
                          then (case toNumber (lib E) (vs ! 1) of None \<Rightarrow> flOfInt E 0 | Some d \<Rightarrow> d) else flOfInt E 0) in
            Gives (VNumber (evDecimalRound E x digits)))"

text \<open>The runes of a text, each as its bytes.\<close>

function runes :: "string \<Rightarrow> string list" where
  "runes s = (if s = [] then [] else write_rune s # runes (rune_rest s))"
  by pat_completeness auto
termination
  by (relation "measure length") (simp_all add: decode_rune_shorter)

declare runes.simps [simp del]

text \<open>
  A slice of runes; its bounds come from a number by a conversion that Go leaves open for
  numbers outside 64 bits, and a negative one is out of range.
\<close>

definition slice :: "string list \<Rightarrow> int \<Rightarrow> int \<Rightarrow> 'f val answer" where
  "slice text low high =
     (if 0 \<le> low \<and> low \<le> high \<and> high \<le> int (length text)
      then Gives (VText (concat (take (nat (high - low)) (drop (nat low) text)))) else Panics)"

definition evalLeftRight :: "'f evaluation_library \<Rightarrow> string \<Rightarrow> 'f val list \<Rightarrow> 'f val answer" where
  "evalLeftRight E name vs =
     (if length vs < 1 \<or> length vs > 2 then wrong_arguments name
      else
        let text = runes (display (lib E) (vs ! 0)); total = int (length text) in
        chain (if length vs = 2 \<and> \<not> omitted (vs ! 1)
               then (case toNumber (lib E) (vs ! 1) of
                       Some x \<Rightarrow> if evLess E x (flOfInt E 0) then raise ''#VALUE!'' ''invalid character count'' else Gives (flToInt E x)
                     | None \<Rightarrow> raise ''#VALUE!'' ''invalid character count'')
               else Gives 1) (\<lambda>count.
          let count = min count total in
          if name = ''LEFT'' then slice text 0 count else slice text (wrap64 (total - count)) total))"

definition evalMID :: "'f evaluation_library \<Rightarrow> 'f val list \<Rightarrow> 'f val answer" where
  "evalMID E vs =
     (if length vs \<noteq> 3 then wrong_arguments ''MID''
      else
        let text = runes (display (lib E) (vs ! 0)); total = int (length text) in
        case (toNumber (lib E) (vs ! 1), toNumber (lib E) (vs ! 2)) of
          (Some start, Some count) \<Rightarrow>
            if evLess E start (flOfInt E 1) \<or> evLess E count (flOfInt E 0) then raise ''#VALUE!'' ''invalid MID position''
            else
              let low = min (wrap64 (flToInt E start - 1)) total; high = min (wrap64 (low + flToInt E count)) total in
              slice text low high
        | _ \<Rightarrow> raise ''#VALUE!'' ''invalid MID position'')"

definition evalDATE :: "'f evaluation_library \<Rightarrow> 'f val list \<Rightarrow> 'f val answer" where
  "evalDATE E vs =
     (if length vs \<noteq> 3 then wrong_arguments ''DATE''
      else case (toNumber (lib E) (vs ! 0), toNumber (lib E) (vs ! 1), toNumber (lib E) (vs ! 2)) of
          (Some year, Some month, Some day) \<Rightarrow> Gives (VText (evDate E (flToInt E year) (flToInt E month) (flToInt E day)))
        | _ \<Rightarrow> raise ''#VALUE!'' ''DATE requires numbers'')"

definition scalarFunction :: "'f evaluation_library \<Rightarrow> string \<Rightarrow> 'f val list \<Rightarrow> 'f val answer" where
  "scalarFunction E name vs =
     (if name \<in> {''SUM'', ''AVERAGE'', ''MIN'', ''MAX''} then Gives (evalAggregate E name vs)
      else if name = ''COUNT'' then Gives (VNumber (flOfInt E (int (length (numericValues E vs)))))
      else if name = ''ROUND'' then evalROUND E vs
      else if name = ''CONCAT'' \<or> name = ''CONCATENATE'' then Gives (VText (concat (map (display (lib E)) vs)))
      else if name = ''LEFT'' \<or> name = ''RIGHT'' then evalLeftRight E name vs
      else if name = ''MID'' then evalMID E vs
      else if name = ''DATE'' then evalDATE E vs
      else case evScalars E name vs of Some r \<Rightarrow> answer_of r | None \<Rightarrow> raise ''#NAME?'' (''unknown function '' @ name))"

definition applyFunction ::
  "'f evaluation_library \<Rightarrow> 'f evaluator \<Rightarrow> 'f frames \<Rightarrow> string \<Rightarrow> 'f val list \<Rightarrow> 'f val answer" where
  "applyFunction E ev env name evaluated =
     (case evArrays E name evaluated of
        Some r \<Rightarrow> answer_of r
      | None \<Rightarrow>
          if name = ''NOT'' then evalNOT E evaluated
          else case broadcastElementwise ev env name evaluated of
              Some r \<Rightarrow> r
            | None \<Rightarrow> scalarFunction E name (concat (map (\<lambda>v. if omitted v then [omittedValue] else flatten v) evaluated)))"

section \<open>Nodes\<close>

definition evalFunction ::
  "'f evaluation_library \<Rightarrow> 'f cells \<Rightarrow> 'f evaluator \<Rightarrow> 'f frames \<Rightarrow> string \<Rightarrow> 'f node list \<Rightarrow> 'f val answer" where
  "evalFunction E cells ev env written arguments =
     (let name = canonicalFunctionName written in
      if name \<in> set lambdaHelpers then evaluateLambdaHelper E ev env name arguments
      else if name = ''IF'' then evalIF E ev env arguments
      else if name = ''IFERROR'' then evalIFERROR ev env arguments
      else if name = ''AND'' \<or> name = ''OR'' then
        (if arguments = [] then wrong_arguments name else logicalLoop E ev env (name = ''AND'') arguments)
      else case evaluateLazy E cells ev env name arguments of
          Some r \<Rightarrow> r
        | None \<Rightarrow>
            chain (chain_map (if toleratesErrors name then errorTolerantValue cells ev env else ev env) arguments)
              (applyFunction E ev env name))"

text \<open>The values of a \<^verbatim>\<open>LET\<close>, one after the other.\<close>

fun letValues :: "'f evaluator \<Rightarrow> 'f frames \<Rightarrow> nat \<Rightarrow> 'f val list \<Rightarrow> 'f node list \<Rightarrow> 'f val list answer" where
  "letValues ev env frame vs [] = Gives vs"
| "letValues ev env frame vs (n # ns) =
     chain (ev (env(frame := vs)) n) (\<lambda>v. letValues ev env frame (vs @ [v]) ns)"

definition evalNode :: "'f evaluation_library \<Rightarrow> 'f cells \<Rightarrow> 'f evaluator \<Rightarrow> 'f frames \<Rightarrow> 'f node \<Rightarrow> 'f val answer" where
  "evalNode E cells ev env n =
     (case n of
        literalNode v \<Rightarrow> Gives v
      | errorNode e \<Rightarrow> Fails (Typed e)
      | referenceNode address \<Rightarrow> read_cell cells address
      | rangeNode rows columns addresses \<Rightarrow> evalRange cells rows columns addresses
      | unaryNode operator operand \<Rightarrow> chain (ev env operand) (evaluateUnary E operator)
      | binaryNode operator left right \<Rightarrow>
          chain (ev env left) (\<lambda>l. chain (ev env right) (\<lambda>r. evaluateBinary E operator l r))
      | functionNode name arguments \<Rightarrow> evalFunction E cells ev env name arguments
      | arrayLiteralNode rows columns ns \<Rightarrow>
          chain (chain_map (\<lambda>item. chain (ev env item) scalarValue) ns) (\<lambda>vs. Gives (arrayValue rows columns vs))
      | dynamicReferenceNode kind arguments sheetID base \<Rightarrow> evalDynamic E cells ev env kind arguments sheetID base
      | importedNode rows columns vs \<Rightarrow> Gives (arrayValue rows columns vs)
      | bindingNode owner index \<Rightarrow>
          if index < length (env owner) then Gives (env owner ! index)
          else raise ''#VALUE!'' ''a name was used before it was given a value''
      | letNode frame ns calculation \<Rightarrow>
          chain (letValues ev env frame [] ns) (\<lambda>vs. ev (env(frame := vs)) calculation)
      | lambdaNode frame parameters content \<Rightarrow> Gives (lambdaValue frame parameters content)
      | lambdaCallNode target arguments \<Rightarrow>
          chain (ev env target) (\<lambda>function.
            case function of
              lambdaValue frame parameters content \<Rightarrow> chain (chain_map (ev env) arguments) (callValue ev env function)
            | _ \<Rightarrow> raise ''#VALUE!'' ''only a LAMBDA can be called''))"

fun eval :: "'f evaluation_library \<Rightarrow> 'f cells \<Rightarrow> nat \<Rightarrow> 'f evaluator" where
  "eval E cells 0 env n = Overflows"
| "eval E cells (Suc depth) env n = evalNode E cells (eval E cells depth) env n"

text \<open>A formula of the sheet: what \<^verbatim>\<open>Recalculate\<close> makes of its tree.\<close>

definition evaluateFormula :: "'f evaluation_library \<Rightarrow> nat \<Rightarrow> 'f node \<Rightarrow> 'f cells \<Rightarrow> 'f val answer" where
  "evaluateFormula E depth root cells =
     chain (storableResult E (eval E cells depth (\<lambda>_. []) root)) (publicValue E)"

end
