(* ===== verification/FormulaLocal.thy ===== *)
theory FormulaLocal
  imports FormulaEval
begin

text \<open>
  What an evaluation may look at: a tree whose cells are all in a set \<open>D\<close>, without references computed at
  evaluation, gives the same answer on all sheets that agree on \<open>D\<close>. The methods are compared
  with one rule per construct, \<open>agree\<close>; the contract of the evaluation of the nodes inside is the locale
  \<open>local_evaluator\<close>.
\<close>

section \<open>Closed values and trees\<close>

definition grouping :: "string \<Rightarrow> bool" where
  "grouping name = (canonicalFunctionName name = ''GROUPBY'' \<or> canonicalFunctionName name = ''PIVOTBY'')"

text \<open>
  A value or a tree is closed when every cell it names, in it or in a function it makes, is in \<open>D\<close>; no
  reference is computed, and no function is handed to the library.
\<close>

primrec closed_value :: "string set \<Rightarrow> 'f val \<Rightarrow> bool" and closed :: "string set \<Rightarrow> 'f node \<Rightarrow> bool" where
  "closed_value D VNil = True"
| "closed_value D (VNumber x) = True"
| "closed_value D (VText t) = True"
| "closed_value D (VBool b) = True"
| "closed_value D omittedValue = True"
| "closed_value D (arrayValue rows columns vs) = (\<forall>b \<in> set (map (closed_value D) vs). b)"
| "closed_value D (functionValue name) = (\<not> grouping name)"
| "closed_value D (lambdaValue frame parameters content) = closed D content"
| "closed_value D (VError e) = True"
| "closed D (literalNode v) = closed_value D v"
| "closed D (errorNode e) = True"
| "closed D (referenceNode address) = (address \<in> D)"
| "closed D (rangeNode rows columns addresses) = (set addresses \<subseteq> D)"
| "closed D (unaryNode operator n) = closed D n"
| "closed D (binaryNode operator left right) = (closed D left \<and> closed D right)"
| "closed D (functionNode name arguments) = (\<not> grouping name \<and> (\<forall>b \<in> set (map (closed D) arguments). b))"
| "closed D (arrayLiteralNode rows columns ns) = (\<forall>b \<in> set (map (closed D) ns). b)"
| "closed D (dynamicReferenceNode kind arguments sheetID base) = False"
| "closed D (importedNode rows columns vs) = (\<forall>b \<in> set (map (closed_value D) vs). b)"
| "closed D (bindingNode owner index) = True"
| "closed D (letNode frame ns calculation) = ((\<forall>b \<in> set (map (closed D) ns). b) \<and> closed D calculation)"
| "closed D (lambdaNode frame parameters content) = closed D content"
| "closed D (lambdaCallNode target arguments) = (closed D target \<and> (\<forall>b \<in> set (map (closed D) arguments). b))"

text \<open>A tree stays within \<open>D\<close> when its cells are in \<open>D\<close>, and those of the functions it makes in \<open>F\<close>.\<close>

primrec within :: "string set \<Rightarrow> string set \<Rightarrow> 'f node \<Rightarrow> bool" where
  "within F D (literalNode v) = closed_value F v"
| "within F D (errorNode e) = True"
| "within F D (referenceNode address) = (address \<in> D)"
| "within F D (rangeNode rows columns addresses) = (set addresses \<subseteq> D)"
| "within F D (unaryNode operator n) = within F D n"
| "within F D (binaryNode operator left right) = (within F D left \<and> within F D right)"
| "within F D (functionNode name arguments) = (\<not> grouping name \<and> (\<forall>b \<in> set (map (within F D) arguments). b))"
| "within F D (arrayLiteralNode rows columns ns) = (\<forall>b \<in> set (map (within F D) ns). b)"
| "within F D (dynamicReferenceNode kind arguments sheetID base) = False"
| "within F D (importedNode rows columns vs) = (\<forall>b \<in> set (map (closed_value F) vs). b)"
| "within F D (bindingNode owner index) = True"
| "within F D (letNode frame ns calculation) = ((\<forall>b \<in> set (map (within F D) ns). b) \<and> within F D calculation)"
| "within F D (lambdaNode frame parameters content) = closed F content"
| "within F D (lambdaCallNode target arguments) = (within F D target \<and> (\<forall>b \<in> set (map (within F D) arguments). b))"

lemma closed_within: "closed F n \<Longrightarrow> F \<subseteq> D \<Longrightarrow> within F D n"
  by (induction n rule: node.induct [where ?P1.0 = "\<lambda>_. True"]) auto

definition closed_cells :: "string set \<Rightarrow> string set \<Rightarrow> 'f cells \<Rightarrow> bool" where
  "closed_cells F D cells = (\<forall>address \<in> D. closed_value F (cell_value cells address))"

definition closed_frames :: "string set \<Rightarrow> 'f frames \<Rightarrow> bool" where
  "closed_frames D env = (\<forall>frame. \<forall>v \<in> set (env frame). closed_value D v)"

text \<open>The library makes no functions of its own: what it returns is closed when its arguments are.\<close>

definition makes_no_functions :: "'f evaluation_library \<Rightarrow> bool" where
  "makes_no_functions E =
     (\<forall>D name vs v. (\<forall>w \<in> set vs. closed_value D w) \<longrightarrow>
        (evArrays E name vs = Some (Inr v) \<or> evScalars E name vs = Some (Inr v) \<or> evExtremeDate E vs True = Some v \<or>
         evExtremeDate E vs False = Some v \<or> (\<exists>l r. vs = [l, r] \<and> evDateArithmetic E name l r = Some (Inr v))) \<longrightarrow>
        closed_value D v)"

section \<open>Agreement\<close>

definition agree :: "('a \<Rightarrow> bool) \<Rightarrow> 'a answer \<Rightarrow> 'a answer \<Rightarrow> bool" where
  "agree P m m' = (m = m' \<and> (\<forall>x. m = Gives x \<longrightarrow> P x))"

lemma agree_same [simp]: "agree P (Gives x) (Gives x) \<longleftrightarrow> P x" "agree P (Fails e) (Fails e)" "agree P Panics Panics"
  "agree P Overflows Overflows" "agree P (raise code message) (raise code message)" "agree P (wrong_arguments name) (wrong_arguments name)"
  by (simp_all add: agree_def raise_def wrong_arguments_def)

lemma agree_chain:
  "agree P m m' \<Longrightarrow> (\<And>x. P x \<Longrightarrow> agree Q (f x) (f' x)) \<Longrightarrow> agree Q (chain m f) (chain m' f')"
  by (cases m) (auto simp: agree_def)

lemma agree_chain_map:
  "(\<And>x. x \<in> set xs \<Longrightarrow> agree P (f x) (f' x)) \<Longrightarrow>
   agree (\<lambda>ys. (\<forall>y \<in> set ys. P y) \<and> length ys = length xs) (chain_map f xs) (chain_map f' xs)"
proof (induction xs)
  case (Cons x xs)
  have "agree P (f x) (f' x)" using Cons.prems by simp
  moreover have "agree (\<lambda>ys. (\<forall>y \<in> set ys. P y) \<and> length ys = length xs) (chain_map f xs) (chain_map f' xs)"
    using Cons by simp
  ultimately show ?case by (auto intro!: agree_chain)
qed simp

lemma agree_mono: "agree P m m' \<Longrightarrow> (\<And>x. P x \<Longrightarrow> Q x) \<Longrightarrow> agree Q m m'"
  by (simp add: agree_def)

lemma raise_gives [simp]: "raise code message \<noteq> Gives x" "wrong_arguments name \<noteq> Gives x"
  by (simp_all add: raise_def wrong_arguments_def)

lemma rel_option_if:
  "(b \<Longrightarrow> rel_option R x x') \<Longrightarrow> (\<not> b \<Longrightarrow> rel_option R y y') \<Longrightarrow> rel_option R (if b then x else y) (if b then x' else y')"
  by simp

lemma agree_if: "(b \<Longrightarrow> agree P m m') \<Longrightarrow> (\<not> b \<Longrightarrow> agree P n n') \<Longrightarrow> agree P (if b then m else n) (if b then m' else n')"
  by simp

lemma agree_eq: "m = m' \<Longrightarrow> (\<And>x. m = Gives x \<Longrightarrow> P x) \<Longrightarrow> agree P m m'"
  by (simp add: agree_def)

section \<open>Operators\<close>

lemma scalar_unary_closed: "agree (closed_value D) (evaluateScalarUnary E operator v) (evaluateScalarUnary E operator v)"
  by (simp add: evaluateScalarUnary_def split: option.split)

lemma scalar_binary_closed:
  assumes "makes_no_functions E" "closed_value D l" "closed_value D r"
  shows "agree (closed_value D) (evaluateScalarBinary E operator l r) (evaluateScalarBinary E operator l r)"
proof -
  let ?date = "if operator = ''+'' \<or> operator = ''-'' then evDateArithmetic E operator l r else None"
  have date: "closed_value D v" if "?date = Some (Inr v)" for v
    using assms(1) [unfolded makes_no_functions_def, rule_format, of "[l, r]" D operator v] assms(2,3) that by (auto split: if_splits)
  show ?thesis
    unfolding evaluateScalarBinary_def Let_def
  proof (intro agree_if agree_same(1) [THEN iffD2] closed_value.simps(3) [THEN iffD2] closed_value.simps(4) [THEN iffD2] TrueI, goal_cases)
    case 1
    show ?case
    proof (cases ?date)
      case None
      then show ?thesis by (simp split: option.split)
    next
      case (Some d)
      then show ?thesis using date by (cases d) (simp_all add: answer_of_def)
    qed
  qed
qed

lemma agree_answer_of: "(\<And>v. r = Inr v \<Longrightarrow> P v) \<Longrightarrow> agree P (answer_of r) (answer_of r)"
  by (cases r) (simp_all add: answer_of_def)

lemma toArray_closed: "closed_value D v \<Longrightarrow> toArray v = (rows, columns, vs) \<Longrightarrow> \<forall>w \<in> set vs. closed_value D w"
  by (cases v) (auto simp: toArray_def)

lemma element_closed: "\<forall>w \<in> set vs. closed_value D w \<Longrightarrow> agree (closed_value D) (element vs i) (element vs i)"
  by (auto simp: element_def agree_def)

lemma array_at_closed: "closed_value D v \<Longrightarrow> agree (closed_value D) (array_at (toArray v) row column) (array_at (toArray v) row column)"
  by (cases "toArray v") (auto simp: array_at_def intro!: element_closed dest: toArray_closed)

lemma unary_closed: "closed_value D v \<Longrightarrow> agree (closed_value D) (evaluateUnary E operator v) (evaluateUnary E operator v)"
  by (auto simp: evaluateUnary_def scalar_unary_closed split: val.split
      intro!: agree_chain [OF agree_chain_map [where P = "closed_value D"]])

lemma binary_closed:
  assumes E: "makes_no_functions E" and v: "closed_value D l" "closed_value D r"
  shows "agree (closed_value D) (evaluateBinary E operator l r) (evaluateBinary E operator l r)"
proof -
  have step: "agree (closed_value D) (case p of (row, column) \<Rightarrow>
      chain (if b then array_at (toArray l) 0 0 else array_at (toArray l) row column) (\<lambda>x.
      chain (if c then array_at (toArray r) 0 0 else array_at (toArray r) row column) (\<lambda>y. evaluateScalarBinary E operator x y)))
    (case p of (row, column) \<Rightarrow>
      chain (if b then array_at (toArray l) 0 0 else array_at (toArray l) row column) (\<lambda>x.
      chain (if c then array_at (toArray r) 0 0 else array_at (toArray r) row column) (\<lambda>y. evaluateScalarBinary E operator x y)))" for b c p
    using v by (cases p) (auto intro!: agree_chain [where P = "closed_value D"] scalar_binary_closed [OF E] array_at_closed)
  have array: "closed_value D (arrayValue rows columns vs)" if "(\<forall>w \<in> set vs. closed_value D w) \<and> length vs = k" for rows columns vs k
    using that by simp
  show ?thesis
    unfolding evaluateBinary_def Let_def
    by (cases "if single_cell (toArray l) then (fst (toArray r), fst (snd (toArray r))) else (fst (toArray l), fst (snd (toArray l)))")
      (simp only: prod.case, intro agree_if agree_same scalar_binary_closed [OF E v] agree_chain [OF agree_chain_map [OF step]] agree_same(1) [THEN iffD2] array)
qed

lemma scalarValue_closed: "closed_value D v \<Longrightarrow> agree (closed_value D) (scalarValue v) (scalarValue v)"
  by (cases "toArray v") (auto simp: scalarValue_def intro!: element_closed dest: toArray_closed)

lemma flatten_closed: "closed_value D v \<Longrightarrow> w \<in> set (flatten v) \<Longrightarrow> closed_value D w"
  by (cases v) (auto simp: flatten_def)

section \<open>Functions over a function that is called\<close>

lemma agree_element: "\<forall>w \<in> set vs. P w \<Longrightarrow> agree P (element vs i) (element vs i)"
  by (auto simp: element_def agree_def)

definition closed_array :: "string set \<Rightarrow> int \<times> int \<times> 'f val list \<Rightarrow> bool" where
  "closed_array D a = (\<forall>w \<in> set (snd (snd a)). closed_value D w)"

lemma closed_toArray: "closed_value D v \<Longrightarrow> closed_array D (toArray v)"
  by (cases v) (simp_all add: closed_array_def toArray_def)

lemma closed_oneOrArray: "\<forall>v \<in> set vs. closed_value D v \<Longrightarrow> closed_value D (oneOrArray rows columns vs)"
  by (cases vs) (auto simp: oneOrArray_def)

lemma agree_mapHelper:
  assumes call: "\<And>vs. \<forall>v \<in> set vs. closed_value D v \<Longrightarrow> agree (closed_value D) (call vs) (call' vs)"
    and arrays: "\<forall>a \<in> set arrays. closed_array D a"
  shows "agree (closed_value D) (mapHelper call arrays) (mapHelper call' arrays)"
proof -
  have row: "agree (closed_value D) (chain (chain_map (\<lambda>(_, _, ws). element ws i) arrays) call)
      (chain (chain_map (\<lambda>(_, _, ws). element ws i) arrays) call')" for i
    using arrays by (intro agree_chain [OF agree_chain_map [where P = "closed_value D"]] call)
      (auto simp: closed_array_def intro!: agree_element)
  show ?thesis
  proof (cases arrays)
    case (Cons a more_arrays)
    obtain rows columns ws where a: "a = (rows, columns, ws)" by (cases a)
    show ?thesis
      unfolding mapHelper_def Cons a list.case prod.case
      by (intro agree_if agree_same agree_chain [OF agree_chain_map [OF row [unfolded Cons a]]]) (auto intro!: closed_oneOrArray)
  qed (simp add: mapHelper_def)
qed

lemma agree_array_at: "closed_array D a \<Longrightarrow> agree (closed_value D) (array_at a row column) (array_at a row column)"
  by (cases a) (auto simp: array_at_def closed_array_def intro!: agree_element)

lemma agree_bySlices:
  assumes call: "\<And>vs. \<forall>v \<in> set vs. closed_value D v \<Longrightarrow> agree (closed_value D) (call vs) (call' vs)"
    and a: "closed_array D a"
  shows "agree (closed_value D) (bySlices call by_row a) (bySlices call' by_row a)"
proof -
  have slice: "agree (closed_value D)
      (chain (chain_map (\<lambda>j. if by_row then array_at a i j else array_at a j i) js) (\<lambda>slice. call [if by_row then arrayValue 1 len slice else arrayValue len 1 slice]))
      (chain (chain_map (\<lambda>j. if by_row then array_at a i j else array_at a j i) js) (\<lambda>slice. call' [if by_row then arrayValue 1 len slice else arrayValue len 1 slice]))"
    for i js len
    by (intro agree_chain [OF agree_chain_map [where P = "closed_value D"]] call agree_if agree_array_at a) auto
  obtain rows columns vs where v: "a = (rows, columns, vs)" by (cases a)
  show ?thesis
    unfolding bySlices_def v prod.case Let_def
    by (intro agree_if agree_same agree_chain [OF agree_chain_map [where P = "closed_value D"]] slice [unfolded v])
      (auto intro!: closed_oneOrArray)
qed

lemma agree_carryLoop:
  assumes call: "\<And>vs. \<forall>v \<in> set vs. closed_value D v \<Longrightarrow> agree (closed_value D) (call vs) (call' vs)"
  shows "closed_value D carried \<Longrightarrow> \<forall>v \<in> set vs. closed_value D v \<Longrightarrow>
    agree (\<lambda>ws. \<forall>w \<in> set ws. closed_value D w) (carryLoop call carried vs) (carryLoop call' carried vs)"
proof (induction vs arbitrary: carried)
  case (Cons v vs)
  then have "agree (closed_value D) (call [carried, v]) (call' [carried, v])" by (intro call) simp
  then show ?case using Cons by (auto intro!: agree_chain)
qed simp

lemma agree_applyHelper:
  assumes call: "\<And>f vs. closed_value D f \<Longrightarrow> \<forall>v \<in> set vs. closed_value D v \<Longrightarrow> agree (closed_value D) (call f vs) (call' f vs)"
    and vs: "\<forall>v \<in> set vs. closed_value D v" "vs \<noteq> []"
  shows "agree (closed_value D) (applyHelper call name vs) (applyHelper call' name vs)"
proof -
  have last: "agree (closed_value D) (call (last vs) ws) (call' (last vs) ws)" if "\<forall>w \<in> set ws. closed_value D w" for ws
    using that vs by (intro call) simp_all
  have arrays: "\<forall>a \<in> set (map toArray (butlast vs)). closed_array D a"
    using vs by (auto intro!: closed_toArray dest: in_set_butlastD)
  have head: "closed_value D (hd vs)" using vs by simp
  show ?thesis
  proof (cases "toArray (vs ! 1)")
    case (fields rows columns ws)
    have carry: "agree (closed_value D)
        (chain (carryLoop (call (last vs)) (hd vs) ws) (\<lambda>steps.
          Gives (if name = ''REDUCE'' then (if steps = [] then hd vs else last steps) else oneOrArray rows columns steps)))
        (chain (carryLoop (call' (last vs)) (hd vs) ws) (\<lambda>steps.
          Gives (if name = ''REDUCE'' then (if steps = [] then hd vs else last steps) else oneOrArray rows columns steps)))"
      if "\<not> length vs \<noteq> 3"
    proof (rule agree_chain [OF agree_carryLoop [OF last head]])
      show "\<forall>w \<in> set ws. closed_value D w"
        using closed_toArray [of D "vs ! 1"] vs that fields by (simp add: closed_array_def)
    qed (use head in \<open>auto intro!: closed_oneOrArray\<close>)
    show ?thesis
      unfolding applyHelper_def fields prod.case
      by (intro agree_if agree_same agree_mapHelper agree_bySlices last arrays closed_toArray head carry)
  qed
qed

lemma elementwise_not_grouping: "name \<in> set elementwiseFunctions \<Longrightarrow> \<not> grouping name"
proof -
  have "\<forall>name \<in> set elementwiseFunctions. \<not> grouping name" by code_simp
  then show "name \<in> set elementwiseFunctions \<Longrightarrow> \<not> grouping name" by blast
qed

lemma agree_carriedError: "agree (\<lambda>_. True) (carriedError i vs) (carriedError i vs)"
  by (simp add: agree_def)

lemma agree_piece: "closed_value D v \<Longrightarrow> agree (closed_value D) (piece i v) (piece i v)"
  by (cases v) (auto simp: piece_def intro!: agree_element)

lemma aggregate_closed: "makes_no_functions E \<Longrightarrow> \<forall>v \<in> set vs. closed_value D v \<Longrightarrow> closed_value D (evalAggregate E name vs)"
proof -
  assume E: "makes_no_functions E" "\<forall>v \<in> set vs. closed_value D v"
  have "closed_value D m" if "evExtremeDate E vs b = Some m" for m b
    using E(1) [unfolded makes_no_functions_def, rule_format, of vs D "[]" m] E(2) that by (cases b) auto
  then show ?thesis by (auto simp: evalAggregate_def Let_def split: list.split option.split)
qed

lemma slice_closed: "agree (closed_value D) (slice text low high) (slice text low high)"
  by (simp add: slice_def)

lemma scalarFunction_closed:
  assumes E: "makes_no_functions E" and vs: "\<forall>v \<in> set vs. closed_value D v"
  shows "agree (closed_value D) (scalarFunction E name vs) (scalarFunction E name vs)"
proof -
  have number: "agree (\<lambda>_. True) m m" for m :: "int answer" by (simp add: agree_def)
  have "agree (closed_value D) (evalROUND E vs) (evalROUND E vs)"
    by (simp add: evalROUND_def Let_def split: option.split)
  moreover have "agree (closed_value D) (evalLeftRight E name vs) (evalLeftRight E name vs)"
    unfolding evalLeftRight_def Let_def by (intro agree_if agree_same agree_chain [OF number] slice_closed)
  moreover have "agree (closed_value D) (evalMID E vs) (evalMID E vs)"
    by (simp add: evalMID_def Let_def slice_closed split: option.split)
  moreover have "agree (closed_value D) (evalDATE E vs) (evalDATE E vs)"
    by (simp add: evalDATE_def split: option.split)
  moreover have "agree (closed_value D)
      (case evScalars E name vs of Some r \<Rightarrow> answer_of r | None \<Rightarrow> raise ''#NAME?'' (''unknown function '' @ name))
      (case evScalars E name vs of Some r \<Rightarrow> answer_of r | None \<Rightarrow> raise ''#NAME?'' (''unknown function '' @ name))"
    using E [unfolded makes_no_functions_def, rule_format, of vs D name] vs
    by (auto split: option.split intro!: agree_answer_of)
  ultimately show ?thesis
    unfolding scalarFunction_def
    by (intro agree_if) (use aggregate_closed [OF E vs] in simp_all)
qed

section \<open>The methods\<close>

locale local_evaluator =
  fixes E :: "'f evaluation_library" and F D :: "string set" and cells cells' :: "'f cells" and ev ev' :: "'f evaluator"
  assumes library: "makes_no_functions E"
    and inner_cells: "F \<subseteq> D"
    and same: "\<And>address. address \<in> D \<Longrightarrow> cells address = cells' address"
    and sheet: "closed_cells F D cells"
    and inner: "\<And>env n. within F D n \<Longrightarrow> closed_frames F env \<Longrightarrow> agree (closed_value F) (ev env n) (ev' env n)"
begin

lemma local_value: "address \<in> D \<Longrightarrow> cell_value cells address = cell_value cells' address"
  by (simp add: cell_value_def same)

lemma local_read: "address \<in> D \<Longrightarrow> agree (closed_value F) (read_cell cells address) (read_cell cells' address)"
  using sheet by (auto simp: read_cell_def local_value [symmetric] closed_cells_def split: val.split)

lemma local_range: "set addresses \<subseteq> D \<Longrightarrow> agree (closed_value F) (evalRange cells rows columns addresses) (evalRange cells' rows columns addresses)"
  unfolding evalRange_def
  by (intro agree_if agree_same agree_chain [OF agree_chain_map [where P = "closed_value F"]] local_read) auto

lemma local_all:
  "(\<forall>b \<in> set (map (within F D) ns). b) \<Longrightarrow> closed_frames F env \<Longrightarrow>
   agree (\<lambda>vs. (\<forall>v \<in> set vs. closed_value F v) \<and> length vs = length ns) (chain_map (ev env) ns) (chain_map (ev' env) ns)"
  by (rule agree_chain_map, rule inner) auto

lemma closed_update: "closed_frames F env \<Longrightarrow> \<forall>v \<in> set vs. closed_value F v \<Longrightarrow> closed_frames F (env(frame := vs))"
  by (simp add: closed_frames_def)

lemma local_call:
  assumes "closed_value F function" "\<forall>v \<in> set vs. closed_value F v" "closed_frames F env"
  shows "agree (closed_value F) (callValue ev env function vs) (callValue ev' env function vs)"
  using assms inner_cells by (auto simp: callValue_def split: val.split intro!: inner closed_update closed_within)

lemma local_lambdaHelper:
  assumes c: "\<forall>b \<in> set (map (within F D) ns). b" "closed_frames F env" and g: "name \<noteq> ''GROUPBY''" "name \<noteq> ''PIVOTBY''"
  shows "agree (closed_value F) (evaluateLambdaHelper E ev env name ns) (evaluateLambdaHelper E ev' env name ns)"
proof -
  have one: "agree (closed_value F) (chain (ev env n) (\<lambda>v. Gives (VBool (omitted v)))) (chain (ev' env n) (\<lambda>v. Gives (VBool (omitted v))))"
    if "n \<in> set ns" for n
    using c that by (intro agree_chain [OF inner]) auto
  show ?thesis
    unfolding evaluateLambdaHelper_def
    using one g
    by (intro agree_if agree_chain [OF local_all [OF c]] agree_same agree_applyHelper local_call c(2))
      (auto split: list.split)
qed

lemma local_IF:
  assumes c: "\<forall>b \<in> set (map (within F D) ns). b" "closed_frames F env"
  shows "agree (closed_value F) (evalIF E ev env ns) (evalIF E ev' env ns)"
proof -
  have nth: "within F D (ns ! i)" if "i < length ns" for i using c(1) that by simp
  show ?thesis
    unfolding evalIF_def
    by (intro agree_if agree_same agree_chain [where P = "closed_value F"] inner c(2) nth) auto
qed

lemma local_IFERROR:
  assumes "\<forall>b \<in> set (map (within F D) ns). b" "closed_frames F env"
  shows "agree (closed_value F) (evalIFERROR ev env ns) (evalIFERROR ev' env ns)"
proof -
  have "agree (closed_value F) (case ev env v of Fails _ \<Rightarrow> ev env fallback | r \<Rightarrow> r) (case ev' env v of Fails _ \<Rightarrow> ev' env fallback | r \<Rightarrow> r)"
    if "ns = [v, fallback]" for v fallback
    using inner [of v env] inner [of fallback env] assms that by (auto simp: agree_def split: answer.splits)
  then show ?thesis by (auto simp: evalIFERROR_def split: list.split)
qed

lemma local_logical:
  "\<forall>b \<in> set (map (within F D) ns). b \<Longrightarrow> closed_frames F env \<Longrightarrow>
   agree (closed_value F) (logicalLoop E ev env expected ns) (logicalLoop E ev' env expected ns)"
  by (induction ns) (auto intro!: agree_chain [OF inner])

lemma local_ifs:
  "\<forall>b \<in> set (map (within F D) ns). b \<Longrightarrow> closed_frames F env \<Longrightarrow>
   agree (closed_value F) (ifsLoop E ev env ns) (ifsLoop E ev' env ns)"
  by (induction ns rule: induct_list012) (auto intro!: agree_chain [where P = "closed_value F"] inner)

lemma local_switch:
  "\<forall>b \<in> set (map (within F D) ns). b \<Longrightarrow> closed_frames F env \<Longrightarrow>
   agree (closed_value F) (switchLoop E ev env subject ns) (switchLoop E ev' env subject ns)"
  by (induction ns rule: induct_list012) (auto intro!: agree_chain [where P = "closed_value F"] inner)

lemma local_errorTest:
  assumes "\<forall>b \<in> set (map (within F D) ns). b" "closed_frames F env"
  shows "agree (closed_value F) (evalErrorTest cells ev env name ns) (evalErrorTest cells' ev' env name ns)"
proof (cases "\<exists>n. ns = [n]")
  case True
  then obtain n where n: "ns = [n]" by blast
  have e: "agree (closed_value F) (ev env n) (ev' env n)" using assms n by (intro inner) simp_all
  have range: "map (\<lambda>a. VBool (errorAnswer name (cell_value cells a))) addresses = map (\<lambda>a. VBool (errorAnswer name (cell_value cells' a)) :: 'f val) addresses"
    if "n = rangeNode rows columns addresses" for rows columns addresses
    using that assms(1) n by (auto simp: local_value)
  show ?thesis
    unfolding evalErrorTest_def n
    using e range by (cases n) (auto simp: agree_def split: answer.splits go_failure.splits)
next
  case False
  then show ?thesis by (auto simp: evalErrorTest_def split: list.split)
qed

lemma local_lazy:
  assumes "\<forall>b \<in> set (map (within F D) ns). b" "closed_frames F env"
  shows "rel_option (agree (closed_value F)) (evaluateLazy E cells ev env name ns) (evaluateLazy E cells' ev' env name ns)"
proof -
  have ifna: "agree (closed_value F)
     (case ev env v of Fails (Typed e) \<Rightarrow> if ferCode e = ''#N/A'' then ev env fallback else Fails (Typed e) | r \<Rightarrow> r)
     (case ev' env v of Fails (Typed e) \<Rightarrow> if ferCode e = ''#N/A'' then ev' env fallback else Fails (Typed e) | r \<Rightarrow> r)"
    if "ns = [v, fallback]" for v fallback
    using inner [of v env] inner [of fallback env] assms that by (auto simp: agree_def split: answer.splits go_failure.splits)
  have first: "agree (closed_value F) (ev env (hd ns)) (ev' env (hd ns))" "\<forall>b \<in> set (map (within F D) (tl ns)). b" if "ns \<noteq> []"
    using assms that by (cases ns; auto intro: inner)+
  have switch: "agree (closed_value F) (if length ns < 3 then wrong_arguments name
        else chain (ev env (hd ns)) (\<lambda>subject. switchLoop E ev env subject (tl ns)))
      (if length ns < 3 then wrong_arguments name
        else chain (ev' env (hd ns)) (\<lambda>subject. switchLoop E ev' env subject (tl ns)))"
    by (intro agree_if agree_same agree_chain [OF first(1)] local_switch first(2) assms(2)) auto
  show ?thesis
    unfolding evaluateLazy_def
    by (intro rel_option_if option.rel_intros agree_if agree_same local_ifs local_errorTest assms switch)
      (auto intro!: ifna split: list.split)
qed

lemma local_tolerant:
  assumes "within F D n" "closed_frames F env"
  shows "agree (closed_value F) (errorTolerantValue cells ev env n) (errorTolerantValue cells' ev' env n)"
proof -
  have "agree (closed_value F) (case ev env n of Fails failure \<Rightarrow> Gives (VError (failure_error failure)) | r \<Rightarrow> r)
      (case ev' env n of Fails failure \<Rightarrow> Gives (VError (failure_error failure)) | r \<Rightarrow> r)"
    using inner [OF assms] by (auto simp: agree_def split: answer.splits)
  moreover have "map (cell_value cells) addresses = map (cell_value cells') addresses \<and> (\<forall>a \<in> set addresses. closed_value F (cell_value cells a))"
    if "n = rangeNode rows columns addresses" for rows columns addresses
    using that assms(1) sheet by (auto simp: local_value closed_cells_def)
  ultimately show ?thesis
    by (cases n) (auto simp: errorTolerantValue_def cong: map_cong)
qed

lemma local_broadcastAt:
  assumes "\<not> grouping name" "\<forall>v \<in> set vs. closed_value F v" "closed_frames F env"
  shows "agree (closed_value F) (broadcastAt ev env name vs i) (broadcastAt ev' env name vs i)"
proof -
  have call: "agree (closed_value F)
      (case ev env (functionNode name (map literalNode pieces)) of Fails (Typed e) \<Rightarrow> Gives (VError e) | r \<Rightarrow> r)
      (case ev' env (functionNode name (map literalNode pieces)) of Fails (Typed e) \<Rightarrow> Gives (VError e) | r \<Rightarrow> r)"
    if "\<forall>v \<in> set pieces. closed_value F v" for pieces
    using inner [of "functionNode name (map literalNode pieces)" env] assms(1,3) that
    by (auto simp: agree_def split: answer.splits go_failure.splits)
  have pieces: "agree (\<lambda>ws. (\<forall>w \<in> set ws. closed_value F w) \<and> length ws = length vs) (chain_map (piece i) vs) (chain_map (piece i) vs)"
    using assms(2) by (intro agree_chain_map agree_piece) simp
  have carried: "agree (\<lambda>_. True) m m" for m :: "formula_error option answer" by (simp add: agree_def)
  show ?thesis
    unfolding broadcastAt_def
    by (rule agree_chain [OF carried]) (auto split: option.split intro!: agree_chain [OF pieces] call)
qed

lemma local_broadcast:
  assumes "\<forall>v \<in> set vs. closed_value F v" "closed_frames F env"
  shows "rel_option (agree (closed_value F)) (broadcastElementwise ev env name vs) (broadcastElementwise ev' env name vs)"
proof -
  have whole: "agree (closed_value F)
      (chain (chain_map (broadcastAt ev env name vs) is) (\<lambda>ws. Gives (if length ws = 1 then hd ws else arrayValue rows columns ws)))
      (chain (chain_map (broadcastAt ev' env name vs) is) (\<lambda>ws. Gives (if length ws = 1 then hd ws else arrayValue rows columns ws)))"
    if "name \<in> set elementwiseFunctions" for rows columns "is"
    by (rule agree_chain [OF agree_chain_map [OF local_broadcastAt [OF elementwise_not_grouping [OF that] assms]]])
      (auto simp: length_Suc_conv)
  show ?thesis
    unfolding broadcastElementwise_def
    using whole by (auto split: list.split option.split val.split prod.split)
qed

lemma local_apply:
  assumes vs: "\<forall>v \<in> set vs. closed_value F v" and f: "closed_frames F env"
  shows "agree (closed_value F) (applyFunction E ev env name vs) (applyFunction E ev' env name vs)"
proof -
  have not: "agree (closed_value F) (evalNOT E vs) (evalNOT E vs)"
    by (auto simp: evalNOT_def split: list.split val.split)
  have flat: "\<forall>v \<in> set (concat (map (\<lambda>v. if omitted v then [omittedValue] else flatten v) vs)). closed_value F v"
    using vs by (auto simp: flatten_closed split: if_splits)
  show ?thesis
  proof (cases "evArrays E name vs")
    case (Some r)
    then show ?thesis
      using library [unfolded makes_no_functions_def, rule_format, of vs F name] vs
      by (auto simp: applyFunction_def intro!: agree_answer_of)
  next
    case None
    have "agree (closed_value F)
        (case broadcastElementwise ev env name vs of Some r \<Rightarrow> r
         | None \<Rightarrow> scalarFunction E name (concat (map (\<lambda>v. if omitted v then [omittedValue] else flatten v) vs)))
        (case broadcastElementwise ev' env name vs of Some r \<Rightarrow> r
         | None \<Rightarrow> scalarFunction E name (concat (map (\<lambda>v. if omitted v then [omittedValue] else flatten v) vs)))"
      using local_broadcast [OF vs f, of name] scalarFunction_closed [OF library flat, of name]
      by (auto elim!: option.rel_cases)
    with None not show ?thesis by (simp add: applyFunction_def)
  qed
qed

lemma local_function:
  assumes g: "\<not> grouping written" and c: "\<forall>b \<in> set (map (within F D) ns). b" "closed_frames F env"
  shows "agree (closed_value F) (evalFunction E cells ev env written ns) (evalFunction E cells' ev' env written ns)"
proof -
  let ?name = "canonicalFunctionName written"
  have arguments: "agree (\<lambda>vs. (\<forall>v \<in> set vs. closed_value F v) \<and> length vs = length ns)
      (chain_map (if toleratesErrors ?name then errorTolerantValue cells ev env else ev env) ns)
      (chain_map (if toleratesErrors ?name then errorTolerantValue cells' ev' env else ev' env) ns)"
    by (rule agree_chain_map) (use c local_tolerant inner in auto)
  have eager: "agree (closed_value F)
      (chain (chain_map (if toleratesErrors ?name then errorTolerantValue cells ev env else ev env) ns) (applyFunction E ev env ?name))
      (chain (chain_map (if toleratesErrors ?name then errorTolerantValue cells' ev' env else ev' env) ns) (applyFunction E ev' env ?name))"
    by (rule agree_chain [OF arguments]) (use local_apply c(2) in blast)
  have "agree (closed_value F)
     (case evaluateLazy E cells ev env ?name ns of Some r \<Rightarrow> r
      | None \<Rightarrow> chain (chain_map (if toleratesErrors ?name then errorTolerantValue cells ev env else ev env) ns) (applyFunction E ev env ?name))
     (case evaluateLazy E cells' ev' env ?name ns of Some r \<Rightarrow> r
      | None \<Rightarrow> chain (chain_map (if toleratesErrors ?name then errorTolerantValue cells' ev' env else ev' env) ns) (applyFunction E ev' env ?name))"
    using local_lazy [OF c, of ?name] eager by (auto elim!: option.rel_cases)
  then show ?thesis
    unfolding evalFunction_def Let_def
    by (intro agree_if agree_same local_lambdaHelper local_IF local_IFERROR local_logical c) (use g in \<open>simp_all add: grouping_def\<close>)
qed

lemma local_let:
  "(\<forall>b \<in> set (map (within F D) ns). b) \<Longrightarrow> closed_frames F env \<Longrightarrow> \<forall>v \<in> set vs. closed_value F v \<Longrightarrow>
   agree (\<lambda>ws. \<forall>w \<in> set ws. closed_value F w) (letValues ev env frame vs ns) (letValues ev' env frame vs ns)"
proof (induction ns arbitrary: vs)
  case (Cons n ns)
  then show ?case by (auto intro!: agree_chain [OF inner] closed_update)
qed simp

lemma local_node:
  assumes "within F D n" "closed_frames F env"
  shows "agree (closed_value F) (evalNode E cells ev env n) (evalNode E cells' ev' env n)"
proof (cases n)
  case (unaryNode operator operand)
  with assms show ?thesis by (auto simp: evalNode_def intro!: agree_chain [OF inner] unary_closed)
next
  case (binaryNode operator left right)
  with assms show ?thesis
    by (auto simp: evalNode_def intro!: agree_chain [OF inner] binary_closed [OF library])
next
  case (arrayLiteralNode rows columns ns)
  have item: "agree (closed_value F) (chain (ev env item) scalarValue) (chain (ev' env item) scalarValue)" if "item \<in> set ns" for item
    using assms arrayLiteralNode that by (intro agree_chain [OF inner] scalarValue_closed) auto
  show ?thesis
    unfolding evalNode_def arrayLiteralNode node.case
    by (rule agree_chain [OF agree_chain_map [OF item]]) auto
next
  case (letNode frame ns calculation)
  with assms show ?thesis by (auto simp: evalNode_def intro!: agree_chain [OF local_let] inner closed_update)
next
  case (lambdaCallNode target arguments)
  have call: "agree (closed_value F) (chain (chain_map (ev env) arguments) (callValue ev env f))
      (chain (chain_map (ev' env) arguments) (callValue ev' env f))" if "closed_value F f" for f
    using assms lambdaCallNode that by (intro agree_chain [OF local_all] local_call) auto
  show ?thesis
    unfolding evalNode_def lambdaCallNode node.case
    using assms lambdaCallNode call by (intro agree_chain [OF inner]) (auto split: val.split)
next
  case (bindingNode owner index)
  have "closed_value F (env owner ! index)" if "index < length (env owner)"
    using assms(2) nth_mem [OF that] unfolding closed_frames_def by blast
  then show ?thesis by (simp add: evalNode_def bindingNode)
qed (use assms local_read local_range local_function in \<open>auto simp: evalNode_def\<close>)

end

text \<open>The evaluation of a tree from the evaluation of the nodes inside, down to the end of the stack.\<close>

lemma eval_contract:
  assumes "makes_no_functions E" "F \<subseteq> D" "\<And>address. address \<in> D \<Longrightarrow> cells address = cells' address" "closed_cells F D cells"
  shows "local_evaluator E F D cells cells' (eval E cells depth) (eval E cells' depth)"
proof (induction depth)
  case 0
  show ?case by unfold_locales (use assms in auto)
next
  case (Suc depth)
  show ?case
    by unfold_locales (use assms local_evaluator.local_node [OF Suc] in auto)
qed

text \<open>
  The contract holds of \<open>eval\<close> on whatever sheets and library: outside its conditions, of a sheet without the
  values, and a library without the functions, that break them.
\<close>

definition quiet_library :: "'f evaluation_library \<Rightarrow> 'f evaluation_library" where
  "quiet_library E =
     (if makes_no_functions E then E
      else E\<lparr>evArrays := \<lambda>_ _. None, evScalars := \<lambda>_ _. None, evExtremeDate := \<lambda>_ _. None, evDateArithmetic := \<lambda>_ _ _. None\<rparr>)"

definition quiet_cells :: "string set \<Rightarrow> string set \<Rightarrow> 'f cells \<Rightarrow> 'f cells" where
  "quiet_cells F D cells = (\<lambda>address. if address \<in> D \<and> \<not> closed_value F (cell_value cells address) then None else cells address)"

lemma quiet_library_quiet: "makes_no_functions (quiet_library E)"
proof (cases "makes_no_functions E")
  case False
  then have q: "quiet_library E =
      E\<lparr>evArrays := \<lambda>_ _. None, evScalars := \<lambda>_ _. None, evExtremeDate := \<lambda>_ _. None, evDateArithmetic := \<lambda>_ _ _. None\<rparr>"
    by (simp add: quiet_library_def)
  show ?thesis unfolding q makes_no_functions_def by simp
qed (simp add: quiet_library_def)

lemma quiet_cells_closed: "closed_cells F D (quiet_cells F D cells)"
  by (simp add: closed_cells_def quiet_cells_def cell_value_def)

lemma quiet_cells_same: "closed_cells F D cells \<Longrightarrow> quiet_cells F D cells = cells"
  by (rule ext) (auto simp: closed_cells_def quiet_cells_def)

interpretation evaluation: local_evaluator "quiet_library E" "F \<inter> D" D "quiet_cells (F \<inter> D) D cells"
    "override_on cells' (quiet_cells (F \<inter> D) D cells) D" "eval (quiet_library E) (quiet_cells (F \<inter> D) D cells) depth"
    "eval (quiet_library E) (override_on cells' (quiet_cells (F \<inter> D) D cells) D) depth"
  by (rule eval_contract [OF quiet_library_quiet Int_lower2 _ quiet_cells_closed]) simp

lemma eval_local:
  assumes "makes_no_functions E" "F \<subseteq> D" "\<forall>address \<in> D. cells address = cells' address" "closed_cells F D cells"
    and "within F D n" "closed_frames F env"
  shows "agree (closed_value F) (eval E cells depth env n) (eval E cells' depth env n)"
proof -
  have "F \<inter> D = F" "quiet_library E = E" "quiet_cells F D cells = cells" "override_on cells' cells D = cells'"
    using assms(1-4) by (auto simp: quiet_library_def quiet_cells_same override_on_def)
  then show ?thesis using evaluation.inner [of F D n env E cells depth cells'] assms(5,6) by simp
qed

end
