(* ===== verification/GraphEval.thy ===== *)
theory GraphEval
  imports Graph
begin

text \<open>
  Why the evaluation of the dependency graph is right: it ends, every formula it has evaluated
  has the value its tree gives for the final values of the cells it depends on, what it calls
  circular lies on a cycle, and what has not been affected keeps its value.
\<close>

section \<open>The invariant of the search\<close>

definition edges :: "'n graph \<Rightarrow> string list \<Rightarrow> (string \<times> string) set" where
  "edges g affected = {(a, b). b \<in> set (deps_of g a) \<and> to_visit g affected b}"

text \<open>Evaluating a tree looks at nothing but the dependencies of its formula.\<close>

definition looks_at_dependencies :: "('n, 'v) formula_engine \<Rightarrow> 'n graph \<Rightarrow> bool" where
  "looks_at_dependencies en g =
     (\<forall>address root values values'. map_of (gNodes g) address = Some root \<longrightarrow>
        (\<forall>d \<in> set (deps_of g address). values d = values' d) \<longrightarrow> gpEval en root values = gpEval en root values')"

lemma formulaValue_local:
  assumes "looks_at_dependencies en g" "\<forall>d \<in> set (deps_of g a). values d = values' d"
  shows "formulaValue en normalized g a values = formulaValue en normalized g a values'"
proof -
  have "gpEval en root values = gpEval en root values'" if "map_of (gNodes g) a = Some root" for root
    using assms that unfolding looks_at_dependencies_def by blast
  then show ?thesis by (simp add: formulaValue_def split: option.splits)
qed

lemma formulaValue_visit: "to_visit g affected a \<Longrightarrow> formulaValue en normalized g a values \<noteq> None"
  by (auto simp: to_visit_def formulaValue_def split: option.splits)

definition settled :: "('n, 'v) formula_engine \<Rightarrow> (string \<times> 'v CellState) list \<Rightarrow> 'n graph \<Rightarrow> string list \<Rightarrow> 'v dfs \<Rightarrow> string \<Rightarrow> bool" where
  "settled en normalized g affected st a =
     ((\<forall>b. (a, b) \<in> edges g affected \<longrightarrow> dfMarks st b = Done) \<and>
      dfValues st a = formulaValue en normalized g a (dfValues st))"

definition dfs_inv :: "('n, 'v) formula_engine \<Rightarrow> (string \<times> 'v CellState) list \<Rightarrow> 'n graph \<Rightarrow> string list \<Rightarrow> 'v dfs \<Rightarrow> bool" where
  "dfs_inv en normalized g affected st =
     (distinct (dfStack st) \<and> (\<forall>a. a \<in> set (dfStack st) \<longleftrightarrow> dfMarks st a = Visiting) \<and>
      successively (\<lambda>a b. (a, b) \<in> edges g affected) (dfStack st) \<and>
      (\<forall>a. dfMarks st a \<noteq> Unvisited \<longrightarrow> to_visit g affected a) \<and>
      (\<forall>a \<in> set (dfCycles st). dfMarks st a \<noteq> Unvisited \<and> (a, a) \<in> (edges g affected)\<^sup>+ \<and> dfValues st a = Some (Failed circular)) \<and>
      (\<forall>a. dfMarks st a = Done \<longrightarrow> a \<in> set (dfCycles st) \<or> settled en normalized g affected st a) \<and>
      (\<forall>a. dfMarks st a = Unvisited \<longrightarrow> dfValues st a = dfValues (start_dfs en normalized) a))"

lemma dfs_invD:
  assumes "dfs_inv en normalized g affected st"
  shows "distinct (dfStack st)" "a \<in> set (dfStack st) \<longleftrightarrow> dfMarks st a = Visiting"
    "successively (\<lambda>a b. (a, b) \<in> edges g affected) (dfStack st)"
    "dfMarks st a \<noteq> Unvisited \<Longrightarrow> to_visit g affected a"
    "a \<in> set (dfCycles st) \<Longrightarrow> dfMarks st a \<noteq> Unvisited \<and> (a, a) \<in> (edges g affected)\<^sup>+ \<and> dfValues st a = Some (Failed circular)"
    "dfMarks st a = Done \<Longrightarrow> a \<notin> set (dfCycles st) \<Longrightarrow> settled en normalized g affected st a"
    "dfMarks st a = Unvisited \<Longrightarrow> dfValues st a = dfValues (start_dfs en normalized) a"
  using assms unfolding dfs_inv_def by blast+

text \<open>What a call leaves alone: the stack, and everything that was done before it.\<close>

definition grown :: "'v dfs \<Rightarrow> 'v dfs \<Rightarrow> bool" where
  "grown st st' =
     (dfStack st' = dfStack st \<and> (\<forall>a. dfMarks st' a = Visiting \<longleftrightarrow> dfMarks st a = Visiting) \<and>
      (\<forall>a. dfMarks st a = Done \<longrightarrow> dfMarks st' a = Done) \<and>
      set (dfCycles st) \<subseteq> set (dfCycles st'))"

lemma grown_refl: "grown st st"
  by (simp add: grown_def)

lemma grown_trans: "grown st st' \<Longrightarrow> grown st' st'' \<Longrightarrow> grown st st''"
  by (auto simp: grown_def)

lemma dfs_inv_start: "dfs_inv en normalized g affected (start_dfs en normalized)"
  by (simp add: dfs_inv_def start_dfs_def)

lemma settled_cong:
  assumes "looks_at_dependencies en g" "settled en normalized g affected st a"
    and "\<And>b. dfMarks st b = Done \<Longrightarrow> dfMarks st' b = Done"
    and "\<And>b. dfMarks st b = Done \<or> \<not> to_visit g affected b \<Longrightarrow> dfValues st' b = dfValues st b"
    and "dfMarks st a = Done"
  shows "settled en normalized g affected st' a"
proof -
  have "dfValues st' d = dfValues st d" if "d \<in> set (deps_of g a)" for d
  proof (cases "to_visit g affected d")
    case True
    with that assms(2) have "dfMarks st d = Done" by (simp add: settled_def edges_def)
    with assms(4) show ?thesis by simp
  qed (use assms(4) in simp)
  then have "formulaValue en normalized g a (dfValues st') = formulaValue en normalized g a (dfValues st)"
    using formulaValue_local [OF assms(1)] by metis
  with assms show ?thesis by (simp add: settled_def)
qed

section \<open>Marking a cycle\<close>

lemma markMembers:
  "dfMarks (fold (markMember g) ms st) = dfMarks st"
  "dfStack (fold (markMember g) ms st) = dfStack st"
  "set (dfCycles (fold (markMember g) ms st)) = set ms \<union> set (dfCycles st)"
  "dfValues (fold (markMember g) ms st) a = (if a \<in> set ms then Some (Failed circular) else dfValues st a)"
  by (induction ms arbitrary: st) (auto simp: markMember_def)

lemma stack_from_append: "a \<in> set xs \<Longrightarrow> \<exists>front rest. xs = front @ a # rest \<and> a \<notin> set front \<and> stack_from a xs = a # rest"
proof -
  assume a: "a \<in> set xs"
  have "dropWhile (\<lambda>c. c \<noteq> a) xs \<noteq> []" using a by (auto simp: dropWhile_eq_Nil_conv)
  moreover from this have "hd (dropWhile (\<lambda>c. c \<noteq> a) xs) = a" using hd_dropWhile [of "\<lambda>c. c \<noteq> a"] by blast
  ultimately obtain rest where r: "dropWhile (\<lambda>c. c \<noteq> a) xs = a # rest" by (cases "dropWhile (\<lambda>c. c \<noteq> a) xs") auto
  moreover have "xs = takeWhile (\<lambda>c. c \<noteq> a) xs @ a # rest" using r takeWhile_dropWhile_id [of "\<lambda>c. c \<noteq> a" xs] by simp
  moreover have "a \<notin> set (takeWhile (\<lambda>c. c \<noteq> a) xs)" using set_takeWhileD [of a "\<lambda>c. c \<noteq> a" xs] by auto
  ultimately show ?thesis using a unfolding stack_from_def by auto
qed

lemma path_closes:
  "successively (\<lambda>a b. (a, b) \<in> r) (a # rest) \<Longrightarrow> (last (a # rest), z) \<in> r \<Longrightarrow> c \<in> set (a # rest) \<Longrightarrow> (c, z) \<in> r\<^sup>+"
proof (induction rest arbitrary: a c)
  case (Cons b rest)
  then have "(c', z) \<in> r\<^sup>+" if "c' \<in> set (b # rest)" for c'
    using that by (auto simp: successively_Cons)
  moreover have "(a, b) \<in> r" using Cons.prems(1) by (simp add: successively_Cons)
  ultimately show ?case using Cons.prems(3) by (auto intro: trancl_into_trancl2)
qed auto

lemma path_reaches:
  "successively (\<lambda>a b. (a, b) \<in> r) (a # rest) \<Longrightarrow> c \<in> set (a # rest) \<Longrightarrow> (a, c) \<in> r\<^sup>*"
proof (induction rest arbitrary: a)
  case (Cons b rest)
  then show ?case by (auto simp: successively_Cons intro: converse_rtrancl_into_rtrancl)
qed simp

lemma markCycle_inv:
  assumes l: "looks_at_dependencies en g" and i: "dfs_inv en normalized g affected st"
    and v: "dfMarks st a = Visiting" and e: "(last (dfStack st), a) \<in> edges g affected"
  shows "dfs_inv en normalized g affected (markCycle g a st) \<and> grown st (markCycle g a st) \<and>
    last (dfStack st) \<in> set (dfCycles (markCycle g a st)) \<and> dfStack st \<noteq> []"
proof -
  have a: "a \<in> set (dfStack st)" using i v by (simp add: dfs_inv_def)
  from stack_from_append [OF a] obtain front rest
    where s: "dfStack st = front @ a # rest" "stack_from a (dfStack st) = a # rest" by blast
  let ?st = "markCycle g a st"
  note m = markMembers [where g = g and ms = "a # rest" and st = st, folded s(2), folded markCycle_def]
  have path: "successively (\<lambda>a b. (a, b) \<in> edges g affected) (a # rest)"
    using i s(1) by (auto simp: dfs_inv_def successively_append_iff)
  have visiting: "dfMarks st c = Visiting" if "c \<in> set (a # rest)" for c
    using i s(1) that by (auto simp: dfs_inv_def)
  have cyc: "(c, c) \<in> (edges g affected)\<^sup>+" if "c \<in> set (a # rest)" for c
  proof -
    have "(c, a) \<in> (edges g affected)\<^sup>+" using path_closes [OF path _ that] e s(1) by simp
    with path_reaches [OF path that] show ?thesis by simp
  qed
  have "dfs_inv en normalized g affected ?st"
    unfolding dfs_inv_def
  proof (intro conjI allI ballI impI)
    fix c assume c: "c \<in> set (dfCycles ?st)"
    show "dfMarks ?st c \<noteq> Unvisited" "(c, c) \<in> (edges g affected)\<^sup>+" "dfValues ?st c = Some (Failed circular)"
      using c i visiting cyc by (auto simp: m s(2) dfs_inv_def)
  next
    fix c assume c: "dfMarks ?st c = Done"
    have same: "dfValues ?st b = dfValues st b" if "dfMarks st b = Done \<or> \<not> to_visit g affected b" for b
    proof -
      have "b \<notin> set (a # rest)" using that visiting i by (auto simp: dfs_inv_def)
      then show ?thesis by (simp add: m s(2))
    qed
    show "c \<in> set (dfCycles ?st) \<or> settled en normalized g affected ?st c"
    proof (cases "c \<in> set (dfCycles st)")
      case False
      with c have "settled en normalized g affected st c" using dfs_invD(6) [OF i] by (simp add: m)
      then have "settled en normalized g affected ?st c"
        by (rule settled_cong [OF l]) (use c same m in auto)
      then show ?thesis ..
    qed (simp add: m)
  next
    fix c assume c: "dfMarks ?st c = Unvisited"
    then have "c \<notin> set (a # rest)" using visiting by (auto simp: m)
    with c i show "dfValues ?st c = dfValues (start_dfs en normalized) c" by (simp add: m s(2) dfs_inv_def)
  qed (use i in \<open>auto simp: dfs_inv_def m\<close>)
  moreover have "grown st ?st" by (simp add: grown_def m)
  moreover have "last (dfStack st) \<in> set (a # rest)" using s(1) by simp
  then have "last (dfStack st) \<in> set (dfCycles ?st)" by (simp only: m s(2) Un_iff simp_thms)
  ultimately show ?thesis using s(1) by simp
qed

section \<open>Entering and leaving a formula\<close>

lemma enter_inv:
  assumes l: "looks_at_dependencies en g" and i: "dfs_inv en normalized g affected st" and v: "dfMarks st a = Unvisited"
    and t: "to_visit g affected a" and e: "dfStack st = [] \<or> (last (dfStack st), a) \<in> edges g affected"
  shows "dfs_inv en normalized g affected (enter a st)"
  unfolding dfs_inv_def
proof (intro conjI allI ballI impI)
  have n: "a \<notin> set (dfStack st)" using dfs_invD(2) [OF i, of a] v by simp
  show "distinct (dfStack (enter a st))" using dfs_invD(1) [OF i] n by (simp add: enter_def)
  show "successively (\<lambda>a b. (a, b) \<in> edges g affected) (dfStack (enter a st))"
    using dfs_invD(3) [OF i] e by (auto simp: enter_def successively_append_iff)
  show "c \<in> set (dfStack (enter a st)) \<longleftrightarrow> dfMarks (enter a st) c = Visiting" for c
    using dfs_invD(2) [OF i, of c] by (auto simp: enter_def)
  show "to_visit g affected c" if "dfMarks (enter a st) c \<noteq> Unvisited" for c
    using dfs_invD(4) [OF i, of c] t that by (auto simp: enter_def split: if_splits)
  show "dfValues (enter a st) c = dfValues (start_dfs en normalized) c" if "dfMarks (enter a st) c = Unvisited" for c
    using dfs_invD(7) [OF i, of c] that by (auto simp: enter_def split: if_splits)
  show "c \<in> set (dfCycles (enter a st)) \<or> settled en normalized g affected (enter a st) c"
    if "dfMarks (enter a st) c = Done" for c
  proof (cases "c \<in> set (dfCycles st)")
    case False
    from that v have d: "dfMarks st c = Done" by (auto simp: enter_def split: if_splits)
    have "settled en normalized g affected (enter a st) c"
      by (rule settled_cong [OF l dfs_invD(6) [OF i d False]]) (use v d in \<open>auto simp: enter_def\<close>)
    then show ?thesis ..
  qed (simp add: enter_def)
  fix c assume "c \<in> set (dfCycles (enter a st))"
  then have "c \<in> set (dfCycles st)" by (simp add: enter_def)
  from dfs_invD(5) [OF i this] show "dfMarks (enter a st) c \<noteq> Unvisited" "(c, c) \<in> (edges g affected)\<^sup>+"
    "dfValues (enter a st) c = Some (Failed circular)" by (simp_all add: enter_def)
qed

lemma finish_fields:
  "dfMarks (finish en normalized g a st) = (dfMarks st)(a := Done)"
  "dfStack (finish en normalized g a st) = butlast (dfStack st)"
  "dfCycles (finish en normalized g a st) = dfCycles st"
  "b \<noteq> a \<Longrightarrow> dfValues (finish en normalized g a st) b = dfValues st b"
  "a \<in> set (dfCycles st) \<Longrightarrow> dfValues (finish en normalized g a st) a = dfValues st a"
  "a \<notin> set (dfCycles st) \<Longrightarrow> formulaValue en normalized g a (dfValues st) \<noteq> None \<Longrightarrow>
     dfValues (finish en normalized g a st) a = formulaValue en normalized g a (dfValues st)"
  by (auto simp: finish_def Let_def set_result_def split: option.splits)

lemma finish_inv:
  assumes l: "looks_at_dependencies en g" and i: "dfs_inv en normalized g affected st"
    and s: "dfStack st = stack @ [a]"
    and d: "\<forall>b. (a, b) \<in> edges g affected \<longrightarrow> dfMarks st b = Done \<or> a \<in> set (dfCycles st)"
  shows "dfs_inv en normalized g affected (finish en normalized g a st)"
  unfolding dfs_inv_def
proof (intro conjI allI ballI impI)
  let ?st = "finish en normalized g a st"
  have v: "dfMarks st a = Visiting" and n: "a \<notin> set stack"
    using dfs_invD(1) [OF i] dfs_invD(2) [OF i, of a] by (simp_all add: s)
  have t: "to_visit g affected a" using dfs_invD(4) [OF i, of a] v by simp
  show "distinct (dfStack ?st)" using dfs_invD(1) [OF i] by (simp add: finish_fields s)
  show "successively (\<lambda>a b. (a, b) \<in> edges g affected) (dfStack ?st)"
    using dfs_invD(3) [OF i] by (simp add: finish_fields s successively_append_iff)
  show "c \<in> set (dfStack ?st) \<longleftrightarrow> dfMarks ?st c = Visiting" for c
    using dfs_invD(2) [OF i, of c] n by (auto simp: finish_fields s)
  show "to_visit g affected c" if "dfMarks ?st c \<noteq> Unvisited" for c
    using dfs_invD(4) [OF i, of c] t that by (auto simp: finish_fields split: if_splits)
  show "dfValues ?st c = dfValues (start_dfs en normalized) c" if "dfMarks ?st c = Unvisited" for c
    using dfs_invD(7) [OF i, of c] that by (auto simp: finish_fields split: if_splits)
  have others: "settled en normalized g affected ?st c" if c: "settled en normalized g affected st c" "c \<noteq> a" for c
  proof -
    have "a \<notin> set (deps_of g c)"
      using c(1) v t by (auto simp: settled_def edges_def)
    then have "\<forall>b \<in> set (deps_of g c). dfValues ?st b = dfValues st b" by (metis finish_fields(4))
    then have "formulaValue en normalized g c (dfValues ?st) = formulaValue en normalized g c (dfValues st)"
      by (rule formulaValue_local [OF l])
    with c show ?thesis by (auto simp: settled_def finish_fields)
  qed
  show "c \<in> set (dfCycles ?st) \<or> settled en normalized g affected ?st c" if m: "dfMarks ?st c = Done" for c
  proof (cases "c \<in> set (dfCycles st)")
    case out: False
    show ?thesis
    proof (cases "c = a")
      case True
      with out d have e: "\<forall>b. (a, b) \<in> edges g affected \<longrightarrow> dfMarks st b = Done" by blast
      then have "a \<notin> set (deps_of g a)" using v t by (auto simp: edges_def)
      then have "\<forall>b \<in> set (deps_of g a). dfValues ?st b = dfValues st b" by (metis finish_fields(4))
      then have "formulaValue en normalized g a (dfValues ?st) = formulaValue en normalized g a (dfValues st)"
        by (rule formulaValue_local [OF l])
      moreover have "dfValues ?st a = formulaValue en normalized g a (dfValues st)"
        by (rule finish_fields(6) [OF _ formulaValue_visit [OF t]]) (use out True in simp)
      ultimately show ?thesis using e True by (simp add: settled_def finish_fields)
    next
      case False
      with m have "dfMarks st c = Done" by (simp add: finish_fields)
      with others [OF dfs_invD(6) [OF i _ out]] False show ?thesis by simp
    qed
  qed (simp add: finish_fields)
  fix c assume "c \<in> set (dfCycles ?st)"
  then have c: "c \<in> set (dfCycles st)" by (simp add: finish_fields)
  from dfs_invD(5) [OF i c] c show "dfMarks ?st c \<noteq> Unvisited" "(c, c) \<in> (edges g affected)\<^sup>+"
    "dfValues ?st c = Some (Failed circular)"
    by (cases "c = a"; simp add: finish_fields)+
qed

section \<open>The results\<close>

definition result_of :: "'n graph \<Rightarrow> 'v dfs \<Rightarrow> string \<Rightarrow> 'v RecalculatedCell" where
  "result_of g st a =
     \<lparr>rcAddress = a, rcValue = (case dfValues st a of Some (Plain v) \<Rightarrow> Some v | _ \<Rightarrow> None),
      rcDependencies = deps_of g a, rcError = (case dfValues st a of Some (Failed e) \<Rightarrow> Some e | _ \<Rightarrow> None),
      rcCircular = (a \<in> set (dfCycles st))\<rparr>"

definition results_ok :: "'n graph \<Rightarrow> 'v dfs \<Rightarrow> bool" where
  "results_ok g st =
     (\<forall>a. map_of (dfResults st) a =
        (if dfMarks st a = Done \<or> a \<in> set (dfCycles st) then Some (result_of g st a) else None))"

lemma results_ok_start: "results_ok g (start_dfs en normalized)"
  by (simp add: results_ok_def start_dfs_def)

lemma results_ok_enter: "dfMarks st a = Unvisited \<Longrightarrow> results_ok g st \<Longrightarrow> results_ok g (enter a st)"
  by (auto simp: results_ok_def enter_def result_of_def)

lemma markMembers_results:
  "map_of (dfResults (fold (markMember g) ms st)) a =
     (if a \<in> set ms then Some \<lparr>rcAddress = a, rcValue = None, rcDependencies = deps_of g a, rcError = Some circular,
        rcCircular = True\<rparr> else map_of (dfResults st) a)"
  by (induction ms arbitrary: st) (auto simp: markMember_def update_conv')

lemma results_ok_markCycle:
  assumes "dfs_inv en normalized g affected st" "results_ok g st"
  shows "results_ok g (markCycle g a st)"
  unfolding results_ok_def
proof
  fix c
  let ?ms = "stack_from a (dfStack st)"
  note m = markMembers [where g = g and ms = ?ms and st = st, folded markCycle_def]
    markMembers_results [where g = g and ms = ?ms and st = st, folded markCycle_def]
  show "map_of (dfResults (markCycle g a st)) c =
      (if dfMarks (markCycle g a st) c = Done \<or> c \<in> set (dfCycles (markCycle g a st))
       then Some (result_of g (markCycle g a st) c) else None)"
  proof (cases "c \<in> set ?ms")
    case False
    have "map_of (dfResults st) c = (if dfMarks st c = Done \<or> c \<in> set (dfCycles st) then Some (result_of g st c) else None)"
      using assms(2) by (simp add: results_ok_def)
    with False show ?thesis by (simp add: m result_of_def)
  qed (simp add: m result_of_def)
qed

lemma finish_results:
  "map_of (dfResults (finish en normalized g a st)) c =
     (if c = a \<and> a \<notin> set (dfCycles st) \<and> formulaValue en normalized g a (dfValues st) \<noteq> None
      then Some (result_of g (finish en normalized g a st) a) else map_of (dfResults st) c)"
  by (auto simp: finish_def Let_def set_result_def update_conv' result_of_def split: option.splits gvalue.splits)

lemma results_ok_finish:
  assumes "dfs_inv en normalized g affected st" "results_ok g st" "dfMarks st a = Visiting"
  shows "results_ok g (finish en normalized g a st)"
  unfolding results_ok_def
proof
  fix c
  let ?st = "finish en normalized g a st"
  have t: "to_visit g affected a" using dfs_invD(4) [OF assms(1), of a] assms(3) by simp
  have c: "map_of (dfResults st) c = (if dfMarks st c = Done \<or> c \<in> set (dfCycles st) then Some (result_of g st c) else None)"
    using assms(2) by (simp add: results_ok_def)
  have same: "result_of g ?st c = result_of g st c" if "c \<noteq> a \<or> a \<in> set (dfCycles st)"
  proof -
    have "dfValues ?st c = dfValues st c" using that finish_fields(4,5) by (cases "c = a") auto
    then show ?thesis by (simp add: result_of_def finish_fields)
  qed
  show "map_of (dfResults ?st) c = (if dfMarks ?st c = Done \<or> c \<in> set (dfCycles ?st) then Some (result_of g ?st c) else None)"
  proof (cases "c = a \<and> a \<notin> set (dfCycles st)")
    case True
    moreover obtain v where "formulaValue en normalized g a (dfValues st) = Some v" using formulaValue_visit [OF t] by blast
    ultimately show ?thesis by (simp add: finish_results finish_fields)
  next
    case False
    then have "map_of (dfResults ?st) c = map_of (dfResults st) c" by (auto simp: finish_results)
    with c same False show ?thesis by (auto simp: finish_fields)
  qed
qed

section \<open>The search\<close>

definition called_from :: "'n graph \<Rightarrow> string list \<Rightarrow> 'v dfs \<Rightarrow> string \<Rightarrow> bool" where
  "called_from g affected st a =
     (to_visit g affected a \<and> (dfStack st = [] \<or> (last (dfStack st), a) \<in> edges g affected))"

definition handled :: "'v dfs \<Rightarrow> string \<Rightarrow> bool" where
  "handled st a = (dfMarks st a = Done \<or> dfStack st \<noteq> [] \<and> last (dfStack st) \<in> set (dfCycles st))"

lemma handled_grown: "grown st st' \<Longrightarrow> handled st a \<Longrightarrow> handled st' a"
  by (auto simp: handled_def grown_def)

lemma edges_deps: "set (filter (to_visit g affected) (deps_of g a)) = {b. (a, b) \<in> edges g affected}"
  by (auto simp: edges_def)

lemma search_ok:
  assumes "looks_at_dependencies en g"
  shows "calculate en normalized g affected fuel a st = Some st' \<Longrightarrow> dfs_inv en normalized g affected st \<Longrightarrow>
      results_ok g st \<Longrightarrow> called_from g affected st a \<Longrightarrow>
      dfs_inv en normalized g affected st' \<and> results_ok g st' \<and> grown st st' \<and> handled st' a"
    and "calculateAll en normalized g affected fuel as st = Some st' \<Longrightarrow> dfs_inv en normalized g affected st \<Longrightarrow>
      results_ok g st \<Longrightarrow> \<forall>a \<in> set as. called_from g affected st a \<Longrightarrow>
      dfs_inv en normalized g affected st' \<and> results_ok g st' \<and> grown st st' \<and> (\<forall>a \<in> set as. handled st' a)"
  using assms
proof (induction en normalized g affected fuel a st and en normalized g affected fuel as st
    arbitrary: st' and st' rule: calculate_calculateAll.induct)
  case (2 en normalized g affected fuel a st)
  note i = "2.prems"(2) and r = "2.prems"(3) and l = "2.prems"(5)
  show ?case
  proof (cases "dfMarks st a")
    case Done
    with "2.prems" show ?thesis by (simp add: grown_refl handled_def)
  next
    case Visiting
    then have st': "st' = markCycle g a st" using "2.prems"(1) by simp
    have "dfStack st \<noteq> []" using dfs_invD(2) [OF i, of a] Visiting by auto
    then have e: "(last (dfStack st), a) \<in> edges g affected" using "2.prems"(4) by (simp add: called_from_def)
    have "dfStack st' = dfStack st" by (simp add: st' markCycle_def markMembers)
    with markCycle_inv [OF l i Visiting e] results_ok_markCycle [OF i r] show ?thesis
      by (simp add: st' handled_def)
  next
    case Unvisited
    let ?as = "filter (to_visit g affected) (deps_of g a)"
    obtain st2 where c: "calculateAll en normalized g affected fuel ?as (enter a st) = Some st2"
      and st': "st' = finish en normalized g a st2"
      using "2.prems"(1) Unvisited by auto
    have t: "to_visit g affected a" using "2.prems"(4) by (simp add: called_from_def)
    have ei: "dfs_inv en normalized g affected (enter a st)"
      using enter_inv [OF l i Unvisited t] "2.prems"(4) by (simp add: called_from_def)
    have "\<forall>b \<in> set ?as. called_from g affected (enter a st) b"
      by (auto simp: called_from_def enter_def edges_def)
    from "2.IH" [OF Unvisited c ei results_ok_enter [OF Unvisited r] this l]
    have i2: "dfs_inv en normalized g affected st2" and r2: "results_ok g st2" and g2: "grown (enter a st) st2"
      and h2: "\<forall>b \<in> set ?as. handled st2 b" by blast+
    have s2: "dfStack st2 = dfStack st @ [a]" and v2: "dfMarks st2 a = Visiting"
      using g2 by (simp_all add: grown_def enter_def)
    have d: "\<forall>b. (a, b) \<in> edges g affected \<longrightarrow> dfMarks st2 b = Done \<or> a \<in> set (dfCycles st2)"
      using h2 unfolding edges_deps handled_def s2 by auto
    have "grown st st'"
      using g2 Unvisited by (auto simp: grown_def st' finish_fields enter_def s2)
    moreover have "handled st' a" by (simp add: handled_def st' finish_fields)
    ultimately show ?thesis
      using finish_inv [OF l i2 s2 d] results_ok_finish [OF i2 r2 v2] by (simp add: st')
  qed
next
  case (4 en normalized g affected fuel a as st)
  obtain st1 where c: "calculate en normalized g affected fuel a st = Some st1"
    and c2: "calculateAll en normalized g affected fuel as st1 = Some st'"
    using "4.prems"(1) by (auto split: option.splits)
  have "called_from g affected st a" using "4.prems"(4) by simp
  from "4.IH"(1) [OF c "4.prems"(2,3) this "4.prems"(5)]
  have one: "dfs_inv en normalized g affected st1" "results_ok g st1" "grown st st1" "handled st1 a" by blast+
  have "\<forall>a \<in> set as. called_from g affected st1 a"
    using "4.prems"(4) one(3) by (simp add: called_from_def grown_def)
  from "4.IH"(2) [OF c c2 one(1,2) this "4.prems"(5)] one show ?case
    using grown_trans [OF one(3)] handled_grown by auto
qed (auto simp: grown_refl)

definition unvisited :: "string list \<Rightarrow> 'v dfs \<Rightarrow> string set" where
  "unvisited affected st = {a \<in> set affected. dfMarks st a = Unvisited}"

lemma unvisited_grown: "grown st st' \<Longrightarrow> unvisited affected st' \<subseteq> unvisited affected st"
  by (auto simp: unvisited_def grown_def) (metis mark.exhaust)

lemma unvisited_enter:
  assumes "dfMarks st a = Unvisited" "a \<in> set affected"
  shows "card (unvisited affected (enter a st)) < card (unvisited affected st)"
proof (intro psubset_card_mono)
  show "finite (unvisited affected st)" by (simp add: unvisited_def)
  show "unvisited affected (enter a st) \<subset> unvisited affected st"
    using assms by (auto simp: unvisited_def enter_def)
qed

lemma search_grown:
  "calculate en normalized g affected fuel a st = Some st' \<Longrightarrow> grown st st'"
  "calculateAll en normalized g affected fuel as st = Some st' \<Longrightarrow> grown st st'"
proof (induction en normalized g affected fuel a st and en normalized g affected fuel as st
    arbitrary: st' and st' rule: calculate_calculateAll.induct)
  case (2 en normalized g affected fuel a st)
  show ?case
  proof (cases "dfMarks st a")
    case Visiting
    then show ?thesis using "2.prems" by (auto simp: grown_def markCycle_def markMembers)
  next
    case Unvisited
    obtain st2 where c: "calculateAll en normalized g affected fuel (filter (to_visit g affected) (deps_of g a)) (enter a st) = Some st2"
      and st': "st' = finish en normalized g a st2"
      using "2.prems" Unvisited by auto
    from "2.IH" [OF Unvisited c] Unvisited show ?thesis
      by (auto simp: grown_def st' finish_fields enter_def)
  qed (use "2.prems" in \<open>simp add: grown_refl\<close>)
next
  case (4 en normalized g affected fuel a as st)
  obtain st1 where "calculate en normalized g affected fuel a st = Some st1"
    "calculateAll en normalized g affected fuel as st1 = Some st'"
    using "4.prems" by (cases "calculate en normalized g affected fuel a st") simp_all
  with "4.IH"(1) [of st1] "4.IH"(2) [of st1 st'] show ?case using grown_trans [of st st1 st'] by simp
qed (auto simp: grown_refl)

lemma search_ends:
  "a \<in> set affected \<Longrightarrow> card (unvisited affected st) < fuel \<Longrightarrow> calculate en normalized g affected fuel a st \<noteq> None"
  "set as \<subseteq> set affected \<Longrightarrow> card (unvisited affected st) < fuel \<Longrightarrow> calculateAll en normalized g affected fuel as st \<noteq> None"
proof (induction en normalized g affected fuel a st and en normalized g affected fuel as st
    rule: calculate_calculateAll.induct)
  case (2 en normalized g affected fuel a st)
  show ?case
  proof (cases "dfMarks st a")
    case Unvisited
    have "set (filter (to_visit g affected) (deps_of g a)) \<subseteq> set affected" by (auto simp: to_visit_def)
    moreover have "card (unvisited affected (enter a st)) < fuel"
      using unvisited_enter [OF Unvisited "2.prems"(1)] "2.prems"(2) by simp
    ultimately show ?thesis using "2.IH" [OF Unvisited] Unvisited by simp
  qed simp_all
next
  case (4 en normalized g affected fuel a as st)
  have a: "a \<in> set affected" and as: "set as \<subseteq> set affected" using "4.prems"(1) by auto
  from "4.IH"(1) [OF a "4.prems"(2)] obtain st1
    where c: "calculate en normalized g affected fuel a st = Some st1" by blast
  have "card (unvisited affected st1) \<le> card (unvisited affected st)"
    by (rule card_mono) (use unvisited_grown [OF search_grown(1) [OF c]] in \<open>simp_all add: unvisited_def\<close>)
  with "4.prems"(2) have "card (unvisited affected st1) < fuel" by simp
  from "4.IH"(2) [OF c as this] c show ?case by simp
qed simp_all

lemma card_unvisited: "card (unvisited affected st) \<le> length affected"
proof -
  have "card (unvisited affected st) \<le> card (set affected)" by (rule card_mono) (auto simp: unvisited_def)
  also have "\<dots> \<le> length affected" by (rule card_length)
  finally show ?thesis .
qed

text \<open>The whole search: it ends, with every formula done.\<close>

lemma search_returns:
  "\<exists>st. calculateAll en normalized g affected (Suc (Suc (length affected))) (sort affected) (start_dfs en normalized) = Some st"
proof -
  have "card (unvisited affected (start_dfs en normalized)) < Suc (Suc (length affected))"
    using card_unvisited [of affected "start_dfs en normalized"] by simp
  from search_ends(2) [OF _ this, of "sort affected"] show ?thesis by auto
qed

lemma evaluation:
  assumes "looks_at_dependencies en g" "\<forall>a \<in> set affected. to_visit g affected a"
  obtains st where
    "calculateAll en normalized g affected (Suc (Suc (length affected))) (sort affected) (start_dfs en normalized) = Some st"
    "dfs_inv en normalized g affected st" "results_ok g st" "\<forall>a \<in> set affected. dfMarks st a = Done"
proof -
  let ?start = "start_dfs en normalized"
  have s: "\<forall>a \<in> set (sort affected). called_from g affected ?start a"
    using assms(2) by (simp add: called_from_def start_dfs_def)
  obtain st where c: "calculateAll en normalized g affected (Suc (Suc (length affected))) (sort affected) ?start = Some st"
    using search_returns by blast
  note ok = search_ok(2) [OF assms(1) c dfs_inv_start results_ok_start s]
  have "dfStack st = []" using ok by (simp add: grown_def start_dfs_def)
  then have "\<forall>a \<in> set affected. dfMarks st a = Done" using ok by (simp add: handled_def)
  with that [OF c] ok show thesis by blast
qed

section \<open>What is affected\<close>

lemma reachLoop_sound:
  "set (reachLoop g queue queued affected) \<subseteq>
     set affected \<union> {a. \<exists>q \<in> set queue. (q, a) \<in> {(x, y). y \<in> set (dependents g x)}\<^sup>+}"
proof (induction g queue queued affected rule: reachLoop.induct)
  case (2 g current queue queued affected)
  let ?R = "{(x, y). y \<in> set (dependents g x)}"
  show ?case
  proof
    fix a assume "a \<in> set (reachLoop g (current # queue) queued affected)"
    with "2.IH" [OF refl] consider "a \<in> set affected" | "a \<in> set (dependents g current)"
      | q where "q \<in> set queue" "(q, a) \<in> ?R\<^sup>+" | q where "q \<in> set (dependents g current)" "(q, a) \<in> ?R\<^sup>+"
      by (auto simp: Let_def)
    then show "a \<in> set affected \<union> {a. \<exists>q \<in> set (current # queue). (q, a) \<in> ?R\<^sup>+}"
    proof cases
      case (4 q)
      then have "(current, a) \<in> ?R\<^sup>+" by (auto intro: trancl_into_trancl2)
      then show ?thesis by auto
    qed auto
  qed
qed simp

lemma reachLoop_complete:
  assumes "\<forall>x \<in> set queued - set queue. set (dependents g x) \<subseteq> set queued \<inter> set affected"
    and "set queue \<subseteq> set queued" "set affected \<subseteq> set queued"
  shows "set affected \<subseteq> set (reachLoop g queue queued affected) \<and>
    (\<forall>x \<in> set queued \<union> set (reachLoop g queue queued affected).
       set (dependents g x) \<subseteq> set (reachLoop g queue queued affected))"
  using assms
proof (induction g queue queued affected rule: reachLoop.induct)
  case (1 g queued affected)
  then show ?case by auto
next
  case (2 g current queue queued affected)
  let ?fresh = "filter (\<lambda>d. d \<notin> set queued) (dependents g current)"
  let ?aff = "List.union (dependents g current) affected"
  have a: "\<forall>x \<in> set (?fresh @ queued) - set (queue @ ?fresh). set (dependents g x) \<subseteq> set (?fresh @ queued) \<inter> set ?aff"
  proof
    fix x assume x: "x \<in> set (?fresh @ queued) - set (queue @ ?fresh)"
    show "set (dependents g x) \<subseteq> set (?fresh @ queued) \<inter> set ?aff"
    proof (cases "x = current")
      case False
      with x have "x \<in> set queued - set (current # queue)" by auto
      with "2.prems"(1) show ?thesis by auto
    qed auto
  qed
  have b: "set (queue @ ?fresh) \<subseteq> set (?fresh @ queued)" "set ?aff \<subseteq> set (?fresh @ queued)"
    using "2.prems"(2,3) by auto
  from "2.IH" [OF refl a b] show ?case by (auto simp: Let_def)
qed

text \<open>A formula is affected when a changed cell leads to it along the edges.\<close>

definition leads_to :: "'n graph \<Rightarrow> (string \<times> string) set" where
  "leads_to g = {(x, y). y \<in> set (dependents g x)}"

lemma leads_to_iff: "(x, y) \<in> leads_to g \<longleftrightarrow> (\<exists>deps. (y, deps) \<in> set (gDependencies g) \<and> x \<in> set deps)"
  by (force simp: leads_to_def dependents_def)

lemma leads_to_formula: "(x, y) \<in> leads_to g \<Longrightarrow> is_formula g y"
  by (auto simp: leads_to_iff is_formula_def dest: weak_map_of_SomeI)

lemma seedLoop_spec:
  "seedLoop g changed s = Inr s' \<Longrightarrow>
   set (rsQueued s') = set (rsQueued s) \<union> normalizeAddress ` set changed \<and>
   set (rsAffected s') = set (rsAffected s) \<union> {a \<in> normalizeAddress ` set changed. is_formula g a} \<and>
   (set (rsQueue s) = set (rsQueued s) \<longrightarrow> set (rsQueue s') = set (rsQueued s'))"
proof (induction g changed s rule: seedLoop.induct)
  case (2 g address changed s)
  let ?a = "normalizeAddress address"
  have v: "validKey ?a" and n: "seedLoop g changed (s\<lparr>rsQueue := (if ?a \<in> set (rsQueued s) then rsQueue s else rsQueue s @ [?a]),
       rsQueued := List.insert ?a (rsQueued s),
       rsAffected := (if is_formula g ?a then List.insert ?a (rsAffected s) else rsAffected s)\<rparr>) = Inr s'"
    using "2.prems" by (auto simp: Let_def split: if_splits)
  let ?s = "s\<lparr>rsQueue := (if ?a \<in> set (rsQueued s) then rsQueue s else rsQueue s @ [?a]),
       rsQueued := List.insert ?a (rsQueued s),
       rsAffected := (if is_formula g ?a then List.insert ?a (rsAffected s) else rsAffected s)\<rparr>"
  have one: "set (rsQueued ?s) = insert ?a (set (rsQueued s))"
    "set (rsAffected ?s) = set (rsAffected s) \<union> {a \<in> {?a}. is_formula g a}"
    "set (rsQueue s) = set (rsQueued s) \<longrightarrow> set (rsQueue ?s) = set (rsQueued ?s)"
    by auto
  have ih: "set (rsQueued s') = set (rsQueued ?s) \<union> normalizeAddress ` set changed"
    "set (rsAffected s') = set (rsAffected ?s) \<union> {a \<in> normalizeAddress ` set changed. is_formula g a}"
    "set (rsQueue ?s) = set (rsQueued ?s) \<longrightarrow> set (rsQueue s') = set (rsQueued s')"
    using "2.IH" [OF refl _ n] v by blast+
  have "set (rsAffected s') = set (rsAffected s) \<union> {a \<in> normalizeAddress ` set (address # changed). is_formula g a}"
    unfolding ih(2) one(2) by auto
  moreover have "set (rsQueued s') = set (rsQueued s) \<union> normalizeAddress ` set (address # changed)"
    unfolding ih(1) one(1) by simp
  ultimately show ?case using ih(3) one(3) by blast
qed simp

lemma affected_exact:
  assumes "seedLoop g changed \<lparr>rsQueue = [], rsQueued = [], rsAffected = []\<rparr> = Inr seed"
  shows "set (reachLoop g (rsQueue seed) (rsQueued seed) (rsAffected seed)) =
    {a. is_formula g a \<and> (\<exists>c \<in> normalizeAddress ` set changed. (c, a) \<in> (leads_to g)\<^sup>*)}"
proof -
  let ?A = "reachLoop g (rsQueue seed) (rsQueued seed) (rsAffected seed)" and ?C = "normalizeAddress ` set changed"
  have s: "set (rsQueued seed) = ?C" "set (rsAffected seed) = {a \<in> ?C. is_formula g a}" "set (rsQueue seed) = ?C"
    using seedLoop_spec [OF assms] by auto
  have complete: "set (rsAffected seed) \<subseteq> set ?A" "\<forall>x \<in> ?C \<union> set ?A. set (dependents g x) \<subseteq> set ?A"
    using reachLoop_complete [of "rsQueued seed" "rsQueue seed" g "rsAffected seed"] s by auto
  have sound: "set ?A \<subseteq> {a \<in> ?C. is_formula g a} \<union> {a. \<exists>q \<in> ?C. (q, a) \<in> (leads_to g)\<^sup>+}"
    using reachLoop_sound [of g "rsQueue seed" "rsQueued seed" "rsAffected seed"] s unfolding leads_to_def by auto
  have reach: "a \<in> set ?A" if "(c, a) \<in> (leads_to g)\<^sup>+" "c \<in> ?C" for c a
    using that
  proof (induction rule: trancl_induct)
    case (base y)
    with complete(2) show ?case by (auto simp: leads_to_def)
  next
    case (step y z)
    with complete(2) show ?case by (auto simp: leads_to_def)
  qed
  have formula: "is_formula g a" if "(c, a) \<in> (leads_to g)\<^sup>+" for c a
    using that by (cases rule: trancl.cases) (auto dest: leads_to_formula)
  show ?thesis
  proof (intro set_eqI iffI)
    fix a assume "a \<in> set ?A"
    with sound have "a \<in> ?C \<and> is_formula g a \<or> (\<exists>q \<in> ?C. (q, a) \<in> (leads_to g)\<^sup>+)" by blast
    then show "a \<in> {a. is_formula g a \<and> (\<exists>c \<in> ?C. (c, a) \<in> (leads_to g)\<^sup>*)}"
      using formula trancl_into_rtrancl by (metis (mono_tags, lifting) mem_Collect_eq rtrancl.rtrancl_refl)
  next
    fix a assume "a \<in> {a. is_formula g a \<and> (\<exists>c \<in> ?C. (c, a) \<in> (leads_to g)\<^sup>*)}"
    then obtain c where c: "is_formula g a" "c \<in> ?C" "(c, a) \<in> (leads_to g)\<^sup>*" by blast
    show "a \<in> set ?A"
    proof (cases "c = a")
      case True
      with c complete(1) s(2) show ?thesis by blast
    next
      case False
      with c(3) have "(c, a) \<in> (leads_to g)\<^sup>+" by (metis rtranclD)
      with reach c(2) show ?thesis by blast
    qed
  qed
qed

end
