(* ===== verification/GraphResults.thy ===== *)
theory GraphResults
  imports GraphEval
begin

text \<open>
  What a recalculation gives: building the graph reads every formula once, the formulas
  evaluated are those a changed cell leads to, and the results are the values their trees give
  for the values after the recalculation. The properties of the graph stand here.
\<close>

section \<open>What building the graph leaves\<close>

text \<open>
  The three tables of the graph at an address, as what reading its formula gives them.
\<close>

definition graph_entry ::
  "('n, 'v) formula_engine \<Rightarrow> (string \<times> SheetExtent) list \<Rightarrow> string \<Rightarrow> 'v CellState \<Rightarrow>
   'n option \<times> formula_error option \<times> string list option" where
  "graph_entry en extent address cell =
     (if trim_space (gsFormula cell) = [] then (None, None, None)
      else case gpParse en extent (gsFormula cell) (fst (SplitCellKey address)) address of
          LexError message \<Rightarrow> (None, Some (formulaError ''#ERROR!'' message), None)
        | ParseError dependencies failure \<Rightarrow> (None, Some (failure_error failure), Some (sort (remdups dependencies)))
        | Parsed dependencies root \<Rightarrow> (Some root, None, Some (sort (remdups dependencies))))"

definition entry_of :: "'n graph \<Rightarrow> string \<Rightarrow> 'n option \<times> formula_error option \<times> string list option" where
  "entry_of g a = (map_of (gNodes g) a, map_of (gParseErrors g) a, map_of (gDependencies g) a)"

lemma entry_of_empty: "entry_of empty_graph a = (None, None, None)"
  by (simp add: entry_of_def empty_graph_def)

lemma buildLoop_entry:
  "buildLoop en extent cells g = Inr g' \<Longrightarrow> distinct (map fst cells) \<Longrightarrow>
   \<forall>a \<in> fst ` set cells. entry_of g a = (None, None, None) \<Longrightarrow>
   entry_of g' a = (case map_of cells a of None \<Rightarrow> entry_of g a | Some cell \<Rightarrow> graph_entry en extent a cell)"
proof (induction en extent cells g rule: buildLoop.induct)
  case (2 en extent address cell cells g)
  have d: "distinct (map fst cells)" "address \<notin> fst ` set cells" using "2.prems"(2) by auto
  have none: "map_of (gNodes g) address = None" "map_of (gParseErrors g) address = None" "map_of (gDependencies g) address = None"
    using "2.prems"(3) by (auto simp: entry_of_def)
  have step: "entry_of g' a = (case map_of ((address, cell) # cells) a of None \<Rightarrow> entry_of g a | Some cell \<Rightarrow> graph_entry en extent a cell)"
    if ih: "\<forall>a \<in> fst ` set cells. entry_of g1 a = (None, None, None) \<Longrightarrow>
        entry_of g' a = (case map_of cells a of None \<Rightarrow> entry_of g1 a | Some cell \<Rightarrow> graph_entry en extent a cell)"
      and one: "entry_of g1 address = graph_entry en extent address cell" "\<And>b. b \<noteq> address \<Longrightarrow> entry_of g1 b = entry_of g b" for g1
  proof -
    have "\<forall>a \<in> fst ` set cells. entry_of g1 a = (None, None, None)"
    proof
      fix b assume b: "b \<in> fst ` set cells"
      with d have "b \<noteq> address" by auto
      with one(2) [of b] "2.prems"(3) b show "entry_of g1 b = (None, None, None)" by auto
    qed
    then show ?thesis
    proof (cases "a = address")
      case True
      moreover have "map_of cells address = None" using d(2) by (simp add: map_of_eq_None_iff)
      moreover note ih [OF \<open>\<forall>a \<in> fst ` set cells. entry_of g1 a = (None, None, None)\<close>]
      ultimately show ?thesis using one(1) by simp
    next
      case False
      with ih [OF \<open>\<forall>a \<in> fst ` set cells. entry_of g1 a = (None, None, None)\<close>] one(2) [OF False] show ?thesis
        by (simp split: option.splits)
    qed
  qed
  show ?case
  proof (cases "trim_space (gsFormula cell) = []")
    case True
    show ?thesis
      by (rule step [of g]) (use "2.IH"(1) "2.prems" d True none in \<open>auto simp: graph_entry_def entry_of_def\<close>)
  next
    case formula: False
    from "2.prems"(1) formula have small: "\<not> length (gNodes g) + length (gParseErrors g) \<ge> MaxGraphFormulas"
      by (auto split: if_splits)
    show ?thesis
    proof (cases "gpParse en extent (gsFormula cell) (fst (SplitCellKey address)) address")
      case (LexError message)
      show ?thesis
        by (rule step [OF "2.IH"(2) [OF formula small LexError _ d(1)]])
          (use "2.prems"(1) formula small LexError none in \<open>auto simp: graph_entry_def entry_of_def update_conv'\<close>)
    next
      case (ParseError dependencies failure)
      from "2.prems"(1) formula small ParseError have few: "\<not> gEdges g + length (sort (remdups dependencies)) > MaxGraphEdges"
        by (auto simp: Let_def split: if_splits)
      show ?thesis
        by (rule step [OF "2.IH"(3) [OF formula small ParseError refl few _ d(1)]])
          (use "2.prems"(1) formula small ParseError few none in \<open>auto simp: graph_entry_def entry_of_def update_conv' Let_def\<close>)
    next
      case (Parsed dependencies root)
      from "2.prems"(1) formula small Parsed have few: "\<not> gEdges g + length (sort (remdups dependencies)) > MaxGraphEdges"
        by (auto simp: Let_def split: if_splits)
      show ?thesis
        by (rule step [OF "2.IH"(4) [OF formula small Parsed refl few _ d(1)]])
          (use "2.prems"(1) formula small Parsed few none in \<open>auto simp: graph_entry_def entry_of_def update_conv' Let_def\<close>)
    qed
  qed
qed simp

lemma normalizeLoop_keys:
  "normalizeLoop cells normalized = Inr n \<Longrightarrow> distinct (map fst normalized) \<Longrightarrow> distinct (map fst n)"
  by (induction cells normalized rule: normalizeLoop.induct) (auto simp: distinct_update split: if_splits)

text \<open>
  Evaluating a formula looks at its dependencies only. \<^verbatim>\<open>OFFSET\<close> and \<^verbatim>\<open>INDIRECT\<close> of computed
  places do not: the workbook recalculates such formulas on every change.
\<close>

definition own_dependencies :: "('n, 'v) formula_engine \<Rightarrow> string list \<Rightarrow> 'n \<Rightarrow> bool" where
  "own_dependencies en dependencies root =
     (\<forall>w w'. (\<forall>d \<in> set dependencies. w d = w' d) \<longrightarrow> gpEval en root w = gpEval en root w')"

definition plain_formulas ::
  "('n, 'v) formula_engine \<Rightarrow> (string \<times> SheetExtent) list \<Rightarrow> (string \<times> 'v CellState) list \<Rightarrow> bool" where
  "plain_formulas en extent normalized =
     (\<forall>(a, cell) \<in> set normalized.
        case gpParse en extent (gsFormula cell) (fst (SplitCellKey a)) a of
          Parsed dependencies root \<Rightarrow> own_dependencies en dependencies root | _ \<Rightarrow> True)"

lemma graph_entries:
  assumes "buildLoop en extent normalized empty_graph = Inr g" "distinct (map fst normalized)"
  shows "entry_of g a = (case map_of normalized a of None \<Rightarrow> (None, None, None) | Some cell \<Rightarrow> graph_entry en extent a cell)"
  using buildLoop_entry [OF assms, of a] by (simp add: entry_of_empty split: option.splits)

lemma graph_nodes:
  assumes "buildLoop en extent normalized empty_graph = Inr g" "distinct (map fst normalized)" "map_of (gNodes g) a = Some root"
  obtains cell dependencies where "map_of normalized a = Some cell"
    "gpParse en extent (gsFormula cell) (fst (SplitCellKey a)) a = Parsed dependencies root"
    "map_of (gDependencies g) a = Some (sort (remdups dependencies))"
  using graph_entries [OF assms(1,2), of a] assms(3)
  by (auto simp: entry_of_def graph_entry_def split: option.splits if_splits parsed.splits)

lemma graph_ok:
  assumes "buildLoop en extent normalized empty_graph = Inr g" "distinct (map fst normalized)"
  shows "plain_formulas en extent normalized \<Longrightarrow> looks_at_dependencies en g"
    and "is_formula g a \<longleftrightarrow> map_of (gNodes g) a \<noteq> None \<or> map_of (gParseErrors g) a \<noteq> None"
proof -
  show "is_formula g a \<longleftrightarrow> map_of (gNodes g) a \<noteq> None \<or> map_of (gParseErrors g) a \<noteq> None"
    using graph_entries [OF assms, of a]
    by (auto simp: is_formula_def entry_of_def graph_entry_def split: option.splits if_splits parsed.splits)
  assume own: "plain_formulas en extent normalized"
  have "gpEval en root w = gpEval en root w'"
    if r: "map_of (gNodes g) a = Some root" and v: "\<forall>d \<in> set (deps_of g a). w d = w' d" for a root w w'
  proof -
    from graph_nodes [OF assms r] obtain cell dependencies where p: "map_of normalized a = Some cell"
      "gpParse en extent (gsFormula cell) (fst (SplitCellKey a)) a = Parsed dependencies root"
      "map_of (gDependencies g) a = Some (sort (remdups dependencies))" by blast
    with v have "\<forall>d \<in> set dependencies. w d = w' d" by (simp add: deps_of_def)
    moreover have "own_dependencies en dependencies root"
      using own map_of_SomeD [OF p(1)] p(2) by (force simp: plain_formulas_def)
    ultimately show ?thesis unfolding own_dependencies_def by blast
  qed
  then show "looks_at_dependencies en g" unfolding looks_at_dependencies_def by blast
qed

section \<open>Recalculation\<close>

lemma edges_leads: "(a, b) \<in> edges g affected \<Longrightarrow> (b, a) \<in> leads_to g"
  by (auto simp: edges_def leads_to_iff deps_of_def split: option.splits dest!: map_of_SomeD [OF sym])

lemma edges_cycle: "(a, a) \<in> (edges g affected)\<^sup>+ \<Longrightarrow> (a, a) \<in> (leads_to g)\<^sup>+"
proof -
  have "(edges g affected) \<subseteq> (leads_to g)\<inverse>" by (auto dest: edges_leads)
  from trancl_mono [OF _ this] show "(a, a) \<in> (edges g affected)\<^sup>+ \<Longrightarrow> (a, a) \<in> (leads_to g)\<^sup>+"
    by (auto simp: trancl_converse)
qed

definition outcome :: "'v RecalculatedCell \<Rightarrow> 'v gvalue" where
  "outcome rc = (case rcError rc of Some e \<Rightarrow> Failed e | None \<Rightarrow> Plain (the (rcValue rc)))"

text \<open>The values of the sheet after a recalculation: what it gave, and what the cells had.\<close>

definition values_after ::
  "('n, 'v) formula_engine \<Rightarrow> (string \<times> 'v CellState) list \<Rightarrow> 'v GraphResult \<Rightarrow> string \<Rightarrow> 'v gvalue option" where
  "values_after en normalized r a =
     (case find (\<lambda>rc. rcAddress rc = a) (grCells r) of
        Some rc \<Rightarrow> Some (outcome rc)
      | None \<Rightarrow> map_option (initialValue en) (map_of normalized a))"

definition evaluated_formulas :: "'n graph \<Rightarrow> string list \<Rightarrow> string set" where
  "evaluated_formulas g changed = {a. is_formula g a \<and> (\<exists>c \<in> normalizeAddress ` set changed. (c, a) \<in> (leads_to g)\<^sup>*)}"

definition right_result ::
  "('n, 'v) formula_engine \<Rightarrow> (string \<times> 'v CellState) list \<Rightarrow> 'n graph \<Rightarrow> (string \<Rightarrow> 'v gvalue option) \<Rightarrow> 'v RecalculatedCell \<Rightarrow> bool" where
  "right_result en normalized g values rc =
     (if rcCircular rc then rcError rc = Some circular \<and> rcValue rc = None \<and> (rcAddress rc, rcAddress rc) \<in> (leads_to g)\<^sup>+
      else formulaValue en normalized g (rcAddress rc) values = Some (outcome rc))"

lemma find_map_filter:
  assumes "\<And>x y. f x = Some y \<Longrightarrow> k y = x"
  shows "find (\<lambda>y. k y = a) (List.map_filter f xs) = (if a \<in> set xs then f a else None)"
proof (induction xs)
  case (Cons x xs)
  then show ?case using assms [of x] by (auto simp: map_filter_simps split: option.splits)
qed (simp add: map_filter_simps)

lemma evaluate_graph_ok:
  assumes l: "looks_at_dependencies en g"
    and v: "\<forall>a \<in> set affected. to_visit g affected a"
  obtains r where "evaluate_graph en normalized g affected = Inr r" "map rcAddress (grCells r) = sort affected"
    "\<forall>rc \<in> set (grCells r). right_result en normalized g (values_after en normalized r) rc"
    "sorted (grCycles r)" "set (grCycles r) = rcAddress ` {rc \<in> set (grCells r). rcCircular rc}"
proof -
  obtain st where st: "calculateAll en normalized g affected (Suc (Suc (length affected))) (sort affected) (start_dfs en normalized) = Some st"
    "dfs_inv en normalized g affected st" "results_ok g st" "\<forall>a \<in> set affected. dfMarks st a = Done"
    using evaluation [OF l v] by blast
  define r where "r = \<lparr>grCells = List.map_filter (map_of (dfResults st)) (sort affected), grCycles = sort (dfCycles st)\<rparr>"
  have eval: "evaluate_graph en normalized g affected = Inr r"
    by (simp add: evaluate_graph_def st(1) r_def)
  have res: "map_of (dfResults st) a = Some (result_of g st a)" if "a \<in> set affected" for a
    using st(3,4) that by (simp add: results_ok_def)
  have cells: "grCells r = map (result_of g st) (sort affected)"
  proof -
    have "List.map_filter (map_of (dfResults st)) xs = map (result_of g st) xs" if "set xs \<subseteq> set affected" for xs
      using that by (induction xs) (simp_all add: map_filter_simps res)
    then show ?thesis by (simp add: r_def)
  qed
  have cyc: "a \<in> set affected" if "a \<in> set (dfCycles st)" for a
    using dfs_invD(4) [OF st(2), of a] dfs_invD(5) [OF st(2) that] by (simp add: to_visit_def)
  have val: "dfValues st a = values_after en normalized r a" for a
  proof (cases "a \<in> set affected")
    case True
    have "find (\<lambda>rc. rcAddress rc = a) (map (result_of g st) xs) = (if a \<in> set xs then Some (result_of g st a) else None)" for xs
      by (induction xs) (auto simp: result_of_def)
    moreover have "to_visit g affected a" using v True by blast
    from formulaValue_visit [OF this] have "dfValues st a \<noteq> None"
      using st(4) True dfs_invD(5) [OF st(2), of a] dfs_invD(6) [OF st(2), of a]
      by (cases "a \<in> set (dfCycles st)") (auto simp: settled_def)
    ultimately show ?thesis using True
      by (auto simp: values_after_def cells outcome_def result_of_def split: gvalue.splits)
  next
    case False
    then have "dfMarks st a = Unvisited" using dfs_invD(4) [OF st(2), of a] by (auto simp: to_visit_def)
    then have "dfValues st a = map_option (initialValue en) (map_of normalized a)"
      using dfs_invD(7) [OF st(2)] by (simp add: start_dfs_def)
    moreover have "find (\<lambda>rc. rcAddress rc = a) (map (result_of g st) (sort affected)) = None"
      using False by (auto simp: find_None_iff result_of_def)
    ultimately show ?thesis by (simp add: values_after_def cells)
  qed
  have right: "right_result en normalized g (values_after en normalized r) (result_of g st a)" if a: "a \<in> set affected" for a
  proof (cases "a \<in> set (dfCycles st)")
    case True
    with dfs_invD(5) [OF st(2) True] edges_cycle show ?thesis by (auto simp: right_result_def result_of_def)
  next
    case False
    with st(4) a have "dfValues st a = formulaValue en normalized g a (dfValues st)"
      using dfs_invD(6) [OF st(2), of a] by (simp add: settled_def)
    moreover obtain w where "formulaValue en normalized g a (dfValues st) = Some w"
      using formulaValue_visit v a by blast
    moreover have "dfValues st = values_after en normalized r" using val by blast
    ultimately show ?thesis using False
      by (auto simp: right_result_def result_of_def outcome_def split: gvalue.splits)
  qed
  show thesis
  proof (rule that [OF eval])
    show "map rcAddress (grCells r) = sort affected" by (simp add: cells o_def result_of_def)
    show "\<forall>rc \<in> set (grCells r). right_result en normalized g (values_after en normalized r) rc"
      using right by (simp add: cells)
    show "sorted (grCycles r)" by (simp add: r_def)
    have "set (grCycles r) = set (dfCycles st)" by (simp add: r_def)
    then show "set (grCycles r) = rcAddress ` {rc \<in> set (grCells r). rcCircular rc}"
      using cyc by (force simp: cells result_of_def image_iff)
  qed
qed

lemma Recalculate_parts:
  assumes "normalizeLoop cells [] = Inr normalized" "prepare_graph en normalized changed = Inr (g, affected)"
  shows "distinct (map fst normalized)"
    "buildLoop en (measureExtent (map fst normalized @ changed) []) normalized empty_graph = Inr g"
    "plain_formulas en (measureExtent (map fst normalized @ changed) []) normalized \<Longrightarrow> looks_at_dependencies en g"
    "\<forall>a \<in> set affected. to_visit g affected a" "set affected = evaluated_formulas g changed"
proof -
  show d: "distinct (map fst normalized)" using normalizeLoop_keys [OF assms(1)] by simp
  obtain seed where b: "buildLoop en (measureExtent (map fst normalized @ changed) []) normalized empty_graph = Inr g"
    and s: "seedLoop g changed \<lparr>rsQueue = [], rsQueued = [], rsAffected = []\<rparr> = Inr seed"
    and a: "affected = reachLoop g (rsQueue seed) (rsQueued seed) (rsAffected seed)"
    using assms(2) by (auto simp: prepare_graph_def Let_def bind_result_eq_Inr split: if_splits)
  show "buildLoop en (measureExtent (map fst normalized @ changed) []) normalized empty_graph = Inr g" by (fact b)
  show "plain_formulas en (measureExtent (map fst normalized @ changed) []) normalized \<Longrightarrow> looks_at_dependencies en g" by (rule graph_ok(1) [OF b d])
  show e: "set affected = evaluated_formulas g changed"
    using affected_exact [OF s] by (simp add: a evaluated_formulas_def)
  then show "\<forall>a \<in> set affected. to_visit g affected a"
    using graph_ok(2) [OF b d] by (auto simp: to_visit_def evaluated_formulas_def)
qed

lemma normalizeLoop_returns: "normalizeLoop cells normalized \<noteq> Inl Panic"
  by (induction cells normalized rule: normalizeLoop.induct) simp_all

lemma buildLoop_returns: "buildLoop en extent normalized g \<noteq> Inl Panic"
  by (induction en extent normalized g rule: buildLoop.induct) (simp_all add: Let_def split: parsed.split)

lemma seedLoop_returns: "seedLoop g changed s \<noteq> Inl Panic"
  by (induction g changed s rule: seedLoop.induct) (simp_all add: Let_def)

lemma Recalculate_returns: "Recalculate en cells changed \<noteq> Inl Panic"
proof
  assume p: "Recalculate en cells changed = Inl Panic"
  obtain normalized g affected where "evaluate_graph en normalized g affected = Inl Panic"
    using p by (auto simp: normalizeLoop_returns buildLoop_returns seedLoop_returns Recalculate_def prepare_graph_def Let_def bind_result_eq_Inl split: if_splits prod.splits)
  then show False using search_returns [of en normalized g affected] by (auto simp: evaluate_graph_def)
qed

lemma recalculation_right:
  assumes "changed \<noteq> []" "Recalculate en cells changed = Inr r"
    and "\<And>normalized. normalizeLoop cells [] = Inr normalized \<Longrightarrow>
      plain_formulas en (measureExtent (map fst normalized @ changed) []) normalized"
  shows "\<exists>normalized g affected. normalizeLoop cells [] = Inr normalized \<and>
    prepare_graph en normalized changed = Inr (g, affected) \<and>
    sorted (map rcAddress (grCells r)) \<and> rcAddress ` set (grCells r) = evaluated_formulas g changed \<and>
    (\<forall>rc \<in> set (grCells r). right_result en normalized g (values_after en normalized r) rc) \<and>
    sorted (grCycles r) \<and> set (grCycles r) = rcAddress ` {rc \<in> set (grCells r). rcCircular rc}"
proof -
  obtain normalized g affected where n: "normalizeLoop cells [] = Inr normalized"
    and p: "prepare_graph en normalized changed = Inr (g, affected)"
    and e: "evaluate_graph en normalized g affected = Inr r"
    using assms(1,2) by (auto simp: Recalculate_def bind_result_eq_Inr)
  note parts = Recalculate_parts [OF n p]
  from evaluate_graph_ok [OF parts(3) [OF assms(3) [OF n]] parts(4)]
  obtain r' where r': "evaluate_graph en normalized g affected = Inr r'" "map rcAddress (grCells r') = sort affected"
    "\<forall>rc \<in> set (grCells r'). right_result en normalized g (values_after en normalized r') rc"
    "sorted (grCycles r')" "set (grCycles r') = rcAddress ` {rc \<in> set (grCells r'). rcCircular rc}" by blast
  have "rcAddress ` set (grCells r) = set (map rcAddress (grCells r))" by simp
  with r' e parts(5) have "sorted (map rcAddress (grCells r))" "rcAddress ` set (grCells r) = evaluated_formulas g changed"
    by (simp_all del: set_map)
  moreover have "r' = r" using r'(1) e by simp
  ultimately show ?thesis using n p r'(3-5) by blast
qed

section \<open>The properties of a recalculation\<close>


text \<open>
  C19. Exactly the formulas that a changed cell leads to are evaluated, and their results are the
  fixed point of the sheet: each is the value its formula has for the values of the sheet after
  the recalculation, so that no formula was computed from a stale value, in whatever order
  the search took them; or it is on a cycle and is reported as circular, and then it does
  depend on itself. It rests on evaluation looking at the dependencies of a formula only.
\<close>

theorem recalculation_is_right:
  assumes "changed \<noteq> []" "Recalculate en cells changed = Inr r"
    and "\<And>normalized. normalizeLoop cells [] = Inr normalized \<Longrightarrow>
      plain_formulas en (measureExtent (map fst normalized @ changed) []) normalized"
  shows "\<exists>normalized g affected. normalizeLoop cells [] = Inr normalized \<and>
    prepare_graph en normalized changed = Inr (g, affected) \<and>
    sorted (map rcAddress (grCells r)) \<and> rcAddress ` set (grCells r) = evaluated_formulas g changed \<and>
    (\<forall>rc \<in> set (grCells r). right_result en normalized g (values_after en normalized r) rc) \<and>
    sorted (grCycles r) \<and> set (grCycles r) = rcAddress ` {rc \<in> set (grCells r). rcCircular rc}"
  by (rule recalculation_right [OF assms])

text \<open>A small engine: a formula is a sum of the cells it names; an error in them is its error, or counts as zero.\<close>

definition sum_cells :: "(formula_error \<Rightarrow> go_failure + int) \<Rightarrow> string list \<Rightarrow> (string \<Rightarrow> int gvalue option) \<Rightarrow> go_failure + int" where
  "sum_cells failed names values =
     fold (\<lambda>n total. case total of Inl e \<Rightarrow> Inl e
       | Inr k \<Rightarrow> (case values n of None \<Rightarrow> Inr k | Some (Plain v) \<Rightarrow> Inr (k + v) | Some (Failed e) \<Rightarrow> map_sum id ((+) k) (failed e)))
     names (Inr 0)"

definition adding :: "(formula_error \<Rightarrow> go_failure + int) \<Rightarrow> (string list, int) formula_engine" where
  "adding failed =
     \<lparr>gpString = (\<lambda>_. None), gpParse = (\<lambda>_ formula _ _. Parsed (split_on CHR ''+'' formula) (split_on CHR ''+'' formula)),
      gpEval = sum_cells failed\<rparr>"

definition cell_with :: "int \<Rightarrow> string \<Rightarrow> int CellState" where
  "cell_with v formula = \<lparr>gsValue = v, gsFormula = formula, gsForcedError = None\<rparr>"

definition small_sheet :: "(string \<times> int CellState) list" where
  "small_sheet =
     [(''A1'', cell_with 4 []), (''B1'', cell_with 0 ''C1+A1''), (''C1'', cell_with 0 ''A1''), (''D1'', cell_with 7 ''E1''),
      (''F1'', cell_with 0 ''F1+A1'')]"

lemma sum_cells_local: "\<forall>n \<in> set names. v n = w n \<Longrightarrow> sum_cells failed names v = sum_cells failed names w"
  unfolding sum_cells_def by (rule fold_cong) (simp_all cong: option.case_cong gvalue.case_cong)

lemma adding_plain: "plain_formulas (adding failed) extent normalized"
  by (auto simp: plain_formulas_def own_dependencies_def adding_def intro!: sum_cells_local)

theorem recalculation_is_right_witness:
  "\<exists>r g normalized. Recalculate (adding (Inl \<circ> Typed)) small_sheet [''a1''] = Inr r \<and>
    map rcValue (grCells r) = [Some 8, Some 4, None] \<and> grCycles r = [''F1''] \<and>
    rcAddress ` set (grCells r) = evaluated_formulas g [''a1''] \<and>
    (\<forall>rc \<in> set (grCells r). right_result (adding (Inl \<circ> Typed)) normalized g (values_after (adding (Inl \<circ> Typed)) normalized r) rc)"
proof -
  have c: "(case Recalculate (adding (Inl \<circ> Typed)) small_sheet [''a1''] of Inl _ \<Rightarrow> False
      | Inr r \<Rightarrow> map rcValue (grCells r) = [Some 8, Some 4, None] \<and> grCycles r = [''F1''])" by code_simp
  then obtain r where r: "Recalculate (adding (Inl \<circ> Typed)) small_sheet [''a1''] = Inr r"
    "map rcValue (grCells r) = [Some 8, Some 4, None]" "grCycles r = [''F1'']" by (auto split: sum.splits)
  have "[''a1''] \<noteq> []" by simp
  from recalculation_is_right [OF this r(1) adding_plain] obtain normalized g where
    "rcAddress ` set (grCells r) = evaluated_formulas g [''a1'']"
    "\<forall>rc \<in> set (grCells r). right_result (adding (Inl \<circ> Typed)) normalized g (values_after (adding (Inl \<circ> Typed)) normalized r) rc"
    by (elim exE conjE)
  with r show ?thesis by (intro exI conjI)
qed

text \<open>
  A cell on a cycle can get a value all the same: the search marks the cells on its stack,
  and the third cell is on the cycle through the first one, not on the stack, when it is
  evaluated from the error of the second.
\<close>

lemma cycle_member_gets_value:
  "let cells = [(''A1'', cell_with 0 ''B1+C1''), (''B1'', cell_with 0 ''A1''), (''C1'', cell_with 0 ''B1'')] in
   (case Recalculate (adding (\<lambda>_. Inr 1)) cells [''A1''] of Inl _ \<Rightarrow> False
    | Inr r \<Rightarrow> grCycles r = [''A1'', ''B1''] \<and> map rcValue (grCells r) = [None, None, Some 1])"
  by code_simp

end
