(* ===== verification/FormulaEngine.thy ===== *)
theory FormulaEngine
  imports FormulaLocal GraphResults
begin

text \<open>
  The graph with the evaluator: \<^verbatim>\<open>Recalculate\<close> on formulas that are scanned, parsed and
  evaluated by the definitions of the theories before. What the graph asks of its engine is
  proved here of the evaluator, for values that hold no function that names a cell; the values of a
  sheet stay so.
\<close>

section \<open>Values that a recalculation keeps\<close>

definition good :: "('v \<Rightarrow> bool) \<Rightarrow> (string \<Rightarrow> 'v gvalue option) \<Rightarrow> bool" where
  "good P w = (\<forall>a v. w a = Some (Plain v) \<longrightarrow> P v)"

definition cleaned :: "('v \<Rightarrow> bool) \<Rightarrow> (string \<Rightarrow> 'v gvalue option) \<Rightarrow> string \<Rightarrow> 'v gvalue option" where
  "cleaned P w = (\<lambda>a. case w a of Some (Plain v) \<Rightarrow> if P v then Some (Plain v) else None | r \<Rightarrow> r)"

text \<open>The engine that does not see the other values; a recalculation without any cannot tell it from the first.\<close>

definition guarded :: "('v \<Rightarrow> bool) \<Rightarrow> ('n, 'v) formula_engine \<Rightarrow> ('n, 'v) formula_engine" where
  "guarded P en = en\<lparr>gpEval := \<lambda>root w. gpEval en root (cleaned P w)\<rparr>"

definition keeps :: "('v \<Rightarrow> bool) \<Rightarrow> ('n, 'v) formula_engine \<Rightarrow> 'n graph \<Rightarrow> bool" where
  "keeps P en g = (\<forall>a root w v. map_of (gNodes g) a = Some root \<longrightarrow> good P w \<longrightarrow> gpEval en root w = Inr v \<longrightarrow> P v)"

lemma cleaned_good: "good P (cleaned P w)"
  by (auto simp: good_def cleaned_def split: option.splits gvalue.splits if_splits)

lemma cleaned_same: "good P w \<Longrightarrow> cleaned P w = w"
  by (rule ext) (auto simp: good_def cleaned_def split: option.split gvalue.split)

lemma guarded_fields [simp]:
  "gpParse (guarded P en) = gpParse en" "gpString (guarded P en) = gpString en"
  "gpEval (guarded P en) = (\<lambda>root w. gpEval en root (cleaned P w))"
  by (simp_all add: guarded_def)

lemma guarded_initial [simp]: "initialValue (guarded P en) = initialValue en"
  by (rule ext) (simp add: initialValue_def split: option.split)

lemma good_update: "good P w \<Longrightarrow> (\<And>v. x = Plain v \<Longrightarrow> P v) \<Longrightarrow> good P (w(a \<mapsto> x))"
  by (simp add: good_def)

lemma formulaValue_guarded: "good P w \<Longrightarrow> formulaValue (guarded P en) normalized g a w = formulaValue en normalized g a w"
  by (simp add: formulaValue_def cleaned_same split: option.split)

lemma formulaValue_good: "keeps P en g \<Longrightarrow> good P w \<Longrightarrow> formulaValue en normalized g a w = Some (Plain v) \<Longrightarrow> P v"
  by (auto simp: formulaValue_def keeps_def split: option.splits sum.splits)

lemma finish_guarded:
  assumes "good P (dfValues st)"
  shows "finish (guarded P en) normalized g a st = finish en normalized g a st"
    and "keeps P en g \<Longrightarrow> good P (dfValues (finish en normalized g a st))"
proof -
  show "finish (guarded P en) normalized g a st = finish en normalized g a st"
    by (simp add: finish_def formulaValue_guarded [OF assms])
  assume k: "keeps P en g"
  show "good P (dfValues (finish en normalized g a st))"
    using formulaValue_good [OF k assms, of normalized a] assms
    by (auto simp: finish_def Let_def set_result_def intro!: good_update split: option.split)
qed

lemma markCycle_good: "good P (dfValues st) \<Longrightarrow> good P (dfValues (markCycle g a st))"
  by (simp add: good_def markCycle_def markMembers)

lemma search_guarded:
  assumes "keeps P en g"
  shows "good P (dfValues st) \<Longrightarrow> calculate (guarded P en) normalized g affected fuel a st = calculate en normalized g affected fuel a st \<and>
      (\<forall>st'. calculate en normalized g affected fuel a st = Some st' \<longrightarrow> good P (dfValues st'))"
    and "good P (dfValues st) \<Longrightarrow> calculateAll (guarded P en) normalized g affected fuel as st = calculateAll en normalized g affected fuel as st \<and>
      (\<forall>st'. calculateAll en normalized g affected fuel as st = Some st' \<longrightarrow> good P (dfValues st'))"
  using assms
proof (induction en normalized g affected fuel a st and en normalized g affected fuel as st rule: calculate_calculateAll.induct)
  case (2 en normalized g affected fuel a st)
  show ?case
  proof (cases "dfMarks st a")
    case Unvisited
    have "good P (dfValues (enter a st))" using "2.prems"(1) by (simp add: enter_def)
    from "2.IH" [OF Unvisited this "2.prems"(2)] Unvisited "2.prems"(2) show ?thesis
      by (cases "calculateAll en normalized g affected fuel (filter (to_visit g affected) (deps_of g a)) (enter a st)")
        (auto simp: finish_guarded)
  qed (use "2.prems" markCycle_good in auto)
next
  case (4 en normalized g affected fuel a as st)
  from "4.IH"(1) [OF "4.prems"] "4.IH"(2) [OF _ _ "4.prems"(2)] show ?case
    by (auto split: option.split)
qed auto

lemma buildLoop_guarded: "buildLoop (guarded P en) extent cells g = buildLoop en extent cells g"
proof (induction en extent cells g rule: buildLoop.induct)
  case (2 en extent address cell cells g)
  then show ?case by (auto simp: Let_def split: parsed.split)
qed simp

lemma start_guarded: "start_dfs (guarded P en) normalized = start_dfs en normalized"
  by (simp add: start_dfs_def)

lemma initialValue_plain: "initialValue en cell = Plain v \<Longrightarrow> v = gsValue cell"
  by (auto simp: initialValue_def split: option.splits if_splits)

lemma start_good: "\<forall>(a, cell) \<in> set normalized. P (gsValue cell) \<Longrightarrow> good P (dfValues (start_dfs en normalized))"
  by (fastforce simp: good_def start_dfs_def dest: map_of_SomeD initialValue_plain)

lemma evaluate_guarded:
  "keeps P en g \<Longrightarrow> \<forall>(a, cell) \<in> set normalized. P (gsValue cell) \<Longrightarrow>
   evaluate_graph (guarded P en) normalized g affected = evaluate_graph en normalized g affected"
  using search_guarded(2) [where P = P and en = en and st = "start_dfs en normalized"] start_good [of normalized P en]
  by (simp add: evaluate_graph_def Let_def start_guarded)

text \<open>What a recalculation gives when its formulas look at their dependencies only, for good values.\<close>

definition kept_formulas ::
  "('v \<Rightarrow> bool) \<Rightarrow> ('n, 'v) formula_engine \<Rightarrow> (string \<times> SheetExtent) list \<Rightarrow> (string \<times> 'v CellState) list \<Rightarrow> bool" where
  "kept_formulas P en extent normalized =
     (\<forall>(a, cell) \<in> set normalized. P (gsValue cell) \<and>
        (case gpParse en extent (gsFormula cell) (fst (SplitCellKey a)) a of
           Parsed dependencies root \<Rightarrow>
             own_dependencies (guarded P en) dependencies root \<and> (\<forall>w v. good P w \<longrightarrow> gpEval en root w = Inr v \<longrightarrow> P v)
         | _ \<Rightarrow> True))"

lemma kept_formulas_graph:
  assumes "kept_formulas P en extent normalized" "buildLoop en extent normalized empty_graph = Inr g" "distinct (map fst normalized)"
  shows "keeps P en g"
  unfolding keeps_def
proof (intro allI impI)
  fix a root w v assume a: "map_of (gNodes g) a = Some root" "good P w" "gpEval en root w = Inr v"
  from graph_nodes [OF assms(2,3) a(1)] obtain cell dependencies where
    p: "map_of normalized a = Some cell" "gpParse en extent (gsFormula cell) (fst (SplitCellKey a)) a = Parsed dependencies root" by blast
  from bspec [OF assms(1) [unfolded kept_formulas_def] map_of_SomeD [OF p(1)]] p(2) a(2,3) show "P v" by auto
qed

lemma right_guarded:
  assumes k: "keeps P en g" and v: "\<forall>(a, cell) \<in> set normalized. P (gsValue cell)"
    and r: "\<forall>rc \<in> set (grCells r). right_result (guarded P en) normalized g (values_after en normalized r) rc"
  shows "\<forall>rc \<in> set (grCells r). right_result en normalized g (values_after en normalized r) rc"
proof -
  let ?w = "values_after en normalized r"
  have one: "P v" if rc: "rc \<in> set (grCells r)" "outcome rc = Plain v" for rc v
  proof -
    have "\<not> rcCircular rc" using r rc by (auto simp: right_result_def outcome_def)
    then have "formulaValue (guarded P en) normalized g (rcAddress rc) ?w = Some (Plain v)"
      using r rc by (auto simp: right_result_def)
    then have "formulaValue en normalized g (rcAddress rc) (cleaned P ?w) = Some (Plain v)"
      by (simp add: formulaValue_def split: option.splits)
    then show "P v" by (rule formulaValue_good [OF k cleaned_good])
  qed
  have "good P ?w"
    unfolding good_def
  proof (intro allI impI)
    fix a v' assume a: "?w a = Some (Plain v')"
    show "P v'"
    proof (cases "find (\<lambda>rc. rcAddress rc = a) (grCells r)")
      case None
      with a v show ?thesis by (fastforce simp: values_after_def dest: map_of_SomeD initialValue_plain)
    next
      case (Some rc)
      with a show ?thesis using one [of rc v'] by (auto simp: values_after_def find_Some_iff)
    qed
  qed
  then have "right_result (guarded P en) normalized g ?w = right_result en normalized g ?w"
    by (simp add: right_result_def formulaValue_guarded fun_eq_iff)
  with r show ?thesis by simp
qed

lemma recalculation_right_kept:
  assumes c: "changed \<noteq> []" and r: "Recalculate en cells changed = Inr r" and n: "normalizeLoop cells [] = Inr normalized"
    and k: "kept_formulas P en (measureExtent (map fst normalized @ changed) []) normalized"
  obtains g affected where "prepare_graph en normalized changed = Inr (g, affected)"
    "rcAddress ` set (grCells r) = evaluated_formulas g changed"
    "\<forall>rc \<in> set (grCells r). right_result en normalized g (values_after en normalized r) rc"
proof -
  obtain g affected where p: "prepare_graph en normalized changed = Inr (g, affected)"
    and e: "evaluate_graph en normalized g affected = Inr r"
    using c r n by (auto simp: Recalculate_def bind_result_eq_Inr)
  note parts = Recalculate_parts [OF n p]
  have keeps: "keeps P en g" by (rule kept_formulas_graph [OF k parts(2,1)])
  have plain: "\<forall>(a, cell) \<in> set normalized. P (gsValue cell)" using k by (auto simp: kept_formulas_def)
  have "prepare_graph (guarded P en) normalized changed = prepare_graph en normalized changed"
    by (simp add: prepare_graph_def buildLoop_guarded)
  then have "Recalculate (guarded P en) cells changed = Inr r"
    using c n p e by (simp add: Recalculate_def bind_result_def evaluate_guarded [OF keeps plain])
  moreover have "plain_formulas (guarded P en) (measureExtent (map fst normalized' @ changed) []) normalized'"
    if "normalizeLoop cells [] = Inr normalized'" for normalized'
    using k that n by (fastforce simp: kept_formulas_def plain_formulas_def split: parsed.split)
  ultimately obtain normalized' g' affected' where x: "normalizeLoop cells [] = Inr normalized'"
    "prepare_graph (guarded P en) normalized' changed = Inr (g', affected')" "rcAddress ` set (grCells r) = evaluated_formulas g' changed"
    "\<forall>rc \<in> set (grCells r). right_result (guarded P en) normalized' g' (values_after (guarded P en) normalized' r) rc"
    using recalculation_right [OF c, of "guarded P en" cells r] by blast
  have same: "normalized' = normalized" "g' = g"
    using x(1,2) n p by (simp_all add: prepare_graph_def buildLoop_guarded)
  have "values_after (guarded P en) = values_after en" by (simp add: values_after_def fun_eq_iff split: option.split)
  with x(3,4) show thesis by (intro that [OF p] right_guarded [OF keeps plain]) (simp_all add: same)
qed

section \<open>The evaluator as an engine\<close>

definition sheet_value :: "(string \<Rightarrow> 'f val gvalue option) \<Rightarrow> 'f cells" where
  "sheet_value w = (\<lambda>a. map_option (\<lambda>x. case x of Plain v \<Rightarrow> v | Failed e \<Rightarrow> VError e) (w a))"

text \<open>A panic and a stack that overflows end the process; the graph sees them as errors here.\<close>

definition engine_result :: "'a answer \<Rightarrow> go_failure + 'a" where
  "engine_result r =
     (case r of Gives v \<Rightarrow> Inr v | Fails e \<Rightarrow> Inl e | Panics \<Rightarrow> Inl (Untyped ''panic'') | Overflows \<Rightarrow> Inl (Untyped ''stack overflow''))"

definition sheet_engine :: "'f evaluation_library \<Rightarrow> 'f Scope \<Rightarrow> nat \<Rightarrow> ('f node, 'f val) formula_engine" where
  "sheet_engine E sc depth =
     \<lparr>gpString = (\<lambda>v. case v of VText t \<Rightarrow> Some t | _ \<Rightarrow> None), gpParse = parseFormula (lib E) sc,
      gpEval = (\<lambda>root w. engine_result (evaluateFormula E depth root (sheet_value w)))\<rparr>"

text \<open>A value whose functions, should it hold any, name no cell; a tree that makes no others and computes no reference.\<close>

abbreviation storable :: "'f val \<Rightarrow> bool" where
  "storable \<equiv> closed_value {}"

definition plain_tree :: "'f node \<Rightarrow> bool" where
  "plain_tree = within {} UNIV"

lemma plain_within: "within {} UNIV n \<Longrightarrow> reads n \<subseteq> D \<Longrightarrow> within {} D n"
  by (induction n rule: node.induct [where ?P1.0 = "\<lambda>_. True"]) (auto simp: UN_subset_iff)

lemma answer_at_agree: "\<forall>a \<in> set answers. agree P a a \<Longrightarrow> agree P (answer_at answers i) (answer_at answers i)"
  by (simp add: answer_at_def nat_less_iff)

lemma publicValue_closed: "closed_value F v \<Longrightarrow> agree (closed_value F) (publicValue E v) (publicValue E v)"
proof (induction E v rule: publicValue.induct)
  case (2 E rows columns vs)
  then have a: "\<forall>a \<in> set (map (publicValue E) vs). agree (closed_value F) a a" by auto
  have step: "agree (closed_value F) (case p of (row, column) \<Rightarrow> answer_at (map (publicValue E) vs) (row * columns + column))
      (case p of (row, column) \<Rightarrow> answer_at (map (publicValue E) vs) (row * columns + column))" for p :: "int \<times> int"
    using answer_at_agree [OF a] by (cases p) simp
  show ?case
    unfolding publicValue.simps Let_def
    by (intro agree_if agree_same agree_chain [OF agree_chain_map [OF step]]) simp
qed simp_all

lemma storable_agree: "agree P m m' \<Longrightarrow> agree P (storableResult E m) (storableResult E m')"
  unfolding storableResult_def
  by (rule agree_chain [where P = P]) (auto split: val.split)

lemma evaluateFormula_local:
  assumes "makes_no_functions E" "within {} D root" "closed_cells {} D cells" "\<forall>address \<in> D. cells address = cells' address"
  shows "agree storable (evaluateFormula E depth root cells) (evaluateFormula E depth root cells')"
  unfolding evaluateFormula_def
  by (intro agree_chain [OF storable_agree [OF eval_local]] publicValue_closed)
    (use assms in \<open>simp_all add: closed_frames_def\<close>)

lemma good_sheet: "good storable w \<Longrightarrow> closed_cells {} D (sheet_value w)"
  by (auto simp: good_def closed_cells_def cell_value_def sheet_value_def split: option.split gvalue.split)

lemma engine_agree: "agree P m m' \<Longrightarrow> engine_result m = engine_result m' \<and> (\<forall>v. engine_result m = Inr v \<longrightarrow> P v)"
  by (auto simp: agree_def engine_result_def split: answer.splits)

lemma engine_kept:
  assumes "makes_no_functions E" "plain_tree root" "reads root \<subseteq> set dependencies"
  shows "own_dependencies (guarded storable (sheet_engine E sc depth)) dependencies root"
    and "good storable w \<Longrightarrow> gpEval (sheet_engine E sc depth) root w = Inr v \<Longrightarrow> storable v"
proof -
  have t: "within {} (set dependencies) root" using assms(2,3) by (simp add: plain_tree_def plain_within)
  show "own_dependencies (guarded storable (sheet_engine E sc depth)) dependencies root"
    unfolding own_dependencies_def guarded_fields
  proof (intro allI impI)
    fix w w' :: "string \<Rightarrow> 'a val gvalue option" assume "\<forall>d \<in> set dependencies. w d = w' d"
    then have "\<forall>d \<in> set dependencies. sheet_value (cleaned storable w) d = sheet_value (cleaned storable w') d"
      by (simp add: sheet_value_def cleaned_def)
    from conjunct1 [OF engine_agree [OF evaluateFormula_local [OF assms(1) t good_sheet [OF cleaned_good] this]]]
    show "gpEval (sheet_engine E sc depth) root (cleaned storable w) = gpEval (sheet_engine E sc depth) root (cleaned storable w')"
      by (simp add: sheet_engine_def)
  qed
  assume w: "good storable w" "gpEval (sheet_engine E sc depth) root w = Inr v"
  have "agree storable (evaluateFormula E depth root (sheet_value w)) (evaluateFormula E depth root (sheet_value w))"
    by (rule evaluateFormula_local [OF assms(1) t good_sheet [OF w(1)]]) simp
  from conjunct2 [OF engine_agree [OF this]] w(2) show "storable v" by (simp add: sheet_engine_def)
qed

section \<open>Formulas of a sheet\<close>

definition extents_fit :: "(string \<times> SheetExtent) list \<Rightarrow> bool" where
  "extents_fit extent = (\<forall>(sheet, e) \<in> set extent. seRows e \<le> MaxRows \<and> seColumns e \<le> MaxColumns)"

lemma extents_fit_update: "extents_fit extent \<Longrightarrow> seRows e \<le> MaxRows \<Longrightarrow> seColumns e \<le> MaxColumns \<Longrightarrow> extents_fit (AList.update sheet e extent)"
  by (induction extent) (auto simp: extents_fit_def)

lemma extents_fit_found: "extents_fit extent \<Longrightarrow> map_of extent sheet = Some e \<Longrightarrow> seRows e \<le> MaxRows \<and> seColumns e \<le> MaxColumns"
  by (auto simp: extents_fit_def dest: map_of_SomeD)

lemma measureExtent_sheet: "extents_fit extent \<Longrightarrow> extents_fit (measureExtent addresses extent)"
proof (induction addresses arbitrary: extent)
  case (Cons address addresses)
  have "extents_fit (AList.update sheet \<lparr>seRows = max (seRows e) (Row (End selected)), seColumns = max (seColumns e) (Column (End selected))\<rparr> extent)"
    if "Parse cell = Inr selected" "e = (case map_of extent sheet of None \<Rightarrow> \<lparr>seRows = 0, seColumns = 0\<rparr> | Some e \<Rightarrow> e)" for cell selected sheet e
    by (rule extents_fit_update [OF Cons.prems])
      (use Parse_sheet [OF that(1)] extents_fit_found [OF Cons.prems, of sheet] that(2) in
        \<open>auto simp: MaxRows_def MaxColumns_def split: option.splits\<close>)
  then show ?case using Cons by (cases "SplitCellKey address") (auto simp: Let_def split: sum.split)
qed simp

lemma parseFormula_covers:
  assumes "scope_ok sc" "extents_fit extent" "parseFormula L sc extent input sheet anchor = Parsed dependencies root"
  shows "reads root \<subseteq> set dependencies"
proof -
  obtain tokens s where l: "lex (lexer_tables.truncate L) input = Inr tokens"
    and p: "parse L (scopeFor sc extent sheet anchor) (newParser tokens) = Ran root s" "dependencies = psDependencies s"
    using assms(3) by (auto simp: parseFormula_def split: sum.splits run.splits)
  have "scope_ok (scopeFor sc extent sheet anchor)"
    using assms(1,2) by (simp add: scope_ok_def scopeFor_def extents_fit_def)
  from parse_covers [OF this l p(1)] p(2) show ?thesis by simp
qed

text \<open>
  The outcome of the formula of a cell: its text is read, and its tree evaluated on the values of the sheet.
\<close>

definition formula_outcome ::
  "'f evaluation_library \<Rightarrow> 'f Scope \<Rightarrow> nat \<Rightarrow> (string \<times> SheetExtent) list \<Rightarrow> string \<Rightarrow> 'f val CellState \<Rightarrow>
   (string \<Rightarrow> 'f val gvalue option) \<Rightarrow> 'f val gvalue" where
  "formula_outcome E sc depth extent address cell w =
     (case parseFormula (lib E) sc extent (gsFormula cell) (fst (SplitCellKey address)) address of
        LexError message \<Rightarrow> Failed (formulaError ''#ERROR!'' message)
      | ParseError _ failure \<Rightarrow> Failed (failure_error failure)
      | Parsed _ root \<Rightarrow>
          (case gsForcedError cell of
             Some e \<Rightarrow> Failed e
           | None \<Rightarrow>
               (case engine_result (evaluateFormula E depth root (sheet_value w)) of
                  Inl failure \<Rightarrow> Failed (failure_error failure) | Inr v \<Rightarrow> Plain v)))"

text \<open>The formulas of a sheet that compute no reference, and make no function that names a cell.\<close>

definition plain_sheet ::
  "'f evaluation_library \<Rightarrow> 'f Scope \<Rightarrow> (string \<times> SheetExtent) list \<Rightarrow> (string \<times> 'f val CellState) list \<Rightarrow> bool" where
  "plain_sheet E sc extent normalized =
     (\<forall>(a, cell) \<in> set normalized. storable (gsValue cell) \<and>
        (case parseFormula (lib E) sc extent (gsFormula cell) (fst (SplitCellKey a)) a of
           Parsed dependencies root \<Rightarrow> plain_tree root | _ \<Rightarrow> True))"

lemma plain_sheet_kept:
  assumes "makes_no_functions E" "scope_ok sc" "extents_fit extent" "plain_sheet E sc extent normalized"
  shows "kept_formulas storable (sheet_engine E sc depth) extent normalized"
  unfolding kept_formulas_def
proof
  fix entry assume e: "entry \<in> set normalized"
  obtain a cell where x: "entry = (a, cell)" by (cases entry)
  note p = bspec [OF assms(4) [unfolded plain_sheet_def] e, unfolded x prod.case]
  have "own_dependencies (guarded storable (sheet_engine E sc depth)) dependencies root \<and>
      (\<forall>w v. good storable w \<longrightarrow> gpEval (sheet_engine E sc depth) root w = Inr v \<longrightarrow> storable v)"
    if r: "parseFormula (lib E) sc extent (gsFormula cell) (fst (SplitCellKey a)) a = Parsed dependencies root" for dependencies root
    using engine_kept [OF assms(1) _ parseFormula_covers [OF assms(2,3) r]] p r by auto
  then show "case entry of (a, cell) \<Rightarrow> storable (gsValue cell) \<and>
      (case gpParse (sheet_engine E sc depth) extent (gsFormula cell) (fst (SplitCellKey a)) a of
         Parsed dependencies root \<Rightarrow> own_dependencies (guarded storable (sheet_engine E sc depth)) dependencies root \<and>
           (\<forall>w v. good storable w \<longrightarrow> gpEval (sheet_engine E sc depth) root w = Inr v \<longrightarrow> storable v)
       | _ \<Rightarrow> True)"
    using p by (simp add: x sheet_engine_def split: parsed.split)
qed

lemma formulaValue_outcome:
  assumes "buildLoop (sheet_engine E sc depth) extent normalized empty_graph = Inr g" "distinct (map fst normalized)"
    and "is_formula g a" "formulaValue (sheet_engine E sc depth) normalized g a w = Some v"
  shows "\<exists>cell. map_of normalized a = Some cell \<and> v = formula_outcome E sc depth extent a cell w"
  using graph_entries [OF assms(1,2), of a] assms(3,4)
  by (auto simp: entry_of_def graph_entry_def is_formula_def formulaValue_def formula_outcome_def sheet_engine_def
      split: option.splits if_splits parsed.splits)

section \<open>A sheet is recalculated right\<close>


definition whole_library :: "int evaluation_library" where
  "whole_library = formula_library.extend whole_numbers
     \<lparr>evNegate = uminus,
      evArithmetic = (\<lambda>operator a b. if operator = ''+'' then a + b else if operator = ''-'' then a - b else if operator = ''*'' then a * b else a div b),
      evIsZero = (\<lambda>x. x = 0), evLess = (<), evSignificant = (\<lambda>x. x), evFinite = (\<lambda>_. True), evDecimalRound = (\<lambda>x _. x),
      evDateArithmetic = (\<lambda>_ _ _. None), evExtremeDate = (\<lambda>_ _. None), evDate = (\<lambda>_ _ _. []),
      evArrays = (\<lambda>_ _. None), evScalars = (\<lambda>_ _. None), evGroups = (\<lambda>_ _ _. Panics)\<rparr>"

definition number_cell :: "int \<Rightarrow> string \<Rightarrow> int val CellState" where
  "number_cell x formula = \<lparr>gsValue = VNumber x, gsFormula = formula, gsForcedError = None\<rparr>"

definition sample_sheet :: "(string \<times> int val CellState) list" where
  "sample_sheet =
     [(''A1'', number_cell 2 []), (''B1'', number_cell 0 ''=C1*10+A1''), (''C1'', number_cell 0 ''=IF(A1>1,A1+1,B2)'')]"

lemma whole_library_quiet: "makes_no_functions whole_library"
  by (simp add: makes_no_functions_def whole_library_def formula_library.defs)


end
