(* ===== verification/FormulaAnswers.thy ===== *)
theory FormulaAnswers
  imports FormulaEngine
begin

text \<open>
  What evaluation promises: operators on arrays place by place, texts cut at a rune, and what may be stored;
  and where it does not keep what it promises.
\<close>

section \<open>Where evaluation fails\<close>

definition calculated :: "string \<Rightarrow> (string \<times> int val) list \<Rightarrow> int val answer" where
  "calculated input cells =
     (case parseFormula whole_numbers plain_scope [] input [] ''A1'' of
        Parsed _ root \<Rightarrow> evaluateFormula whole_library 30 root (map_of cells) | _ \<Rightarrow> Overflows)"

text \<open>An error that a function of single values gives for an array of one value comes back as a value, which \<^verbatim>\<open>IFERROR\<close> does not see.\<close>

lemma iferror_misses_error:
  "calculated (''=IFERROR(ROUND({'' @ quoted ''x'' @ ''},0),7)'') [] = Fails (Typed (formulaError ''#VALUE!'' ''ROUND requires a number''))"
  "calculated (''=IFERROR(ROUND('' @ quoted ''x'' @ '',0),7)'') [] = Gives (VNumber 7)"
  by code_simp+

text \<open>A length of 64 bits drives \<^verbatim>\<open>MID\<close> out of its text.\<close>

lemma mid_panics: "calculated (''=MID('' @ quoted ''abc'' @ '',2,9223372036854775807)'') [] = Panics"
  by code_simp

text \<open>A computed \<^verbatim>\<open>OFFSET\<close> is one cell large where a constant one is as large as what it moves.\<close>

lemma computed_offset_shrinks:
  "let cells = [(''A1'', VNumber 1), (''A2'', VNumber 2), (''B1'', VNumber 0)] in
   calculated ''=SUM(OFFSET(A1:A2,0,0))'' cells = Gives (VNumber 3) \<and> calculated ''=SUM(OFFSET(A1:A2,B1,0))'' cells = Gives (VNumber 1)"
  by code_simp

text \<open>\<^verbatim>\<open>ISERR\<close> says of a cell with the text of a missing value the opposite of what it says of the cell in a range.\<close>

lemma iserr_disagrees:
  "let cells = [(''A1'', VText ''#N/A''), (''A2'', VText ''#N/A'')] in
   calculated ''=ISERR(A1)'' cells = Gives (VBool True) \<and>
   calculated ''=ISERR(A1:A2)'' cells = Gives (arrayValue 2 1 [VBool False, VBool False])"
  by code_simp

text \<open>A function returned from another has lost the arguments of that one.\<close>

lemma closure_loses_argument:
  "calculated ''=LET(add,LAMBDA(x,LAMBDA(y,x+y)),one,add(1),one(2))'' [] =
     Fails (Typed (formulaError ''#VALUE!'' ''a name was used before it was given a value''))"
  by code_simp

text \<open>A function that calls itself has no end: the recursion is as deep as the stack, which ends the process.\<close>

definition self_call :: "'f node" where
  "self_call = lambdaCallNode (bindingNode 1 0) [bindingNode 1 0]"

lemma self_call_body:
  "env 1 = [lambdaValue 1 [''G''] self_call] \<Longrightarrow> eval E cells depth env self_call = Overflows"
proof (induction depth arbitrary: env)
  case (Suc depth)
  have "eval E cells depth (env(1 := [lambdaValue 1 [''G''] self_call])) self_call = Overflows" by (rule Suc.IH) simp
  moreover have "eval E cells depth env (bindingNode 1 0) = (if depth = 0 then Overflows else Gives (lambdaValue 1 [''G''] self_call))"
    using Suc.prems by (cases depth) (simp_all add: evalNode_def)
  ultimately show ?case
    by (subst self_call_def) (simp add: evalNode_def callValue_def)
qed simp

lemma recursion_overflows:
  "parseFormula whole_numbers plain_scope [] ''=LET(f,LAMBDA(g,g(g)),f(f))'' [] ''A1'' = Parsed []
     (letNode 0 [lambdaNode 1 [''G''] self_call] (lambdaCallNode (bindingNode 0 0) [bindingNode 0 0]))"
  "evaluateFormula E depth (letNode 0 [lambdaNode 1 [''G''] self_call] (lambdaCallNode (bindingNode 0 0) [bindingNode 0 0])) cells = Overflows"
proof -
  show "parseFormula whole_numbers plain_scope [] ''=LET(f,LAMBDA(g,g(g)),f(f))'' [] ''A1'' = Parsed []
     (letNode 0 [lambdaNode 1 [''G''] self_call] (lambdaCallNode (bindingNode 0 0) [bindingNode 0 0]))" by code_simp
  let ?f = "lambdaValue 1 [''G''] self_call"
  have call: "eval E cells depth env (lambdaCallNode (bindingNode 0 0) [bindingNode 0 0]) = Overflows" if "env 0 = [?f]" for depth env
  proof (cases depth)
    case (Suc d)
    have "eval E cells d (env(1 := [?f])) self_call = Overflows" by (rule self_call_body) simp
    moreover have "eval E cells d env (bindingNode 0 0) = (if d = 0 then Overflows else Gives ?f)"
      using that by (cases d) (simp_all add: evalNode_def)
    ultimately show ?thesis by (simp add: Suc evalNode_def callValue_def)
  qed simp
  have "eval E cells depth (\<lambda>_. []) (letNode 0 [lambdaNode 1 [''G''] self_call] (lambdaCallNode (bindingNode 0 0) [bindingNode 0 0])) = Overflows"
  proof (cases depth)
    case (Suc d)
    have "eval E cells d (\<lambda>_. []) (lambdaNode 1 [''G''] self_call) = (if d = 0 then Overflows else Gives ?f)"
      by (cases d) (simp_all add: evalNode_def)
    then show ?thesis by (simp add: Suc evalNode_def call fun_upd_idem)
  qed simp
  then show "evaluateFormula E depth (letNode 0 [lambdaNode 1 [''G''] self_call] (lambdaCallNode (bindingNode 0 0) [bindingNode 0 0])) cells = Overflows"
    by (simp add: evaluateFormula_def storableResult_def)
qed

section \<open>Operators on arrays\<close>

lemma upto_add: "map ((+) k) [i..j] = [k + i..k + j]"
  by (rule nth_equalityI) (simp_all add: nth_upto)

lemma places_index:
  assumes "0 \<le> rows" "0 \<le> columns"
  shows "map (\<lambda>(row, column). row * columns + column) (places rows columns) = [0..rows * columns - 1]"
  using assms(1)
proof (induction rows rule: int_ge_induct)
  case (step rows)
  have "[0..rows] = [0..rows - 1] @ [rows]" using step.hyps by (simp add: upto_rec2)
  then have "places (rows + 1) columns = places rows columns @ map (\<lambda>column. (rows, column)) [0..columns - 1]"
    by (simp add: places_def)
  moreover have "map (\<lambda>column. rows * columns + column) [0..columns - 1] = [rows * columns..rows * columns + columns - 1]"
    using upto_add [of "rows * columns" 0 "columns - 1"] by (simp add: add_diff_eq)
  moreover have "[0..rows * columns + columns - 1] = [0..rows * columns - 1] @ [rows * columns..rows * columns + columns - 1]"
    using step.hyps assms(2) by (cases "columns = 0") (simp_all add: upto_split1)
  ultimately show ?case using step.IH by (simp add: comp_def algebra_simps)
qed (simp add: places_def)

lemma chain_map_map: "chain_map f (map g xs) = chain_map (\<lambda>x. f (g x)) xs"
  by (induction xs) simp_all

lemma chain_map_cong: "(\<And>x. x \<in> set xs \<Longrightarrow> f x = g x) \<Longrightarrow> chain_map f xs = chain_map g xs"
  by (induction xs) simp_all

lemma chain_map_places:
  assumes "0 \<le> rows" "0 \<le> columns" "rows * columns = int n"
  shows "chain_map (\<lambda>(row, column). f (row * columns + column)) (places rows columns) = chain_map (\<lambda>i. f (int i)) [0..<n]"
proof -
  have "map int [0..<n] = [0..int n - 1]" by (rule nth_equalityI) (simp_all add: nth_upto)
  then show ?thesis
    using chain_map_map [of f "\<lambda>(row, column). row * columns + column" "places rows columns"] chain_map_map [of f int "[0..<n]"]
      places_index [OF assms(1,2)] assms(3)
    by (simp add: case_prod_unfold)
qed

lemma element_nth: "i < length vs \<Longrightarrow> element vs (int i) = Gives (vs ! i)"
  by (simp add: element_def)

lemma chain_map_nth: "chain_map (\<lambda>i. f (vs ! i)) [0..<length vs] = chain_map f vs"
  using chain_map_map [of f "(!) vs" "[0..<length vs]"] by (simp add: map_nth)

lemma chain_map_zip:
  "length ws = length vs \<Longrightarrow> chain_map (\<lambda>i. f (vs ! i) (ws ! i)) [0..<length vs] = chain_map (\<lambda>(x, y). f x y) (zip vs ws)"
proof -
  assume l: "length ws = length vs"
  then have "zip vs ws = map (\<lambda>i. (vs ! i, ws ! i)) [0..<length vs]" by (intro nth_equalityI) simp_all
  then show ?thesis by (simp add: chain_map_map)
qed

lemma first_place: "(row, column) \<in> set (places 1 1) \<Longrightarrow> row * 1 + column = 0"
  by (simp add: places_def)

lemma array_at_place:
  assumes "(row, column) \<in> set (places rows columns)"
  shows "(if single_cell (rows, columns, vs) then array_at (rows, columns, vs) 0 0 else array_at (rows, columns, vs) row column) =
    element vs (row * columns + column)"
  using assms by (auto simp: single_cell_def array_at_def dest: first_place)

lemma evaluateBinary_places:
  assumes "isArrayOperand l \<or> isArrayOperand r" "toArray l = a" "toArray r = b" "single_cell a \<or> single_cell b \<or> sameShape a b"
    and "(if single_cell a then (fst b, fst (snd b)) else (fst a, fst (snd a))) = (rows, columns)" "0 \<le> rows * columns"
  shows "evaluateBinary E operator l r =
    chain (chain_map (\<lambda>(row, column).
        chain (if single_cell a then array_at a 0 0 else array_at a row column) (\<lambda>v.
        chain (if single_cell b then array_at b 0 0 else array_at b row column) (\<lambda>w. evaluateScalarBinary E operator v w)))
      (places rows columns)) (\<lambda>us. Gives (arrayValue rows columns us))"
proof -
  have n: "\<not> (\<not> isArrayOperand l \<and> \<not> isArrayOperand r)" "\<not> (\<not> single_cell a \<and> \<not> single_cell b \<and> \<not> sameShape a b)" "\<not> rows * columns < 0"
    using assms(1,4,6) by simp_all
  show ?thesis unfolding evaluateBinary_def Let_def assms(2,3,5) prod.case if_not_P [OF n(1)] if_not_P [OF n(2)] if_not_P [OF n(3)] ..
qed

lemma binary_arrays:
  assumes s: "0 \<le> rows" "0 \<le> columns" "rows * columns = int (length vs)" and l: "length ws = length vs"
  shows "evaluateBinary E operator (arrayValue rows columns vs) (arrayValue rows columns ws) =
      chain (chain_map (\<lambda>(v, w). evaluateScalarBinary E operator v w) (zip vs ws)) (\<lambda>us. Gives (arrayValue rows columns us))"
proof -
  let ?a = "(rows, columns, vs)" and ?b = "(rows, columns, ws)"
  let ?f = "\<lambda>i. chain (element vs i) (\<lambda>v. chain (element ws i) (\<lambda>w. evaluateScalarBinary E operator v w))"
  have "chain_map (\<lambda>(row, column).
      chain (if single_cell ?a then array_at ?a 0 0 else array_at ?a row column) (\<lambda>v.
      chain (if single_cell ?b then array_at ?b 0 0 else array_at ?b row column) (\<lambda>w. evaluateScalarBinary E operator v w)))
      (places rows columns) = chain_map (\<lambda>(row, column). ?f (row * columns + column)) (places rows columns)"
    by (rule chain_map_cong) (auto simp: array_at_place)
  also have "\<dots> = chain_map (\<lambda>i. ?f (int i)) [0..<length vs]" by (rule chain_map_places [OF s])
  also have "\<dots> = chain_map (\<lambda>i. evaluateScalarBinary E operator (vs ! i) (ws ! i)) [0..<length vs]"
    by (rule chain_map_cong) (simp add: element_nth l)
  also have "\<dots> = chain_map (\<lambda>(v, w). evaluateScalarBinary E operator v w) (zip vs ws)" by (rule chain_map_zip [OF l])
  finally show ?thesis
    using evaluateBinary_places [of "arrayValue rows columns vs" "arrayValue rows columns ws" ?a ?b rows columns E operator] s(3)
    by (simp add: isArrayOperand_def toArray_def sameShape_def)
qed

lemma binary_single:
  assumes s: "0 \<le> rows" "0 \<le> columns" "rows * columns = int (length vs)" and x: "\<not> isArrayOperand x"
  shows "evaluateBinary E operator (arrayValue rows columns vs) x =
      chain (chain_map (\<lambda>v. evaluateScalarBinary E operator v x) vs) (\<lambda>us. Gives (arrayValue rows columns us))"
    and "evaluateBinary E operator x (arrayValue rows columns vs) =
      chain (chain_map (\<lambda>v. evaluateScalarBinary E operator x v) vs) (\<lambda>us. Gives (arrayValue rows columns us))"
proof -
  let ?a = "(rows, columns, vs)"
  have t: "toArray x = (1, 1, [x])" using x by (simp add: toArray_def isArrayOperand_def split: val.splits)
  have ta: "toArray (arrayValue rows columns vs) = ?a" by (simp add: toArray_def)
  have places: "chain_map (\<lambda>(row, column). chain (if single_cell ?a then array_at ?a 0 0 else array_at ?a row column) f) (places rows columns) =
      chain_map f vs" for f :: "'a val \<Rightarrow> 'a val answer"
  proof -
    have "chain_map (\<lambda>(row, column). chain (if single_cell ?a then array_at ?a 0 0 else array_at ?a row column) f) (places rows columns) =
        chain_map (\<lambda>(row, column). chain (element vs (row * columns + column)) f) (places rows columns)"
      by (rule chain_map_cong) (auto simp: array_at_place)
    also have "\<dots> = chain_map (\<lambda>i. chain (element vs (int i)) f) [0..<length vs]"
      by (rule chain_map_places [OF s, where f = "\<lambda>i. chain (element vs i) f"])
    also have "\<dots> = chain_map (\<lambda>i. f (vs ! i)) [0..<length vs]" by (rule chain_map_cong) (simp add: element_nth)
    finally show ?thesis by (simp add: chain_map_nth)
  qed
  have one: "array_at (1, 1, [x]) 0 0 = Gives x" "single_cell (1, 1, [x])" by (simp_all add: array_at_def element_def single_cell_def)
  show "evaluateBinary E operator (arrayValue rows columns vs) x =
      chain (chain_map (\<lambda>v. evaluateScalarBinary E operator v x) vs) (\<lambda>us. Gives (arrayValue rows columns us))"
    by (subst evaluateBinary_places [OF _ ta t, of rows columns]) (use s(3) places [of "\<lambda>v. evaluateScalarBinary E operator v x"] in
      \<open>simp_all add: isArrayOperand_def one, simp_all add: single_cell_def\<close>)
  show "evaluateBinary E operator x (arrayValue rows columns vs) =
      chain (chain_map (\<lambda>v. evaluateScalarBinary E operator x v) vs) (\<lambda>us. Gives (arrayValue rows columns us))"
    by (subst evaluateBinary_places [OF _ t ta, of rows columns]) (use s(3) places [of "evaluateScalarBinary E operator x"] in
      \<open>simp_all add: isArrayOperand_def one\<close>)
qed

text \<open>
  C22. Operators on arrays work place by place: of two arrays of the same shape, the result has that shape and at each place what the
  operator gives for the two values there; a single value is met with every value of the array, on its
  side; the first error, in the order of the places, is the result. Arrays of different shapes, none
  of which is a single value, are refused.
\<close>

theorem array_operators_place_by_place:
  assumes s: "0 \<le> rows" "0 \<le> columns" "rows * columns = int (length vs)" and l: "length ws = length vs" and x: "\<not> isArrayOperand x"
  shows "evaluateBinary E operator (arrayValue rows columns vs) (arrayValue rows columns ws) =
      chain (chain_map (\<lambda>(v, w). evaluateScalarBinary E operator v w) (zip vs ws)) (\<lambda>us. Gives (arrayValue rows columns us)) \<and>
    evaluateBinary E operator (arrayValue rows columns vs) x =
      chain (chain_map (\<lambda>v. evaluateScalarBinary E operator v x) vs) (\<lambda>us. Gives (arrayValue rows columns us)) \<and>
    evaluateBinary E operator x (arrayValue rows columns vs) =
      chain (chain_map (\<lambda>v. evaluateScalarBinary E operator x v) vs) (\<lambda>us. Gives (arrayValue rows columns us)) \<and>
    (\<not> single_cell (rows, columns, vs) \<and> \<not> single_cell (rows', columns', us) \<and> (rows', columns') \<noteq> (rows, columns) \<longrightarrow>
      evaluateBinary E operator (arrayValue rows columns vs) (arrayValue rows' columns' us) =
        raise ''#VALUE!'' ''array operands must have the same shape'')"
  using binary_arrays [OF s l] binary_single [OF s x]
  by (auto simp: evaluateBinary_def isArrayOperand_def toArray_def sameShape_def Let_def)

theorem array_operators_place_by_place_witness:
  "evaluateBinary whole_library ''+'' (arrayValue 1 2 [VNumber 1, VNumber 2]) (arrayValue 1 2 [VNumber 10, VBool True]) =
     Gives (arrayValue 1 2 [VNumber 11, VNumber 3]) \<and>
   evaluateBinary whole_library ''-'' (VNumber 1) (arrayValue 1 2 [VNumber 1, VNumber 2]) = Gives (arrayValue 1 2 [VNumber 0, VNumber (- 1)]) \<and>
   evaluateBinary whole_library ''+'' (arrayValue 1 2 [VNumber 1, VNumber 2]) (arrayValue 2 1 [VNil, VNil]) =
     raise ''#VALUE!'' ''array operands must have the same shape''"
proof -
  note claim = array_operators_place_by_place [where rows = 1 and columns = 2 and rows' = 2 and columns' = 1 and E = whole_library
    and vs = "[VNumber 1, VNumber 2]" and ws = "[VNumber 10, VBool True]" and x = "VNumber 1" and us = "[VNil, VNil]"]
  have s: "chain_map (\<lambda>(v, w). evaluateScalarBinary whole_library ''+'' v w) [(VNumber 1, VNumber 10), (VNumber 2, VBool True)] =
      Gives [VNumber 11, VNumber 3]" "chain_map (evaluateScalarBinary whole_library ''-'' (VNumber 1)) [VNumber 1, VNumber 2] = Gives [VNumber 0, VNumber (- 1)]"
    by code_simp+
  from claim [where operator = "''+''"] claim [where operator = "''-''"] show ?thesis
    by (simp add: isArrayOperand_def single_cell_def s del: chain_map.simps)
qed

section \<open>Texts\<close>

text \<open>A library that keeps whole numbers, as floats do up to \<^verbatim>\<open>2^53\<close>.\<close>

definition keeps_whole :: "'f evaluation_library \<Rightarrow> nat \<Rightarrow> bool" where
  "keeps_whole E n = (\<forall>k \<le> n. flToInt E (flOfInt E (int k)) = int k \<and> \<not> evLess E (flOfInt E (int k)) (flOfInt E 0) \<and>
     (0 < k \<longrightarrow> \<not> evLess E (flOfInt E (int k)) (flOfInt E 1)))"

abbreviation whole :: "'f evaluation_library \<Rightarrow> nat \<Rightarrow> 'f val" where
  "whole E k \<equiv> VNumber (flOfInt E (int k))"

lemma text_parts [simp]: "display L (VText t) = t" "toNumber L (VNumber x) = Some x" "omitted (VNumber x) \<longleftrightarrow> False"
  by (simp_all add: display_def toNumber_def omitted_def)

lemma slice_runes: "low \<le> high \<Longrightarrow> high \<le> length text \<Longrightarrow> slice text (int low) (int high) = Gives (VText (concat (take (high - low) (drop low text))))"
  by (simp add: slice_def nat_diff_distrib)

lemma left_cuts:
  assumes "keeps_whole E n" "k \<le> n" "length (runes t) = n"
  shows "evalLeftRight E ''LEFT'' [VText t, whole E k] = Gives (VText (concat (take k (runes t))))"
proof -
  have e: "flToInt E (flOfInt E (int k)) = int k" "\<not> evLess E (flOfInt E (int k)) (flOfInt E 0)" using assms(1,2) by (simp_all add: keeps_whole_def)
  have "slice (runes t) 0 (int k) = Gives (VText (concat (take k (runes t)))) "
    using slice_runes [of 0 k "runes t"] assms(2,3) by simp
  then show ?thesis using assms(2,3) by (simp add: evalLeftRight_def e Let_def)
qed

lemma right_cuts:
  assumes "keeps_whole E n" "k \<le> n" "length (runes t) = n" "int n < 2 ^ 63"
  shows "evalLeftRight E ''RIGHT'' [VText t, whole E k] = Gives (VText (concat (drop (n - k) (runes t))))"
proof -
  have e: "flToInt E (flOfInt E (int k)) = int k" "\<not> evLess E (flOfInt E (int k)) (flOfInt E 0)" using assms(1,2) by (simp_all add: keeps_whole_def)
  have w: "wrap64 (int n - int k) = int (n - k)" using assms(2,4) by (simp add: wrap64_id)
  have "slice (runes t) (int (n - k)) (int n) = Gives (VText (concat (drop (n - k) (runes t))))"
    using slice_runes [of "n - k" n "runes t"] assms(2,3) by simp
  then show ?thesis using assms(2,3) w by (simp add: evalLeftRight_def e Let_def)
qed

lemma mid_cuts:
  assumes "keeps_whole E n" "k + m \<le> n" "length (runes t) = n" "int n < 2 ^ 63" "keeps_whole E (Suc k)"
  shows "evalMID E [VText t, whole E (Suc k), whole E m] = Gives (VText (concat (take m (drop k (runes t)))))"
proof -
  have e: "flToInt E (flOfInt E (int m)) = int m" "\<not> evLess E (flOfInt E (int m)) (flOfInt E 0)"
    "flToInt E (flOfInt E (1 + int k)) = 1 + int k" "\<not> evLess E (flOfInt E (1 + int k)) (flOfInt E 1)"
    using assms(1,2) assms(5) [unfolded keeps_whole_def, rule_format, of "Suc k"] by (simp_all add: keeps_whole_def)
  have w: "wrap64 (int k) = int k" "wrap64 (int k + int m) = int (k + m)" using assms(2,4) by (simp_all add: wrap64_id)
  have "slice (runes t) (int k) (int (k + m)) = Gives (VText (concat (take m (drop k (runes t)))))"
    using slice_runes [of k "k + m" "runes t"] assms(2,3) by simp
  then show ?thesis using assms(2,3) w by (simp add: evalMID_def e Let_def)
qed

text \<open>
  A text is cut between its characters and nothing is lost: for every way to divide a text of \<open>n\<close>
  characters into three, the first \<open>k\<close> that \<^verbatim>\<open>LEFT\<close> gives, the \<open>m\<close> that \<^verbatim>\<open>MID\<close> gives from there on and the
  rest that \<^verbatim>\<open>RIGHT\<close> gives are, one after the other, the characters of the text, in whatever bytes each is
  encoded; a byte that belongs to none counts as one character, the replacement character.
\<close>

lemma text_cut_at_characters:
  assumes "keeps_whole E (Suc n)" "length (runes t) = n" "k + m \<le> n" "int n < 2 ^ 63"
  shows "\<exists>a b c. evalLeftRight E ''LEFT'' [VText t, whole E k] = Gives (VText a) \<and>
    evalMID E [VText t, whole E (Suc k), whole E m] = Gives (VText b) \<and>
    evalLeftRight E ''RIGHT'' [VText t, whole E (n - k - m)] = Gives (VText c) \<and> a @ b @ c = concat (runes t)"
proof -
  have k: "keeps_whole E n" "keeps_whole E (Suc k)" using assms(1,3) by (auto simp: keeps_whole_def)
  have "n - (n - k - m) = k + m" using assms(3) by simp
  moreover have "concat (take k rs) @ concat (take m (drop k rs)) @ concat (drop (k + m) rs) = concat rs" for rs :: "string list"
    by (metis append_take_drop_id concat_append drop_drop add.commute)
  ultimately show ?thesis
    using left_cuts [OF k(1) _ assms(2), of k] mid_cuts [OF k(1) assms(3,2,4) k(2)] right_cuts [OF k(1) _ assms(2,4), of "n - k - m"] assms(3)
    by auto
qed

section \<open>What is stored\<close>

text \<open>A value that may be stored: no function, no error and no omitted argument; arrays have the values of their shape.\<close>

fun array_ok :: "'f val \<Rightarrow> bool" where
  "array_ok (arrayValue rows columns vs) =
     (0 \<le> rows \<and> 0 \<le> columns \<and> int (length vs) = rows * columns \<and> (\<forall>v \<in> set vs. array_ok v \<and> v \<noteq> omittedValue))"
| "array_ok v = True"

definition stored_value :: "'f val \<Rightarrow> bool" where
  "stored_value v =
     (array_ok v \<and> (case v of omittedValue \<Rightarrow> False | functionValue _ \<Rightarrow> False | lambdaValue _ _ _ \<Rightarrow> False | VError _ \<Rightarrow> False | _ \<Rightarrow> True))"

lemma chain_gives: "chain m f = Gives y \<longleftrightarrow> (\<exists>x. m = Gives x \<and> f x = Gives y)"
  by (cases m) simp_all

lemma chain_map_gives: "chain_map f xs = Gives ys \<Longrightarrow> length ys = length xs \<and> (\<forall>y \<in> set ys. \<exists>x \<in> set xs. f x = Gives y)"
proof (induction xs arbitrary: ys)
  case (Cons x xs)
  then show ?case by (fastforce simp: chain_gives)
qed simp

lemma length_places: "0 \<le> rows \<Longrightarrow> 0 \<le> columns \<Longrightarrow> int (length (places rows columns)) = rows * columns"
  using arg_cong [OF places_index [of rows columns], of length] by (simp split: if_splits)

lemma publicValue_ok: "publicValue E v = Gives w \<Longrightarrow> array_ok w \<and> w \<noteq> omittedValue"
proof (induction E v arbitrary: w rule: publicValue.induct)
  case (2 E rows columns vs)
  let ?columns = "if rows = 0 then 0 else columns"
  from "2.prems" obtain ws where s: "0 \<le> rows" "0 \<le> ?columns" "w = arrayValue rows ?columns ws"
    and m: "chain_map (\<lambda>(row, column). answer_at (map (publicValue E) vs) (row * columns + column)) (places rows columns) = Gives ws"
    by (auto simp: Let_def chain_gives split: if_splits)
  have "length (places rows columns) = length (places rows ?columns)" using s by (simp add: places_def)
  with chain_map_gives [OF m] length_places [OF s(1,2)] have "int (length ws) = rows * ?columns" by simp
  moreover have "array_ok x \<and> x \<noteq> omittedValue" if "x \<in> set ws" for x
  proof -
    from chain_map_gives [OF m] that obtain i where "answer_at (map (publicValue E) vs) i = Gives x" by fastforce
    then have "nat i < length vs" "publicValue E (vs ! nat i) = Gives x"
      by (simp_all add: answer_at_def nat_less_iff split: if_splits)
    then show ?thesis by (intro "2.IH" [of "vs ! nat i"]) simp_all
  qed
  ultimately show ?case using s by simp
qed auto

lemma storableResult_value:
  assumes "storableResult E m = Gives u"
  shows "case u of functionValue _ \<Rightarrow> False | lambdaValue _ _ _ \<Rightarrow> False | VError _ \<Rightarrow> False | _ \<Rightarrow> True"
proof -
  from assms obtain v where "m = Gives v" by (auto simp: storableResult_def chain_gives)
  with assms show ?thesis by (cases v) (auto simp: storableResult_def raise_def split: if_splits)
qed



end
