(* ===== verification/Recalculation.thy ===== *)
theory Recalculation
  imports Spill FormulaAnswers "HOL-Library.Product_Lexorder"
begin

text \<open>
  Recalculation after a write: \<^verbatim>\<open>recalculateCellInputs\<close> of \<^verbatim>\<open>internal/workbook/recalculation.go\<close>. The
  submitted cells are put into the sheet, the formulas they lead to are evaluated by the graph
  and the evaluator of the theories before, arrays are spilled, and what spilling changed is
  recalculated, up to eight times. The names, functions, imports and tables of the workbook
  become the scope of the evaluator here (\<^verbatim>\<open>newScope\<close> of \<^verbatim>\<open>internal/formula/scope.go\<close>,
  \<^verbatim>\<open>TableColumns\<close> of \<^verbatim>\<open>sheet_table.go\<close>).

  Sheets are given as identifiers with names, the cells of all sheets as a function; a Go map
  that is only read is an association list, and the sets of keys are lists.
\<close>

section \<open>The names of a workbook\<close>

record 'f nameContext =
  ncRanges :: "(string \<times> range_name) list"
  ncFunctions :: "(string \<times> named_function) list"
  ncImports :: "(string \<times> 'f fetched) list"
  ncExternal :: "(string \<times> 'f fetched) list"
  ncTables :: "(string \<times> formula_table) list"

definition newScope :: "string \<Rightarrow> (string \<times> string) list \<Rightarrow> (string \<times> range_name) list \<Rightarrow> 'f Scope" where
  "newScope currentSheetID sheets ranges =
     \<lparr>spCurrentSheet = to_upper (trim_space currentSheetID),
      spSheets = Some (map (\<lambda>(name, sheetID). (normalizeSheetName name, to_upper (trim_space sheetID))) sheets),
      spNamedRanges = map (\<lambda>(name, target). (normalizeSheetName name,
        \<lparr>rnSheetID = to_upper (trim_space (rnSheetID target)), rnRange = normalizeCellAddress (rnRange target)\<rparr>)) ranges,
      spExtent = [], spAnchor = [], spImports = [], spExternal = [], spNamedFunctions = [], spTables = []\<rparr>"

definition SetNamedFunctions :: "(string \<times> named_function) list \<Rightarrow> 'f Scope \<Rightarrow> 'f Scope" where
  "SetNamedFunctions functions sc =
     sc\<lparr>spNamedFunctions := map (\<lambda>(name, definition). (normalizeSheetName name, definition)) functions\<rparr>"

definition TableDefinitions :: "(string \<times> formula_table) list \<Rightarrow> (string \<times> formula_table) list" where
  "TableDefinitions items = map (\<lambda>(name, item). (normalizeSheetName name, item)) items"

definition SetTables :: "(string \<times> formula_table) list \<Rightarrow> 'f Scope \<Rightarrow> 'f Scope" where
  "SetTables tables sc = sc\<lparr>spTables := TableDefinitions tables\<rparr>"

section \<open>The columns of a table\<close>

text \<open>The name of a column without one: \<^verbatim>\<open>U+C5F4\<close> with its number.\<close>

definition unnamedColumn :: "nat \<Rightarrow> string" where
  "unnamedColumn index = [CHR 0xEC, CHR 0x97, CHR 0xB4] @ itoa (int index + 1)"

text \<open>
  The first free number from two on. The numbers tried are one more than the names taken; the
  lemma below shows that one of them is free.
\<close>

definition freeName :: "string list \<Rightarrow> string \<Rightarrow> string" where
  "freeName taken name =
     (if to_upper name \<notin> set taken then name
      else case find (\<lambda>number. to_upper (name @ itoa (int number)) \<notin> set taken) [2..<length taken + 3] of
          None \<Rightarrow> name
        | Some number \<Rightarrow> name @ itoa (int number))"

fun tableColumnLoop :: "bool \<Rightarrow> string list \<Rightarrow> nat list \<Rightarrow> string list \<Rightarrow> string list" where
  "tableColumnLoop headerRow header [] taken = []"
| "tableColumnLoop headerRow header (index # rest) taken =
     (let written = (if headerRow \<and> index < length header then trim_space (header ! index) else []);
          name = freeName taken (if written = [] then unnamedColumn index else written) in
      name # tableColumnLoop headerRow header rest (to_upper name # taken))"

definition TableColumns :: "string \<Rightarrow> bool \<Rightarrow> string list \<Rightarrow> string list" where
  "TableColumns a1 headerRow header =
     (case Parse a1 of
        Inl _ \<Rightarrow> []
      | Inr parsed \<Rightarrow> tableColumnLoop headerRow header [0..<nat (Column (End parsed) - Column (Start parsed) + 1)] [])"

section \<open>What recalculation takes from elsewhere\<close>

text \<open>
  The library of functions and the depth of the stack, decoding a stored value into a value of
  the evaluator and into a text, beside the encoding of the theory before.
\<close>

record 'f recalc_tools = "'f val spill_codec" +
  rtLibrary :: "'f evaluation_library"
  rtDepth :: nat
  rtDecode :: "string \<Rightarrow> 'f val option"
  rtText :: "string \<Rightarrow> string option"

abbreviation codec :: "'f recalc_tools \<Rightarrow> 'f val spill_codec" where
  "codec \<equiv> spill_codec.truncate"

definition quoteChar :: char where
  "quoteChar = CHR 0x22"

definition unquoted :: "string \<Rightarrow> string" where
  "unquoted s = rev (dropWhile (\<lambda>c. c = quoteChar) (rev (dropWhile (\<lambda>c. c = quoteChar) s)))"

definition headerText :: "'f recalc_tools \<Rightarrow> Cell \<Rightarrow> string" where
  "headerText T cell =
     (if ceValue cell = [] then []
      else case rtText T (ceValue cell) of
          Some t \<Rightarrow> trim_space t
        | None \<Rightarrow> trim_space (unquoted (ceValue cell)))"

definition tableWithColumns ::
  "'f recalc_tools \<Rightarrow> (string \<Rightarrow> sheet_cells) \<Rightarrow> formula_table \<Rightarrow> formula_table option" where
  "tableWithColumns T cells table =
     (case Parse (ftRange table) of
        Inl _ \<Rightarrow> None
      | Inr selected \<Rightarrow>
          let header = map (\<lambda>column. headerText T (cell_at (cells (ftSheetID table)) (Row (Start selected), column)))
                [Column (Start selected) .. Column (End selected)] in
          Some (table\<lparr>ftColumns := TableColumns (ftRange table) (ftHeaderRow table) header\<rparr>))"

definition tablesWithColumns ::
  "'f recalc_tools \<Rightarrow> (string \<times> formula_table) list \<Rightarrow> (string \<Rightarrow> sheet_cells) \<Rightarrow> (string \<times> formula_table) list" where
  "tablesWithColumns T tables cells =
     List.map_filter (\<lambda>(name, table). map_option (Pair name) (tableWithColumns T cells table)) tables"

definition tableHeaderTouched :: "(string \<times> formula_table) list \<Rightarrow> scopedCellKey list \<Rightarrow> bool" where
  "tableHeaderTouched tables changed =
     list_ex (\<lambda>(name, table). ftHeaderRow table \<and>
       (case Parse (ftRange table) of
          Inl _ \<Rightarrow> False
        | Inr selected \<Rightarrow>
            list_ex (\<lambda>(sheetID, row, column). sheetID = ftSheetID table \<and> row = Row (Start selected) \<and>
              Column (Start selected) \<le> column \<and> column \<le> Column (End selected)) changed)) tables"

section \<open>The submitted cells\<close>

record submit_state =
  suCells :: sheet_cells
  suKeys :: "cellKey list"
  suChanged :: "scopedCellKey list"
  suIndex :: "string \<Rightarrow> cellKey list"

definition submitInput :: "string \<Rightarrow> CellInput \<Rightarrow> submit_state \<Rightarrow> submit_state result" where
  "submitInput currentSheetID input st =
     (let key = (ciRow input, ciColumn input); earlier = cell_at (suCells st) key; address = spill_source key in
      if key \<in> set (suKeys st) then Inl ErrInvalid
      else if ceSpillSource earlier \<noteq> [] \<and> ciSpillSource input \<noteq> ceSpillSource earlier then Inl ErrInvalid
      else case clearSpilledKeys (suIndex st address) (suCells st) of (cells, cleared) \<Rightarrow>
        let input = (if ciFormula input \<noteq> [] then input\<lparr>ciValue := [], ciSpillSource := []\<rparr> else input) in
        Inr \<lparr>suCells = put_cell key (cellFromInput currentSheetID 0 input) cells, suKeys = key # suKeys st,
          suChanged = suChanged st @ map (Pair currentSheetID) cleared @ [(currentSheetID, key)],
          suIndex = (suIndex st)(address := [])\<rparr>)"

fun submitLoop :: "string \<Rightarrow> CellInput list \<Rightarrow> submit_state \<Rightarrow> submit_state result" where
  "submitLoop currentSheetID [] st = Inr st"
| "submitLoop currentSheetID (input # rest) st = bind_result (submitInput currentSheetID input st) (submitLoop currentSheetID rest)"

text \<open>The formulas that are recalculated although nothing they name has changed.\<close>

definition calculated_anyway :: "bool \<Rightarrow> Cell \<Rightarrow> bool" where
  "calculated_anyway forceAll cell =
     (ceFormula cell \<noteq> [] \<and>
      (trim_space (ceValue cell) = [quoteChar] @ ''#SPILL!'' @ [quoteChar] \<or> forceAll \<or> IsVolatile (ceFormula cell)))"

definition scoped_cells :: "string list \<Rightarrow> (string \<Rightarrow> sheet_cells) \<Rightarrow> (scopedCellKey \<times> Cell) list" where
  "scoped_cells ids cells = concat (map (\<lambda>sheetID. map (\<lambda>(key, cell). ((sheetID, key), cell)) (cells sheetID)) ids)"

section \<open>One round\<close>

definition stateOf ::
  "'f recalc_tools \<Rightarrow> (string \<times> formula_error) list \<Rightarrow> scopedCellKey \<times> Cell \<Rightarrow> (string \<times> 'f val CellState) result" where
  "stateOf T forced entry =
     (case entry of ((sheetID, row, column), cell) \<Rightarrow>
        let address = CellKey sheetID (Address row column) in
        case (if ceValue cell = [] then Some VNil else rtDecode T (ceValue cell)) of
          None \<Rightarrow> Inl ErrInvalid
        | Some v \<Rightarrow> Inr (address, \<lparr>gsValue = v, gsFormula = ceFormula cell, gsForcedError = map_of forced address\<rparr>))"

definition formulaStates ::
  "'f recalc_tools \<Rightarrow> string list \<Rightarrow> (string \<Rightarrow> sheet_cells) \<Rightarrow> (string \<times> formula_error) list \<Rightarrow> (string \<times> 'f val CellState) list result" where
  "formulaStates T ids cells forced = collect (stateOf T forced) (scoped_cells ids cells)"

definition addressesFromKeys :: "scopedCellKey list \<Rightarrow> string list" where
  "addressesFromKeys keys = sort (map (\<lambda>(sheetID, row, column). CellKey sheetID (Address row column)) (remdups keys))"

definition formulaErrorResult :: "string \<Rightarrow> string \<Rightarrow> cellKey \<Rightarrow> formula_error \<Rightarrow> CellFormulaError" where
  "formulaErrorResult currentSheetID sheetID key e =
     \<lparr>feSheetID = (if sheetID \<noteq> currentSheetID then sheetID else []), feRow = fst key, feColumn = snd key,
      feCode = ferCode e, feMessage = ferMessage e\<rparr>"

definition formulaResultMatrix :: "'f val \<Rightarrow> 'f val list list option" where
  "formulaResultMatrix v =
     (case v of
        arrayValue rows columns vs \<Rightarrow>
          Some (map (\<lambda>row. take (nat columns) (drop (row * nat columns) vs)) [0..<nat rows])
      | _ \<Rightarrow> None)"

record round_state =
  rdCells :: "string \<Rightarrow> sheet_cells"
  rdForced :: "(string \<times> formula_error) list"
  rdErrors :: "(scopedCellKey \<times> CellFormulaError) list"
  rdRecalculated :: "scopedCellKey list"
  rdNext :: "scopedCellKey list"

text \<open>The cells of a sheet are replaced; the keys are to be recalculated next, and are among the recalculated.\<close>

definition change_sheet :: "string \<Rightarrow> sheet_cells \<Rightarrow> cellKey list \<Rightarrow> round_state \<Rightarrow> round_state" where
  "change_sheet sheetID cells keys st =
     st\<lparr>rdCells := (rdCells st)(sheetID := cells), rdRecalculated := rdRecalculated st @ map (Pair sheetID) keys,
       rdNext := rdNext st @ map (Pair sheetID) keys\<rparr>"

definition show_error ::
  "'f recalc_tools \<Rightarrow> string \<Rightarrow> string \<Rightarrow> string \<Rightarrow> cellKey \<Rightarrow> formula_error \<Rightarrow> round_state \<Rightarrow> round_state" where
  "show_error T currentSheetID sheetID address key e st =
     (let cell = (cell_at (rdCells st sheetID) key)\<lparr>ceValue := scQuote T (ferCode e), ceSpillSource := []\<rparr> in
      case clearSpillCells address (rdCells st sheetID) of (cells, cleared) \<Rightarrow>
        (change_sheet sheetID (AList.update key cell cells) cleared st)
          \<lparr>rdErrors := AList.update (sheetID, key) (formulaErrorResult currentSheetID sheetID key e) (rdErrors st)\<rparr>)"

definition show_array ::
  "'f recalc_tools \<Rightarrow> string \<Rightarrow> string \<Rightarrow> string \<Rightarrow> cellKey \<Rightarrow> 'f val list list \<Rightarrow> round_state \<Rightarrow> round_state result" where
  "show_array T currentSheetID sheetID result_address key matrix st =
     bind_result (materializeSpill (codec T) key matrix (rdCells st sheetID)) (\<lambda>(cells, changed, message).
       let st = change_sheet sheetID cells changed st; forced = formulaError ''#SPILL!'' message in
       Inr (if message \<noteq> []
            then st\<lparr>rdForced := AList.update result_address forced (rdForced st),
                   rdErrors := AList.update (sheetID, key) (formulaErrorResult currentSheetID sheetID key forced) (rdErrors st),
                   rdNext := rdNext st @ [(sheetID, key)]\<rparr>
            else st\<lparr>rdForced := AList.delete result_address (rdForced st)\<rparr>))"

definition show_value ::
  "'f recalc_tools \<Rightarrow> string \<Rightarrow> string \<Rightarrow> string \<Rightarrow> cellKey \<Rightarrow> 'f val \<Rightarrow> round_state \<Rightarrow> round_state result" where
  "show_value T sheetID result_address address key v st =
     (case clearSpillCells address (rdCells st sheetID) of (cells, cleared) \<Rightarrow>
        bind_result (scEncode T v) (\<lambda>encoded.
          Inr ((change_sheet sheetID
              (AList.update key ((cell_at cells key)\<lparr>ceValue := encoded, ceSpillSource := []\<rparr>) cells) cleared st)
                \<lparr>rdForced := AList.delete result_address (rdForced st)\<rparr>)))"

definition calculated_value :: "'f val RecalculatedCell \<Rightarrow> 'f val" where
  "calculated_value result = (case rcValue result of None \<Rightarrow> VNil | Some v \<Rightarrow> v)"

definition show_result ::
  "'f recalc_tools \<Rightarrow> string \<Rightarrow> string \<Rightarrow> string \<Rightarrow> cellKey \<Rightarrow> 'f val RecalculatedCell \<Rightarrow> round_state \<Rightarrow> round_state result" where
  "show_result T currentSheetID sheetID address key result st =
     (case rcError result of
        Some e \<Rightarrow> Inr (show_error T currentSheetID sheetID address key e st)
      | None \<Rightarrow>
          (case formulaResultMatrix (calculated_value result) of
             Some matrix \<Rightarrow>
               show_array T currentSheetID sheetID (rcAddress result) key matrix
                 (st\<lparr>rdErrors := AList.delete (sheetID, key) (rdErrors st)\<rparr>)
           | None \<Rightarrow>
               show_value T sheetID (rcAddress result) address key (calculated_value result)
                 (st\<lparr>rdErrors := AList.delete (sheetID, key) (rdErrors st)\<rparr>)))"

definition applyResult ::
  "'f recalc_tools \<Rightarrow> (string \<times> string) list \<Rightarrow> string \<Rightarrow> 'f val RecalculatedCell \<Rightarrow> round_state \<Rightarrow> round_state result" where
  "applyResult T sheetIDs currentSheetID result st =
     (case SplitCellKey (rcAddress result) of (formulaSheetID, address, proper) \<Rightarrow>
        case (map_of sheetIDs formulaSheetID, Parse address) of
          (Some sheetID, Inr selected) \<Rightarrow>
            (let key = (Row (Start selected), Column (Start selected)) in
             if \<not> proper then Inl ErrInvalid
             else show_result T currentSheetID sheetID address key result
               (st\<lparr>rdRecalculated := rdRecalculated st @ [(sheetID, key)]\<rparr>))
        | _ \<Rightarrow> Inl ErrInvalid)"

fun applyResults ::
  "'f recalc_tools \<Rightarrow> (string \<times> string) list \<Rightarrow> string \<Rightarrow> 'f val RecalculatedCell list \<Rightarrow> round_state \<Rightarrow> round_state result" where
  "applyResults T sheetIDs currentSheetID [] st = Inr st"
| "applyResults T sheetIDs currentSheetID (result # rest) st =
     bind_result (applyResult T sheetIDs currentSheetID result st) (applyResults T sheetIDs currentSheetID rest)"

section \<open>Until nothing changes\<close>

text \<open>Eight rounds at most, as the source has it; a workbook that has not settled then is refused.\<close>

fun stabilize ::
  "nat \<Rightarrow> 'f recalc_tools \<Rightarrow> ('f node, 'f val) formula_engine \<Rightarrow> string list \<Rightarrow> (string \<times> string) list \<Rightarrow> string \<Rightarrow>
   scopedCellKey list \<Rightarrow> round_state \<Rightarrow> round_state result" where
  "stabilize 0 T evaluator ids sheetIDs currentSheetID pending st = Inl ErrInvalid"
| "stabilize (Suc rounds) T evaluator ids sheetIDs currentSheetID pending st =
     bind_result (formulaStates T ids (rdCells st) (rdForced st)) (\<lambda>states.
       case Recalculate evaluator states (addressesFromKeys pending) of
         Inl _ \<Rightarrow> Inl ErrInvalid
       | Inr graph \<Rightarrow>
           bind_result (applyResults T sheetIDs currentSheetID (grCells graph) (st\<lparr>rdNext := []\<rparr>)) (\<lambda>st.
             if rdNext st = [] then Inr st else stabilize rounds T evaluator ids sheetIDs currentSheetID (rdNext st) st))"

definition recalculationRounds :: nat where
  "recalculationRounds = 8"

section \<open>What is to be written, and what is reported\<close>

definition changedCellInputs ::
  "string list \<Rightarrow> (string \<Rightarrow> sheet_cells) \<Rightarrow> (string \<Rightarrow> sheet_cells) \<Rightarrow> scopedCellKey list \<Rightarrow> CellInput list" where
  "changedCellInputs ids existing prospective submitted =
     (let keys = remdups (map fst (scoped_cells ids existing) @ map fst (scoped_cells ids prospective) @ submitted);
          required = filter (\<lambda>(sheetID, key). (sheetID, key) \<in> set submitted \<or>
            \<not> cellsEqual (cell_at (existing sheetID) key) (cell_at (prospective sheetID) key)) keys in
      map (\<lambda>(sheetID, row, column).
        (inputFromCell row column (cell_at (prospective sheetID) (row, column)))\<lparr>ciSheetID := sheetID\<rparr>) (sort required))"

definition coordinatesFromKeys :: "string \<Rightarrow> scopedCellKey list \<Rightarrow> CellCoordinate list" where
  "coordinatesFromKeys currentSheetID keys =
     sort_key (\<lambda>c. (ccSheetID c, ccRow c, ccColumn c))
       (map (\<lambda>(sheetID, row, column). \<lparr>ccSheetID = (if sheetID \<noteq> currentSheetID then sheetID else []), ccRow = row, ccColumn = column\<rparr>)
         (remdups keys))"

definition workbookEvaluator ::
  "'f recalc_tools \<Rightarrow> 'f nameContext \<Rightarrow> (string \<times> string) list \<Rightarrow> (string \<Rightarrow> sheet_cells) \<Rightarrow> ('f node, 'f val) formula_engine" where
  "workbookEvaluator T names sheets prospective =
     (let scope = (newScope [] (map (\<lambda>(sheetID, name). (name, sheetID)) sheets) (ncRanges names))
            \<lparr>spImports := ncImports names, spExternal := ncExternal names\<rparr> in
      sheet_engine (rtLibrary T)
        (SetTables (tablesWithColumns T (ncTables names) prospective) (SetNamedFunctions (ncFunctions names) scope)) (rtDepth T))"

definition recalculateCellInputs ::
  "'f recalc_tools \<Rightarrow> (string \<times> string) list \<Rightarrow> (string \<Rightarrow> sheet_cells) \<Rightarrow> string \<Rightarrow> CellInput list \<Rightarrow> bool \<Rightarrow> 'f nameContext \<Rightarrow>
   (CellInput list \<times> CellCoordinate list \<times> CellFormulaError list) result" where
  "recalculateCellInputs T sheets existing currentSheetID submitted forceAll names =
     (if currentSheetID \<notin> fst ` set sheets then Inl ErrNotFound
      else bind_result (submitLoop currentSheetID submitted
          \<lparr>suCells = existing currentSheetID, suKeys = [], suChanged = [], suIndex = spillIndex (existing currentSheetID)\<rparr>) (\<lambda>written.
        let ids = map fst sheets;
            prospective = existing(currentSheetID := suCells written);
            forceAll = (forceAll \<or> tableHeaderTouched (ncTables names) (suChanged written));
            again = map fst (filter (\<lambda>(key, cell). calculated_anyway forceAll cell) (scoped_cells ids prospective));
            sheetIDs = map (\<lambda>sheetID. (to_upper sheetID, sheetID)) ids in
        bind_result (stabilize recalculationRounds T (workbookEvaluator T names sheets prospective) ids sheetIDs currentSheetID
            (suChanged written @ again)
            \<lparr>rdCells = prospective, rdForced = [], rdErrors = [], rdRecalculated = [], rdNext = []\<rparr>) (\<lambda>st.
          Inr (changedCellInputs ids existing (rdCells st) (map (Pair currentSheetID) (suKeys written)),
            coordinatesFromKeys currentSheetID (rdRecalculated st),
            sort_key (\<lambda>e. (feSheetID e, feRow e, feColumn e)) (map snd (rdErrors st))))))"

section \<open>Columns of tables\<close>

lemma to_upper_digits: "all_digits s \<Longrightarrow> to_upper s = s"
  by (rule to_upper_id) (auto simp: all_digits_def list_all_iff is_digit_byte_def is_lower_byte_def)

lemma numbered_inj: "to_upper (name @ itoa (int a)) = to_upper (name @ itoa (int b)) \<longleftrightarrow> a = b"
proof
  assume "to_upper (name @ itoa (int a)) = to_upper (name @ itoa (int b))"
  then have "to_upper (itoa (int a)) = to_upper (itoa (int b))" by (simp add: to_upper_def)
  then have "itoa (int a) = itoa (int b)" by (simp add: to_upper_digits)
  from itoa_inj_nonneg [OF _ _ this] show "a = b" by simp
qed simp

lemma freeName_free: "to_upper (freeName taken name) \<notin> set taken"
proof (cases "to_upper name \<in> set taken")
  case True
  let ?numbered = "\<lambda>number. to_upper (name @ itoa (int number))"
  have "inj_on ?numbered (set [2..<length taken + 3])"
    by (simp add: inj_on_def numbered_inj)
  then have "card (?numbered ` set [2..<length taken + 3]) = length taken + 1" by (simp add: card_image)
  moreover have "card (set taken) \<le> length taken" by (rule card_length)
  ultimately have "\<not> ?numbered ` set [2..<length taken + 3] \<subseteq> set taken"
    using card_mono [of "set taken" "?numbered ` set [2..<length taken + 3]"] by auto
  then have "find (\<lambda>number. ?numbered number \<notin> set taken) [2..<length taken + 3] \<noteq> None"
    by (auto simp: find_None_iff)
  then obtain number where n: "find (\<lambda>number. ?numbered number \<notin> set taken) [2..<length taken + 3] = Some number" by blast
  then have "?numbered number \<notin> set taken" by (auto simp: find_Some_iff)
  with True n show ?thesis by (simp add: freeName_def)
qed (simp add: freeName_def)

lemma tableColumnLoop_names:
  "length (tableColumnLoop headerRow header indices taken) = length indices \<and>
   distinct (map to_upper (tableColumnLoop headerRow header indices taken)) \<and>
   set (map to_upper (tableColumnLoop headerRow header indices taken)) \<inter> set taken = {}"
proof (induction headerRow header indices taken rule: tableColumnLoop.induct)
  case (2 headerRow header index rest taken)
  define name where "name = freeName taken (if (if headerRow \<and> index < length header then trim_space (header ! index) else []) = []
    then unnamedColumn index else if headerRow \<and> index < length header then trim_space (header ! index) else [])"
  from "2.IH" [OF refl, of name] freeName_free [of taken] show ?case
    by (auto simp: Let_def name_def)
qed simp

lemma lead_space_stays:
  "s \<noteq> [] \<Longrightarrow> lead_space s = 0 \<Longrightarrow> is_digit_byte c \<Longrightarrow> lead_space (s @ c # t) = 0"
  by (cases s rule: lead_space.cases; cases t) (auto simp: space2_def space3_def is_digit_byte_def split: if_splits)

lemma trimmed_lead:
  assumes "trim_space s = s"
  shows "lead_space s = 0"
proof (rule ccontr)
  assume l: "lead_space s \<noteq> 0"
  then have "s \<noteq> []" by auto
  obtain n where n: "strip lead_space (drop (lead_space s) s) = drop n (drop (lead_space s) s)" using strip_suffix by blast
  have "strip lead_space s = strip lead_space (drop (lead_space s) s)" using l \<open>s \<noteq> []\<close> by (simp add: strip.simps [of lead_space s])
  with n l \<open>s \<noteq> []\<close> have shorter: "length (strip lead_space s) < length s" by simp
  obtain m where "strip trail_space (rev (strip lead_space s)) = drop m (rev (strip lead_space s))" using strip_suffix by blast
  then have "length (trim_space s) \<le> length (strip lead_space s)" by (simp add: trim_space_def)
  with shorter assms show False by simp
qed

lemma trimmed_numbered:
  assumes "s \<noteq> []" "lead_space s = 0"
  shows "trim_space (s @ itoa (int n)) = s @ itoa (int n)"
proof -
  have d: "list_all is_digit_byte (itoa (int n))" "itoa (int n) \<noteq> []"
    using itoa_pos_digits [of "int n"] by (simp_all add: all_digits_def)
  then obtain c t where c: "itoa (int n) = c # t" "is_digit_byte c" by (cases "itoa (int n)") auto
  obtain u e where e: "itoa (int n) = u @ [e]" "is_digit_byte e" using d by (cases "itoa (int n)" rule: rev_cases) auto
  have "strip lead_space (s @ itoa (int n)) = s @ itoa (int n)"
    using lead_space_stays [OF assms c(2), of t] by (simp add: strip_stop c(1))
  moreover have "trail_space (e # rev u @ rev s) = 0"
    using e(2) by (intro trail_space_ascii) (auto simp: is_digit_byte_def ascii_space_def)
  ultimately show ?thesis by (simp add: trim_space_def e(1) strip_stop)
qed

lemma unnamed_trimmed: "trim_space (unnamedColumn i) = unnamedColumn i"
proof -
  have "lead_space [CHR 0xEC, CHR 0x97, CHR 0xB4] = 0" by code_simp
  from trimmed_numbered [OF _ this, of "i + 1"] show ?thesis by (simp add: unnamedColumn_def add.commute)
qed

lemma unnamed_Nil [simp]: "unnamedColumn i \<noteq> []"
  by (simp add: unnamedColumn_def)

lemma freeName_trimmed:
  assumes "trim_space name = name" "name \<noteq> []"
  shows "trim_space (freeName taken name) = freeName taken name"
  using trimmed_numbered [OF assms(2) trimmed_lead [OF assms(1)]]
  by (auto simp: freeName_def assms(1) split: option.split)

lemma tableColumnLoop_trimmed: "name \<in> set (tableColumnLoop headerRow header indices taken) \<Longrightarrow> trim_space name = name"
proof (induction headerRow header indices taken rule: tableColumnLoop.induct)
  case (2 headerRow header index rest taken)
  let ?written = "if headerRow \<and> index < length header then trim_space (header ! index) else []"
  let ?name = "freeName taken (if ?written = [] then unnamedColumn index else ?written)"
  have "trim_space ?name = ?name"
    by (rule freeName_trimmed) (auto simp: unnamed_trimmed)
  with 2 show ?case by (auto simp: Let_def)
qed simp

lemma tableColumnIndex_distinct:
  "distinct (map normalizeSheetName columns) \<Longrightarrow> i < length columns \<Longrightarrow> tableColumnIndex columns (columns ! i) = Some (int i)"
proof (induction columns arbitrary: i)
  case (Cons column columns)
  then show ?case
  proof (cases i)
    case (Suc j)
    with Cons.prems have "normalizeSheetName column \<noteq> normalizeSheetName (columns ! j)"
      by (metis distinct.simps(2) length_Cons less_Suc_eq_0_disj list.simps(9) nat.inject nth_map nth_mem length_map nat.distinct(1))
    with Cons Suc show ?thesis by simp
  qed simp
qed simp

text \<open>
  C38. Every column of a table can be named. The columns that the header row of a table gives are as many as the table has, and
  looking up the name of a column finds that column and no other, although headers may be empty, equal, equal but for
  case, or equal to a number given to another: the names differ in more than case, and the search for a free number ends.
\<close>

theorem table_columns_can_be_named:
  assumes "Parse a1 = Inr parsed" "i < length (TableColumns a1 headerRow header)"
  shows "int (length (TableColumns a1 headerRow header)) = Column (End parsed) - Column (Start parsed) + 1 \<and>
    tableColumnIndex (TableColumns a1 headerRow header) (TableColumns a1 headerRow header ! i) = Some (int i)"
proof -
  let ?indices = "[0..<nat (Column (End parsed) - Column (Start parsed) + 1)]"
  have t: "TableColumns a1 headerRow header = tableColumnLoop headerRow header ?indices []"
    using assms(1) by (simp add: TableColumns_def)
  have n: "map normalizeSheetName (tableColumnLoop headerRow header ?indices []) =
      map to_upper (tableColumnLoop headerRow header ?indices [])"
    by (rule map_cong [OF refl]) (simp add: normalizeSheetName_def tableColumnLoop_trimmed)
  have o: "Column (Start parsed) \<le> Column (End parsed)" using Parse_ordered [OF assms(1)] by simp
  have "distinct (map normalizeSheetName (TableColumns a1 headerRow header))" unfolding t n using tableColumnLoop_names by blast
  from tableColumnIndex_distinct [OF this assms(2)] o tableColumnLoop_names [of headerRow header ?indices "[]"] show ?thesis
    by (simp add: t)
qed

theorem table_columns_can_be_named_witness:
  "TableColumns ''A1:D9'' True [''price'', ''Price '', [], ''PRICE2''] = [''price'', ''Price2'', unnamedColumn 2, ''PRICE22''] \<and>
   tableColumnIndex (TableColumns ''A1:D9'' True [''price'', ''Price '', [], ''PRICE2''])
     (TableColumns ''A1:D9'' True [''price'', ''Price '', [], ''PRICE2''] ! 3) = Some 3"
proof -
  have t: "TableColumns ''A1:D9'' True [''price'', ''Price '', [], ''PRICE2''] = [''price'', ''Price2'', unnamedColumn 2, ''PRICE22'']"
    by code_simp
  have p: "Parse ''A1:D9'' = Inr \<lparr>Start = \<lparr>Row = 1, Column = 1\<rparr>, End = \<lparr>Row = 9, Column = 4\<rparr>\<rparr>" by code_simp
  have "3 < length (TableColumns ''A1:D9'' True [''price'', ''Price '', [], ''PRICE2''])" by (simp add: t)
  from conjunct2 [OF table_columns_can_be_named [OF p this]] t show ?thesis by simp
qed

end
