(* ===== verification/RecalculationRuns.thy ===== *)
theory RecalculationRuns
  imports Recalculation
begin

text \<open>
  What the rounds of a recalculation leave alone: the results of the graph are those of formulas, the
  keys of cells lead back to their sheets and places, and a cell with a value that somebody typed
  is neither overwritten by an array nor cleared with one.
\<close>

section \<open>The results are those of formulas\<close>

definition own_results :: "'v dfs \<Rightarrow> bool" where
  "own_results st = (\<forall>a rc. map_of (dfResults st) a = Some rc \<longrightarrow> rcAddress rc = a)"

lemma own_results_search:
  "calculate en normalized g affected fuel a st = Some st' \<Longrightarrow> own_results st \<Longrightarrow> own_results st'"
  "calculateAll en normalized g affected fuel as st = Some st' \<Longrightarrow> own_results st \<Longrightarrow> own_results st'"
proof (induction en normalized g affected fuel a st and en normalized g affected fuel as st
    arbitrary: st' and st' rule: calculate_calculateAll.induct)
  case (2 en normalized g affected fuel a st)
  show ?case
  proof (cases "dfMarks st a")
    case Visiting
    with "2.prems" show ?thesis by (auto simp: own_results_def markCycle_def markMembers_results split: if_splits)
  next
    case Unvisited
    obtain st2 where c: "calculateAll en normalized g affected fuel (filter (to_visit g affected) (deps_of g a)) (enter a st) = Some st2"
      and st': "st' = finish en normalized g a st2"
      using "2.prems"(1) Unvisited by auto
    have "own_results (enter a st)" using "2.prems"(2) by (simp add: own_results_def enter_def)
    from "2.IH" [OF Unvisited c this] show ?thesis
      by (auto simp: st' own_results_def finish_def Let_def set_result_def update_conv' split: if_splits option.splits)
  qed (use "2.prems" in simp)
next
  case (4 en normalized g affected fuel a as st)
  obtain st1 where "calculate en normalized g affected fuel a st = Some st1"
    "calculateAll en normalized g affected fuel as st1 = Some st'"
    using "4.prems"(1) by (cases "calculate en normalized g affected fuel a st") simp_all
  with "4.IH"(1) [of st1] "4.IH"(2) [of st1 st'] "4.prems"(2) show ?case by simp
qed auto

lemma in_map_filter: "y \<in> set (List.map_filter f xs) \<Longrightarrow> \<exists>x \<in> set xs. f x = Some y"
  by (induction xs) (auto simp: map_filter_simps split: option.splits)

lemma Recalculate_formulas:
  assumes "Recalculate en states changed = Inr r" "rc \<in> set (grCells r)"
  obtains normalized cell where "normalizeLoop states [] = Inr normalized" "map_of normalized (rcAddress rc) = Some cell"
    "trim_space (gsFormula cell) \<noteq> []"
proof -
  obtain normalized g affected where n: "normalizeLoop states [] = Inr normalized"
    and p: "prepare_graph en normalized changed = Inr (g, affected)" and e: "evaluate_graph en normalized g affected = Inr r"
    using assms by (auto simp: Recalculate_def bind_result_eq_Inr split: if_splits)
  note parts = Recalculate_parts [OF n p]
  obtain st where s: "calculateAll en normalized g affected (Suc (Suc (length affected))) (sort affected) (start_dfs en normalized) = Some st"
    and r: "grCells r = List.map_filter (map_of (dfResults st)) (sort affected)"
    using e by (auto simp: evaluate_graph_def Let_def split: option.splits)
  have "own_results st" by (rule own_results_search(2) [OF s]) (simp add: own_results_def start_dfs_def)
  with in_map_filter [OF assms(2) [unfolded r]] have "rcAddress rc \<in> set affected" by (auto simp: own_results_def)
  with parts(4) have v: "to_visit g affected (rcAddress rc)" by blast
  obtain cell where "map_of normalized (rcAddress rc) = Some cell" "trim_space (gsFormula cell) \<noteq> []"
    using graph_entries [OF parts(2,1), of "rcAddress rc"] v
    by (auto simp: to_visit_def entry_of_def graph_entry_def split: option.splits if_splits)
  with n show thesis by (rule that)
qed

section \<open>The keys of a workbook\<close>

definition id_char :: "char \<Rightarrow> bool" where
  "id_char c = (is_upper_byte c \<or> is_lower_byte c \<or> is_digit_byte c \<or> c = CHR ''-'')"

text \<open>Identifiers of letters, digits and hyphens that differ in more than case.\<close>

definition sheet_ids_ok :: "(string \<times> string) list \<Rightarrow> bool" where
  "sheet_ids_ok sheets =
     (list_all (\<lambda>(sheetID, name). sheetID \<noteq> [] \<and> list_all id_char sheetID) sheets \<and> distinct (map (to_upper \<circ> fst) sheets))"

lemma id_char_upper: "id_char c \<Longrightarrow> id_char (upper_byte c)"
  by (auto simp: id_char_def upper_byte_def is_lower_byte_def is_upper_byte_def)

lemma id_char_plain: "id_char c \<Longrightarrow> \<not> ascii_space (byte c) \<and> byte c < (128 :: nat) \<and> c \<noteq> CHR ''!'' \<and> c \<noteq> CHR ''$''"
  by (auto simp: id_char_def is_upper_byte_def is_lower_byte_def is_digit_byte_def ascii_space_def)

lemma id_trim:
  assumes "sheetID \<noteq> []" "list_all id_char sheetID"
  shows "trim_space sheetID = sheetID"
  using assms id_char_plain [of "hd sheetID"] id_char_plain [of "last sheetID"]
  by (intro trim_space_id) (auto simp: list_all_iff)

lemma sheet_ids_found:
  assumes "sheet_ids_ok sheets" "sheetID \<in> fst ` set sheets"
  shows "map_of (map (\<lambda>sheetID. (to_upper sheetID, sheetID)) (map fst sheets)) (to_upper sheetID) = Some sheetID"
  using assms by (intro map_of_is_SomeI) (auto simp: sheet_ids_ok_def comp_def)

definition grid_key :: "cellKey \<Rightarrow> bool" where
  "grid_key key = in_sheet \<lparr>Row = fst key, Column = snd key\<rparr>"

lemma grid_Address:
  assumes "grid_key (row, column)"
  shows "normalizeCellAddress (Address row column) = Address row column" "Address row column \<noteq> []"
    "Parse (Address row column) = Inr \<lparr>Start = \<lparr>Row = row, Column = column\<rparr>, End = \<lparr>Row = row, Column = column\<rparr>\<rparr>"
proof -
  have b: "1 \<le> row" "1 \<le> column" using assms by (simp_all add: grid_key_def in_sheet_def)
  have "\<forall>c \<in> set (Address row column). c \<noteq> CHR ''$''"
    using Address_bytes [of row column] by (auto simp: list_all_iff address_byte_facts)
  then show "normalizeCellAddress (Address row column) = Address row column"
    by (simp add: normalizeCellAddress_def Address_trim [OF b] Address_upper filter_True)
  show "Address row column \<noteq> []" by (rule Address_not_Nil [OF b])
  show "Parse (Address row column) = Inr \<lparr>Start = \<lparr>Row = row, Column = column\<rparr>, End = \<lparr>Row = row, Column = column\<rparr>\<rparr>"
    using Parse_Address [of "\<lparr>Row = row, Column = column\<rparr>"] assms by (simp add: grid_key_def)
qed

lemma address_byte_bang: "address_byte c \<Longrightarrow> c \<noteq> CHR ''!''"
  by (auto simp: address_byte_def is_upper_byte_def is_digit_byte_def)

lemma CellKey_split:
  assumes "sheetID \<noteq> []" "list_all id_char sheetID" "grid_key (row, column)"
  shows "\<exists>proper. SplitCellKey (CellKey sheetID (Address row column)) = (to_upper sheetID, Address row column, proper)"
    and "validKey (normalizeAddress (CellKey sheetID (Address row column))) \<Longrightarrow>
      normalizeAddress (CellKey sheetID (Address row column)) = CellKey sheetID (Address row column)"
proof -
  let ?A = "Address row column" let ?S = "to_upper sheetID" let ?key = "?S @ CHR ''!'' # ?A"
  note A = grid_Address [OF assms(3)]
  have k: "CellKey sheetID ?A = ?key" using assms(1) by (simp add: CellKey_def id_trim [OF assms(1,2)] A(1))
  have bytes: "list_all id_char ?S" using assms(2) by (auto simp: to_upper_def list_all_iff id_char_upper)
  have S: "?S \<noteq> []" "trim_space ?S = ?S" using assms(1) id_trim [OF _ bytes] by simp_all
  have ab: "c \<in> set ?A \<Longrightarrow> address_byte c" for c using Address_bytes [of row column] by (simp add: list_all_iff)
  have t: "trim_space ?key = ?key"
    using S(1) bytes A(2) id_char_plain [of "hd ?S"] ab [of "last ?A"] address_byte_facts [of "last ?A"]
    by (intro trim_space_id) (auto simp: list_all_iff)
  have no: "CHR ''!'' \<notin> set ?A" using ab address_byte_bang by blast
  then have "\<forall>c \<in> set (rev ?A). c \<noteq> CHR ''!''" by auto
  then have w: "takeWhile (\<lambda>c. c \<noteq> CHR ''!'') (rev ?key) = rev ?A"
    by (simp only: rev_append rev.simps append_assoc append.simps) (subst takeWhile_append2, auto)
  show split: "\<exists>proper. SplitCellKey (CellKey sheetID ?A) = (?S, ?A, proper)"
    using S A(1) w by (simp add: k SplitCellKey_def t Let_def)
  have "to_upper ?key = to_upper ?S @ to_upper ''!'' @ to_upper ?A" by (simp add: to_upper_def)
  also have "to_upper ''!'' = ''!''" by code_simp
  finally have up: "to_upper ?key = ?key" by (simp add: Address_upper)
  have "c \<noteq> CHR ''$''" if "c \<in> set ?key" for c
    using that bytes id_char_plain [of c] ab [of c] address_byte_facts(1) [of c] by (auto simp: list_all_iff)
  then have dollar: "filter (\<lambda>c. c \<noteq> CHR ''$'') ?key = ?key" by (intro filter_True) blast
  assume v: "validKey (normalizeAddress (CellKey sheetID ?A))"
  obtain proper where p: "SplitCellKey ?key = (?S, ?A, proper)" using split by (auto simp: k)
  show "normalizeAddress (CellKey sheetID ?A) = CellKey sheetID ?A"
  proof (cases proper)
    case True
    have "CellKey ?S ?A = ?key" using S A(1) by (simp add: CellKey_def)
    with True have "normalizeAddress ?key = ?key" by (simp add: normalizeAddress_def p)
    then show ?thesis by (simp only: k)
  next
    case False
    then have "normalizeAddress ?key = ?key"
      by (simp only: normalizeAddress_def p t up dollar prod.case not_False_eq_True if_True)
    then show ?thesis by (simp only: k)
  qed
qed

section \<open>What a recalculation leaves alone\<close>

text \<open>A cell with a value that nobody but its author put there.\<close>

definition typed :: "Cell \<Rightarrow> bool" where
  "typed cell = (trim_space (ceValue cell) \<noteq> [] \<and> ceFormula cell = [] \<and> ceSpillSource cell = [])"

definition grid_cells :: "sheet_cells \<Rightarrow> bool" where
  "grid_cells cells = (distinct (map fst cells) \<and> (\<forall>key \<in> fst ` set cells. grid_key key))"

definition keeps_typed :: "(string \<Rightarrow> sheet_cells) \<Rightarrow> (string \<Rightarrow> sheet_cells) \<Rightarrow> bool" where
  "keeps_typed before after =
     (\<forall>sheetID key. typed (cell_at (before sheetID) key) \<longrightarrow> cell_at (after sheetID) key = cell_at (before sheetID) key)"

lemma typed_zero [simp]: "\<not> typed zeroCell"
  by (simp add: typed_def zeroCell_def)

lemma keeps_typed_refl: "keeps_typed cells cells"
  by (simp add: keeps_typed_def)

lemma keeps_typed_trans: "keeps_typed before mid \<Longrightarrow> keeps_typed mid after \<Longrightarrow> keeps_typed before after"
  by (simp add: keeps_typed_def)

lemma keeps_typed_upd:
  "keeps_typed before (cells(sheetID := sheet)) \<longleftrightarrow>
     (\<forall>key. typed (cell_at (before sheetID) key) \<longrightarrow> cell_at sheet key = cell_at (before sheetID) key) \<and>
     (\<forall>other. other \<noteq> sheetID \<longrightarrow> (\<forall>key. typed (cell_at (before other) key) \<longrightarrow> cell_at (cells other) key = cell_at (before other) key))"
  by (auto simp: keeps_typed_def)

lemma after_clear_typed: "source \<noteq> [] \<Longrightarrow> typed (cell_at cells key) \<Longrightarrow> after_clear source cells key = cell_at cells key"
  by (auto simp: typed_def after_clear_def)

lemma typed_occupied: "typed cell \<Longrightarrow> occupied T cell"
  by (simp add: typed_def occupied_def)

lemma grid_source: "grid_key anchor \<Longrightarrow> 1 \<le> fst anchor \<and> 1 \<le> snd anchor"
  by (simp add: grid_key_def in_sheet_def)

lemma anchor_shown: "array_fits anchor matrix \<Longrightarrow> anchor \<in> set (shown_at anchor matrix)"
proof -
  assume f: "array_fits anchor matrix"
  then have "matrix \<noteq> []" "length (hd matrix) \<noteq> 0" unfolding array_fits_def Let_def by blast+
  then have "at_place anchor 0 0 \<in> set (shown_at anchor matrix)" unfolding shown_at_places [OF f] by blast
  then show ?thesis by (simp add: at_place_def)
qed

lemma shown_grid: "array_fits anchor matrix \<Longrightarrow> grid_key anchor \<Longrightarrow> key \<in> set (shown_at anchor matrix) \<Longrightarrow> grid_key key"
proof -
  assume a: "array_fits anchor matrix" "grid_key anchor" "key \<in> set (shown_at anchor matrix)"
  then obtain i j where "key = at_place anchor i j" "i < length matrix" "j < length (hd matrix)"
    by (auto simp: shown_at_places)
  moreover have "fst anchor + int (length matrix) - 1 \<le> MaxRows" "snd anchor + int (length (hd matrix)) - 1 \<le> MaxColumns"
    using a(1) unfolding array_fits_def Let_def by blast+
  ultimately show ?thesis using a(2) by (simp add: grid_key_def in_sheet_def at_place_def)
qed

lemma materializeSpill_keeps:
  assumes "materializeSpill T anchor matrix cells = Inr (cells', changed, message)" "distinct (map fst cells)" "grid_key anchor"
    and "key \<noteq> anchor" "typed (cell_at cells key)"
  shows "cell_at cells' key = cell_at cells key"
proof -
  note b = grid_source [OF assms(3)]
  have c: "after_clear (spill_source anchor) cells key = cell_at cells key"
    using b by (intro after_clear_typed [OF _ assms(5)] spill_source_Nil) auto
  note o = spill_outcome [OF assms(1,2) conjunct1 [OF b] conjunct2 [OF b]]
  show ?thesis
  proof (cases "message = [] \<and> key \<in> set (shown_at anchor matrix)")
    case True
    with o have f: "array_fits anchor matrix"
      "1 < length (shown_at anchor matrix) \<longrightarrow> (\<forall>key \<in> set (shown_at anchor matrix). free_place T anchor cells key)" by auto
    have a: "anchor \<in> set (shown_at anchor matrix)" by (rule anchor_shown [OF f(1)])
    have "2 \<le> card {anchor, key}" using assms(4) by simp
    also have "\<dots> \<le> card (set (shown_at anchor matrix))" using a True by (intro card_mono) auto
    also have "\<dots> \<le> length (shown_at anchor matrix)" by (rule card_length)
    finally have "free_place T anchor cells key" using f(2) True by simp
    with assms(4,5) typed_occupied have False by (auto simp: free_place_def Let_def c)
    then show ?thesis ..
  next
    case False
    show ?thesis
    proof (cases "message = []")
      case True
      with False o [THEN conjunct2, THEN conjunct1, rule_format, OF assms(4)] c show ?thesis by simp
    next
      case False
      from o [THEN conjunct2, THEN conjunct2, rule_format, OF assms(4) False] c show ?thesis by simp
    qed
  qed
qed

lemma materializeSpill_grid:
  assumes "materializeSpill T anchor matrix cells = Inr (cells', changed, message)" "grid_cells cells" "grid_key anchor"
  shows "grid_cells cells'"
proof -
  have d: "distinct (map fst cells)" using assms(2) by (simp add: grid_cells_def)
  have cl: "\<forall>key \<in> fst ` set (fst (clearSpillCells source cells)). grid_key key" for source
    using clearSpillCells_keys [of source cells] assms(2) unfolding grid_cells_def by blast
  from assms(1) have "\<forall>key \<in> fst ` set cells'. grid_key key"
  proof (cases rule: materializeSpill_cases)
    case (blocked cleared)
    then show ?thesis using cl assms(3) by (simp add: setFormulaError_def dom_update)
  next
    case (placed cleared)
    have "\<forall>key \<in> set (shown_at anchor matrix). grid_key key" using shown_grid [OF placed(1) assms(3)] by blast
    moreover have "fst ` set (zip (shown_at anchor matrix) (concat matrix)) \<subseteq> set (shown_at anchor matrix)"
      by (auto dest: set_zip_leftD)
    ultimately show ?thesis using placeSpill_keys [OF placed(5)] cl placed(2) by blast
  qed (use assms(2) in \<open>simp add: grid_cells_def\<close>)
  with materializeSpill_distinct [OF assms(1) d] show ?thesis by (simp add: grid_cells_def)
qed

lemma grid_cells_sub: "distinct (map fst cells) \<Longrightarrow> fst ` set cells \<subseteq> keys \<Longrightarrow> \<forall>key \<in> keys. grid_key key \<Longrightarrow> grid_cells cells"
  unfolding grid_cells_def by blast

lemma grid_cells_update: "grid_cells cells \<Longrightarrow> grid_key key \<Longrightarrow> grid_cells (AList.update key cell cells)"
  by (auto simp: grid_cells_def distinct_update dom_update)

lemma grid_cells_clear: "grid_cells cells \<Longrightarrow> grid_cells (fst (clearSpillCells source cells))"
  by (rule grid_cells_sub [OF clearSpillCells_distinct clearSpillCells_keys]) (simp_all add: grid_cells_def)

lemma grid_cells_clearKeys: "grid_cells cells \<Longrightarrow> grid_cells (fst (clearSpilledKeys keys cells))"
  by (rule grid_cells_sub [OF clearSpilledKeys_distinct clearSpilledKeys_keys]) (simp_all add: grid_cells_def)

lemma grid_cells_put: "grid_cells cells \<Longrightarrow> grid_key key \<Longrightarrow> grid_cells (put_cell key cell cells)"
  by (rule grid_cells_sub [OF put_cell_distinct put_cell_keys]) (simp_all add: grid_cells_def)

section \<open>A round keeps them\<close>

definition round_ok :: "(string \<Rightarrow> sheet_cells) \<Rightarrow> round_state \<Rightarrow> bool" where
  "round_ok before st = ((\<forall>sheetID. grid_cells (rdCells st sheetID)) \<and> keeps_typed before (rdCells st))"

lemma change_sheet_cells [simp]: "rdCells (change_sheet sheetID cells keys st) = (rdCells st)(sheetID := cells)"
  by (simp add: change_sheet_def)

lemma round_ok_sheet:
  assumes "round_ok before st" "rdCells st' = (rdCells st)(sheetID := cells)" "grid_cells cells"
    and "\<And>key. typed (cell_at (before sheetID) key) \<Longrightarrow> cell_at cells key = cell_at (rdCells st sheetID) key"
  shows "round_ok before st'"
  using assms by (simp add: round_ok_def keeps_typed_upd) (simp add: keeps_typed_def)

lemma round_typed: "round_ok before st \<Longrightarrow> typed (cell_at (before sheetID) key) \<Longrightarrow> typed (cell_at (rdCells st sheetID) key)"
proof -
  assume a: "round_ok before st" "typed (cell_at (before sheetID) key)"
  then have "cell_at (rdCells st sheetID) key = cell_at (before sheetID) key" unfolding round_ok_def keeps_typed_def by blast
  with a(2) show ?thesis by simp
qed

lemma clear_typed:
  assumes "round_ok before st" "typed (cell_at (before sheetID) key)" "address \<noteq> []"
  shows "cell_at (fst (clearSpillCells address (rdCells st sheetID))) key = cell_at (rdCells st sheetID) key"
proof -
  have d: "distinct (map fst (rdCells st sheetID))" using assms(1) by (simp add: round_ok_def grid_cells_def)
  show ?thesis
    unfolding clearSpillCells_cells [OF d assms(3)] by (rule after_clear_typed [OF assms(3) round_typed [OF assms(1,2)]])
qed

lemma show_result_ok:
  assumes "show_result T currentSheetID sheetID address key result st = Inr st'" "round_ok before st"
    and "grid_key key" "address \<noteq> []" "\<not> typed (cell_at (before sheetID) key)"
  shows "round_ok before st'"
proof -
  have g: "grid_cells (rdCells st sheetID)" using assms(2) by (simp add: round_ok_def)
  have gc: "grid_cells (fst (clearSpillCells address (rdCells st sheetID)))" by (rule grid_cells_clear [OF g])
  have nk: "typed (cell_at (before sheetID) k) \<Longrightarrow> k \<noteq> key" for k using assms(5) by auto
  have written: "round_ok before st2"
    if "rdCells st2 = (rdCells st)(sheetID := AList.update key cell (fst (clearSpillCells address (rdCells st sheetID))))" for st2 cell
    by (rule round_ok_sheet [OF assms(2) that grid_cells_update [OF gc assms(3)]])
      (simp add: nk clear_typed [OF assms(2) _ assms(4)])
  show ?thesis
  proof (cases "rcError result")
    case (Some e)
    then show ?thesis using assms(1)
      by (intro written [where cell = "(cell_at (rdCells st sheetID) key)\<lparr>ceValue := scQuote T (ferCode e), ceSpillSource := []\<rparr>"])
        (auto simp: show_result_def show_error_def Let_def case_prod_beta)
  next
    case None
    let ?st = "st\<lparr>rdErrors := AList.delete (sheetID, key) (rdErrors st)\<rparr>"
    show ?thesis
    proof (cases "formulaResultMatrix (calculated_value result)")
      case (Some matrix)
      then have "show_array T currentSheetID sheetID (rcAddress result) key matrix ?st = Inr st'"
        using assms(1) None by (simp add: show_result_def)
      then obtain cells changed message where m: "materializeSpill (codec T) key matrix (rdCells st sheetID) = Inr (cells, changed, message)"
        "rdCells st' = (rdCells st)(sheetID := cells)"
        by (auto simp: show_array_def bind_result_eq_Inr Let_def split: if_splits)
      have d: "distinct (map fst (rdCells st sheetID))" using g by (simp add: grid_cells_def)
      show ?thesis
        by (rule round_ok_sheet [OF assms(2) m(2) materializeSpill_grid [OF m(1) g assms(3)]])
          (rule materializeSpill_keeps [OF m(1) d assms(3) nk round_typed [OF assms(2)]])
    next
      case none: None
      then have "show_value T sheetID (rcAddress result) address key (calculated_value result) ?st = Inr st'"
        using assms(1) None by (simp add: show_result_def)
      then obtain encoded where "rdCells st' = (rdCells st)(sheetID := AList.update key
          ((cell_at (fst (clearSpillCells address (rdCells st sheetID))) key)\<lparr>ceValue := encoded, ceSpillSource := []\<rparr>)
          (fst (clearSpillCells address (rdCells st sheetID))))"
        by (auto simp: show_value_def bind_result_eq_Inr case_prod_beta)
      then show ?thesis by (rule written)
    qed
  qed
qed

lemma applyResult_ok:
  assumes "applyResult T sheetIDs currentSheetID result st = Inr st'" "round_ok before st"
    and "\<And>formulaSheetID address proper sheetID selected. SplitCellKey (rcAddress result) = (formulaSheetID, address, proper) \<Longrightarrow>
      map_of sheetIDs formulaSheetID = Some sheetID \<Longrightarrow> Parse address = Inr selected \<Longrightarrow>
      address \<noteq> [] \<and> \<not> typed (cell_at (before sheetID) (Row (Start selected), Column (Start selected)))"
  shows "round_ok before st'"
proof -
  obtain formulaSheetID address proper where k: "SplitCellKey (rcAddress result) = (formulaSheetID, address, proper)"
    by (rule prod_cases3)
  obtain sheetID selected where f: "map_of sheetIDs formulaSheetID = Some sheetID" "Parse address = Inr selected"
    using assms(1) by (auto simp: applyResult_def k split: option.splits sum.splits)
  let ?key = "(Row (Start selected), Column (Start selected))"
  let ?st = "st\<lparr>rdRecalculated := rdRecalculated st @ [(sheetID, ?key)]\<rparr>"
  have "show_result T currentSheetID sheetID address ?key result ?st = Inr st'"
    using assms(1) by (auto simp: applyResult_def k f Let_def split: if_splits)
  moreover have "round_ok before ?st" using assms(2) by (simp add: round_ok_def)
  moreover have "grid_key ?key" using Parse_sheet [OF f(2)] by (simp add: grid_key_def in_sheet_def)
  ultimately show ?thesis using assms(3) [OF k f] by (blast intro: show_result_ok)
qed

lemma collect_from: "collect f xs = Inr ys \<Longrightarrow> y \<in> set ys \<Longrightarrow> \<exists>x \<in> set xs. f x = Inr y"
  by (induction f xs arbitrary: ys rule: collect.induct) (auto simp: bind_result_eq_Inr)

lemma normalizeLoop_from:
  "normalizeLoop cells normalized = Inr n \<Longrightarrow> map_of n a = Some cell \<Longrightarrow>
   map_of normalized a = Some cell \<or> (\<exists>address. (address, cell) \<in> set cells \<and> normalizeAddress address = a \<and> validKey a)"
proof (induction cells normalized rule: normalizeLoop.induct)
  case (2 address c cells normalized)
  then have v: "validKey (normalizeAddress address)"
    "normalizeLoop cells (AList.update (normalizeAddress address) c normalized) = Inr n" by (auto split: if_splits)
  from "2.IH" [OF _ v(2) "2.prems"(2)] v(1) show ?case by (auto simp: update_conv' split: if_splits)
qed simp

lemma scoped_cells_set: "set (scoped_cells ids cells) = {((sheetID, key), cell) |sheetID key cell. sheetID \<in> set ids \<and> (key, cell) \<in> set (cells sheetID)}"
  by (force simp: scoped_cells_def)

definition sheet_index :: "(string \<times> string) list \<Rightarrow> (string \<times> string) list" where
  "sheet_index sheets = map (\<lambda>sheetID. (to_upper sheetID, sheetID)) (map fst sheets)"

lemma results_untyped:
  assumes "sheet_ids_ok sheets" "round_ok before st" "formulaStates T (map fst sheets) (rdCells st) forced = Inr states"
    and "Recalculate evaluator states changed = Inr graph" "rc \<in> set (grCells graph)"
    and "SplitCellKey (rcAddress rc) = (formulaSheetID, address, proper)"
    and "map_of (sheet_index sheets) formulaSheetID = Some sheetID" "Parse address = Inr selected"
  shows "address \<noteq> [] \<and> \<not> typed (cell_at (before sheetID) (Row (Start selected), Column (Start selected)))"
proof -
  obtain normalized state where n: "normalizeLoop states [] = Inr normalized" "map_of normalized (rcAddress rc) = Some state"
    "trim_space (gsFormula state) \<noteq> []" by (rule Recalculate_formulas [OF assms(4,5)])
  from normalizeLoop_from [OF n(1,2)] obtain a where a: "(a, state) \<in> set states" "normalizeAddress a = rcAddress rc" "validKey (rcAddress rc)"
    by auto
  obtain s r c cell where e: "((s, (r, c)), cell) \<in> set (scoped_cells (map fst sheets) (rdCells st))"
    "stateOf T forced ((s, (r, c)), cell) = Inr (a, state)"
    using collect_from [OF assms(3) [unfolded formulaStates_def] a(1)] by (metis surj_pair)
  have k: "a = CellKey s (Address r c)" and f: "gsFormula state = ceFormula cell"
    using e(2) by (auto simp: stateOf_def Let_def split: option.splits if_splits)
  have s: "s \<in> fst ` set sheets" "((r, c), cell) \<in> set (rdCells st s)" using e(1) by (auto simp: scoped_cells_set)
  have g: "grid_cells (rdCells st s)" using assms(2) by (simp add: round_ok_def)
  then have at: "cell_at (rdCells st s) (r, c) = cell" using s(2) by (simp add: cell_at_def grid_cells_def)
  have grid: "grid_key (r, c)" using g s(2) by (force simp: grid_cells_def)
  have id: "s \<noteq> []" "list_all id_char s" using assms(1) s(1) by (auto simp: sheet_ids_ok_def list_all_iff)
  have "rcAddress rc = CellKey s (Address r c)" using CellKey_split(2) [OF id grid] a(2,3) by (simp add: k)
  then have split: "formulaSheetID = to_upper s" "address = Address r c"
    using CellKey_split(1) [OF id grid] assms(6) by auto
  have "sheetID = s" using sheet_ids_found [OF assms(1) s(1)] assms(7) by (simp add: split(1) sheet_index_def)
  moreover have "Parse (Address r c) = Inr selected" using assms(8) by (simp add: split(2))
  then have "selected = \<lparr>Start = \<lparr>Row = r, Column = c\<rparr>, End = \<lparr>Row = r, Column = c\<rparr>\<rparr>"
    using grid_Address(3) [OF grid] by simp
  moreover have "\<not> typed cell" using n(3) by (auto simp: typed_def f)
  ultimately show ?thesis using round_typed [OF assms(2), of s "(r, c)"] grid_Address(2) [OF grid] by (auto simp: at split(2))
qed

definition spares_typed :: "(string \<times> string) list \<Rightarrow> (string \<Rightarrow> sheet_cells) \<Rightarrow> 'v RecalculatedCell \<Rightarrow> bool" where
  "spares_typed sheetIDs before result =
     (\<forall>formulaSheetID address proper sheetID selected. SplitCellKey (rcAddress result) = (formulaSheetID, address, proper) \<longrightarrow>
        map_of sheetIDs formulaSheetID = Some sheetID \<longrightarrow> Parse address = Inr selected \<longrightarrow>
        address \<noteq> [] \<and> \<not> typed (cell_at (before sheetID) (Row (Start selected), Column (Start selected))))"

lemma applyResults_ok:
  "applyResults T sheetIDs currentSheetID results st = Inr st' \<Longrightarrow> round_ok before st \<Longrightarrow>
   \<forall>result \<in> set results. spares_typed sheetIDs before result \<Longrightarrow> round_ok before st'"
proof (induction T sheetIDs currentSheetID results st rule: applyResults.induct)
  case (2 T sheetIDs currentSheetID result rest st)
  obtain st1 where s: "applyResult T sheetIDs currentSheetID result st = Inr st1"
    "applyResults T sheetIDs currentSheetID rest st1 = Inr st'"
    using "2.prems"(1) by (auto simp: bind_result_eq_Inr)
  have "round_ok before st1" by (rule applyResult_ok [OF s(1) "2.prems"(2)]) (use "2.prems"(3) in \<open>auto simp: spares_typed_def\<close>)
  from "2.IH" [OF s(2) this] "2.prems"(3) show ?case by simp
qed simp

lemma stabilize_ok:
  assumes "sheet_ids_ok sheets"
  shows "stabilize rounds T evaluator (map fst sheets) (sheet_index sheets) currentSheetID pending st = Inr st' \<Longrightarrow>
    round_ok before st \<Longrightarrow> round_ok before st'"
proof (induction rounds arbitrary: pending st)
  case (Suc rounds)
  obtain states where s1: "formulaStates T (map fst sheets) (rdCells st) (rdForced st) = Inr states"
    and s2: "(case Recalculate evaluator states (addressesFromKeys pending) of Inl _ \<Rightarrow> Inl ErrInvalid
      | Inr graph \<Rightarrow> bind_result (applyResults T (sheet_index sheets) currentSheetID (grCells graph) (st\<lparr>rdNext := []\<rparr>)) (\<lambda>st.
          if rdNext st = [] then Inr st
          else stabilize rounds T evaluator (map fst sheets) (sheet_index sheets) currentSheetID (rdNext st) st)) = Inr st'"
    using Suc.prems(1) by (auto simp only: stabilize.simps bind_result_eq_Inr)
  obtain graph where s3: "Recalculate evaluator states (addressesFromKeys pending) = Inr graph"
    using s2 by (cases "Recalculate evaluator states (addressesFromKeys pending)") simp_all
  obtain st1 where s4: "applyResults T (sheet_index sheets) currentSheetID (grCells graph) (st\<lparr>rdNext := []\<rparr>) = Inr st1"
    and s5: "(if rdNext st1 = [] then Inr st1 else
      stabilize rounds T evaluator (map fst sheets) (sheet_index sheets) currentSheetID (rdNext st1) st1) = Inr st'"
    using s2 by (auto simp only: s3 sum.case bind_result_eq_Inr)
  have ok: "round_ok before (st\<lparr>rdNext := []\<rparr>)" using Suc.prems(2) by (simp add: round_ok_def)
  have "round_ok before st1"
    by (rule applyResults_ok [OF s4 ok])
      (use results_untyped [OF assms Suc.prems(2) s1 s3] in \<open>unfold spares_typed_def, blast\<close>)
  with s5 Suc.IH show ?case by (auto split: if_splits)
qed simp

section \<open>The submitted cells are in the sheet\<close>

definition submitted_ok :: "sheet_cells \<Rightarrow> submit_state \<Rightarrow> bool" where
  "submitted_ok existing st =
     (grid_cells (suCells st) \<and>
      (\<forall>source key. key \<in> set (suIndex st source) \<longrightarrow>
        source \<noteq> [] \<and> ceSpillSource (cell_at existing key) = source \<and>
        (key \<notin> set (suKeys st) \<longrightarrow> cell_at (suCells st) key = cell_at existing key)))"

lemma submitted_index:
  assumes "submitted_ok existing st" "key \<in> set (suIndex st source)"
  shows "source \<noteq> []" "ceSpillSource (cell_at existing key) = source"
    "key \<notin> set (suKeys st) \<Longrightarrow> cell_at (suCells st) key = cell_at existing key"
  using assms(1) [unfolded submitted_ok_def, THEN conjunct2, rule_format, OF assms(2)] by auto

lemma submitInput_cells:
  assumes "submitInput currentSheetID input st = Inr st'"
  defines "own \<equiv> (if ciFormula input \<noteq> [] then input\<lparr>ciValue := [], ciSpillSource := []\<rparr> else input)"
  shows "suKeys st' = (ciRow input, ciColumn input) # suKeys st" "(ciRow input, ciColumn input) \<notin> set (suKeys st)"
    "suIndex st' = (suIndex st)(spill_source (ciRow input, ciColumn input) := [])"
    "suCells st' = put_cell (ciRow input, ciColumn input) (cellFromInput currentSheetID 0 own)
      (fst (clearSpilledKeys (suIndex st (spill_source (ciRow input, ciColumn input))) (suCells st)))"
    "ceSpillSource (cell_at (suCells st) (ciRow input, ciColumn input)) \<noteq> [] \<Longrightarrow>
      ciSpillSource input = ceSpillSource (cell_at (suCells st) (ciRow input, ciColumn input))"
  using assms(1) by (auto simp: submitInput_def own_def Let_def split: if_splits prod.splits)

lemma submitInput_ok:
  assumes "submitInput currentSheetID input st = Inr st'" "submitted_ok existing st" "grid_key (ciRow input, ciColumn input)"
  shows "submitted_ok existing st'"
proof -
  let ?key = "(ciRow input, ciColumn input)"
  note s = submitInput_cells [OF assms(1)]
  have "grid_cells (suCells st')"
    unfolding s(4) using assms(2,3) by (intro grid_cells_put grid_cells_clearKeys) (simp_all add: submitted_ok_def)
  moreover have "source \<noteq> [] \<and> ceSpillSource (cell_at existing key) = source \<and>
      (key \<notin> set (suKeys st') \<longrightarrow> cell_at (suCells st') key = cell_at existing key)"
    if k: "key \<in> set (suIndex st' source)" for source key
  proof -
    have i: "key \<in> set (suIndex st source)" "source \<noteq> spill_source ?key" using k by (auto simp: s(3) split: if_splits)
    note o = submitted_index [OF assms(2) i(1)]
    have "key \<notin> set (suIndex st (spill_source ?key))" using submitted_index(2) [OF assms(2)] o(2) i(2) by blast
    with o show ?thesis by (simp add: s(1,4) clearSpilledKeys_cells)
  qed
  ultimately show ?thesis unfolding submitted_ok_def by blast
qed

definition out_of_index :: "submit_state \<Rightarrow> cellKey \<Rightarrow> bool" where
  "out_of_index st key = (\<forall>source. key \<notin> set (suIndex st source))"

lemma submitLoop_ok:
  "submitLoop currentSheetID inputs st = Inr st' \<Longrightarrow> submitted_ok existing st \<Longrightarrow>
   \<forall>input \<in> set inputs. grid_key (ciRow input, ciColumn input) \<Longrightarrow>
   submitted_ok existing st' \<and> set (suKeys st') = (\<lambda>i. (ciRow i, ciColumn i)) ` set inputs \<union> set (suKeys st)"
proof (induction currentSheetID inputs st rule: submitLoop.induct)
  case (2 currentSheetID input rest st)
  then obtain st1 where s: "submitInput currentSheetID input st = Inr st1" "submitLoop currentSheetID rest st1 = Inr st'"
    by (auto simp: bind_result_eq_Inr)
  have "submitted_ok existing st1" using submitInput_ok [OF s(1) "2.prems"(2)] "2.prems"(3) by simp
  from "2.IH" [OF s(2) this] "2.prems"(3) show ?case by (auto simp: submitInput_cells(1) [OF s(1)])
qed simp

lemma submitLoop_keeps:
  "submitLoop currentSheetID inputs st = Inr st' \<Longrightarrow> out_of_index st key \<Longrightarrow>
   key \<notin> (\<lambda>i. (ciRow i, ciColumn i)) ` set inputs \<Longrightarrow> cell_at (suCells st') key = cell_at (suCells st) key"
proof (induction currentSheetID inputs st rule: submitLoop.induct)
  case (2 currentSheetID input rest st)
  then obtain st1 where s: "submitInput currentSheetID input st = Inr st1" "submitLoop currentSheetID rest st1 = Inr st'"
    by (auto simp: bind_result_eq_Inr)
  note c = submitInput_cells [OF s(1)]
  have "out_of_index st1 key" using "2.prems"(2) by (auto simp: out_of_index_def c(3))
  moreover have "cell_at (suCells st1) key = cell_at (suCells st) key"
    using "2.prems"(2,3) by (auto simp: c(4) clearSpilledKeys_cells out_of_index_def)
  ultimately show ?case using "2.IH" [OF s(2)] "2.prems"(3) by simp
qed simp

lemma submitLoop_distinct:
  "submitLoop currentSheetID inputs st = Inr st' \<Longrightarrow>
   distinct (map (\<lambda>i. (ciRow i, ciColumn i)) inputs) \<and> (\<lambda>i. (ciRow i, ciColumn i)) ` set inputs \<inter> set (suKeys st) = {}"
proof (induction currentSheetID inputs st rule: submitLoop.induct)
  case (2 currentSheetID input rest st)
  then obtain st1 where s: "submitInput currentSheetID input st = Inr st1" "submitLoop currentSheetID rest st1 = Inr st'"
    by (auto simp: bind_result_eq_Inr)
  from "2.IH" [OF s(2)] submitInput_cells(1,2) [OF s(1)] show ?case by auto
qed simp

lemma submitLoop_literal:
  assumes "submitLoop currentSheetID inputs st = Inr st'" "submitted_ok existing st"
    "\<forall>input \<in> set inputs. grid_key (ciRow input, ciColumn input)" "input \<in> set inputs" "literal input"
  shows "cell_at (suCells st') (ciRow input, ciColumn input) = cellFromInput currentSheetID 0 input"
  using assms
proof (induction currentSheetID inputs st rule: submitLoop.induct)
  case (2 currentSheetID first rest st)
  then obtain st1 where s: "submitInput currentSheetID first st = Inr st1" "submitLoop currentSheetID rest st1 = Inr st'"
    by (auto simp: bind_result_eq_Inr)
  have ok: "submitted_ok existing st1" using submitInput_ok [OF s(1) "2.prems"(2)] "2.prems"(3) by simp
  show ?case
  proof (cases "input = first")
    case True
    let ?key = "(ciRow input, ciColumn input)"
    note c = submitInput_cells [OF s(1)]
    have l: "ciFormula input = []" "ciSpillSource input = []" "trim_space (ciValue input) \<noteq> []"
      using "2.prems"(5) by (simp_all add: literal_def)
    have "key \<notin> set (suIndex st source)" if k: "key = ?key" for source key
    proof
      assume i: "key \<in> set (suIndex st source)"
      from submitted_index [OF "2.prems"(2) i] c(2) True k
      have "source \<noteq> []" "ceSpillSource (cell_at (suCells st) ?key) = source" by auto
      with c(5) l(2) True show False by simp
    qed
    then have out: "out_of_index st1 ?key" by (auto simp: out_of_index_def c(3))
    have "?key \<notin> (\<lambda>i. (ciRow i, ciColumn i)) ` set rest"
      using submitLoop_distinct [OF s(2)] c(1) True by auto
    from submitLoop_keeps [OF s(2) out this] True l show ?thesis
      by (auto simp: c(4) isEmptyCell_def cellFromInput_def)
  next
    case False
    then show ?thesis using "2.IH" [OF s(2) ok] "2.prems"(3-5) by simp
  qed
qed simp

end
