(* ===== verification/WorkbookWrites.thy ===== *)
theory WorkbookWrites
  imports RecalculationRuns
begin

text \<open>
  What recalculation gives to be written, and what a write with recalculation does to the values that
  people typed. A small workbook with a formula that shows an array witnesses the theorems.
\<close>

section \<open>What is written is the difference\<close>

definition input_for :: "(string \<Rightarrow> sheet_cells) \<Rightarrow> scopedCellKey \<Rightarrow> CellInput" where
  "input_for cells key =
     (inputFromCell (fst (snd key)) (snd (snd key)) (cell_at (cells (fst key)) (snd key)))\<lparr>ciSheetID := fst key\<rparr>"

definition differs ::
  "string list \<Rightarrow> (string \<Rightarrow> sheet_cells) \<Rightarrow> (string \<Rightarrow> sheet_cells) \<Rightarrow> scopedCellKey list \<Rightarrow> scopedCellKey \<Rightarrow> bool" where
  "differs ids existing prospective submitted key =
     (key \<in> set submitted \<or>
      fst key \<in> set ids \<and> \<not> cellsEqual (cell_at (existing (fst key)) (snd key)) (cell_at (prospective (fst key)) (snd key)))"

lemma cellsEqual_refl [simp]: "cellsEqual cell cell"
  by (simp add: cellsEqual_def)

lemma cell_at_absent: "key \<notin> fst ` set cells \<Longrightarrow> cell_at cells key = zeroCell"
  by (simp add: cell_at_def map_of_eq_None_iff [THEN iffD2])

lemma scoped_keys: "sheetID \<in> set ids \<Longrightarrow> key \<in> fst ` set (cells sheetID) \<Longrightarrow> (sheetID, key) \<in> fst ` set (scoped_cells ids cells)"
  by (force simp: scoped_cells_set)

lemma scoped_keys_ids: "key \<in> fst ` set (scoped_cells ids cells) \<Longrightarrow> fst key \<in> set ids"
  by (auto simp: scoped_cells_set)

lemma changedCellInputs_keys:
  "\<exists>keys. changedCellInputs ids existing prospective submitted = map (input_for prospective) keys \<and> sorted keys \<and> distinct keys \<and>
     set keys = {key. differs ids existing prospective submitted key}"
proof -
  let ?all = "remdups (map fst (scoped_cells ids existing) @ map fst (scoped_cells ids prospective) @ submitted)"
  let ?keys = "sort (filter (\<lambda>(sheetID, key). (sheetID, key) \<in> set submitted \<or>
      \<not> cellsEqual (cell_at (existing sheetID) key) (cell_at (prospective sheetID) key)) ?all)"
  have "changedCellInputs ids existing prospective submitted = map (input_for prospective) ?keys"
    unfolding changedCellInputs_def Let_def by (rule map_cong [OF refl]) (simp add: input_for_def case_prod_beta)
  moreover have "set ?keys = {key. differs ids existing prospective submitted key}"
  proof (intro set_eqI iffI)
    fix key assume k: "key \<in> {key. differs ids existing prospective submitted key}"
    then have "key \<in> set ?all"
      using cell_at_absent [of "snd key" "existing (fst key)"] cell_at_absent [of "snd key" "prospective (fst key)"]
        scoped_keys [of "fst key" ids "snd key"]
      by (cases "snd key \<in> fst ` set (existing (fst key)) \<or> snd key \<in> fst ` set (prospective (fst key))")
        (auto simp: differs_def)
    with k show "key \<in> set ?keys" by (auto simp: differs_def)
  qed (auto simp: differs_def dest!: scoped_keys_ids)
  ultimately show ?thesis by (intro exI [of _ ?keys]) simp
qed

lemma find_rev_unique:
  assumes "distinct (map f xs)" "x \<in> set xs"
  shows "find (\<lambda>y. f y = f x) (rev xs) = Some x"
proof -
  obtain i where i: "i < length xs" "xs ! i = x" using assms(2) by (auto simp: in_set_conv_nth)
  have "find (\<lambda>y. f y = f x) (rev xs) \<noteq> None" using assms(2) by (auto simp: find_None_iff)
  then obtain y where y: "find (\<lambda>y. f y = f x) (rev xs) = Some y" by blast
  then obtain i where "i < length (rev xs)" "f (rev xs ! i) = f x" "y = rev xs ! i" unfolding find_Some_iff by blast
  then have "y \<in> set xs" "f y = f x" using nth_mem [of i "rev xs"] by simp_all
  moreover have "inj_on f (set xs)" using assms(1) by (simp add: distinct_map)
  ultimately have "y = x" using assms(2) by (blast dest: inj_onD)
  with y show ?thesis by simp
qed

lemma input_for_key [simp]: "fst key \<noteq> [] \<Longrightarrow> scoped_key sheetID (input_for cells key) = key"
  by (simp add: scoped_key_def target_sheet_def input_for_def inputFromCell_def)

lemma changedCellInputs_final:
  assumes "\<forall>sheetID \<in> set ids. sheetID \<noteq> []" "fst ` set submitted \<subseteq> set ids"
  shows "final_input currentSheetID (changedCellInputs ids existing prospective submitted) key =
    (if differs ids existing prospective submitted key then Some (input_for prospective key) else None)"
proof -
  obtain keys where k: "changedCellInputs ids existing prospective submitted = map (input_for prospective) keys" "distinct keys"
    "set keys = {key. differs ids existing prospective submitted key}" using changedCellInputs_keys by blast
  have ne: "fst key \<noteq> []" if "key \<in> set keys" for key using that assms k(3) by (fastforce simp: differs_def)
  have m: "map (scoped_key currentSheetID) (map (input_for prospective) keys) = keys"
    using ne by (simp add: map_idI)
  show ?thesis
  proof (cases "differs ids existing prospective submitted key")
    case True
    with k(3) have i: "key \<in> set keys" by simp
    with ne have s: "scoped_key currentSheetID (input_for prospective key) = key" by simp
    have "find (\<lambda>y. scoped_key currentSheetID y = scoped_key currentSheetID (input_for prospective key))
        (rev (map (input_for prospective) keys)) = Some (input_for prospective key)"
      by (rule find_rev_unique) (use m k(2) i in simp_all)
    with True show ?thesis by (simp add: final_input_def k(1) s)
  next
    case False
    with k(3) have i: "key \<notin> set keys" by simp
    have "scoped_key currentSheetID y \<noteq> key" if "y \<in> set (rev (map (input_for prospective) keys))" for y
      using that ne i by auto
    then show ?thesis using False by (simp add: final_input_def k(1) find_None_iff)
  qed
qed

lemma input_for_written:
  "fst key \<noteq> [] \<Longrightarrow> cellsEqual (cell_written sheetID now (input_for cells key)) (cell_at (cells (fst key)) (snd key))"
  by (simp add: cell_written_def cellFromInput_def input_for_def inputFromCell_def cellsEqual_def)

lemma cellsEqual_empty: "cellsEqual a b \<Longrightarrow> isEmptyCell a \<Longrightarrow> cellsEqual zeroCell b"
  by (simp add: cellsEqual_def isEmptyCell_def zeroCell_def)

text \<open>
  C16. What recalculation gives to be written is the difference: it is in the order of sheets, rows and columns, has every cell once, and
  only submitted cells and cells whose content changes; and writing it to the sheets as they were gives the content of
  the sheets as recalculation left them, in every cell.
\<close>

theorem difference_is_written:
  assumes "\<forall>sheetID \<in> set ids. sheetID \<noteq> []" "fst ` set submitted \<subseteq> set ids" "sheetID \<in> set ids"
  shows "sorted (map (scoped_key currentSheetID) (changedCellInputs ids existing prospective submitted)) \<and>
    distinct (map (scoped_key currentSheetID) (changedCellInputs ids existing prospective submitted)) \<and>
    set (map (scoped_key currentSheetID) (changedCellInputs ids existing prospective submitted)) =
      {key. differs ids existing prospective submitted key} \<and>
    cellsEqual (cell_at (wrCells (writeCells currentSheetID now (changedCellInputs ids existing prospective submitted) existing) sheetID) key)
      (cell_at (prospective sheetID) key)"
proof -
  obtain keys where k: "changedCellInputs ids existing prospective submitted = map (input_for prospective) keys" "sorted keys" "distinct keys"
    "set keys = {key. differs ids existing prospective submitted key}" using changedCellInputs_keys by blast
  have ne: "fst key \<noteq> []" if "key \<in> set keys" for key using that assms(1,2) k(4) by (fastforce simp: differs_def)
  have m: "map (scoped_key currentSheetID) (changedCellInputs ids existing prospective submitted) = keys"
    using ne by (simp add: map_idI k(1))
  let ?w = "writeCells currentSheetID now (changedCellInputs ids existing prospective submitted) existing"
  have e: "map_of (wrCells ?w sheetID) key =
      (if differs ids existing prospective submitted (sheetID, key)
       then (let cell = cell_written currentSheetID now (input_for prospective (sheetID, key)) in if isEmptyCell cell then None else Some cell)
       else map_of (existing sheetID) key)"
    by (simp add: writeCells_cells changedCellInputs_final [OF assms(1,2)] Let_def)
  have "sheetID \<noteq> []" using assms(1,3) by blast
  then have w: "cellsEqual (cell_written currentSheetID now (input_for prospective (sheetID, key))) (cell_at (prospective sheetID) key)"
    using input_for_written [of "(sheetID, key)"] by simp
  have "cellsEqual (cell_at (wrCells ?w sheetID) key) (cell_at (prospective sheetID) key)"
  proof (cases "differs ids existing prospective submitted (sheetID, key)")
    case True
    then have "cell_at (wrCells ?w sheetID) key = (let cell = cell_written currentSheetID now (input_for prospective (sheetID, key)) in
        if isEmptyCell cell then zeroCell else cell)" by (simp add: cell_at_def e Let_def)
    then show ?thesis using w cellsEqual_empty [OF w] by (simp add: Let_def)
  next
    case False
    then have "cell_at (wrCells ?w sheetID) key = cell_at (existing sheetID) key" by (simp add: cell_at_def e)
    with False assms(3) show ?thesis by (simp add: differs_def)
  qed
  with k(2-4) show ?thesis by (simp add: m)
qed

section \<open>Values that people typed\<close>

lemma recalculateCellInputs_runs:
  assumes "recalculateCellInputs T sheets existing currentSheetID submitted forceAll names = Inr (expanded, recalculated, errors)"
  obtains written st where "currentSheetID \<in> fst ` set sheets"
    "submitLoop currentSheetID submitted
       \<lparr>suCells = existing currentSheetID, suKeys = [], suChanged = [], suIndex = spillIndex (existing currentSheetID)\<rparr> = Inr written"
    "\<exists>rounds evaluator pending. stabilize rounds T evaluator (map fst sheets) (sheet_index sheets) currentSheetID pending
       \<lparr>rdCells = existing(currentSheetID := suCells written), rdForced = [], rdErrors = [], rdRecalculated = [], rdNext = []\<rparr> = Inr st"
    "expanded = changedCellInputs (map fst sheets) existing (rdCells st) (map (Pair currentSheetID) (suKeys written))"
  using assms by (fastforce simp: recalculateCellInputs_def sheet_index_def Let_def bind_result_eq_Inr split: if_splits)

lemma spillIndex_start:
  assumes "grid_cells cells"
  shows "submitted_ok cells \<lparr>suCells = cells, suKeys = [], suChanged = [], suIndex = spillIndex cells\<rparr>"
proof -
  have d: "distinct (map fst cells)" using assms by (simp add: grid_cells_def)
  have "source \<noteq> [] \<and> ceSpillSource (cell_at cells key) = source" if "key \<in> set (spillIndex cells source)" for source key
    using that from_source [OF d, of source key] by (auto simp: spillIndex_def split: if_splits)
  with assms show ?thesis unfolding submitted_ok_def by simp
qed

lemma typed_literal: "literal input \<Longrightarrow> typed (cellFromInput sheetID now input)"
  by (simp add: literal_def typed_def cellFromInput_def)

lemma recalculation_typed:
  assumes "recalculateCellInputs T sheets existing currentSheetID submitted forceAll names = Inr (expanded, recalculated, errors)"
    and "sheet_ids_ok sheets" "\<forall>sheetID. grid_cells (existing sheetID)" "\<forall>input \<in> set submitted. grid_key (coordinate input)"
  shows "input \<in> set submitted \<Longrightarrow> literal input \<Longrightarrow>
      map_option (cell_written currentSheetID 0) (final_input currentSheetID expanded (currentSheetID, coordinate input)) =
        Some (cellFromInput currentSheetID 0 input)"
    and "typed (cell_at (existing sheetID) key) \<Longrightarrow> (sheetID, key) \<notin> Pair currentSheetID ` coordinate ` set submitted \<Longrightarrow>
      final_input currentSheetID expanded (sheetID, key) = None"
proof -
  obtain written st where c: "currentSheetID \<in> fst ` set sheets"
    and s: "submitLoop currentSheetID submitted
       \<lparr>suCells = existing currentSheetID, suKeys = [], suChanged = [], suIndex = spillIndex (existing currentSheetID)\<rparr> = Inr written"
    and r: "\<exists>rounds evaluator pending. stabilize rounds T evaluator (map fst sheets) (sheet_index sheets) currentSheetID pending
       \<lparr>rdCells = existing(currentSheetID := suCells written), rdForced = [], rdErrors = [], rdRecalculated = [], rdNext = []\<rparr> = Inr st"
    and e: "expanded = changedCellInputs (map fst sheets) existing (rdCells st) (map (Pair currentSheetID) (suKeys written))"
    by (rule recalculateCellInputs_runs [OF assms(1)])
  let ?start = "\<lparr>suCells = existing currentSheetID, suKeys = [], suChanged = [], suIndex = spillIndex (existing currentSheetID)\<rparr>"
  let ?before = "existing(currentSheetID := suCells written)"
  have grid: "\<forall>input \<in> set submitted. grid_key (ciRow input, ciColumn input)" using assms(4) by (simp add: coordinate_def)
  have start: "submitted_ok (existing currentSheetID) ?start" using assms(3) spillIndex_start by blast
  from submitLoop_ok [OF s start grid] have ok: "submitted_ok (existing currentSheetID) written"
    and keys: "set (suKeys written) = coordinate ` set submitted" by (auto simp: coordinate_def image_def)
  have "round_ok ?before \<lparr>rdCells = ?before, rdForced = [], rdErrors = [], rdRecalculated = [], rdNext = []\<rparr>"
    using assms(3) ok by (simp add: round_ok_def submitted_ok_def keeps_typed_refl)
  with r stabilize_ok [OF assms(2)] have ro: "round_ok ?before st" by blast
  have kept: "cell_at (rdCells st sheetID) key = cell_at (?before sheetID) key" if "typed (cell_at (?before sheetID) key)" for sheetID key
    using ro that unfolding round_ok_def keeps_typed_def by blast
  have ids: "\<forall>sheetID \<in> set (map fst sheets). sheetID \<noteq> []" using assms(2) by (auto simp: sheet_ids_ok_def list_all_iff)
  have sub: "fst ` set (map (Pair currentSheetID) (suKeys written)) \<subseteq> set (map fst sheets)"
    by (rule subset_trans [of _ "{currentSheetID}"]) (fastforce, use c in simp)
  note final = changedCellInputs_final [OF ids sub, where existing = existing and prospective = "rdCells st" and currentSheetID = currentSheetID]
  show "map_option (cell_written currentSheetID 0) (final_input currentSheetID expanded (currentSheetID, coordinate input)) =
      Some (cellFromInput currentSheetID 0 input)" if i: "input \<in> set submitted" "literal input"
  proof -
    have "cell_at (suCells written) (coordinate input) = cellFromInput currentSheetID 0 input"
      using submitLoop_literal [OF s start grid i] by (simp add: coordinate_def)
    with kept [of currentSheetID "coordinate input"] typed_literal [OF i(2)]
    have "cell_at (rdCells st currentSheetID) (coordinate input) = cellFromInput currentSheetID 0 input" by simp
    moreover have "currentSheetID \<noteq> []" using c ids by auto
    moreover have "differs (map fst sheets) existing (rdCells st) (map (Pair currentSheetID) (suKeys written)) (currentSheetID, coordinate input)"
      using i(1) keys by (auto simp: differs_def)
    ultimately show ?thesis
      by (simp add: e final input_for_def inputFromCell_def cell_written_def cellFromInput_def target_sheet_def coordinate_def)
  qed
  show "final_input currentSheetID expanded (sheetID, key) = None"
    if t: "typed (cell_at (existing sheetID) key)" "(sheetID, key) \<notin> Pair currentSheetID ` coordinate ` set submitted"
  proof -
    have "cell_at (?before sheetID) key = cell_at (existing sheetID) key"
    proof (cases "sheetID = currentSheetID")
      case True
      have "out_of_index ?start key"
        unfolding out_of_index_def
      proof
        fix source
        show "key \<notin> set (suIndex ?start source)"
          using submitted_index [OF start, of key source] t(1) True by (auto simp: typed_def)
      qed
      from submitLoop_keeps [OF s this] t(2) True show ?thesis by (auto simp: coordinate_def image_iff)
    qed simp
    with kept [of sheetID key] t(1) have "cell_at (rdCells st sheetID) key = cell_at (existing sheetID) key" by simp
    with t(2) keys have "\<not> differs (map fst sheets) existing (rdCells st) (map (Pair currentSheetID) (suKeys written)) (sheetID, key)"
      by (auto simp: differs_def)
    then show ?thesis by (simp add: e final)
  qed
qed

text \<open>
  C15. Recalculation never changes a value that somebody typed. What it writes has, for a
  submitted value, exactly the submitted value, style and note; and it writes no other cell that holds a value of its own, whatever the
  formulas of the workbook compute, whatever arrays they spill and however many rounds it takes: such a cell is
  written only by being submitted. The sheets have identifiers that differ in more than case, and the cells are in the grid.
\<close>

theorem typed_values_survive:
  assumes "recalculateCellInputs T sheets existing currentSheetID submitted forceAll names = Inr (expanded, recalculated, errors)"
    and "sheet_ids_ok sheets" "\<forall>sheetID. grid_cells (existing sheetID)" "\<forall>input \<in> set submitted. grid_key (coordinate input)"
  shows "(\<forall>input \<in> set submitted. literal input \<longrightarrow>
      map_option (cell_written currentSheetID 0) (final_input currentSheetID expanded (currentSheetID, coordinate input)) =
        Some (cellFromInput currentSheetID 0 input)) \<and>
    (\<forall>sheetID key. typed (cell_at (existing sheetID) key) \<longrightarrow> (sheetID, key) \<notin> Pair currentSheetID ` coordinate ` set submitted \<longrightarrow>
      final_input currentSheetID expanded (sheetID, key) = None)"
  using recalculation_typed [OF assms] by blast

section \<open>Writing with recalculation\<close>

text \<open>The engine of the cell store with the recalculation of this theory; the sheets are those of the workbook.\<close>

definition with_recalculation ::
  "'f recalc_tools \<Rightarrow> (string \<times> string) list \<Rightarrow> ('o \<Rightarrow> 'f nameContext) \<Rightarrow> 'o engine \<Rightarrow> 'o engine" where
  "with_recalculation T sheets names en =
     en\<lparr>enRecalculate := \<lambda>others cells sheetID effective.
       recalculateCellInputs T sheets cells sheetID effective False (names others)\<rparr>"

definition submitted_keys :: "operation \<Rightarrow> cellKey set" where
  "submitted_keys item = (\<lambda>c. (ccRow c, ccColumn c)) ` set (opSubmitted item)"

lemma logged_more: "logged before result after \<Longrightarrow> wsOperations after \<noteq> wsOperations before"
  by (auto simp: logged_def Let_def dest: arg_cong [of _ _ length])

lemma submitted_keys_coordinates:
  "(\<lambda>c. (ccRow c, ccColumn c)) ` set (submittedCoordinates inputs) = coordinate ` set inputs"
  by (force simp: submittedCoordinates_def coordinate_def)

text \<open>
  C14. A write changes no value that somebody typed elsewhere. When a write of values and formulas has been
  recorded, every cell of the workbook with a value of its own, on every sheet, is in the store as it was before, unless the operation
  says that it was submitted; the formulas that the write leads to, and the arrays they show, cannot reach it.
\<close>

theorem write_spares_typed_values:
  assumes "workbooks_ok r" "ApplyCells (with_recalculation T sheets names en) ids now mutation r = (Inr result, r')"
    and "sheetState r (cmSheetID mutation) = Inr (workbookID, before)" "sheetState r' (cmSheetID mutation) = Inr (workbookID, after)"
    and "logged before result after" "\<not> formatMutation mutation"
    and "sheet_ids_ok sheets" "\<forall>sheetID. grid_cells (wsCells before sheetID)"
    and "\<forall>key \<in> submitted_keys (last (wsOperations after)). grid_key key"
    and "typed (cell_at (wsCells before sheetID) key)"
    and "sheetID \<noteq> cmSheetID mutation \<or> key \<notin> submitted_keys (last (wsOperations after))"
  shows "map_of (wsCells after sheetID) key = map_of (wsCells before sheetID) key"
  using assms(2)
proof (cases rule: ApplyCells_cases)
  case (applied w state)
  with assms(3) have eq: "w = workbookID" "state = before" by auto
  note st = sheetState_ok [OF assms(1,3)]
  from applied(5) [unfolded eq] show ?thesis
  proof (cases rule: applyLocked_cases)
    case (gone dropped moved res)
    with assms(3,4) logged_more [OF assms(5)] show ?thesis by simp
  next
    case (unchanged res)
    let ?after = "before\<lparr>wsIdempotent := AList.update (idempotency_key mutation) res (wsIdempotent before)\<rparr>"
    have "sheetState r' (cmSheetID mutation) = Inr (workbookID, ?after)"
      by (rule sheetState_after [OF st(3)]) (simp_all add: unchanged(4))
    with assms(4) logged_more [OF assms(5)] show ?thesis by auto
  next
    case (written rebased dropped moved conflicts effective plan res)
    let ?m = "mutation\<lparr>cmCells := rebased\<rparr>"
    note c = commitWrite_store [OF written(5)]
    have after: "after = committedState now ?m before plan res"
      using sheetState_after [OF st(3) c(2) c(4)] assms(4) by simp
    have item: "submitted_keys (last (wsOperations after)) = coordinate ` set (plEffective plan)"
      by (simp add: after committedState_def committedOperation_def Let_def submitted_keys_def submitted_keys_coordinates)
    have nf: "\<not> formatMutation ?m" using assms(6) by (simp add: formatMutation_def)
    obtain others recalculated errors where
      rc: "recalculateCellInputs T sheets (wsCells before) (cmSheetID mutation) (plEffective plan) False (names others) =
        Inr (plExpanded plan, recalculated, errors)"
      using planWrite_expanded [OF written(4) nf] by (auto simp: with_recalculation_def)
    have "final_input (cmSheetID mutation) (plExpanded plan) (sheetID, key) = None"
      by (rule recalculation_typed(2) [OF rc assms(7,8) _ assms(10)]) (use assms(9,11) item in auto)
    then show ?thesis by (simp add: after committedState_def writeCells_cells)
  qed simp
qed (use assms(3,4) logged_more [OF assms(5)] in simp_all)

section \<open>A small workbook\<close>

definition digit_tools :: "int recalc_tools" where
  "digit_tools =
     \<lparr>mcRead = (\<lambda>_. Inr None), mcSet = (\<lambda>style _. Inr style),
      scEncode = (\<lambda>v. case v of VNumber x \<Rightarrow> Inr (itoa x) | VNil \<Rightarrow> Inr ''null'' | _ \<Rightarrow> Inl ErrInvalid),
      scQuote = (\<lambda>s. [quoteChar] @ s @ [quoteChar]),
      rtLibrary = whole_library, rtDepth = 30, rtDecode = (\<lambda>s. map_option VNumber (atoi s)), rtText = (\<lambda>_. None)\<rparr>"

definition no_names :: "int nameContext" where
  "no_names = \<lparr>ncRanges = [], ncFunctions = [], ncImports = [], ncExternal = [], ncTables = []\<rparr>"

definition small_cell :: "string \<Rightarrow> int \<Rightarrow> int \<Rightarrow> string \<Rightarrow> string \<Rightarrow> Cell" where
  "small_cell sheetID row column v formula =
     zeroCell\<lparr>ceSheetID := sheetID, ceRow := row, ceColumn := column, ceValue := v, ceFormula := formula\<rparr>"

definition small_workbook :: "string \<Rightarrow> sheet_cells" where
  "small_workbook = (\<lambda>_. [])(''s'' :=
     [((1, 1), small_cell ''s'' 1 1 ''2'' []), ((2, 1), small_cell ''s'' 2 1 ''7'' []),
      ((1, 2), small_cell ''s'' 1 2 ''2'' ''=A1:A2'')])"

definition new_value :: CellInput where
  "new_value = \<lparr>ciSheetID = ''s'', ciRow = 1, ciColumn = 1, ciValue = ''3'', ciFormula = [], ciStyle = [], ciNote = [], ciSpillSource = []\<rparr>"

definition show_input :: "CellInput \<Rightarrow> cellKey \<times> string \<times> string" where
  "show_input input = (coordinate input, ciValue input, ciSpillSource input)"

lemma small_run:
  "(case recalculateCellInputs digit_tools [(''s'', ''Sheet1'')] small_workbook ''s'' [new_value] False no_names of
      Inl _ \<Rightarrow> False
    | Inr (expanded, recalculated, errors) \<Rightarrow>
        map show_input expanded = [((1, 1), ''3'', []), ((1, 2), ''3'', []), ((2, 2), ''7'', ''B1'')] \<and>
        map (\<lambda>c. (ccRow c, ccColumn c)) recalculated = [(1, 2), (2, 2)] \<and> errors = [])"
  by code_simp

lemma small_workbook_ok:
  "sheet_ids_ok [(''s'', ''Sheet1'')]" "\<forall>sheetID. grid_cells (small_workbook sheetID)"
  "\<forall>input \<in> set [new_value]. grid_key (coordinate input)"
proof -
  show "sheet_ids_ok [(''s'', ''Sheet1'')]" "\<forall>input \<in> set [new_value]. grid_key (coordinate input)" by code_simp+
  have "grid_cells (small_workbook ''s'')" by code_simp
  then show "\<forall>sheetID. grid_cells (small_workbook sheetID)" by (auto simp: small_workbook_def grid_cells_def)
qed

theorem typed_values_survive_witness:
  "\<exists>expanded recalculated. recalculateCellInputs digit_tools [(''s'', ''Sheet1'')] small_workbook ''s'' [new_value] False no_names =
      Inr (expanded, recalculated, []) \<and>
    map show_input expanded = [((1, 1), ''3'', []), ((1, 2), ''3'', []), ((2, 2), ''7'', ''B1'')] \<and>
    final_input ''s'' expanded (''s'', 2, 1) = None \<and>
    map_option (cell_written ''s'' 0) (final_input ''s'' expanded (''s'', 1, 1)) = Some (cellFromInput ''s'' 0 new_value)"
proof -
  obtain expanded recalculated where r: "recalculateCellInputs digit_tools [(''s'', ''Sheet1'')] small_workbook ''s'' [new_value] False no_names =
      Inr (expanded, recalculated, [])"
    "map show_input expanded = [((1, 1), ''3'', []), ((1, 2), ''3'', []), ((2, 2), ''7'', ''B1'')]"
    using small_run by (auto split: sum.splits prod.splits)
  note t = typed_values_survive [OF r(1) small_workbook_ok]
  have c: "typed (cell_at (small_workbook ''s'') (2, 1))" "literal new_value" "coordinate new_value = (1, 1)" by code_simp+
  from t [THEN conjunct1, THEN bspec, of new_value] t [THEN conjunct2, rule_format, OF c(1)] c(2,3) r show ?thesis by auto
qed

definition small_store :: "unit cell_store" where
  "small_store = demo_store (small_workbook ''s'') []"

definition small_engine :: "unit engine" where
  "small_engine = with_recalculation digit_tools [(''s'', ''Sheet1'')] (\<lambda>_. no_names) plain_engine"

definition small_write :: CellMutation where
  "small_write = demo_write ''ann'' ''k'' [new_value]"

lemma small_applied:
  "(case ApplyCells small_engine (demo_ids ''o1'') 5 small_write small_store of (res, r') \<Rightarrow>
      is_ok res \<and> is_ok (sheetState r' ''s'') \<and> fst (projr (sheetState r' ''s'')) = ''w'' \<and> wsVersion (demo_state r') = 2 \<and>
      map (\<lambda>c. (ccRow c, ccColumn c)) (opSubmitted (last (wsOperations (demo_state r')))) = [(1, 1)] \<and>
      demo_value r' 1 2 = ''3'' \<and> demo_value r' 2 2 = ''7'')"
  by code_simp

lemma small_store_ok: "workbooks_ok small_store"
proof -
  have "cells_ok ''s'' (small_workbook ''s'')"
    by (simp add: cells_ok_def small_workbook_def small_cell_def isEmptyCell_def) code_simp
  then show ?thesis unfolding small_store_def by (rule demo_store_ok)
qed

theorem write_spares_typed_values_witness:
  "\<exists>result r' after. ApplyCells small_engine (demo_ids ''o1'') 5 small_write small_store = (Inr result, r') \<and>
    sheetState r' ''s'' = Inr (''w'', after) \<and> ceValue (cell_at (wsCells after ''s'') (2, 2)) = ''7'' \<and>
    map_of (wsCells after ''s'') (2, 1) = map_of (small_workbook ''s'') (2, 1)"
proof -
  obtain res r' where a: "ApplyCells small_engine (demo_ids ''o1'') 5 small_write small_store = (res, r')" by (rule prod.exhaust)
  with small_applied have f: "is_ok res" "is_ok (sheetState r' ''s'')" "fst (projr (sheetState r' ''s'')) = ''w''"
    "wsVersion (demo_state r') = 2" "submitted_keys (last (wsOperations (demo_state r'))) = {(1, 1)}" "demo_value r' 2 2 = ''7''"
    by (auto simp: submitted_keys_def simp flip: set_map)
  define result where "result = projr res"
  have run: "ApplyCells small_engine (demo_ids ''o1'') 5 small_write small_store = (Inr result, r')"
    using a is_ok_Inr [OF f(1)] by (simp add: result_def)
  have b: "sheetState small_store (cmSheetID small_write) = Inr (''w'', demo_state small_store)"
    "wsVersion (demo_state small_store) = 1" "wsCells (demo_state small_store) = small_workbook"
    "cmSheetID small_write = ''s''"
    by (simp_all add: small_write_def demo_write_def small_store_def demo_store_def sheetState_def demo_state_def small_workbook_def fun_eq_iff)
  have s: "sheetState r' (cmSheetID small_write) = Inr (''w'', demo_state r')" using demo_sheet [OF f(2,3)] by (simp add: b(4))
  obtain after where o: "sheetState r' (cmSheetID small_write) = Inr (''w'', after)"
    "same_cells (demo_state small_store) after \<or> logged (demo_state small_store) result after"
    using ApplyCells_outcome [OF small_store_ok run b(1)] by blast
  with s f(4) b(2) have l: "logged (demo_state small_store) result (demo_state r')" by (auto simp: same_cells_def)
  have nf: "\<not> formatMutation small_write" by (simp add: small_write_def demo_write_def formatMutation_def)
  have t: "typed (cell_at (wsCells (demo_state small_store) ''s'') (2, 1))" unfolding b(3) by code_simp
  have g: "\<forall>key \<in> submitted_keys (last (wsOperations (demo_state r'))). grid_key key" unfolding f(5) by code_simp
  have grid: "\<forall>sheetID. grid_cells (wsCells (demo_state small_store) sheetID)" unfolding b(3) by (rule small_workbook_ok(2))
  have "map_of (wsCells (demo_state r') ''s'') (2, 1) = map_of (wsCells (demo_state small_store) ''s'') (2, 1)"
    by (rule write_spares_typed_values [OF small_store_ok run [unfolded small_engine_def] b(1) s l nf small_workbook_ok(1) grid g t])
      (simp add: f(5))
  with run s f(6) show ?thesis by (auto simp: b(3,4) demo_value_def)
qed

theorem difference_is_written_witness:
  "differs [''s''] small_workbook (\<lambda>_. []) [] (''s'', 1, 1) \<and>
    cellsEqual (cell_at (wrCells (writeCells ''s'' 5 (changedCellInputs [''s''] small_workbook (\<lambda>_. []) []) small_workbook) ''s'') (1, 1)) zeroCell"
proof -
  have "cell_at ([] :: sheet_cells) (1, 1) = zeroCell" by (simp add: cell_at_def)
  with difference_is_written [of "[''s'']" "[]" "''s''" "''s''" small_workbook "\<lambda>_. []" 5 "(1, 1)"]
  have w: "cellsEqual (cell_at (wrCells (writeCells ''s'' 5 (changedCellInputs [''s''] small_workbook (\<lambda>_. []) []) small_workbook) ''s'') (1, 1)) zeroCell"
    by simp
  have "differs [''s''] small_workbook (\<lambda>_. []) [] (''s'', 1, 1)" by code_simp
  with w show ?thesis by simp
qed

end
