(* ===== verification/Spec2Isabelle.thy ===== *)
theory Spec2Isabelle
  imports CellRange FormulaText Layout SharingStore Scenarios WorkbookWrites
begin

text \<open>
  A verification development for \<^verbatim>\<open>kanpic\<close>, a collaborative spreadsheet server in
  Go (\<^verbatim>\<open>src/\<close>). A workbook holds sheets; a sheet holds cells with formulas, a
  layout (sizes, hidden rows, outline groups, frozen panes, slicers) and objects attached to
  ranges of cells. People share a workbook directly, through their department or through a
  link; protected ranges decide who may write where inside it. Rows and columns are
  inserted, deleted and moved while others write, so that every stored position, range and
  formula has to follow. This is the logic modelled here, from the Go sources, as functions
  on explicit state; the in-memory repository is the state, and its methods, each holding the
  repository's lock, are one function each.

  \<^bold>\<open>Theories, in the order of the calls.\<close>

  \<^item> \<open>Prelude\<close>: errors and results, the parts of Go's \<^verbatim>\<open>strings\<close> and
    \<^verbatim>\<open>strconv\<close> the code calls, 64-bit wrap-around, generic lemmas. \<open>Utf8\<close>:
    decoding and counting of runes.
  \<^item> \<open>CellRange\<close> (\<^verbatim>\<open>pkg/cellrange/range.go\<close>): reading and printing of
    addresses; what is read lies in the sheet, and reading inverts printing.
  \<^item> \<open>Motion\<close>: the interface between structural changes and everything that stores an
    index or an interval, as the locales \<open>index_motion\<close> and \<open>span_motion\<close>.
    \<open>Structure\<close> (\<^verbatim>\<open>internal/formula/structure.go\<close>, the transforms of positions and
    ranges) provides it (\<open>formula_motion\<close>): a move is a permutation that can be undone, the
    interval after a change is the hull of where its rows went, a stored range follows its
    cells. \<open>SheetStructure\<close> (\<^verbatim>\<open>internal/workbook/structure.go\<close>, \<^verbatim>\<open>rebase.go\<close>)
    interprets it for the cell store (\<open>sheet_motion\<close>): rebasing a pending write never makes
    two writes collide, and store and formulas agree on where a row goes.
  \<^item> \<open>FormulaText\<close> (the scanner of \<^verbatim>\<open>internal/formula/structure.go\<close>): references in
    a formula follow their cells, string literals and other sheets are left alone.
  \<^item> \<open>Dimensions\<close> and \<open>Layout\<close> (\<^verbatim>\<open>internal/workbook/layout.go\<close>,
    \<^verbatim>\<open>memory_layout.go\<close>): the normal form of a layout as an invariant, the effect of
    each request, idempotency and optimistic revisions, structural moves (\<open>hidden_motion\<close>).
  \<^item> \<open>Sharing\<close> (\<^verbatim>\<open>internal/workbook/sharing.go\<close>): roles, validation and the access
    decision, against the specification \<open>the strongest grant that applies\<close>. \<open>Forest\<close>: walks
    up a parent relation, as the locale \<open>parent_forest\<close>; \<open>Departments\<close> and
    \<open>SharingStore\<close> (\<^verbatim>\<open>internal/workbook/memory_sharing.go\<close>): the department tree
    (\<open>department_forest\<close>: every loop over parents ends), share rows, ownership, requests for
    access, with the two critical sections of a decision as a step relation.
  \<^item> \<open>RuleStore\<close>: the invariant the tables of rules share, as the locale \<open>rule_store\<close>.
    \<open>Protected\<close> (\<^verbatim>\<open>internal/workbook/protected.go\<close>, \<^verbatim>\<open>memory_protected.go\<close>):
    protected ranges, what the check of a write reports, and that rules follow the cells they
    guard and stay readable. \<open>Follower\<close>: what a structural change promises an object that
    stands for cells, as the locale \<open>cell_follower\<close>, carried over every sequence of changes.
    \<open>WatchRules\<close> (\<^verbatim>\<open>watch_rule.go\<close>, \<^verbatim>\<open>memory_watch_rule.go\<close>): who is told about a
    change, against the specification \<open>notice_for\<close>. \<open>Scenarios\<close> (\<^verbatim>\<open>scenario.go\<close>,
    \<^verbatim>\<open>memory_scenario.go\<close>): assumptions about cells, and names used once in a workbook.
    Each of the three interprets both locales.
  \<^item> \<open>CellStore\<close> and \<open>CellWrites\<close> (\<^verbatim>\<open>memory_repository.go\<close>, \<^verbatim>\<open>conflicts.go\<close>,
    \<^verbatim>\<open>merge.go\<close>): the writes themselves. \<open>ApplyCells\<close> checks the request, answers a
    repeated one from memory, rebases it through the structural changes it has missed, finds
    its conflicts, dissolves merges, asks the protected ranges, recalculates, and only then
    writes, logs and counts the version; \<open>UndoOperation\<close> and \<open>ResolveCellConflict\<close> go
    through it. JSON styles, table growth, value validation and, here, recalculation are the
    argument \<open>engine\<close>, of which nothing is assumed, except that an undo restores a literal
    only if recalculation writes submitted literals (\<open>keeps_literals\<close>).
  \<^item> \<open>Graph\<close>, \<open>GraphEval\<close> and \<open>GraphResults\<close>
    (\<^verbatim>\<open>internal/formula/graph.go\<close>): recalculation over the dependency graph. What a
    changed cell reaches is exactly what depends on it (\<open>affected_exact\<close>), the search that
    follows dependencies visits every formula once and ends, and every computed formula has
    the value its engine gives it on the values around it. Parsing and evaluating one formula
    is the argument \<open>formula_engine\<close> of the graph.
  \<^item> \<open>Lexer\<close>, \<open>FormulaTree\<close> and \<open>FormulaParser\<close>
    (\<^verbatim>\<open>internal/formula/evaluator.go\<close>, \<^verbatim>\<open>binding.go\<close>,
    \<^verbatim>\<open>scope.go\<close>, \<^verbatim>\<open>named_function.go\<close>, \<^verbatim>\<open>table_reference.go\<close>,
    \<^verbatim>\<open>functions_reference.go\<close>, \<^verbatim>\<open>importrange.go\<close>,
    \<^verbatim>\<open>external.go\<close>): the formula scanner and the recursive descent parser with the
    dependencies it records. A parser is a function on \<open>parser_state\<close>; a panic is
    \<open>Crashed\<close> and the recursion of \<open>expression\<close> takes fuel (\<open>parserFuel\<close>: the
    tokens of the formula, and for each depth of named functions those of the longest body).
    \<open>ParserFacts\<close> and \<open>ParserRuns\<close> hold what the parser's methods promise one another, the
    locale \<open>expression_parser\<close>, interpreted on \<open>expression\<close> itself: parsing ends, and what
    the tree reads is recorded as a dependency. \<open>Operators\<close> prints expressions with the
    parentheses they need and shows that they are parsed back; \<open>FormulaRequests\<close> has the limit
    of a range and what the workbook reads off the text of a formula before it calculates.
  \<^item> \<open>FormulaValues\<close> and \<open>FormulaEval\<close> (\<^verbatim>\<open>evaluator.go\<close>, \<^verbatim>\<open>functions.go\<close>,
    \<^verbatim>\<open>binding.go\<close>, \<^verbatim>\<open>functions_reference.go\<close>): the evaluation of a tree. An evaluation ends in a value, an
    error, a panic or a recursion deeper than the stack (\<open>answer\<close>); each \<^verbatim>\<open>eval\<close> method is a definition over the
    evaluation of the nodes inside, and \<open>eval\<close> ties them with the depth of the stack that is left. \<^verbatim>\<open>float64\<close>
    arithmetic, dates and the functions of the library that are not written out are the record
    \<open>evaluation_library\<close>. \<open>FormulaLocal\<close>: evaluation looks at the cells its tree names and at no others, from the
    locale \<open>local_evaluator\<close>, the contract of the nodes inside. \<open>FormulaEngine\<close> puts scanner, parser and evaluator
    into the graph, so that what the graph asks of an engine is proved of the code's own. \<open>FormulaAnswers\<close> has
    what evaluation promises and where it does not keep it.
  \<^item> \<open>Spill\<close>, \<open>Recalculation\<close>, \<open>RecalculationRuns\<close> and \<open>WorkbookWrites\<close>
    (\<^verbatim>\<open>recalculation.go\<close>, \<^verbatim>\<open>merge.go\<close>): the recalculation that a write calls, on the graph and the
    evaluator. \<open>materializeSpill\<close> shows the array of a formula where all its places are free;
    \<open>recalculateCellInputs\<close> puts the submitted cells into the sheet, recalculates what they lead to, and again what
    spilling changed, for eight rounds at most (\<open>recalculationRounds\<close>, the number of the source; a workbook that has not settled
    then is refused), and gives the cells to write, which are the difference. A value that somebody typed is never
    overwritten, by whatever formula; \<open>with_recalculation\<close> is the \<open>engine\<close> of the cell store with it, and the same is
    proved of \<open>ApplyCells\<close>. Tables name their columns after their headers (\<open>TableColumns\<close>).

  \<^bold>\<open>Conventions.\<close> A Go \<^verbatim>\<open>error\<close> is the sentinel it wraps, without the message. A
  Go map is an association list or a function to \<open>option\<close>; where the code ranges over a map
  and then sorts, the result is determined up to entries the sort cannot tell apart. New ids,
  the clock and the Unicode tables are arguments. A \<^verbatim>\<open>float64\<close> size is a rational
  number. Loops over parent pointers are \<open>partial_function (option)\<close>: \<open>None\<close> is a loop that
  does not end, and the theorems show \<open>Some\<close>. Case mapping covers ASCII.

  \<^bold>\<open>Not modelled.\<close> The PostgreSQL repositories (SQL), the HTTP and MCP interfaces, the
  language model assistant, import and export of files, presentation decks, mail, metrics,
  settings, authentication, automation and the websocket hub are I/O around the core. The function library
  beyond the functions of \<open>FormulaEval\<close>, JSON (decoding and encoding values are arguments), the other methods of the
  in-memory repository (import, duplication, sheets, versions), charts, pivots, conditional
  formats, validations, tables, filters, sorting and search are future work.
\<close>

section \<open>Everything follows the cells, through any history of edits\<close>

text \<open>
  C28. However long a sheet has been edited, its objects still stand for the same cells. Take
  any sequence of structural changes and a cell that none of them deleted: a range protected,
  a rule watching or a scenario assuming a value of the cell at the start protects, watches
  or assumes it at the end, where the changes have put it; none of them has been dropped on
  the way.
\<close>

theorem objects_follow_edits:
  assumes "list_all (\<lambda>m. valid_mutation (fst m)) edits" "place_all moved_cell edits p = Some q"
    and "range_rule rule" "follow_all move_rule edits rule = Inr rule'"
    and "watch_ok watch" "follow_all move_watch edits watch = Inr watch'"
    and "scenario_ok item" "follow_all move_scenario edits item = Inr item'"
  shows "(guards_cell rule p \<longrightarrow> (\<exists>r. rule' = Some r \<and> guards_cell r q)) \<and>
    (WatchRuleCovers watch (fst p) (snd p) \<longrightarrow> (\<exists>w. watch' = Some w \<and> WatchRuleCovers w (fst q) (snd q))) \<and>
    (assumes_cell item p \<longrightarrow> (\<exists>s. item' = Some s \<and> assumes_cell s q))"
  using protection_follower.follow_all_covers [OF assms(1,3,4) _ assms(2)]
    watch_follower.follow_all_covers [OF assms(1,5,6) _ assms(2)]
    scenario_follower.follow_all_covers [OF assms(1,7,8) _ assms(2)] by blast

definition two_edits :: "(StructuralMutation \<times> int) list" where
  "two_edits = [(one_row ''insert'' 2, 7), (row_request ''move'' 3 1 1, 8)]"

theorem objects_follow_edits_witness:
  "place_all moved_cell two_edits (2, 2) = Some (1, 2) \<and>
   (\<exists>r. follow_all move_rule two_edits (sample_rule ''p'' ''range'' ''A1:B2'' False) = Inr (Some r) \<and> guards_cell r (1, 2)) \<and>
   (\<exists>w. follow_all move_watch two_edits (sample_watch ''1'' ''eve'' ''B2:C3'') = Inr (Some w) \<and> WatchRuleCovers w 1 2) \<and>
   (\<exists>s. follow_all move_scenario two_edits (sample_scenario ''1'' ''best'' [''B2'']) = Inr (Some s) \<and> assumes_cell s (1, 2))"
proof -
  let ?rule = "sample_rule ''p'' ''range'' ''A1:B2'' False" and ?watch = "sample_watch ''1'' ''eve'' ''B2:C3''"
    and ?item = "sample_scenario ''1'' ''best'' [''B2'']"
  have v: "list_all (\<lambda>m. valid_mutation (fst m)) two_edits" by code_simp
  have p: "place_all moved_cell two_edits (2, 2) = Some (1, 2)" by code_simp
  have ok: "range_rule ?rule" "watch_ok ?watch" "scenario_ok ?item" by code_simp+
  have has: "WatchRuleCovers ?watch (fst (2, 2)) (snd (2, 2))" "assumes_cell ?item (2, 2)"
    by code_simp+
  have "is_ok (NormalizeProtectedRange ?rule)" "rule_range ?rule = ''A1:B2''" "rule_exceptions ?rule = []"
    "Parse ''A1:B2'' = Inr \<lparr>Start = \<lparr>Row = 1, Column = 1\<rparr>, End = \<lparr>Row = 2, Column = 2\<rparr>\<rparr>"
    "in_sheet \<lparr>Row = 2, Column = 2\<rparr>" by code_simp+
  then have g: "guards_cell ?rule (2, 2)" by (simp add: guards_cell_def guards_def exempt_def Contains_def)
  have ran: "isl (follow_all move_rule two_edits ?rule) = False" "isl (follow_all move_watch two_edits ?watch) = False"
    "isl (follow_all move_scenario two_edits ?item) = False" by code_simp+
  obtain rule' watch' item' where f: "follow_all move_rule two_edits ?rule = Inr rule'"
    "follow_all move_watch two_edits ?watch = Inr watch'" "follow_all move_scenario two_edits ?item = Inr item'"
    using ran unfolding isl_def by (metis sum.exhaust)
  from objects_follow_edits [OF v p ok(1) f(1) ok(2) f(2) ok(3) f(3)] has g p f show ?thesis by auto
qed

end
